(* ===== verification/Prelude.thy ===== *)
theory Prelude
  imports Main "HOL-Library.Word"
begin

text \<open>
  Shared material of the development: the collections of simplification rules the component
  theories extend, the names of the machine integer types, and generic lemmas on lists and byte
  buffers that no component owns.

  A byte buffer is a \<open>byte list\<close>; \<open>memcpy dst off src n\<close> is the C library's \<open>memcpy\<close> of the
  first \<open>n\<close> bytes of \<open>src\<close> to \<open>dst + off\<close>. It is only called where the copy is in bounds, and
  the lemmas below carry that side condition.
\<close>

unbundle bit_operations_syntax

named_theorems json_simps \<open>reading and writing JSON values\<close>
named_theorems text_simps \<open>operations on strings\<close>
named_theorems state_simps \<open>projections of the components' states\<close>

type_synonym byte = "8 word"
type_synonym u16 = "16 word"
type_synonym u32 = "32 word"
type_synonym u64 = "64 word"

section \<open>Byte buffers\<close>

definition memcpy :: "byte list \<Rightarrow> nat \<Rightarrow> byte list \<Rightarrow> nat \<Rightarrow> byte list" where
  "memcpy dst off src n = take off dst @ take n src @ drop (off + n) dst"

definition slice :: "nat \<Rightarrow> nat \<Rightarrow> 'a list \<Rightarrow> 'a list" where
  "slice off n xs = take n (drop off xs)"

lemma length_memcpy [simp]:
  "off + n \<le> length dst \<Longrightarrow> n \<le> length src \<Longrightarrow> length (memcpy dst off src n) = length dst"
  by (simp add: memcpy_def)

lemma length_slice [simp]: "length (slice off n xs) = min n (length xs - off)"
  by (simp add: slice_def)

lemma nth_memcpy:
  assumes "off + n \<le> length dst" and "n \<le> length src" and "i < length dst"
  shows "memcpy dst off src n ! i = (if off \<le> i \<and> i < off + n then src ! (i - off) else dst ! i)"
  using assms by (auto simp: memcpy_def nth_append)

lemma nth_slice: "i < n \<Longrightarrow> off + i < length xs \<Longrightarrow> slice off n xs ! i = xs ! (off + i)"
  by (simp add: slice_def)

lemma slice_memcpy_same:
  assumes "off + n \<le> length dst" and "n \<le> length src"
  shows "slice off n (memcpy dst off src n) = take n src"
  using assms by (simp add: slice_def memcpy_def min_def)

section \<open>The last elements of a list\<close>

definition last_n :: "nat \<Rightarrow> 'a list \<Rightarrow> 'a list" where
  "last_n n xs = drop (length xs - n) xs"

lemma length_last_n [simp]: "length (last_n n xs) = min n (length xs)"
  by (simp add: last_n_def min_def)

lemma last_n_all [simp]: "length xs \<le> n \<Longrightarrow> last_n n xs = xs"
  by (simp add: last_n_def)

lemma last_n_append_last_n: "last_n n (last_n n xs @ ys) = last_n n (xs @ ys)"
proof (cases "length xs \<le> n")
  case True
  then show ?thesis by simp
next
  case False
  then show ?thesis
    by (cases "length ys \<le> n") (simp_all add: last_n_def add.commute)
qed

lemma set_last_n_subset: "set (last_n n xs) \<subseteq> set xs"
  by (simp add: last_n_def set_drop_subset)

section \<open>Folding a step that cannot fail over a list\<close>

lemma foldl_invariant:
  assumes "I s" and "\<And>s x. x \<in> set xs \<Longrightarrow> I s \<Longrightarrow> I (f s x)"
  shows "I (foldl f s xs)"
  using assms by (induction xs arbitrary: s) auto

lemma Collect_less_Suc:
  "{f i |i. i < Suc n \<and> R i} = (if R 0 then {f 0} else {}) \<union> {f (Suc i) |i. i < n \<and> R (Suc i)}"
  unfolding less_Suc_eq_0_disj by (cases "R 0") (simp_all, blast+)

end
