(* ===== verification/ShmMirror.thy ===== *)
theory ShmMirror
  imports Prelude
begin

text \<open>
  The shared-memory data plane of the daemon: the header and the entry descriptions of
  \<^verbatim>\<open>src/core/nekoecat_shm.h\<close> and the mirror cycle of \<^verbatim>\<open>apps/ecatd/freerun_shm_mirror.cpp\<close>.

  A pointer of \<open>ShmMirrorContext\<close> is the value it points to: \<open>None\<close> is the null pointer, and the
  cycle returns the context with the values it stored. The two shared buffers and the domain
  image are separate byte lists. A \<open>size_t\<close> is a \<open>nat\<close>: the largest sum the code forms,
  \<open>offset + 32\<close>, is far below \<open>2^64\<close>. The header counters keep their width and wrap.
\<close>

section \<open>Constants and records of nekoecat_shm.h\<close>

definition MAX_PROCESS_DATA_SIZE :: nat where
  "MAX_PROCESS_DATA_SIZE = 4096"

definition LAYOUT_VERSION :: u32 where
  "LAYOUT_VERSION = 1"

definition FLAG_RUNNING :: u32 where
  "FLAG_RUNNING = 1"

record shm_header =
  version :: u64
  cycle_count :: u64
  timestamp_ns :: u64
  active_buffer :: u32
  data_size :: u32
  layout_version :: u32
  status_flags :: u32
  ignored_writes :: u32

record mirror_entry =
  me_slave :: u16
  me_index :: u16
  me_sub :: byte
  me_bit_length :: byte
  me_direction :: string
  me_offset :: u32

record mirror_ctx =
  domain_data :: "byte list option"
  shm_data0 :: "byte list option"
  shm_data1 :: "byte list option"
  entries :: "mirror_entry list"
  ctx_data_size :: nat
  ctx_timestamp :: u64
  active_ref :: u32
  version_ref :: "u64 option"
  cycle_ref :: "u64 option"
  timestamp_ref :: "u64 option"
  flags_ref :: "u32 option"
  ignored_ref :: "u32 option"

section \<open>The size of the process image\<close>

definition entry_bytes :: "mirror_entry \<Rightarrow> nat" where
  "entry_bytes e = (unat (me_bit_length e) + 7) div 8"

definition entry_end :: "mirror_entry \<Rightarrow> nat" where
  "entry_end e = unat (me_offset e) + entry_bytes e"

fun max_end :: "nat \<Rightarrow> mirror_entry list \<Rightarrow> nat" where
  "max_end m [] = m"
| "max_end m (e # es) = max_end (if entry_end e > m then entry_end e else m) es"

definition computeProcessDataSize :: "mirror_entry list option \<Rightarrow> nat" where
  "computeProcessDataSize es =
     (case es of None \<Rightarrow> 0 | Some xs \<Rightarrow> if xs = [] then 0 else max_end 0 xs)"

section \<open>One mirror cycle\<close>

definition is_output :: "mirror_entry \<Rightarrow> bool" where
  "is_output e \<longleftrightarrow> me_direction e = ''RxPDO''"

definition out_of_bounds :: "nat \<Rightarrow> mirror_entry \<Rightarrow> bool" where
  "out_of_bounds sz e \<longleftrightarrow>
     unat (me_offset e) > sz \<or> entry_bytes e > sz - unat (me_offset e)"

definition overlay_entry ::
  "nat \<Rightarrow> byte list \<Rightarrow> mirror_entry \<Rightarrow> byte list \<times> byte list \<times> u32 \<Rightarrow> byte list \<times> byte list \<times> u32"
where
  \<comment> \<open>one turn of the loop: the inactive buffer, the domain image and the ignored count\<close>
  "overlay_entry sz active e st = (case st of (inactive, dom_img, ignored) \<Rightarrow>
     if \<not> is_output e then (inactive, dom_img, ignored)
     else if entry_bytes e = 0 then (inactive, dom_img, ignored)
     else if out_of_bounds sz e then (inactive, dom_img, ignored + 1)
     else
       (let off = unat (me_offset e); src = drop off active; bl = entry_bytes e
        in (memcpy inactive off src bl, memcpy dom_img off src bl, ignored)))"

definition overlay ::
  "nat \<Rightarrow> byte list \<Rightarrow> mirror_entry list \<Rightarrow> byte list \<times> byte list \<times> u32 \<Rightarrow> byte list \<times> byte list \<times> u32"
where
  "overlay sz active es st = foldl (\<lambda>s e. overlay_entry sz active e s) st es"

definition active_index :: "mirror_ctx \<Rightarrow> u32" where
  "active_index ctx = (if active_ref ctx > 1 then 0 else active_ref ctx)"

definition mirrorToShm :: "mirror_ctx option \<Rightarrow> mirror_ctx option" where
  "mirrorToShm arg = (case arg of None \<Rightarrow> None | Some ctx \<Rightarrow>
     (case (domain_data ctx, shm_data0 ctx, shm_data1 ctx) of
        (Some dom_img, Some b0, Some b1) \<Rightarrow>
          (let sz = min (ctx_data_size ctx) MAX_PROCESS_DATA_SIZE in
           if sz = 0 then Some ctx
           else
             let active = active_index ctx;
                 act_buf = (if active = 0 then b0 else b1);
                 inact_buf = (if active = 0 then b1 else b0);
                 copied = memcpy inact_buf 0 dom_img sz;
                 (new_buf, new_dom, ignored) =
                   overlay sz act_buf (entries ctx) (copied, dom_img, 0);
                 inactive = 1 - active
             in Some (ctx\<lparr>
                  domain_data := Some new_dom,
                  shm_data0 := Some (if active = 0 then b0 else new_buf),
                  shm_data1 := Some (if active = 0 then new_buf else b1),
                  ignored_ref := map_option (\<lambda>n. if ignored > 0 then n + ignored else n) (ignored_ref ctx),
                  timestamp_ref := map_option (\<lambda>_. ctx_timestamp ctx) (timestamp_ref ctx),
                  flags_ref := map_option (\<lambda>f. f OR FLAG_RUNNING) (flags_ref ctx),
                  cycle_ref := map_option (\<lambda>n. n + 1) (cycle_ref ctx),
                  active_ref := inactive,
                  version_ref := map_option (\<lambda>v. v + 1) (version_ref ctx)\<rparr>))
      | _ \<Rightarrow> Some ctx))"

section \<open>What the overlay computes\<close>

definition driven :: "nat \<Rightarrow> mirror_entry list \<Rightarrow> nat \<Rightarrow> bool" where
  \<comment> \<open>byte \<open>i\<close> belongs to an output entry that lies inside the image\<close>
  "driven sz es i \<longleftrightarrow>
     (\<exists>e \<in> set es. is_output e \<and> \<not> out_of_bounds sz e \<and>
        unat (me_offset e) \<le> i \<and> i < entry_end e)"

definition rejected :: "nat \<Rightarrow> mirror_entry list \<Rightarrow> nat" where
  "rejected sz es =
     length (filter (\<lambda>e. is_output e \<and> entry_bytes e \<noteq> 0 \<and> out_of_bounds sz e) es)"

lemma in_bounds_end: "\<not> out_of_bounds sz e \<Longrightarrow> entry_end e \<le> sz"
  by (auto simp: out_of_bounds_def entry_end_def)

lemma driven_Nil [simp]: "\<not> driven sz [] i"
  by (simp add: driven_def)

lemma driven_Cons: "driven sz (e # es) i \<longleftrightarrow>
    (is_output e \<and> \<not> out_of_bounds sz e \<and> unat (me_offset e) \<le> i \<and> i < entry_end e)
    \<or> driven sz es i"
  by (auto simp: driven_def)

lemma driven_bound: "driven sz es i \<Longrightarrow> i < sz"
  by (auto simp: driven_def dest: in_bounds_end)

lemma overlay_Nil [simp]: "overlay sz active [] st = st"
  by (simp add: overlay_def)

lemma overlay_Cons: "overlay sz active (e # es) st = overlay sz active es (overlay_entry sz active e st)"
  by (simp add: overlay_def)

text \<open>One entry: lengths stay, and each byte is the client's where the entry drives it.\<close>

lemma overlay_entry_step:
  assumes "sz \<le> length active" "sz \<le> length inact" "sz \<le> length dom_img"
    and "overlay_entry sz active e (inact, dom_img, n) = (inact', dom', n')"
  shows "length inact' = length inact" "length dom' = length dom_img"
    and "i < length inact \<Longrightarrow> inact' ! i = (if driven sz [e] i then active ! i else inact ! i)"
    and "i < length dom_img \<Longrightarrow> dom' ! i = (if driven sz [e] i then active ! i else dom_img ! i)"
    and "n' = n + of_nat (rejected sz [e])"
proof -
  let ?off = "unat (me_offset e)" and ?bl = "entry_bytes e"
  consider (skip) "\<not> is_output e \<or> ?bl = 0"
    | (oob) "is_output e" "?bl \<noteq> 0" "out_of_bounds sz e"
    | (copy) "is_output e" "?bl \<noteq> 0" "\<not> out_of_bounds sz e"
    by blast
  note cases = this
  have le: "?off + ?bl \<le> sz" if "\<not> out_of_bounds sz e"
    using in_bounds_end [OF that] by (simp add: entry_end_def)
  have "length inact' = length inact \<and> length dom' = length dom_img
    \<and> (i < length inact \<longrightarrow> inact' ! i = (if driven sz [e] i then active ! i else inact ! i))
    \<and> (i < length dom_img \<longrightarrow> dom' ! i = (if driven sz [e] i then active ! i else dom_img ! i))
    \<and> n' = n + of_nat (rejected sz [e])"
    using cases
  proof cases
    case skip
    then show ?thesis
      using assms(4)
      by (auto simp: overlay_entry_def driven_Cons rejected_def entry_end_def split: if_splits)
  next
    case oob
    then show ?thesis
      using assms(4) by (auto simp: overlay_entry_def driven_Cons rejected_def)
  next
    case copy
    from le [OF copy(3)] have b: "?off + ?bl \<le> sz" .
    have "inact' = memcpy inact ?off (drop ?off active) ?bl"
      "dom' = memcpy dom_img ?off (drop ?off active) ?bl" "n' = n"
      using copy assms(4) by (auto simp: overlay_entry_def Let_def)
    moreover have "driven sz [e] i \<longleftrightarrow> ?off \<le> i \<and> i < ?off + ?bl"
      using copy by (simp add: driven_Cons entry_end_def)
    ultimately show ?thesis
      using copy b assms(1-3) by (auto simp: nth_memcpy rejected_def)
  qed
  then show "length inact' = length inact" "length dom' = length dom_img"
    "i < length inact \<Longrightarrow> inact' ! i = (if driven sz [e] i then active ! i else inact ! i)"
    "i < length dom_img \<Longrightarrow> dom' ! i = (if driven sz [e] i then active ! i else dom_img ! i)"
    "n' = n + of_nat (rejected sz [e])"
    by auto
qed

lemma rejected_Cons: "rejected sz (e # es) = rejected sz [e] + rejected sz es"
  by (simp add: rejected_def)

lemma overlay_spec:
  assumes "sz \<le> length active" "sz \<le> length inact" "sz \<le> length dom_img"
    and "overlay sz active es (inact, dom_img, n) = (inact', dom', n')"
  shows "length inact' = length inact \<and> length dom' = length dom_img
    \<and> (\<forall>i < length inact. inact' ! i = (if driven sz es i then active ! i else inact ! i))
    \<and> (\<forall>i < length dom_img. dom' ! i = (if driven sz es i then active ! i else dom_img ! i))
    \<and> n' = n + of_nat (rejected sz es)"
  using assms
proof (induction es arbitrary: inact dom_img n)
  case Nil
  then show ?case by (simp add: rejected_def)
next
  case (Cons e es)
  obtain in1 dom1 n1 where step: "overlay_entry sz active e (inact, dom_img, n) = (in1, dom1, n1)"
    by (metis prod_cases3)
  note one = overlay_entry_step [OF Cons.prems(1-3) step]
  have rest: "overlay sz active es (in1, dom1, n1) = (inact', dom', n')"
    using Cons.prems(4) step by (simp add: overlay_Cons)
  have "sz \<le> length in1" "sz \<le> length dom1" using one(1,2) Cons.prems(2,3) by simp_all
  note ih = Cons.IH [OF Cons.prems(1) this rest]
  have d: "driven sz (e # es) i \<longleftrightarrow> driven sz [e] i \<or> driven sz es i" for i
    by (simp add: driven_Cons)
  show ?case
    using ih one by (auto simp: d rejected_Cons [of sz e es])
qed

lemma max_end_ge: "m \<le> max_end m es"
proof (induction es arbitrary: m)
  case (Cons e es)
  have "m \<le> (if entry_end e > m then entry_end e else m)" by simp
  also have "\<dots> \<le> max_end (if entry_end e > m then entry_end e else m) es" by (rule Cons.IH)
  finally show ?case by simp
qed simp

lemma max_end_mem: "e \<in> set es \<Longrightarrow> entry_end e \<le> max_end m es"
proof (induction es arbitrary: m)
  case Nil
  then show ?case by simp
next
  case (Cons x es)
  show ?case
  proof (cases "e = x")
    case True
    have "entry_end x \<le> (if entry_end x > m then entry_end x else m)" by simp
    also have "\<dots> \<le> max_end (if entry_end x > m then entry_end x else m) es" by (rule max_end_ge)
    finally show ?thesis using True by simp
  next
    case False
    with Cons show ?thesis by simp
  qed
qed

lemma max_end_attained: "max_end m es = m \<or> (\<exists>e \<in> set es. max_end m es = entry_end e)"
  by (induction es arbitrary: m) (auto split: if_splits)

section \<open>The cycle as a whole\<close>

definition shm_buf :: "mirror_ctx \<Rightarrow> u32 \<Rightarrow> byte list option" where
  "shm_buf ctx i = (if i = 0 then shm_data0 ctx else shm_data1 ctx)"

definition image_size :: "mirror_ctx \<Rightarrow> nat" where
  "image_size ctx = min (ctx_data_size ctx) MAX_PROCESS_DATA_SIZE"

lemma active_index_le_1: "active_index ctx = 0 \<or> active_index ctx = 1"
proof -
  have "x > 1 \<or> x = 0 \<or> x = 1" for x :: u32
    by unat_arith
  then show ?thesis by (auto simp: active_index_def)
qed

lemma mirror_unfold:
  assumes "domain_data ctx = Some d" "shm_buf ctx (active_index ctx) = Some act"
    and "shm_buf ctx (1 - active_index ctx) = Some inact" and "0 < image_size ctx"
    and "overlay (image_size ctx) act (entries ctx) (memcpy inact 0 d (image_size ctx), d, 0)
      = (nb, nd, n)"
  shows "\<exists>ctx'. mirrorToShm (Some ctx) = Some ctx'
    \<and> domain_data ctx' = Some nd \<and> shm_buf ctx' (active_ref ctx') = Some nb
    \<and> shm_buf ctx' (active_index ctx) = Some act \<and> active_ref ctx' = 1 - active_index ctx
    \<and> version_ref ctx' = map_option (\<lambda>v. v + 1) (version_ref ctx)
    \<and> cycle_ref ctx' = map_option (\<lambda>v. v + 1) (cycle_ref ctx)
    \<and> timestamp_ref ctx' = map_option (\<lambda>_. ctx_timestamp ctx) (timestamp_ref ctx)
    \<and> flags_ref ctx' = map_option (\<lambda>f. f OR FLAG_RUNNING) (flags_ref ctx)
    \<and> ignored_ref ctx' = map_option (\<lambda>k. k + n) (ignored_ref ctx)"
proof -
  have add: "(\<lambda>k. if n > 0 then k + n else k) = (\<lambda>k. k + n)"
    by (auto simp: word_gt_0)
  have sz: "min (ctx_data_size ctx) MAX_PROCESS_DATA_SIZE = image_size ctx" "image_size ctx \<noteq> 0"
    using assms(4) by (simp_all add: image_size_def)
  show ?thesis
  proof (cases "active_index ctx = 0")
    case True
    with assms(2,3) have "shm_data0 ctx = Some act" "shm_data1 ctx = Some inact"
      by (simp_all add: shm_buf_def)
    with True show ?thesis
      using assms(1,5) sz by (simp add: mirrorToShm_def shm_buf_def add)
  next
    case False
    with active_index_le_1 [of ctx] have a: "active_index ctx = 1" by simp
    with assms(2,3) have "shm_data0 ctx = Some inact" "shm_data1 ctx = Some act"
      by (simp_all add: shm_buf_def)
    with a show ?thesis
      using assms(1,5) sz by (simp add: mirrorToShm_def shm_buf_def add)
  qed
qed

lemma mirror_step:
  assumes "domain_data ctx = Some d" "shm_buf ctx (active_index ctx) = Some act"
    and "shm_buf ctx (1 - active_index ctx) = Some inact" and "0 < image_size ctx"
    and len: "image_size ctx \<le> length d" "image_size ctx \<le> length act"
      "image_size ctx \<le> length inact"
  obtains ctx' nb nd where "mirrorToShm (Some ctx) = Some ctx'"
    and "domain_data ctx' = Some nd" "shm_buf ctx' (active_ref ctx') = Some nb"
    and "shm_buf ctx' (active_index ctx) = Some act" "active_ref ctx' = 1 - active_index ctx"
    and "length nb = length inact" "length nd = length d"
    and "\<And>i. i < length inact \<Longrightarrow> nb ! i =
      (if driven (image_size ctx) (entries ctx) i then act ! i
       else if i < image_size ctx then d ! i else inact ! i)"
    and "\<And>i. i < length d \<Longrightarrow> nd ! i =
      (if driven (image_size ctx) (entries ctx) i then act ! i else d ! i)"
    and "version_ref ctx' = map_option (\<lambda>v. v + 1) (version_ref ctx)"
    and "cycle_ref ctx' = map_option (\<lambda>v. v + 1) (cycle_ref ctx)"
    and "timestamp_ref ctx' = map_option (\<lambda>_. ctx_timestamp ctx) (timestamp_ref ctx)"
    and "flags_ref ctx' = map_option (\<lambda>f. f OR FLAG_RUNNING) (flags_ref ctx)"
    and "ignored_ref ctx' = map_option
      (\<lambda>k. k + of_nat (rejected (image_size ctx) (entries ctx))) (ignored_ref ctx)"
proof -
  let ?sz = "image_size ctx"
  obtain nb nd n where ov: "overlay ?sz act (entries ctx) (memcpy inact 0 d ?sz, d, 0) = (nb, nd, n)"
    by (metis prod_cases3)
  have cl: "length (memcpy inact 0 d ?sz) = length inact"
    using len by simp
  have spec: "length nb = length inact" "length nd = length d"
    "n = of_nat (rejected ?sz (entries ctx))"
    "\<And>i. i < length inact \<Longrightarrow> nb ! i =
      (if driven ?sz (entries ctx) i then act ! i else memcpy inact 0 d ?sz ! i)"
    "\<And>i. i < length d \<Longrightarrow> nd ! i = (if driven ?sz (entries ctx) i then act ! i else d ! i)"
    using overlay_spec [OF len(2) _ len(1) ov] len(3) cl by simp_all
  from mirror_unfold [OF assms(1-4) ov] obtain ctx' where c:
    "mirrorToShm (Some ctx) = Some ctx'"
    "domain_data ctx' = Some nd" "shm_buf ctx' (active_ref ctx') = Some nb"
    "shm_buf ctx' (active_index ctx) = Some act" "active_ref ctx' = 1 - active_index ctx"
    "version_ref ctx' = map_option (\<lambda>v. v + 1) (version_ref ctx)"
    "cycle_ref ctx' = map_option (\<lambda>v. v + 1) (cycle_ref ctx)"
    "timestamp_ref ctx' = map_option (\<lambda>_. ctx_timestamp ctx) (timestamp_ref ctx)"
    "flags_ref ctx' = map_option (\<lambda>f. f OR FLAG_RUNNING) (flags_ref ctx)"
    "ignored_ref ctx' = map_option (\<lambda>k. k + n) (ignored_ref ctx)"
    by blast
  show thesis
    by (rule that [OF c(1-5) spec(1,2) _ spec(5) c(6-9)])
       (use spec len c(10) in \<open>auto simp: nth_memcpy\<close>)
qed

lemmas shm_mirror_defs = mirrorToShm_def overlay_def overlay_entry_def shm_buf_def
  image_size_def active_index_def MAX_PROCESS_DATA_SIZE_def

section \<open>Properties\<close>

text \<open>
  Claim C1 (functional). One cycle publishes, in the buffer it makes active, exactly the overlay of
  the clients' outputs on the bus image: byte \<open>i\<close> is the byte a client left in the previously active
  buffer where an in-bounds RxPDO entry covers it, and the fresh domain byte elsewhere. The domain
  image sent to the bus next agrees with the published one, the buffer the clients were writing is
  untouched, and no byte past the image size changes anywhere.
\<close>

theorem mirror_publishes_image:
  assumes "domain_data ctx = Some d" "shm_buf ctx (active_index ctx) = Some act"
    and "shm_buf ctx (1 - active_index ctx) = Some inact" and "0 < image_size ctx"
    and "image_size ctx \<le> length d" "image_size ctx \<le> length act" "image_size ctx \<le> length inact"
  shows "\<exists>ctx' nb nd. mirrorToShm (Some ctx) = Some ctx'
    \<and> active_ref ctx' = 1 - active_index ctx
    \<and> shm_buf ctx' (active_ref ctx') = Some nb \<and> length nb = length inact
    \<and> domain_data ctx' = Some nd \<and> length nd = length d
    \<and> shm_buf ctx' (active_index ctx) = Some act
    \<and> (\<forall>i < image_size ctx. nb ! i =
         (if driven (image_size ctx) (entries ctx) i then act ! i else d ! i) \<and> nd ! i = nb ! i)
    \<and> drop (image_size ctx) nb = drop (image_size ctx) inact
    \<and> drop (image_size ctx) nd = drop (image_size ctx) d"
proof -
  from mirror_step [OF assms] obtain ctx' nb nd where s:
    "mirrorToShm (Some ctx) = Some ctx'" "domain_data ctx' = Some nd"
    "shm_buf ctx' (active_ref ctx') = Some nb" "shm_buf ctx' (active_index ctx) = Some act"
    "active_ref ctx' = 1 - active_index ctx" "length nb = length inact" "length nd = length d"
    and nb: "\<And>i. i < length inact \<Longrightarrow> nb ! i =
      (if driven (image_size ctx) (entries ctx) i then act ! i
       else if i < image_size ctx then d ! i else inact ! i)"
    and nd: "\<And>i. i < length d \<Longrightarrow> nd ! i =
      (if driven (image_size ctx) (entries ctx) i then act ! i else d ! i)"
    by (rule mirror_step [OF assms]) (rule that; assumption)
  have "drop (image_size ctx) nb = drop (image_size ctx) inact"
    by (rule nth_equalityI) (use s(6) nb assms(7) in \<open>auto dest: driven_bound\<close>)
  moreover have "drop (image_size ctx) nd = drop (image_size ctx) d"
    by (rule nth_equalityI) (use s(7) nd assms(5) in \<open>auto dest: driven_bound\<close>)
  moreover have "\<forall>i < image_size ctx. nb ! i =
      (if driven (image_size ctx) (entries ctx) i then act ! i else d ! i) \<and> nd ! i = nb ! i"
    using nb nd assms(5,7) by auto
  ultimately show ?thesis using s by blast
qed

definition demo_ctx :: mirror_ctx where
  "demo_ctx = \<lparr>domain_data = Some [1, 2, 3], shm_data0 = Some [7, 8, 9], shm_data1 = Some [0, 0, 0],
     entries = [\<lparr>me_slave = 0, me_index = 0x7000, me_sub = 1, me_bit_length = 8,
                  me_direction = ''RxPDO'', me_offset = 1\<rparr>,
                \<lparr>me_slave = 0, me_index = 0x7010, me_sub = 1, me_bit_length = 16,
                  me_direction = ''RxPDO'', me_offset = 2\<rparr>],
     ctx_data_size = 3, ctx_timestamp = 5, active_ref = 0, version_ref = Some 4,
     cycle_ref = Some 4, timestamp_ref = Some 0, flags_ref = Some 0, ignored_ref = Some 0\<rparr>"

lemma demo_ctx_facts:
  "domain_data demo_ctx = Some [1, 2, 3]" "shm_buf demo_ctx (active_index demo_ctx) = Some [7, 8, 9]"
  "shm_buf demo_ctx (1 - active_index demo_ctx) = Some [0, 0, 0]" "image_size demo_ctx = 3"
  by (simp_all add: demo_ctx_def shm_buf_def active_index_def image_size_def MAX_PROCESS_DATA_SIZE_def)

theorem mirror_publishes_image_witness:
  "\<exists>ctx' nb nd. mirrorToShm (Some demo_ctx) = Some ctx' \<and> active_ref ctx' = 1
    \<and> shm_buf ctx' (active_ref ctx') = Some nb \<and> length nb = 3 \<and> domain_data ctx' = Some nd"
  using mirror_publishes_image [OF demo_ctx_facts(1-3)] demo_ctx_facts(4)
  by (auto simp: demo_ctx_def active_index_def)

text \<open>
  The same cycle publishes the header: the version and the cycle count grow by
  one (modulo \<open>2^64\<close>), the timestamp is the cycle's, the RUNNING flag is set and no other flag changes,
  the active buffer index flips to a valid one whatever it was, and the ignored-write counter grows
  by the number of non-empty RxPDO entries that do not lie inside the image.
\<close>

theorem mirror_publishes_header:
  assumes "domain_data ctx = Some d" "shm_buf ctx (active_index ctx) = Some act"
    and "shm_buf ctx (1 - active_index ctx) = Some inact" and "0 < image_size ctx"
    and "image_size ctx \<le> length d" "image_size ctx \<le> length act" "image_size ctx \<le> length inact"
  shows "\<exists>ctx'. mirrorToShm (Some ctx) = Some ctx'
    \<and> active_ref ctx' \<in> {0, 1} \<and> active_ref ctx' \<noteq> active_index ctx
    \<and> version_ref ctx' = map_option (\<lambda>v. v + 1) (version_ref ctx)
    \<and> cycle_ref ctx' = map_option (\<lambda>v. v + 1) (cycle_ref ctx)
    \<and> timestamp_ref ctx' = map_option (\<lambda>_. ctx_timestamp ctx) (timestamp_ref ctx)
    \<and> flags_ref ctx' = map_option (\<lambda>f. f OR FLAG_RUNNING) (flags_ref ctx)
    \<and> ignored_ref ctx' = map_option
        (\<lambda>k. k + of_nat (rejected (image_size ctx) (entries ctx))) (ignored_ref ctx)"
proof -
  obtain ctx' where c: "mirrorToShm (Some ctx) = Some ctx'" "active_ref ctx' = 1 - active_index ctx"
    "version_ref ctx' = map_option (\<lambda>v. v + 1) (version_ref ctx)"
    "cycle_ref ctx' = map_option (\<lambda>v. v + 1) (cycle_ref ctx)"
    "timestamp_ref ctx' = map_option (\<lambda>_. ctx_timestamp ctx) (timestamp_ref ctx)"
    "flags_ref ctx' = map_option (\<lambda>f. f OR FLAG_RUNNING) (flags_ref ctx)"
    "ignored_ref ctx' = map_option
      (\<lambda>k. k + of_nat (rejected (image_size ctx) (entries ctx))) (ignored_ref ctx)"
    by (rule mirror_step [OF assms]) (rule that; assumption)
  moreover have "1 - active_index ctx \<in> {0, 1}" "1 - active_index ctx \<noteq> active_index ctx"
    using active_index_le_1 [of ctx] by auto
  ultimately show ?thesis by (intro exI [of _ ctx'] conjI) simp_all
qed

theorem mirror_publishes_header_witness:
  "\<exists>ctx'. mirrorToShm (Some demo_ctx) = Some ctx' \<and> version_ref ctx' = Some 5
    \<and> ignored_ref ctx' = Some 1"
  using mirror_publishes_header [OF demo_ctx_facts(1-3)] demo_ctx_facts(4)
  by (auto simp: demo_ctx_def rejected_def is_output_def entry_bytes_def out_of_bounds_def)

text \<open>
  \<open>computeProcessDataSize\<close> is the least size that holds every entry: every entry
  ends within it, it is attained, and a mirror over an image of at least that size rejects no
  client write.
\<close>

theorem process_data_size_is_least:
  assumes "es \<noteq> []"
  shows "(\<forall>e \<in> set es. entry_end e \<le> computeProcessDataSize (Some es))
    \<and> (\<forall>m. (\<forall>e \<in> set es. entry_end e \<le> m) \<longrightarrow> computeProcessDataSize (Some es) \<le> m)
    \<and> (\<forall>sz. computeProcessDataSize (Some es) \<le> sz \<longrightarrow> rejected sz es = 0)"
proof -
  let ?n = "computeProcessDataSize (Some es)"
  have n: "?n = max_end 0 es" using assms by (simp add: computeProcessDataSize_def)
  have ub: "\<forall>e \<in> set es. entry_end e \<le> ?n" by (simp add: n max_end_mem)
  moreover have "?n \<le> m" if "\<forall>e \<in> set es. entry_end e \<le> m" for m
    using max_end_attained [of 0 es] that by (auto simp: n)
  moreover have "rejected sz es = 0" if "?n \<le> sz" for sz
  proof -
    have "\<not> out_of_bounds sz e" if "e \<in> set es" for e
      using ub that \<open>?n \<le> sz\<close> by (fastforce simp: out_of_bounds_def entry_end_def)
    then show ?thesis by (simp add: rejected_def)
  qed
  ultimately show ?thesis by blast
qed

theorem process_data_size_is_least_witness:
  "computeProcessDataSize (Some (entries demo_ctx)) = 4 \<and> rejected 4 (entries demo_ctx) = 0"
proof -
  have n: "computeProcessDataSize (Some (entries demo_ctx)) = 4"
    by (simp add: computeProcessDataSize_def demo_ctx_def entry_end_def entry_bytes_def)
  have "entries demo_ctx \<noteq> []" by (simp add: demo_ctx_def)
  from process_data_size_is_least [OF this] n show ?thesis by auto
qed

text \<open>
  Without a context, a domain image or one of the shared buffers, or with an empty
  image, the cycle stores nothing.
\<close>

theorem mirror_guards:
  "mirrorToShm None = None \<and>
   (domain_data ctx = None \<or> shm_data0 ctx = None \<or> shm_data1 ctx = None \<or> ctx_data_size ctx = 0 \<longrightarrow>
    mirrorToShm (Some ctx) = Some ctx)"
  by (auto simp: mirrorToShm_def Let_def split: option.splits)

theorem mirror_guards_witness:
  "mirrorToShm (Some (demo_ctx\<lparr>domain_data := None\<rparr>)) = Some (demo_ctx\<lparr>domain_data := None\<rparr>)"
  using mirror_guards [of "demo_ctx\<lparr>domain_data := None\<rparr>"] by simp

end
