(* ===== verification/ShmProtocol.thy ===== *)
theory ShmProtocol
  imports ShmMirror
begin

text \<open>
  The daemon's mirror cycle and a client's read running at the same time. The daemon's side is the
  cycle of \<^verbatim>\<open>freerun_shm_mirror.cpp\<close> cut into its single loads and stores (the copies byte by byte,
  then the store of \<open>active_buffer\<close>, then the store of \<open>version\<close>); the reader is the double-read loop of
  \<open>nekoecat_client_read_raw_at\<close> in \<^verbatim>\<open>client/nekoecat_client.c\<close>, cut the same way; other clients'
  stores of \<open>nekoecat_client_write_raw_at\<close> may hit either buffer at any moment (a client can hold a
  stale buffer index) at the positions of a set \<open>outs\<close>. The steps interleave freely; memory is
  sequentially consistent, so the reordering of a weakly ordered machine is outside the model.

  The fields \<open>flips\<close> and \<open>snap\<close> are ghosts: the number of buffers published and what each held when
  it was published. The version counter is a natural number here and the readers see it modulo
  \<open>2^64\<close>.
\<close>

section \<open>The daemon's stores\<close>

datatype wop = CopyDomain nat | OverlayShm nat | OverlayDomain nat

definition entry_range :: "mirror_entry \<Rightarrow> nat list" where
  "entry_range e = [unat (me_offset e) ..< entry_end e]"

definition copies :: "nat \<Rightarrow> mirror_entry \<Rightarrow> bool" where
  "copies sz e \<longleftrightarrow> is_output e \<and> entry_bytes e \<noteq> 0 \<and> \<not> out_of_bounds sz e"

definition entry_ops :: "mirror_entry \<Rightarrow> wop list" where
  "entry_ops e = map OverlayShm (entry_range e) @ map OverlayDomain (entry_range e)"

definition cycle_ops :: "nat \<Rightarrow> mirror_entry list \<Rightarrow> wop list" where
  "cycle_ops sz es = map CopyDomain [0..<sz] @ concat (map entry_ops (filter (copies sz) es))"

datatype wpc = WIdle | WOps "wop list" | WVersion

datatype rpc =
    ROff
  | RTry nat                                    \<comment> \<open>attempts left\<close>
  | RGotV1 nat u64 nat                          \<comment> \<open>attempts left, \<open>v1\<close>, ghost: its full value\<close>
  | RCopy nat u64 nat bool nat "byte list"      \<comment> \<open>\<dots>, buffer, ghost: its number, bytes copied\<close>
  | RDone nat nat "byte list"                   \<comment> \<open>ghosts: version and buffer number; the result\<close>
  | RFailed

record shm_sys =
  buf0 :: "byte list"
  buf1 :: "byte list"
  dom_image :: "byte list"
  act :: bool           \<comment> \<open>\<open>active_buffer\<close>: \<open>False\<close> is buffer 0\<close>
  ver :: nat
  wp :: wpc
  rp :: rpc
  flips :: nat
  snap :: "nat \<Rightarrow> byte list"

definition buf :: "shm_sys \<Rightarrow> bool \<Rightarrow> byte list" where
  "buf s b = (if b then buf1 s else buf0 s)"

definition set_buf :: "bool \<Rightarrow> byte list \<Rightarrow> shm_sys \<Rightarrow> shm_sys" where
  "set_buf b xs s = (if b then s\<lparr>buf1 := xs\<rparr> else s\<lparr>buf0 := xs\<rparr>)"

fun exec_op :: "wop \<Rightarrow> shm_sys \<Rightarrow> shm_sys" where
  "exec_op (CopyDomain i) s = set_buf (\<not> act s) ((buf s (\<not> act s))[i := dom_image s ! i]) s"
| "exec_op (OverlayShm i) s = set_buf (\<not> act s) ((buf s (\<not> act s))[i := buf s (act s) ! i]) s"
| "exec_op (OverlayDomain i) s = s\<lparr>dom_image := (dom_image s)[i := buf s (act s) ! i]\<rparr>"

section \<open>The interleaved steps\<close>

inductive shm_step ::
  "nat \<Rightarrow> mirror_entry list \<Rightarrow> nat set \<Rightarrow> nat \<Rightarrow> nat \<Rightarrow> shm_sys \<Rightarrow> shm_sys \<Rightarrow> bool"
  for sz es outs off len
where
  bus: "wp s = WIdle \<Longrightarrow> length d = length (dom_image s) \<Longrightarrow>
    shm_step sz es outs off len s (s\<lparr>dom_image := d\<rparr>)"
| cycle: "wp s = WIdle \<Longrightarrow> shm_step sz es outs off len s (s\<lparr>wp := WOps (cycle_ops sz es)\<rparr>)"
| store: "wp s = WOps (x # xs) \<Longrightarrow>
    shm_step sz es outs off len s ((exec_op x s)\<lparr>wp := WOps xs\<rparr>)"
| publish_active: "wp s = WOps [] \<Longrightarrow>
    shm_step sz es outs off len s (s\<lparr>act := \<not> act s, wp := WVersion, flips := Suc (flips s),
      snap := (snap s)(Suc (flips s) := buf s (\<not> act s))\<rparr>)"
| publish_version: "wp s = WVersion \<Longrightarrow>
    shm_step sz es outs off len s (s\<lparr>ver := Suc (ver s), wp := WIdle\<rparr>)"
| client_store: "i \<in> outs \<Longrightarrow> i < sz \<Longrightarrow>
    shm_step sz es outs off len s (set_buf b ((buf s b)[i := x]) s)"
| read_begin: "rp s \<in> {ROff, RFailed} \<or> (\<exists>g k xs. rp s = RDone g k xs) \<Longrightarrow>
    shm_step sz es outs off len s (s\<lparr>rp := RTry 4\<rparr>)"
| read_v1: "rp s = RTry (Suc n) \<Longrightarrow>
    shm_step sz es outs off len s (s\<lparr>rp := RGotV1 n (of_nat (ver s)) (ver s)\<rparr>)"
| read_active: "rp s = RGotV1 n v g \<Longrightarrow>
    shm_step sz es outs off len s (s\<lparr>rp := RCopy n v g (act s) (flips s) []\<rparr>)"
| read_byte: "rp s = RCopy n v g b k xs \<Longrightarrow> length xs < len \<Longrightarrow>
    shm_step sz es outs off len s (s\<lparr>rp := RCopy n v g b k (xs @ [buf s b ! (off + length xs)])\<rparr>)"
| read_ok: "rp s = RCopy n v g b k xs \<Longrightarrow> length xs = len \<Longrightarrow> of_nat (ver s) = v \<Longrightarrow>
    shm_step sz es outs off len s (s\<lparr>rp := RDone g k xs\<rparr>)"
| read_retry: "rp s = RCopy n v g b k xs \<Longrightarrow> length xs = len \<Longrightarrow> of_nat (ver s) \<noteq> v \<Longrightarrow>
    shm_step sz es outs off len s (s\<lparr>rp := RTry n\<rparr>)"
| read_fail: "rp s = RTry 0 \<Longrightarrow> shm_step sz es outs off len s (s\<lparr>rp := RFailed\<rparr>)"

definition shm_init :: "nat \<Rightarrow> byte list \<Rightarrow> shm_sys" where
  \<comment> \<open>after \<open>initSharedMemory\<close>: zeroed buffers, buffer 0 active, version 0\<close>
  "shm_init sz d = \<lparr>buf0 = replicate sz 0, buf1 = replicate sz 0, dom_image = d, act = False,
     ver = 0, wp = WIdle, rp = ROff, flips = 0, snap = (\<lambda>_. replicate sz 0)\<rparr>"

inductive shm_reach ::
  "nat \<Rightarrow> mirror_entry list \<Rightarrow> nat set \<Rightarrow> nat \<Rightarrow> nat \<Rightarrow> shm_sys \<Rightarrow> bool"
  for sz es outs off len
where
  start: "length d = sz \<Longrightarrow> shm_reach sz es outs off len (shm_init sz d)"
| step: "shm_reach sz es outs off len s \<Longrightarrow> shm_step sz es outs off len s t \<Longrightarrow>
    shm_reach sz es outs off len t"

inductive_cases shm_stepE: "shm_step sz es outs off len s t"

section \<open>The invariant\<close>

definition agrees :: "nat set \<Rightarrow> byte list \<Rightarrow> byte list \<Rightarrow> bool" where
  \<comment> \<open>equal but where clients write\<close>
  "agrees outs xs ys \<longleftrightarrow> length xs = length ys \<and> (\<forall>i < length xs. i \<notin> outs \<longrightarrow> xs ! i = ys ! i)"

definition agrees_at :: "nat set \<Rightarrow> nat \<Rightarrow> byte list \<Rightarrow> byte list \<Rightarrow> bool" where
  "agrees_at outs off xs ys \<longleftrightarrow> (\<forall>j < length xs. off + j \<notin> outs \<longrightarrow> xs ! j = ys ! (off + j))"

definition writer_inv :: "nat \<Rightarrow> nat set \<Rightarrow> shm_sys \<Rightarrow> bool" where
  "writer_inv sz outs s \<longleftrightarrow>
     flips s = (if wp s = WVersion then Suc (ver s) else ver s)
     \<and> (\<forall>b. length (buf s b) = sz)
     \<and> agrees outs (buf s (act s)) (snap s (flips s))"

definition copy_inv :: "nat set \<Rightarrow> nat \<Rightarrow> shm_sys \<Rightarrow> nat \<Rightarrow> bool \<Rightarrow> nat \<Rightarrow> byte list \<Rightarrow> bool" where
  \<comment> \<open>while the version read first is still current, the buffer being read is a published one\<close>
  "copy_inv outs off s g b k xs \<longleftrightarrow>
     (ver s = g \<longrightarrow>
        (k = flips s \<and> b = act s \<or> Suc k = flips s \<and> b = (\<not> act s) \<and> wp s = WVersion)
        \<and> agrees outs (buf s b) (snap s k) \<and> agrees_at outs off xs (snap s k))"

definition reader_inv :: "nat set \<Rightarrow> nat \<Rightarrow> nat \<Rightarrow> shm_sys \<Rightarrow> bool" where
  "reader_inv outs off len s \<longleftrightarrow>
     (case rp s of
        RGotV1 n v g \<Rightarrow> v = of_nat g \<and> g \<le> ver s
      | RCopy n v g b k xs \<Rightarrow>
          v = of_nat g \<and> g \<le> ver s \<and> g \<le> k \<and> k \<le> flips s \<and> length xs \<le> len
          \<and> copy_inv outs off s g b k xs
      | RDone g k xs \<Rightarrow> ver s < 2 ^ 64 \<longrightarrow> length xs = len \<and> (k = g \<or> k = Suc g) \<and> k \<le> flips s
          \<and> agrees_at outs off xs (snap s k)
      | _ \<Rightarrow> True)"

lemma buf_simps [simp, state_simps]:
  "buf (s\<lparr>dom_image := d\<rparr>) b = buf s b" "buf (s\<lparr>wp := w\<rparr>) b = buf s b"
  "buf (s\<lparr>rp := r\<rparr>) b = buf s b" "buf (s\<lparr>ver := v\<rparr>) b = buf s b"
  "buf (s\<lparr>act := a\<rparr>) b = buf s b" "buf (s\<lparr>flips := f\<rparr>) b = buf s b"
  "buf (s\<lparr>snap := p\<rparr>) b = buf s b"
  "buf (set_buf b xs s) b' = (if b' = b then xs else buf s b')"
  by (simp_all add: buf_def set_buf_def)

lemma set_buf_simps [simp, state_simps]:
  "act (set_buf b xs s) = act s" "ver (set_buf b xs s) = ver s" "wp (set_buf b xs s) = wp s"
  "rp (set_buf b xs s) = rp s" "flips (set_buf b xs s) = flips s" "snap (set_buf b xs s) = snap s"
  "dom_image (set_buf b xs s) = dom_image s"
  by (simp_all add: set_buf_def)

lemma exec_op_frame [simp, state_simps]:
  "act (exec_op x s) = act s" "ver (exec_op x s) = ver s" "wp (exec_op x s) = wp s"
  "rp (exec_op x s) = rp s" "flips (exec_op x s) = flips s" "snap (exec_op x s) = snap s"
  "buf (exec_op x s) (act s) = buf s (act s)" "length (buf (exec_op x s) b) = length (buf s b)"
  by (cases x; simp)+

lemma agrees_refl [simp]: "agrees outs xs xs"
  by (simp add: agrees_def)

lemma agrees_client: "i \<in> outs \<Longrightarrow> agrees outs xs ys \<Longrightarrow> agrees outs (xs[i := x]) ys"
  unfolding agrees_def by (metis length_list_update nth_list_update_neq)

lemma agrees_at_Nil [simp]: "agrees_at outs off [] ys"
  by (simp add: agrees_at_def)

lemma agrees_at_snoc:
  assumes "agrees_at outs off xs ys" and "agrees outs zs ys" and "off + length xs < length zs"
  shows "agrees_at outs off (xs @ [zs ! (off + length xs)]) ys"
  using assms by (auto simp: agrees_at_def agrees_def nth_append less_Suc_eq)

lemma writer_inv_step:
  assumes "shm_step sz es outs off len s t" and "writer_inv sz outs s"
  shows "writer_inv sz outs t"
  using assms(1)
proof (cases rule: shm_step.cases)
  case (client_store i b x)
  with assms(2) show ?thesis
    by (auto simp: writer_inv_def agrees_client)
next
  case publish_active
  with assms(2) show ?thesis by (auto simp: writer_inv_def)
qed (use assms(2) in \<open>auto simp: writer_inv_def\<close>)

lemma version_word_inject:
  "(of_nat m :: u64) = of_nat g \<Longrightarrow> g \<le> m \<Longrightarrow> m < 2 ^ 64 \<Longrightarrow> m = g"
proof -
  assume "(of_nat m :: u64) = of_nat g" and le: "g \<le> m" "m < 2 ^ 64"
  then have "unat (of_nat m :: u64) = unat (of_nat g :: u64)" by simp
  then show "m = g" using le by (simp add: unat_of_nat)
qed

lemma copy_inv_frame:
  assumes "copy_inv outs off s g b k xs" and "ver t = ver s" "flips t = flips s" "act t = act s"
    and "wp s = WVersion \<Longrightarrow> wp t = WVersion" and "snap t = snap s"
    and "agrees outs (buf s b) (snap s k) \<Longrightarrow> ver s = g \<Longrightarrow> agrees outs (buf t b) (snap s k)"
  shows "copy_inv outs off t g b k xs"
  using assms by (auto simp: copy_inv_def)

lemma reader_inv_step:
  assumes st: "shm_step sz es outs off len s t" and w: "writer_inv sz outs s"
    and r: "reader_inv outs off len s" and fit: "off + len \<le> sz"
  shows "reader_inv outs off len t"
  using st
proof (cases rule: shm_step.cases)
  case (store x xs)
  have "copy_inv outs off t g b k ys" if "copy_inv outs off s g b k ys" for g b k ys
    using that store by (intro copy_inv_frame [OF that]) (auto simp: copy_inv_def)
  with r store show ?thesis by (auto simp: reader_inv_def split: rpc.splits)
next
  case publish_active
  have "copy_inv outs off t g b k ys" if "copy_inv outs off s g b k ys" "k \<le> flips s" for g b k ys
    using that publish_active w by (auto simp: copy_inv_def writer_inv_def)
  with r publish_active show ?thesis by (auto simp: reader_inv_def split: rpc.splits)
next
  case publish_version
  with r show ?thesis by (auto simp: reader_inv_def copy_inv_def split: rpc.splits)
next
  case (client_store i b x)
  have "copy_inv outs off t g b' k ys" if "copy_inv outs off s g b' k ys" for g b' k ys
    using that client_store by (intro copy_inv_frame [OF that]) (auto intro: agrees_client)
  with r client_store show ?thesis by (auto simp: reader_inv_def split: rpc.splits)
next
  case (read_active n v g)
  with r w show ?thesis by (auto simp: reader_inv_def copy_inv_def writer_inv_def)
next
  case (read_byte n v g b k xs)
  have "length (buf s b) = sz" using w by (simp add: writer_inv_def)
  with r read_byte fit show ?thesis
    by (auto simp: reader_inv_def copy_inv_def intro: agrees_at_snoc)
next
  case (read_ok n v g b k xs)
  from r read_ok have c: "copy_inv outs off s g b k xs" "g \<le> ver s" "k \<le> flips s" "v = of_nat g"
    by (simp_all add: reader_inv_def)
  have "(k = g \<or> k = Suc g) \<and> agrees_at outs off xs (snap s k)" if "ver s < 2 ^ 64"
  proof -
    have "ver s = g" using version_word_inject [of "ver s" g] that c(2,4) read_ok by simp
    then show ?thesis
      using c(1) w by (auto simp: copy_inv_def writer_inv_def split: if_splits)
  qed
  with c(3) read_ok show ?thesis by (simp add: reader_inv_def)
qed (use r in \<open>auto simp: reader_inv_def copy_inv_def split: rpc.splits\<close>)

lemma shm_init_inv: "length d = sz \<Longrightarrow> writer_inv sz outs (shm_init sz d)"
    "reader_inv outs off len (shm_init sz d)"
  by (simp_all add: shm_init_def writer_inv_def reader_inv_def buf_def)

lemma shm_reach_inv:
  assumes "shm_reach sz es outs off len s" and "off + len \<le> sz"
  shows "writer_inv sz outs s \<and> reader_inv outs off len s"
  using assms(1)
proof (induction rule: shm_reach.induct)
  case (start d)
  then show ?case by (simp add: shm_init_inv)
next
  case (step s t)
  then show ?case using assms(2) by (blast intro: writer_inv_step reader_inv_step)
qed

section \<open>The daemon's stores run without interruption are the mirror cycle\<close>

definition run_ops :: "wop list \<Rightarrow> shm_sys \<Rightarrow> shm_sys" where
  "run_ops xs s = foldl (\<lambda>s x. exec_op x s) s xs"

definition cycle_end :: "nat \<Rightarrow> mirror_entry list \<Rightarrow> shm_sys \<Rightarrow> shm_sys" where
  "cycle_end sz es s = (let t = run_ops (cycle_ops sz es) s in
     t\<lparr>act := \<not> act t, flips := Suc (flips t), snap := (snap t)(Suc (flips t) := buf t (\<not> act t)),
       ver := Suc (ver t), wp := WIdle\<rparr>)"

definition ctx_of :: "nat \<Rightarrow> mirror_entry list \<Rightarrow> shm_sys \<Rightarrow> mirror_ctx" where
  "ctx_of sz es s = \<lparr>domain_data = Some (dom_image s), shm_data0 = Some (buf0 s),
     shm_data1 = Some (buf1 s), entries = es, ctx_data_size = sz, ctx_timestamp = 0,
     active_ref = (if act s then 1 else 0), version_ref = Some (of_nat (ver s)),
     cycle_ref = None, timestamp_ref = None, flags_ref = None, ignored_ref = None\<rparr>"

lemma run_ops_simps [simp]:
  "run_ops [] s = s" "run_ops (x # xs) s = run_ops xs (exec_op x s)"
  "run_ops (xs @ ys) s = run_ops ys (run_ops xs s)"
  by (simp_all add: run_ops_def)

lemma run_ops_frame [simp, state_simps]:
  "act (run_ops xs s) = act s" "ver (run_ops xs s) = ver s" "wp (run_ops xs s) = wp s"
  "rp (run_ops xs s) = rp s" "flips (run_ops xs s) = flips s" "snap (run_ops xs s) = snap s"
  "buf (run_ops xs s) (act s) = buf s (act s)" "length (buf (run_ops xs s) b) = length (buf s b)"
proof (induction xs arbitrary: s)
  case (Cons x xs)
  { case 1 show ?case using Cons(1) by simp next
    case 2 show ?case using Cons(2) by simp next
    case 3 show ?case using Cons(3) by simp next
    case 4 show ?case using Cons(4) by simp next
    case 5 show ?case using Cons(5) by simp next
    case 6 show ?case using Cons(6) by simp next
    case 7 show ?case using Cons(7) [of "exec_op x s"] by simp next
    case 8 show ?case using Cons(8) by simp }
qed simp_all

lemma foldl_store_range:
  assumes "b \<le> length xs" "b \<le> length ys" "a \<le> b"
  shows "foldl (\<lambda>zs i. zs[i := ys ! i]) xs [a..<b] = memcpy xs a (drop a ys) (b - a)"
  using assms(3,1,2)
proof (induction b rule: dec_induct)
  case base
  then show ?case by (simp add: memcpy_def)
next
  case (step b)
  then have ih: "foldl (\<lambda>zs i. zs[i := ys ! i]) xs [a..<b] = memcpy xs a (drop a ys) (b - a)" by simp
  show ?case
  proof (rule nth_equalityI)
    show "length (foldl (\<lambda>zs i. zs[i := ys ! i]) xs [a..<Suc b])
      = length (memcpy xs a (drop a ys) (Suc b - a))"
      using step ih by simp
  next
    fix i
    assume "i < length (foldl (\<lambda>zs i. zs[i := ys ! i]) xs [a..<Suc b])"
    then have "i < length xs" using step ih by simp
    then show "foldl (\<lambda>zs i. zs[i := ys ! i]) xs [a..<Suc b] ! i
      = memcpy xs a (drop a ys) (Suc b - a) ! i"
      using step ih by (auto simp: nth_memcpy nth_list_update)
  qed
qed

lemma run_copy_domain:
  "run_ops (map CopyDomain is) s =
    set_buf (\<not> act s) (foldl (\<lambda>zs i. zs[i := dom_image s ! i]) (buf s (\<not> act s)) is) s"
  by (induction "is" arbitrary: s) (auto simp: set_buf_def buf_def)

lemma run_overlay_shm:
  "run_ops (map OverlayShm is) s =
    set_buf (\<not> act s) (foldl (\<lambda>zs i. zs[i := buf s (act s) ! i]) (buf s (\<not> act s)) is) s"
  by (induction "is" arbitrary: s) (auto simp: set_buf_def buf_def)

lemma run_overlay_domain:
  "run_ops (map OverlayDomain is) s =
    s\<lparr>dom_image := foldl (\<lambda>zs i. zs[i := buf s (act s) ! i]) (dom_image s) is\<rparr>"
  by (induction "is" arbitrary: s) auto

lemma run_entries:
  assumes "\<And>b. length (buf s b) = sz" "length (dom_image s) = sz"
    and "overlay sz (buf s (act s)) es (buf s (\<not> act s), dom_image s, n) = (nb, nd, n')"
  shows "run_ops (concat (map entry_ops (filter (copies sz) es))) s
    = set_buf (\<not> act s) nb (s\<lparr>dom_image := nd\<rparr>)"
  using assms
proof (induction es arbitrary: s n)
  case Nil
  then have "nb = buf s (\<not> act s)" "nd = dom_image s" by simp_all
  then show ?case by (simp add: set_buf_def buf_def)
next
  case (Cons e es)
  show ?case
  proof (cases "copies sz e")
    case False
    then have "\<exists>m. overlay_entry sz (buf s (act s)) e (buf s (\<not> act s), dom_image s, n)
        = (buf s (\<not> act s), dom_image s, m)"
      by (auto simp: copies_def overlay_entry_def)
    with Cons False show ?thesis by (auto simp: overlay_Cons)
  next
    case True
    let ?off = "unat (me_offset e)" and ?bl = "entry_bytes e"
    let ?m = "\<lambda>xs. memcpy xs ?off (drop ?off (buf s (act s))) ?bl"
    let ?t = "run_ops (entry_ops e) s"
    have le: "?off + ?bl \<le> sz" "?off \<le> ?off + ?bl"
      using True in_bounds_end [of sz e] by (simp_all add: copies_def entry_end_def)
    have t: "?t = set_buf (\<not> act s) (?m (buf s (\<not> act s))) (s\<lparr>dom_image := ?m (dom_image s)\<rparr>)"
      using le Cons.prems(1) [of True] Cons.prems(1) [of False] Cons.prems(2)
      by (simp add: entry_ops_def run_overlay_shm run_overlay_domain entry_range_def entry_end_def
          foldl_store_range set_buf_def buf_def)
    have "overlay sz (buf ?t (act ?t)) es (buf ?t (\<not> act ?t), dom_image ?t, n) = (nb, nd, n')"
      using Cons.prems(3) True by (simp add: overlay_Cons overlay_entry_def copies_def Let_def t)
    moreover have "length (buf ?t b) = sz" "length (dom_image ?t) = sz" for b
      using Cons.prems(1,2) le by (simp_all add: t)
    ultimately have "run_ops (concat (map entry_ops (filter (copies sz) es))) ?t
        = set_buf (\<not> act ?t) nb (?t\<lparr>dom_image := nd\<rparr>)"
      by (intro Cons.IH) simp_all
    with True show ?thesis by (simp add: t set_buf_def)
  qed
qed

section \<open>The daemon's thread as a scheduler\<close>

definition wstep :: "nat \<Rightarrow> mirror_entry list \<Rightarrow> shm_sys \<Rightarrow> shm_sys" where
  \<comment> \<open>the daemon's next store, with no change of the bus image between cycles\<close>
  "wstep sz es s = (case wp s of
     WIdle \<Rightarrow> s\<lparr>wp := WOps (cycle_ops sz es)\<rparr>
   | WOps [] \<Rightarrow> s\<lparr>act := \<not> act s, wp := WVersion, flips := Suc (flips s),
        snap := (snap s)(Suc (flips s) := buf s (\<not> act s))\<rparr>
   | WOps (x # xs) \<Rightarrow> (exec_op x s)\<lparr>wp := WOps xs\<rparr>
   | WVersion \<Rightarrow> s\<lparr>ver := Suc (ver s), wp := WIdle\<rparr>)"

lemma wstep_is_step: "shm_step sz es outs off len s (wstep sz es s)"
  by (auto simp: wstep_def intro: shm_step.intros split: wpc.splits list.splits)

lemma exec_op_wp [simp]: "exec_op x (s\<lparr>wp := w\<rparr>) = (exec_op x s)\<lparr>wp := w\<rparr>"
  by (cases x) (simp_all add: set_buf_def)

lemma wstep_ops: "wp s = WOps xs \<Longrightarrow>
    (wstep sz es ^^ length xs) s = (run_ops xs s)\<lparr>wp := WOps []\<rparr>"
proof (induction xs arbitrary: s)
  case Nil
  then show ?case by simp
next
  case (Cons x xs)
  have w: "run_ops xs (t\<lparr>wp := v\<rparr>) = (run_ops xs t)\<lparr>wp := v\<rparr>" for t v
    by (induction xs arbitrary: t) simp_all
  from Cons.prems have "wstep sz es s = (exec_op x s)\<lparr>wp := WOps xs\<rparr>" by (simp add: wstep_def)
  then show ?case using Cons.IH [of "(exec_op x s)\<lparr>wp := WOps xs\<rparr>"]
    by (simp add: funpow_swap1 w)
qed

lemma wstep_cycle:
  assumes "wp s = WIdle"
  shows "\<exists>n. (wstep sz es ^^ n) s = cycle_end sz es s"
proof -
  let ?s1 = "s\<lparr>wp := WOps (cycle_ops sz es)\<rparr>"
  have w: "run_ops xs (t\<lparr>wp := v\<rparr>) = (run_ops xs t)\<lparr>wp := v\<rparr>" for xs t v
    by (induction xs arbitrary: t) simp_all
  have "wstep sz es (wstep sz es ((wstep sz es ^^ length (cycle_ops sz es)) (wstep sz es s)))
    = cycle_end sz es s"
    using assms wstep_ops [of ?s1 "cycle_ops sz es" sz es]
    by (simp add: wstep_def [of sz es s] wstep_def [of sz es "_\<lparr>wp := _\<rparr>"] w cycle_end_def Let_def
        wstep_def)
  then have "(wstep sz es ^^ Suc (Suc (length (cycle_ops sz es) + 1))) s = cycle_end sz es s"
    by (simp add: funpow_add funpow_swap1)
  then show ?thesis by blast
qed

lemma run_cycle_ops:
  assumes "\<And>b. length (buf s b) = sz" "length (dom_image s) = sz"
    and ov: "overlay sz (buf s (act s)) es (memcpy (buf s (\<not> act s)) 0 (dom_image s) sz, dom_image s, 0)
      = (nb, nd, n)"
  shows "run_ops (cycle_ops sz es) s = set_buf (\<not> act s) nb (s\<lparr>dom_image := nd\<rparr>)"
proof -
  let ?c = "memcpy (buf s (\<not> act s)) 0 (dom_image s) sz"
  let ?t = "run_ops (map CopyDomain [0..<sz]) s"
  have t: "?t = set_buf (\<not> act s) ?c s"
    using foldl_store_range [of sz "buf s (\<not> act s)" "dom_image s" 0] assms(1,2)
    by (simp add: run_copy_domain)
  have "run_ops (concat (map entry_ops (filter (copies sz) es))) ?t
      = set_buf (\<not> act ?t) nb (?t\<lparr>dom_image := nd\<rparr>)"
    by (rule run_entries) (use assms ov in \<open>simp_all add: t\<close>)
  then show ?thesis by (simp add: cycle_ops_def t set_buf_def)
qed

lemma ctx_of_simps [simp]:
  "domain_data (ctx_of sz es s) = Some (dom_image s)" "entries (ctx_of sz es s) = es"
  "ctx_data_size (ctx_of sz es s) = sz" "active_index (ctx_of sz es s) = (if act s then 1 else 0)"
  "shm_data0 (ctx_of sz es s) = Some (buf s False)" "shm_data1 (ctx_of sz es s) = Some (buf s True)"
  by (simp_all add: ctx_of_def active_index_def buf_def)

lemma ctx_of_cycle:
  assumes "\<And>b. length (buf s b) = sz" "length (dom_image s) = sz" "0 < sz" "sz \<le> MAX_PROCESS_DATA_SIZE"
  shows "mirrorToShm (Some (ctx_of sz es s)) = Some (ctx_of sz es (cycle_end sz es s))"
proof -
  obtain nb nd n where ov: "overlay sz (buf s (act s)) es
      (memcpy (buf s (\<not> act s)) 0 (dom_image s) sz, dom_image s, 0) = (nb, nd, n)"
    by (metis prod_cases3)
  have e: "cycle_end sz es s = (set_buf (\<not> act s) nb (s\<lparr>dom_image := nd\<rparr>))\<lparr>act := \<not> act s,
      flips := Suc (flips s), snap := (snap s)(Suc (flips s) := nb), ver := Suc (ver s), wp := WIdle\<rparr>"
    using run_cycle_ops [OF assms(1,2) ov] by (simp add: cycle_end_def Let_def)
  show ?thesis
    using ov assms(3,4) unfolding e
    by (cases "act s") (simp_all add: mirrorToShm_def ctx_of_def active_index_def buf_def set_buf_def
        Let_def min_absorb1)
qed

section \<open>Properties\<close>

text \<open>
  Claim C2 (safety). A read that the double-read protocol accepts is never torn: whatever the
  interleaving with the daemon's stores and other clients' writes, every byte it returns outside the
  positions clients write is a byte of one and the same published buffer, the one published by the
  version the reader saw or the next. The version counter is assumed not to have wrapped.
\<close>

theorem no_torn_read:
  assumes "shm_reach sz es outs off len s" and "off + len \<le> sz"
    and "rp s = RDone g k bytes" and "ver s < 2 ^ 64"
  shows "length bytes = len \<and> (k = g \<or> k = Suc g) \<and> k \<le> flips s
    \<and> (\<forall>j < len. off + j \<notin> outs \<longrightarrow> bytes ! j = snap s k ! (off + j))"
  using shm_reach_inv [OF assms(1,2)] assms(3,4)
  by (auto simp: reader_inv_def agrees_at_def)

definition demo_read :: shm_sys where
  "demo_read = (shm_init 1 [3])\<lparr>rp := RDone 0 0 [0]\<rparr>"

lemma demo_read_reach: "shm_reach 1 [] {} 0 1 demo_read"
proof -
  let ?r = "\<lambda>p. (shm_init 1 [3])\<lparr>rp := p\<rparr>"
  note st = shm_reach.step [of 1 "[]" "{}" 0 1]
  have "shm_reach 1 [] {} 0 1 (shm_init 1 [3])" by (rule shm_reach.start) simp
  from st [OF this shm_step.read_begin] have "shm_reach 1 [] {} 0 1 (?r (RTry 4))"
    by (simp add: shm_init_def)
  from st [OF this shm_step.read_v1 [of _ 3]] have "shm_reach 1 [] {} 0 1 (?r (RGotV1 3 0 0))"
    by (simp add: shm_init_def)
  from st [OF this shm_step.read_active [of _ 3 0 0]]
  have "shm_reach 1 [] {} 0 1 (?r (RCopy 3 0 0 False 0 []))" by (simp add: shm_init_def)
  from st [OF this shm_step.read_byte [of _ 3 0 0 False 0 "[]"]]
  have "shm_reach 1 [] {} 0 1 (?r (RCopy 3 0 0 False 0 [0]))"
    by (simp add: shm_init_def buf_def)
  from st [OF this shm_step.read_ok [of _ 3 0 0 False 0 "[0]"]]
  show ?thesis by (simp add: shm_init_def demo_read_def)
qed

theorem no_torn_read_witness:
  "rp demo_read = RDone 0 0 [0] \<and> ver demo_read < 2 ^ 64 \<and> [0] ! 0 = snap demo_read 0 ! 0"
proof -
  have r: "rp demo_read = RDone 0 0 [0]" "ver demo_read < 2 ^ 64"
    by (simp_all add: demo_read_def shm_init_def)
  from no_torn_read [OF demo_read_reach _ r] r show ?thesis by simp
qed

text \<open>
  Claim C12 (refinement). The interleaved model of the daemon is the cycle of the code: from an idle
  state its stores, run to the end without interruption, reach a state whose buffers, domain image,
  active index and version are what \<open>mirrorToShm\<close> computes from the state before.
\<close>

theorem daemon_stores_refine_mirror:
  assumes "wp s = WIdle" and "\<And>b. length (buf s b) = sz" and "length (dom_image s) = sz"
    and "0 < sz" and "sz \<le> MAX_PROCESS_DATA_SIZE"
  shows "(shm_step sz es outs off len)\<^sup>*\<^sup>* s (cycle_end sz es s)
    \<and> mirrorToShm (Some (ctx_of sz es s)) = Some (ctx_of sz es (cycle_end sz es s))"
proof
  have run: "(shm_step sz es outs off len)\<^sup>*\<^sup>* s ((wstep sz es ^^ n) s)" for n
    by (induction n) (auto intro: rtranclp.rtrancl_into_rtrancl wstep_is_step)
  from wstep_cycle [OF assms(1)] obtain n where "(wstep sz es ^^ n) s = cycle_end sz es s" by blast
  with run [of n] show "(shm_step sz es outs off len)\<^sup>*\<^sup>* s (cycle_end sz es s)" by simp
  show "mirrorToShm (Some (ctx_of sz es s)) = Some (ctx_of sz es (cycle_end sz es s))"
    by (rule ctx_of_cycle) (use assms in simp_all)
qed

theorem daemon_stores_refine_mirror_witness:
  "mirrorToShm (Some (ctx_of 1 [] (shm_init 1 [3])))
    = Some (ctx_of 1 [] (cycle_end 1 [] (shm_init 1 [3])))"
  by (rule daemon_stores_refine_mirror [THEN conjunct2])
     (simp_all add: shm_init_def buf_def MAX_PROCESS_DATA_SIZE_def)

section \<open>A write that is lost\<close>

definition lost_entry :: mirror_entry where
  "lost_entry = \<lparr>me_slave = 0, me_index = 0x7000, me_sub = 1, me_bit_length = 8,
     me_direction = ''RxPDO'', me_offset = 0\<rparr>"

definition before_write :: shm_sys where
  \<comment> \<open>the daemon has copied the client buffer and is about to store \<open>active_buffer\<close>\<close>
  "before_write = (shm_init 1 [0])\<lparr>wp := WOps []\<rparr>"

definition after_write :: "byte \<Rightarrow> shm_sys" where
  "after_write x = set_buf (act before_write) ((buf before_write (act before_write))[0 := x]) before_write"

definition lost_inv :: "shm_sys \<Rightarrow> bool" where
  "lost_inv s \<longleftrightarrow> dom_image s = [0] \<and> buf s (act s) = [0] \<and> length (buf s (\<not> act s)) = 1
     \<and> (wp s = WIdle \<or> wp s = WVersion \<or> wp s = WOps [CopyDomain 0, OverlayShm 0, OverlayDomain 0]
        \<or> buf s (\<not> act s) = [0] \<and>
          wp s \<in> {WOps [OverlayShm 0, OverlayDomain 0], WOps [OverlayDomain 0], WOps []})"

lemma lost_cycle_ops: "cycle_ops 1 [lost_entry] = [CopyDomain 0, OverlayShm 0, OverlayDomain 0]"
  by (simp add: cycle_ops_def copies_def lost_entry_def is_output_def entry_bytes_def out_of_bounds_def
      entry_ops_def entry_range_def entry_end_def)

lemma length_1_update: "length xs = Suc 0 \<Longrightarrow> xs[0 := x] = [x]"
  by (cases xs) auto

lemma lost_inv_wstep: "lost_inv s \<Longrightarrow> lost_inv (wstep 1 [lost_entry] s)"
  unfolding lost_inv_def wstep_def lost_cycle_ops
  by (elim conjE disjE) (auto simp: length_1_update)

text \<open>
  A client's output write can be lost for good: there is a reachable state in
  which a client stores a value into the buffer that is active at that moment, at an output entry, and
  yet the domain image sent to the bus keeps the old value at every later step of the daemon. The
  write falls between the overlay of the cycle and its store of \<open>active_buffer\<close>, and the next cycle
  overwrites the buffer it went to.
\<close>

theorem client_write_can_be_lost:
  "shm_reach 1 [lost_entry] {0} off len before_write
    \<and> driven 1 [lost_entry] 0
    \<and> shm_step 1 [lost_entry] {0} off len before_write (after_write x)
    \<and> buf (after_write x) (act (after_write x)) = [x]
    \<and> (\<forall>n. dom_image ((wstep 1 [lost_entry] ^^ n) (after_write x)) = [0])"
proof -
  let ?w = "wstep 1 [lost_entry]"
  have reach: "shm_reach 1 [lost_entry] {0} off len ((?w ^^ n) (shm_init 1 [0]))" for n
    by (induction n) (auto intro: shm_reach.start shm_reach.step wstep_is_step)
  have four: "?w (?w (?w (?w (shm_init 1 [0])))) = before_write"
    by (simp add: wstep_def lost_cycle_ops [simplified] shm_init_def before_write_def buf_def set_buf_def)
  have "(?w ^^ 4) (shm_init 1 [0]) = before_write"
    using four by (simp add: numeral_eq_Suc)
  with reach [of 4] have "shm_reach 1 [lost_entry] {0} off len before_write" by simp
  moreover have "shm_step 1 [lost_entry] {0} off len before_write (after_write x)"
    unfolding after_write_def by (rule shm_step.client_store) simp_all
  moreover have first: "lost_inv (?w (after_write x))"
    by (simp add: after_write_def before_write_def shm_init_def wstep_def lost_inv_def buf_def set_buf_def)
  have "lost_inv ((?w ^^ n) (?w (after_write x)))" for n
    by (induction n) (use first lost_inv_wstep in auto)
  then have "dom_image ((?w ^^ n) (after_write x)) = [0]" for n
    by (cases n) (auto simp: funpow_swap1 lost_inv_def after_write_def before_write_def shm_init_def)
  moreover have "driven 1 [lost_entry] 0"
    by (simp add: driven_Cons lost_entry_def is_output_def out_of_bounds_def entry_bytes_def entry_end_def)
  moreover have "buf (after_write x) (act (after_write x)) = [x]"
    by (simp add: after_write_def before_write_def shm_init_def buf_def set_buf_def)
  ultimately show ?thesis by blast
qed

end
