(* ===== verification/QtText.thy ===== *)
theory QtText
  imports Prelude "HOL-Library.Char_ord"
begin

text \<open>
  Text as the code uses it. A \<open>QString\<close> or \<open>QByteArray\<close> is a \<open>string\<close>, one \<open>char\<close> per code
  unit, so the model covers text whose code units are in 0..255 (Latin-1). The operations are
  those of the classes' documentation: \<open>trimmed\<close>, \<open>split\<close>, \<open>contains\<close>, \<open>startsWith\<close>,
  \<open>indexOf\<close>, \<open>number\<close>, \<open>rightJustified\<close> and the integer conversions \<open>toInt\<close> and \<open>toUInt\<close>,
  which answer 0 with \<open>ok = false\<close> where the text is no number of the type.
\<close>

type_synonym qstring = string

section \<open>Characters\<close>

definition code_of :: "char \<Rightarrow> nat" where
  "code_of c = of_char c"

definition quote_char :: char where "quote_char = CHR 0x22"
definition apostrophe :: char where "apostrophe = CHR 0x27"

definition is_space :: "char \<Rightarrow> bool" where
  "is_space c \<longleftrightarrow> (let n = code_of c in 9 \<le> n \<and> n \<le> 13 \<or> n = 32 \<or> n = 133 \<or> n = 160)"

definition is_digit :: "char \<Rightarrow> bool" where
  "is_digit c \<longleftrightarrow> 48 \<le> code_of c \<and> code_of c \<le> 57"

definition digit_val :: "char \<Rightarrow> nat" where
  "digit_val c = (let n = code_of c in
     if 48 \<le> n \<and> n \<le> 57 then n - 48
     else if 97 \<le> n \<and> n \<le> 122 then n - 87
     else if 65 \<le> n \<and> n \<le> 90 then n - 55
     else 99)"

definition is_hex :: "char \<Rightarrow> bool" where
  "is_hex c \<longleftrightarrow> digit_val c < 16"

definition to_lower_char :: "char \<Rightarrow> char" where
  "to_lower_char c = (let n = code_of c in
     if 65 \<le> n \<and> n \<le> 90 \<or> 192 \<le> n \<and> n \<le> 222 \<and> n \<noteq> 215 then char_of (n + 32) else c)"

definition digit_char :: "nat \<Rightarrow> char" where
  "digit_char d = (if d < 10 then char_of (48 + d) else char_of (87 + d))"

lemma code_digit_char: "d < 36 \<Longrightarrow> code_of (digit_char d) = (if d < 10 then 48 + d else 87 + d)"
  by (auto simp: code_of_def digit_char_def)

lemma digit_val_digit_char [simp, text_simps]: "d < 36 \<Longrightarrow> digit_val (digit_char d) = d"
  by (auto simp: digit_val_def Let_def code_digit_char)

lemma is_digit_digit_char [simp, text_simps]: "d < 10 \<Longrightarrow> is_digit (digit_char d)"
  by (simp add: is_digit_def code_digit_char)

lemma is_digit_not_space: "is_digit c \<Longrightarrow> \<not> is_space c"
  by (auto simp: is_digit_def is_space_def Let_def)

section \<open>Searching, trimming, splitting\<close>

definition trimmed :: "string \<Rightarrow> string" where
  "trimmed s = rev (dropWhile is_space (rev (dropWhile is_space s)))"

definition to_lower :: "string \<Rightarrow> string" where
  "to_lower s = map to_lower_char s"

definition to_upper_char :: "char \<Rightarrow> char" where
  \<comment> \<open>on Latin-1, without the letters whose capital form is outside it\<close>
  "to_upper_char c = (let n = code_of c in
     if 97 \<le> n \<and> n \<le> 122 \<or> 224 \<le> n \<and> n \<le> 254 \<and> n \<noteq> 247 then char_of (n - 32) else c)"

definition to_upper :: "string \<Rightarrow> string" where
  "to_upper s = map to_upper_char s"

definition starts_with :: "string \<Rightarrow> string \<Rightarrow> bool" where
  "starts_with p s \<longleftrightarrow> take (length p) s = p"

definition starts_with_ci :: "string \<Rightarrow> string \<Rightarrow> bool" where
  "starts_with_ci p s \<longleftrightarrow> starts_with (to_lower p) (to_lower s)"

definition ends_with :: "string \<Rightarrow> string \<Rightarrow> bool" where
  "ends_with p s \<longleftrightarrow> starts_with (rev p) (rev s)"

fun contains_str :: "string \<Rightarrow> string \<Rightarrow> bool" where
  "contains_str p [] = (p = [])"
| "contains_str p (c # s) = (starts_with p (c # s) \<or> contains_str p s)"

definition contains_ci :: "string \<Rightarrow> string \<Rightarrow> bool" where
  "contains_ci p s = contains_str (to_lower p) (to_lower s)"

fun index_of :: "string \<Rightarrow> string \<Rightarrow> nat option" where
  "index_of p [] = (if p = [] then Some 0 else None)"
| "index_of p (c # s) = (if starts_with p (c # s) then Some 0 else map_option Suc (index_of p s))"

definition index_from :: "string \<Rightarrow> string \<Rightarrow> nat \<Rightarrow> nat option" where
  "index_from p s from = map_option ((+) from) (index_of p (drop from s))"

lemma to_lower_append: "to_lower (s @ t) = to_lower s @ to_lower t"
  by (simp add: to_lower_def)

definition replace_char :: "char \<Rightarrow> string \<Rightarrow> string \<Rightarrow> string" where
  \<comment> \<open>\<open>text.replace(c, r)\<close>\<close>
  "replace_char c r s = concat (map (\<lambda>x. if x = c then r else [x]) s)"

fun split_on :: "char \<Rightarrow> string \<Rightarrow> string list" where
  "split_on c [] = [[]]"
| "split_on c (x # s) =
     (if x = c then [] # split_on c s
      else case split_on c s of [] \<Rightarrow> [[x]] | p # ps \<Rightarrow> (x # p) # ps)"

definition split_skip_empty :: "char \<Rightarrow> string \<Rightarrow> string list" where
  "split_skip_empty c s = filter (\<lambda>p. p \<noteq> []) (split_on c s)"

fun split_space :: "string \<Rightarrow> string \<Rightarrow> string list" where
  \<comment> \<open>split on \<open>\s+\<close> with \<open>SkipEmptyParts\<close>; the first argument is the part being read, reversed\<close>
  "split_space acc [] = (if acc = [] then [] else [rev acc])"
| "split_space acc (c # s) =
     (if is_space c then (if acc = [] then split_space [] s else rev acc # split_space [] s)
      else split_space (c # acc) s)"

fun join_with :: "string \<Rightarrow> string list \<Rightarrow> string" where
  "join_with sep [] = []"
| "join_with sep [x] = x"
| "join_with sep (x # y # xs) = x @ sep @ join_with sep (y # xs)"

lemma split_on_not_Nil [simp]: "split_on c s \<noteq> []"
  by (induction s) (auto split: list.splits)

lemma split_on_no_sep [text_simps]: "c \<notin> set s \<Longrightarrow> split_on c s = [s]"
  by (induction s) auto

lemma split_on_append [text_simps]:
  "c \<notin> set s \<Longrightarrow> split_on c (s @ c # t) = s # split_on c t"
  by (induction s) auto

lemma split_on_parts: "p \<in> set (split_on c s) \<Longrightarrow> c \<notin> set p"
  by (induction s arbitrary: p) (auto split: list.splits if_splits)

lemma trimmed_Nil [simp, text_simps]: "trimmed [] = []"
  by (simp add: trimmed_def)

lemma trimmed_id: "(\<forall>c \<in> set s. \<not> is_space c) \<Longrightarrow> trimmed s = s"
proof -
  assume a: "\<forall>c \<in> set s. \<not> is_space c"
  have id: "dropWhile is_space xs = xs" if "\<forall>c \<in> set xs. \<not> is_space c" for xs
    using that by (cases xs) auto
  show ?thesis using a by (simp add: trimmed_def id)
qed

lemma starts_with_append [simp, text_simps]: "starts_with p (p @ s)"
  by (simp add: starts_with_def)

lemma starts_with_iff: "starts_with p s \<longleftrightarrow> (\<exists>t. s = p @ t)"
  by (metis append_eq_conv_conj starts_with_def)

lemma contains_str_iff: "contains_str p s \<longleftrightarrow> (\<exists>a b. s = a @ p @ b)"
proof (induction s)
  case Nil
  then show ?case by auto
next
  case (Cons c s)
  have "(\<exists>a b. c # s = a @ p @ b) \<longleftrightarrow> (\<exists>b. c # s = p @ b) \<or> (\<exists>a b. s = a @ p @ b)"
    by (metis append_Cons append_Nil list.inject neq_Nil_conv)
  then show ?case using Cons by (simp add: starts_with_iff)
qed

section \<open>Numbers as text\<close>

fun digits_base :: "nat \<Rightarrow> nat \<Rightarrow> string" where
  "digits_base b n =
     (if n < b \<or> b < 2 then [digit_char n] else digits_base b (n div b) @ [digit_char (n mod b)])"

declare digits_base.simps [simp del]

definition number_nat :: "nat \<Rightarrow> string" where
  "number_nat n = digits_base 10 n"

definition number_int :: "int \<Rightarrow> string" where
  "number_int i = (if i < 0 then CHR ''-'' # number_nat (nat (- i)) else number_nat (nat i))"

definition number_hex :: "nat \<Rightarrow> string" where
  "number_hex n = digits_base 16 n"

definition right_justified :: "nat \<Rightarrow> char \<Rightarrow> string \<Rightarrow> string" where
  "right_justified w c s = replicate (w - length s) c @ s"

definition hex_field :: "nat \<Rightarrow> nat \<Rightarrow> string" where
  \<comment> \<open>\<open>QString("%1").arg(n, w, 16, QLatin1Char('0'))\<close>\<close>
  "hex_field w n = right_justified w (CHR ''0'') (number_hex n)"

fun value_acc :: "nat \<Rightarrow> nat \<Rightarrow> string \<Rightarrow> nat" where
  "value_acc b acc [] = acc"
| "value_acc b acc (c # s) = value_acc b (acc * b + digit_val c) s"

definition all_digits :: "nat \<Rightarrow> string \<Rightarrow> bool" where
  "all_digits b s \<longleftrightarrow> s \<noteq> [] \<and> (\<forall>c \<in> set s. digit_val c < b)"

definition parse_nat :: "nat \<Rightarrow> string \<Rightarrow> nat option" where
  "parse_nat b s = (if all_digits b s then Some (value_acc b 0 s) else None)"

definition strip_hex_prefix :: "string \<Rightarrow> string" where
  "strip_hex_prefix s = (if starts_with_ci ''0x'' s \<and> length s > 2 then drop 2 s else s)"

definition parse_base :: "nat \<Rightarrow> string \<Rightarrow> nat option" where
  \<comment> \<open>base 0 follows the C convention: \<open>0x\<close> is hexadecimal, a leading \<open>0\<close> octal\<close>
  "parse_base b s =
     (if b = 16 then parse_nat 16 (strip_hex_prefix s)
      else if b = 0 then
        (if starts_with_ci ''0x'' s then parse_nat 16 (drop 2 s)
         else if starts_with ''0'' s then parse_nat 8 s
         else parse_nat 10 s)
      else parse_nat b s)"

definition strip_plus :: "string \<Rightarrow> string" where
  "strip_plus s = (case s of c # t \<Rightarrow> if c = CHR ''+'' then t else s | [] \<Rightarrow> [])"

definition to_uint :: "nat \<Rightarrow> nat \<Rightarrow> string \<Rightarrow> nat option" where
  \<comment> \<open>\<open>toUInt\<close>, \<open>toUShort\<close>: the value of the text where it is a number below the bound\<close>
  "to_uint bound b s =
     (case parse_base b (strip_plus (trimmed s)) of
        None \<Rightarrow> None | Some n \<Rightarrow> if n < bound then Some n else None)"

definition to_sint :: "nat \<Rightarrow> nat \<Rightarrow> string \<Rightarrow> int option" where
  \<comment> \<open>\<open>toInt\<close>, \<open>toLongLong\<close>: \<open>bound\<close> is the least value too large\<close>
  "to_sint bound b s = (let t = trimmed s in
     case t of
       [] \<Rightarrow> None
     | c # r \<Rightarrow>
        if c = CHR ''-'' then
          (case parse_base b r of
             None \<Rightarrow> None | Some n \<Rightarrow> if n \<le> bound then Some (- int n) else None)
        else
          (case parse_base b (strip_plus t) of
             None \<Rightarrow> None | Some n \<Rightarrow> if n < bound then Some (int n) else None))"

definition or_zero :: "'a::zero option \<Rightarrow> 'a" where
  \<comment> \<open>the conversions answer 0 where they fail\<close>
  "or_zero x = (case x of None \<Rightarrow> 0 | Some n \<Rightarrow> n)"

lemma or_zero_simps [simp]: "or_zero None = 0" "or_zero (Some x) = x"
  by (simp_all add: or_zero_def)

abbreviation to_uint32 :: "string \<Rightarrow> nat option" where
  "to_uint32 \<equiv> to_uint (2 ^ 32) 10"

abbreviation to_int32 :: "string \<Rightarrow> int option" where
  "to_int32 \<equiv> to_sint (2 ^ 31) 10"

section \<open>Round trips of the conversions\<close>

lemma value_acc_append: "value_acc b acc (s @ t) = value_acc b (value_acc b acc s) t"
  by (induction s arbitrary: acc) auto

lemma value_digits_base:
  assumes "2 \<le> b" and "b \<le> 36"
  shows "value_acc b 0 (digits_base b n) = n"
  using assms
proof (induction b n rule: digits_base.induct)
  case (1 b n)
  show ?case
  proof (cases "n < b")
    case True
    with "1.prems" show ?thesis by (subst digits_base.simps) simp
  next
    case False
    with "1" have ih: "value_acc b 0 (digits_base b (n div b)) = n div b" by simp
    from "1.prems" have "n mod b < b" by simp
    with "1.prems" have m: "n mod b < 36" by linarith
    show ?thesis
      using False "1.prems"
      by (subst digits_base.simps) (simp add: value_acc_append ih m)
  qed
qed

lemma digits_base_digits:
  assumes "2 \<le> b" and "b \<le> 36" and "c \<in> set (digits_base b n)"
  shows "\<exists>d<b. c = digit_char d"
  using assms
proof (induction b n rule: digits_base.induct)
  case (1 b n)
  show ?case
  proof (cases "n < b")
    case True
    with "1.prems" show ?thesis by (subst (asm) digits_base.simps) auto
  next
    case False
    with "1.prems" have "c \<in> set (digits_base b (n div b)) \<or> c = digit_char (n mod b)"
      by (subst (asm) digits_base.simps) auto
    moreover from "1.prems" have "n mod b < b" by simp
    then have "\<exists>d<b. digit_char (n mod b) = digit_char d" by blast
    ultimately show ?thesis using "1.IH" "1.prems"(1,2) False by auto
  qed
qed

lemma digits_base_not_Nil [simp]: "digits_base b n \<noteq> []"
  by (subst digits_base.simps) simp

lemma parse_nat_digits_base [text_simps]:
  "2 \<le> b \<Longrightarrow> b \<le> 36 \<Longrightarrow> parse_nat b (digits_base b n) = Some n"
  using digits_base_digits [of b _ n]
  by (fastforce simp: parse_nat_def all_digits_def value_digits_base)

lemma number_nat_digits: "c \<in> set (number_nat n) \<Longrightarrow> is_digit c"
  unfolding number_nat_def using digits_base_digits [of 10 c n] by auto

lemma trimmed_number_nat [simp]: "trimmed (number_nat n) = number_nat n"
  by (intro trimmed_id ballI) (auto dest: number_nat_digits is_digit_not_space)

lemma is_digit_plus: "\<not> is_digit (CHR ''+'')" and is_digit_minus: "\<not> is_digit (CHR ''-'')"
  by (simp_all add: is_digit_def code_of_def)

lemma strip_plus_number_nat [simp]: "strip_plus (number_nat n) = number_nat n"
proof (cases "number_nat n")
  case Nil
  then show ?thesis by (simp add: strip_plus_def)
next
  case (Cons c t)
  then have "is_digit c" using number_nat_digits [of c n] by simp
  then have "c \<noteq> CHR ''+''" using is_digit_plus by auto
  with Cons show ?thesis by (simp add: strip_plus_def)
qed

lemma to_uint_number_nat [simp, text_simps]: "n < bound \<Longrightarrow> to_uint bound 10 (number_nat n) = Some n"
  by (simp add: to_uint_def parse_base_def number_nat_def [symmetric])
     (simp add: number_nat_def parse_nat_digits_base)

lemma number_nat_not_Nil [simp]: "number_nat n \<noteq> []"
  by (simp add: number_nat_def)

lemma to_sint_number_nat [simp, text_simps]:
  "n < bound \<Longrightarrow> to_sint bound 10 (number_nat n) = Some (int n)"
proof -
  assume n: "n < bound"
  obtain c r where cr: "number_nat n = c # r" by (cases "number_nat n") auto
  then have "is_digit c" using number_nat_digits [of c n] by simp
  then have "c \<noteq> CHR ''-''" using is_digit_minus by auto
  moreover have "strip_plus (c # r) = c # r"
    using strip_plus_number_nat [of n] cr by simp
  moreover have "parse_base 10 (c # r) = Some n"
    using cr by (simp add: parse_base_def flip: cr) (simp add: number_nat_def parse_nat_digits_base)
  ultimately show ?thesis using n cr trimmed_number_nat [of n] by (simp add: to_sint_def)
qed

lemma minus_not_space: "\<not> is_space (CHR ''-'')"
  by (simp add: is_space_def code_of_def Let_def)

lemma trimmed_number_int [simp]: "trimmed (number_int i) = number_int i"
  by (rule trimmed_id) (auto simp: number_int_def minus_not_space dest: number_nat_digits is_digit_not_space)

lemma to_sint_number_int:
  assumes "- int bound \<le> i" and "i < int bound"
  shows "to_sint bound 10 (number_int i) = Some i"
proof (cases "i < 0")
  case True
  then have t: "number_int i = CHR ''-'' # number_nat (nat (- i))" by (simp add: number_int_def)
  have "parse_base 10 (number_nat (nat (- i))) = Some (nat (- i))"
    by (simp add: parse_base_def number_nat_def parse_nat_digits_base)
  then show ?thesis
    using assms True trimmed_number_int [of i] by (simp add: to_sint_def t)
next
  case False
  then have "number_int i = number_nat (nat i)" "nat i < bound" using assms by (simp_all add: number_int_def)
  with False show ?thesis by simp
qed

lemma digit_char_not_space: "d < 16 \<Longrightarrow> \<not> is_space (digit_char d) \<and> digit_char d \<noteq> CHR ''+''"
proof -
  assume "d < 16"
  then have "code_of (digit_char d) \<in> {48..102}" by (auto simp: code_digit_char)
  then show ?thesis by (auto simp: is_space_def Let_def code_of_def)
qed

lemma number_hex_chars:
  assumes "c \<in> set (number_hex n)"
  shows "\<not> is_space c" and "c \<noteq> CHR ''+''" and "to_lower_char c \<noteq> CHR ''x''"
proof -
  from digits_base_digits [of 16 c n] assms obtain d where d: "d < 16" "c = digit_char d"
    by (auto simp: number_hex_def)
  from d show "\<not> is_space c" "c \<noteq> CHR ''+''" using digit_char_not_space by auto
  from d have "code_of c \<le> 57 \<or> 97 \<le> code_of c \<and> code_of c \<le> 102" by (auto simp: code_digit_char)
  then have "to_lower_char c = c" "code_of c \<noteq> code_of (CHR ''x'')"
    by (auto simp: to_lower_char_def Let_def code_of_def)
  then show "to_lower_char c \<noteq> CHR ''x''" by auto
qed

lemma number_hex_no_prefix: "\<not> starts_with_ci ''0x'' (number_hex n)"
proof
  assume "starts_with_ci ''0x'' (number_hex n)"
  then have t: "take 2 (to_lower (number_hex n)) = to_lower ''0x''"
    by (simp add: starts_with_ci_def starts_with_def to_lower_def numeral_2_eq_2)
  have x: "to_lower ''0x'' = ''0x''" by (simp add: to_lower_def to_lower_char_def code_of_def)
  have "CHR ''x'' \<in> set (take 2 (to_lower (number_hex n)))" unfolding t x by simp
  then have "CHR ''x'' \<in> set (to_lower (number_hex n))" by (rule in_set_takeD)
  then obtain c where "c \<in> set (number_hex n)" "to_lower_char c = CHR ''x''"
    by (auto simp: to_lower_def)
  with number_hex_chars(3) show False by blast
qed

lemma to_uint_number_hex: "n < bound \<Longrightarrow> to_uint bound 16 (number_hex n) = Some n"
proof -
  assume n: "n < bound"
  have t: "trimmed (number_hex n) = number_hex n" by (rule trimmed_id) (simp add: number_hex_chars)
  have "strip_plus (number_hex n) = number_hex n"
    using number_hex_chars(2) [of _ n] by (auto simp: strip_plus_def split: list.splits)
  moreover have "strip_hex_prefix (number_hex n) = number_hex n"
    by (simp add: strip_hex_prefix_def number_hex_no_prefix)
  ultimately show ?thesis
    using n t by (simp add: to_uint_def parse_base_def number_hex_def parse_nat_digits_base)
qed

lemma value_acc_zeros: "value_acc b 0 (replicate k (CHR ''0'') @ s) = value_acc b 0 s"
proof (induction k)
  case (Suc k)
  have "digit_val (CHR ''0'') = 0" by code_simp
  with Suc show ?case by simp
qed simp

lemma hex_field_inj: "hex_field w n = hex_field w' m \<Longrightarrow> n = m"
proof -
  have v: "value_acc 16 0 (hex_field w n) = n" for w n
    using value_digits_base [of 16 n] by (simp add: hex_field_def right_justified_def value_acc_zeros number_hex_def)
  show "hex_field w n = hex_field w' m \<Longrightarrow> n = m" using v [of w n] v [of w' m] by simp
qed

lemma hex_field_chars:
  assumes "c \<in> set (hex_field w n)"
  shows "code_of c \<le> 57 \<or> 97 \<le> code_of c \<and> code_of c \<le> 102"
proof -
  from assms consider "c = CHR ''0''" | "c \<in> set (digits_base 16 n)"
    by (auto simp: hex_field_def right_justified_def number_hex_def)
  then show ?thesis
  proof cases
    case 2
    with digits_base_digits [of 16 c n] obtain d where "d < 16" "c = digit_char d" by auto
    then show ?thesis by (auto simp: code_digit_char)
  qed (simp add: code_of_def)
qed

end
