(* ===== verification/QtJson.thy ===== *)
theory QtJson
  imports Complex_Main QtText
begin

text \<open>
  JSON values as the code builds and reads them (\<open>QJsonValue\<close>, \<open>QJsonObject\<close>, \<open>QJsonArray\<close>).
  A number is a rational, so an integer and the equal floating-point number are one value, as in
  JSON; the rounding of \<open>double\<close> is not modelled. An object is an association list with the
  lookup of the first pair; \<open>jset\<close> is \<open>operator[]\<close> assignment and \<open>insert\<close>, which replace.
  The conversions answer their default where the value has another type, as documented:
  \<open>toInt\<close> also where the number is not an integer of 32 bits.
\<close>

datatype json =
    JUndefined
  | JNull
  | JBool bool
  | JNum rat
  | JStr string
  | JArr "json list"
  | JObj "(string \<times> json) list"

type_synonym jobject = "(string \<times> json) list"

definition jint :: "int \<Rightarrow> json" where
  "jint i = JNum (of_int i)"

definition jnat :: "nat \<Rightarrow> json" where
  "jnat n = jint (int n)"

fun jfind :: "jobject \<Rightarrow> string \<Rightarrow> json" where
  "jfind [] k = JUndefined"
| "jfind ((k', v) # ob) k = (if k' = k then v else jfind ob k)"

fun jset :: "string \<Rightarrow> json \<Rightarrow> jobject \<Rightarrow> jobject" where
  "jset k v [] = [(k, v)]"
| "jset k v ((k', v') # ob) = (if k' = k then (k, v) # ob else (k', v') # jset k v ob)"

definition jcontains :: "jobject \<Rightarrow> string \<Rightarrow> bool" where
  "jcontains ob k \<longleftrightarrow> k \<in> fst ` set ob"

fun to_object :: "json \<Rightarrow> jobject" where
  "to_object (JObj ob) = ob"
| "to_object _ = []"

fun to_array :: "json \<Rightarrow> json list" where
  "to_array (JArr xs) = xs"
| "to_array _ = []"

fun to_string_def :: "string \<Rightarrow> json \<Rightarrow> string" where
  "to_string_def d (JStr s) = s"
| "to_string_def d _ = d"

abbreviation to_string :: "json \<Rightarrow> string" where
  "to_string \<equiv> to_string_def []"

fun to_bool :: "json \<Rightarrow> bool" where
  "to_bool (JBool b) = b"
| "to_bool _ = False"

definition int32_ok :: "int \<Rightarrow> bool" where
  "int32_ok i \<longleftrightarrow> - 2147483648 \<le> i \<and> i \<le> 2147483647"

fun to_int_def :: "int \<Rightarrow> json \<Rightarrow> int" where
  "to_int_def d (JNum r) = (let i = \<lfloor>r\<rfloor> in if of_int i = r \<and> int32_ok i then i else d)"
| "to_int_def d _ = d"

abbreviation to_int :: "json \<Rightarrow> int" where
  "to_int \<equiv> to_int_def 0"

fun to_double_def :: "rat \<Rightarrow> json \<Rightarrow> rat" where
  "to_double_def d (JNum r) = r"
| "to_double_def d _ = d"

definition is_object :: "json \<Rightarrow> bool" where
  "is_object v \<longleftrightarrow> (case v of JObj _ \<Rightarrow> True | _ \<Rightarrow> False)"

section \<open>Lookup after assignment\<close>

lemma jfind_jset [simp, json_simps]: "jfind (jset k v ob) k' = (if k' = k then v else jfind ob k')"
  by (induction ob) auto

lemma jcontains_simps [simp, json_simps]:
  "jcontains [] k \<longleftrightarrow> False"
  "jcontains ((k', v) # ob) k \<longleftrightarrow> k' = k \<or> jcontains ob k"
  by (auto simp: jcontains_def)

lemma jcontains_jset [simp, json_simps]: "jcontains (jset k v ob) k' \<longleftrightarrow> k' = k \<or> jcontains ob k'"
  by (induction ob) (auto split: if_splits)

lemma jfind_not_contained: "\<not> jcontains ob k \<Longrightarrow> jfind ob k = JUndefined"
  by (induction ob) auto

lemma to_int_def_jint [simp, json_simps]: "to_int_def d (jint i) = (if int32_ok i then i else d)"
  by (simp add: jint_def Let_def)

lemma jint_inject [simp]: "jint i = jint j \<longleftrightarrow> i = j"
  by (simp add: jint_def)

lemma jnat_inject [simp]: "jnat m = jnat n \<longleftrightarrow> m = n"
  by (simp add: jnat_def)

lemma jint_not [simp]:
  "jint i \<noteq> JUndefined" "jint i \<noteq> JStr s" "jint i \<noteq> JBool b" "jint i \<noteq> JObj ob" "jint i \<noteq> JArr xs"
  by (simp_all add: jint_def)

lemma is_object_JObj [simp, json_simps]: "is_object (JObj ob)"
  by (simp add: is_object_def)

lemma is_object_to_object: "is_object v \<longleftrightarrow> v = JObj (to_object v)"
  by (cases v) (auto simp: is_object_def)

lemma int32_okI [simp]: "0 \<le> i \<Longrightarrow> i \<le> 2147483647 \<Longrightarrow> int32_ok i"
  by (simp add: int32_ok_def)

end
