(* ===== verification/EthercatTypes.thy ===== *)
theory EthercatTypes
  imports QtJson
begin

text \<open>
  \<^verbatim>\<open>src/core/EthercatTypes.{h,cpp}\<close>: the record of a slave found on the bus and its JSON form, the
  data the daemon and the GUI exchange. \<open>position\<close> is a C++ \<open>int\<close>, kept as an integer; the facts that
  need its range say so with \<open>int32_ok\<close>.
\<close>

record slave_info =
  si_position :: int
  si_state :: string
  si_flags :: string
  si_name :: string
  si_raw_line :: string

definition slave_to_json :: "slave_info \<Rightarrow> json" where
  "slave_to_json s = JObj [
     (''position'', jint (si_position s)), (''state'', JStr (si_state s)),
     (''flags'', JStr (si_flags s)), (''name'', JStr (si_name s)),
     (''rawLine'', JStr (si_raw_line s))]"

definition slaves_to_json :: "slave_info list \<Rightarrow> json" where
  "slaves_to_json ss = JArr (map slave_to_json ss)"

definition slave_from_json :: "jobject \<Rightarrow> slave_info" where
  "slave_from_json ob = \<lparr>
     si_position = to_int_def (- 1) (jfind ob ''position''),
     si_state = to_string (jfind ob ''state''),
     si_flags = to_string (jfind ob ''flags''),
     si_name = to_string (jfind ob ''name''),
     si_raw_line = to_string (jfind ob ''rawLine'')\<rparr>"

fun slaves_from_json :: "json list \<Rightarrow> slave_info list" where
  "slaves_from_json [] = []"
| "slaves_from_json (v # vs) =
     (if is_object v then slave_from_json (to_object v) # slaves_from_json vs
      else slaves_from_json vs)"

lemma slave_from_to_json [simp, json_simps]:
  "int32_ok (si_position s) \<Longrightarrow> slave_from_json (to_object (slave_to_json s)) = s"
  by (simp add: slave_from_json_def slave_to_json_def)

lemma slaves_from_json_filter:
  "slaves_from_json vs = map (slave_from_json \<circ> to_object) (filter is_object vs)"
  by (induction vs) auto

text \<open>
  The GUI reads back exactly the slave list the daemon serialised, for positions
  of the \<open>int\<close> range, also when other array elements that are no objects are mixed in: those are
  skipped, and the order of the slaves is kept.
\<close>

theorem slaves_json_roundtrip:
  assumes "\<forall>s \<in> set ss. int32_ok (si_position s)"
    and "filter is_object vs = map slave_to_json ss"
  shows "slaves_from_json vs = ss \<and> slaves_from_json (to_array (slaves_to_json ss)) = ss"
proof -
  have m: "map (slave_from_json \<circ> to_object) (map slave_to_json ss) = ss"
    using assms(1) by (auto intro: map_idI)
  have "filter is_object (map slave_to_json ss) = map slave_to_json ss"
    by (auto simp: slave_to_json_def is_object_def)
  with m assms(2) show ?thesis by (simp add: slaves_from_json_filter slaves_to_json_def)
qed

definition demo_slave :: slave_info where
  "demo_slave = \<lparr>si_position = 0, si_state = ''OP'', si_flags = ''+'', si_name = ''EL1008'',
     si_raw_line = ''0  0:0  OP  +  EL1008''\<rparr>"

theorem slaves_json_roundtrip_witness:
  "slaves_from_json [JNull, slave_to_json demo_slave, JStr ''x''] = [demo_slave]"
proof -
  have "\<forall>s \<in> set [demo_slave]. int32_ok (si_position s)" by (simp add: demo_slave_def)
  moreover have "filter is_object [JNull, slave_to_json demo_slave, JStr ''x'']
      = map slave_to_json [demo_slave]"
    by (simp add: slave_to_json_def is_object_def)
  ultimately show ?thesis using slaves_json_roundtrip by blast
qed

end
