(* ===== verification/QtRegex.thy ===== *)
theory QtRegex
  imports QtText
begin

text \<open>
  The fragment of regular expressions the code writes in its \<open>QRegularExpression\<close> literals, with the
  documented Perl semantics: a match is the first one, leftmost, the quantifiers being greedy and
  backtracking in order. A pattern is a list of atoms; \<open>Many p lo hi\<close> repeats a character class,
  \<open>Rep\<close> a group a fixed number of times, \<open>Grp n\<close> captures as group \<open>n\<close>. A position is what was
  consumed (reversed) and what is left, with the captures so far, newest first. \<open>\d\<close>, \<open>\s\<close>, \<open>\w\<close>
  are the ASCII classes.
\<close>

datatype rx =
    Lit string
  | Cls "char \<Rightarrow> bool"
  | Many "char \<Rightarrow> bool" nat "nat option"
  | Grp nat "rx list"
  | Alt "rx list" "rx list"
  | Rep nat "rx list"
  | Bol
  | Eol
  | WordB

record rx_flags =
  multiline :: bool
  nocase :: bool

definition rx_plain :: rx_flags where "rx_plain = \<lparr>multiline = False, nocase = False\<rparr>"
definition rx_multi :: rx_flags where "rx_multi = \<lparr>multiline = True, nocase = False\<rparr>"
definition rx_ci :: rx_flags where "rx_ci = \<lparr>multiline = False, nocase = True\<rparr>"

type_synonym rx_pos = "string \<times> string \<times> (nat \<times> string) list"

definition newline :: char where "newline = char_of (10 :: nat)"

definition rx_space :: "char \<Rightarrow> bool" where
  "rx_space c \<longleftrightarrow> (let n = code_of c in 9 \<le> n \<and> n \<le> 13 \<or> n = 32)"

definition rx_nonspace :: "char \<Rightarrow> bool" where "rx_nonspace c \<longleftrightarrow> \<not> rx_space c"

definition rx_word :: "char \<Rightarrow> bool" where
  "rx_word c \<longleftrightarrow> is_digit c \<or> (let n = code_of c in 65 \<le> n \<and> n \<le> 90 \<or> 97 \<le> n \<and> n \<le> 122 \<or> n = 95)"

definition rx_dot :: "char \<Rightarrow> bool" where "rx_dot c \<longleftrightarrow> c \<noteq> newline"

definition rx_none_of :: "string \<Rightarrow> char \<Rightarrow> bool" where "rx_none_of cs c \<longleftrightarrow> c \<notin> set cs"

abbreviation Digits :: rx where "Digits \<equiv> Many is_digit 1 None"
abbreviation Spaces :: rx where "Spaces \<equiv> Many rx_space 1 None"
abbreviation Spaces0 :: rx where "Spaces0 \<equiv> Many rx_space 0 None"
abbreviation Hexes :: rx where "Hexes \<equiv> Many is_hex 1 None"

definition run_lengths :: "(char \<Rightarrow> bool) \<Rightarrow> nat \<Rightarrow> nat option \<Rightarrow> string \<Rightarrow> nat list" where
  \<comment> \<open>how many characters a greedy class repetition can take, in the order it tries them\<close>
  "run_lengths p lo hi s =
     (let n = length (takeWhile p s); m = (case hi of None \<Rightarrow> n | Some h \<Rightarrow> min n h)
      in rev [lo..<Suc m])"

definition eat :: "nat \<Rightarrow> rx_pos \<Rightarrow> rx_pos" where
  "eat n st = (case st of (pre, post, caps) \<Rightarrow> (rev (take n post) @ pre, drop n post, caps))"

definition lit_at :: "rx_flags \<Rightarrow> string \<Rightarrow> string \<Rightarrow> bool" where
  "lit_at fl w s \<longleftrightarrow> (if nocase fl then starts_with_ci w s else starts_with w s)"

definition word_boundary :: "string \<Rightarrow> string \<Rightarrow> bool" where
  "word_boundary pre post \<longleftrightarrow>
     (pre \<noteq> [] \<and> rx_word (hd pre)) \<noteq> (post \<noteq> [] \<and> rx_word (hd post))"

fun rx_iter :: "nat \<Rightarrow> (rx_pos \<Rightarrow> rx_pos list) \<Rightarrow> rx_pos \<Rightarrow> rx_pos list" where
  "rx_iter 0 f st = [st]"
| "rx_iter (Suc n) f st = concat (map (rx_iter n f) (f st))"

fun rx_atom :: "rx_flags \<Rightarrow> rx \<Rightarrow> rx_pos \<Rightarrow> rx_pos list"
  and rx_seq :: "rx_flags \<Rightarrow> rx list \<Rightarrow> rx_pos \<Rightarrow> rx_pos list"
where
  "rx_atom fl (Lit w) st =
     (case st of (pre, post, caps) \<Rightarrow> if lit_at fl w post then [eat (length w) st] else [])"
| "rx_atom fl (Cls p) st =
     (case st of (pre, post, caps) \<Rightarrow> if post \<noteq> [] \<and> p (hd post) then [eat 1 st] else [])"
| "rx_atom fl (Many p lo hi) st =
     (case st of (pre, post, caps) \<Rightarrow> map (\<lambda>n. eat n st) (run_lengths p lo hi post))"
| "rx_atom fl (Grp n rs) st =
     (case st of (pre, post, caps) \<Rightarrow>
        map (\<lambda>(pre', post', caps'). (pre', post', (n, take (length post - length post') post) # caps'))
          (rx_seq fl rs st))"
| "rx_atom fl (Alt rs qs) st = rx_seq fl rs st @ rx_seq fl qs st"
| "rx_atom fl (Rep n rs) st = rx_iter n (rx_seq fl rs) st"
| "rx_atom fl Bol st =
     (case st of (pre, post, caps) \<Rightarrow>
        if pre = [] \<or> multiline fl \<and> hd pre = newline then [st] else [])"
| "rx_atom fl Eol st =
     (case st of (pre, post, caps) \<Rightarrow>
        if post = [] \<or> post = [newline] \<or> multiline fl \<and> hd post = newline then [st] else [])"
| "rx_atom fl WordB st =
     (case st of (pre, post, caps) \<Rightarrow> if word_boundary pre post then [st] else [])"
| "rx_seq fl [] st = [st]"
| "rx_seq fl (r # rs) st = concat (map (rx_seq fl rs) (rx_atom fl r st))"

fun rx_search :: "rx_flags \<Rightarrow> rx list \<Rightarrow> string \<Rightarrow> string \<Rightarrow> rx_pos option" where
  \<comment> \<open>try each start position in turn; the answer's consumed part includes what was skipped\<close>
  "rx_search fl rs pre [] = (case rx_seq fl rs (pre, [], []) of [] \<Rightarrow> None | m # _ \<Rightarrow> Some m)"
| "rx_search fl rs pre (c # s) =
     (case rx_seq fl rs (pre, c # s, []) of
        [] \<Rightarrow> rx_search fl rs (c # pre) s
      | m # _ \<Rightarrow> Some m)"

definition rx_match :: "rx_flags \<Rightarrow> rx list \<Rightarrow> string \<Rightarrow> rx_pos option" where
  "rx_match fl rs s = rx_search fl rs [] s"

definition has_match :: "rx_flags \<Rightarrow> rx list \<Rightarrow> string \<Rightarrow> bool" where
  "has_match fl rs s \<longleftrightarrow> rx_match fl rs s \<noteq> None"

definition captured :: "rx_pos \<Rightarrow> nat \<Rightarrow> string" where
  \<comment> \<open>an unset group answers the empty string\<close>
  "captured m n = (case m of (pre, post, caps) \<Rightarrow>
     (case map_of caps n of None \<Rightarrow> [] | Some s \<Rightarrow> s))"

fun rx_global_fuel :: "nat \<Rightarrow> rx_flags \<Rightarrow> rx list \<Rightarrow> string \<Rightarrow> string \<Rightarrow> rx_pos list" where
  "rx_global_fuel 0 fl rs pre s = []"
| "rx_global_fuel (Suc k) fl rs pre s =
     (case rx_search fl rs pre s of
        None \<Rightarrow> []
      | Some (pre', post', caps) \<Rightarrow> (pre', post', caps) # rx_global_fuel k fl rs pre' post')"

definition rx_global :: "rx_flags \<Rightarrow> rx list \<Rightarrow> string \<Rightarrow> rx_pos list" where
  \<comment> \<open>\<open>globalMatch\<close> for the patterns of the code, none of which matches the empty string: each
      match consumes a character, so the length of the text bounds their number\<close>
  "rx_global fl rs s = rx_global_fuel (length s) fl rs [] s"

fun rx_remove_fuel :: "nat \<Rightarrow> rx_flags \<Rightarrow> rx list \<Rightarrow> string \<Rightarrow> string" where
  "rx_remove_fuel 0 fl rs s = s"
| "rx_remove_fuel (Suc k) fl rs s =
     (case rx_match fl [Grp 0 rs] s of
        None \<Rightarrow> s
      | Some m \<Rightarrow>
          let rest = fst (snd m)
          in take (length s - length rest - length (captured m 0)) s @ rx_remove_fuel k fl rs rest)"

definition rx_remove :: "rx_flags \<Rightarrow> rx list \<Rightarrow> string \<Rightarrow> string" where
  \<comment> \<open>\<open>QString::remove\<close> for patterns without assertions that match no empty text\<close>
  "rx_remove fl rs s = rx_remove_fuel (length s) fl rs s"

fun rx_replace_fuel :: "nat \<Rightarrow> rx_flags \<Rightarrow> rx list \<Rightarrow> string \<Rightarrow> string \<Rightarrow> string \<Rightarrow> string" where
  "rx_replace_fuel 0 fl rs r pre s = s"
| "rx_replace_fuel (Suc k) fl rs r pre s =
     (case rx_search fl [Grp 0 rs] pre s of
        None \<Rightarrow> s
      | Some m \<Rightarrow>
          let rest = fst (snd m)
          in take (length s - length rest - length (captured m 0)) s @ r @ rx_replace_fuel k fl rs r (fst m) rest)"

definition rx_replace :: "rx_flags \<Rightarrow> rx list \<Rightarrow> string \<Rightarrow> string \<Rightarrow> string" where
  \<comment> \<open>\<open>QString::replace\<close> of every match by a text without references, for patterns that match no empty text\<close>
  "rx_replace fl rs r s = rx_replace_fuel (Suc (length s)) fl rs r [] s"

section \<open>Positions only move forward\<close>

definition same_text :: "rx_pos \<Rightarrow> rx_pos \<Rightarrow> bool" where
  "same_text st st' \<longleftrightarrow> rev (fst st') @ fst (snd st') = rev (fst st) @ fst (snd st)
     \<and> length (fst st) \<le> length (fst st')"

lemma same_text_refl [simp]: "same_text st st"
  by (simp add: same_text_def)

lemma same_text_trans: "same_text a b \<Longrightarrow> same_text b c \<Longrightarrow> same_text a c"
  by (simp add: same_text_def)

lemma same_text_eat [simp]: "same_text st (eat n st)"
  by (cases st) (simp add: same_text_def eat_def)

lemma rx_iter_same_text:
  assumes "\<And>st st'. st' \<in> set (f st) \<Longrightarrow> same_text st st'"
  shows "st' \<in> set (rx_iter n f st) \<Longrightarrow> same_text st st'"
  by (induction n arbitrary: st) (auto intro: same_text_trans assms)

lemma rx_same_text:
  "st' \<in> set (rx_atom fl r st) \<Longrightarrow> same_text st st'"
  "st' \<in> set (rx_seq fl rs st) \<Longrightarrow> same_text st st'"
proof (induction fl r st and fl rs st arbitrary: st' and st' rule: rx_atom_rx_seq.induct)
  case (4 fl n rs st)
  then show ?case by (fastforce simp: same_text_def)
next
  case (6 fl n rs st)
  have "same_text a b" if "b \<in> set (rx_seq fl rs a)" for a b
    using 6(1) that by simp
  with 6(2) show ?case using rx_iter_same_text [of "rx_seq fl rs"] by simp
next
  case (11 fl r rs st)
  from 11(3) obtain m where m: "m \<in> set (rx_atom fl r st)" "st' \<in> set (rx_seq fl rs m)"
    by auto
  show ?case by (rule same_text_trans [OF 11(1) [OF m(1)] 11(2) [OF m]])
qed (auto split: prod.splits if_splits)

lemma rx_search_same_text:
  "rx_search fl rs pre s = Some m \<Longrightarrow> rev (fst m) @ fst (snd m) = rev pre @ s"
proof (induction fl rs pre s rule: rx_search.induct)
  case (1 fl rs pre)
  then show ?case
    using rx_same_text(2) [of m fl rs "(pre, [], [])"] by (auto simp: same_text_def split: list.splits)
next
  case (2 fl rs pre c s)
  then show ?case
    using rx_same_text(2) [of m fl rs "(pre, c # s, [])"]
    by (auto simp: same_text_def split: list.splits)
qed

section \<open>The first match of a pattern\<close>

text \<open>
  Greedy matching made compositional: the first position an atom answers is the one the pattern's
  rest is tried at first, so when that succeeds the whole pattern answers it first.
\<close>

definition first_atom :: "rx_flags \<Rightarrow> rx \<Rightarrow> rx_pos \<Rightarrow> rx_pos \<Rightarrow> bool" where
  "first_atom fl r st m \<longleftrightarrow> (\<exists>ms. rx_atom fl r st = m # ms)"

definition first_match :: "rx_flags \<Rightarrow> rx list \<Rightarrow> rx_pos \<Rightarrow> rx_pos \<Rightarrow> bool" where
  "first_match fl rs st m \<longleftrightarrow> (\<exists>ms. rx_seq fl rs st = m # ms)"

lemma first_match_Nil [simp]: "first_match fl [] st m \<longleftrightarrow> m = st"
  by (auto simp: first_match_def)

lemma first_match_Cons: "first_atom fl r st a \<Longrightarrow> first_match fl rs a m \<Longrightarrow> first_match fl (r # rs) st m"
  by (auto simp: first_match_def first_atom_def)

lemma first_many:
  assumes "\<forall>c \<in> set u. p c" and "lo \<le> length u" and "v = [] \<or> \<not> p (hd v)"
  shows "first_atom fl (Many p lo None) (pre, u @ v, caps) (rev u @ pre, v, caps)"
proof -
  have "takeWhile p (u @ v) = u"
    using assms(1,3) by (cases v) (auto simp: takeWhile_append2)
  then show ?thesis
    using assms(2) by (simp add: first_atom_def run_lengths_def eat_def Let_def)
qed

lemma first_many_upto:
  assumes "\<forall>c \<in> set u. p c" and "lo \<le> length u" and "length u \<le> hi" and "v = [] \<or> \<not> p (hd v)"
  shows "first_atom fl (Many p lo (Some hi)) (pre, u @ v, caps) (rev u @ pre, v, caps)"
proof -
  have "takeWhile p (u @ v) = u"
    using assms(1,4) by (cases v) (auto simp: takeWhile_append2)
  then show ?thesis
    using assms(2,3) by (simp add: first_atom_def run_lengths_def eat_def Let_def)
qed

lemma first_lit:
  "\<not> nocase fl \<Longrightarrow> first_atom fl (Lit w) (pre, w @ v, caps) (rev w @ pre, v, caps)"
  by (simp add: first_atom_def lit_at_def eat_def)

lemma first_bol: "first_atom fl Bol ([], v, caps) ([], v, caps)"
  by (simp add: first_atom_def)

lemma first_eol: "first_atom fl Eol (pre, [], caps) (pre, [], caps)"
  by (simp add: first_atom_def)

lemma first_grp:
  "first_match fl rs (pre, u @ v, caps) (pre', v, caps') \<Longrightarrow>
   first_atom fl (Grp n rs) (pre, u @ v, caps) (pre', v, (n, u) # caps')"
  by (auto simp: first_atom_def first_match_def)

lemma rx_match_first: "first_match fl rs ([], s, []) m \<Longrightarrow> rx_match fl rs s = Some m"
  by (cases s) (auto simp: rx_match_def first_match_def)

lemma rx_match_newline_free:
  "rx_match fl rs s = Some m \<Longrightarrow> set (fst m) \<union> set (fst (snd m)) = set s"
  using rx_search_same_text [of fl rs "[]" s m]
  by (metis append_Nil rev.simps(1) rx_match_def set_append set_rev)

section \<open>Searching past a prefix, and case-insensitive literals\<close>

lemma length_to_lower [simp]: "length (to_lower s) = length s"
  by (simp add: to_lower_def)

lemma starts_with_ci_append [simp]: "starts_with_ci w (w @ v)"
  by (simp add: starts_with_ci_def to_lower_append)

lemma starts_with_ci_prefix: "length w \<le> length s \<Longrightarrow> starts_with_ci w (s @ t) = starts_with_ci w s"
  by (simp add: starts_with_ci_def starts_with_def to_lower_append)

lemma first_lit_ci: "nocase fl \<Longrightarrow> first_atom fl (Lit w) (pre, w @ v, caps) (rev w @ pre, v, caps)"
  by (simp add: first_atom_def lit_at_def eat_def)

lemma first_alt_left: "first_match fl rs st m \<Longrightarrow> first_atom fl (Alt rs qs) st m"
  by (auto simp: first_atom_def first_match_def)

lemma first_alt_right: "rx_seq fl rs st = [] \<Longrightarrow> first_match fl qs st m \<Longrightarrow> first_atom fl (Alt rs qs) st m"
  by (auto simp: first_atom_def first_match_def)

lemma rx_seq_lit_fails: "\<not> lit_at fl w s \<Longrightarrow> rx_seq fl (Lit w # rs) (pre, s, caps) = []"
  by simp

lemma rx_search_skip:
  assumes "\<forall>i < length pre. rx_seq fl rs (rev (take i pre) @ p, drop i pre @ s, []) = []"
  shows "rx_search fl rs p (pre @ s) = rx_search fl rs (rev pre @ p) s"
  using assms
proof (induction pre arbitrary: p)
  case (Cons c pre)
  have "rx_seq fl rs (p, c # pre @ s, []) = []" using Cons.prems [rule_format, of 0] by simp
  moreover have "\<forall>i < length pre. rx_seq fl rs (rev (take i pre) @ c # p, drop i pre @ s, []) = []"
    using Cons.prems by (auto dest: spec [where x = "Suc i" for i])
  ultimately show ?case using Cons.IH [of "c # p"] by simp
qed simp

lemma rx_match_lit_after:
  assumes "nocase fl" and "\<forall>i < length pre. \<not> starts_with_ci w (drop i pre @ w)"
    and "first_match fl (Lit w # rs) (rev pre, w @ s, []) m"
  shows "rx_match fl (Lit w # rs) (pre @ w @ s) = Some m"
proof -
  have "rx_seq fl (Lit w # rs) (rev (take i pre), drop i pre @ w @ s, []) = []" if "i < length pre" for i
  proof (rule rx_seq_lit_fails)
    have "starts_with_ci w ((drop i pre @ w) @ s) = starts_with_ci w (drop i pre @ w)"
      by (rule starts_with_ci_prefix) simp
    with assms(1,2) that show "\<not> lit_at fl w (drop i pre @ w @ s)" by (simp add: lit_at_def)
  qed
  then have "rx_match fl (Lit w # rs) (pre @ w @ s) = rx_search fl (Lit w # rs) (rev pre) (w @ s)"
    unfolding rx_match_def using rx_search_skip [of pre fl "Lit w # rs" "[]" "w @ s"] by simp
  also have "\<dots> = Some m"
    using assms(3) by (cases "w @ s") (auto simp: first_match_def split: if_splits)
  finally show ?thesis .
qed

lemma starts_with_straddle:
  assumes "starts_with (c # t) (u @ c # v)" and "c \<notin> set t" and "u \<noteq> []"
  shows "starts_with (c # t) u"
proof -
  from assms(1) obtain x where x: "u @ c # v = c # t @ x" by (auto simp: starts_with_iff)
  have "length (c # t) \<le> length u"
  proof (rule ccontr)
    assume "\<not> length (c # t) \<le> length u"
    then have l: "length u < length (c # t)" by simp
    have "(c # t) ! length u = (u @ c # v) ! length u" using l by (simp only: x append_Cons [symmetric] nth_append) simp
    then have "t ! (length u - 1) = c" using assms(3) by (cases u) simp_all
    moreover have "length u - 1 < length t" using l assms(3) by (cases u) simp_all
    ultimately show False using assms(2) nth_mem by blast
  qed
  moreover have "take (length (c # t)) (u @ c # v) = c # t" by (simp add: x)
  ultimately have "take (length (c # t)) u = c # t" by simp
  then show ?thesis by (metis append_take_drop_id starts_with_iff)
qed

lemma rx_search_lit_after:
  assumes "\<not> nocase fl" and "c \<notin> set t" and "\<not> contains_str (c # t) pre"
    and "first_match fl (Lit (c # t) # rs) (rev pre @ p, c # s, []) m"
  shows "rx_search fl (Lit (c # t) # rs) p (pre @ c # s) = Some m"
proof -
  have "rx_seq fl (Lit (c # t) # rs) (rev (take i pre) @ p, drop i pre @ c # s, []) = []" if i: "i < length pre" for i
  proof (rule rx_seq_lit_fails)
    have "\<not> starts_with (c # t) (drop i pre @ c # s)"
    proof
      assume "starts_with (c # t) (drop i pre @ c # s)"
      then have "starts_with (c # t) (drop i pre)" using starts_with_straddle assms(2) i by fastforce
      then obtain y where "drop i pre = (c # t) @ y" by (auto simp: starts_with_iff)
      then have "pre = take i pre @ (c # t) @ y" by (metis append_take_drop_id)
      then show False using assms(3) unfolding contains_str_iff by blast
    qed
    with assms(1) show "\<not> lit_at fl (c # t) (drop i pre @ c # s)" by (simp add: lit_at_def)
  qed
  then have "rx_search fl (Lit (c # t) # rs) p (pre @ c # s) = rx_search fl (Lit (c # t) # rs) (rev pre @ p) (c # s)"
    by (intro rx_search_skip) blast
  also have "\<dots> = Some m" using assms(4) by (auto simp: first_match_def split: if_splits)
  finally show ?thesis .
qed

lemma rx_search_anchored: "pre \<noteq> [] \<Longrightarrow> \<not> multiline fl \<Longrightarrow> rx_search fl (Bol # rs) pre s = None"
  by (induction s arbitrary: pre) auto

lemma rx_match_anchored:
  "\<not> multiline fl \<Longrightarrow> rx_match fl (Bol # rs) s = Some m \<Longrightarrow> first_match fl rs ([], s, []) m"
  by (cases s) (auto simp: rx_match_def first_match_def rx_search_anchored split: list.splits)

section \<open>What the groups capture\<close>

fun groups_ok :: "(nat \<Rightarrow> string \<Rightarrow> bool) \<Rightarrow> rx_flags \<Rightarrow> rx \<Rightarrow> bool" where
  "groups_ok C fl (Grp n rs) \<longleftrightarrow>
     (\<forall>st st'. st' \<in> set (rx_seq fl rs st) \<longrightarrow>
        C n (take (length (fst (snd st)) - length (fst (snd st'))) (fst (snd st))))
     \<and> (\<forall>r \<in> set rs. groups_ok C fl r)"
| "groups_ok C fl (Alt rs qs) \<longleftrightarrow> (\<forall>r \<in> set rs. groups_ok C fl r) \<and> (\<forall>r \<in> set qs. groups_ok C fl r)"
| "groups_ok C fl (Rep n rs) \<longleftrightarrow> (\<forall>r \<in> set rs. groups_ok C fl r)"
| "groups_ok C fl _ \<longleftrightarrow> True"

definition caps_ok :: "(nat \<Rightarrow> string \<Rightarrow> bool) \<Rightarrow> rx_pos \<Rightarrow> bool" where
  "caps_ok C st \<longleftrightarrow> (\<forall>(n, s) \<in> set (snd (snd st)). C n s)"

lemma caps_ok_eat [simp]: "caps_ok C (eat n st) = caps_ok C st"
  by (cases st) (simp add: caps_ok_def eat_def)

lemma rx_iter_caps:
  assumes "\<And>st st'. st' \<in> set (f st) \<Longrightarrow> caps_ok C st \<Longrightarrow> caps_ok C st'"
  shows "st' \<in> set (rx_iter n f st) \<Longrightarrow> caps_ok C st \<Longrightarrow> caps_ok C st'"
proof (induction n arbitrary: st)
  case (Suc n)
  from Suc.prems(1) obtain m where "m \<in> set (f st)" "st' \<in> set (rx_iter n f m)" by auto
  with Suc.IH [of m] assms [of m st] Suc.prems(2) show ?case by blast
qed simp

lemma rx_caps:
  "st' \<in> set (rx_atom fl r st) \<Longrightarrow> groups_ok C fl r \<Longrightarrow> caps_ok C st \<Longrightarrow> caps_ok C st'"
  "st' \<in> set (rx_seq fl rs st) \<Longrightarrow> \<forall>r \<in> set rs. groups_ok C fl r \<Longrightarrow> caps_ok C st \<Longrightarrow> caps_ok C st'"
proof (induction fl r st and fl rs st arbitrary: st' and st' rule: rx_atom_rx_seq.induct)
  case (4 fl n rs st)
  obtain pre post caps where st: "st = (pre, post, caps)" by (cases st)
  from 4(2) obtain pre' post' caps' where m: "(pre', post', caps') \<in> set (rx_seq fl rs st)"
    "st' = (pre', post', (n, take (length post - length post') post) # caps')"
    by (auto simp: st)
  have "caps_ok C (pre', post', caps')" using 4(1) [OF st [symmetric] refl m(1)] 4(3,4) by simp
  moreover have "C n (take (length post - length post') post)"
    using 4(3) m(1) by (force simp: st)
  ultimately show ?case by (simp add: m(2) caps_ok_def)
next
  case (6 fl n rs st)
  have "\<And>a b. b \<in> set (rx_seq fl rs a) \<Longrightarrow> caps_ok C a \<Longrightarrow> caps_ok C b"
    using 6(1) 6(3) by simp
  with 6(2,4) show ?case using rx_iter_caps [of "rx_seq fl rs" C] by simp
next
  case (11 fl r rs st)
  from 11(3) obtain m where m: "m \<in> set (rx_atom fl r st)" "st' \<in> set (rx_seq fl rs m)"
    by auto
  have "caps_ok C m" using 11(1) [OF m(1)] 11(4,5) by simp
  then show ?case using 11(2) [OF m] 11(4) by simp
qed (auto split: prod.splits if_splits)

lemma rx_search_caps:
  "rx_search fl rs pre s = Some m \<Longrightarrow> \<forall>r \<in> set rs. groups_ok C fl r \<Longrightarrow> caps_ok C m"
proof (induction fl rs pre s rule: rx_search.induct)
  case (1 fl rs pre)
  then show ?case
    using rx_caps(2) [of m fl rs "(pre, [], [])" C] by (auto simp: caps_ok_def split: list.splits)
next
  case (2 fl rs pre c s)
  then show ?case
    using rx_caps(2) [of m fl rs "(pre, c # s, [])" C] by (auto simp: caps_ok_def split: list.splits)
qed

lemma rx_global_fuel_caps:
  "m \<in> set (rx_global_fuel k fl rs pre s) \<Longrightarrow> \<forall>r \<in> set rs. groups_ok C fl r \<Longrightarrow> caps_ok C m"
proof (induction k arbitrary: pre s)
  case (Suc k)
  from Suc.prems(1) obtain pre' post' caps where f: "rx_search fl rs pre s = Some (pre', post', caps)"
    and m: "m = (pre', post', caps) \<or> m \<in> set (rx_global_fuel k fl rs pre' post')"
    by (cases "rx_search fl rs pre s") auto
  from m show ?case using rx_search_caps [OF f Suc.prems(2)] Suc.IH Suc.prems(2) by blast
qed simp

lemma rx_global_captured:
  assumes "m \<in> set (rx_global fl rs s)" and "\<forall>r \<in> set rs. groups_ok C fl r"
  shows "captured m n = [] \<or> C n (captured m n)"
proof -
  have "caps_ok C m" using assms rx_global_fuel_caps by (fastforce simp: rx_global_def)
  then show ?thesis by (auto simp: captured_def caps_ok_def split: prod.splits option.splits dest: map_of_SomeD)
qed

lemma many_consumes:
  "st' \<in> set (rx_seq fl [Many p lo hi] st) \<Longrightarrow>
   \<forall>c \<in> set (take (length (fst (snd st)) - length (fst (snd st'))) (fst (snd st))). p c"
proof -
  assume a: "st' \<in> set (rx_seq fl [Many p lo hi] st)"
  obtain pre post caps where st: "st = (pre, post, caps)" by (cases st)
  from a obtain n where r: "n \<in> set (run_lengths p lo hi post)" and n2: "st' = eat n st"
    by (auto simp: st)
  from r have "n \<le> length (takeWhile p post)"
    by (auto simp: run_lengths_def Let_def split: option.splits)
  note n = this n2
  have "n \<le> length post" using n(1) length_takeWhile_le [of p post] by linarith
  moreover have "take n post = take n (takeWhile p post)"
    using n(1) arg_cong [OF takeWhile_eq_take [of p post], of "take n"] by (simp add: min_absorb1)
  ultimately show ?thesis
    by (auto simp: st n(2) eat_def dest!: in_set_takeD set_takeWhileD)
qed

end
