(* ===== verification/EniGenerator.thy ===== *)
theory EniGenerator
  imports QtRegex
begin

text \<open>
  \<^verbatim>\<open>src/core/EniGenerator.{h,cpp}\<close>: the XML document that describes a configured network. A text stream is
  the string written to it; integers of any width are streamed in decimal.
\<close>

section \<open>Configurations\<close>

record eni_startup =
  su_transition :: string
  su_index :: u16
  su_subIndex :: byte
  su_dataHex :: string
  su_comment :: string

record eni_entry =
  ee_index :: u16
  ee_subIndex :: byte
  ee_bitLength :: byte
  ee_name :: string

record eni_pdo =
  ep_index :: u16
  ep_name :: string
  ep_isTxPdo :: bool
  ep_entries :: "eni_entry list"

record eni_slave =
  es_position :: int
  es_alias :: u16
  es_name :: string
  es_vendorId :: u32
  es_productCode :: u32
  es_revisionNo :: u32
  es_supportsCoE :: bool
  es_supportsEoE :: bool
  es_supportsFoE :: bool
  es_supportsSoE :: bool
  es_pdos :: "eni_pdo list"
  es_startupCmds :: "eni_startup list"

record eni_generator =
  eg_masterName :: string
  eg_cycleTimeUs :: int
  eg_slaves :: "eni_slave list"

definition eni_init :: eni_generator where
  "eni_init = \<lparr>eg_masterName = ''EtherCAT Master'', eg_cycleTimeUs = 1000, eg_slaves = []\<rparr>"

definition addSlave :: "eni_slave \<Rightarrow> eni_generator \<Rightarrow> eni_generator" where
  "addSlave slave g = g\<lparr>eg_slaves := eg_slaves g @ [slave]\<rparr>"

definition clear :: "eni_generator \<Rightarrow> eni_generator" where
  "clear g = g\<lparr>eg_slaves := []\<rparr>"

section \<open>The document\<close>

definition xmlEscape :: "string \<Rightarrow> string" where
  "xmlEscape text = replace_char apostrophe ''&apos;'' (replace_char quote_char ''&quot;''
     (replace_char (CHR ''>'') ''&gt;'' (replace_char (CHR ''<'') ''&lt;'' (replace_char (CHR ''&'') ''&amp;'' text))))"

definition eni_line :: "string \<Rightarrow> string" where
  "eni_line s = s @ [newline]"

definition hex4 :: "u16 \<Rightarrow> string" where
  "hex4 n = hex_field 4 (unat n)"

definition buildMailbox :: "eni_slave \<Rightarrow> string" where
  "buildMailbox sl =
     (if \<not> es_supportsCoE sl \<and> \<not> es_supportsEoE sl \<and> \<not> es_supportsFoE sl \<and> \<not> es_supportsSoE sl then []
      else eni_line ''      <Mailbox>''
        @ (if es_supportsCoE sl then eni_line ''        <CoE/>'' else [])
        @ (if es_supportsEoE sl then eni_line ''        <EoE/>'' else [])
        @ (if es_supportsFoE sl then eni_line ''        <FoE/>'' else [])
        @ (if es_supportsSoE sl then eni_line ''        <SoE/>'' else [])
        @ eni_line ''      </Mailbox>'')"

definition eni_entry_text :: "eni_entry \<Rightarrow> string" where
  "eni_entry_text e = eni_line ''          <Entry>''
     @ ''            <Index>#x'' @ hex4 (ee_index e) @ eni_line ''</Index>''
     @ ''            <SubIndex>'' @ number_nat (unat (ee_subIndex e)) @ eni_line ''</SubIndex>''
     @ ''            <BitLen>'' @ number_nat (unat (ee_bitLength e)) @ eni_line ''</BitLen>''
     @ (if ee_name e \<noteq> [] then ''            <Name>'' @ xmlEscape (ee_name e) @ eni_line ''</Name>'' else [])
     @ eni_line ''          </Entry>''"

definition pdo_tag :: "eni_pdo \<Rightarrow> string" where
  "pdo_tag p = (if ep_isTxPdo p then ''TxPdo'' else ''RxPdo'')"

definition pdo_attributes :: string where
  "pdo_attributes = '' Fixed='' @ [quote_char] @ ''1'' @ [quote_char] @ '' Mandatory='' @ [quote_char] @ ''0'' @ [quote_char] @ ''>''"

definition eni_pdo_text :: "eni_pdo \<Rightarrow> string" where
  "eni_pdo_text p = ''        <'' @ pdo_tag p @ eni_line pdo_attributes
     @ ''          <Index>#x'' @ hex4 (ep_index p) @ eni_line ''</Index>''
     @ ''          <Name>'' @ xmlEscape (ep_name p) @ eni_line ''</Name>''
     @ concat (map eni_entry_text (ep_entries p))
     @ ''        </'' @ pdo_tag p @ eni_line ''>''"

definition buildProcessData :: "eni_slave \<Rightarrow> string" where
  "buildProcessData sl =
     (if es_pdos sl = [] then []
      else eni_line ''      <ProcessData>'' @ concat (map eni_pdo_text (es_pdos sl)) @ eni_line ''      </ProcessData>'')"

definition init_cmd_text :: "eni_startup \<Rightarrow> string" where
  "init_cmd_text c = eni_line ''        <InitCmd>''
     @ ''          <Transition>'' @ xmlEscape (su_transition c) @ eni_line ''</Transition>''
     @ ''          <Index>#x'' @ hex4 (su_index c) @ eni_line ''</Index>''
     @ ''          <SubIndex>'' @ number_nat (unat (su_subIndex c)) @ eni_line ''</SubIndex>''
     @ ''          <Data>'' @ xmlEscape (su_dataHex c) @ eni_line ''</Data>''
     @ (if su_comment c \<noteq> [] then ''          <Comment>'' @ xmlEscape (su_comment c) @ eni_line ''</Comment>'' else [])
     @ eni_line ''        </InitCmd>''"

definition buildInitCmds :: "eni_slave \<Rightarrow> string" where
  "buildInitCmds sl =
     (if es_startupCmds sl = [] then []
      else eni_line ''      <InitCmds>'' @ concat (map init_cmd_text (es_startupCmds sl)) @ eni_line ''      </InitCmds>'')"

definition auto_inc_addr :: "int \<Rightarrow> int" where
  "auto_inc_addr position = (- position) AND 0xFFFF"

definition slave_info_text :: "eni_slave \<Rightarrow> string" where
  "slave_info_text sl = eni_line ''      <Info>''
     @ ''        <Name>'' @ xmlEscape (es_name sl) @ eni_line ''</Name>''
     @ ''        <PhysAddr>'' @ number_int (1001 + es_position sl) @ eni_line ''</PhysAddr>''
     @ ''        <AutoIncAddr>'' @ number_int (auto_inc_addr (es_position sl)) @ eni_line ''</AutoIncAddr>''
     @ (if es_alias sl \<noteq> 0 then ''        <Alias>'' @ number_nat (unat (es_alias sl)) @ eni_line ''</Alias>'' else [])
     @ ''        <VendorId>'' @ number_nat (unat (es_vendorId sl)) @ eni_line ''</VendorId>''
     @ ''        <ProductCode>'' @ number_nat (unat (es_productCode sl)) @ eni_line ''</ProductCode>''
     @ ''        <RevisionNo>'' @ number_nat (unat (es_revisionNo sl)) @ eni_line ''</RevisionNo>''
     @ eni_line ''      </Info>''"

definition buildSlaveElement :: "eni_slave \<Rightarrow> string" where
  "buildSlaveElement sl = eni_line ''    <Slave>'' @ slave_info_text sl
     @ buildMailbox sl @ buildProcessData sl @ buildInitCmds sl @ eni_line ''    </Slave>''"

definition quoted_text :: "string \<Rightarrow> string" where
  "quoted_text s = [quote_char] @ s @ [quote_char]"

definition master_text :: "eni_generator \<Rightarrow> string" where
  "master_text g = eni_line ''    <Master>'' @ eni_line ''      <Info>''
     @ ''        <Name>'' @ xmlEscape (eg_masterName g) @ eni_line ''</Name>''
     @ eni_line ''        <Source>NekoEcat Studio</Source>'' @ eni_line ''      </Info>''
     @ eni_line ''      <CyclicFrames>'' @ eni_line ''        <Frame>'' @ eni_line ''          <Cmd>''
     @ ''            <Cycle>'' @ number_int (eg_cycleTimeUs g) @ eni_line ''</Cycle>''
     @ eni_line ''          </Cmd>'' @ eni_line ''        </Frame>'' @ eni_line ''      </CyclicFrames>''
     @ eni_line ''    </Master>''"

definition generate :: "eni_generator \<Rightarrow> string" where
  "generate g = eni_line (''<?xml version='' @ quoted_text ''1.0'' @ '' encoding='' @ quoted_text ''UTF-8'' @ ''?>'')
     @ eni_line (''<EtherCATConfig xmlns:xsi='' @ quoted_text ''http://www.w3.org/2001/XMLSchema-instance''
         @ '' xmlns='' @ quoted_text ''http://www.ethercat.org/2007/EtherCATInfo'' @ '' Version='' @ quoted_text ''1.0'' @ ''>'')
     @ eni_line ''  <Config>'' @ master_text g @ concat (map buildSlaveElement (eg_slaves g))
     @ eni_line ''  </Config>'' @ eni_line ''</EtherCATConfig>''"

section \<open>Escaping\<close>

definition escape_char :: "char \<Rightarrow> string" where
  "escape_char c = (if c = CHR ''&'' then ''&amp;'' else if c = CHR ''<'' then ''&lt;''
     else if c = CHR ''>'' then ''&gt;'' else if c = quote_char then ''&quot;''
     else if c = apostrophe then ''&apos;'' else [c])"

lemma replace_char_simps:
  "replace_char c r [] = []" "replace_char c r (x # s) = (if x = c then r else [x]) @ replace_char c r s"
  "replace_char c r (s @ t) = replace_char c r s @ replace_char c r t"
  by (simp_all add: replace_char_def)

lemma xmlEscape_Cons: "xmlEscape (c # s) = escape_char c @ xmlEscape s"
  by (simp add: xmlEscape_def replace_char_simps escape_char_def quote_char_def apostrophe_def)

lemma xmlEscape_map: "xmlEscape s = concat (map escape_char s)"
  by (induction s) (simp_all add: xmlEscape_Cons, simp add: xmlEscape_def replace_char_simps)

function xml_unescape :: "string \<Rightarrow> string" where
  \<comment> \<open>the predefined entities of XML\<close>
  "xml_unescape [] = []"
| "xml_unescape (c # s) =
     (if c = CHR ''&'' \<and> starts_with ''amp;'' s then CHR ''&'' # xml_unescape (drop 4 s)
      else if c = CHR ''&'' \<and> starts_with ''lt;'' s then CHR ''<'' # xml_unescape (drop 3 s)
      else if c = CHR ''&'' \<and> starts_with ''gt;'' s then CHR ''>'' # xml_unescape (drop 3 s)
      else if c = CHR ''&'' \<and> starts_with ''quot;'' s then quote_char # xml_unescape (drop 5 s)
      else if c = CHR ''&'' \<and> starts_with ''apos;'' s then apostrophe # xml_unescape (drop 5 s)
      else c # xml_unescape s)"
  by pat_completeness auto

termination by (relation "measure length") auto

lemma unescape_escape_char: "xml_unescape (escape_char c @ s) = c # xml_unescape s"
  by (auto simp: escape_char_def starts_with_def)

lemma escape_char_plain: "x \<in> set (escape_char c) \<Longrightarrow> x \<noteq> CHR ''<'' \<and> x \<noteq> CHR ''>'' \<and> x \<noteq> quote_char \<and> x \<noteq> apostrophe"
  by (auto simp: escape_char_def quote_char_def apostrophe_def split: if_splits)

lemma xmlEscape_plain: "x \<in> set (xmlEscape s) \<Longrightarrow> x \<noteq> CHR ''<'' \<and> x \<noteq> CHR ''>'' \<and> x \<noteq> quote_char \<and> x \<noteq> apostrophe"
  unfolding xmlEscape_map using escape_char_plain by auto

section \<open>Reading the tags back\<close>

text \<open>
  A checker of the document's nesting, independent of the generator: the texts between \<open><\<close> and \<open>>\<close>,
  and a stack of the open elements. Declarations and empty elements leave the stack as it is.
\<close>

fun xml_tags :: "string \<Rightarrow> string list" and in_tag :: "string \<Rightarrow> string \<Rightarrow> string list" where
  "xml_tags [] = []"
| "xml_tags (c # s) = (if c = CHR ''<'' then in_tag [] s else xml_tags s)"
| "in_tag acc [] = [rev acc]"
| "in_tag acc (c # s) = (if c = CHR ''>'' then rev acc # xml_tags s else in_tag (c # acc) s)"

definition tag_name :: "string \<Rightarrow> string" where
  "tag_name t = takeWhile (\<lambda>c. c \<noteq> CHR '' '') t"

fun check_tags :: "string list \<Rightarrow> string list \<Rightarrow> string list option" where
  "check_tags st [] = Some st"
| "check_tags st (t # ts) =
     (if t = [] then None
      else if hd t = CHR ''?'' then check_tags st ts
      else if hd t = CHR ''/'' then
        (case st of [] \<Rightarrow> None | e # st' \<Rightarrow> if e = tl t then check_tags st' ts else None)
      else if last t = CHR ''/'' then check_tags st ts
      else check_tags (tag_name t # st) ts)"

definition well_nested :: "string \<Rightarrow> bool" where
  "well_nested doc \<longleftrightarrow> check_tags [] (xml_tags doc) = Some []"

definition passes :: "string \<Rightarrow> bool" where
  \<comment> \<open>the text leaves the open elements as they are\<close>
  "passes a \<longleftrightarrow> (\<forall>st rest. check_tags st (xml_tags (a @ rest)) = check_tags st (xml_tags rest))"

lemma passes_check [simp]: "passes a \<Longrightarrow> check_tags st (xml_tags (a @ rest)) = check_tags st (xml_tags rest)"
  by (simp add: passes_def)

lemma passesI: "(\<And>st rest. check_tags st (xml_tags (a @ rest)) = check_tags st (xml_tags rest)) \<Longrightarrow> passes a"
  by (simp add: passes_def)

lemma passes_plain: "CHR ''<'' \<notin> set a \<Longrightarrow> passes a"
proof -
  assume "CHR ''<'' \<notin> set a"
  then have "xml_tags (a @ rest) = xml_tags rest" for rest by (induction a) auto
  then show ?thesis by (simp add: passes_def)
qed

lemma passes_concat [simp]: "(\<And>x. passes (f x)) \<Longrightarrow> passes (concat (map f xs))"
  by (induction xs) (simp_all add: passes_def)

lemma passes_well_nested: "passes a \<Longrightarrow> well_nested a"
  using passes_check [of a "[]" "[]"] by (simp add: well_nested_def)

lemma passes_escaped [simp]: "passes (xmlEscape s)"
  using xmlEscape_plain by (blast intro: passes_plain)

lemma passes_number [simp]: "passes (number_nat n)"
proof (rule passes_plain)
  show "CHR ''<'' \<notin> set (number_nat n)"
    using number_nat_digits [of "CHR ''<''" n] by (auto simp: is_digit_def code_of_def)
qed

lemma passes_number_int [simp]: "passes (number_int i)"
  using passes_number unfolding passes_def by (simp add: number_int_def)

lemma passes_hex4 [simp]: "passes (hex4 n)"
proof (rule passes_plain)
  have "c \<noteq> CHR ''<''" if "c \<in> set (number_hex m)" for c m
  proof -
    from digits_base_digits [of 16 c m] that obtain d where d: "d < 16" "c = digit_char d"
      by (auto simp: number_hex_def)
    then have "code_of c \<in> {48..57} \<union> {97..102}" by (auto simp: code_digit_char)
    then show ?thesis by (auto simp: code_of_def)
  qed
  then show "CHR ''<'' \<notin> set (hex4 n)"
    by (auto simp: hex4_def hex_field_def right_justified_def)
qed

lemma newline_not_lt [simp]: "newline \<noteq> CHR ''<''" "newline \<noteq> CHR ''>''"
  by code_simp+

lemmas eni_texts = eni_line_def quote_char_def tag_name_def

lemma passes_mailbox [simp]: "passes (buildMailbox sl)"
  by (rule passesI) (simp add: buildMailbox_def eni_texts)

lemma passes_entry [simp]: "passes (eni_entry_text e)"
  by (rule passesI) (simp add: eni_entry_text_def eni_texts)

lemma passes_pdo [simp]: "passes (eni_pdo_text q)"
  by (rule passesI) (simp add: eni_pdo_text_def pdo_tag_def pdo_attributes_def eni_texts)

lemma passes_process_data [simp]: "passes (buildProcessData sl)"
  by (rule passesI) (simp add: buildProcessData_def eni_texts)

lemma passes_init_cmd [simp]: "passes (init_cmd_text c)"
  by (rule passesI) (simp add: init_cmd_text_def eni_texts)

lemma passes_init_cmds [simp]: "passes (buildInitCmds sl)"
  by (rule passesI) (simp add: buildInitCmds_def eni_texts)

lemma passes_slave_info [simp]: "passes (slave_info_text sl)"
  by (rule passesI) (simp add: slave_info_text_def eni_texts)

lemma passes_slave [simp]: "passes (buildSlaveElement sl)"
  by (rule passesI) (simp add: buildSlaveElement_def eni_texts)

lemma passes_master [simp]: "passes (master_text g)"
  by (rule passesI) (simp add: master_text_def eni_texts)

lemma passes_document: "passes (generate g)"
  by (rule passesI) (simp add: generate_def quoted_text_def eni_texts)

section \<open>Properties\<close>

text \<open>
  Claim C15 (safety). Whatever names, comments and data a configuration holds, the generated document is
  well nested: an independent reader of its tags finds every element closed in order and none
  left open, so no text of the configuration can add, close or break an element.
\<close>

theorem eni_document_well_nested: "well_nested (generate g)"
  by (rule passes_well_nested) (rule passes_document)

text \<open>
  Escaping loses nothing: decoding the predefined entities of an escaped text gives the
  text back, and the escaped text has none of the characters that delimit tags and attributes.
\<close>

theorem xml_escape_roundtrip:
  "xml_unescape (xmlEscape s) = s
   \<and> set (xmlEscape s) \<inter> {CHR ''<'', CHR ''>'', quote_char, apostrophe} = {}"
proof -
  have "xml_unescape (xmlEscape s) = s"
  proof (induction s)
    case Nil
    then show ?case by (simp add: xmlEscape_map)
  next
    case (Cons c s)
    then show ?case by (simp add: xmlEscape_Cons unescape_escape_char del: xml_unescape.simps)
  qed
  then show ?thesis using xmlEscape_plain by blast
qed

end
