(* ===== verification/LineReader.thy ===== *)
theory LineReader
  imports QtRegex
begin

text \<open>
  Newline-delimited frames over a byte stream, the way \<^verbatim>\<open>EcatDaemon::readClient\<close> and
  \<^verbatim>\<open>EcatClient::readSocket\<close> take them: append what the socket has, then cut off and handle complete
  lines. The locale states the contract of such a reader and proves that it does not see how the
  stream was cut into chunks; the daemon and the client interpret it.
\<close>

section \<open>The loop\<close>

lemma index_of_newline_less: "index_of [newline] buf = Some n \<Longrightarrow> n < length buf"
  by (induction buf arbitrary: n) (auto simp: starts_with_def split: if_splits option.splits)

function read_loop :: "(string \<Rightarrow> 's \<Rightarrow> 's) \<Rightarrow> string \<Rightarrow> 's \<Rightarrow> string \<times> 's" where
  \<comment> \<open>\<open>while ((newline = buffer.indexOf('\n')) >= 0) { line = buffer.left(newline); ... }\<close>\<close>
  "read_loop h buf s =
     (case index_of [newline] buf of
        None \<Rightarrow> (buf, s)
      | Some n \<Rightarrow> read_loop h (drop (n + 1) buf) (h (take n buf) s))"
  by pat_completeness auto

termination
  by (relation "measure (\<lambda>(h, buf, s). length buf)") (auto dest: index_of_newline_less)

declare read_loop.simps [simp del]

section \<open>What it computes\<close>

definition frames :: "string \<Rightarrow> string list" where
  "frames buf = butlast (split_on newline buf)"

definition leftover :: "string \<Rightarrow> string" where
  "leftover buf = last (split_on newline buf)"

lemma index_of_newline_none: "index_of [newline] buf = None \<longleftrightarrow> newline \<notin> set buf"
  by (induction buf) (auto simp: starts_with_def split: option.splits)

lemma index_of_newline_split: "newline \<notin> set line \<Longrightarrow> index_of [newline] (line @ newline # rest) = Some (length line)"
  by (induction line) (auto simp: starts_with_def split: option.splits)

lemma read_loop_end: "newline \<notin> set buf \<Longrightarrow> read_loop h buf s = (buf, s)"
  using index_of_newline_none [of buf] by (subst read_loop.simps) simp

lemma read_loop_line: "newline \<notin> set line \<Longrightarrow> read_loop h (line @ newline # rest) s = read_loop h rest (h line s)"
  by (subst read_loop.simps) (simp add: index_of_newline_split)

lemma split_line: "newline \<in> set buf \<Longrightarrow> \<exists>line rest. buf = line @ newline # rest \<and> newline \<notin> set line"
  by (rule split_list_first)

lemma split_on_line: "newline \<notin> set line \<Longrightarrow> split_on newline (line @ newline # rest) = line # split_on newline rest"
  by (induction line) (auto split: list.splits)

lemma buffer_cases [case_names partial line]:
  assumes "newline \<notin> set buf \<Longrightarrow> P"
    and "\<And>line rest. buf = line @ newline # rest \<Longrightarrow> newline \<notin> set line \<Longrightarrow> P"
  shows P
  using assms split_line by blast

theorem read_loop_frames:
  "read_loop h buf s = (leftover buf, foldl (\<lambda>s line. h line s) s (frames buf))"
proof (induction buf arbitrary: s rule: length_induct)
  case (1 buf)
  show ?case
  proof (cases buf rule: buffer_cases)
    case partial
    then show ?thesis by (simp add: read_loop_end frames_def leftover_def split_on_no_sep)
  next
    case (line l rest)
    then have "length rest < length buf" by simp
    with 1 line show ?thesis
      by (simp add: read_loop_line frames_def leftover_def split_on_line)
  qed
qed

lemma leftover_no_newline: "newline \<notin> set (leftover buf)"
  unfolding leftover_def by (rule split_on_parts [of _ newline buf]) simp

lemma read_loop_append:
  "read_loop h (a @ b) s = (let (rest, s') = read_loop h a s in read_loop h (rest @ b) s')"
proof (induction a arbitrary: s rule: length_induct)
  case (1 a)
  show ?case
  proof (cases a rule: buffer_cases)
    case partial
    then show ?thesis by (simp add: read_loop_end)
  next
    case (line l rest)
    then have "length rest < length a" by simp
    with 1 have "read_loop h (rest @ b) (h l s) = (let (r, s') = read_loop h rest (h l s) in read_loop h (r @ b) s')"
      by blast
    with line show ?thesis by (simp add: read_loop_line)
  qed
qed

lemma leftover_suffix: "\<exists>p. buf = p @ leftover buf"
proof (induction buf rule: length_induct)
  case (1 buf)
  show ?case
  proof (cases buf rule: buffer_cases)
    case partial
    then show ?thesis by (simp add: leftover_def split_on_no_sep)
  next
    case (line l rest)
    then have "length rest < length buf" by simp
    with 1 obtain p where "rest = p @ leftover rest" by blast
    moreover have "leftover buf = leftover rest" using line by (simp add: leftover_def split_on_line)
    ultimately have "buf = (l @ newline # p) @ leftover buf" using line(1) by simp
    then show ?thesis by blast
  qed
qed

lemma length_leftover: "length (leftover buf) \<le> length buf"
proof -
  obtain p where "buf = p @ leftover buf" using leftover_suffix by blast
  then have "length buf = length p + length (leftover buf)" by (metis length_append)
  then show ?thesis by simp
qed

section \<open>The contract of a reader\<close>

locale line_reader =
  fixes feed :: "string \<Rightarrow> string \<times> 's \<Rightarrow> string \<times> 's"
    and handle_line :: "string \<Rightarrow> 's \<Rightarrow> 's"
    and cap :: "nat option"
  assumes feed_loop: "(case cap of None \<Rightarrow> True | Some n \<Rightarrow> length (buf @ chunk) \<le> n) \<Longrightarrow>
    feed chunk (buf, s) = read_loop handle_line (buf @ chunk) s"
begin

definition fits :: "string \<Rightarrow> bool" where
  "fits buf \<longleftrightarrow> (case cap of None \<Rightarrow> True | Some n \<Rightarrow> length buf \<le> n)"

lemma feed_read: "fits (buf @ chunk) \<Longrightarrow> feed chunk (buf, s) = read_loop handle_line (buf @ chunk) s"
  by (simp add: fits_def feed_loop)

lemma feed_append:
  assumes "fits (buf @ a @ b)"
  shows "feed (a @ b) (buf, s) = feed b (feed a (buf, s))"
proof -
  have a: "fits (buf @ a)" using assms by (auto simp: fits_def split: option.splits)
  have "length (leftover (buf @ a) @ b) \<le> length (buf @ a @ b)" using length_leftover [of "buf @ a"] by simp
  then have b: "fits (leftover (buf @ a) @ b)" using assms by (auto simp: fits_def split: option.splits)
  have "feed (a @ b) (buf, s) = read_loop handle_line ((buf @ a) @ b) s"
    using feed_read [of buf "a @ b"] assms by simp
  also have "\<dots> = feed b (feed a (buf, s))"
    using feed_read [OF a] feed_read [OF b] by (simp only: read_loop_append [of _ "buf @ a" b]) (simp add: read_loop_frames)
  finally show ?thesis .
qed

lemma feed_chunks:
  "fits (buf @ concat cs) \<Longrightarrow> newline \<notin> set buf \<Longrightarrow>
   foldl (\<lambda>st c. feed c st) (buf, s) cs = feed (concat cs) (buf, s)"
proof (induction cs arbitrary: buf s)
  case Nil
  then show ?case using feed_read [of buf "[]" s] by (simp add: read_loop_end)
next
  case (Cons c cs)
  have c: "fits (buf @ c)" using Cons.prems(1) by (auto simp: fits_def split: option.splits)
  obtain s' where f: "feed c (buf, s) = (leftover (buf @ c), s')"
    using feed_read [OF c, of s] by (simp add: read_loop_frames)
  have "length (leftover (buf @ c) @ concat cs) \<le> length (buf @ concat (c # cs))"
    using length_leftover [of "buf @ c"] by simp
  then have "fits (leftover (buf @ c) @ concat cs)"
    using Cons.prems(1) by (auto simp: fits_def split: option.splits)
  from Cons.IH [OF this leftover_no_newline, of s'] show ?case
    using feed_append [of buf c "concat cs" s] Cons.prems(1) f by simp
qed

end

end
