(* ===== verification/JsonRpc.thy ===== *)
theory JsonRpc
  imports QtJson
begin

text \<open>
  The request and response envelopes (\<^verbatim>\<open>src/core/JsonProtocol.cpp\<close>) and the daemon's dispatch table
  (\<^verbatim>\<open>apps/ecatd/CommandDispatcher.cpp\<close>). A handler takes the request's id and parameters and the state
  it works on, and returns the response with the state after; the table is a map from method names.

  The locale \<open>rpc_handler\<close> is the contract between the dispatcher and a handler: the response is an
  envelope that echoes the id. Each handler's theory interprets it.
\<close>

section \<open>Envelopes\<close>

definition encode :: "(json \<Rightarrow> string) \<Rightarrow> json \<Rightarrow> string" where
  \<comment> \<open>\<open>to_compact\<close> is \<open>QJsonDocument::toJson(Compact)\<close>\<close>
  "encode to_compact v = to_compact v @ [char_of (10 :: nat)]"

definition request :: "string \<Rightarrow> string \<Rightarrow> jobject \<Rightarrow> json" where
  "request rid method params =
     JObj [(''id'', JStr rid), (''method'', JStr method), (''params'', JObj params)]"

definition proto_success :: "string \<Rightarrow> jobject \<Rightarrow> json" where
  "proto_success rid result = JObj [(''id'', JStr rid), (''ok'', JBool True), (''result'', JObj result)]"

definition proto_failure :: "string \<Rightarrow> string \<Rightarrow> int \<Rightarrow> json" where
  "proto_failure rid message code =
     JObj [(''id'', JStr rid), (''ok'', JBool False),
       (''error'', JObj [(''code'', jint code), (''message'', JStr message)])]"

definition success :: "string \<Rightarrow> jobject \<Rightarrow> json" where
  "success rid result = JObj [(''id'', JStr rid), (''ok'', JBool True), (''result'', JObj result)]"

definition failure_code :: "string \<Rightarrow> string \<Rightarrow> int \<Rightarrow> json" where
  "failure_code rid message code =
     (let err = jset ''code'' (jint code) (jset ''message'' (JStr message) [])
      in JObj [(''id'', JStr rid), (''ok'', JBool False), (''error'', JObj err)])"

abbreviation failure :: "string \<Rightarrow> string \<Rightarrow> json" where
  \<comment> \<open>the default argument \<open>code = -1\<close>\<close>
  "failure rid message \<equiv> failure_code rid message (- 1)"

section \<open>Well-formed responses\<close>

definition is_success :: "string \<Rightarrow> json \<Rightarrow> bool" where
  "is_success rid r \<longleftrightarrow> is_object r \<and> jfind (to_object r) ''id'' = JStr rid
     \<and> jfind (to_object r) ''ok'' = JBool True \<and> is_object (jfind (to_object r) ''result'')"

definition is_failure :: "string \<Rightarrow> json \<Rightarrow> bool" where
  "is_failure rid r \<longleftrightarrow> is_object r \<and> jfind (to_object r) ''id'' = JStr rid
     \<and> jfind (to_object r) ''ok'' = JBool False
     \<and> (let e = to_object (jfind (to_object r) ''error'') in
          jfind e ''message'' = JStr (to_string (jfind e ''message'')) \<and> jcontains e ''code'')"

definition well_formed_response :: "string \<Rightarrow> json \<Rightarrow> bool" where
  "well_formed_response rid r \<longleftrightarrow> is_success rid r \<or> is_failure rid r"

definition ok_of :: "json \<Rightarrow> bool" where
  "ok_of r = to_bool (jfind (to_object r) ''ok'')"

definition result_of :: "json \<Rightarrow> jobject" where
  "result_of r = to_object (jfind (to_object r) ''result'')"

definition error_message :: "json \<Rightarrow> string" where
  "error_message r = to_string (jfind (to_object (jfind (to_object r) ''error'')) ''message'')"

lemma success_simps [simp, json_simps]:
  "is_success rid (success rid res)" "well_formed_response rid (success rid res)"
  "ok_of (success rid res)" "result_of (success rid res) = res"
  by (simp_all add: is_success_def success_def well_formed_response_def ok_of_def result_of_def)

lemma failure_simps [simp, json_simps]:
  "is_failure rid (failure_code rid msg c)" "well_formed_response rid (failure_code rid msg c)"
  "\<not> ok_of (failure_code rid msg c)" "error_message (failure_code rid msg c) = msg"
  by (simp_all add: is_failure_def failure_code_def well_formed_response_def ok_of_def
      error_message_def Let_def)

lemma proto_simps [simp, json_simps]:
  "is_success rid (proto_success rid res)" "is_failure rid (proto_failure rid msg c)"
  "\<not> ok_of (proto_failure rid msg c)" "error_message (proto_failure rid msg c) = msg"
  by (simp_all add: is_success_def proto_success_def is_failure_def proto_failure_def ok_of_def
      error_message_def)

lemma success_inject [simp]: "success rid a = success rid b \<longleftrightarrow> a = b"
  by (simp add: success_def)

lemma success_neq_failure [simp]: "success rid a \<noteq> failure_code rid' m c"
  by (simp add: success_def failure_code_def)

lemma ok_of_iff: "well_formed_response rid r \<Longrightarrow> ok_of r \<longleftrightarrow> is_success rid r"
  by (auto simp: well_formed_response_def ok_of_def is_success_def is_failure_def)

section \<open>The dispatch table\<close>

type_synonym 's handler = "string \<Rightarrow> jobject \<Rightarrow> 's \<Rightarrow> json \<times> 's"
type_synonym 's table = "string \<rightharpoonup> 's handler"

definition registerHandler :: "string \<Rightarrow> 's handler \<Rightarrow> 's table \<Rightarrow> 's table" where
  "registerHandler method h tab = tab(method \<mapsto> h)"

definition dispatch :: "'s table \<Rightarrow> jobject \<Rightarrow> 's \<Rightarrow> json \<times> 's" where
  "dispatch tab req s =
     (let rid = to_string (jfind req ''id'');
          method = to_string (jfind req ''method'');
          params = to_object (jfind req ''params'')
      in if method = [] then (failure rid ''Missing method name'', s)
         else case tab method of
             None \<Rightarrow> (failure rid (''Unknown method: '' @ method), s)
           | Some h \<Rightarrow> h rid params s)"

fun register_all :: "(string \<times> 's handler) list \<Rightarrow> 's table \<Rightarrow> 's table" where
  "register_all [] tab = tab"
| "register_all ((m, h) # hs) tab = register_all hs (registerHandler m h tab)"

lemma register_all_ran: "h \<in> ran (register_all hs tab) \<Longrightarrow> h \<in> snd ` set hs \<or> h \<in> ran tab"
proof (induction hs arbitrary: tab)
  case (Cons p hs)
  obtain m g where p: "p = (m, g)" by (cases p)
  from Cons.prems have "h \<in> ran (register_all hs (tab(m \<mapsto> g)))"
    by (simp add: p registerHandler_def)
  from Cons.IH [OF this] show ?case by (auto simp: p ran_def split: if_splits)
qed simp

lemma register_all_lookup:
  "distinct (map fst hs) \<Longrightarrow> (m, h) \<in> set hs \<Longrightarrow> register_all hs tab m = Some h"
proof (induction hs arbitrary: tab)
  case (Cons p hs)
  have keep: "m \<notin> fst ` set hs \<Longrightarrow> register_all hs t m = t m" for hs t
    by (induction hs arbitrary: t) (auto simp: registerHandler_def)
  from Cons show ?case by (cases p) (auto simp: keep registerHandler_def)
qed simp

section \<open>The contract of a handler\<close>

locale rpc_handler =
  fixes h :: "string \<Rightarrow> jobject \<Rightarrow> 's \<Rightarrow> json \<times> 's"
  assumes echoes: "well_formed_response rid (fst (h rid params s))"
begin

lemma ok_exactly_success: "ok_of (fst (h rid params s)) \<longleftrightarrow> is_success rid (fst (h rid params s))"
  by (rule ok_of_iff) (rule echoes)

lemma dispatched:
  "tab m = Some h \<Longrightarrow> m \<noteq> [] \<Longrightarrow> jfind req ''method'' = JStr m \<Longrightarrow>
   well_formed_response (to_string (jfind req ''id'')) (fst (dispatch tab req s))"
  by (simp add: dispatch_def Let_def echoes)

end

locale rpc_table =
  fixes tab :: "string \<Rightarrow> (string \<Rightarrow> jobject \<Rightarrow> 's \<Rightarrow> json \<times> 's) option"
  assumes all_handlers: "tab m = Some h \<Longrightarrow> rpc_handler h"
begin

lemma dispatch_echoes:
  "well_formed_response (to_string (jfind req ''id'')) (fst (dispatch tab req s))"
  by (auto simp: dispatch_def Let_def rpc_handler.echoes all_handlers split: option.splits)

end

end
