(* ===== verification/ClientCalls.thy ===== *)
theory ClientCalls
  imports LineReader EthercatTypes JsonRpc
begin

text \<open>
  The studio's client of the daemon (\<^verbatim>\<open>apps/ecat-studio/infra/EcatClient.{h,cpp}\<close>): requests with pending
  continuations, response dispatch, the timeout sweep, the heartbeat and the reconnection. A continuation is the
  call it was registered by (the lambdas capture only the call's arguments): \<open>signals_of\<close> is what it
  emits on a result and \<open>follow_up\<close> the request it makes next. What the client emits, writes to the
  socket and asks of the socket is logged in \<open>cl_out\<close>, newest last. A timer is whether it is active;
  the events of the socket and the timers are operations with the clock as an argument. The hashes are
  association lists without duplicate keys; the order of their iteration, which Qt leaves open, is the
  order of the list, and no property depends on it. \<open>abort\<close> raises \<open>disconnected\<close> only on a
  connected socket.
\<close>

section \<open>Calls\<close>

datatype bus_call =
    Ping | HostDiagnostics | Master | Scan | Rescan
  | SlaveInfo int | Pdos int | Sdos int | Xml int
  | Upload int string string
  | Download int string string string string
  | ApplyStartupSdos "json list"
  | SetState int string
  | SetAllStates string

datatype cycle_call =
    FreeRunStart | FreeRunStop | FreeRunStatus
  | RtTestStart int | RtTestStop | RtTestStatus
  | DcSyncStatus | DcConfigure int | DcActivate int | DcDeactivate

datatype device_call =
    AlEventLog int | AlEventClear | ListAdapters | SetAdapter string
  | SetBackendMode string | GetBackendMode
  | FoeRead int string | FoeWrite int string u32
  | SoeRead int string int string | SoeWrite int string string int string

datatype net_call =
    EoeStatus int | EoeConfigureIp int string string string string | EoeGetIp int | EoeStats int
  | RedundancyStatus | RedundancyEnable | RedundancyDisable | RedundancyFailover | RedundancyFailback
  | RedundancyHistory int
  | OnlineChangePreview "json list" | OnlineChangeApply "json list" string | OnlineChangeStatus

datatype call = Bus bus_call | Cycle cycle_call | Device device_call | Net net_call | HeartbeatPing

definition at_position :: "int \<Rightarrow> jobject" where
  "at_position position = [(''position'', jint position)]"

fun bus_request :: "bus_call \<Rightarrow> string \<times> jobject" where
  "bus_request Ping = (''ping'', [])"
| "bus_request HostDiagnostics = (''hostDiagnostics'', [])"
| "bus_request Master = (''master'', [])"
| "bus_request Scan = (''scan'', [])"
| "bus_request Rescan = (''rescan'', [])"
| "bus_request (SlaveInfo p) = (''slaveInfo'', at_position p)"
| "bus_request (Pdos p) = (''pdos'', at_position p)"
| "bus_request (Sdos p) = (''sdos'', at_position p)"
| "bus_request (Xml p) = (''xml'', at_position p)"
| "bus_request (Upload p i s) = (''upload'', at_position p @ [(''index'', JStr i), (''subIndex'', JStr s)])"
| "bus_request (Download p i s v t) = (''download'', at_position p @ [(''index'', JStr i), (''subIndex'', JStr s),
     (''value'', JStr v), (''type'', JStr t)])"
| "bus_request (ApplyStartupSdos items) = (''applyStartupSdos'', [(''items'', JArr items)])"
| "bus_request (SetState p st) = (''setState'', at_position p @ [(''state'', JStr st)])"
| "bus_request (SetAllStates st) = (''setAllStates'', [(''state'', JStr st)])"

fun cycle_request :: "cycle_call \<Rightarrow> string \<times> jobject" where
  "cycle_request FreeRunStart = (''freeRunStart'', [])"
| "cycle_request FreeRunStop = (''freeRunStop'', [])"
| "cycle_request FreeRunStatus = (''freeRunStatus'', [])"
| "cycle_request (RtTestStart us) = (''rtTestStart'', [(''cycleUsec'', jint us)])"
| "cycle_request RtTestStop = (''rtTestStop'', [])"
| "cycle_request RtTestStatus = (''rtTestStatus'', [])"
| "cycle_request DcSyncStatus = (''dcSyncStatus'', [])"
| "cycle_request (DcConfigure p) = (''dcConfigure'', at_position p)"
| "cycle_request (DcActivate r) = (''dcActivate'', [(''refClockSlave'', jint r)])"
| "cycle_request DcDeactivate = (''dcDeactivate'', [])"

definition with_text :: "string \<Rightarrow> string \<Rightarrow> jobject" where
  \<comment> \<open>\<open>if (!text.isEmpty()) params[key] = text;\<close>\<close>
  "with_text key text = (if text = [] then [] else [(key, JStr text)])"

fun device_request :: "device_call \<Rightarrow> string \<times> jobject" where
  "device_request (AlEventLog l) = (''alEventLog'', [(''limit'', jint l)])"
| "device_request AlEventClear = (''alEventClear'', [])"
| "device_request ListAdapters = (''listAdapters'', [])"
| "device_request (SetAdapter n) = (''setAdapter'', [(''adapter'', JStr n)])"
| "device_request (SetBackendMode m) = (''setBackend'', [(''mode'', JStr m)])"
| "device_request GetBackendMode = (''getBackend'', [])"
| "device_request (FoeRead p f) = (''foeRead'', at_position p @ [(''filePath'', JStr f)])"
| "device_request (FoeWrite p f pw) = (''foeWrite'', at_position p @ [(''filePath'', JStr f)]
     @ (if pw \<noteq> 0 then [(''password'', jnat (unat pw))] else []))"
| "device_request (SoeRead p idn d t) = (''soeRead'', at_position p @ [(''idn'', JStr idn), (''drive'', jint d)]
     @ with_text ''type'' t)"
| "device_request (SoeWrite p idn v d t) = (''soeWrite'', at_position p @ [(''idn'', JStr idn), (''value'', JStr v),
     (''drive'', jint d)] @ with_text ''type'' t)"

fun net_request :: "net_call \<Rightarrow> string \<times> jobject" where
  "net_request (EoeStatus p) = (''eoeStatus'', at_position p)"
| "net_request (EoeConfigureIp p ip sn gw dns) = (''eoeConfigureIp'', at_position p @ [(''ip'', JStr ip), (''subnet'', JStr sn)]
     @ with_text ''gateway'' gw @ with_text ''dns'' dns)"
| "net_request (EoeGetIp p) = (''eoeGetIp'', at_position p)"
| "net_request (EoeStats p) = (''eoeStats'', at_position p)"
| "net_request RedundancyStatus = (''redundancyStatus'', [])"
| "net_request RedundancyEnable = (''redundancyEnable'', [])"
| "net_request RedundancyDisable = (''redundancyDisable'', [])"
| "net_request RedundancyFailover = (''redundancyFailover'', [])"
| "net_request RedundancyFailback = (''redundancyFailback'', [])"
| "net_request (RedundancyHistory l) = (''redundancyHistory'', [(''limit'', jint l)])"
| "net_request (OnlineChangePreview cs) = (''onlineChangePreview'', [(''changes'', JArr cs)])"
| "net_request (OnlineChangeApply cs t) = (''onlineChangeApply'', [(''changes'', JArr cs), (''targetState'', JStr t)])"
| "net_request OnlineChangeStatus = (''onlineChangeStatus'', [])"

fun request_of :: "call \<Rightarrow> string \<times> jobject" where
  "request_of (Bus b) = bus_request b"
| "request_of (Cycle b) = cycle_request b"
| "request_of (Device b) = device_request b"
| "request_of (Net b) = net_request b"
| "request_of HeartbeatPing = (''ping'', [])"

section \<open>What the continuations emit\<close>

datatype conn_state = Disconnected | Connecting | Connected | Reconnecting

datatype (plugins only: code size) client_signal =
    SigConnected | SigStateChanged conn_state | SigDisconnected | SigConnectionLost
  | SigErrorMessage string | SigReconnected | SigReconnecting int int | SigReconnectFailed int
  | SigDaemonInfo string | SigHostDiagnostics "json list" | SigMasterText string
  | SigSlavesChanged "slave_info list" | SigSlaveText string int string
  | SigSdoValue int string string string | SigStartupSdoResults "json list" | SigCommandSucceeded string
  | SigFreeRunChanged bool string | SigFreeRunTelemetry jobject | SigRtTestTelemetry jobject
  | SigDcSyncStatus jobject | SigDcConfigure jobject | SigDcActivate jobject | SigDcDeactivate jobject
  | SigAlEventLog jobject | SigAdaptersList jobject | SigBackendMode string string
  | SigFoeRead int string int | SigFoeWrite int int | SigSoeRead int string string | SigSoeWrite int string
  | SigEoeStatus int jobject | SigEoeIpConfigured int string | SigEoeIp int jobject | SigEoeStats int jobject
  | SigRedundancyStatus jobject | SigRedundancyCommand string bool string | SigRedundancyHistory jobject
  | SigOnlinePreview jobject | SigOnlineApply jobject | SigOnlineStatus jobject

definition text_in :: "string \<Rightarrow> jobject \<Rightarrow> string" where
  "text_in key result = to_string (jfind result key)"

definition int64_in :: "string \<Rightarrow> jobject \<Rightarrow> int" where
  \<comment> \<open>\<open>static_cast<qint64>(result.value(key).toDouble())\<close> truncates towards zero\<close>
  "int64_in key result = (let d = to_double_def 0 (jfind result key) in if 0 \<le> d then \<lfloor>d\<rfloor> else \<lceil>d\<rceil>)"

definition startup_failure_text :: "json \<Rightarrow> string" where
  "startup_failure_text f =
     (let ob = to_object f in ''#'' @ number_int (to_int (jfind ob ''position'')) @ '' '' @ text_in ''index'' ob
        @ '':'' @ text_in ''subIndex'' ob @ '' '' @ text_in ''error'' ob)"

definition startup_done :: "int \<Rightarrow> int \<Rightarrow> string" where
  "startup_done applied failed = ''Startup SDO apply complete: '' @ number_int applied @ '' applied, ''
     @ number_int failed @ '' failed''"

definition download_done :: "int \<Rightarrow> string \<Rightarrow> string \<Rightarrow> string" where
  "download_done p i s = ''SDO download complete #'' @ number_int p @ '': '' @ i @ '':'' @ s"

fun bus_signals :: "bus_call \<Rightarrow> jobject \<Rightarrow> client_signal list" where
  "bus_signals Ping r = [SigDaemonInfo (text_in ''name'' r @ '' '' @ text_in ''version'' r)]"
| "bus_signals HostDiagnostics r = [SigHostDiagnostics (to_array (jfind r ''checks''))]"
| "bus_signals Master r = [SigMasterText (text_in ''text'' r)]"
| "bus_signals Scan r = [SigSlavesChanged (slaves_from_json (to_array (jfind r ''slaves'')))]"
| "bus_signals Rescan r = [SigCommandSucceeded ''Bus rescan requested'']"
| "bus_signals (SlaveInfo p) r = [SigSlaveText ''Info'' p (text_in ''text'' r)]"
| "bus_signals (Pdos p) r = [SigSlaveText ''PDO'' p (text_in ''text'' r)]"
| "bus_signals (Sdos p) r = [SigSlaveText ''SDO'' p (text_in ''text'' r)]"
| "bus_signals (Xml p) r = [SigSlaveText ''ESI XML'' p (text_in ''text'' r)]"
| "bus_signals (Upload p i s) r = (if jcontains r ''error'' then [] else [SigSdoValue p i s (text_in ''value'' r)])"
| "bus_signals (Download p i s v t) r =
     (if jcontains r ''error'' then [] else [SigCommandSucceeded (download_done p i s)])"
| "bus_signals (ApplyStartupSdos items) r =
     (let applied = to_int (jfind r ''applied''); failed = to_int (jfind r ''failed'')
      in [SigStartupSdoResults (to_array (jfind r ''results'')), SigCommandSucceeded (startup_done applied failed)]
         @ (if failed > 0 then
              [SigErrorMessage (join_with '' | '' (map startup_failure_text (to_array (jfind r ''failures''))))]
            else []))"
| "bus_signals (SetState p st) r =
     (if jcontains r ''error'' then [] else [SigCommandSucceeded (''State request sent: '' @ st)])"
| "bus_signals (SetAllStates st) r =
     (if jcontains r ''error'' then [] else [SigCommandSucceeded (''All-state request sent: '' @ st)])"

fun cycle_signals :: "cycle_call \<Rightarrow> jobject \<Rightarrow> client_signal list" where
  "cycle_signals FreeRunStart r = [SigFreeRunChanged True (to_string_def ''Running'' (jfind r ''status'')),
     SigFreeRunTelemetry r, SigCommandSucceeded ''Free Run started'']"
| "cycle_signals FreeRunStop r = [SigFreeRunChanged False (to_string_def ''Stopped'' (jfind r ''status'')),
     SigFreeRunTelemetry r, SigCommandSucceeded ''Free Run stopped'']"
| "cycle_signals FreeRunStatus r =
     [SigFreeRunChanged (to_bool (jfind r ''running'')) (text_in ''status'' r), SigFreeRunTelemetry r]"
| "cycle_signals (RtTestStart us) r = [SigRtTestTelemetry r, SigCommandSucceeded ''RT stability test started'']"
| "cycle_signals RtTestStop r = [SigRtTestTelemetry r, SigCommandSucceeded ''RT stability test stopped'']"
| "cycle_signals RtTestStatus r = [SigRtTestTelemetry r]"
| "cycle_signals DcSyncStatus r = [SigDcSyncStatus r]"
| "cycle_signals (DcConfigure p) r = [SigDcConfigure r, SigCommandSucceeded ''DC configuration queried'']"
| "cycle_signals (DcActivate n) r = [SigDcActivate r, SigCommandSucceeded ''DC activation requested'']"
| "cycle_signals DcDeactivate r = [SigDcDeactivate r, SigCommandSucceeded ''DC deactivated'']"

fun device_signals :: "device_call \<Rightarrow> jobject \<Rightarrow> client_signal list" where
  "device_signals (AlEventLog l) r = [SigAlEventLog r]"
| "device_signals AlEventClear r = [SigCommandSucceeded ''AL event log cleared'']"
| "device_signals ListAdapters r = [SigAdaptersList r]"
| "device_signals (SetAdapter n) r = [SigCommandSucceeded (''Adapter set to '' @ n)]"
| "device_signals (SetBackendMode m) r = [SigBackendMode (text_in ''backend'' r) (text_in ''mode'' r)]"
| "device_signals GetBackendMode r = [SigBackendMode (text_in ''backend'' r) (text_in ''mode'' r)]"
| "device_signals (FoeRead p f) r =
     [SigFoeRead p f (int64_in ''fileSize'' r), SigCommandSucceeded (text_in ''message'' r)]"
| "device_signals (FoeWrite p f pw) r =
     [SigFoeWrite p (int64_in ''bytesWritten'' r), SigCommandSucceeded (text_in ''message'' r)]"
| "device_signals (SoeRead p idn d t) r = [SigSoeRead p idn (text_in ''value'' r)]"
| "device_signals (SoeWrite p idn v d t) r = [SigSoeWrite p idn, SigCommandSucceeded (text_in ''message'' r)]"

definition redundancy_signal :: "string \<Rightarrow> jobject \<Rightarrow> client_signal" where
  "redundancy_signal command r = SigRedundancyCommand command (to_bool (jfind r ''success'')) (text_in ''message'' r)"

fun net_signals :: "net_call \<Rightarrow> jobject \<Rightarrow> client_signal list" where
  "net_signals (EoeStatus p) r = [SigEoeStatus p r]"
| "net_signals (EoeConfigureIp p ip sn gw dns) r =
     [SigEoeIpConfigured p ip, SigCommandSucceeded (text_in ''message'' r)]"
| "net_signals (EoeGetIp p) r = [SigEoeIp p r]"
| "net_signals (EoeStats p) r = [SigEoeStats p r]"
| "net_signals RedundancyStatus r = [SigRedundancyStatus r]"
| "net_signals RedundancyEnable r = [redundancy_signal ''enable'' r]"
| "net_signals RedundancyDisable r = [redundancy_signal ''disable'' r]"
| "net_signals RedundancyFailover r = [redundancy_signal ''failover'' r]"
| "net_signals RedundancyFailback r = [redundancy_signal ''failback'' r]"
| "net_signals (RedundancyHistory l) r = [SigRedundancyHistory r]"
| "net_signals (OnlineChangePreview cs) r = [SigOnlinePreview r]"
| "net_signals (OnlineChangeApply cs t) r = [SigOnlineApply r]"
| "net_signals OnlineChangeStatus r = [SigOnlineStatus r]"

fun signals_of :: "call \<Rightarrow> jobject \<Rightarrow> client_signal list" where
  "signals_of (Bus b) r = bus_signals b r"
| "signals_of (Cycle b) r = cycle_signals b r"
| "signals_of (Device b) r = device_signals b r"
| "signals_of (Net b) r = net_signals b r"
| "signals_of HeartbeatPing r = []"

fun follow_up :: "call \<Rightarrow> jobject \<Rightarrow> call option" where
  "follow_up (Bus Rescan) r = Some (Bus Scan)"
| "follow_up (Bus (Download p i s v t)) r = (if jcontains r ''error'' then None else Some (Bus (Upload p i s)))"
| "follow_up (Bus (SetState p st)) r = (if jcontains r ''error'' then None else Some (Bus Scan))"
| "follow_up (Bus (SetAllStates st)) r = (if jcontains r ''error'' then None else Some (Bus Scan))"
| "follow_up _ r = None"

end
