(* ===== verification/QtHash.thy ===== *)
theory QtHash
  imports Prelude
begin

text \<open>
  \<open>QHash\<close> and \<open>QMap\<close> as the code uses them: association lists without duplicate keys. \<open>insert\<close> replaces the
  value of a key, \<open>remove\<close> and \<open>take\<close> drop it. The order of iteration is that of the list; where it is visible
  the theory of the component says so.
\<close>

definition hash_insert :: "'k \<Rightarrow> 'v \<Rightarrow> ('k \<times> 'v) list \<Rightarrow> ('k \<times> 'v) list" where
  "hash_insert k v xs = filter (\<lambda>p. fst p \<noteq> k) xs @ [(k, v)]"

definition hash_remove :: "'k \<Rightarrow> ('k \<times> 'v) list \<Rightarrow> ('k \<times> 'v) list" where
  "hash_remove k xs = filter (\<lambda>p. fst p \<noteq> k) xs"

definition hash_adjust :: "'k \<Rightarrow> ('v \<Rightarrow> 'v) \<Rightarrow> ('k \<times> 'v) list \<Rightarrow> ('k \<times> 'v) list" where
  \<comment> \<open>writing through an iterator or a stored pointer: the entry keeps its place\<close>
  "hash_adjust k f xs = map (\<lambda>p. if fst p = k then (fst p, f (snd p)) else p) xs"

lemma map_fst_filter: "map fst (filter (\<lambda>p. fst p \<noteq> k) xs) = filter (\<lambda>x. x \<noteq> k) (map fst xs)"
  by (induction xs) auto

lemma hash_insert_keys:
  "map fst xs = map fst ys \<Longrightarrow> map fst (hash_insert k v xs) = map fst (hash_insert k w ys)"
  "map fst xs = map fst ys \<Longrightarrow> map fst (hash_remove k xs) = map fst (hash_remove k ys)"
  by (simp_all add: hash_insert_def hash_remove_def map_fst_filter)

lemma hash_distinct:
  "distinct (map fst xs) \<Longrightarrow> distinct (map fst (hash_insert k v xs))"
  "distinct (map fst xs) \<Longrightarrow> distinct (map fst (hash_remove k xs))"
  by (auto simp: hash_insert_def hash_remove_def distinct_map inj_on_def)

lemma hash_adjust_keys [simp]: "map fst (hash_adjust k f xs) = map fst xs"
  by (induction xs) (auto simp: hash_adjust_def)

lemma length_hash_adjust [simp]: "length (hash_adjust k f xs) = length xs"
  by (simp add: hash_adjust_def)

lemma hash_remove_insert: "k \<notin> fst ` set xs \<Longrightarrow> hash_remove k (hash_insert k v xs) = xs"
  by (induction xs) (auto simp: hash_remove_def hash_insert_def)

lemma map_of_hash_insert: "map_of (hash_insert k v xs) k' = (if k' = k then Some v else map_of xs k')"
  by (induction xs) (auto simp: hash_insert_def)

lemma hash_insert_lookup: "map_of (hash_insert k v xs) k = Some v"
  by (simp add: map_of_hash_insert)

lemma map_of_hash_remove: "map_of (hash_remove k xs) k' = (if k' = k then None else map_of xs k')"
  by (induction xs) (auto simp: hash_remove_def)

lemma map_of_hash_adjust:
  "map_of (hash_adjust k f xs) k' = (if k' = k then map_option f (map_of xs k) else map_of xs k')"
  by (induction xs) (auto simp: hash_adjust_def)

end
