(* ===== verification/EcatClient.thy ===== *)
theory EcatClient
  imports ClientCalls QtHash
begin

text \<open>
  The studio's client of the daemon (\<^verbatim>\<open>apps/ecat-studio/infra/EcatClient.{h,cpp}\<close>): pending requests, response
  dispatch, the timeout sweep, the heartbeat and the reconnection. What the client emits, writes
  to the socket and asks of the socket is logged in \<open>cl_out\<close>, newest last; a timer is whether it is active
  (the reconnect timer with its interval); the events of the socket and the timers are operations with
  the clock as an argument. The hashes are association lists without duplicate keys: the order of
  their iteration, which Qt leaves open, is the order of the list, and no property depends on it.
  \<open>abort\<close> raises \<open>disconnected\<close> only on a connected socket. The read buffer stands beside the rest of the state.
\<close>

section \<open>State\<close>

datatype client_effect =
    Emit client_signal
  | Send json
  | Dial string nat
  | Abort

record client =
  cl_nextId :: u64
  cl_master :: string
  cl_handlers :: "(string \<times> call) list"
  cl_state :: conn_state
  cl_timeoutMs :: int
  cl_stamps :: "(string \<times> int) list"
  cl_host :: string
  cl_port :: nat
  cl_autoReconnect :: bool
  cl_consecutiveFailures :: int
  cl_connectFailures :: int
  cl_pendingPing :: bool
  cl_intervalMs :: int
  cl_sweepTimer :: bool
  cl_heartbeatTimer :: bool
  cl_reconnectTimer :: "int option"
  cl_connectTimer :: bool
  cl_out :: "client_effect list"

definition kDefaultRequestTimeoutMs :: int where "kDefaultRequestTimeoutMs = 10000"
definition kMaxReconnectMs :: int where "kMaxReconnectMs = 30000"
definition kMaxConsecutiveFailures :: int where "kMaxConsecutiveFailures = 3"
definition kMaxConnectAttempts :: int where "kMaxConnectAttempts = 3"
definition kConnectTimeoutMs :: int where "kConnectTimeoutMs = 10000"

definition client_init :: client where
  "client_init = \<lparr>cl_nextId = 1, cl_master = ''0'', cl_handlers = [], cl_state = Disconnected,
     cl_timeoutMs = kDefaultRequestTimeoutMs, cl_stamps = [], cl_host = ''127.0.0.1'', cl_port = 5877,
     cl_autoReconnect = True, cl_consecutiveFailures = 0, cl_connectFailures = 0, cl_pendingPing = False,
     cl_intervalMs = 2000, cl_sweepTimer = False, cl_heartbeatTimer = False, cl_reconnectTimer = None,
     cl_connectTimer = False, cl_out = []\<rparr>"

definition effect :: "client_effect \<Rightarrow> client \<Rightarrow> client" where
  "effect e c = c\<lparr>cl_out := cl_out c @ [e]\<rparr>"

abbreviation emit :: "client_signal \<Rightarrow> client \<Rightarrow> client" where
  "emit sig \<equiv> effect (Emit sig)"

definition setConnectionState :: "conn_state \<Rightarrow> client \<Rightarrow> client" where
  "setConnectionState st c =
     (if cl_state c \<noteq> st then emit (SigStateChanged st) (c\<lparr>cl_state := st\<rparr>) else c)"

definition isConnected :: "client \<Rightarrow> bool" where
  "isConnected c \<longleftrightarrow> cl_state c = Connected"

definition setMasterTarget :: "string \<Rightarrow> client \<Rightarrow> client" where
  "setMasterTarget target c = c\<lparr>cl_master := (if trimmed target = [] then ''0'' else trimmed target)\<rparr>"

definition setRequestTimeout :: "int \<Rightarrow> client \<Rightarrow> client" where
  "setRequestTimeout ms c = c\<lparr>cl_timeoutMs := (if ms > 0 then ms else kDefaultRequestTimeoutMs)\<rparr>"

section \<open>Requests and continuations\<close>

definition error_result :: "string \<Rightarrow> int \<Rightarrow> jobject" where
  "error_result msg code = [(''error'', JBool True), (''errorMessage'', JStr msg), (''errorCode'', jint code)]"

definition not_connected :: string where "not_connected = ''ecatd is not connected''"

definition post :: "int \<Rightarrow> call \<Rightarrow> client \<Rightarrow> client" where
  \<comment> \<open>the part of \<open>send\<close> for a connected client\<close>
  "post now cl c =
     (let rid = number_nat (unat (cl_nextId c)); (method, params) = request_of cl
      in effect (Send (request rid method (jset ''master'' (JStr (cl_master c)) params)))
           (c\<lparr>cl_nextId := cl_nextId c + 1, cl_handlers := hash_insert rid cl (cl_handlers c),
              cl_stamps := hash_insert rid now (cl_stamps c)\<rparr>))"

definition settle :: "call \<Rightarrow> client \<Rightarrow> client" where
  \<comment> \<open>the heartbeat's continuation resets the ping flags\<close>
  "settle cl c = (if cl = HeartbeatPing then c\<lparr>cl_pendingPing := False, cl_consecutiveFailures := 0\<rparr> else c)"

definition continue_with :: "call \<Rightarrow> jobject \<Rightarrow> client \<Rightarrow> client" where
  "continue_with cl result c = foldl (\<lambda>c sig. emit sig c) (settle cl c) (signals_of cl result)"

fun chain_rank :: "call \<Rightarrow> nat" where
  "chain_rank (Bus Rescan) = 1"
| "chain_rank (Bus (Download p i s v t)) = 1"
| "chain_rank (Bus (SetState p st)) = 1"
| "chain_rank (Bus (SetAllStates st)) = 1"
| "chain_rank cl = 0"

lemma follow_up_rank: "follow_up cl r = Some cl' \<Longrightarrow> chain_rank cl' < chain_rank cl"
  by (cases "(cl, r)" rule: follow_up.cases) (auto split: if_splits)

function send :: "int \<Rightarrow> call \<Rightarrow> client \<Rightarrow> client"
  and run_handler :: "int \<Rightarrow> call \<Rightarrow> jobject \<Rightarrow> client \<Rightarrow> client" where
  "send now cl c =
     (if \<not> isConnected c
      then run_handler now cl (error_result not_connected (- 1)) (emit (SigErrorMessage not_connected) c)
      else post now cl c)"
| "run_handler now cl result c =
     (let c' = continue_with cl result c
      in case follow_up cl result of None \<Rightarrow> c' | Some cl' \<Rightarrow> send now cl' c')"
  by pat_completeness auto

termination
  by (relation "measure (\<lambda>x. case x of Inl (now, cl, c) \<Rightarrow> 2 * chain_rank cl + 1
      | Inr (now, cl, r, c) \<Rightarrow> 2 * chain_rank cl)") (auto dest: follow_up_rank)

declare send.simps [simp del] run_handler.simps [simp del]

section \<open>Responses\<close>

definition reported_error :: "string \<Rightarrow> string \<Rightarrow> string" where
  "reported_error rid msg = ''['' @ rid @ ''] '' @ msg"

definition take_handler :: "string \<Rightarrow> client \<Rightarrow> call option \<times> client" where
  \<comment> \<open>\<open>handlers_.take(id); requestTimestamps_.remove(id);\<close>\<close>
  "take_handler rid c = (map_of (cl_handlers c) rid,
     c\<lparr>cl_handlers := hash_remove rid (cl_handlers c), cl_stamps := hash_remove rid (cl_stamps c)\<rparr>)"

definition handleLine :: "(string \<Rightarrow> json) \<Rightarrow> int \<Rightarrow> string \<Rightarrow> client \<Rightarrow> client" where
  \<comment> \<open>\<open>from_json\<close> is \<open>QJsonDocument::fromJson\<close>; what is no document is not an object\<close>
  "handleLine from_json now line c =
     (let doc = from_json line in
      if \<not> is_object doc then emit (SigErrorMessage ''Invalid response from ecatd'') c
      else
        let ob = to_object doc;
            rid = to_string (jfind ob ''id'');
            (handler, c1) = take_handler rid c
        in if \<not> to_bool (jfind ob ''ok'') then
             let err = to_object (jfind ob ''error'');
                 msg = to_string_def ''Unknown runtime error'' (jfind err ''message'');
                 c2 = emit (SigErrorMessage (reported_error rid msg)) c1
             in (case handler of None \<Rightarrow> c2
                 | Some cl \<Rightarrow> run_handler now cl (error_result msg (to_int_def (- 1) (jfind err ''code''))) c2)
           else (case handler of None \<Rightarrow> c1
                 | Some cl \<Rightarrow> run_handler now cl (to_object (jfind ob ''result'')) c1))"

definition readSocket :: "(string \<Rightarrow> json) \<Rightarrow> int \<Rightarrow> string \<Rightarrow> string \<times> client \<Rightarrow> string \<times> client" where
  "readSocket from_json now bytes st =
     (case st of (buffer, c) \<Rightarrow> read_loop (handleLine from_json now) (buffer @ bytes) c)"

definition timeout_message :: "string \<Rightarrow> int \<Rightarrow> string" where
  "timeout_message rid ms = ''Request '' @ rid @ '' timed out after '' @ number_int ms @ ''ms''"

definition time_out :: "int \<Rightarrow> string \<Rightarrow> client \<Rightarrow> client" where
  "time_out now rid c =
     (let (handler, c1) = take_handler rid c;
          msg = timeout_message rid (cl_timeoutMs c);
          c2 = emit (SigErrorMessage msg) c1
      in case handler of None \<Rightarrow> c2 | Some cl \<Rightarrow> run_handler now cl (error_result msg (- 1)) c2)"

definition sweepTimedOutRequests :: "int \<Rightarrow> client \<Rightarrow> client" where
  "sweepTimedOutRequests now c =
     (let timedOut = map fst (filter (\<lambda>p. now - snd p > cl_timeoutMs c) (cl_stamps c))
      in foldl (\<lambda>c rid. time_out now rid c) c timedOut)"

section \<open>Connecting, the heartbeat and reconnecting\<close>

definition scheduleReconnect :: "client \<Rightarrow> client" where
  "scheduleReconnect c =
     (if \<not> cl_autoReconnect c then c
      else if cl_reconnectTimer c \<noteq> None then c
      else c\<lparr>cl_reconnectTimer := Some (cl_intervalMs c)\<rparr>)"

definition setupAutoReconnect :: "client \<Rightarrow> client" where
  "setupAutoReconnect c = c\<lparr>cl_heartbeatTimer := True, cl_consecutiveFailures := 0, cl_intervalMs := 2000\<rparr>"

definition dial :: "client \<Rightarrow> client" where
  \<comment> \<open>\<open>setupConnectTimeout(); socket_.connectToHost(host_, port_);\<close>\<close>
  "dial c = effect (Dial (cl_host c) (cl_port c)) (c\<lparr>cl_connectTimer := True\<rparr>)"

definition connectToDaemon :: "client \<Rightarrow> client" where
  "connectToDaemon c =
     (if cl_state c = Connected \<or> cl_state c = Connecting then c else dial (setConnectionState Connecting c))"

definition connectToHost :: "string \<Rightarrow> nat \<Rightarrow> client \<Rightarrow> client" where
  "connectToHost address port c =
     (if cl_state c = Connected \<or> cl_state c = Connecting then c
      else dial (setConnectionState Connecting (c\<lparr>cl_host := address, cl_port := port\<rparr>)))"

definition on_connected :: "client \<Rightarrow> client" where
  "on_connected c =
     (let c1 = setConnectionState Connected (c\<lparr>cl_connectTimer := False\<rparr>);
          c2 = c1\<lparr>cl_consecutiveFailures := 0, cl_connectFailures := 0, cl_pendingPing := False,
                 cl_intervalMs := 2000, cl_sweepTimer := True\<rparr>;
          c3 = emit SigReconnected (emit SigConnected c2)
      in if cl_autoReconnect c3 then setupAutoReconnect c3 else c3)"

definition connection_lost :: jobject where
  "connection_lost = [(''code'', jint (- 1)), (''message'', JStr ''Connection lost'')]"

definition on_disconnected :: "int \<Rightarrow> client \<Rightarrow> client" where
  "on_disconnected now c =
     (let c1 = setConnectionState Disconnected c;
          c2 = c1\<lparr>cl_handlers := [], cl_stamps := []\<rparr>;
          c3 = foldl (\<lambda>c h. run_handler now (snd h) connection_lost c) c2 (cl_handlers c1);
          c4 = emit SigConnectionLost (emit SigDisconnected c3)
      in scheduleReconnect (c4\<lparr>cl_sweepTimer := False\<rparr>))"

datatype socket_error = ConnectionRefusedError | SocketTimeoutError | OtherError string

definition attempting :: "client \<Rightarrow> bool" where
  "attempting c \<longleftrightarrow> cl_state c = Connecting \<or> cl_state c = Reconnecting"

definition give_up_or_retry :: "client \<Rightarrow> client" where
  "give_up_or_retry c =
     (if cl_connectFailures c \<ge> kMaxConnectAttempts then emit (SigReconnectFailed kMaxConnectAttempts) c
      else scheduleReconnect c)"

definition on_error :: "socket_error \<Rightarrow> client \<Rightarrow> client" where
  "on_error e c =
     (let c1 = c\<lparr>cl_connectTimer := False\<rparr>;
          failed = attempting c1;
          c2 = (if failed then if cl_state c1 \<noteq> Disconnected
                  then c1\<lparr>cl_connectFailures := cl_connectFailures c1 + 1\<rparr> else c1 else c1);
          c3 = emit (SigErrorMessage (case e of
                 ConnectionRefusedError \<Rightarrow> ''Connection refused (attempt '' @ number_int (cl_connectFailures c2) @ '')''
               | SocketTimeoutError \<Rightarrow> ''Connection timed out''
               | OtherError text \<Rightarrow> text)) c2
      in if failed then give_up_or_retry (setConnectionState Disconnected c3) else c3)"

definition on_connect_timeout :: "client \<Rightarrow> client" where
  "on_connect_timeout c =
     (let c0 = c\<lparr>cl_connectTimer := False\<rparr> in
      if attempting c0 then
        let c1 = setConnectionState Disconnected (effect Abort c0);
            c2 = c1\<lparr>cl_connectFailures := cl_connectFailures c1 + 1\<rparr>;
            c3 = emit (SigErrorMessage (''Connection timed out after '' @ number_int kConnectTimeoutMs @ ''ms'')) c2
        in give_up_or_retry c3
      else c0)"

definition on_heartbeat :: "int \<Rightarrow> client \<Rightarrow> client" where
  "on_heartbeat now c =
     (if cl_state c \<noteq> Connected then c
      else if cl_pendingPing c then c
      else send now HeartbeatPing (c\<lparr>cl_pendingPing := True\<rparr>))"

definition on_heartbeat_check :: "int \<Rightarrow> bool \<Rightarrow> client \<Rightarrow> client" where
  \<comment> \<open>\<open>alive\<close>: whether the socket is still connected, so that \<open>abort\<close> raises \<open>disconnected\<close>\<close>
  "on_heartbeat_check now alive c =
     (if cl_state c \<noteq> Connected then c
      else if cl_pendingPing c then
        let c1 = c\<lparr>cl_pendingPing := False, cl_consecutiveFailures := cl_consecutiveFailures c + 1\<rparr>
        in if cl_consecutiveFailures c1 \<ge> kMaxConsecutiveFailures then
             let c2 = effect Abort (setConnectionState Disconnected c1)
             in scheduleReconnect (if alive then on_disconnected now c2 else c2)
           else c1
      else c)"

definition attemptReconnect :: "client \<Rightarrow> client" where
  "attemptReconnect c =
     (let c0 = c\<lparr>cl_reconnectTimer := None\<rparr> in
      if \<not> cl_autoReconnect c0 then c0
      else if cl_state c0 = Connected then c0
      else if cl_connectFailures c0 \<ge> kMaxConnectAttempts then emit (SigReconnectFailed kMaxConnectAttempts) c0
      else dial (setConnectionState Reconnecting
             (emit (SigReconnecting (cl_connectFailures c0 + 1) (cl_intervalMs c0)) c0)))"

definition on_backoff :: "client \<Rightarrow> client" where
  \<comment> \<open>five seconds after an attempt\<close>
  "on_backoff c =
     (if cl_state c \<noteq> Connected \<and> cl_autoReconnect c \<and> cl_connectFailures c < kMaxConnectAttempts
      then scheduleReconnect (c\<lparr>cl_intervalMs := min (cl_intervalMs c * 2) kMaxReconnectMs\<rparr>)
      else c)"

definition enableAutoReconnect :: "bool \<Rightarrow> client \<Rightarrow> client" where
  "enableAutoReconnect enable c =
     (let c1 = c\<lparr>cl_autoReconnect := enable\<rparr> in
      if \<not> enable then c1\<lparr>cl_reconnectTimer := None, cl_heartbeatTimer := False,
          cl_consecutiveFailures := 0, cl_connectFailures := 0\<rparr>
      else if cl_state c1 = Connected then setupAutoReconnect c1 else c1)"

section \<open>The reader\<close>

interpretation client_reader: line_reader "readSocket from_json now" "handleLine from_json now" None
    for from_json now
  by unfold_locales (simp add: readSocket_def)

section \<open>No request is orphaned\<close>

definition client_inv :: "client \<Rightarrow> bool" where
  \<comment> \<open>the two tables have the same requests, once each, and the sweep runs whenever one is pending\<close>
  "client_inv c \<longleftrightarrow> map fst (cl_handlers c) = map fst (cl_stamps c) \<and> distinct (map fst (cl_stamps c))
     \<and> (cl_handlers c \<noteq> [] \<longrightarrow> cl_sweepTimer c) \<and> (cl_state c = Connected \<longrightarrow> cl_sweepTimer c)
     \<and> 0 < cl_timeoutMs c"

definition same_requests :: "client \<Rightarrow> client \<Rightarrow> bool" where
  "same_requests c c' \<longleftrightarrow> cl_handlers c' = cl_handlers c \<and> cl_stamps c' = cl_stamps c
     \<and> cl_sweepTimer c' = cl_sweepTimer c \<and> cl_timeoutMs c' = cl_timeoutMs c \<and> cl_state c' = cl_state c"

lemma same_requests_refl [simp]: "same_requests c c"
  and same_requests_trans: "same_requests c c1 \<Longrightarrow> same_requests c1 c2 \<Longrightarrow> same_requests c c2"
  by (simp_all add: same_requests_def)

lemma same_requests_inv: "same_requests c c' \<Longrightarrow> client_inv c' = client_inv c"
  by (simp add: same_requests_def client_inv_def)

lemma effect_fields [simp]:
  "cl_handlers (effect e c) = cl_handlers c" "cl_stamps (effect e c) = cl_stamps c"
  "cl_sweepTimer (effect e c) = cl_sweepTimer c" "cl_timeoutMs (effect e c) = cl_timeoutMs c"
  "cl_state (effect e c) = cl_state c" "cl_pendingPing (effect e c) = cl_pendingPing c"
  "cl_consecutiveFailures (effect e c) = cl_consecutiveFailures c" "cl_nextId (effect e c) = cl_nextId c"
  "cl_intervalMs (effect e c) = cl_intervalMs c" "cl_reconnectTimer (effect e c) = cl_reconnectTimer c"
  "cl_connectFailures (effect e c) = cl_connectFailures c" "cl_autoReconnect (effect e c) = cl_autoReconnect c"
  "cl_out (effect e c) = cl_out c @ [e]"
  by (simp_all add: effect_def)

lemma same_requests_effect [simp]: "same_requests c (effect e c)"
  by (simp add: same_requests_def)

lemma same_requests_settle: "same_requests c (settle cl c)"
  by (simp add: same_requests_def settle_def)

lemma same_requests_emits: "same_requests c (foldl (\<lambda>c sig. emit sig c) c sigs)"
  by (induction sigs arbitrary: c) (auto intro: same_requests_trans [OF same_requests_effect])

lemma same_requests_continue: "same_requests c (continue_with cl r c)"
  unfolding continue_with_def by (rule same_requests_trans [OF same_requests_settle same_requests_emits])

lemma post_fields:
  "\<exists>rid. cl_handlers (post now cl c) = hash_insert rid cl (cl_handlers c)
     \<and> cl_stamps (post now cl c) = hash_insert rid now (cl_stamps c)"
  "cl_sweepTimer (post now cl c) = cl_sweepTimer c" "cl_timeoutMs (post now cl c) = cl_timeoutMs c"
  "cl_state (post now cl c) = cl_state c"
  by (auto simp: post_def Let_def split: prod.splits)

lemma post_inv:
  assumes inv: "client_inv c" and con: "isConnected c"
  shows "client_inv (post now cl c)"
proof -
  obtain rid where p: "cl_handlers (post now cl c) = hash_insert rid cl (cl_handlers c)"
    "cl_stamps (post now cl c) = hash_insert rid now (cl_stamps c)" using post_fields(1) by blast
  have "map fst (cl_handlers (post now cl c)) = map fst (cl_stamps (post now cl c))"
    unfolding p by (rule hash_insert_keys(1)) (use inv in \<open>simp add: client_inv_def\<close>)
  moreover have "distinct (map fst (cl_stamps (post now cl c)))"
    unfolding p by (rule hash_distinct(1)) (use inv in \<open>simp add: client_inv_def\<close>)
  ultimately show ?thesis
    using inv con post_fields(2,3,4) [of now cl c] by (simp add: client_inv_def isConnected_def)
qed

definition recent :: "int \<Rightarrow> string set \<Rightarrow> client \<Rightarrow> bool" where
  \<comment> \<open>every pending request is within the timeout, the given ones apart\<close>
  "recent now ids c \<longleftrightarrow> (\<forall>(rid, t) \<in> set (cl_stamps c). rid \<in> ids \<or> now - t \<le> cl_timeoutMs c)"

lemma recent_same: "same_requests c c' \<Longrightarrow> recent now ids c' = recent now ids c"
  by (simp add: recent_def same_requests_def)

lemma post_recent:
  assumes "recent now ids c" and "0 < cl_timeoutMs c"
  shows "recent now ids (post now cl c)"
proof -
  obtain rid where p: "cl_stamps (post now cl c) = hash_insert rid now (cl_stamps c)" using post_fields(1) by blast
  show ?thesis
    using assms unfolding recent_def p by (auto simp: hash_insert_def post_fields(3))
qed

definition request_frame :: "int \<Rightarrow> string set \<Rightarrow> client \<Rightarrow> client \<Rightarrow> bool" where
  "request_frame now ids c c' \<longleftrightarrow> (client_inv c \<longrightarrow> client_inv c') \<and> cl_timeoutMs c' = cl_timeoutMs c
     \<and> cl_state c' = cl_state c \<and> cl_sweepTimer c' = cl_sweepTimer c
     \<and> (0 < cl_timeoutMs c \<longrightarrow> recent now ids c \<longrightarrow> recent now ids c')
     \<and> (cl_state c \<noteq> Connected \<longrightarrow> cl_handlers c' = cl_handlers c \<and> cl_stamps c' = cl_stamps c)"

lemma request_frame_same: "same_requests c c' \<Longrightarrow> request_frame now ids c c'"
  using same_requests_inv [of c c'] recent_same [of c c' now ids] unfolding request_frame_def
  by (simp add: same_requests_def)

lemma request_frame_trans:
  "request_frame now ids c c1 \<Longrightarrow> request_frame now ids c1 c2 \<Longrightarrow> request_frame now ids c c2"
  by (simp add: request_frame_def)

lemma request_frame_post: "isConnected c \<Longrightarrow> request_frame now ids c (post now cl c)"
  using post_inv [of c now cl] post_recent [of now ids c cl] post_fields(2,3,4) [of now cl c]
  unfolding request_frame_def by (simp add: isConnected_def)

lemma send_run_frame:
  "request_frame now ids c (send now cl c)"
  "request_frame now ids c (run_handler now cl r c)"
proof (induction now cl c and now cl r c rule: send_run_handler.induct)
  case (1 now cl c)
  show ?case
  proof (cases "isConnected c")
    case True
    then show ?thesis by (simp add: send.simps request_frame_post)
  next
    case False
    from 1 [OF False] request_frame_same [OF same_requests_effect] show ?thesis
      by (simp add: send.simps False) (rule request_frame_trans)
  qed
next
  case (2 now cl r c)
  note cont = request_frame_same [OF same_requests_continue [of c cl r], of now ids]
  show ?case
  proof (cases "follow_up cl r")
    case None
    then show ?thesis using cont by (simp add: run_handler.simps)
  next
    case (Some cl')
    with 2 [OF refl] request_frame_trans [OF cont] show ?thesis by (simp add: run_handler.simps)
  qed
qed

section \<open>Every operation keeps the tables\<close>

lemma take_handler_inv: "client_inv c \<Longrightarrow> client_inv (snd (take_handler rid c))"
  using hash_insert_keys(2) [of "cl_handlers c" "cl_stamps c" rid] hash_distinct(2) [of "cl_stamps c" rid]
  by (auto simp: take_handler_def client_inv_def hash_remove_def)

lemma effect_inv [simp]: "client_inv (effect e c) = client_inv c"
  by (rule same_requests_inv) simp

lemma run_handler_inv: "client_inv c \<Longrightarrow> client_inv (run_handler now cl r c)"
  using send_run_frame(2) [of now "{}" c cl r] by (simp add: request_frame_def)

lemma send_inv: "client_inv c \<Longrightarrow> client_inv (send now cl c)"
  using send_run_frame(1) [of now "{}" c cl] by (simp add: request_frame_def)

lemma handleLine_inv:
  assumes "client_inv c"
  shows "client_inv (handleLine from_json now line c)"
proof -
  let ?ob = "to_object (from_json line)"
  obtain h c1 where t: "take_handler (to_string (jfind ?ob ''id'')) c = (h, c1)"
    by (cases "take_handler (to_string (jfind ?ob ''id'')) c")
  with take_handler_inv [OF assms, of "to_string (jfind ?ob ''id'')"] have "client_inv c1" by simp
  with assms show ?thesis
    by (cases h) (simp_all add: handleLine_def Let_def t run_handler_inv)
qed

lemma time_out_inv: "client_inv c \<Longrightarrow> client_inv (time_out now rid c)"
  using take_handler_inv [of c rid]
  by (cases "take_handler rid c") (simp add: time_out_def Let_def run_handler_inv split: option.split)

lemma sweep_inv: "client_inv c \<Longrightarrow> client_inv (sweepTimedOutRequests now c)"
  unfolding sweepTimedOutRequests_def Let_def by (rule foldl_invariant) (simp_all add: time_out_inv)

lemma client_inv_quiet: "st \<noteq> Connected \<Longrightarrow> client_inv c \<Longrightarrow> client_inv (setConnectionState st c)"
  by (auto simp: setConnectionState_def client_inv_def effect_def)

lemma client_inv_updates [simp]:
  "client_inv (scheduleReconnect c) = client_inv c"
  "client_inv (setupAutoReconnect c) = client_inv c"
  "client_inv (dial c) = client_inv c"
  "client_inv (c\<lparr>cl_connectTimer := b\<rparr>) = client_inv c"
  "client_inv (c\<lparr>cl_connectFailures := n\<rparr>) = client_inv c"
  "client_inv (c\<lparr>cl_pendingPing := b\<rparr>) = client_inv c"
  "client_inv (c\<lparr>cl_consecutiveFailures := n\<rparr>) = client_inv c"
  "client_inv (c\<lparr>cl_reconnectTimer := t\<rparr>) = client_inv c"
  "client_inv (c\<lparr>cl_intervalMs := n\<rparr>) = client_inv c"
  "client_inv (c\<lparr>cl_host := h, cl_port := p\<rparr>) = client_inv c"
  "client_inv (c\<lparr>cl_autoReconnect := b\<rparr>) = client_inv c"
  "client_inv (c\<lparr>cl_heartbeatTimer := b\<rparr>) = client_inv c"
  "client_inv (c\<lparr>cl_master := m\<rparr>) = client_inv c"
  by (simp_all add: client_inv_def scheduleReconnect_def setupAutoReconnect_def dial_def)

lemma on_connected_inv: "client_inv c \<Longrightarrow> client_inv (on_connected c)"
  by (auto simp: on_connected_def Let_def client_inv_def setConnectionState_def setupAutoReconnect_def)

lemma run_handlers_frame:
  "cl_state c \<noteq> Connected \<Longrightarrow> client_inv c \<Longrightarrow>
   let c' = foldl (\<lambda>c h. run_handler now (snd h) r c) c hs in
   cl_state c' = cl_state c \<and> client_inv c' \<and> cl_handlers c' = cl_handlers c"
proof (induction hs arbitrary: c)
  case (Cons h hs)
  have f: "request_frame now {} c (run_handler now (snd h) r c)" by (rule send_run_frame)
  then have "cl_state (run_handler now (snd h) r c) = cl_state c" "client_inv (run_handler now (snd h) r c)"
    "cl_handlers (run_handler now (snd h) r c) = cl_handlers c"
    using Cons.prems by (simp_all add: request_frame_def)
  with Cons.IH [of "run_handler now (snd h) r c"] Cons.prems show ?case by (simp add: Let_def)
qed simp

lemma on_disconnected_inv:
  assumes "client_inv c"
  shows "client_inv (on_disconnected now c)" "cl_handlers (on_disconnected now c) = []"
    "cl_state (on_disconnected now c) = Disconnected"
proof -
  define c1 where "c1 = setConnectionState Disconnected c"
  define c2 where "c2 = c1\<lparr>cl_handlers := [], cl_stamps := []\<rparr>"
  define c3 where "c3 = foldl (\<lambda>c h. run_handler now (snd h) connection_lost c) c2 (cl_handlers c1)"
  have "client_inv c1" using assms by (simp add: c1_def client_inv_quiet)
  moreover have st: "cl_state c1 = Disconnected" by (simp add: c1_def setConnectionState_def)
  ultimately have "client_inv c2" "cl_state c2 = Disconnected" by (simp_all add: c2_def client_inv_def)
  with run_handlers_frame [of c2 now connection_lost "cl_handlers c1"]
  have c3: "cl_state c3 = Disconnected" "client_inv c3" "cl_handlers c3 = []"
    by (simp_all add: c3_def Let_def) (simp add: c2_def)
  have eq: "on_disconnected now c =
    scheduleReconnect ((emit SigConnectionLost (emit SigDisconnected c3))\<lparr>cl_sweepTimer := False\<rparr>)"
    by (simp add: on_disconnected_def Let_def c1_def c2_def c3_def)
  show "client_inv (on_disconnected now c)" "cl_handlers (on_disconnected now c) = []"
    "cl_state (on_disconnected now c) = Disconnected"
    using c3 by (simp_all add: eq) (simp_all add: client_inv_def scheduleReconnect_def)
qed

lemma give_up_or_retry_inv [simp]: "client_inv (give_up_or_retry c) = client_inv c"
  by (simp add: give_up_or_retry_def)

lemma on_heartbeat_check_inv: "client_inv c \<Longrightarrow> client_inv (on_heartbeat_check now alive c)"
  by (simp add: on_heartbeat_check_def Let_def on_disconnected_inv client_inv_quiet)

datatype client_op =
    OpSend int call | OpLine int string | OpSweep int
  | OpConnected | OpDisconnected int | OpError socket_error | OpConnectTimeout
  | OpHeartbeat int | OpHeartbeatCheck int bool | OpReconnect | OpBackoff
  | OpDialDaemon | OpDialHost string nat | OpAutoReconnect bool | OpMaster string | OpTimeout int

fun client_step :: "(string \<Rightarrow> json) \<Rightarrow> client_op \<Rightarrow> client \<Rightarrow> client" where
  "client_step js (OpSend now cl) c = send now cl c"
| "client_step js (OpLine now line) c = handleLine js now line c"
| "client_step js (OpSweep now) c = sweepTimedOutRequests now c"
| "client_step js OpConnected c = on_connected c"
| "client_step js (OpDisconnected now) c = on_disconnected now c"
| "client_step js (OpError e) c = on_error e c"
| "client_step js OpConnectTimeout c = on_connect_timeout c"
| "client_step js (OpHeartbeat now) c = on_heartbeat now c"
| "client_step js (OpHeartbeatCheck now alive) c = on_heartbeat_check now alive c"
| "client_step js OpReconnect c = attemptReconnect c"
| "client_step js OpBackoff c = on_backoff c"
| "client_step js OpDialDaemon c = connectToDaemon c"
| "client_step js (OpDialHost h p) c = connectToHost h p c"
| "client_step js (OpAutoReconnect b) c = enableAutoReconnect b c"
| "client_step js (OpMaster m) c = setMasterTarget m c"
| "client_step js (OpTimeout ms) c = setRequestTimeout ms c"

lemma client_step_inv: "client_inv c \<Longrightarrow> client_inv (client_step js p c)"
proof (cases p)
  case (OpTimeout ms)
  then show "client_inv c \<Longrightarrow> ?thesis"
    by (simp add: client_inv_def setRequestTimeout_def kDefaultRequestTimeoutMs_def)
qed (simp_all add: send_inv handleLine_inv sweep_inv on_connected_inv on_disconnected_inv on_heartbeat_check_inv
    on_error_def on_connect_timeout_def on_heartbeat_def attemptReconnect_def on_backoff_def connectToDaemon_def
    connectToHost_def enableAutoReconnect_def setMasterTarget_def Let_def client_inv_quiet)

definition client_run :: "(string \<Rightarrow> json) \<Rightarrow> client_op list \<Rightarrow> client" where
  "client_run js ops = foldl (\<lambda>c p. client_step js p c) client_init ops"

lemma client_run_inv: "client_inv (client_run js ops)"
  unfolding client_run_def
  by (rule foldl_invariant) (simp_all add: client_step_inv, simp add: client_inv_def client_init_def kDefaultRequestTimeoutMs_def)

lemma time_out_recent:
  assumes "client_inv c" and "recent now (insert rid ids) c"
  shows "recent now ids (time_out now rid c)" and "cl_timeoutMs (time_out now rid c) = cl_timeoutMs c"
proof -
  obtain h c1 where t: "take_handler rid c = (h, c1)" by (cases "take_handler rid c")
  define c2 where "c2 = emit (SigErrorMessage (timeout_message rid (cl_timeoutMs c))) c1"
  have c2: "recent now ids c2" "cl_timeoutMs c2 = cl_timeoutMs c" "0 < cl_timeoutMs c2"
    using assms t by (auto simp: c2_def recent_def take_handler_def hash_remove_def client_inv_def)
  have eq: "time_out now rid c = (case h of None \<Rightarrow> c2
      | Some cl \<Rightarrow> run_handler now cl (error_result (timeout_message rid (cl_timeoutMs c)) (- 1)) c2)"
    unfolding time_out_def t Let_def c2_def by simp
  show "recent now ids (time_out now rid c)" "cl_timeoutMs (time_out now rid c) = cl_timeoutMs c"
    using c2 send_run_frame(2) [of now ids c2] unfolding eq request_frame_def by (auto split: option.split)
qed

lemma time_outs_recent:
  "client_inv c \<Longrightarrow> recent now (set ids) c \<Longrightarrow>
   recent now {} (foldl (\<lambda>c rid. time_out now rid c) c ids)
   \<and> cl_timeoutMs (foldl (\<lambda>c rid. time_out now rid c) c ids) = cl_timeoutMs c"
proof (induction ids arbitrary: c)
  case (Cons rid ids)
  from Cons.IH [OF time_out_inv [OF Cons.prems(1)]] time_out_recent [OF Cons.prems(1)] Cons.prems(2)
  show ?case by simp
qed simp

lemma sweep_recent:
  assumes "client_inv c"
  shows "recent now {} (sweepTimedOutRequests now c)"
    and "cl_timeoutMs (sweepTimedOutRequests now c) = cl_timeoutMs c"
proof -
  let ?ids = "map fst (filter (\<lambda>p. now - snd p > cl_timeoutMs c) (cl_stamps c))"
  have "recent now (set ?ids) c" by (force simp: recent_def)
  from time_outs_recent [OF assms this] show "recent now {} (sweepTimedOutRequests now c)"
    "cl_timeoutMs (sweepTimedOutRequests now c) = cl_timeoutMs c"
    by (simp_all add: sweepTimedOutRequests_def Let_def)
qed

section \<open>Properties\<close>

text \<open>
  Claim C37 (liveness). No request of the client is left waiting: in every state the client reaches, the
  pending continuations and their time stamps are the same requests, each once, the sweep timer
  runs whenever a request is pending, a sweep leaves only requests within the timeout,
  and a lost connection leaves none.
\<close>

theorem pending_requests_are_swept:
  assumes "c = client_run from_json ops"
  shows "map fst (cl_handlers c) = map fst (cl_stamps c) \<and> distinct (map fst (cl_handlers c))
    \<and> (cl_handlers c \<noteq> [] \<longrightarrow> cl_sweepTimer c)
    \<and> (\<forall>(rid, t) \<in> set (cl_stamps (sweepTimedOutRequests now c)). now - t \<le> cl_timeoutMs c)
    \<and> cl_handlers (on_disconnected now c) = []"
proof -
  have inv: "client_inv c" unfolding assms by (rule client_run_inv)
  from sweep_recent [OF inv, of now] inv on_disconnected_inv(2) [OF inv] show ?thesis
    by (auto simp: recent_def client_inv_def)
qed

theorem pending_requests_are_swept_witness:
  "cl_handlers (client_run (\<lambda>_. JNull) [OpDialDaemon, OpConnected, OpSend 5 (Bus Scan)]) = [(''1'', Bus Scan)]
   \<and> cl_sweepTimer (client_run (\<lambda>_. JNull) [OpDialDaemon, OpConnected, OpSend 5 (Bus Scan)])"
proof -
  let ?c = "client_run (\<lambda>_. JNull) [OpDialDaemon, OpConnected, OpSend 5 (Bus Scan)]"
  have one: "number_nat (Suc 0) = ''1''" by code_simp
  have h: "cl_handlers ?c = [(''1'', Bus Scan)]"
    by (simp add: client_run_def client_init_def connectToDaemon_def dial_def setConnectionState_def on_connected_def
        setupAutoReconnect_def effect_def send.simps isConnected_def post_def hash_insert_def one Let_def)
  with pending_requests_are_swept [OF refl, of "\<lambda>_. JNull" "[OpDialDaemon, OpConnected, OpSend 5 (Bus Scan)]"]
  show ?thesis by simp
qed

text \<open>
  A failure is taken for success: when the daemon refuses to start a free run, the client
  reports the error, then that a free run is running, and that the start succeeded. The continuation
  does not look at the result it is given.
\<close>

theorem refused_free_run_reported_running:
  assumes "from_json line = failure rid msg" and "map_of (cl_handlers c) rid = Some (Cycle FreeRunStart)"
  shows "\<exists>tele. cl_out (handleLine from_json now line c) = cl_out c
    @ map Emit [SigErrorMessage (reported_error rid msg), SigFreeRunChanged True ''Running'',
        SigFreeRunTelemetry tele, SigCommandSucceeded ''Free Run started'']"
  using assms
  by (simp add: handleLine_def failure_code_def take_handler_def run_handler.simps continue_with_def settle_def
      error_result_def Let_def)

definition waiting_client :: client where
  "waiting_client = client_init\<lparr>cl_state := Connected, cl_handlers := [(''7'', Cycle FreeRunStart)],
     cl_stamps := [(''7'', 0)], cl_sweepTimer := True\<rparr>"

theorem refused_free_run_reported_running_witness:
  "Emit (SigFreeRunChanged True ''Running'')
     \<in> set (cl_out (handleLine (\<lambda>_. failure ''7'' ''No EtherCAT slaves found for Free Run.'') 9 [] waiting_client))"
proof -
  have "map_of (cl_handlers waiting_client) ''7'' = Some (Cycle FreeRunStart)" by (simp add: waiting_client_def)
  from refused_free_run_reported_running [where from_json = "\<lambda>_. failure ''7'' ''No EtherCAT slaves found for Free Run.''", OF refl this, of 9 "[]"]
  obtain tele where "cl_out (handleLine (\<lambda>_. failure ''7'' ''No EtherCAT slaves found for Free Run.'') 9 [] waiting_client)
    = cl_out waiting_client @ map Emit [SigErrorMessage (reported_error ''7'' ''No EtherCAT slaves found for Free Run.''),
        SigFreeRunChanged True ''Running'', SigFreeRunTelemetry tele, SigCommandSucceeded ''Free Run started'']" ..
  then show ?thesis by simp
qed

text \<open>
  The read buffer outlives the connection: what a lost connection left of a partial line is
  still in front of the first response of the next one, so that the response is taken for
  no JSON and the request it answers stays pending, until it times out.
\<close>

theorem stale_bytes_swallow_response:
  assumes "newline \<notin> set partial" and "newline \<notin> set response"
    and "\<not> is_object (from_json (partial @ response))"
    and "(buffer, c) = readSocket from_json t0 partial ([], c0)"
    and "c' = send t3 cl (on_connected (on_disconnected t1 c))"
  shows "readSocket from_json t4 (response @ [newline]) (buffer, c')
    = ([], emit (SigErrorMessage ''Invalid response from ecatd'') c')"
proof -
  have "buffer = partial" using assms(1,4) by (simp add: readSocket_def read_loop_end)
  then have "readSocket from_json t4 (response @ [newline]) (buffer, c')
    = read_loop (handleLine from_json t4) ((partial @ response) @ newline # []) c'"
    by (simp add: readSocket_def)
  also have "\<dots> = ([], handleLine from_json t4 (partial @ response) c')"
    by (subst read_loop_line) (use assms(1,2) in \<open>simp_all add: read_loop_end\<close>)
  finally show ?thesis using assms(3) by (simp add: handleLine_def Let_def)
qed

theorem stale_bytes_swallow_response_witness:
  "\<exists>c'. cl_handlers c' = [(''1'', Bus Scan)] \<and>
     readSocket (\<lambda>_. JUndefined) 4 (''{}'' @ [newline]) (''{'', c')
       = ([], emit (SigErrorMessage ''Invalid response from ecatd'') c')"
proof -
  have n: "newline \<notin> set ''{''" "newline \<notin> set ''{}''" by code_simp+
  define c' where "c' = send 3 (Bus Scan) (on_connected (on_disconnected 1 client_init))"
  have r: "readSocket (\<lambda>_. JUndefined) 0 ''{'' ([], client_init) = (''{'', client_init)"
    using n by (simp add: readSocket_def read_loop_end)
  have one: "number_nat (Suc 0) = ''1''" by code_simp
  have "cl_handlers c' = [(''1'', Bus Scan)]"
    by (simp add: c'_def client_init_def on_disconnected_def on_connected_def scheduleReconnect_def Let_def
        setConnectionState_def setupAutoReconnect_def effect_def send.simps isConnected_def post_def hash_insert_def one)
  moreover have "\<not> is_object ((\<lambda>_. JUndefined) (''{'' @ ''{}''))" by (simp add: is_object_def)
  from stale_bytes_swallow_response [where from_json = "\<lambda>_. JUndefined", OF n this r [symmetric] c'_def, of 4]
  have "readSocket (\<lambda>_. JUndefined) 4 (''{}'' @ [newline]) (''{'', c')
       = ([], emit (SigErrorMessage ''Invalid response from ecatd'') c')" .
  ultimately show ?thesis by blast
qed

section \<open>The heartbeat\<close>

definition steps :: "(string \<Rightarrow> json) \<Rightarrow> client_op list \<Rightarrow> client \<Rightarrow> client" where
  "steps js ops c = foldl (\<lambda>c p. client_step js p c) c ops"

lemma steps_simps [simp]:
  "steps js [] c = c" "steps js (p # ops) c = steps js ops (client_step js p c)"
  "steps js (ops @ ops') c = steps js ops' (steps js ops c)"
  by (simp_all add: steps_def)

















subsection \<open>Counting\<close>




















section \<open>The heartbeat of a silent daemon\<close>

text \<open>
  The timers after a connection at time \<open>t\<close>: the sweep every 2 s, the heartbeat every 5 s, its check
  3.5 s later. \<open>beating\<close> is the part of the client's state they work on, the pending requests being pings.
\<close>

definition id_of :: "u64 \<Rightarrow> string" where "id_of k = number_nat (unat k)"

definition beating :: "(string \<times> int) list \<Rightarrow> u64 \<Rightarrow> bool \<Rightarrow> int \<Rightarrow> client \<Rightarrow> bool" where
  "beating hs k p f c \<longleftrightarrow> cl_state c = Connected \<and> cl_timeoutMs c = kDefaultRequestTimeoutMs
     \<and> cl_handlers c = map (\<lambda>h. (fst h, HeartbeatPing)) hs \<and> cl_stamps c = hs \<and> cl_nextId c = k
     \<and> cl_pendingPing c = p \<and> cl_consecutiveFailures c = f"

lemma id_of_inject [simp]: "id_of a = id_of b \<longleftrightarrow> a = b"
proof
  assume "id_of a = id_of b"
  then have "to_uint (2 ^ 64) 10 (number_nat (unat a)) = to_uint (2 ^ 64) 10 (number_nat (unat b))"
    by (simp add: id_of_def)
  moreover have "unat a < 2 ^ 64" "unat b < 2 ^ 64" using unsigned_less [of a] unsigned_less [of b] by simp_all
  ultimately have "unat a = unat b" using to_uint_number_nat by auto
  then show "a = b" by (rule word_unat_eq_iff [THEN iffD2])
qed simp

lemma beating_sweep_none:
  assumes "beating hs k p f c" and "\<forall>h \<in> set hs. now - snd h \<le> 10000"
  shows "beating hs k p f (sweepTimedOutRequests now c)"
proof -
  have "filter (\<lambda>h. now - snd h > 10000) hs = []" using assms(2) by (auto simp: filter_empty_conv)
  then show ?thesis using assms(1)
    by (simp add: sweepTimedOutRequests_def beating_def kDefaultRequestTimeoutMs_def)
qed

lemma beating_time_out:
  assumes "beating ((i, t) # hs) k p f c" and "i \<notin> fst ` set hs"
  shows "beating hs k False 0 (time_out now i c)"
proof -
  have keep: "filter (\<lambda>h. fst h \<noteq> i) hs = hs" "filter (\<lambda>h. fst h \<noteq> i) (map (\<lambda>h. (fst h, HeartbeatPing)) hs)
      = map (\<lambda>h. (fst h, HeartbeatPing)) hs"
    using assms(2) by (auto simp: filter_id_conv)
  show ?thesis using assms(1) keep
    by (simp add: beating_def time_out_def take_handler_def hash_remove_def run_handler.simps continue_with_def
        settle_def Let_def)
qed

lemma beating_sweep_first:
  assumes "beating ((i, t) # hs) k p f c" and "i \<notin> fst ` set hs"
    and "now - t > 10000" and "\<forall>h \<in> set hs. now - snd h \<le> 10000"
  shows "beating hs k False 0 (sweepTimedOutRequests now c)"
proof -
  have "filter (\<lambda>h. now - snd h > 10000) ((i, t) # hs) = [(i, t)]"
    using assms(3,4) by (auto simp: filter_empty_conv)
  then have "sweepTimedOutRequests now c = time_out now i c"
    using assms(1) by (simp add: sweepTimedOutRequests_def beating_def kDefaultRequestTimeoutMs_def)
  with beating_time_out [OF assms(1,2)] show ?thesis by simp
qed

lemma beating_check:
  "beating hs k True f c \<Longrightarrow> f < 2 \<Longrightarrow> beating hs k False (f + 1) (on_heartbeat_check now alive c)"
  "beating hs k False f c \<Longrightarrow> beating hs k False f (on_heartbeat_check now alive c)"
  by (simp_all add: beating_def on_heartbeat_check_def kMaxConsecutiveFailures_def)

lemma beating_beat:
  assumes "beating hs k False f c" and "id_of k \<notin> fst ` set hs"
  shows "beating (hs @ [(id_of k, now)]) (k + 1) True f (on_heartbeat now c)"
proof -
  have keep: "filter (\<lambda>h. fst h \<noteq> id_of k) hs = hs" "filter (\<lambda>h. fst h \<noteq> id_of k) (map (\<lambda>h. (fst h, HeartbeatPing)) hs)
      = map (\<lambda>h. (fst h, HeartbeatPing)) hs"
    using assms(2) by (force simp: filter_id_conv)+
  show ?thesis using assms(1) keep
    by (simp add: beating_def on_heartbeat_def send.simps isConnected_def post_def hash_insert_def Let_def id_of_def)
qed

definition silent_period :: "int \<Rightarrow> client_op list" where
  "silent_period t = [OpSweep (t + 2000), OpHeartbeatCheck (t + 3500) True, OpSweep (t + 4000),
     OpHeartbeat (t + 5000), OpSweep (t + 6000), OpSweep (t + 8000), OpHeartbeatCheck (t + 8500) True,
     OpSweep (t + 10000), OpHeartbeat (t + 10000)]"

fun silent_run :: "nat \<Rightarrow> int \<Rightarrow> client_op list" where
  "silent_run 0 t = []"
| "silent_run (Suc n) t = silent_period t @ silent_run n (t + 10000)"

lemma word_neighbours [simp]: "k + 1 \<noteq> (k :: u64)" "k + 2 \<noteq> k" "k + 3 \<noteq> k" "k + 4 \<noteq> k"
  by simp_all

lemma period_first:
  assumes "beating [] k False 0 c"
  shows "beating [(id_of k, t + 5000), (id_of (k + 1), t + 10000)] (k + 2) True 1 (steps js (silent_period t) c)"
proof -
  note b = assms [THEN beating_sweep_none, of "t + 2000", THEN beating_check(2), of "t + 3500" True,
    THEN beating_sweep_none, of "t + 4000", THEN beating_beat, of "t + 5000"]
  have "beating [(id_of k, t + 5000)] (k + 1) True 0
    (on_heartbeat (t + 5000) (sweepTimedOutRequests (t + 4000) (on_heartbeat_check (t + 3500) True (sweepTimedOutRequests (t + 2000) c))))"
    using b by (simp add: ac_simps)
  note b2 = this [THEN beating_sweep_none, of "t + 6000", THEN beating_sweep_none, of "t + 8000",
    THEN beating_check(1), of "t + 8500" True, THEN beating_sweep_none, of "t + 10000", THEN beating_beat, of "t + 10000"]
  then show ?thesis by (simp add: silent_period_def ac_simps)
qed

lemma period_second:
  assumes "beating [(id_of k, t - 5000), (id_of (k + 1), t)] (k + 2) True 1 c"
  shows "beating [(id_of (k + 1), t), (id_of (k + 2), t + 5000), (id_of (k + 3), t + 10000)] (k + 4) True 0
    (steps js (silent_period t) c)"
proof -
  define c1 where "c1 = sweepTimedOutRequests (t + 4000) (on_heartbeat_check (t + 3500) True (sweepTimedOutRequests (t + 2000) c))"
  have "beating [(id_of k, t - 5000), (id_of (k + 1), t)] (k + 2) False 2 c1"
    using assms [THEN beating_sweep_none, of "t + 2000", THEN beating_check(1), of "t + 3500" True,
      THEN beating_sweep_none, of "t + 4000"] by (simp add: c1_def)
  from beating_beat [OF this, of "t + 5000"]
  have "beating [(id_of k, t - 5000), (id_of (k + 1), t), (id_of (k + 2), t + 5000)] (k + 3) True 2 (on_heartbeat (t + 5000) c1)"
    by (simp add: ac_simps)
  from beating_sweep_first [OF this, of "t + 6000"]
  have "beating [(id_of (k + 1), t), (id_of (k + 2), t + 5000)] (k + 3) False 0 (sweepTimedOutRequests (t + 6000) (on_heartbeat (t + 5000) c1))"
    by (simp add: ac_simps)
  note b2 = this [THEN beating_sweep_none, of "t + 8000", THEN beating_check(2), of "t + 8500" True,
    THEN beating_sweep_none, of "t + 10000", THEN beating_beat, of "t + 10000"]
  then show ?thesis by (simp add: silent_period_def c1_def ac_simps)
qed

lemma period_steady:
  assumes "beating [(id_of k, t - 10000), (id_of (k + 1), t - 5000), (id_of (k + 2), t)] (k + 3) True 0 c"
  shows "beating [(id_of (k + 2), t), (id_of (k + 3), t + 5000), (id_of (k + 4), t + 10000)] (k + 5) True 0
    (steps js (silent_period t) c)"
proof -
  define c1 where "c1 = sweepTimedOutRequests (t + 4000) (on_heartbeat_check (t + 3500) True (sweepTimedOutRequests (t + 2000) c))"
  from beating_sweep_first [OF assms, of "t + 2000"]
  have "beating [(id_of (k + 1), t - 5000), (id_of (k + 2), t)] (k + 3) False 0 (sweepTimedOutRequests (t + 2000) c)" by (simp add: ac_simps)
  then have "beating [(id_of (k + 1), t - 5000), (id_of (k + 2), t)] (k + 3) False 0 c1"
    using beating_sweep_none [OF beating_check(2), of _ "k + 3" 0 _ "t + 4000" "t + 3500" True] by (simp add: c1_def)
  from beating_beat [OF this, of "t + 5000"]
  have "beating [(id_of (k + 1), t - 5000), (id_of (k + 2), t), (id_of (k + 3), t + 5000)] (k + 4) True 0 (on_heartbeat (t + 5000) c1)"
    by (simp add: ac_simps)
  from beating_sweep_first [OF this, of "t + 6000"]
  have "beating [(id_of (k + 2), t), (id_of (k + 3), t + 5000)] (k + 4) False 0 (sweepTimedOutRequests (t + 6000) (on_heartbeat (t + 5000) c1))"
    by (simp add: ac_simps)
  note b2 = this [THEN beating_sweep_none, of "t + 8000", THEN beating_check(2), of "t + 8500" True,
    THEN beating_sweep_none, of "t + 10000", THEN beating_beat, of "t + 10000"]
  then show ?thesis by (simp add: silent_period_def c1_def ac_simps)
qed

lemma steady_run:
  "beating [(id_of k, t - 10000), (id_of (k + 1), t - 5000), (id_of (k + 2), t)] (k + 3) True 0 c \<Longrightarrow>
   \<exists>hs k'. beating hs k' True 0 (steps js (silent_run n t) c)"
proof (induction n arbitrary: t k c)
  case (Suc n)
  have "beating [(id_of (k + 2), (t + 10000) - 10000), (id_of ((k + 2) + 1), (t + 10000) - 5000),
      (id_of ((k + 2) + 2), t + 10000)] ((k + 2) + 3) True 0 (steps js (silent_period t) c)"
    using period_steady [OF Suc.prems] by (simp add: ac_simps)
  from Suc.IH [OF this] show ?case by simp
qed auto

text \<open>
  With the default timeout the misses do not add up: with the default timeout, from a fresh
  connection on which the daemon answers nothing, the sweep times out an old ping within every
  heartbeat, its continuation counts that as a pong, and the failures never reach the three that
  would drop the connection, however long the client runs.
\<close>

theorem heartbeat_never_gives_up:
  assumes "beating [] k False 0 c"
  shows "cl_state (steps js (silent_run n t) c) = Connected
    \<and> cl_consecutiveFailures (steps js (silent_run n t) c) \<le> 1"
proof -
  have one: "beating [(id_of k, t + 5000), (id_of (k + 1), t + 10000)] (k + 2) True 1 (steps js (silent_period t) c)"
    by (rule period_first [OF assms])
  have "beating [(id_of (k + 1), t + 10000), (id_of (k + 2), t + 15000), (id_of (k + 3), t + 20000)] (k + 4) True 0
      (steps js (silent_period (t + 10000)) (steps js (silent_period t) c))"
    using period_second [of k "t + 10000" "steps js (silent_period t) c" js] one by (simp add: ac_simps)
  then have "beating [(id_of (k + 1), (t + 20000) - 10000), (id_of ((k + 1) + 1), (t + 20000) - 5000),
      (id_of ((k + 1) + 2), t + 20000)] ((k + 1) + 3) True 0
      (steps js (silent_period (t + 10000)) (steps js (silent_period t) c))"
    by (simp add: ac_simps)
  note later = steady_run [OF this]
  consider "n = 0" | "n = 1" | m where "n = Suc (Suc m)" by (metis One_nat_def not0_implies_Suc)
  then show ?thesis
  proof cases
    case 1
    then show ?thesis using assms by (simp add: beating_def)
  next
    case 2
    then show ?thesis using one by (simp add: beating_def)
  next
    case 3
    have "silent_run n t = silent_period t @ silent_period (t + 10000) @ silent_run m (t + 20000)"
      by (simp add: 3 ac_simps)
    with later [of js m] show ?thesis by (auto simp: beating_def)
  qed
qed

theorem heartbeat_never_gives_up_witness:
  "cl_state (steps (\<lambda>_. JNull) (silent_run 360 0) (on_connected client_init)) = Connected"
proof -
  have "beating [] 1 False 0 (on_connected client_init)"
    by (simp add: beating_def on_connected_def client_init_def setConnectionState_def setupAutoReconnect_def Let_def)
  from heartbeat_never_gives_up [OF this] show ?thesis by blast
qed

end
