(* ===== verification/BoundedLog.thy ===== *)
theory BoundedLog
  imports Prelude
begin

text \<open>
  The contract the daemon's histories share (\<open>AlEventHandler\<close>, \<open>RedundancyHandler\<close>,
  \<open>SignalHandler\<close>): appending to a log of bounded length drops the oldest entries. The locale
  states it over an append operation, a view of the state as a list and the states for which the
  view is meant; the theories of the histories interpret it on their own operations.
\<close>

definition push_pop :: "nat \<Rightarrow> 'x \<Rightarrow> 'x list \<Rightarrow> 'x list" where
  \<comment> \<open>\<open>log.append(x); if (log.size() > cap) log.removeFirst();\<close>\<close>
  "push_pop cap x xs = (let ys = xs @ [x] in if length ys > cap then drop 1 ys else ys)"

lemma push_pop_last_n: "length xs \<le> cap \<Longrightarrow> push_pop cap x xs = last_n cap (xs @ [x])"
proof -
  assume "length xs \<le> cap"
  then have "length xs < cap \<or> length xs = cap" by auto
  then show ?thesis by (auto simp: push_pop_def last_n_def)
qed

locale bounded_log =
  fixes push :: "'x \<Rightarrow> 's \<Rightarrow> 's"
    and log_of :: "'s \<Rightarrow> 'x list"
    and ok :: "'s \<Rightarrow> bool"
    and cap :: nat
  assumes log_length: "ok s \<Longrightarrow> length (log_of s) \<le> cap"
    and ok_push: "ok s \<Longrightarrow> ok (push x s)"
    and log_push: "ok s \<Longrightarrow> log_of (push x s) = last_n cap (log_of s @ [x])"
begin

lemma ok_pushes: "ok s \<Longrightarrow> ok (foldl (\<lambda>s x. push x s) s xs)"
  by (rule foldl_invariant) (simp_all add: ok_push)

lemma log_pushes:
  "ok s \<Longrightarrow> log_of (foldl (\<lambda>s x. push x s) s xs) = last_n cap (log_of s @ xs)"
proof (induction xs arbitrary: s)
  case Nil
  then show ?case by (simp add: log_length)
next
  case (Cons x xs)
  then show ?case by (simp add: ok_push log_push last_n_append_last_n)
qed

lemma newest_kept: "0 < cap \<Longrightarrow> ok s \<Longrightarrow> last (log_of (push x s)) = x"
  by (simp add: log_push last_n_def)

lemma log_pushes_bounded: "ok s \<Longrightarrow> length (log_of (foldl (\<lambda>s x. push x s) s xs)) \<le> cap"
  by (simp add: log_pushes)

end

end
