(* ===== verification/Backend.thy ===== *)
theory Backend
  imports EthercatTypes QtRegex JsonRpc
begin

text \<open>
  The abstract backend (\<^verbatim>\<open>src/core/EcatService.h\<close>) and its implementation over the \<open>ethercat\<close>
  command line tool (\<^verbatim>\<open>src/igh/EthercatCliBackend.cpp\<close>).

  An operation of the interface has the error out-parameter \<open>QString* error\<close>. No implementation reads
  it, so the model returns what is stored there: \<open>None\<close> where it is left alone and \<open>Some e\<close> where
  it is assigned; \<open>stored err m\<close> is the caller's variable afterwards. The state \<open>'w\<close> is the world outside
  the program. Running a process is the parameter \<open>proc\<close>, with the outcomes the code tells apart;
  the text of its channels is Latin-1, where \<open>fromLocal8Bit\<close> is the identity.
\<close>

section \<open>The interface\<close>

record 'w ecat_service =
  masterText :: "string \<Rightarrow> 'w \<Rightarrow> string \<times> string option \<times> 'w"
  scanSlaves :: "string \<Rightarrow> 'w \<Rightarrow> slave_info list \<times> string option \<times> 'w"
  slaveInfo :: "string \<Rightarrow> int \<Rightarrow> 'w \<Rightarrow> string \<times> string option \<times> 'w"
  slaveXml :: "string \<Rightarrow> int \<Rightarrow> 'w \<Rightarrow> string \<times> string option \<times> 'w"
  pdos :: "string \<Rightarrow> int \<Rightarrow> 'w \<Rightarrow> string \<times> string option \<times> 'w"
  sdos :: "string \<Rightarrow> int \<Rightarrow> 'w \<Rightarrow> string \<times> string option \<times> 'w"
  upload :: "string \<Rightarrow> int \<Rightarrow> string \<Rightarrow> string \<Rightarrow> string \<Rightarrow> 'w \<Rightarrow> string \<times> string option \<times> 'w"
  download :: "string \<Rightarrow> int \<Rightarrow> string \<Rightarrow> string \<Rightarrow> string \<Rightarrow> string \<Rightarrow> 'w \<Rightarrow> bool \<times> string option \<times> 'w"
  setState :: "string \<Rightarrow> int \<Rightarrow> string \<Rightarrow> 'w \<Rightarrow> bool \<times> string option \<times> 'w"
  setAllStates :: "string \<Rightarrow> string \<Rightarrow> 'w \<Rightarrow> bool \<times> string option \<times> 'w"
  rescan :: "string \<Rightarrow> 'w \<Rightarrow> bool \<times> string option \<times> 'w"
  hostDiagnostics :: "'w \<Rightarrow> json list \<times> string option \<times> 'w"
  isNative :: bool
  lastOperationWasFallback :: "'w \<Rightarrow> bool"
  lastFallbackReason :: "'w \<Rightarrow> string"

definition stored :: "string \<Rightarrow> string option \<Rightarrow> string" where
  "stored err m = (case m of None \<Rightarrow> err | Some e \<Rightarrow> e)"

lemma stored_simps [simp]: "stored err None = err" "stored err (Some e) = e"
  by (simp_all add: stored_def)

definition requestedMaster :: "jobject \<Rightarrow> string" where
  "requestedMaster params = trimmed (to_string_def ''0'' (jfind params ''master''))"

section \<open>Running the command line tool\<close>

datatype outcome =
    NotStarted
  | TimedOut string \<comment> \<open>with what was written before the process was killed\<close>
  | Exited int string string

type_synonym 'w proc = "string \<Rightarrow> string list \<Rightarrow> 'w \<Rightarrow> outcome \<times> 'w"

definition scoped_args :: "string \<Rightarrow> string list \<Rightarrow> string list" where
  "scoped_args master arguments =
     (let t = trimmed master in (if t \<noteq> [] then [''-m'', t] else []) @ arguments)"

definition run :: "'w proc \<Rightarrow> string \<Rightarrow> string list \<Rightarrow> 'w \<Rightarrow> string \<times> int \<times> string \<times> 'w" where
  "run proc master arguments w =
     (let (out, w') = proc ''ethercat'' (scoped_args master arguments) w
      in case out of
           NotStarted \<Rightarrow> ([], - 1, ''Failed to start ethercat CLI. Is IgH installed and in PATH?'', w')
         | TimedOut so \<Rightarrow> ([], - 1, ''Process timed out'', w')
         | Exited code so se \<Rightarrow> (so, code, trimmed se, w'))"

definition cli_text :: "'w proc \<Rightarrow> string \<Rightarrow> string list \<Rightarrow> 'w \<Rightarrow> string \<times> string option \<times> 'w" where
  \<comment> \<open>the common body of the operations that answer the tool's output\<close>
  "cli_text proc master arguments w =
     (let (text, exitCode, stdErr, w') = run proc master arguments w
      in (text, if exitCode \<noteq> 0 then Some (if stdErr = [] then text else stdErr) else None, w'))"

definition cli_bool :: "'w proc \<Rightarrow> string \<Rightarrow> string list \<Rightarrow> 'w \<Rightarrow> bool \<times> string option \<times> 'w" where
  \<comment> \<open>the common body of the operations that answer whether the tool succeeded\<close>
  "cli_bool proc master arguments w =
     (let (text, exitCode, stdErr, w') = run proc master arguments w
      in (exitCode = 0, if exitCode \<noteq> 0 then Some stdErr else None, w'))"

definition cli_masterText :: "'w proc \<Rightarrow> string \<Rightarrow> 'w \<Rightarrow> string \<times> string option \<times> 'w" where
  "cli_masterText proc master = cli_text proc master [''master'']"

definition cli_slaveInfo :: "'w proc \<Rightarrow> string \<Rightarrow> int \<Rightarrow> 'w \<Rightarrow> string \<times> string option \<times> 'w" where
  "cli_slaveInfo proc master position =
     cli_text proc master [''slaves'', ''-p'', number_int position, ''-v'']"

definition cli_slaveXml :: "'w proc \<Rightarrow> string \<Rightarrow> int \<Rightarrow> 'w \<Rightarrow> string \<times> string option \<times> 'w" where
  "cli_slaveXml proc master position = cli_text proc master [''xml'', ''-p'', number_int position]"

definition cli_pdos :: "'w proc \<Rightarrow> string \<Rightarrow> int \<Rightarrow> 'w \<Rightarrow> string \<times> string option \<times> 'w" where
  "cli_pdos proc master position = cli_text proc master [''pdos'', ''-p'', number_int position]"

definition cli_sdos :: "'w proc \<Rightarrow> string \<Rightarrow> int \<Rightarrow> 'w \<Rightarrow> string \<times> string option \<times> 'w" where
  "cli_sdos proc master position = cli_text proc master [''sdos'', ''-p'', number_int position]"

definition with_0x :: "string \<Rightarrow> string" where
  "with_0x s = (if \<not> starts_with ''0x'' s \<and> \<not> starts_with ''0X'' s then ''0x'' @ s else s)"

definition upload_args :: "int \<Rightarrow> string \<Rightarrow> string \<Rightarrow> string \<Rightarrow> string list" where
  "upload_args position index subIndex type =
     [''upload'', ''-p'', number_int position] @ (if type \<noteq> [] then [''-t'', type] else [])
     @ [with_0x index, with_0x subIndex]"

definition cli_upload ::
  "'w proc \<Rightarrow> string \<Rightarrow> int \<Rightarrow> string \<Rightarrow> string \<Rightarrow> string \<Rightarrow> 'w \<Rightarrow> string \<times> string option \<times> 'w" where
  "cli_upload proc master position index subIndex type w =
     (let (text, err, w') = cli_text proc master (upload_args position index subIndex type) w
      in (trimmed text, err, w'))"

definition download_args :: "int \<Rightarrow> string \<Rightarrow> string \<Rightarrow> string \<Rightarrow> string \<Rightarrow> string list" where
  "download_args position index subIndex value type =
     [''download'', ''-p'', number_int position]
     @ (if trimmed type \<noteq> [] then [''-t'', trimmed type] else [])
     @ [with_0x index, with_0x subIndex, value]"

definition cli_download ::
  "'w proc \<Rightarrow> string \<Rightarrow> int \<Rightarrow> string \<Rightarrow> string \<Rightarrow> string \<Rightarrow> string \<Rightarrow> 'w \<Rightarrow> bool \<times> string option \<times> 'w" where
  "cli_download proc master position index subIndex value type =
     cli_bool proc master (download_args position index subIndex value type)"

definition cli_setState :: "'w proc \<Rightarrow> string \<Rightarrow> int \<Rightarrow> string \<Rightarrow> 'w \<Rightarrow> bool \<times> string option \<times> 'w" where
  "cli_setState proc master position state =
     cli_bool proc master [''states'', ''-p'', number_int position, state]"

definition cli_setAllStates :: "'w proc \<Rightarrow> string \<Rightarrow> string \<Rightarrow> 'w \<Rightarrow> bool \<times> string option \<times> 'w" where
  "cli_setAllStates proc master state = cli_bool proc master [''states'', state]"

definition cli_rescan :: "'w proc \<Rightarrow> string \<Rightarrow> 'w \<Rightarrow> bool \<times> string option \<times> 'w" where
  "cli_rescan proc master = cli_bool proc master [''rescan'']"

section \<open>The slave table\<close>

definition slave_line_re :: "rx list" where
  \<comment> \<open>\<open>^\s*(\d+)\s+\S+\s+(\S+)\s+(\S+)\s+(.+)$\<close>\<close>
  "slave_line_re =
     [Bol, Spaces0, Grp 1 [Digits], Spaces, Many rx_nonspace 1 None, Spaces,
      Grp 2 [Many rx_nonspace 1 None], Spaces, Grp 3 [Many rx_nonspace 1 None], Spaces,
      Grp 4 [Many rx_dot 1 None], Eol]"

fun parse_lines :: "string list \<Rightarrow> slave_info list" where
  "parse_lines [] = []"
| "parse_lines (line # lines) =
     (case rx_match rx_plain slave_line_re line of
        None \<Rightarrow> parse_lines lines
      | Some m \<Rightarrow>
          \<lparr>si_position = or_zero (to_int32 (captured m 1)), si_state = captured m 2,
            si_flags = captured m 3, si_name = trimmed (captured m 4), si_raw_line = line\<rparr>
          # parse_lines lines)"

definition parseSlaves :: "string \<Rightarrow> slave_info list" where
  "parseSlaves text = parse_lines (split_skip_empty newline text)"

definition cli_scanSlaves :: "'w proc \<Rightarrow> string \<Rightarrow> 'w \<Rightarrow> slave_info list \<times> string option \<times> 'w" where
  "cli_scanSlaves proc master w =
     (let (text, exitCode, stdErr, w') = run proc master [''slaves''] w
      in (if exitCode = 0 then parseSlaves text else [],
          if exitCode \<noteq> 0 then Some (if stdErr = [] then text else stdErr) else None, w'))"

section \<open>The host\<close>

record 'w host =
  \<comment> \<open>running a process, the wall clock in milliseconds, and a time as ISO text\<close>
  hs_proc :: "'w proc"
  hs_clock :: "'w \<Rightarrow> int"
  hs_iso :: "int \<Rightarrow> string"

section \<open>The backend as a service\<close>

definition cli_service :: "'w proc \<Rightarrow> ('w \<Rightarrow> json list \<times> string option \<times> 'w) \<Rightarrow> 'w ecat_service" where
  \<comment> \<open>\<open>hostDiagnostics\<close> probes the host; it is given as an argument\<close>
  "cli_service proc diag = \<lparr>
     masterText = cli_masterText proc, scanSlaves = cli_scanSlaves proc,
     slaveInfo = cli_slaveInfo proc, slaveXml = cli_slaveXml proc, pdos = cli_pdos proc,
     sdos = cli_sdos proc, upload = cli_upload proc, download = cli_download proc,
     setState = cli_setState proc, setAllStates = cli_setAllStates proc, rescan = cli_rescan proc,
     hostDiagnostics = diag, isNative = False, lastOperationWasFallback = (\<lambda>w. False),
     lastFallbackReason = (\<lambda>w. [])\<rparr>"

lemma cli_service_simps [simp, state_simps]:
  "masterText (cli_service proc diag) = cli_masterText proc"
  "scanSlaves (cli_service proc diag) = cli_scanSlaves proc"
  "slaveInfo (cli_service proc diag) = cli_slaveInfo proc"
  "slaveXml (cli_service proc diag) = cli_slaveXml proc"
  "pdos (cli_service proc diag) = cli_pdos proc"
  "sdos (cli_service proc diag) = cli_sdos proc"
  "upload (cli_service proc diag) = cli_upload proc"
  "download (cli_service proc diag) = cli_download proc"
  "setState (cli_service proc diag) = cli_setState proc"
  "setAllStates (cli_service proc diag) = cli_setAllStates proc"
  "rescan (cli_service proc diag) = cli_rescan proc"
  "\<not> isNative (cli_service proc diag)"
  by (simp_all add: cli_service_def)

section \<open>The contract of a backend\<close>

text \<open>
  An operation that answers a flag assigns the error exactly when it fails, so that a caller that
  reports \<open>error\<close> after \<open>false\<close> reports this operation's message.
\<close>

locale ecat_contract =
  fixes svc :: "'w ecat_service"
  assumes download_error: "fst (download svc m p i s v t w) \<longleftrightarrow> fst (snd (download svc m p i s v t w)) = None"
    and setState_error: "fst (setState svc m p st w) \<longleftrightarrow> fst (snd (setState svc m p st w)) = None"
    and setAllStates_error: "fst (setAllStates svc m st w) \<longleftrightarrow> fst (snd (setAllStates svc m st w)) = None"
    and rescan_error: "fst (rescan svc m w) \<longleftrightarrow> fst (snd (rescan svc m w)) = None"
begin

lemma download_cases:
  obtains (ok) w' where "download svc m p i s v t w = (True, None, w')"
    | (fails) e w' where "download svc m p i s v t w = (False, Some e, w')"
proof (cases "download svc m p i s v t w")
  case (fields b e w')
  show thesis
    using download_error [of m p i s v t w] fields ok fails by (cases e) simp_all
qed

lemma setState_cases:
  obtains (ok) w' where "setState svc m p st w = (True, None, w')"
    | (fails) e w' where "setState svc m p st w = (False, Some e, w')"
proof (cases "setState svc m p st w")
  case (fields b e w')
  show thesis
    using setState_error [of m p st w] fields ok fails by (cases e) simp_all
qed

end

lemma cli_bool_error: "fst (cli_bool proc m a w) \<longleftrightarrow> fst (snd (cli_bool proc m a w)) = None"
  by (simp add: cli_bool_def split: prod.splits)

interpretation cli: ecat_contract "cli_service proc diag" for proc diag
  by unfold_locales
     (simp_all add: cli_download_def cli_setState_def cli_setAllStates_def cli_rescan_def
      cli_bool_error)

section \<open>The table parser on well-formed rows\<close>

record slave_row =
  row_gaps :: "nat \<times> nat \<times> nat \<times> nat \<times> nat"
  row_position :: nat
  row_alias :: string
  row_state :: string
  row_flags :: string
  row_name :: string

definition blanks :: "nat \<Rightarrow> string" where
  "blanks n = replicate n (CHR '' '')"

definition row_text :: "slave_row \<Rightarrow> string" where
  "row_text r = (case row_gaps r of (g0, g1, g2, g3, g4) \<Rightarrow>
     blanks g0 @ number_nat (row_position r) @ blanks g1 @ row_alias r @ blanks g2 @ row_state r
     @ blanks g3 @ row_flags r @ blanks g4 @ row_name r)"

definition token :: "string \<Rightarrow> bool" where
  "token s \<longleftrightarrow> s \<noteq> [] \<and> (\<forall>c \<in> set s. rx_nonspace c)"

definition row_ok :: "slave_row \<Rightarrow> bool" where
  "row_ok r \<longleftrightarrow> (case row_gaps r of (g0, g1, g2, g3, g4) \<Rightarrow>
     1 \<le> g1 \<and> 1 \<le> g2 \<and> 1 \<le> g3 \<and> 1 \<le> g4)
     \<and> row_position r < 2 ^ 31 \<and> token (row_alias r) \<and> token (row_state r) \<and> token (row_flags r)
     \<and> row_name r \<noteq> [] \<and> rx_nonspace (hd (row_name r)) \<and> newline \<notin> set (row_name r)"

definition row_slave :: "slave_row \<Rightarrow> slave_info" where
  "row_slave r = \<lparr>si_position = int (row_position r), si_state = row_state r,
     si_flags = row_flags r, si_name = trimmed (row_name r), si_raw_line = row_text r\<rparr>"

lemma rx_space_blank [simp]: "rx_space (CHR '' '')"
  by (simp add: rx_space_def code_of_def)

lemma rx_space_newline [simp]: "rx_space newline"
  by (simp add: rx_space_def code_of_def newline_def)

lemma blanks_space: "c \<in> set (blanks n) \<Longrightarrow> rx_space c"
  by (auto simp: blanks_def)

lemma newline_not_blank [simp]: "newline \<noteq> CHR '' ''"
proof
  assume "newline = CHR '' ''"
  then have "code_of newline = code_of (CHR '' '')" by simp
  then show False by (simp add: code_of_def newline_def)
qed

lemma blanks_not_newline: "newline \<notin> set (blanks n)"
  by (auto simp: blanks_def)

lemma is_digit_blank [simp]: "\<not> is_digit (CHR '' '')"
  by (simp add: is_digit_def code_of_def)

lemma is_digit_nonspace: "is_digit c \<Longrightarrow> rx_nonspace c"
  by (auto simp: is_digit_def rx_nonspace_def rx_space_def Let_def)

lemma token_number_nat: "token (number_nat n)"
  by (auto simp: token_def intro: is_digit_nonspace number_nat_digits)

lemma token_hd: "token s \<Longrightarrow> s \<noteq> [] \<and> rx_nonspace (hd s)"
  by (cases s) (auto simp: token_def)

lemma token_no_newline: "token s \<Longrightarrow> newline \<notin> set s"
  by (auto simp: token_def rx_nonspace_def)

lemma first_gap:
  "lo \<le> n \<Longrightarrow> v \<noteq> [] \<Longrightarrow> rx_nonspace (hd v) \<Longrightarrow>
   first_atom fl (Many rx_space lo None) (pre, blanks n @ v, caps) (rev (blanks n) @ pre, v, caps)"
  by (rule first_many) (auto simp: blanks_def rx_nonspace_def)

lemma first_gap_token:
  "lo \<le> n \<Longrightarrow> token x \<Longrightarrow>
   first_atom fl (Many rx_space lo None) (pre, blanks n @ x @ v, caps) (rev (blanks n) @ pre, x @ v, caps)"
  using token_hd [of x] by (intro first_gap) auto

lemma first_token:
  "token u \<Longrightarrow> 1 \<le> n \<Longrightarrow>
   first_atom fl (Many rx_nonspace 1 None) (pre, u @ blanks n @ v, caps)
     (rev u @ pre, blanks n @ v, caps)"
  by (rule first_many) (auto simp: token_def blanks_def rx_nonspace_def Suc_le_eq)

lemma first_token_grp:
  assumes "token u" and "1 \<le> n"
  shows "first_atom fl (Grp k [Many rx_nonspace 1 None]) (pre, u @ blanks n @ v, caps)
     (rev u @ pre, blanks n @ v, (k, u) # caps)"
  by (rule first_grp) (rule first_match_Cons [OF first_token [OF assms]], simp)

lemma first_number_grp:
  assumes "1 \<le> n"
  shows "first_atom fl (Grp k [Digits]) (pre, number_nat p @ blanks n @ v, caps)
     (rev (number_nat p) @ pre, blanks n @ v, (k, number_nat p) # caps)"
proof (rule first_grp, rule first_match_Cons)
  show "first_atom fl Digits (pre, number_nat p @ blanks n @ v, caps)
     (rev (number_nat p) @ pre, blanks n @ v, caps)"
    by (rule first_many) (use assms in \<open>auto simp: number_nat_digits blanks_def Suc_le_eq\<close>)
qed simp

lemma first_rest_grp:
  assumes "u \<noteq> []" and "newline \<notin> set u"
  shows "first_match fl [Grp k [Many rx_dot 1 None], Eol] (pre, u, caps)
     (rev u @ pre, [], (k, u) # caps)"
proof -
  have "first_atom fl (Many rx_dot 1 None) (pre, u @ [], caps) (rev u @ pre, [], caps)"
    by (rule first_many) (use assms in \<open>auto simp: rx_dot_def Suc_le_eq\<close>)
  then have "first_match fl [Many rx_dot 1 None] (pre, u @ [], caps) (rev u @ pre, [], caps)"
    by (rule first_match_Cons) simp
  from first_grp [OF this]
  have "first_atom fl (Grp k [Many rx_dot 1 None]) (pre, u, caps) (rev u @ pre, [], (k, u) # caps)"
    by simp
  then show ?thesis by (rule first_match_Cons) (rule first_match_Cons [OF first_eol], simp)
qed

lemma slave_line_match:
  assumes "row_ok r"
  obtains m where "rx_match rx_plain slave_line_re (row_text r) = Some m"
    and "captured m 1 = number_nat (row_position r)" and "captured m 2 = row_state r"
    and "captured m 3 = row_flags r" and "captured m 4 = row_name r"
proof -
  obtain g0 g1 g2 g3 g4 where g: "row_gaps r = (g0, g1, g2, g3, g4)" by (cases "row_gaps r")
  let ?p = "number_nat (row_position r)"
  have a: "token (row_alias r)" "token (row_state r)" "token (row_flags r)"
    "1 \<le> g1" "1 \<le> g2" "1 \<le> g3" "1 \<le> g4" "row_name r \<noteq> []" "rx_nonspace (hd (row_name r))"
    "newline \<notin> set (row_name r)"
    using assms g by (auto simp: row_ok_def)
  let ?caps = "[(4, row_name r), (3, row_flags r), (2, row_state r), (1::nat, ?p)]"
  have "\<exists>pre. first_match rx_plain slave_line_re ([], row_text r, []) (pre, [], ?caps)"
    unfolding slave_line_re_def row_text_def g prod.case
    by (intro exI)
       (rule first_match_Cons [OF first_bol], rule first_match_Cons [OF first_gap_token], simp,
        rule token_number_nat, rule first_match_Cons [OF first_number_grp], rule a(4),
        rule first_match_Cons [OF first_gap_token], rule a(4), rule a(1),
        rule first_match_Cons [OF first_token], rule a(1), rule a(5),
        rule first_match_Cons [OF first_gap_token], rule a(5), rule a(2),
        rule first_match_Cons [OF first_token_grp], rule a(2), rule a(6),
        rule first_match_Cons [OF first_gap_token], rule a(6), rule a(3),
        rule first_match_Cons [OF first_token_grp], rule a(3), rule a(7),
        rule first_match_Cons [OF first_gap], rule a(7), rule a(8), rule a(9),
        rule first_rest_grp, rule a(8), rule a(10))
  then obtain pre where
    m: "rx_match rx_plain slave_line_re (row_text r) = Some (pre, [], ?caps)"
    using rx_match_first by blast
  show thesis by (rule that [OF m]) (simp_all add: captured_def)
qed

lemma row_text_one_line: "row_ok r \<Longrightarrow> newline \<notin> set (row_text r) \<and> row_text r \<noteq> []"
  using token_no_newline [OF token_number_nat]
  by (auto simp: row_ok_def row_text_def blanks_not_newline dest: token_no_newline split: prod.splits)

lemma split_rows:
  "\<forall>r \<in> set rows. row_ok r \<Longrightarrow>
   split_skip_empty newline (concat (map (\<lambda>r. row_text r @ [newline]) rows)) = map row_text rows"
proof (induction rows)
  case (Cons r rows)
  then have "newline \<notin> set (row_text r)" and "row_text r \<noteq> []"
    using row_text_one_line [of r] by auto
  with Cons show ?case by (simp add: split_skip_empty_def split_on_append)
qed (simp add: split_skip_empty_def)

lemma parse_rows: "\<forall>r \<in> set rows. row_ok r \<Longrightarrow> parse_lines (map row_text rows) = map row_slave rows"
proof (induction rows)
  case (Cons r rows)
  then have ok: "row_ok r" by simp
  from slave_line_match [OF ok] obtain m where m:
    "rx_match rx_plain slave_line_re (row_text r) = Some m"
    "captured m 1 = number_nat (row_position r)" "captured m 2 = row_state r"
    "captured m 3 = row_flags r" "captured m 4 = row_name r" .
  have "row_position r < 2 ^ 31" using ok by (simp add: row_ok_def)
  with m Cons show ?case by (simp add: row_slave_def)
qed simp

text \<open>
  Claim C30 (roundtrip). The scan of the CLI backend reads every row of the tool's slave table: for
  a table whose rows have a position, an alias, a state, flags and a name, in columns separated by
  any number of blanks, the answer is one slave per row, in order, with the row's position, state
  and flags, the trimmed name and the row itself; no error is stored.
\<close>

theorem scan_reads_table:
  assumes "\<forall>r \<in> set rows. row_ok r"
    and "proc ''ethercat'' (scoped_args master [''slaves'']) w
      = (Exited 0 (concat (map (\<lambda>r. row_text r @ [newline]) rows)) se, w')"
  shows "cli_scanSlaves proc master w = (map row_slave rows, None, w')"
  using assms by (simp add: cli_scanSlaves_def run_def parseSlaves_def split_rows parse_rows)

definition demo_row :: slave_row where
  "demo_row = \<lparr>row_gaps = (0, 2, 2, 2, 2), row_position = 7, row_alias = ''0:7'', row_state = ''PREOP'',
     row_flags = ''E'', row_name = ''EL3162 Ch.''\<rparr>"

theorem scan_reads_table_witness:
  "cli_scanSlaves (\<lambda>prog args w. (Exited 0 (row_text demo_row @ [newline]) [], w)) ''0'' ()
     = ([row_slave demo_row], None, ())"
proof -
  have "row_ok demo_row"
    by (simp add: row_ok_def demo_row_def token_def rx_nonspace_def rx_space_def code_of_def
        newline_def char_of_def of_char_def)
  then show ?thesis
    using scan_reads_table [of "[demo_row]" "\<lambda>prog args w. (Exited 0 (row_text demo_row @ [newline]) [], w)"
        "''0''" "()" "[]" "()"]
    by simp
qed

end
