(* ===== verification/AlEventHandler.thy ===== *)
theory AlEventHandler
  imports BoundedLog Backend
begin

text \<open>
  \<^verbatim>\<open>apps/ecatd/handlers/AlEventHandler.{h,cpp}\<close>: the log of AL status changes, filled once a second from
  the output of \<open>ethercat slaves\<close>. The output of the shell and the clock are arguments of \<open>poll\<close>.
\<close>

section \<open>State and operations\<close>

record al_event =
  ae_timestampMs :: int
  ae_slave :: nat
  ae_slaveName :: string
  ae_alStatusCode :: string
  ae_description :: string
  ae_severity :: string

record al_handler =
  al_events :: "al_event list"
  al_previous :: "string list"

definition kMaxEvents :: nat where "kMaxEvents = 1000"

definition al_init :: al_handler where
  "al_init = \<lparr>al_events = [], al_previous = []\<rparr>"

definition resize_to :: "nat \<Rightarrow> string list \<Rightarrow> string list" where
  \<comment> \<open>\<open>if (pos >= v.size()) v.resize(pos + 1)\<close>: new elements are empty strings\<close>
  "resize_to pos v = (if length v \<le> pos then v @ replicate (Suc pos - length v) [] else v)"

definition healthy :: "string \<Rightarrow> bool" where
  "healthy state \<longleftrightarrow> state = ''OP'' \<or> state = ''SAFEOP'' \<or> state = ''PREOP''"

definition al_event_of :: "int \<Rightarrow> nat \<Rightarrow> string list \<Rightarrow> al_event" where
  "al_event_of now pos parts =
     (let state = parts ! 2 in
      \<lparr>ae_timestampMs = now, ae_slave = pos,
        ae_slaveName = (if length parts > 4 then parts ! 4 else []),
        ae_alStatusCode = state,
        ae_description = ''Slave '' @ number_nat pos @ '' in '' @ state @ '' state'',
        ae_severity = (if state = ''INIT'' then ''Error'' else ''Warning'')\<rparr>)"

fun poll_lines :: "int \<Rightarrow> nat \<Rightarrow> string list \<Rightarrow> string list \<Rightarrow> al_event list \<times> string list" where
  \<comment> \<open>the loop of \<open>pollSlaveAlStatus\<close>: position, remaining lines, previous states\<close>
  "poll_lines now pos [] prev = ([], prev)"
| "poll_lines now pos (line # lines) prev =
     (let parts = split_space [] line
      in if length parts < 4 then poll_lines now (Suc pos) lines prev
         else
           let state = parts ! 2;
               prev1 = resize_to pos prev;
               changed = (prev1 ! pos \<noteq> state);
               (evs, prev2) = poll_lines now (Suc pos) lines (prev1[pos := state])
           in (if changed \<and> \<not> healthy state then al_event_of now pos parts # evs else evs, prev2))"

definition pollSlaveAlStatus :: "int \<Rightarrow> string \<Rightarrow> string list \<Rightarrow> al_event list \<times> string list" where
  "pollSlaveAlStatus now output prev =
     (if output = [] then ([], prev) else poll_lines now 0 (split_skip_empty newline output) prev)"

definition addEvent :: "al_event \<Rightarrow> al_handler \<Rightarrow> al_handler" where
  "addEvent e s = s\<lparr>al_events := push_pop kMaxEvents e (al_events s)\<rparr>"

definition poll :: "int \<Rightarrow> string \<Rightarrow> al_handler \<Rightarrow> al_handler" where
  "poll now output s =
     (let (evs, prev) = pollSlaveAlStatus now output (al_previous s)
      in foldl (\<lambda>s e. addEvent e s) (s\<lparr>al_previous := prev\<rparr>) evs)"

definition clear :: "al_handler \<Rightarrow> al_handler" where
  "clear s = s\<lparr>al_events := [], al_previous := []\<rparr>"

definition al_event_json :: "al_event \<Rightarrow> json" where
  "al_event_json e = JObj [(''timestamp'', jint (ae_timestampMs e)), (''slave'', jnat (ae_slave e)),
     (''slaveName'', JStr (ae_slaveName e)), (''code'', JStr (ae_alStatusCode e)),
     (''description'', JStr (ae_description e)), (''severity'', JStr (ae_severity e))]"

definition from_limit :: "int \<Rightarrow> 'x list \<Rightarrow> 'x list" where
  \<comment> \<open>the elements from \<open>qMax(0, size - limit)\<close> on\<close>
  "from_limit limit xs = drop (nat (max 0 (int (length xs) - limit))) xs"

definition handle_al :: "string \<Rightarrow> jobject \<Rightarrow> al_handler \<Rightarrow> json \<times> al_handler" where
  "handle_al rid params s =
     (let limit = to_int_def 100 (jfind params ''limit'')
      in (JObj [(''id'', JStr rid), (''ok'', JBool True),
            (''result'', JObj [(''events'', JArr (map al_event_json (from_limit limit (al_events s)))),
                            (''total'', jnat (length (al_events s)))])], s))"

section \<open>The log\<close>

lemma from_limit_last_n: "0 \<le> limit \<Longrightarrow> from_limit limit xs = last_n (nat limit) xs"
proof -
  assume "0 \<le> limit"
  then have "nat (max 0 (int (length xs) - limit)) = length xs - nat limit" by linarith
  then show ?thesis by (simp add: from_limit_def last_n_def)
qed

interpretation al_log: bounded_log addEvent al_events "\<lambda>s. length (al_events s) \<le> kMaxEvents" kMaxEvents
  by unfold_locales (simp_all add: addEvent_def push_pop_last_n)

interpretation al_handle: rpc_handler handle_al
  by unfold_locales (simp add: handle_al_def well_formed_response_def is_success_def Let_def)

lemma addEvent_previous [simp]: "al_previous (addEvent e s) = al_previous s"
  by (simp add: addEvent_def)

lemma addEvents_previous [simp]: "al_previous (foldl (\<lambda>s e. addEvent e s) s evs) = al_previous s"
  by (induction evs arbitrary: s) simp_all

lemma poll_log:
  "length (al_events s) \<le> kMaxEvents \<Longrightarrow>
   al_events (poll now output s)
     = last_n kMaxEvents (al_events s @ fst (pollSlaveAlStatus now output (al_previous s)))"
  using al_log.log_pushes [of "s\<lparr>al_previous := p\<rparr>" for p]
  by (simp add: poll_def split: prod.splits)

lemma poll_previous: "al_previous (poll now output s) = snd (pollSlaveAlStatus now output (al_previous s))"
  by (simp add: poll_def split: prod.splits)

datatype al_op = AlPoll int string | AlClear | AlAdd al_event

fun al_step :: "al_handler \<Rightarrow> al_op \<Rightarrow> al_handler" where
  "al_step s (AlPoll now output) = poll now output s"
| "al_step s AlClear = clear s"
| "al_step s (AlAdd e) = addEvent e s"

text \<open>
  After any sequence of polls, clears and added events, the log holds at most
  \<open>kMaxEvents\<close> entries, and a request with a limit that is not negative is answered with the newest
  entries up to that limit.
\<close>

theorem al_log_bounded_and_newest:
  assumes "s = foldl al_step al_init ops" and "to_int_def 100 (jfind params ''limit'') = limit"
    and "0 \<le> limit"
  shows "length (al_events s) \<le> kMaxEvents
     \<and> to_array (jfind (result_of (fst (handle_al rid params s))) ''events'')
         = map al_event_json (last_n (nat limit) (al_events s))"
proof -
  have step: "length (al_events (al_step s p)) \<le> kMaxEvents" if "length (al_events s) \<le> kMaxEvents" for s p
    using that al_log.ok_push [of s] by (cases p) (simp_all add: poll_log clear_def)
  have "length (al_events s) \<le> kMaxEvents"
    unfolding assms(1) by (rule foldl_invariant) (simp_all add: al_init_def step)
  then show ?thesis
    using assms(2,3) by (simp add: handle_al_def Let_def from_limit_last_n result_of_def)
qed

theorem al_log_bounded_and_newest_witness:
  "to_array (jfind (result_of (fst (handle_al ''r'' [(''limit'', jint 1)]
      (foldl al_step al_init [AlAdd (al_event_of 1 0 [''0'', ''0:0'', ''INIT'', ''+'', ''A'']),
         AlAdd (al_event_of 2 1 [''1'', ''0:1'', ''INIT'', ''+'', ''B''])])))) ''events'')
     = [al_event_json (al_event_of 2 1 [''1'', ''0:1'', ''INIT'', ''+'', ''B''])]"
proof -
  have l: "to_int_def 100 (jfind [(''limit'', jint 1)] ''limit'') = 1" by simp
  have k: "push_pop kMaxEvents x [] = [x]" "push_pop kMaxEvents x [y] = [y, x]" for x y :: al_event
    by (simp_all add: push_pop_def kMaxEvents_def)
  from al_log_bounded_and_newest [OF refl l, where rid = "''r''"
      and ops = "[AlAdd (al_event_of 1 0 [''0'', ''0:0'', ''INIT'', ''+'', ''A'']),
         AlAdd (al_event_of 2 1 [''1'', ''0:1'', ''INIT'', ''+'', ''B''])]"] show ?thesis
    by (simp add: addEvent_def al_init_def k last_n_def)
qed

section \<open>Which events a poll adds\<close>

text \<open>
  The same loop over the previous states as a function of the position, which the resizing list
  implements: positions beyond the list read as the empty state.
\<close>

definition prev_at :: "string list \<Rightarrow> nat \<Rightarrow> string" where
  "prev_at prev k = (if k < length prev then prev ! k else [])"

definition row_status :: "string \<Rightarrow> string option" where
  "row_status line = (let parts = split_space [] line in if length parts < 4 then None else Some (parts ! 2))"

definition reports :: "(nat \<Rightarrow> string) \<Rightarrow> nat \<Rightarrow> string \<Rightarrow> bool" where
  "reports P pos line = (case row_status line of None \<Rightarrow> False | Some st \<Rightarrow> P pos \<noteq> st \<and> \<not> healthy st)"

definition observe :: "(nat \<Rightarrow> string) \<Rightarrow> nat \<Rightarrow> string \<Rightarrow> nat \<Rightarrow> string" where
  "observe P pos line = (case row_status line of None \<Rightarrow> P | Some st \<Rightarrow> P(pos := st))"

fun poll_rows :: "int \<Rightarrow> nat \<Rightarrow> string list \<Rightarrow> (nat \<Rightarrow> string) \<Rightarrow> al_event list \<times> (nat \<Rightarrow> string)" where
  "poll_rows now pos [] P = ([], P)"
| "poll_rows now pos (line # lines) P =
     (let (evs, Q) = poll_rows now (Suc pos) lines (observe P pos line)
      in (if reports P pos line then al_event_of now pos (split_space [] line) # evs else evs, Q))"

lemma prev_at_update: "prev_at ((resize_to pos prev)[pos := st]) = (prev_at prev)(pos := st)"
  by (rule ext) (auto simp: prev_at_def resize_to_def nth_append nth_list_update)

lemma nth_resize_to: "resize_to pos prev ! pos = prev_at prev pos"
  by (auto simp: resize_to_def nth_append prev_at_def)

lemma poll_lines_rows:
  "fst (poll_lines now pos lines prev) = fst (poll_rows now pos lines (prev_at prev))
   \<and> prev_at (snd (poll_lines now pos lines prev)) = snd (poll_rows now pos lines (prev_at prev))"
proof (induction lines arbitrary: pos prev)
  case (Cons line lines)
  show ?case
  proof (cases "length (split_space [] line) < 4")
    case True
    with Cons [of "Suc pos" prev] show ?thesis
      by (simp add: observe_def reports_def row_status_def case_prod_beta)
  next
    case False
    with Cons [of "Suc pos" "(resize_to pos prev)[pos := split_space [] line ! 2]"] show ?thesis
      by (simp add: observe_def reports_def row_status_def case_prod_beta prev_at_update
          nth_resize_to Let_def fun_upd_def)
  qed
qed simp

lemma poll_rows_below: "k < pos \<Longrightarrow> snd (poll_rows now pos lines P) k = P k"
proof (induction lines arbitrary: pos P)
  case (Cons line lines)
  then show ?case by (simp add: case_prod_beta Let_def observe_def split: option.splits)
qed simp

lemma reports_agree: "P pos = Q pos \<Longrightarrow> reports P pos line = reports Q pos line"
  by (simp add: reports_def split: option.splits)

lemma observe_other: "k \<noteq> pos \<Longrightarrow> observe P pos line k = P k"
  by (simp add: observe_def split: option.splits)

lemma poll_rows_events:
  "set (fst (poll_rows now pos lines P)) =
     {al_event_of now (pos + i) (split_space [] (lines ! i)) |i. i < length lines \<and> reports P (pos + i) (lines ! i)}"
    (is "_ = ?E pos lines P")
proof (induction lines arbitrary: pos P)
  case (Cons line lines)
  have same: "reports (observe P pos line) (Suc pos + i) l = reports P (Suc pos + i) l" for i l
    by (rule reports_agree) (simp add: observe_other)
  have "?E pos (line # lines) P =
      (if reports P pos line then {al_event_of now pos (split_space [] line)} else {})
      \<union> ?E (Suc pos) lines P"
    using Collect_less_Suc [of "\<lambda>i. al_event_of now (pos + i) (split_space [] ((line # lines) ! i))"
        "length lines" "\<lambda>i. reports P (pos + i) ((line # lines) ! i)"] by simp
  with Cons [of "Suc pos" "observe P pos line"] same show ?case
    by (simp add: case_prod_beta Let_def)
qed simp

lemma poll_rows_settled:
  "snd (poll_rows now pos lines P) = Q \<Longrightarrow> i < length lines \<Longrightarrow> \<not> reports Q (pos + i) (lines ! i)"
proof (induction lines arbitrary: pos P i)
  case (Cons line lines)
  have q: "snd (poll_rows now (Suc pos) lines (observe P pos line)) = Q"
    using Cons.prems(1) by (simp add: case_prod_beta Let_def)
  show ?case
  proof (cases i)
    case 0
    have "Q pos = observe P pos line pos"
      using q poll_rows_below [of pos "Suc pos"] by auto
    with 0 show ?thesis by (simp add: reports_def observe_def split: option.splits)
  next
    case (Suc j)
    with Cons.IH [OF q, of j] Cons.prems(2) show ?thesis by simp
  qed
qed simp

text \<open>
  One poll reports exactly the rows that carry an AL state, changed since
  the previous observation of that position and not healthy; a further poll with unchanged output
  reports nothing.
\<close>

theorem al_poll_reports_changes:
  "(let lines = split_skip_empty newline output in
      set (fst (pollSlaveAlStatus now output prev)) =
        {al_event_of now i (split_space [] (lines ! i)) |i. i < length lines \<and> reports (prev_at prev) i (lines ! i)})
   \<and> fst (pollSlaveAlStatus later output (snd (pollSlaveAlStatus now output prev))) = []"
proof (cases "output = []")
  case True
  then show ?thesis by (simp add: pollSlaveAlStatus_def split_skip_empty_def)
next
  case False
  let ?lines = "split_skip_empty newline output"
  let ?prev = "snd (poll_lines now 0 ?lines prev)"
  have "prev_at ?prev = snd (poll_rows now 0 ?lines (prev_at prev))"
    using poll_lines_rows by blast
  then have "\<not> reports (prev_at ?prev) (0 + i) (?lines ! i)" if "i < length ?lines" for i
    using poll_rows_settled that by metis
  then have "set (fst (poll_rows later 0 ?lines (prev_at ?prev))) = {}"
    by (auto simp: poll_rows_events)
  then have "fst (poll_lines later 0 ?lines ?prev) = []"
    using poll_lines_rows by simp
  moreover have "fst (poll_lines now 0 ?lines prev) = fst (poll_rows now 0 ?lines (prev_at prev))"
    using poll_lines_rows by blast
  ultimately show ?thesis
    using False by (simp add: pollSlaveAlStatus_def poll_rows_events)
qed

end
