(* ===== verification/SignalHandler.thy ===== *)
theory SignalHandler
  imports BoundedLog JsonRpc
begin

text \<open>
  \<^verbatim>\<open>apps/ecatd/handlers/SignalHandler.{h,cpp}\<close>: the sample buffers of the subscribed signal channels.
  The mutex makes each operation one step. Sample values are rationals and timestamps integers;
  the channel counter is a C++ \<open>int\<close>, which does not wrap below $2^{31}$ subscriptions.
\<close>

section \<open>State and operations\<close>

record signal_sample =
  ss_value :: rat
  ss_timestampMs :: int

record signal_channel =
  ch_id :: int
  ch_name :: string
  ch_slave :: int
  ch_index :: string
  ch_subIndex :: string
  ch_samples :: "signal_sample list"
  ch_maxSamples :: nat

record signal_handler =
  sg_channels :: "signal_channel list"
  sg_nextChannelId :: int

definition kMaxSamples :: nat where "kMaxSamples = 10000"

definition signal_init :: signal_handler where
  "signal_init = \<lparr>sg_channels = [], sg_nextChannelId = 1\<rparr>"

definition subscribe :: "string \<Rightarrow> int \<Rightarrow> string \<Rightarrow> string \<Rightarrow> signal_handler \<Rightarrow> int \<times> signal_handler" where
  "subscribe name slave index subIndex s =
     (let ch = \<lparr>ch_id = sg_nextChannelId s, ch_name = name, ch_slave = slave, ch_index = index,
                ch_subIndex = subIndex, ch_samples = [], ch_maxSamples = kMaxSamples\<rparr>
      in (ch_id ch, \<lparr>sg_channels = sg_channels s @ [ch], sg_nextChannelId = sg_nextChannelId s + 1\<rparr>))"

fun remove_channel :: "int \<Rightarrow> signal_channel list \<Rightarrow> signal_channel list" where
  "remove_channel cid [] = []"
| "remove_channel cid (ch # chs) = (if ch_id ch = cid then chs else ch # remove_channel cid chs)"

definition unsubscribe :: "int \<Rightarrow> signal_handler \<Rightarrow> signal_handler" where
  "unsubscribe cid s = s\<lparr>sg_channels := remove_channel cid (sg_channels s)\<rparr>"

fun evict :: "nat \<Rightarrow> 'x list \<Rightarrow> 'x list" where
  \<comment> \<open>\<open>while (samples.size() > maxSamples) samples.removeFirst();\<close>\<close>
  "evict cap xs = (if cap < length xs then evict cap (tl xs) else xs)"

declare evict.simps [simp del]

definition push_sample :: "signal_sample \<Rightarrow> signal_channel \<Rightarrow> signal_channel" where
  "push_sample x ch = ch\<lparr>ch_samples := evict (ch_maxSamples ch) (ch_samples ch @ [x])\<rparr>"

fun push_channels :: "int \<Rightarrow> signal_sample \<Rightarrow> signal_channel list \<Rightarrow> signal_channel list" where
  "push_channels cid x [] = []"
| "push_channels cid x (ch # chs) =
     (if ch_id ch = cid then push_sample x ch # chs else ch # push_channels cid x chs)"

definition push :: "int \<Rightarrow> signal_sample \<Rightarrow> signal_handler \<Rightarrow> signal_handler" where
  "push cid x s = s\<lparr>sg_channels := push_channels cid x (sg_channels s)\<rparr>"

definition to_int64 :: "rat \<Rightarrow> int" where
  \<comment> \<open>\<open>static_cast<int64_t>\<close> truncates; the value is in range for every timestamp\<close>
  "to_int64 r = (if 0 \<le> r then \<lfloor>r\<rfloor> else \<lceil>r\<rceil>)"

definition sample_json :: "signal_sample \<Rightarrow> json" where
  "sample_json x = JObj [(''value'', JNum (ss_value x)), (''ts'', jint (ss_timestampMs x))]"

definition newer :: "int \<Rightarrow> signal_sample list \<Rightarrow> signal_sample list" where
  "newer since xs = filter (\<lambda>x. \<not> (since > 0 \<and> ss_timestampMs x \<le> since)) xs"

definition channel_json :: "int \<Rightarrow> signal_channel \<Rightarrow> json" where
  "channel_json since ch =
     JObj [(''id'', jint (ch_id ch)), (''name'', JStr (ch_name ch)),
           (''samples'', JArr (map sample_json (newer since (ch_samples ch))))]"

definition handlePoll :: "string \<Rightarrow> jobject \<Rightarrow> signal_handler \<Rightarrow> json \<times> signal_handler" where
  "handlePoll rid params s =
     (let since = to_int64 (to_double_def 0 (jfind params ''since''))
      in (success rid [(''channels'', JArr (map (channel_json since) (sg_channels s)))], s))"

section \<open>The buffer of a channel\<close>

lemma evict_last_n: "evict cap xs = last_n cap xs"
proof (induction cap xs rule: evict.induct)
  case (1 cap xs)
  show ?case
  proof (cases "cap < length xs")
    case True
    then have "evict cap xs = last_n cap (tl xs)" using 1 by (simp add: evict.simps [of cap xs])
    also have "\<dots> = last_n cap xs"
      using True by (cases xs) (simp_all add: last_n_def Suc_diff_le)
    finally show ?thesis .
  qed (simp add: evict.simps [of cap xs])
qed

interpretation samples: bounded_log "\<lambda>x xs. evict kMaxSamples (xs @ [x])" "\<lambda>xs. xs"
    "\<lambda>xs. length xs \<le> kMaxSamples" kMaxSamples
  by unfold_locales (simp_all add: evict_last_n)

definition channel_of :: "int \<Rightarrow> signal_handler \<Rightarrow> signal_channel option" where
  "channel_of cid s = find (\<lambda>ch. ch_id ch = cid) (sg_channels s)"

definition samples_of :: "int \<Rightarrow> signal_handler \<Rightarrow> signal_sample list" where
  "samples_of cid s = (case channel_of cid s of None \<Rightarrow> [] | Some ch \<Rightarrow> ch_samples ch)"

definition signal_inv :: "signal_handler \<Rightarrow> bool" where
  "signal_inv s \<longleftrightarrow> distinct (map ch_id (sg_channels s))
     \<and> (\<forall>ch \<in> set (sg_channels s). ch_id ch < sg_nextChannelId s
          \<and> ch_maxSamples ch = kMaxSamples \<and> length (ch_samples ch) \<le> kMaxSamples)"

lemma push_sample_keeps [simp]:
  "ch_id (push_sample x ch) = ch_id ch" "ch_name (push_sample x ch) = ch_name ch"
  "ch_maxSamples (push_sample x ch) = ch_maxSamples ch"
  by (simp_all add: push_sample_def)

lemma push_channels_ids [simp]: "map ch_id (push_channels cid x chs) = map ch_id chs"
  by (induction chs) auto

lemma push_channels_in:
  "ch \<in> set (push_channels cid x chs) \<Longrightarrow> ch \<in> set chs \<or> (\<exists>c \<in> set chs. ch = push_sample x c)"
  by (induction chs) (auto split: if_splits)

lemma remove_channel_subset: "set (remove_channel cid chs) \<subseteq> set chs"
  by (induction chs) auto

lemma remove_channel_distinct:
  "distinct (map ch_id chs) \<Longrightarrow>
   distinct (map ch_id (remove_channel cid chs)) \<and> cid \<notin> ch_id ` set (remove_channel cid chs)"
proof (induction chs)
  case (Cons c chs)
  then show ?case using remove_channel_subset [of cid chs] by auto
qed simp

lemma find_push:
  "find (\<lambda>ch. ch_id ch = c) (push_channels cid x chs) =
     (if c = cid then map_option (push_sample x) (find (\<lambda>ch. ch_id ch = c) chs)
      else find (\<lambda>ch. ch_id ch = c) chs)"
  by (induction chs) auto

lemma channel_of_push [simp, state_simps]:
  "channel_of c (push cid x s) =
     (if c = cid then map_option (push_sample x) (channel_of c s) else channel_of c s)"
  by (simp add: channel_of_def push_def find_push)

section \<open>Properties\<close>

lemma subscribe_inv: "signal_inv s \<Longrightarrow> signal_inv (snd (subscribe n sl i si s))"
  by (auto simp: signal_inv_def subscribe_def Let_def)

lemma unsubscribe_inv: "signal_inv s \<Longrightarrow> signal_inv (unsubscribe cid s)"
  using remove_channel_subset [of cid "sg_channels s"]
    remove_channel_distinct [of "sg_channels s" cid]
  by (auto simp: signal_inv_def unsubscribe_def)

lemma push_inv: "signal_inv s \<Longrightarrow> signal_inv (push cid x s)"
  by (auto simp: signal_inv_def push_def push_sample_def evict_last_n dest!: push_channels_in)

datatype signal_op =
    Subscribe string int string string
  | Unsubscribe int
  | Push int signal_sample

fun signal_step :: "signal_handler \<Rightarrow> signal_op \<Rightarrow> signal_handler" where
  "signal_step s (Subscribe n sl i si) = snd (subscribe n sl i si s)"
| "signal_step s (Unsubscribe cid) = unsubscribe cid s"
| "signal_step s (Push cid x) = push cid x s"

lemma signal_step_inv: "signal_inv s \<Longrightarrow> signal_inv (signal_step s p)"
  by (cases p) (simp_all add: subscribe_inv unsubscribe_inv push_inv)

text \<open>
  Whatever the order of subscriptions, cancellations and samples, channel ids
  stay distinct and below the next id, so a new subscription never shares its id with a live
  channel, and no channel holds more than \<open>kMaxSamples\<close> samples.
\<close>

theorem signal_handler_invariant:
  "signal_inv (foldl signal_step signal_init ops)
   \<and> fst (subscribe n sl i si (foldl signal_step signal_init ops))
       \<notin> ch_id ` set (sg_channels (foldl signal_step signal_init ops))"
proof -
  have "signal_inv signal_init" by (simp add: signal_inv_def signal_init_def)
  then have "signal_inv (foldl signal_step signal_init ops)"
    using foldl_invariant [of signal_inv signal_init ops signal_step] signal_step_inv by blast
  then show ?thesis by (auto simp: signal_inv_def subscribe_def Let_def)
qed

definition pushes_for :: "int \<Rightarrow> (int \<times> signal_sample) list \<Rightarrow> signal_sample list" where
  "pushes_for cid ps = map snd (filter (\<lambda>p. fst p = cid) ps)"

lemma channel_of_max: "signal_inv s \<Longrightarrow> channel_of cid s = Some ch \<Longrightarrow>
    ch_maxSamples ch = kMaxSamples \<and> length (ch_samples ch) \<le> kMaxSamples"
  by (auto simp: signal_inv_def channel_of_def find_Some_iff)

lemma pushes_channel:
  assumes "signal_inv s" and "channel_of cid s = Some ch"
  shows "\<exists>ch'. channel_of cid (foldl (\<lambda>s (c, x). push c x s) s ps) = Some ch'
     \<and> ch_name ch' = ch_name ch \<and> ch_samples ch' = last_n kMaxSamples (ch_samples ch @ pushes_for cid ps)"
  using assms
proof (induction ps arbitrary: s ch)
  case Nil
  then show ?case using channel_of_max by (simp add: pushes_for_def)
next
  case (Cons p ps)
  obtain c x where p: "p = (c, x)" by (cases p)
  have inv: "signal_inv (push c x s)" using Cons.prems(1) by (rule push_inv)
  show ?case
  proof (cases "c = cid")
    case True
    with Cons.prems(2) have "channel_of cid (push c x s) = Some (push_sample x ch)" by simp
    from Cons.IH [OF inv this] True channel_of_max [OF Cons.prems] show ?thesis
      by (auto simp: p pushes_for_def push_sample_def evict_last_n last_n_append_last_n)
  next
    case False
    with Cons.prems(2) have "channel_of cid (push c x s) = Some ch" by simp
    from Cons.IH [OF inv this] False show ?thesis by (auto simp: p pushes_for_def)
  qed
qed

text \<open>
  Claim C31 (functional). A poll answers, for every subscribed channel, exactly the newest
  \<open>kMaxSamples\<close> of the samples pushed to that channel, in the order they came and unmixed with those
  of other channels, less those not after \<open>since\<close>.
\<close>

theorem poll_answers_newest_samples:
  assumes "signal_inv s" and "channel_of cid s = Some ch"
    and "s' = foldl (\<lambda>s (c, x). push c x s) s ps"
    and "since = to_int64 (to_double_def 0 (jfind params ''since''))"
  shows "JObj [(''id'', jint cid), (''name'', JStr (ch_name ch)),
             (''samples'', JArr (map sample_json
                (newer since (last_n kMaxSamples (ch_samples ch @ pushes_for cid ps)))))]
           \<in> set (to_array (jfind (result_of (fst (handlePoll rid params s'))) ''channels''))"
proof -
  from pushes_channel [OF assms(1,2)] obtain ch' where c: "channel_of cid s' = Some ch'"
    "ch_name ch' = ch_name ch"
    "ch_samples ch' = last_n kMaxSamples (ch_samples ch @ pushes_for cid ps)"
    using assms(3) by blast
  then have "ch' \<in> set (sg_channels s')" "ch_id ch' = cid"
    by (auto simp: channel_of_def find_Some_iff)
  with c show ?thesis
    by (auto simp: handlePoll_def Let_def channel_json_def assms(4) intro!: image_eqI [of _ _ ch'])
qed

definition demo_signals :: signal_handler where
  "demo_signals = snd (subscribe ''pos'' 0 ''0x6064'' ''0'' signal_init)"

theorem poll_answers_newest_samples_witness:
  "JObj [(''id'', jint 1), (''name'', JStr ''pos''), (''samples'', JArr [sample_json \<lparr>ss_value = 5, ss_timestampMs = 20\<rparr>])]
     \<in> set (to_array (jfind (result_of (fst (handlePoll ''r'' [(''since'', JNum 10)]
         (foldl (\<lambda>s (c, x). push c x s) demo_signals
            [(1, \<lparr>ss_value = 4, ss_timestampMs = 10\<rparr>), (1, \<lparr>ss_value = 5, ss_timestampMs = 20\<rparr>)])))) ''channels''))"
proof -
  define ch where "ch = \<lparr>ch_id = 1, ch_name = ''pos'', ch_slave = 0, ch_index = ''0x6064'',
      ch_subIndex = ''0'', ch_samples = [], ch_maxSamples = kMaxSamples\<rparr>"
  have c: "signal_inv demo_signals" "channel_of 1 demo_signals = Some ch"
    by (simp_all add: signal_inv_def demo_signals_def subscribe_def signal_init_def channel_of_def ch_def)
  have "last_n kMaxSamples [a, b] = [a, b]" for a b :: signal_sample
    by (rule last_n_all) (simp add: kMaxSamples_def)
  with poll_answers_newest_samples [OF c refl refl, where ps = "[(1, \<lparr>ss_value = 4, ss_timestampMs = 10\<rparr>),
      (1, \<lparr>ss_value = 5, ss_timestampMs = 20\<rparr>)]" and params = "[(''since'', JNum 10)]" and rid = "''r''"]
  show ?thesis by (simp add: pushes_for_def newer_def to_int64_def ch_def)
qed

interpretation signal_poll: rpc_handler handlePoll
  by unfold_locales (simp add: handlePoll_def Let_def)

end
