(* ===== verification/RedundancyHandler.thy ===== *)
theory RedundancyHandler
  imports BoundedLog Backend AlEventHandler
begin

text \<open>
  \<^verbatim>\<open>apps/ecatd/handlers/RedundancyHandler.{h,cpp}\<close>: cable redundancy. The handler reads the master's
  text from the backend, decides which links are up and answers; every request that asks for a
  change leaves a record in a bounded history. The handler's state is the history with the world.
\<close>

section \<open>State\<close>

record redundancy_event =
  re_type :: string
  re_pathId :: int
  re_reason :: string
  re_timestamp :: int
  re_success :: bool

type_synonym 'w redundancy = "redundancy_event list \<times> 'w"

definition kMaxHistory :: nat where "kMaxHistory = 500"

definition red_append :: "redundancy_event \<Rightarrow> 'w redundancy \<Rightarrow> 'w redundancy" where
  "red_append e s = (push_pop kMaxHistory e (fst s), snd s)"

definition red_addEvent :: "'w host \<Rightarrow> string \<Rightarrow> int \<Rightarrow> string \<Rightarrow> bool \<Rightarrow> 'w redundancy \<Rightarrow> 'w redundancy" where
  "red_addEvent hs type pathId reason okv s =
     red_append \<lparr>re_type = type, re_pathId = pathId, re_reason = reason,
        re_timestamp = hs_clock hs (snd s), re_success = okv\<rparr> s"

section \<open>Reading the links\<close>

abbreviation up_down :: "rx list" where "up_down \<equiv> [Alt [Lit ''up''] [Lit ''down'']]"

definition link_re :: "rx list" where
  \<comment> \<open>\<open>Link:\s*(\d+):\s*(up|down)\s+(\d+):\s*(up|down)\<close>\<close>
  "link_re = [Lit ''Link:'', Spaces0, Grp 1 [Digits], Lit '':'', Spaces0, Grp 2 up_down, Spaces,
     Grp 3 [Digits], Lit '':'', Spaces0, Grp 4 up_down]"

definition main_re :: "rx list" where
  "main_re = [Lit ''Main:'', Spaces0, Grp 1 [Many rx_word 1 None]]"

definition red_re :: "rx list" where
  "red_re = [Lit ''Redundant:'', Spaces0, Grp 1 [Many rx_word 1 None]]"

definition parseLinkStatus :: "string \<Rightarrow> bool \<times> bool \<Rightarrow> bool \<times> bool \<times> bool" where
  \<comment> \<open>the second argument are the caller's flags, both false; the answer is whether there is
      redundancy and the flags\<close>
  "parseLinkStatus masterOutput flags =
     (case rx_match rx_ci link_re masterOutput of
        Some m \<Rightarrow> (True, to_lower (captured m 2) = ''up'', to_lower (captured m 4) = ''up'')
      | None \<Rightarrow>
          let flags1 = (case rx_match rx_ci main_re masterOutput of
                  Some m \<Rightarrow> (to_lower (captured m 1) = ''up'', snd flags) | None \<Rightarrow> flags)
          in (case rx_match rx_ci red_re masterOutput of
                Some m \<Rightarrow> (True, fst flags1, to_lower (captured m 1) = ''up'')
              | None \<Rightarrow> (False, True, False)))"

definition red_runCliCommand ::
  "'w host \<Rightarrow> 'w ecat_service option \<Rightarrow> string \<Rightarrow> 'w \<Rightarrow> string \<times> string \<times> 'w" where
  \<comment> \<open>called with \<open>args = {"master"}\<close> and an empty error; answers the output and the error\<close>
  "red_runCliCommand hs bk master w =
     (case bk of
        Some svc \<Rightarrow> (let (text, e, w') = masterText svc master w in (text, stored [] e, w'))
      | None \<Rightarrow>
          (let (out, w') = hs_proc hs ''ethercat'' (scoped_args master [''master'']) w
           in case out of
                Exited code so se \<Rightarrow> (so, if code \<noteq> 0 then trimmed se else [], w')
              | _ \<Rightarrow> ([], ''ethercat command timed out'', w')))"

section \<open>The requests\<close>

definition link_state :: "bool \<times> bool \<times> bool \<Rightarrow> string" where
  "link_state links = (case links of (hasRedundancy, primaryUp, secondaryUp) \<Rightarrow>
     if \<not> hasRedundancy then ''SinglePath''
     else if primaryUp \<and> secondaryUp then ''DualPath''
     else if primaryUp then ''PrimaryOnly''
     else if secondaryUp then ''SecondaryOnly''
     else ''BothDown'')"

definition path_json :: "int \<Rightarrow> bool \<Rightarrow> json" where
  "path_json pathId up = JObj [(''pathId'', jint pathId),
     (''state'', JStr (if up then ''Active'' else ''Down'')), (''isHealthy'', JBool up)]"

definition red_handleStatus ::
  "'w host \<Rightarrow> 'w ecat_service option \<Rightarrow> string \<Rightarrow> jobject \<Rightarrow> 'w redundancy \<Rightarrow> json \<times> 'w redundancy" where
  "red_handleStatus hs bk rid params s =
     (let master = requestedMaster params;
          (masterOutput, error, w') = red_runCliCommand hs bk master (snd s);
          s' = (fst s, w')
      in if error \<noteq> [] then (failure rid error, s')
         else
           let links = parseLinkStatus masterOutput (False, False);
               (hasRedundancy, primaryUp, secondaryUp) = links
           in (success rid
                 [(''enabled'', JBool hasRedundancy), (''state'', JStr (link_state links)),
                  (''primaryPath'', path_json 0 primaryUp), (''secondaryPath'', path_json 1 secondaryUp),
                  (''master'', JStr master)], s'))"

definition red_handleEnable ::
  "'w host \<Rightarrow> 'w ecat_service option \<Rightarrow> string \<Rightarrow> jobject \<Rightarrow> 'w redundancy \<Rightarrow> json \<times> 'w redundancy" where
  "red_handleEnable hs bk rid params s =
     (let master = requestedMaster params;
          (masterOutput, error, w') = red_runCliCommand hs bk master (snd s);
          s' = (fst s, w')
      in if error \<noteq> [] then (failure rid error, red_addEvent hs ''enable'' (- 1) error False s')
         else
           let (hasRedundancy, primaryUp, secondaryUp) = parseLinkStatus masterOutput (False, False)
           in if hasRedundancy then
                (success rid [(''success'', JBool True), (''message'', JStr ''Redundancy is already active'')],
                 red_addEvent hs ''enable'' 0 ''Redundancy already active'' True s')
              else
                let msg = ''Redundancy must be configured at IgH master load time ''
                    @ ''(ec_master redundancy=1). Restart the master with redundancy enabled.''
                in (failure rid msg, red_addEvent hs ''enable'' (- 1) msg False s'))"

definition red_handleDisable ::
  "'w host \<Rightarrow> string \<Rightarrow> jobject \<Rightarrow> 'w redundancy \<Rightarrow> json \<times> 'w redundancy" where
  "red_handleDisable hs rid params s =
     (let msg = ''Redundancy cannot be disabled at runtime. ''
          @ ''Restart the master without the redundancy parameter.''
      in (failure rid msg, red_addEvent hs ''disable'' (- 1) msg False s))"

definition red_handleFailover ::
  "'w host \<Rightarrow> 'w ecat_service option \<Rightarrow> string \<Rightarrow> jobject \<Rightarrow> 'w redundancy \<Rightarrow> json \<times> 'w redundancy" where
  "red_handleFailover hs bk rid params s =
     (let master = requestedMaster params;
          (masterOutput, error, w') = red_runCliCommand hs bk master (snd s);
          s' = (fst s, w')
      in if error \<noteq> [] then (failure rid error, red_addEvent hs ''failover'' (- 1) error False s')
         else
           let (hasRedundancy, primaryUp, secondaryUp) = parseLinkStatus masterOutput (False, False)
           in if \<not> hasRedundancy then
                let msg = ''Redundancy is not active. Cannot perform failover.''
                in (failure rid msg, red_addEvent hs ''failover'' (- 1) msg False s')
              else if \<not> secondaryUp then
                let msg = ''Secondary path is down. Cannot failover.''
                in (failure rid msg, red_addEvent hs ''failover'' 1 msg False s')
              else if primaryUp \<and> secondaryUp then
                let msg = ''Both paths are healthy. IgH handles failover automatically ''
                    @ ''when the primary link goes down.''
                in (success rid [(''success'', JBool True), (''fromPath'', jint 0), (''toPath'', jint 1),
                      (''message'', JStr msg)], red_addEvent hs ''failover'' 0 msg True s')
              else
                (success rid [(''success'', JBool True), (''fromPath'', jint 0), (''toPath'', jint 1),
                   (''message'', JStr ''Already operating on secondary path'')],
                 red_addEvent hs ''failover'' 1 ''Already failed over to secondary'' True s'))"

definition red_handleFailback ::
  "'w host \<Rightarrow> 'w ecat_service option \<Rightarrow> string \<Rightarrow> jobject \<Rightarrow> 'w redundancy \<Rightarrow> json \<times> 'w redundancy" where
  "red_handleFailback hs bk rid params s =
     (let master = requestedMaster params;
          (masterOutput, error, w') = red_runCliCommand hs bk master (snd s);
          s' = (fst s, w')
      in if error \<noteq> [] then (failure rid error, red_addEvent hs ''failback'' (- 1) error False s')
         else
           let (hasRedundancy, primaryUp, secondaryUp) = parseLinkStatus masterOutput (False, False)
           in if \<not> hasRedundancy then
                let msg = ''Redundancy is not active. Cannot perform failback.''
                in (failure rid msg, red_addEvent hs ''failback'' (- 1) msg False s')
              else if primaryUp then
                (success rid [(''success'', JBool True), (''fromPath'', jint 1), (''toPath'', jint 0),
                   (''message'', JStr ''Primary path is active. IgH uses it automatically.'')],
                 red_addEvent hs ''failback'' 0 ''Primary path is up, IgH uses it automatically'' True s')
              else
                let msg = ''Primary path is still down. Cannot failback.''
                in (failure rid msg, red_addEvent hs ''failback'' 0 msg False s'))"

definition red_event_json :: "'w host \<Rightarrow> redundancy_event \<Rightarrow> json" where
  "red_event_json hs e = JObj [(''type'', JStr (re_type e)), (''pathId'', jint (re_pathId e)),
     (''reason'', JStr (re_reason e)), (''timestamp'', JStr (hs_iso hs (re_timestamp e))),
     (''success'', JBool (re_success e))]"

definition red_handleHistory ::
  "'w host \<Rightarrow> string \<Rightarrow> jobject \<Rightarrow> 'w redundancy \<Rightarrow> json \<times> 'w redundancy" where
  "red_handleHistory hs rid params s =
     (let limit = to_int_def 100 (jfind params ''limit'')
      in (success rid [(''events'', JArr (map (red_event_json hs) (from_limit limit (fst s))))], s))"

datatype red_request = RedStatus | RedEnable | RedDisable | RedFailover | RedFailback | RedHistory

fun red_handle ::
  "'w host \<Rightarrow> 'w ecat_service option \<Rightarrow> red_request \<Rightarrow> string \<Rightarrow> jobject \<Rightarrow> 'w redundancy \<Rightarrow> json \<times> 'w redundancy"
where
  "red_handle hs bk RedStatus = red_handleStatus hs bk"
| "red_handle hs bk RedEnable = red_handleEnable hs bk"
| "red_handle hs bk RedDisable = red_handleDisable hs"
| "red_handle hs bk RedFailover = red_handleFailover hs bk"
| "red_handle hs bk RedFailback = red_handleFailback hs bk"
| "red_handle hs bk RedHistory = red_handleHistory hs"

lemmas red_handle_defs =
  red_handleStatus_def red_handleEnable_def red_handleDisable_def red_handleFailover_def
  red_handleFailback_def red_handleHistory_def

section \<open>The history\<close>

interpretation red_log: bounded_log red_append fst "\<lambda>s. length (fst s) \<le> kMaxHistory" kMaxHistory
  by unfold_locales (simp_all add: red_append_def push_pop_last_n)

interpretation red_rpc: rpc_handler "red_handle hs bk q" for hs bk q
  by unfold_locales
     (cases q; simp add: red_handle_defs case_prod_beta Let_def)

lemma red_append_world [simp, state_simps]: "snd (red_append e s) = snd s"
  by (simp add: red_append_def)

fun red_event_type :: "red_request \<Rightarrow> string option" where
  "red_event_type RedEnable = Some ''enable''"
| "red_event_type RedDisable = Some ''disable''"
| "red_event_type RedFailover = Some ''failover''"
| "red_event_type RedFailback = Some ''failback''"
| "red_event_type _ = None"

lemma red_addEvent_append:
  "\<exists>e. red_addEvent hs t p r b s = red_append e s \<and> re_type e = t \<and> re_success e = b
     \<and> re_pathId e = p \<and> re_reason e = r"
  by (simp add: red_addEvent_def exI [where x = "\<lparr>re_type = t, re_pathId = p, re_reason = r,
      re_timestamp = hs_clock hs (snd s), re_success = b\<rparr>"])

definition records :: "string \<Rightarrow> redundancy_event list \<Rightarrow> json \<times> 'w redundancy \<Rightarrow> bool" where
  "records type h answer \<longleftrightarrow> (\<exists>e w. snd answer = red_append e (h, w)
     \<and> re_type e = type \<and> re_success e = ok_of (fst answer))"

lemma records_addEvent:
  "ok_of r = b \<Longrightarrow> fst s = h \<Longrightarrow> records t h (r, red_addEvent hs t p why b s)"
  using red_addEvent_append [of hs t p why b s] by (cases s) (auto simp: records_def)

lemma red_handle_records:
  "red_event_type q = Some t \<Longrightarrow> records t (fst s) (red_handle hs bk q rid params s)"
  by (cases q)
     (auto simp: red_handle_defs case_prod_beta Let_def intro!: records_addEvent)

lemma red_handle_silent:
  "red_event_type q = None \<Longrightarrow> fst (snd (red_handle hs bk q rid params s)) = fst s"
  by (cases q) (auto simp: red_handle_defs case_prod_beta Let_def)

text \<open>
  The history says what happened: a request to enable, disable, fail over or
  fail back adds exactly one record, of that type, whose success flag is that of the answer the
  client gets, and only the oldest record is dropped when the history is full; status and history
  requests add none.
\<close>

theorem redundancy_history_records_outcome:
  assumes "length (fst s) \<le> kMaxHistory" and "red_handle hs bk q rid params s = (response, s')"
  shows "(case red_event_type q of
      None \<Rightarrow> fst s' = fst s
    | Some t \<Rightarrow> \<exists>e. fst s' = last_n kMaxHistory (fst s @ [e]) \<and> re_type e = t \<and> re_success e = ok_of response)"
proof (cases "red_event_type q")
  case None
  with red_handle_silent [OF this, of hs bk rid params s] assms(2) show ?thesis by simp
next
  case (Some t)
  from red_handle_records [OF this, of s hs bk rid params] obtain e w where
    e: "s' = red_append e (fst s, w)" "re_type e = t" "re_success e = ok_of response"
    unfolding assms(2) by (auto simp: records_def)
  have "fst s' = last_n kMaxHistory (fst s @ [e])"
    unfolding e(1) using red_log.log_push [of "(fst s, w)"] assms(1) by simp
  with Some e(2,3) show ?thesis by auto
qed

definition demo_host :: "unit host" where
  "demo_host = \<lparr>hs_proc = (\<lambda>prog args w. (Exited 0 ''Link: 0: up  1: down'' [], w)),
     hs_clock = (\<lambda>w. 1700000000000), hs_iso = (\<lambda>t. number_int t)\<rparr>"

theorem redundancy_history_records_outcome_witness:
  "\<exists>e. fst (snd (red_handle demo_host None RedDisable ''r'' [] ([], ()))) = last_n kMaxHistory [e]
      \<and> re_type e = ''disable'' \<and> re_success e = ok_of (fst (red_handle demo_host None RedDisable ''r'' [] ([], ())))"
  using redundancy_history_records_outcome [of "([], ())" demo_host None RedDisable "''r''" "[]"
      "fst (red_handle demo_host None RedDisable ''r'' [] ([], ()))"
      "snd (red_handle demo_host None RedDisable ''r'' [] ([], ()))"]
  by simp

section \<open>The link line\<close>

definition up_text :: "bool \<Rightarrow> string" where
  "up_text b = (if b then ''up'' else ''down'')"

definition link_line :: "nat \<times> nat \<times> nat \<times> nat \<Rightarrow> nat \<Rightarrow> bool \<Rightarrow> nat \<Rightarrow> bool \<Rightarrow> string" where
  \<comment> \<open>the rest of the master's \<open>Link:\<close> line, with its gaps\<close>
  "link_line gaps n a m b = (case gaps of (g0, g1, g2, g3) \<Rightarrow>
     blanks g0 @ number_nat n @ '':'' @ blanks g1 @ up_text a @ blanks (Suc g2)
     @ number_nat m @ '':'' @ blanks g3 @ up_text b)"

lemma nocase_ci [simp]: "nocase rx_ci"
  by (simp add: rx_ci_def)

lemma first_up_down:
  "first_atom rx_ci (Grp k up_down) (pre, up_text b @ v, caps) (rev (up_text b) @ pre, v, (k, up_text b) # caps)"
proof (rule first_grp, rule first_match_Cons)
  show "first_atom rx_ci (Alt [Lit ''up''] [Lit ''down'']) (pre, up_text b @ v, caps) (rev (up_text b) @ pre, v, caps)"
  proof (cases b)
    case True
    have "first_match rx_ci [Lit ''up''] (pre, ''up'' @ v, caps) (rev ''up'' @ pre, v, caps)"
      by (rule first_match_Cons [OF first_lit_ci]) simp_all
    with True show ?thesis unfolding up_text_def by (simp add: first_alt_left)
  next
    case False
    have "first_match rx_ci [Lit ''down''] (pre, ''down'' @ v, caps) (rev ''down'' @ pre, v, caps)"
      by (rule first_match_Cons [OF first_lit_ci]) simp_all
    moreover have "rx_seq rx_ci [Lit ''up''] (pre, ''down'' @ v, caps) = []"
      by (rule rx_seq_lit_fails)
        (simp add: lit_at_def starts_with_ci_def starts_with_def to_lower_def to_lower_char_def code_of_def)
    ultimately show ?thesis using False unfolding up_text_def by (simp add: first_alt_right)
  qed
qed simp

lemma first_digits_colon:
  "first_atom fl (Grp k [Digits]) (pre, number_nat n @ '':'' @ v, caps)
     (rev (number_nat n) @ pre, '':'' @ v, (k, number_nat n) # caps)"
proof (rule first_grp, rule first_match_Cons)
  show "first_atom fl Digits (pre, number_nat n @ '':'' @ v, caps) (rev (number_nat n) @ pre, '':'' @ v, caps)"
    by (rule first_many) (auto simp: number_nat_digits is_digit_def [of "CHR '':''"] code_of_def Suc_le_eq)
qed simp

lemma token_up_text: "token (up_text b)"
  by (simp add: token_def up_text_def rx_nonspace_def rx_space_def code_of_def Let_def)

lemma first_gap_last:
  "lo \<le> n \<Longrightarrow> token x \<Longrightarrow>
   first_atom fl (Many rx_space lo None) (pre, blanks n @ x, caps) (rev (blanks n) @ pre, x, caps)"
  using first_gap_token [of lo n x fl pre "[]" caps] by simp

lemma link_line_match:
  "\<exists>pre'. first_match rx_ci link_re (pre, ''Link:'' @ link_line gaps n a m b @ post, [])
     (pre', post, [(4, up_text b), (3, number_nat m), (2, up_text a), (1, number_nat n)])"
proof -
  obtain g0 g1 g2 g3 where g: "gaps = (g0, g1, g2, g3)" by (cases gaps)
  show ?thesis
    unfolding link_re_def link_line_def g prod.case append_assoc
    by (intro exI)
       (rule first_match_Cons [OF first_lit_ci], simp,
        rule first_match_Cons [OF first_gap_token], simp, rule token_number_nat,
        rule first_match_Cons [OF first_digits_colon], rule first_match_Cons [OF first_lit_ci], simp,
        rule first_match_Cons [OF first_gap_token], simp, rule token_up_text,
        rule first_match_Cons [OF first_up_down],
        rule first_match_Cons [OF first_gap_token], simp, rule token_number_nat,
        rule first_match_Cons [OF first_digits_colon], rule first_match_Cons [OF first_lit_ci], simp,
        rule first_match_Cons [OF first_gap_token], simp, rule token_up_text,
        rule first_match_Cons [OF first_up_down], simp)
qed

lemma to_lower_up_text: "(to_lower (up_text b) = ''up'') = b"
  by (simp add: up_text_def to_lower_def to_lower_char_def code_of_def Let_def)

text \<open>
  Where the master's text holds a link line, the first occurrence of
  \<open>Link:\<close> (in any case) being that line, the parsed flags are its two states, whatever the spacing
  and numbering and the text around it; and the state reported is the one of the two flags.
\<close>

theorem link_line_decides_state:
  assumes "\<forall>i < length before. \<not> starts_with_ci ''Link:'' (drop i before @ ''Link:'')"
  shows "parseLinkStatus (before @ ''Link:'' @ link_line gaps n a m b @ after) flags = (True, a, b)
     \<and> link_state (parseLinkStatus (before @ ''Link:'' @ link_line gaps n a m b @ after) flags)
         = (if a \<and> b then ''DualPath'' else if a then ''PrimaryOnly''
            else if b then ''SecondaryOnly'' else ''BothDown'')"
proof -
  obtain p where p: "first_match rx_ci link_re (rev before, ''Link:'' @ link_line gaps n a m b @ after, [])
     (p, after, [(4, up_text b), (3, number_nat m), (2, up_text a), (1, number_nat n)])"
    using link_line_match by blast
  have "rx_match rx_ci link_re (before @ ''Link:'' @ link_line gaps n a m b @ after)
     = Some (p, after, [(4, up_text b), (3, number_nat m), (2, up_text a), (1, number_nat n)])"
    using rx_match_lit_after [OF _ assms] p unfolding link_re_def by simp
  then have "parseLinkStatus (before @ ''Link:'' @ link_line gaps n a m b @ after) flags = (True, a, b)"
    unfolding parseLinkStatus_def by (simp add: captured_def to_lower_up_text)
  then show ?thesis by (simp add: link_state_def)
qed

theorem link_line_decides_state_witness:
  "parseLinkStatus (''M0 '' @ ''Link:'' @ link_line (1, 1, 1, 1) 0 True 1 False @ []) (False, False)
     = (True, True, False)"
proof -
  have "\<not> starts_with_ci ''Link:'' (drop i ''M0 '' @ ''Link:'')" if "i < 3" for i
  proof -
    from that consider "i = 0" | "i = 1" | "i = 2" by linarith
    then show ?thesis
      by cases (simp_all add: starts_with_ci_def starts_with_def to_lower_def to_lower_char_def code_of_def)
  qed
  then have "\<forall>i < length ''M0 ''. \<not> starts_with_ci ''Link:'' (drop i ''M0 '' @ ''Link:'')" by simp
  from link_line_decides_state [OF this] show ?thesis by blast
qed

end
