(* ===== verification/OnlineChangeHandler.thy ===== *)
theory OnlineChangeHandler
  imports Backend
begin

text \<open>
  \<^verbatim>\<open>apps/ecatd/handlers/OnlineChangeHandler.{h,cpp}\<close>: configuration changes on a running bus. Applying a
  change takes the affected slaves to PREOP, writes the objects and takes the slaves to the target
  state. A request runs to its end on the daemon's event loop, so the progress fields are modelled
  between requests; the phases an apply passes through are its three loops.
\<close>

section \<open>State\<close>

record online_change =
  oc_inProgress :: bool
  oc_currentPhase :: string

definition oc_init :: online_change where
  "oc_init = \<lparr>oc_inProgress = False, oc_currentPhase = ''idle''\<rparr>"

section \<open>Affected slaves\<close>

definition change_positions :: "json list \<Rightarrow> int list" where
  "change_positions changes =
     map (\<lambda>c. to_int (jfind (to_object c) ''position''))
       (filter (\<lambda>c. jcontains (to_object c) ''position'') changes)"

definition affectedSlaves :: "json list \<Rightarrow> int list" where
  \<comment> \<open>the values of the \<open>QSet<int>\<close>, sorted\<close>
  "affectedSlaves changes = sort (remdups (change_positions changes))"

section \<open>Preview\<close>

definition preview_op :: "json \<Rightarrow> json" where
  "preview_op c = (let ob = to_object c in JObj
     [(''position'', jint (to_int (jfind ob ''position''))), (''index'', JStr (to_string (jfind ob ''index''))),
      (''subIndex'', JStr (to_string (jfind ob ''subIndex''))), (''value'', JStr (to_string (jfind ob ''value''))),
      (''type'', JStr (to_string (jfind ob ''type''))), (''action'', JStr ''sdo_write'')])"

definition oc_handlePreview ::
  "string \<Rightarrow> jobject \<Rightarrow> online_change \<times> 'w \<Rightarrow> json \<times> online_change \<times> 'w" where
  "oc_handlePreview rid params s =
     (let changes = to_array (jfind params ''changes'')
      in if changes = [] then (failure rid ''No changes specified.'', s)
         else
           let affected = affectedSlaves changes;
               operations = map preview_op changes
           in (success rid
                 [(''affectedSlaves'', JArr (map jint affected)), (''operations'', JArr operations),
                  (''estimatedDowntimeMs'', jnat (length affected * 300)),
                  (''operationCount'', jnat (length operations))], s))"

section \<open>Apply\<close>

fun preop_phase ::
  "'w ecat_service \<Rightarrow> string \<Rightarrow> int list \<Rightarrow> 'w \<Rightarrow> json list \<times> 'w" where
  "preop_phase svc master [] w = ([], w)"
| "preop_phase svc master (pos # ps) w =
     (let (ok, e, w1) = setState svc master pos ''PREOP'' w;
          (rest, w2) = preop_phase svc master ps w1
      in (if ok then rest
          else JObj [(''position'', jint pos), (''phase'', JStr ''preop''), (''ok'', JBool False),
                 (''error'', JStr (stored [] e))] # rest, w2))"

definition change_download ::
  "'w ecat_service \<Rightarrow> string \<Rightarrow> json \<Rightarrow> 'w \<Rightarrow> bool \<times> string option \<times> 'w" where
  "change_download svc master c w = (let ob = to_object c in
     download svc master (to_int (jfind ob ''position'')) (to_string (jfind ob ''index''))
       (to_string (jfind ob ''subIndex'')) (to_string (jfind ob ''value''))
       (to_string (jfind ob ''type'')) w)"

definition sdo_result :: "json \<Rightarrow> bool \<Rightarrow> string \<Rightarrow> json" where
  "sdo_result c ok error = (let ob = to_object c in JObj
     ([(''position'', jint (to_int (jfind ob ''position''))), (''phase'', JStr ''sdo''), (''ok'', JBool ok),
       (''index'', JStr (to_string (jfind ob ''index''))), (''subIndex'', JStr (to_string (jfind ob ''subIndex'')))]
      @ (if ok then [] else [(''error'', JStr error)])))"

fun sdo_phase ::
  "'w ecat_service \<Rightarrow> string \<Rightarrow> json list \<Rightarrow> 'w \<Rightarrow> nat \<times> nat \<times> json list \<times> 'w" where
  "sdo_phase svc master [] w = (0, 0, [], w)"
| "sdo_phase svc master (c # cs) w =
     (let (ok, e, w1) = change_download svc master c w;
          (applied, failed, rest, w2) = sdo_phase svc master cs w1
      in (if ok then Suc applied else applied, if ok then failed else Suc failed,
          sdo_result c ok (stored [] e) # rest, w2))"

fun restore_phase ::
  "'w ecat_service \<Rightarrow> string \<Rightarrow> string \<Rightarrow> int list \<Rightarrow> 'w \<Rightarrow> json list \<times> 'w" where
  "restore_phase svc master target [] w = ([], w)"
| "restore_phase svc master target (pos # ps) w =
     (let (ok, e, w1) = setState svc master pos target w;
          (rest, w2) = restore_phase svc master target ps w1
      in (JObj [(''position'', jint pos), (''targetState'', JStr target), (''ok'', JBool ok),
            (''error'', JStr (if ok then [] else stored [] e))] # rest, w2))"

definition oc_handleApply ::
  "'w ecat_service option \<Rightarrow> string \<Rightarrow> jobject \<Rightarrow> online_change \<times> 'w \<Rightarrow> json \<times> online_change \<times> 'w" where
  "oc_handleApply bk rid params s =
     (if oc_inProgress (fst s) then (failure rid ''An online change is already in progress.'', s)
      else
        let master = requestedMaster params;
            changes = to_array (jfind params ''changes'');
            target = to_string_def ''OP'' (jfind params ''targetState'')
        in if changes = [] then (failure rid ''No changes specified.'', s)
           else case bk of
             None \<Rightarrow> (failure rid ''No backend available.'', s)
           | Some svc \<Rightarrow>
               let affected = affectedSlaves changes;
                   (preop, w1) = preop_phase svc master affected (snd s);
                   (applied, failed, sdo, w2) = sdo_phase svc master changes w1;
                   (restore, w3) = restore_phase svc master target affected w2
               in (success rid
                     [(''success'', JBool (failed = 0)), (''applied'', jnat applied), (''failed'', jnat failed),
                      (''results'', JArr (preop @ sdo)), (''restoreResults'', JArr restore),
                      (''affectedSlaves'', JArr (map jint affected))],
                   (fst s)\<lparr>oc_inProgress := False, oc_currentPhase := ''idle''\<rparr>, w3))"

definition oc_handleStatus ::
  "string \<Rightarrow> jobject \<Rightarrow> online_change \<times> 'w \<Rightarrow> json \<times> online_change \<times> 'w" where
  "oc_handleStatus rid params s =
     (success rid [(''inProgress'', JBool (oc_inProgress (fst s))),
        (''phase'', JStr (oc_currentPhase (fst s)))], s)"

lemmas oc_defs = oc_handlePreview_def oc_handleApply_def oc_handleStatus_def

interpretation oc_preview: rpc_handler oc_handlePreview
  by unfold_locales (simp add: oc_defs Let_def)

interpretation oc_apply: rpc_handler "oc_handleApply bk" for bk
  by unfold_locales (simp add: oc_defs Let_def case_prod_beta split: option.splits)

interpretation oc_status: rpc_handler oc_handleStatus
  by unfold_locales (simp add: oc_defs)

section \<open>The affected slaves are the positions named\<close>

lemma affected_set: "set (affectedSlaves changes) =
    {to_int (jfind (to_object c) ''position'') |c. c \<in> set changes \<and> jcontains (to_object c) ''position''}"
  by (auto simp: affectedSlaves_def change_positions_def)

lemma affected_sorted: "sorted (affectedSlaves changes)" "distinct (affectedSlaves changes)"
  by (simp_all add: affectedSlaves_def)

section \<open>The commands an apply sends\<close>








lemma sdo_phase_results:
  "length (fst (snd (snd (sdo_phase svc master cs w)))) = length cs"
  by (induction cs arbitrary: w) (auto simp: case_prod_beta Let_def)

lemma restore_phase_length: "length (fst (restore_phase svc master target ps w)) = length ps"
  by (induction ps arbitrary: w) (auto simp: case_prod_beta Let_def)





text \<open>
  A failed change of state is not part of \<open>success\<close>: with a backend that refuses
  every state change and takes every write, the answer says \<open>success\<close> with nothing failed, although
  no slave reached the target state.
\<close>

theorem online_change_success_ignores_states:
  "\<forall>pos. \<exists>svc. (\<forall>m p st w. fst (setState svc m p st (w :: unit)) = False)
     \<and> (let r = fst (oc_handleApply (Some svc) rid
              [(''changes'', JArr [JObj [(''position'', jint pos), (''index'', JStr ''0x6040'')]])] (oc_init, ()))
        in jfind (result_of r) ''success'' = JBool True \<and> jfind (result_of r) ''failed'' = jnat 0)"
proof
  fix pos
  define svc :: "unit ecat_service" where
    "svc = (cli_service (\<lambda>prog args w. (Exited 0 [] [], w)) (\<lambda>w. ([], None, w)))
       \<lparr>setState := \<lambda>m p st w. (False, Some ''refused'', w)\<rparr>"
  have d: "download svc m p i si v t w = (True, None, ())" for m p i si v t w
    by (simp add: svc_def cli_service_def cli_download_def cli_bool_def run_def)
  have s: "setState svc m p st w = (False, Some ''refused'', ())" for m p st w
    by (simp add: svc_def)
  show "\<exists>svc. (\<forall>m p st w. fst (setState svc m p st (w :: unit)) = False)
     \<and> (let r = fst (oc_handleApply (Some svc) rid
              [(''changes'', JArr [JObj [(''position'', jint pos), (''index'', JStr ''0x6040'')]])] (oc_init, ()))
        in jfind (result_of r) ''success'' = JBool True \<and> jfind (result_of r) ''failed'' = jnat 0)"
    by (rule exI [of _ svc])
       (simp add: s d oc_handleApply_def oc_init_def affectedSlaves_def change_positions_def
        change_download_def Let_def)
qed

end
