(* ===== verification/EoEHandler.thy ===== *)
theory EoEHandler
  imports Backend
begin

text \<open>
  \<^verbatim>\<open>apps/ecatd/handlers/EoEHandler.{h,cpp}\<close>: Ethernet over EtherCAT. An IP address is four octets,
  stored in the slave's objects as a little-endian 32-bit value written and read as decimal text.
  The world \<open>'w\<close> is the handler's state; the error variable of a request is passed through its
  reads and writes the way the code passes \<open>&error\<close>.
\<close>

section \<open>Addresses\<close>

definition ip_re :: "rx list" where
  \<comment> \<open>\<open>^(\d{1,3})\.(\d{1,3})\.(\d{1,3})\.(\d{1,3})$\<close>\<close>
  "ip_re = [Bol, Grp 1 [Many is_digit 1 (Some 3)], Lit ''.'', Grp 2 [Many is_digit 1 (Some 3)], Lit ''.'',
     Grp 3 [Many is_digit 1 (Some 3)], Lit ''.'', Grp 4 [Many is_digit 1 (Some 3)], Eol]"

fun octets :: "string list \<Rightarrow> byte list option" where
  "octets [] = Some []"
| "octets (s # ss) =
     (case to_int32 s of
        None \<Rightarrow> None
      | Some v \<Rightarrow> if v < 0 \<or> v > 255 then None
          else (case octets ss of None \<Rightarrow> None | Some bs \<Rightarrow> Some (word_of_int v # bs)))"

definition parseIp :: "string \<Rightarrow> byte list option" where
  "parseIp ip =
     (case rx_match rx_plain ip_re (trimmed ip) of
        None \<Rightarrow> None
      | Some m \<Rightarrow> octets [captured m 1, captured m 2, captured m 3, captured m 4])"

definition formatIp :: "byte list \<Rightarrow> string" where
  "formatIp bs = number_nat (unat (bs ! 0)) @ ''.'' @ number_nat (unat (bs ! 1)) @ ''.''
     @ number_nat (unat (bs ! 2)) @ ''.'' @ number_nat (unat (bs ! 3))"

definition ip_value :: "byte list \<Rightarrow> u32" where
  "ip_value bs = ucast (bs ! 0) OR push_bit 8 (ucast (bs ! 1)) OR push_bit 16 (ucast (bs ! 2))
     OR push_bit 24 (ucast (bs ! 3))"

definition ip_bytes :: "u32 \<Rightarrow> byte list" where
  "ip_bytes v = [ucast (v AND 0xFF), ucast (drop_bit 8 v AND 0xFF), ucast (drop_bit 16 v AND 0xFF),
     ucast (drop_bit 24 v AND 0xFF)]"

section \<open>Objects\<close>

definition readEoeSdo ::
  "'w ecat_service option \<Rightarrow> string \<Rightarrow> int \<Rightarrow> string \<Rightarrow> string \<Rightarrow> u32 \<Rightarrow> string \<Rightarrow> 'w
     \<Rightarrow> bool \<times> u32 \<times> string \<times> 'w" where
  \<comment> \<open>the value variable and the error variable come in and go out\<close>
  "readEoeSdo bk master position index subIndex value error w =
     (case bk of
        None \<Rightarrow> (False, value, ''No backend available'', w)
      | Some svc \<Rightarrow>
          let (result, e, w') = upload svc master position index subIndex ''uint32'' w;
              error' = stored error e
          in if error' \<noteq> [] then (False, value, error', w')
             else case to_uint32 result of
               None \<Rightarrow> (False, value, ''Failed to parse SDO value: '' @ [CHR 0x27] @ result @ [CHR 0x27], w')
             | Some v \<Rightarrow> (True, of_nat v, error', w'))"

definition writeEoeSdo ::
  "'w ecat_service option \<Rightarrow> string \<Rightarrow> int \<Rightarrow> string \<Rightarrow> string \<Rightarrow> u32 \<Rightarrow> string \<Rightarrow> 'w
     \<Rightarrow> bool \<times> string \<times> 'w" where
  "writeEoeSdo bk master position index subIndex value error w =
     (case bk of
        None \<Rightarrow> (False, ''No backend available'', w)
      | Some svc \<Rightarrow>
          let (ok, e, w') = download svc master position index subIndex (number_nat (unat value)) ''uint32'' w
          in (ok, stored error e, w'))"

definition slaveHasEoe :: "'w ecat_service option \<Rightarrow> string \<Rightarrow> int \<Rightarrow> string \<Rightarrow> 'w \<Rightarrow> bool \<times> string \<times> 'w" where
  "slaveHasEoe bk master position error w =
     (case bk of
        None \<Rightarrow> (False, ''No backend available'', w)
      | Some svc \<Rightarrow>
          let (xml, e, w') = slaveXml svc master position w;
              error' = stored error e
          in if error' \<noteq> [] then (False, error', w')
             else (contains_ci ''EoE'' xml \<or> contains_ci ''Ethernet over EtherCAT'' xml, error', w'))"

section \<open>Requests\<close>

definition handleEoeStatus ::
  "'w ecat_service option \<Rightarrow> string \<Rightarrow> jobject \<Rightarrow> 'w \<Rightarrow> json \<times> 'w" where
  "handleEoeStatus bk rid params w =
     (let master = requestedMaster params;
          position = to_int_def (- 1) (jfind params ''position'')
      in if position < 0 then (failure rid ''Missing or invalid 'position' parameter.'', w)
         else if bk = None then (failure rid ''No backend available.'', w)
         else
           let (hasEoe, error, w1) = slaveHasEoe bk master position [] w
           in if error \<noteq> [] \<and> \<not> hasEoe then (failure rid error, w1)
              else
                let (hasIpConfig, ipValue, ipError, w2) =
                      (if hasEoe then readEoeSdo bk master position ''0x8000'' ''0x01'' 0 [] w1
                       else (False, 0, [], w1))
                in (success rid
                      ([(''supported'', JBool hasEoe), (''hasIpConfig'', JBool hasIpConfig)]
                       @ (if hasIpConfig then [(''currentIp'', JStr (formatIp (ip_bytes ipValue)))] else [])
                       @ [(''position'', jint position)]), w2))"

definition optional_ip ::
  "'w ecat_service option \<Rightarrow> string \<Rightarrow> int \<Rightarrow> string \<Rightarrow> string \<Rightarrow> string \<Rightarrow> 'w \<Rightarrow> string \<times> 'w" where
  \<comment> \<open>\<open>if (!text.isEmpty()) { if (parseIp(text, b)) writeEoeSdo(...); }\<close>\<close>
  "optional_ip bk master position subIndex text error w =
     (if text = [] then (error, w)
      else case parseIp text of
        None \<Rightarrow> (error, w)
      | Some bs \<Rightarrow> snd (writeEoeSdo bk master position ''0x8000'' subIndex (ip_value bs) error w))"

definition handleEoeConfigureIp ::
  "'w ecat_service option \<Rightarrow> string \<Rightarrow> jobject \<Rightarrow> 'w \<Rightarrow> json \<times> 'w" where
  "handleEoeConfigureIp bk rid params w =
     (let master = requestedMaster params;
          position = to_int_def (- 1) (jfind params ''position'');
          ip = trimmed (to_string (jfind params ''ip''));
          subnet = trimmed (to_string (jfind params ''subnet''));
          gateway = trimmed (to_string (jfind params ''gateway''));
          dns = trimmed (to_string (jfind params ''dns''))
      in if position < 0 then (failure rid ''Missing or invalid 'position' parameter.'', w)
         else if ip = [] \<or> subnet = [] then (failure rid ''Missing 'ip' or 'subnet' parameter.'', w)
         else case parseIp ip of
           None \<Rightarrow> (failure rid (''Invalid IP address: '' @ [CHR 0x27] @ ip @ [CHR 0x27] @ ''.''), w)
         | Some ipBytes \<Rightarrow> (case parseIp subnet of
             None \<Rightarrow> (failure rid (''Invalid subnet mask: '' @ [CHR 0x27] @ subnet @ [CHR 0x27] @ ''.''), w)
           | Some subnetBytes \<Rightarrow>
               let (ok1, error1, w1) =
                     writeEoeSdo bk master position ''0x8000'' ''0x01'' (ip_value ipBytes) [] w
               in if \<not> ok1 then (failure rid (''Failed to set IP: '' @ error1), w1)
                  else
                    let (ok2, error2, w2) =
                          writeEoeSdo bk master position ''0x8000'' ''0x02'' (ip_value subnetBytes) error1 w1
                    in if \<not> ok2 then (failure rid (''Failed to set subnet: '' @ error2), w2)
                       else
                         let (error3, w3) = optional_ip bk master position ''0x03'' gateway error2 w2;
                             (error4, w4) = optional_ip bk master position ''0x04'' dns error3 w3
                         in (success rid
                               ([(''success'', JBool True), (''ip'', JStr ip), (''subnet'', JStr subnet)]
                                @ (if gateway \<noteq> [] then [(''gateway'', JStr gateway)] else [])
                                @ (if dns \<noteq> [] then [(''dns'', JStr dns)] else [])
                                @ [(''message'', JStr (''EoE IP configured for slave '' @ number_int position
                                      @ '': '' @ ip @ ''/'' @ subnet))]), w4)))"

definition handleEoeGetIp ::
  "'w ecat_service option \<Rightarrow> string \<Rightarrow> jobject \<Rightarrow> 'w \<Rightarrow> json \<times> 'w" where
  "handleEoeGetIp bk rid params w =
     (let master = requestedMaster params;
          position = to_int_def (- 1) (jfind params ''position'')
      in if position < 0 then (failure rid ''Missing or invalid 'position' parameter.'', w)
         else
           let (ok, ipValue, error1, w1) = readEoeSdo bk master position ''0x8000'' ''0x01'' 0 [] w
           in if \<not> ok then (failure rid (''Failed to read IP: '' @ error1), w1)
              else
                let (ok2, subnetValue, error2, w2) = readEoeSdo bk master position ''0x8000'' ''0x02'' 0 error1 w1;
                    (ok3, gwValue, error3, w3) = readEoeSdo bk master position ''0x8000'' ''0x03'' 0 error2 w2;
                    (ok4, dnsValue, error4, w4) = readEoeSdo bk master position ''0x8000'' ''0x04'' 0 error3 w3
                in (success rid
                      [(''ip'', JStr (formatIp (ip_bytes ipValue))),
                       (''subnet'', JStr (formatIp (ip_bytes subnetValue))),
                       (''gateway'', JStr (formatIp (ip_bytes gwValue))),
                       (''dns'', JStr (formatIp (ip_bytes dnsValue))), (''position'', jint position)], w4))"

definition handleEoeStats ::
  "'w ecat_service option \<Rightarrow> string \<Rightarrow> jobject \<Rightarrow> 'w \<Rightarrow> json \<times> 'w" where
  "handleEoeStats bk rid params w =
     (let master = requestedMaster params;
          position = to_int_def (- 1) (jfind params ''position'')
      in if position < 0 then (failure rid ''Missing or invalid 'position' parameter.'', w)
         else
           let (ok1, txFrames, error1, w1) = readEoeSdo bk master position ''0x8000'' ''0x10'' 0 [] w;
               (ok2, rxFrames, error2, w2) = readEoeSdo bk master position ''0x8000'' ''0x11'' 0 error1 w1;
               (ok3, txErrors, error3, w3) = readEoeSdo bk master position ''0x8000'' ''0x12'' 0 error2 w2;
               (ok4, rxErrors, error4, w4) = readEoeSdo bk master position ''0x8000'' ''0x13'' 0 error3 w3
           in (success rid
                 [(''txFrames'', jnat (unat txFrames)), (''rxFrames'', jnat (unat rxFrames)),
                  (''txErrors'', jnat (unat txErrors)), (''rxErrors'', jnat (unat rxErrors)),
                  (''position'', jint position)], w4))"

lemmas eoe_defs =
  handleEoeStatus_def handleEoeConfigureIp_def handleEoeGetIp_def handleEoeStats_def

interpretation eoe_status: rpc_handler "handleEoeStatus bk" for bk
  by unfold_locales (simp add: eoe_defs Let_def case_prod_beta)

interpretation eoe_configure: rpc_handler "handleEoeConfigureIp bk" for bk
  by unfold_locales (simp add: eoe_defs Let_def case_prod_beta split: option.splits)

interpretation eoe_get: rpc_handler "handleEoeGetIp bk" for bk
  by unfold_locales (simp add: eoe_defs Let_def case_prod_beta)

interpretation eoe_stats: rpc_handler "handleEoeStats bk" for bk
  by unfold_locales (simp add: eoe_defs Let_def case_prod_beta)

section \<open>Addresses round trip\<close>

lemma length_number_nat: "n < 1000 \<Longrightarrow> length (number_nat n) \<le> 3"
proof -
  assume "n < 1000"
  then have "n div 10 div 10 < 10" by simp
  then show ?thesis
    unfolding number_nat_def
    by (subst digits_base.simps, subst digits_base.simps, subst digits_base.simps) simp
qed

definition octet_text :: "byte \<Rightarrow> string" where
  "octet_text b = number_nat (unat b)"

lemma octet_less: "unat (b :: byte) < 256"
  using unsigned_less [of b] by simp

lemma octet_text_props:
  "length (octet_text b) \<le> 3" "1 \<le> length (octet_text b)" "\<forall>c \<in> set (octet_text b). is_digit c"
  using octet_less [of b] number_nat_not_Nil [of "unat b"]
  by (auto simp: octet_text_def number_nat_digits Suc_le_eq intro: length_number_nat simp del: number_nat_not_Nil)

lemma to_int32_octet: "to_int32 (octet_text b) = Some (int (unat b))"
  using octet_less [of b] by (simp add: octet_text_def)

lemma first_octet:
  "v = [] \<or> v = ''.'' @ r \<Longrightarrow>
   first_atom fl (Grp k [Many is_digit 1 (Some 3)]) (pre, octet_text b @ v, caps)
     (rev (octet_text b) @ pre, v, (k, octet_text b) # caps)"
  by (rule first_grp, rule first_match_Cons [OF first_many_upto])
     (use octet_text_props [of b] in \<open>auto simp: is_digit_def [of "CHR ''.''"] code_of_def\<close>)

lemma first_octet_dot:
  "first_atom fl (Grp k [Many is_digit 1 (Some 3)]) (pre, octet_text b @ ''.'' @ v, caps)
     (rev (octet_text b) @ pre, ''.'' @ v, (k, octet_text b) # caps)"
  by (rule first_octet) simp

lemma first_octet_end:
  "first_atom fl (Grp k [Many is_digit 1 (Some 3)]) (pre, octet_text b, caps)
     (rev (octet_text b) @ pre, [], (k, octet_text b) # caps)"
  using first_octet [of "[]" "[]" fl k pre b caps] by simp

lemma ip_match:
  "\<exists>p. rx_match rx_plain ip_re (octet_text a @ ''.'' @ octet_text b @ ''.'' @ octet_text c @ ''.'' @ octet_text d)
     = Some (p, [], [(4, octet_text d), (3, octet_text c), (2, octet_text b), (1, octet_text a)])"
  unfolding ip_re_def
  by (intro exI, rule rx_match_first)
     (rule first_match_Cons [OF first_bol], rule first_match_Cons [OF first_octet_dot],
      rule first_match_Cons [OF first_lit], simp add: rx_plain_def,
      rule first_match_Cons [OF first_octet_dot], rule first_match_Cons [OF first_lit], simp add: rx_plain_def,
      rule first_match_Cons [OF first_octet_dot], rule first_match_Cons [OF first_lit], simp add: rx_plain_def,
      rule first_match_Cons [OF first_octet_end], rule first_match_Cons [OF first_eol], simp)

lemma formatIp_octets:
  "formatIp [a, b, c, d] = octet_text a @ ''.'' @ octet_text b @ ''.'' @ octet_text c @ ''.'' @ octet_text d"
  by (simp add: formatIp_def octet_text_def)

lemma dot_not_space: "\<not> is_space (CHR ''.'')"
  by (simp add: is_space_def code_of_def Let_def)

lemma trimmed_formatIp: "trimmed (formatIp [a, b, c, d]) = formatIp [a, b, c, d]"
  unfolding formatIp_octets
  by (rule trimmed_id) (use octet_text_props(3) dot_not_space is_digit_not_space in auto)

lemma octets_texts: "octets (map octet_text bs) = Some bs"
proof (induction bs)
  case (Cons b bs)
  have "int (unat b) \<le> 255" using octet_less [of b] by linarith
  with Cons show ?case by (simp add: to_int32_octet [simplified])
qed simp

lemma list4: "length bs = 4 \<Longrightarrow> \<exists>a b c d. bs = [a, b, c, d]"
  by (auto simp: numeral_eq_Suc length_Suc_conv)

lemma parse_format_ip: "length bs = 4 \<Longrightarrow> parseIp (formatIp bs) = Some bs"
proof -
  assume "length bs = 4"
  then obtain a b c d where bs: "bs = [a, b, c, d]" using list4 by blast
  from ip_match [of a b c d] obtain p where
    "rx_match rx_plain ip_re (formatIp bs) = Some (p, [], [(4, octet_text d), (3, octet_text c),
       (2, octet_text b), (1, octet_text a)])"
    unfolding bs formatIp_octets by blast
  then show ?thesis
    using octets_texts [of bs] unfolding parseIp_def by (simp add: bs trimmed_formatIp captured_def)
qed

lemma ip_bytes_value: "length bs = 4 \<Longrightarrow> ip_bytes (ip_value bs) = bs"
proof -
  assume "length bs = 4"
  then obtain a b c d where bs: "bs = [a, b, c, d]" using list4 by blast
  have m: "(0xFF :: u32) = mask 8" by (simp add: mask_eq_exp_minus_1)
  have top: "\<not> bit (x :: byte) (k + n)" if "8 \<le> k" for x k n
    using that bit_imp_le_length [of x "k + n"] by auto
  show ?thesis
    unfolding bs ip_bytes_def ip_value_def m
    by (auto intro!: bit_word_eqI simp: bit_simps top)
qed

lemma number_value_roundtrip: "to_uint32 (number_nat (unat (v :: u32))) = Some (unat v)"
proof -
  have "unat v < 2 ^ 32" using unsigned_less [of v, where ?'a = nat] by simp
  then show ?thesis by (rule to_uint_number_nat)
qed

text \<open>
  Formatting an address and parsing it give the octets back, storing the octets
  in a 32-bit value and taking them out again too, and so do the decimal text a value is written as
  and the number read from it.
\<close>

theorem ip_address_roundtrip:
  assumes "length bs = 4"
  shows "parseIp (formatIp bs) = Some bs \<and> ip_bytes (ip_value bs) = bs
     \<and> to_uint32 (number_nat (unat (ip_value bs))) = Some (unat (ip_value bs))"
  using parse_format_ip [OF assms] ip_bytes_value [OF assms] number_value_roundtrip by blast

theorem ip_address_roundtrip_witness:
  "parseIp (formatIp [192, 168, 0, 10]) = Some [192, 168, 0, 10]"
  using ip_address_roundtrip [of "[192, 168, 0, 10]"] by simp

section \<open>Configuring and reading back\<close>

lemma writeEoeSdo_ok:
  "download svc master position index sub (number_nat (unat value)) ''uint32'' w = (True, None, w') \<Longrightarrow>
   writeEoeSdo (Some svc) master position index sub value error w = (True, error, w')"
  by (simp add: writeEoeSdo_def)

lemmas number_value_roundtrip' [simp] = number_value_roundtrip [simplified]

lemma readEoeSdo_ok:
  "upload svc master position index sub ''uint32'' w = (number_nat (unat v), None, w') \<Longrightarrow>
   readEoeSdo (Some svc) master position index sub value [] w = (True, v, [], w')"
  by (simp add: readEoeSdo_def)

lemma optional_ip_ok:
  assumes "length bs = 4"
    and "\<And>w. download svc master position ''0x8000'' sub (number_nat (unat (ip_value bs))) ''uint32'' w = (True, None, put w)"
  shows "optional_ip (Some svc) master position sub (formatIp bs) error w = (error, put w)"
proof -
  have "formatIp bs \<noteq> []" by (simp add: formatIp_def)
  then show ?thesis
    using assms by (simp add: optional_ip_def parse_format_ip writeEoeSdo_ok)
qed

definition ip_params :: "string \<Rightarrow> int \<Rightarrow> byte list \<Rightarrow> byte list \<Rightarrow> byte list \<Rightarrow> byte list \<Rightarrow> jobject" where
  "ip_params master position ip subnet gateway dns =
     [(''master'', JStr master), (''position'', jint position), (''ip'', JStr (formatIp ip)),
      (''subnet'', JStr (formatIp subnet)), (''gateway'', JStr (formatIp gateway)), (''dns'', JStr (formatIp dns))]"

lemma trimmed_formatIp4: "length bs = 4 \<Longrightarrow> trimmed (formatIp bs) = formatIp bs"
  using list4 [of bs] trimmed_formatIp by auto

lemma requestedMaster_ip_params [simp]: "requestedMaster (ip_params m p a b c d) = trimmed m"
  by (simp add: requestedMaster_def ip_params_def)

lemma formatIp_not_Nil [simp]: "formatIp bs \<noteq> []"
  by (simp add: formatIp_def)

text \<open>
  Claim C33 (functional). On a backend that keeps what is written to the objects \<open>0x8000:01\<close> to \<open>04\<close> of a
  slave (\<open>put\<close> and \<open>get\<close>) and answers it to a read, configuring four addresses succeeds and reading
  the configuration back answers the same four addresses.
\<close>

theorem eoe_configure_then_get:
  assumes down: "\<And>w sub v. download svc (trimmed master) position ''0x8000'' sub v ''uint32'' w = (True, None, put sub v w)"
    and up: "\<And>w sub. upload svc (trimmed master) position ''0x8000'' sub ''uint32'' w = (get sub w, None, w)"
    and store: "\<And>w sub sub' v. get sub (put sub' v w) = (if sub = sub' then v else get sub w)"
    and "int32_ok position" and "0 \<le> position"
    and "length ip = 4" and "length subnet = 4" and "length gateway = 4" and "length dns = 4"
    and "handleEoeConfigureIp (Some svc) rid (ip_params master position ip subnet gateway dns) w = (response, w')"
  shows "ok_of response
     \<and> fst (handleEoeGetIp (Some svc) rid (ip_params master position ip subnet gateway dns) w')
        = success rid [(''ip'', JStr (formatIp ip)), (''subnet'', JStr (formatIp subnet)),
            (''gateway'', JStr (formatIp gateway)), (''dns'', JStr (formatIp dns)), (''position'', jint position)]"
proof -
  let ?p = "ip_params master position ip subnet gateway dns"
  let ?v = "\<lambda>bs. number_nat (unat (ip_value bs))"
  define w4 where "w4 = put ''0x04'' (?v dns) (put ''0x03'' (?v gateway) (put ''0x02'' (?v subnet) (put ''0x01'' (?v ip) w)))"
  have f: "jfind ?p ''ip'' = JStr (formatIp ip)" "jfind ?p ''subnet'' = JStr (formatIp subnet)"
    "jfind ?p ''gateway'' = JStr (formatIp gateway)" "jfind ?p ''dns'' = JStr (formatIp dns)"
    "to_int_def (- 1) (jfind ?p ''position'') = position"
    using assms(4) by (simp_all add: ip_params_def)
  note wr = writeEoeSdo_ok [OF down] and opt = optional_ip_ok [OF _ down]
  have "response = fst (handleEoeConfigureIp (Some svc) rid ?p w)" "w' = snd (handleEoeConfigureIp (Some svc) rid ?p w)"
    using assms(10) by simp_all
  then have c: "ok_of response \<and> w' = w4"
    using assms(5-9)
    by (simp add: handleEoeConfigureIp_def Let_def f trimmed_formatIp4 parse_format_ip wr opt w4_def)
  have g: "get ''0x01'' w4 = ?v ip" "get ''0x02'' w4 = ?v subnet" "get ''0x03'' w4 = ?v gateway" "get ''0x04'' w4 = ?v dns"
    by (simp_all add: w4_def store)
  have read: "readEoeSdo (Some svc) (trimmed master) position ''0x8000'' sub x [] w4 = (True, ip_value bs, [], w4)"
    if "get sub w4 = ?v bs" for sub x bs
    by (rule readEoeSdo_ok) (simp add: up that)
  have "fst (handleEoeGetIp (Some svc) rid ?p w4) = success rid [(''ip'', JStr (formatIp ip)), (''subnet'', JStr (formatIp subnet)),
            (''gateway'', JStr (formatIp gateway)), (''dns'', JStr (formatIp dns)), (''position'', jint position)]"
    using assms(5-9)
    by (simp add: handleEoeGetIp_def Let_def f(5) read [OF g(1)] read [OF g(2)] read [OF g(3)] read [OF g(4)] ip_bytes_value)
  with c show ?thesis by simp
qed

definition store_service :: "(string \<Rightarrow> string) ecat_service" where
  "store_service = (cli_service (\<lambda>prog args w. (Exited 0 [] [], w)) (\<lambda>w. ([], None, w)))
     \<lparr>upload := \<lambda>m p i sub t w. (w sub, None, w), download := \<lambda>m p i sub v t w. (True, None, w(sub := v))\<rparr>"

theorem eoe_configure_then_get_witness:
  "jfind (result_of (fst (handleEoeGetIp (Some store_service) ''r''
       (ip_params ''0'' 3 [10, 0, 0, 2] [255, 0, 0, 0] [10, 0, 0, 1] [8, 8, 8, 8])
       (snd (handleEoeConfigureIp (Some store_service) ''r''
         (ip_params ''0'' 3 [10, 0, 0, 2] [255, 0, 0, 0] [10, 0, 0, 1] [8, 8, 8, 8]) (\<lambda>_. [])))))) ''gateway''
     = JStr (formatIp [10, 0, 0, 1])"
proof -
  let ?p = "ip_params ''0'' 3 [10, 0, 0, 2] [255, 0, 0, 0] [10, 0, 0, 1] [8, 8, 8, 8]"
  have "fst (handleEoeGetIp (Some store_service) ''r'' ?p
       (snd (handleEoeConfigureIp (Some store_service) ''r'' ?p (\<lambda>_. []))))
    = success ''r'' [(''ip'', JStr (formatIp [10, 0, 0, 2])), (''subnet'', JStr (formatIp [255, 0, 0, 0])),
        (''gateway'', JStr (formatIp [10, 0, 0, 1])), (''dns'', JStr (formatIp [8, 8, 8, 8])), (''position'', jint 3)]"
    by (rule eoe_configure_then_get [where put = "\<lambda>sub v w. w(sub := v)" and get = "\<lambda>sub w. w sub"
          and w = "\<lambda>_. []" and response = "fst (handleEoeConfigureIp (Some store_service) ''r'' ?p (\<lambda>_. []))", THEN conjunct2])
       (simp_all add: store_service_def)
  then show ?thesis by simp
qed

text \<open>
  One error variable serves all four reads of \<open>eoeGetIp\<close> and is never cleared: once the
  optional subnet read has failed, the gateway and DNS reads count as failed and are answered as
  \<open>0.0.0.0\<close>, whatever values the slave answers without an error.
\<close>

theorem eoe_get_ip_drops_reads_after_failure:
  assumes "\<And>w. upload svc (trimmed master) position ''0x8000'' ''0x01'' ''uint32'' w = (number_nat (unat v), None, w)"
    and "\<And>w. upload svc (trimmed master) position ''0x8000'' ''0x02'' ''uint32'' w = ([], Some msg, w)" and "msg \<noteq> []"
    and "\<And>w. upload svc (trimmed master) position ''0x8000'' ''0x03'' ''uint32'' w = (gw, None, w)"
    and "\<And>w. upload svc (trimmed master) position ''0x8000'' ''0x04'' ''uint32'' w = (dns, None, w)"
    and "int32_ok position" and "0 \<le> position"
  shows "fst (handleEoeGetIp (Some svc) rid [(''master'', JStr master), (''position'', jint position)] w)
     = success rid [(''ip'', JStr (formatIp (ip_bytes v))), (''subnet'', JStr ''0.0.0.0''),
         (''gateway'', JStr ''0.0.0.0''), (''dns'', JStr ''0.0.0.0''), (''position'', jint position)]"
proof -
  have "digit_char 0 = CHR ''0''" by code_simp
  then have z: "formatIp (ip_bytes 0) = ''0.0.0.0''"
    by (simp add: ip_bytes_def formatIp_def number_nat_def digits_base.simps [of 10 0])
  show ?thesis
    using assms z
    by (simp add: handleEoeGetIp_def requestedMaster_def Let_def readEoeSdo_def)
qed

definition partial_service :: "unit ecat_service" where
  "partial_service = (cli_service (\<lambda>prog args w. (Exited 0 [] [], w)) (\<lambda>w. ([], None, w)))
     \<lparr>upload := \<lambda>m p i sub t w. (if sub = ''0x02'' then ([], Some ''no such object'', w) else (number_nat 1, None, w))\<rparr>"

theorem eoe_get_ip_drops_reads_after_failure_witness:
  "jfind (result_of (fst (handleEoeGetIp (Some partial_service) ''r'' [(''master'', JStr ''0''), (''position'', jint 0)] ())))
     ''gateway'' = JStr ''0.0.0.0''
   \<and> upload partial_service ''0'' 0 ''0x8000'' ''0x03'' ''uint32'' () = (number_nat 1, None, ())"
proof -
  have "fst (handleEoeGetIp (Some partial_service) ''r'' [(''master'', JStr ''0''), (''position'', jint 0)] ())
     = success ''r'' [(''ip'', JStr (formatIp (ip_bytes 1))), (''subnet'', JStr ''0.0.0.0''),
         (''gateway'', JStr ''0.0.0.0''), (''dns'', JStr ''0.0.0.0''), (''position'', jint 0)]"
    by (rule eoe_get_ip_drops_reads_after_failure [where msg = "''no such object''" and gw = "number_nat 1" and dns = "number_nat 1"])
       (simp_all add: partial_service_def)
  then show ?thesis by (simp add: partial_service_def)
qed

end
