(* ===== verification/SoEHandler.thy ===== *)
theory SoEHandler
  imports Backend
begin

text \<open>
  \<^verbatim>\<open>apps/ecatd/handlers/SoEHandler.{h,cpp}\<close>: Servo over EtherCAT. A request is checked, turned into the
  arguments of \<open>ethercat soe_read\<close> or \<open>soe_write\<close>, and the tool's outcome is answered.
\<close>

section \<open>Running the tool\<close>

definition tool_result :: "int \<Rightarrow> outcome \<Rightarrow> int \<times> string \<times> string" where
  \<comment> \<open>exit code, output and error text; \<open>waitForFinished\<close> also answers false where the tool did not start\<close>
  "tool_result timeoutMs out =
     (case out of
        Exited code so se \<Rightarrow> (code, so, se)
      | _ \<Rightarrow> (- 1, [], ''ethercat command timed out after '' @ number_int timeoutMs @ ''ms''))"

definition runEthercatCommand ::
  "'w proc \<Rightarrow> int \<Rightarrow> string list \<Rightarrow> 'w \<Rightarrow> (int \<times> string \<times> string) \<times> 'w" where
  "runEthercatCommand proc timeoutMs args w =
     (let (out, w') = proc ''ethercat'' args w in (tool_result timeoutMs out, w'))"

section \<open>Identification numbers\<close>

definition idn_re :: "rx list" where
  \<comment> \<open>\<open>^[SsPp]-[0-7]-\d{1,5}$\<close>\<close>
  "idn_re = [Bol, Cls (\<lambda>c. c \<in> set ''SsPp''), Lit ''-'', Cls (\<lambda>c. c \<in> set ''01234567''), Lit ''-'',
     Many is_digit 1 (Some 5), Eol]"

definition validateIdn :: "string \<Rightarrow> string option" where
  \<comment> \<open>the error, if the number is refused\<close>
  "validateIdn idn =
     (if idn = [] then Some ''Missing 'idn' parameter.''
      else if has_match rx_plain idn_re idn then None
      else
        let ok = (if starts_with_ci ''0x'' idn then to_uint (2 ^ 32) 16 (drop 2 idn) \<noteq> None
                  else to_uint (2 ^ 32) 0 idn \<noteq> None)
        in if ok then None
           else Some (''Invalid IDN '' @ [CHR 0x27] @ idn @ [CHR 0x27]
                  @ ''. Use S-x-yyyy, P-x-yyyy, or a numeric value.''))"

section \<open>Requests\<close>

definition soe_read_args :: "int \<Rightarrow> string \<Rightarrow> int \<Rightarrow> string \<Rightarrow> string list" where
  "soe_read_args position type drive idn =
     [''soe_read'', ''-p'', number_int position] @ (if type \<noteq> [] then [''--type'', type] else [])
     @ [number_int drive, idn]"

definition soe_write_args :: "int \<Rightarrow> string \<Rightarrow> int \<Rightarrow> string \<Rightarrow> string \<Rightarrow> string list" where
  "soe_write_args position type drive idn v =
     [''soe_write'', ''-p'', number_int position] @ (if type \<noteq> [] then [''--type'', type] else [])
     @ [number_int drive, idn, v]"

definition tool_error :: "string \<Rightarrow> int \<Rightarrow> string \<Rightarrow> string" where
  "tool_error what exitCode stdErr =
     (if trimmed stdErr = [] then what @ '' failed with exit code '' @ number_int exitCode else trimmed stdErr)"

definition handleSoeRead :: "'w proc \<Rightarrow> string \<Rightarrow> jobject \<Rightarrow> 'w \<Rightarrow> json \<times> 'w" where
  "handleSoeRead proc rid params w =
     (let position = to_int_def (- 1) (jfind params ''position'');
          idn = trimmed (to_string (jfind params ''idn''));
          drive = to_int_def 0 (jfind params ''drive'');
          type = trimmed (to_string (jfind params ''type''))
      in if position < 0 then (failure rid ''Missing or invalid 'position' parameter.'', w)
         else case validateIdn idn of
           Some idnError \<Rightarrow> (failure rid idnError, w)
         | None \<Rightarrow>
             if drive < 0 \<or> drive > 7 then (failure rid ''Drive number must be 0-7.'', w)
             else
               let ((exitCode, so, se), w') = runEthercatCommand proc 10000 (soe_read_args position type drive idn) w
               in if exitCode \<noteq> 0 then (failure rid (tool_error ''SoE read'' exitCode se), w')
                  else (success rid [(''value'', JStr (trimmed so)), (''idn'', JStr idn), (''type'', JStr type),
                          (''drive'', jint drive)], w'))"

definition handleSoeWrite :: "'w proc \<Rightarrow> string \<Rightarrow> jobject \<Rightarrow> 'w \<Rightarrow> json \<times> 'w" where
  "handleSoeWrite proc rid params w =
     (let position = to_int_def (- 1) (jfind params ''position'');
          idn = trimmed (to_string (jfind params ''idn''));
          v = to_string (jfind params ''value'');
          drive = to_int_def 0 (jfind params ''drive'');
          type = trimmed (to_string (jfind params ''type''))
      in if position < 0 then (failure rid ''Missing or invalid 'position' parameter.'', w)
         else case validateIdn idn of
           Some idnError \<Rightarrow> (failure rid idnError, w)
         | None \<Rightarrow>
             if v = [] then (failure rid ''Missing 'value' parameter.'', w)
             else if drive < 0 \<or> drive > 7 then (failure rid ''Drive number must be 0-7.'', w)
             else
               let ((exitCode, so, se), w') = runEthercatCommand proc 10000 (soe_write_args position type drive idn v) w
               in if exitCode \<noteq> 0 then (failure rid (tool_error ''SoE write'' exitCode se), w')
                  else (success rid [(''success'', JBool True), (''idn'', JStr idn), (''drive'', jint drive),
                          (''message'', JStr (''IDN '' @ idn @ '' written to slave '' @ number_int position
                             @ '' (drive '' @ number_int drive @ '')''))], w'))"

interpretation soe_read: rpc_handler "handleSoeRead proc" for proc
  by unfold_locales (simp add: handleSoeRead_def Let_def case_prod_beta split: option.splits)

interpretation soe_write: rpc_handler "handleSoeWrite proc" for proc
  by unfold_locales (simp add: handleSoeWrite_def Let_def case_prod_beta split: option.splits)

section \<open>What reaches the tool\<close>

lemma digit_val_minus: "digit_val (CHR ''-'') = 99"
  by (simp add: digit_val_def code_of_def)

lemma parse_nat_head: "parse_nat b (c # s) \<noteq> None \<Longrightarrow> b < 99 \<Longrightarrow> c \<noteq> CHR ''-''"
  by (auto simp: parse_nat_def all_digits_def digit_val_minus split: if_splits)

lemma starts_with_ci_0x_head: "starts_with_ci ''0x'' (c # s) \<Longrightarrow> c \<noteq> CHR ''-''"
  by (auto simp: starts_with_ci_def starts_with_def to_lower_def to_lower_char_def code_of_def Let_def)

lemma parse_base_head: "parse_base 0 (c # s) \<noteq> None \<Longrightarrow> c \<noteq> CHR ''-''"
  using starts_with_ci_0x_head [of c s] parse_nat_head [of 8 c s] parse_nat_head [of 10 c s]
  by (auto simp: parse_base_def split: if_splits)

lemma strip_plus_Cons: "strip_plus (c # s) = (if c = CHR ''+'' then s else c # s)"
  by (simp add: strip_plus_def)

lemma idn_re_head: "has_match rx_plain idn_re (c # s) \<Longrightarrow> c \<noteq> CHR ''-''"
proof -
  assume "has_match rx_plain idn_re (c # s)"
  then obtain m where "rx_match rx_plain idn_re (c # s) = Some m" by (auto simp: has_match_def)
  then have "first_match rx_plain (tl idn_re) ([], c # s, []) m"
    using rx_match_anchored [of rx_plain "tl idn_re"] by (simp add: idn_re_def rx_plain_def)
  then show ?thesis by (auto simp: idn_re_def first_match_def split: if_splits)
qed

lemma trimmed_trimmed_head:
  assumes "trimmed s = c # r"
  shows "\<not> is_space c \<and> trimmed (c # r) = c # r"
proof -
  have tr: "trimmed s = rev (dropWhile is_space (rev (dropWhile is_space s)))" by (simp add: trimmed_def)
  define t where "t = dropWhile is_space s"
  obtain u where u: "t = trimmed s @ u" "\<forall>x \<in> set u. is_space x"
  proof
    show "t = trimmed s @ rev (takeWhile is_space (rev t))"
      unfolding tr t_def by (metis rev_append rev_rev_ident takeWhile_dropWhile_id)
    show "\<forall>x \<in> set (rev (takeWhile is_space (rev t))). is_space x" by (auto dest: set_takeWhileD)
  qed
  have "t = c # r @ u" using u(1) assms by simp
  then have c: "\<not> is_space c" unfolding t_def by (metis hd_dropWhile list.distinct(1) list.sel(1))
  have "dropWhile is_space (rev (c # r)) = rev (c # r)"
    using tr assms by (metis dropWhile_idem rev_rev_ident)
  with c show ?thesis by (simp add: trimmed_def)
qed

lemma valid_idn_head:
  assumes "validateIdn (trimmed s) = None"
  shows "trimmed s \<noteq> [] \<and> hd (trimmed s) \<noteq> CHR ''-''"
proof (cases "trimmed s")
  case Nil
  with assms show ?thesis by (simp add: validateIdn_def)
next
  case (Cons c r)
  from trimmed_trimmed_head [OF Cons] have t: "trimmed (c # r) = c # r" by simp
  consider "has_match rx_plain idn_re (c # r)" | "starts_with_ci ''0x'' (c # r)"
    | "to_uint (2 ^ 32) 0 (c # r) \<noteq> None"
    using assms unfolding Cons validateIdn_def by (auto simp: Let_def split: if_splits)
  then have "c \<noteq> CHR ''-''"
  proof cases
    case 3
    then have "parse_base 0 (strip_plus (c # r)) \<noteq> None"
      by (auto simp: to_uint_def t split: option.splits)
    then show ?thesis using parse_base_head [of c r] by (auto simp: strip_plus_Cons split: if_splits)
  qed (use idn_re_head starts_with_ci_0x_head in blast)+
  with Cons show ?thesis by simp
qed

text \<open>
  The tool is run only for a request that passed every check: where a read or a
  write changed the world or succeeded, the position is not negative, the drive is one of 0 to 7, the
  identification number was accepted and does not begin with a dash (so the tool does not take it
  for an option), and a write has a value.
\<close>

theorem soe_runs_checked_requests_only:
  assumes "(is_write \<and> handleSoeWrite proc rid params w = (response, w'))
      \<or> (\<not> is_write \<and> handleSoeRead proc rid params w = (response, w'))"
    and "w' \<noteq> w \<or> ok_of response"
  shows "0 \<le> to_int_def (- 1) (jfind params ''position'')
     \<and> to_int_def 0 (jfind params ''drive'') \<in> {0..7}
     \<and> validateIdn (trimmed (to_string (jfind params ''idn''))) = None
     \<and> hd (trimmed (to_string (jfind params ''idn''))) \<noteq> CHR ''-''
     \<and> (is_write \<longrightarrow> to_string (jfind params ''value'') \<noteq> [])"
proof -
  have "0 \<le> to_int_def (- 1) (jfind params ''position'')
     \<and> to_int_def 0 (jfind params ''drive'') \<in> {0..7}
     \<and> validateIdn (trimmed (to_string (jfind params ''idn''))) = None
     \<and> (is_write \<longrightarrow> to_string (jfind params ''value'') \<noteq> [])"
    using assms
    by (auto simp: handleSoeWrite_def handleSoeRead_def Let_def split: if_splits option.splits)
  with valid_idn_head show ?thesis by blast
qed

theorem soe_runs_checked_requests_only_witness:
  "validateIdn (trimmed (to_string (jfind [(''position'', jint 1), (''idn'', JStr ''S-0-15'')] ''idn''))) = None"
proof -
  let ?p = "[(''position'', jint 1), (''idn'', JStr ''S-0-15'')]"
  let ?proc = "\<lambda>prog args w. (Exited 0 ''5'' [], w)"
  have "has_match rx_plain idn_re ''S-0-15''" by code_simp
  then have v: "validateIdn ''S-0-15'' = None" by (simp add: validateIdn_def)
  have t: "trimmed ''S-0-15'' = ''S-0-15''" by code_simp
  have "ok_of (fst (handleSoeRead ?proc ''r'' ?p ()))"
    by (simp add: handleSoeRead_def runEthercatCommand_def tool_result_def Let_def v t)
  then show ?thesis
    using soe_runs_checked_requests_only [of False ?proc "''r''" ?p "()" "fst (handleSoeRead ?proc ''r'' ?p ())" "()"]
    by (simp add: prod_eq_iff)
qed

end
