(* ===== verification/FoEHandler.thy ===== *)
theory FoEHandler
  imports SoEHandler
begin

text \<open>
  \<^verbatim>\<open>apps/ecatd/handlers/FoEHandler.{h,cpp}\<close>: firmware files over EtherCAT, with the checks that keep a
  transfer inside the allowed directories. The file system and the environment are parameters: the
  record \<open>file_system\<close> names the queries the code makes, each a function of the world, and \<open>fs_others\<close> is what
  other processes do to the world before the next look of a request, so that each check and the tool see the
  world of their time. The queries inside one check are not separated.
\<close>

section \<open>The file system\<close>

datatype file_kind = SymLink | Regular | OtherKind

datatype lstat_result = NoEntry | StatError | Stat file_kind nat

record 'w file_system =
  \<comment> \<open>\<open>canonicalFilePath\<close>: empty where the file, links followed, does not exist\<close>
  fs_canonical :: "string \<Rightarrow> 'w \<Rightarrow> string"
  fs_dir_exists :: "string \<Rightarrow> 'w \<Rightarrow> bool"
  fs_lstat :: "string \<Rightarrow> 'w \<Rightarrow> lstat_result"
  fs_exists :: "string \<Rightarrow> 'w \<Rightarrow> bool"
  fs_readable :: "string \<Rightarrow> 'w \<Rightarrow> bool"
  fs_size :: "string \<Rightarrow> 'w \<Rightarrow> nat"
  fs_remove :: "string \<Rightarrow> 'w \<Rightarrow> 'w"
  fs_firmware_env :: "'w \<Rightarrow> string"
  fs_home :: "'w \<Rightarrow> string"
  fs_others :: "nat \<Rightarrow> 'w \<Rightarrow> 'w"

definition quoted :: "string \<Rightarrow> string" where
  "quoted s = [CHR 0x27] @ s @ [CHR 0x27]"

definition dir_part :: "string \<Rightarrow> string" where
  \<comment> \<open>\<open>QFileInfo::path()\<close> of an absolute path\<close>
  "dir_part path = (let d = rev (drop 1 (dropWhile (\<lambda>c. c \<noteq> CHR ''/'') (rev path)))
     in if d = [] then ''/'' else d)"

definition firmwareBaseDirs :: "'w file_system \<Rightarrow> 'w \<Rightarrow> string list" where
  "firmwareBaseDirs fs w =
     (let env = fs_firmware_env fs w in
      if env \<noteq> [] then [env]
      else let home = fs_home fs w in
        ''/tmp'' # (if home \<noteq> [] \<and> home \<noteq> ''/tmp'' then [home] else []))"

definition inside_base :: "string \<Rightarrow> string \<Rightarrow> bool" where
  "inside_base resolved baseCanonical \<longleftrightarrow>
     resolved = baseCanonical \<or> baseCanonical = ''/'' \<or> starts_with (baseCanonical @ ''/'') resolved"

fun in_some_base :: "'w file_system \<Rightarrow> 'w \<Rightarrow> string \<Rightarrow> string list \<Rightarrow> bool" where
  "in_some_base fs w resolved [] = False"
| "in_some_base fs w resolved (base # bases) =
     (let baseCanonical = fs_canonical fs base w in
      if baseCanonical = [] then in_some_base fs w resolved bases
      else inside_base resolved baseCanonical \<or> in_some_base fs w resolved bases)"

definition resolved_path :: "'w file_system \<Rightarrow> string \<Rightarrow> 'w \<Rightarrow> string" where
  "resolved_path fs path w =
     (let r = fs_canonical fs path w in if r = [] then fs_canonical fs (dir_part path) w else r)"

definition validateFilePath :: "'w file_system \<Rightarrow> string \<Rightarrow> 'w \<Rightarrow> string option" where
  \<comment> \<open>the error, if the path is refused\<close>
  "validateFilePath fs path w =
     (if \<not> starts_with ''/'' path then Some (''File path '' @ quoted path @ '' must be absolute.'')
      else if contains_str ''/../'' path \<or> ends_with ''/..'' path \<or> path = ''..'' \<or> contains_str ''/..'' path then
        Some (''File path '' @ quoted path @ '' must not contain '' @ quoted ''..'' @ '' components.'')
      else if \<not> fs_dir_exists fs (dir_part path) w then
        Some (''Directory '' @ quoted (dir_part path) @ '' does not exist.'')
      else
        let resolved = resolved_path fs path w in
        if resolved = [] then Some (''Cannot resolve '' @ quoted (dir_part path) @ ''.'')
        else if in_some_base fs w resolved (firmwareBaseDirs fs w) then None
        else Some (''File path '' @ quoted path @ '' resolves to '' @ quoted resolved
               @ '', outside the allowed firmware directory.''))"

definition rejectUnsafeExistingFile :: "'w file_system \<Rightarrow> string \<Rightarrow> 'w \<Rightarrow> string option" where
  "rejectUnsafeExistingFile fs path w =
     (case fs_lstat fs path w of
        NoEntry \<Rightarrow> None
      | StatError \<Rightarrow> Some (''Cannot stat '' @ quoted path @ ''.'')
      | Stat kind nlink \<Rightarrow>
          (case kind of
             SymLink \<Rightarrow> Some (''File '' @ quoted path @ '' must not be a symbolic link.'')
           | OtherKind \<Rightarrow> Some (''File '' @ quoted path @ '' must be a regular file.'')
           | Regular \<Rightarrow>
               if nlink > 1 then Some (''File '' @ quoted path @ '' must not be a hard link (link count ''
                    @ number_nat nlink @ '').'')
               else None))"

definition revalidateCreatedFile :: "'w file_system \<Rightarrow> string \<Rightarrow> 'w \<Rightarrow> string option \<times> 'w" where
  "revalidateCreatedFile fs path w =
     (case validateFilePath fs path w of
        Some e \<Rightarrow> (Some e, w)
      | None \<Rightarrow> let w1 = fs_others fs 2 w in (rejectUnsafeExistingFile fs path w1, w1))"

definition fileSizeBytes :: "'w file_system \<Rightarrow> string \<Rightarrow> 'w \<Rightarrow> int" where
  "fileSizeBytes fs path w = (if fs_exists fs path w then int (fs_size fs path w) else - 1)"

section \<open>Requests\<close>

definition foe_read_args :: "int \<Rightarrow> string \<Rightarrow> string list" where
  "foe_read_args position filePath = [''foe_read'', ''-p'', number_int position, ''--output'', filePath]"

definition handleFoeRead ::
  "'w proc \<Rightarrow> 'w file_system \<Rightarrow> string \<Rightarrow> jobject \<Rightarrow> 'w \<Rightarrow> json \<times> 'w" where
  "handleFoeRead proc fs rid params w =
     (let position = to_int_def (- 1) (jfind params ''position'');
          filePath = trimmed (to_string (jfind params ''filePath''))
      in if position < 0 then (failure rid ''Missing or invalid 'position' parameter.'', w)
         else if filePath = [] then (failure rid ''Missing 'filePath' parameter.'', w)
         else case validateFilePath fs filePath w of
           Some pathError \<Rightarrow> (failure rid pathError, w)
         | None \<Rightarrow>
             let ((exitCode, so, se), w1) = runEthercatCommand proc 120000 (foe_read_args position filePath) (fs_others fs 0 w)
             in if exitCode \<noteq> 0 then (failure rid (tool_error ''FoE read'' exitCode se), w1)
                else case revalidateCreatedFile fs filePath (fs_others fs 1 w1) of
                  (Some recheckError, w2) \<Rightarrow> (failure rid recheckError, fs_remove fs filePath (fs_others fs 3 w2))
                | (None, w2) \<Rightarrow>
                    let w3 = fs_others fs 3 w2;
                        size = fileSizeBytes fs filePath w3;
                        shown = (if size \<ge> 0 then size else 0)
                    in (success rid
                          [(''success'', JBool True), (''filePath'', JStr filePath), (''fileSize'', jint shown),
                           (''message'', JStr (''Firmware read from slave '' @ number_int position @ '' to ''
                              @ quoted filePath @ '' ('' @ number_int shown @ '' bytes)''))], w3))"

definition foe_password :: "rat \<Rightarrow> int" where
  "foe_password pwd = (if pwd \<ge> 0 \<and> pwd \<le> 4294967295 then \<lfloor>pwd\<rfloor> else 0)"

definition foe_write_args :: "int \<Rightarrow> string \<Rightarrow> int \<Rightarrow> string list" where
  "foe_write_args position filePath password =
     [''foe_write'', ''-p'', number_int position, ''--input'', filePath]
     @ (if password \<noteq> 0 then [''--password'', number_int password] else [])"

definition handleFoeWrite ::
  "'w proc \<Rightarrow> 'w file_system \<Rightarrow> string \<Rightarrow> jobject \<Rightarrow> 'w \<Rightarrow> json \<times> 'w" where
  \<comment> \<open>\<open>fileInfo\<close> caches the size it was asked for before the transfer\<close>
  "handleFoeWrite proc fs rid params w =
     (let position = to_int_def (- 1) (jfind params ''position'');
          filePath = trimmed (to_string (jfind params ''filePath''));
          password = foe_password (to_double_def 0 (jfind params ''password''))
      in if position < 0 then (failure rid ''Missing or invalid 'position' parameter.'', w)
         else if filePath = [] then (failure rid ''Missing 'filePath' parameter.'', w)
         else case validateFilePath fs filePath w of
           Some pathError \<Rightarrow> (failure rid pathError, w)
         | None \<Rightarrow> (let w1 = fs_others fs 0 w in case rejectUnsafeExistingFile fs filePath w1 of
             Some pathError \<Rightarrow> (failure rid pathError, w1)
           | None \<Rightarrow>
               let w2 = fs_others fs 1 w1; w3 = fs_others fs 2 w2 in
               if \<not> fs_exists fs filePath w2 then
                 (failure rid (''Input file '' @ quoted filePath @ '' does not exist.''), w2)
               else if \<not> fs_readable fs filePath w3 then
                 (failure rid (''Input file '' @ quoted filePath @ '' is not readable.''), w3)
               else
                 let ((exitCode, so, se), w4) =
                       runEthercatCommand proc 120000 (foe_write_args position filePath password) (fs_others fs 3 w3)
                 in if exitCode \<noteq> 0 then (failure rid (tool_error ''FoE write'' exitCode se), w4)
                    else
                      let fileSize = fs_size fs filePath w2
                      in (success rid
                            [(''success'', JBool True), (''bytesWritten'', jnat fileSize),
                             (''message'', JStr (''Firmware '' @ quoted filePath @ '' written to slave ''
                                @ number_int position @ '' ('' @ number_nat fileSize @ '' bytes)''))], w4)))"

interpretation foe_read: rpc_handler "handleFoeRead proc fs" for proc fs
  by unfold_locales (simp add: handleFoeRead_def Let_def case_prod_beta split: option.splits prod.splits)

interpretation foe_write: rpc_handler "handleFoeWrite proc fs" for proc fs
  by unfold_locales (simp add: handleFoeWrite_def Let_def case_prod_beta split: option.splits)

section \<open>What a transfer may touch\<close>

definition allowed_path :: "'w file_system \<Rightarrow> string \<Rightarrow> 'w \<Rightarrow> bool" where
  \<comment> \<open>the path, or the directory of a file that does not exist, resolves into an allowed directory\<close>
  "allowed_path fs path w \<longleftrightarrow> (\<exists>base \<in> set (firmwareBaseDirs fs w). fs_canonical fs base w \<noteq> []
     \<and> inside_base (resolved_path fs path w) (fs_canonical fs base w))"

lemma in_some_base_iff:
  "in_some_base fs w resolved bases \<longleftrightarrow>
     (\<exists>base \<in> set bases. fs_canonical fs base w \<noteq> [] \<and> inside_base resolved (fs_canonical fs base w))"
  by (induction bases) (auto simp: Let_def)









definition plain_fs :: "unit file_system" where
  \<comment> \<open>one regular file \<open>/tmp/f\<close> of 5 bytes\<close>
  "plain_fs = \<lparr>fs_canonical = (\<lambda>p w. p), fs_dir_exists = (\<lambda>p w. True), fs_lstat = (\<lambda>p w. Stat Regular 1),
     fs_exists = (\<lambda>p w. True), fs_readable = (\<lambda>p w. True), fs_size = (\<lambda>p w. 5), fs_remove = (\<lambda>p w. w),
     fs_firmware_env = (\<lambda>w. []), fs_home = (\<lambda>w. []), fs_others = (\<lambda>k w. w)\<rparr>"


text \<open>
  A read succeeds without a file: when the tool exits normally and has left nothing at the path, the check
  after the transfer passes, and the answer is a success of 0 bytes.
\<close>

theorem foe_read_succeeds_without_file:
  assumes "fs_others fs = (\<lambda>k w. w)" and "\<And>args w. proc ''ethercat'' args w = (Exited 0 [] [], w)"
    and "trimmed path = path" and "path \<noteq> []" and "validateFilePath fs path w = None" and "fs_lstat fs path w = NoEntry" and "\<not> fs_exists fs path w"
  shows "\<exists>msg. handleFoeRead proc fs rid [(''position'', jint 0), (''filePath'', JStr path)] w
    = (success rid [(''success'', JBool True), (''filePath'', JStr path), (''fileSize'', jint 0), (''message'', JStr msg)], w)"
  using assms
  by (simp add: handleFoeRead_def revalidateCreatedFile_def runEthercatCommand_def tool_result_def fileSizeBytes_def
      rejectUnsafeExistingFile_def Let_def)

definition empty_fs :: "unit file_system" where
  "empty_fs = plain_fs\<lparr>fs_lstat := (\<lambda>p w. NoEntry), fs_exists := (\<lambda>p w. False)\<rparr>"

theorem foe_read_succeeds_without_file_witness:
  "ok_of (fst (handleFoeRead (\<lambda>prog args w. (Exited 0 [] [], w)) empty_fs ''r'' [(''position'', jint 0), (''filePath'', JStr ''/tmp/f'')] ()))"
proof -
  have d: "trimmed ''/tmp/f'' = ''/tmp/f''" by code_simp
  have v: "validateFilePath empty_fs ''/tmp/f'' () = None"
    by (simp add: empty_fs_def plain_fs_def validateFilePath_def resolved_path_def starts_with_def ends_with_def
        firmwareBaseDirs_def inside_base_def)
  have "fs_others empty_fs = (\<lambda>k w. w)" "fs_lstat empty_fs ''/tmp/f'' () = NoEntry" "\<not> fs_exists empty_fs ''/tmp/f'' ()"
    by (simp_all add: empty_fs_def plain_fs_def)
  with foe_read_succeeds_without_file [of empty_fs "\<lambda>prog args w. (Exited 0 [] [], w)" "''/tmp/f''" "()" "''r''"] d v show ?thesis
    by auto
qed

text \<open>
  Between the checks and the tool there is a window: a file that is regular while it is checked and a link when the tool
  opens it is sent.
\<close>

definition racing_fs :: "bool file_system" where
  \<comment> \<open>the world is whether the file has been exchanged for a link\<close>
  "racing_fs = \<lparr>fs_canonical = (\<lambda>p w. if w \<and> p = ''/tmp/f'' then ''/etc/shadow'' else p), fs_dir_exists = (\<lambda>p w. True),
     fs_lstat = (\<lambda>p w. if w then Stat SymLink 1 else Stat Regular 1), fs_exists = (\<lambda>p w. True), fs_readable = (\<lambda>p w. True),
     fs_size = (\<lambda>p w. 5), fs_remove = (\<lambda>p w. w), fs_firmware_env = (\<lambda>w. []), fs_home = (\<lambda>w. []),
     fs_others = (\<lambda>k w. w \<or> k = 3)\<rparr>"

theorem foe_write_sends_exchanged_file:
  "ok_of (fst (handleFoeWrite (\<lambda>prog args w. (if w then Exited 0 [] [] else Exited 1 [] [], w)) racing_fs ''r''
      [(''position'', jint 0), (''filePath'', JStr ''/tmp/f'')] False))
   \<and> fs_lstat racing_fs ''/tmp/f'' True = Stat SymLink 1 \<and> \<not> allowed_path racing_fs ''/tmp/f'' True"
proof -
  have d: "trimmed ''/tmp/f'' = ''/tmp/f''" by code_simp
  have e: "foe_password 0 = 0" by (simp add: foe_password_def)
  have "ok_of (fst (handleFoeWrite (\<lambda>prog args w. (if w then Exited 0 [] [] else Exited 1 [] [], w)) racing_fs ''r''
      [(''position'', jint 0), (''filePath'', JStr ''/tmp/f'')] False))"
    by (simp add: handleFoeWrite_def d e racing_fs_def validateFilePath_def resolved_path_def starts_with_def
        ends_with_def firmwareBaseDirs_def inside_base_def rejectUnsafeExistingFile_def
        runEthercatCommand_def tool_result_def Let_def)
  moreover have "\<not> allowed_path racing_fs ''/tmp/f'' True"
    by (simp add: allowed_path_def racing_fs_def firmwareBaseDirs_def resolved_path_def inside_base_def starts_with_def)
  ultimately show ?thesis by (simp add: racing_fs_def)
qed

text \<open>
  The check before a read follows only what exists: for a dangling symbolic link in
  an allowed directory (the link itself is there, its target is not, so the canonical path is empty)
  the parent directory is checked, the path is accepted and the tool is run with it as its output
  file, whatever the link points to.
\<close>

theorem foe_read_accepts_dangling_link:
  assumes "starts_with ''/'' path" and "\<not> contains_str ''/..'' path" and "trimmed path = path"
    and "fs_lstat fs path w = Stat SymLink 1" and "fs_canonical fs path w = []"
    and "fs_dir_exists fs (dir_part path) w" and "fs_canonical fs (dir_part path) w = ''/tmp''"
    and "''/tmp'' \<in> set (firmwareBaseDirs fs w)" and "fs_canonical fs ''/tmp'' w = ''/tmp''"
    and "w' = snd (runEthercatCommand proc 120000 (foe_read_args 0 path) w)" and "fs_others fs = (\<lambda>k w. w)"
  shows "(\<exists>response. handleFoeRead proc fs rid [(''position'', jint 0), (''filePath'', JStr path)] w = (response, w')
          \<or> handleFoeRead proc fs rid [(''position'', jint 0), (''filePath'', JStr path)] w = (response, fs_remove fs path w'))"
proof -
  have p: "path \<noteq> []" "path \<noteq> ''..''" using assms(1) by (auto simp: starts_with_def)
  have e: "\<not> ends_with ''/..'' path" "\<not> contains_str ''/../'' path"
  proof -
    show "\<not> ends_with ''/..'' path"
    proof
      assume "ends_with ''/..'' path"
      then obtain t where "rev path = rev ''/..'' @ t"
        unfolding ends_with_def starts_with_iff by iprover
      then have "path = rev t @ ''/..'' @ []" by (metis append_Nil2 rev_append rev_rev_ident)
      then have "contains_str ''/..'' path" unfolding contains_str_iff by iprover
      then show False using assms(2) by simp
    qed
    show "\<not> contains_str ''/../'' path"
    proof
      assume "contains_str ''/../'' path"
      then obtain a b where "path = a @ ''/../'' @ b" unfolding contains_str_iff by iprover
      then have "path = a @ ''/..'' @ (''/'' @ b)" by simp
      then have "contains_str ''/..'' path" unfolding contains_str_iff by iprover
      then show False using assms(2) by simp
    qed
  qed
  have "in_some_base fs w ''/tmp'' (firmwareBaseDirs fs w)"
    unfolding in_some_base_iff using assms(8,9) by (auto intro!: bexI [of _ "''/tmp''"] simp: inside_base_def)
  then have "validateFilePath fs path w = None"
    using assms p e by (simp add: validateFilePath_def resolved_path_def)
  then show ?thesis
    using p(1) assms(3,10,11)
    by (auto simp: handleFoeRead_def revalidateCreatedFile_def Let_def case_prod_beta split: option.splits if_splits)
qed

definition link_fs :: "string list file_system" where
  \<comment> \<open>a dangling link \<open>/tmp/x\<close>; the world logs the commands\<close>
  "link_fs = \<lparr>fs_canonical = (\<lambda>p w. if p = ''/tmp'' then ''/tmp'' else []), fs_dir_exists = (\<lambda>p w. p = ''/tmp''),
     fs_lstat = (\<lambda>p w. if p = ''/tmp/x'' then Stat SymLink 1 else NoEntry), fs_exists = (\<lambda>p w. False),
     fs_readable = (\<lambda>p w. False), fs_size = (\<lambda>p w. 0), fs_remove = (\<lambda>p w. w @ [''removed'']),
     fs_firmware_env = (\<lambda>w. []), fs_home = (\<lambda>w. []), fs_others = (\<lambda>k w. w)\<rparr>"

theorem foe_read_accepts_dangling_link_witness:
  "''--output'' \<in> set (snd (handleFoeRead (\<lambda>prog args w. (Exited 0 [] [], w @ args)) link_fs ''r''
      [(''position'', jint 0), (''filePath'', JStr ''/tmp/x'')] []))"
proof -
  have d: "dir_part ''/tmp/x'' = ''/tmp''" "trimmed ''/tmp/x'' = ''/tmp/x''"
    by code_simp+
  let ?h = "handleFoeRead (\<lambda>prog args w. (Exited 0 [] [], w @ args)) link_fs ''r''
      [(''position'', jint 0), (''filePath'', JStr ''/tmp/x'')] []"
  have "\<exists>response. ?h = (response, foe_read_args 0 ''/tmp/x'')
      \<or> ?h = (response, fs_remove link_fs ''/tmp/x'' (foe_read_args 0 ''/tmp/x''))"
    by (rule foe_read_accepts_dangling_link)
       (simp_all add: d starts_with_def link_fs_def firmwareBaseDirs_def runEthercatCommand_def)
  then obtain response where
    "?h = (response, foe_read_args 0 ''/tmp/x'') \<or> ?h = (response, foe_read_args 0 ''/tmp/x'' @ [''removed''])"
    by (auto simp: link_fs_def)
  then show ?thesis by (auto simp: foe_read_args_def)
qed

end
