(* ===== verification/DcSyncHandler.thy ===== *)
theory DcSyncHandler
  imports Backend
begin

text \<open>
  \<^verbatim>\<open>apps/ecatd/handlers/DcSyncHandler.{h,cpp}\<close>: distributed clocks. The handler parses the verbose slave
  list and the master's text, reads the DC parameters from the slave's XML description and keeps the
  activation state that the periodic \<open>update\<close> applies to the master. The XML reader is the parameter
  \<open>xml\<close>: the tokens of a document and whether it ends in an error. The \<open>ecrt\<close> values an update reads
  are its arguments. Nanoseconds are integers, the configuration words of 32 bits.
\<close>

section \<open>State\<close>

record dc_slave =
  dc_position :: int
  dc_capable :: bool
  dc_syncing :: bool
  dc_driftNs :: int
  dc_jitterMinNs :: int
  dc_jitterMaxNs :: int
  dc_jitterAvgNs :: int
  dc_refClockName :: string

record dc_config =
  cf_assignActivate :: nat
  cf_sync0CycleNs :: nat
  cf_sync0ShiftNs :: int
  cf_sync1CycleNs :: nat
  cf_sync1ShiftNs :: int

record dc_sync =
  ds_refClockTime :: nat
  ds_syncMaxDiff :: nat
  ds_rtDataValid :: bool
  ds_dcActivated :: bool
  ds_dcRefClockSlave :: int
  ds_activeDcConfig :: dc_config

definition new_slave :: dc_slave where
  "new_slave = \<lparr>dc_position = - 1, dc_capable = False, dc_syncing = False, dc_driftNs = 0,
     dc_jitterMinNs = 0, dc_jitterMaxNs = 0, dc_jitterAvgNs = 0, dc_refClockName = []\<rparr>"

definition new_config :: dc_config where
  "new_config = \<lparr>cf_assignActivate = 0, cf_sync0CycleNs = 0, cf_sync0ShiftNs = 0, cf_sync1CycleNs = 0,
     cf_sync1ShiftNs = 0\<rparr>"

definition dc_init :: dc_sync where
  "dc_init = \<lparr>ds_refClockTime = 0, ds_syncMaxDiff = 0, ds_rtDataValid = False, ds_dcActivated = False,
     ds_dcRefClockSlave = - 1, ds_activeDcConfig = new_config\<rparr>"

definition dc_runCliCommand ::
  "'w proc \<Rightarrow> 'w ecat_service option \<Rightarrow> string \<Rightarrow> string list \<Rightarrow> 'w \<Rightarrow> string \<times> 'w" where
  "dc_runCliCommand proc bk master args w =
     (case (bk, args = [''master'']) of
        (Some svc, True) \<Rightarrow> (let (text, e, w') = masterText svc master w in (text, w'))
      | _ \<Rightarrow>
          (let (out, w') = proc ''ethercat'' (scoped_args master args) w
           in (case out of NotStarted \<Rightarrow> [] | TimedOut so \<Rightarrow> so | Exited code so se \<Rightarrow> so, w')))"

section \<open>The verbose slave list\<close>

abbreviation signed_digits :: "rx list" where
  "signed_digits \<equiv> [Many (\<lambda>c. c = CHR ''-'') 0 (Some 1), Digits]"

definition header_re :: "rx list" where
  "header_re = [Lit ''Alias'', Spaces, Lit ''0x'', Hexes, Lit '','', Spaces, Lit ''Position'', Spaces,
     Lit ''0x'', Grp 1 [Hexes]]"

definition short_header_re :: "rx list" where
  "short_header_re = [Bol, Grp 1 [Digits], Spaces, Digits, Lit '':'', Digits, Spaces]"

definition jitter_re :: "rx list" where
  "jitter_re = [Lit ''Jitter:'', Spaces, Grp 1 signed_digits, Spaces, Lit ''ns'']"

definition drift_re :: "rx list" where
  "drift_re = [Alt [Lit ''Drift''] [Lit ''Offset''], Lit '':'', Spaces, Grp 1 signed_digits, Spaces, Lit ''ns'']"

definition systime_re :: "rx list" where
  "systime_re = [Lit ''System Time:'', Spaces, Grp 1 signed_digits, Spaces, Lit ''ns'']"

definition name_re :: "rx list" where
  "name_re = [Lit ''+'', Spaces, Grp 1 [Many rx_nonspace 1 None], Eol]"

definition to_int64_text :: "string \<Rightarrow> int" where
  "to_int64_text s = or_zero (to_sint (2 ^ 63) 10 s)"

definition half_towards_zero :: "int \<Rightarrow> int" where
  "half_towards_zero n = sgn n * (\<bar>n\<bar> div 2)"

definition add_jitter :: "int \<Rightarrow> dc_slave \<Rightarrow> dc_slave" where
  "add_jitter val s =
     (let s1 = (if dc_jitterMinNs s = 0 \<and> dc_jitterMaxNs s = 0
                then s\<lparr>dc_jitterMinNs := val, dc_jitterMaxNs := val\<rparr>
                else s\<lparr>dc_jitterMinNs := min (dc_jitterMinNs s) val,
                       dc_jitterMaxNs := max (dc_jitterMaxNs s) val\<rparr>)
      in s1\<lparr>dc_jitterAvgNs := half_towards_zero (dc_jitterMinNs s1 + dc_jitterMaxNs s1)\<rparr>)"

definition dc_detail :: "string \<Rightarrow> dc_slave \<Rightarrow> dc_slave" where
  \<comment> \<open>a line within a DC block\<close>
  "dc_detail line s =
     (let s1 = (case rx_match rx_plain jitter_re line of
            Some m \<Rightarrow> add_jitter (to_int64_text (captured m 1)) s | None \<Rightarrow> s);
          s2 = (case rx_match rx_plain drift_re line of
            Some m \<Rightarrow> s1\<lparr>dc_driftNs := to_int64_text (captured m 1)\<rparr> | None \<Rightarrow> s1);
          s3 = (if has_match rx_plain [Lit ''Reference Clock''] line then s2\<lparr>dc_syncing := True\<rparr> else s2)
      in (case rx_match rx_plain systime_re line of
            Some m \<Rightarrow> if to_int64_text (captured m 1) \<noteq> 0 then s3\<lparr>dc_syncing := True\<rparr> else s3
          | None \<Rightarrow> s3))"

definition header_slave :: "string \<Rightarrow> dc_slave option" where
  \<comment> \<open>the fresh entry a header line begins\<close>
  "header_slave line =
     (case rx_match rx_plain header_re line of
        Some m \<Rightarrow> Some (new_slave\<lparr>dc_position := or_zero (to_sint (2 ^ 31) 16 (captured m 1))\<rparr>)
      | None \<Rightarrow>
          (case rx_match rx_plain short_header_re line of
             Some m \<Rightarrow>
               let s = new_slave\<lparr>dc_position := or_zero (to_int32 (captured m 1))\<rparr>
               in Some (case rx_match rx_plain name_re line of
                    Some n \<Rightarrow> s\<lparr>dc_refClockName := captured n 1\<rparr> | None \<Rightarrow> s)
           | None \<Rightarrow> None))"

definition flush_slave :: "dc_slave \<Rightarrow> dc_slave list" where
  "flush_slave s = (if dc_position s \<ge> 0 then [s] else [])"

fun query_lines :: "dc_slave \<Rightarrow> bool \<Rightarrow> string list \<Rightarrow> dc_slave list" where
  "query_lines current inDcBlock [] = flush_slave current"
| "query_lines current inDcBlock (line # lines) =
     (case header_slave line of
        Some s \<Rightarrow> flush_slave current @ query_lines s False lines
      | None \<Rightarrow>
          if has_match rx_plain [Lit ''Distributed Clocks:''] line then
            query_lines (current\<lparr>dc_capable := True\<rparr>) True lines
          else if inDcBlock then query_lines (dc_detail line current) True lines
          else query_lines current False lines)"

definition queryDcStatus :: "string \<Rightarrow> dc_slave list" where
  "queryDcStatus output =
     (if output = [] then [] else query_lines new_slave False (split_skip_empty newline output))"

definition detectRefClock :: "string \<Rightarrow> int" where
  "detectRefClock masterOutput =
     (if masterOutput = [] then - 1
      else case rx_match rx_plain [Lit ''DC reference clock:'', Spaces0, Lit ''Slave'', Spaces, Grp 1 [Digits]] masterOutput of
        Some m \<Rightarrow> or_zero (to_int32 (captured m 1))
      | None \<Rightarrow>
          (case rx_match rx_plain [Lit ''Slave'', Spaces, Grp 1 [Digits], WordB, Many rx_dot 0 None, Lit ''reference clock'']
                  masterOutput of
             Some m \<Rightarrow> or_zero (to_int32 (captured m 1))
           | None \<Rightarrow> - 1))"

section \<open>The configuration in the XML description\<close>

datatype xml_token = StartElem string | EndElem string | Chars string | OtherToken

type_synonym xml_reader = "string \<Rightarrow> xml_token list \<times> bool"

fun read_element_text :: "string \<Rightarrow> xml_token list \<Rightarrow> string \<times> xml_token list option" where
  \<comment> \<open>\<open>readElementText\<close>: the text up to the end of the element and the tokens left; \<open>None\<close> where it
      raises an error, at a child element or the end of the document\<close>
  "read_element_text acc [] = ([], None)"
| "read_element_text acc (Chars s # ts) = read_element_text (acc @ s) ts"
| "read_element_text acc (EndElem n # ts) = (acc, Some ts)"
| "read_element_text acc (StartElem n # ts) = ([], None)"
| "read_element_text acc (OtherToken # ts) = read_element_text acc ts"

definition hex_or_dec :: "string \<Rightarrow> nat" where
  "hex_or_dec val = (if starts_with_ci ''#x'' val \<or> starts_with_ci ''0x'' val
     then or_zero (to_uint (2 ^ 32) 16 (drop 2 val)) else or_zero (to_uint32 val))"

definition set_dc_field :: "string \<Rightarrow> string \<Rightarrow> dc_config \<Rightarrow> dc_config" where
  "set_dc_field name val c =
     (if name = ''AssignActivate'' then c\<lparr>cf_assignActivate := hex_or_dec val\<rparr>
      else if name = ''Sync0Cycle'' then c\<lparr>cf_sync0CycleNs := or_zero (to_uint32 val)\<rparr>
      else if name = ''Sync0Shift'' then c\<lparr>cf_sync0ShiftNs := or_zero (to_int32 val)\<rparr>
      else if name = ''Sync1Cycle'' then c\<lparr>cf_sync1CycleNs := or_zero (to_uint32 val)\<rparr>
      else if name = ''Sync1Shift'' then c\<lparr>cf_sync1ShiftNs := or_zero (to_int32 val)\<rparr>
      else c)"

definition dc_fields :: "string list" where
  "dc_fields = [''AssignActivate'', ''Sync0Cycle'', ''Sync0Shift'', ''Sync1Cycle'', ''Sync1Shift'']"

fun parse_dc :: "nat \<Rightarrow> bool \<Rightarrow> bool \<Rightarrow> bool \<Rightarrow> dc_config \<Rightarrow> xml_token list \<Rightarrow> dc_config option" where
  \<comment> \<open>the reader's loop: fuel, whether the document ends in an error, \<open>inDc\<close>, \<open>inOpMode\<close>; \<open>None\<close> is
      \<open>hasError()\<close>. Every step consumes a token, so their number is enough fuel\<close>
  "parse_dc 0 bad inDc inOpMode c ts = None"
| "parse_dc (Suc k) bad inDc inOpMode c [] = (if bad then None else Some c)"
| "parse_dc (Suc k) bad inDc inOpMode c (StartElem name # ts) =
     (if name = ''Dc'' then parse_dc k bad True inOpMode c ts
      else if inDc \<and> (name = ''OpMode'' \<or> name = ''OpModeData'') then parse_dc k bad inDc True c ts
      else if inOpMode \<and> name \<in> set dc_fields then
        (case read_element_text [] ts of
           (val, Some ts') \<Rightarrow> parse_dc k bad inDc inOpMode (set_dc_field name (trimmed val) c) ts'
         | (val, None) \<Rightarrow> None)
      else parse_dc k bad inDc inOpMode c ts)"
| "parse_dc (Suc k) bad inDc inOpMode c (EndElem name # ts) =
     (if name = ''OpMode'' \<or> name = ''OpModeData'' then parse_dc k bad inDc False c ts
      else if name = ''Dc'' then Some c
      else parse_dc k bad inDc inOpMode c ts)"
| "parse_dc (Suc k) bad inDc inOpMode c (t # ts) = parse_dc k bad inDc inOpMode c ts"

definition parseDcConfigFromXml :: "xml_reader \<Rightarrow> string \<Rightarrow> dc_config" where
  "parseDcConfigFromXml xml text =
     (let (ts, bad) = xml text in
      case parse_dc (Suc (length ts)) bad False False new_config ts of None \<Rightarrow> new_config | Some c \<Rightarrow> c)"

section \<open>Requests\<close>

definition dc_slave_json :: "dc_slave \<Rightarrow> json" where
  "dc_slave_json s = JObj
     ([(''pos'', jint (dc_position s)), (''dcCapable'', JBool (dc_capable s)), (''syncing'', JBool (dc_syncing s)),
       (''driftNs'', jint (dc_driftNs s)), (''jitterMinNs'', jint (dc_jitterMinNs s)),
       (''jitterMaxNs'', jint (dc_jitterMaxNs s)), (''jitterAvgNs'', jint (dc_jitterAvgNs s))]
      @ (if dc_refClockName s \<noteq> [] then [(''refClockName'', JStr (dc_refClockName s))] else []))"

definition dc_config_json :: "dc_config \<Rightarrow> json" where
  "dc_config_json c = JObj
     [(''assignActivate'', jnat (cf_assignActivate c)), (''sync0CycleNs'', jnat (cf_sync0CycleNs c)),
      (''sync0ShiftNs'', jint (cf_sync0ShiftNs c)), (''sync1CycleNs'', jnat (cf_sync1CycleNs c)),
      (''sync1ShiftNs'', jint (cf_sync1ShiftNs c)), (''hasDcConfig'', JBool (cf_assignActivate c \<noteq> 0))]"

definition handle_dc ::
  "'w proc \<Rightarrow> 'w ecat_service option \<Rightarrow> string \<Rightarrow> jobject \<Rightarrow> dc_sync \<times> 'w \<Rightarrow> json \<times> dc_sync \<times> 'w" where
  "handle_dc proc bk rid params s =
     (let master = requestedMaster params;
          d = fst s;
          (slaveOutput, w1) = dc_runCliCommand proc bk master [''slaves'', ''-v''] (snd s);
          (masterOutput, w2) = dc_runCliCommand proc bk master [''master''] w1
      in if slaveOutput = [] \<and> masterOutput = [] then
           (failure rid ''Failed to query DC status. Is the EtherCAT master running?'', d, w2)
         else
           let refClock = detectRefClock masterOutput;
               slaves = queryDcStatus slaveOutput
           in (success rid
                 [(''refClock'', jint refClock), (''hasRefClock'', JBool (refClock \<ge> 0)),
                  (''slaves'', JArr (map dc_slave_json slaves)), (''refClockTime'', jnat (ds_refClockTime d)),
                  (''syncMaxDiff'', jnat (ds_syncMaxDiff d)), (''rtDataValid'', JBool (ds_rtDataValid d)),
                  (''dcActivated'', JBool (ds_dcActivated d)), (''dcRefClockSlave'', jint (ds_dcRefClockSlave d)),
                  (''assignActivate'', jnat (cf_assignActivate (ds_activeDcConfig d))),
                  (''sync0CycleNs'', jnat (cf_sync0CycleNs (ds_activeDcConfig d)))], d, w2))"

definition handleDcConfigure ::
  "'w proc \<Rightarrow> xml_reader \<Rightarrow> 'w ecat_service option \<Rightarrow> string \<Rightarrow> jobject \<Rightarrow> dc_sync \<times> 'w \<Rightarrow> json \<times> dc_sync \<times> 'w" where
  "handleDcConfigure proc xml bk rid params s =
     (let master = requestedMaster params;
          position = to_int_def (- 1) (jfind params ''position'')
      in if position < 0 then
           (failure rid ''dcConfigure requires a 'position' parameter specifying the slave index.'', s)
         else
           let (xmlOutput, w1) = dc_runCliCommand proc bk master [''xml'', number_int position] (snd s)
           in if xmlOutput = [] then
                (failure rid (''Failed to query ESI XML for slave '' @ number_int position
                   @ ''. Is the EtherCAT master running?''), fst s, w1)
              else
                let config = parseDcConfigFromXml xml xmlOutput;
                    (slaveOutput, w2) = dc_runCliCommand proc bk master [''slaves'', ''-v''] w1;
                    found = find (\<lambda>i. dc_position i = position) (queryDcStatus slaveOutput);
                    (capable, syncing) = (case found of Some i \<Rightarrow> (dc_capable i, dc_syncing i) | None \<Rightarrow> (False, False))
                in (success rid
                      [(''position'', jint position), (''config'', dc_config_json config),
                       (''dcCapable'', JBool capable), (''syncing'', JBool syncing)],
                    (fst s)\<lparr>ds_activeDcConfig := config\<rparr>, w2))"

definition handleDcActivate ::
  "'w proc \<Rightarrow> 'w ecat_service option \<Rightarrow> string \<Rightarrow> jobject \<Rightarrow> dc_sync \<times> 'w \<Rightarrow> json \<times> dc_sync \<times> 'w" where
  "handleDcActivate proc bk rid params s =
     (let master = requestedMaster params;
          d = fst s;
          refClockSlave = to_int_def (- 1) (jfind params ''refClockSlave'');
          (effectiveRef, w1) =
            (if refClockSlave < 0 then
               let (slaveOutput, w') = dc_runCliCommand proc bk master [''slaves'', ''-v''] (snd s)
               in (case find dc_capable (queryDcStatus slaveOutput) of Some i \<Rightarrow> dc_position i | None \<Rightarrow> refClockSlave, w')
             else (refClockSlave, snd s))
      in if effectiveRef < 0 then
           (failure rid (''No DC-capable slave found on the bus for reference clock selection. ''
              @ ''Specify 'refClockSlave' explicitly or ensure a DC-capable slave is connected.''), d, w1)
         else
           (success rid
              [(''dcActivated'', JBool True), (''refClockSlave'', jint effectiveRef),
               (''ecrtRefSet'', JBool (ds_rtDataValid d)),
               (''assignActivate'', jnat (cf_assignActivate (ds_activeDcConfig d))),
               (''sync0CycleNs'', jnat (cf_sync0CycleNs (ds_activeDcConfig d)))],
            d\<lparr>ds_dcRefClockSlave := effectiveRef, ds_dcActivated := True\<rparr>, w1))"

definition handleDcDeactivate :: "string \<Rightarrow> jobject \<Rightarrow> dc_sync \<times> 'w \<Rightarrow> json \<times> dc_sync \<times> 'w" where
  "handleDcDeactivate rid params s =
     (success rid [(''dcActivated'', JBool False), (''message'', JStr ''DC synchronization deactivated.'')],
      (fst s)\<lparr>ds_dcActivated := False, ds_dcRefClockSlave := - 1, ds_activeDcConfig := new_config\<rparr>, snd s)"

definition dc_update :: "bool \<Rightarrow> int \<Rightarrow> nat \<Rightarrow> nat \<Rightarrow> dc_sync \<Rightarrow> bool \<times> dc_sync" where
  \<comment> \<open>whether there is a master handle, the slave count, the reference time and the maximal
      difference the master answers; the answer says whether a reference clock was selected\<close>
  "dc_update master slaveCount refTime maxDiff d =
     (if \<not> master \<or> slaveCount \<le> 0 then (False, d)
      else (ds_dcActivated d,
            d\<lparr>ds_refClockTime := refTime, ds_syncMaxDiff := maxDiff, ds_rtDataValid := True\<rparr>))"

lemmas dc_defs = handle_dc_def handleDcConfigure_def handleDcActivate_def handleDcDeactivate_def

interpretation dc_handle: rpc_handler "handle_dc proc bk" for proc bk
  by unfold_locales (simp add: dc_defs Let_def case_prod_beta)

interpretation dc_configure: rpc_handler "handleDcConfigure proc xml bk" for proc xml bk
  by unfold_locales (simp add: dc_defs Let_def case_prod_beta)

interpretation dc_activate: rpc_handler "handleDcActivate proc bk" for proc bk
  by unfold_locales (simp add: dc_defs Let_def case_prod_beta)

interpretation dc_deactivate: rpc_handler handleDcDeactivate
  by unfold_locales (simp add: dc_defs)

section \<open>The parsed slaves are the headers\<close>

lemma add_jitter_position [simp]: "dc_position (add_jitter v s) = dc_position s"
  by (simp add: add_jitter_def Let_def)

lemma dc_detail_position [simp]: "dc_position (dc_detail line s) = dc_position s"
  by (simp add: dc_detail_def Let_def split: option.splits)

definition header_positions :: "string list \<Rightarrow> int list" where
  "header_positions lines = map dc_position (concat (map (\<lambda>l. case header_slave l of None \<Rightarrow> [] | Some s \<Rightarrow> flush_slave s) lines))"

lemma flush_position: "map dc_position (flush_slave s) = (if dc_position s \<ge> 0 then [dc_position s] else [])"
  by (simp add: flush_slave_def)

lemma query_lines_positions:
  "map dc_position (query_lines s b lines) = map dc_position (flush_slave s) @ header_positions lines"
proof (induction lines arbitrary: s b)
  case (Cons line lines)
  then show ?case by (simp add: header_positions_def flush_position split: option.splits)
qed (simp add: header_positions_def)

text \<open>
  The parsed slave list has exactly one entry per header line of the verbose
  output, in order, with the position of that header: details never start, merge or drop an entry.
\<close>

theorem dc_status_one_entry_per_header:
  "map dc_position (queryDcStatus output) = header_positions (split_skip_empty newline output)"
  by (simp add: queryDcStatus_def query_lines_positions header_positions_def flush_slave_def new_slave_def
      split_skip_empty_def)

section \<open>Jitter\<close>

definition jitter_run :: "int list \<Rightarrow> dc_slave" where
  "jitter_run js = foldl (\<lambda>s v. add_jitter v s) new_slave js"

lemma add_jitter_seen:
  assumes "l \<noteq> 0 \<or> u \<noteq> 0" and "dc_jitterMinNs s = l" and "dc_jitterMaxNs s = u"
  shows "dc_jitterMinNs (add_jitter v s) = min l v \<and> dc_jitterMaxNs (add_jitter v s) = max u v
     \<and> dc_jitterAvgNs (add_jitter v s) = half_towards_zero (min l v + max u v)"
  using assms by (auto simp: add_jitter_def Let_def)

lemma jitter_fold:
  assumes "l \<le> x" and "x \<le> u" and "x \<noteq> (0 :: int)" and "dc_jitterMinNs s = l" and "dc_jitterMaxNs s = u"
    and "dc_jitterAvgNs s = half_towards_zero (l + u)"
  shows "let r = foldl (\<lambda>s v. add_jitter v s) s js in
     dc_jitterMinNs r = foldr min js l \<and> dc_jitterMaxNs r = foldr max js u
     \<and> dc_jitterAvgNs r = half_towards_zero (foldr min js l + foldr max js u)"
  using assms
proof (induction js arbitrary: l u s)
  case (Cons v js)
  have "l \<noteq> 0 \<or> u \<noteq> 0" using Cons.prems(1-3) by auto
  from add_jitter_seen [OF this Cons.prems(4,5), of v] have s:
    "dc_jitterMinNs (add_jitter v s) = min l v" "dc_jitterMaxNs (add_jitter v s) = max u v"
    "dc_jitterAvgNs (add_jitter v s) = half_towards_zero (min l v + max u v)" by auto
  have m: "foldr min js (min l v) = min v (foldr min js l)" "foldr max js (max u v) = max v (foldr max js u)"
    by (induction js) (auto simp: min_def max_def)
  have b: "min l v \<le> x" "x \<le> max u v" using Cons.prems(1,2) by auto
  from Cons.IH [OF b(1) b(2) Cons.prems(3) s] show ?case by (simp add: m)
qed simp

lemma foldr_min_Min: "foldr min js (j :: int) = Min (set (j # js))"
  by (induction js) (simp_all add: min.left_commute insert_commute)

lemma foldr_max_Max: "foldr max js (j :: int) = Max (set (j # js))"
  by (induction js) (simp_all add: max.left_commute insert_commute)

text \<open>
  From the jitter lines of a slave, the first of which is not zero, the minimum
  and maximum are those of the lines and the mean is half their sum, rounded towards zero.
\<close>

theorem dc_jitter_extremes:
  assumes "j \<noteq> 0"
  shows "dc_jitterMinNs (jitter_run (j # js)) = Min (set (j # js))
     \<and> dc_jitterMaxNs (jitter_run (j # js)) = Max (set (j # js))
     \<and> dc_jitterAvgNs (jitter_run (j # js)) = half_towards_zero (Min (set (j # js)) + Max (set (j # js)))"
proof -
  have "dc_jitterMinNs (add_jitter j new_slave) = j" "dc_jitterMaxNs (add_jitter j new_slave) = j"
    "dc_jitterAvgNs (add_jitter j new_slave) = half_towards_zero (j + j)"
    by (simp_all add: add_jitter_def new_slave_def)
  from jitter_fold [OF order.refl order.refl assms this, of js] show ?thesis
    unfolding foldr_min_Min foldr_max_Max jitter_run_def by (simp add: Let_def)
qed

theorem dc_jitter_extremes_witness:
  "dc_jitterAvgNs (jitter_run [- 5, 0, 12]) = 3"
proof -
  have "half_towards_zero (Min (set [- 5, 0, 12]) + Max (set [- 5, 0, 12])) = 3"
    by (simp add: half_towards_zero_def)
  then show ?thesis using dc_jitter_extremes [of "- 5" "[0, 12]"] by simp
qed

text \<open>
  Zero doubles as the mark of no observation: after a measured jitter of zero the next
  one replaces both extremes, so a slave that showed 0 and then \<open>n + 1\<close> is reported with the minimum
  \<open>n + 1\<close>.
\<close>

theorem dc_jitter_zero_is_forgotten:
  "dc_jitterMinNs (jitter_run [0, int (Suc n)]) = int (Suc n) \<and> Min (set [0, int (Suc n)]) = 0"
  by (simp add: jitter_run_def add_jitter_def new_slave_def Let_def)

section \<open>Reading the configuration\<close>

definition field_tokens :: "string \<Rightarrow> string \<Rightarrow> xml_token list" where
  "field_tokens name text = [StartElem name, Chars text, EndElem name]"

definition hash_hex :: "nat \<Rightarrow> string" where
  "hash_hex n = ''#x'' @ number_hex n"

definition dc_tokens :: "dc_config \<Rightarrow> xml_token list" where
  "dc_tokens c = [StartElem ''Dc'', StartElem ''OpMode'']
     @ field_tokens ''AssignActivate'' (hash_hex (cf_assignActivate c))
     @ field_tokens ''Sync0Cycle'' (number_nat (cf_sync0CycleNs c))
     @ field_tokens ''Sync0Shift'' (number_int (cf_sync0ShiftNs c))
     @ field_tokens ''Sync1Cycle'' (number_nat (cf_sync1CycleNs c))
     @ field_tokens ''Sync1Shift'' (number_int (cf_sync1ShiftNs c))
     @ [EndElem ''OpMode'', EndElem ''Dc'']"

definition config_ok :: "dc_config \<Rightarrow> bool" where
  "config_ok c \<longleftrightarrow> cf_assignActivate c < 2 ^ 32 \<and> cf_sync0CycleNs c < 2 ^ 32 \<and> cf_sync1CycleNs c < 2 ^ 32
     \<and> int32_ok (cf_sync0ShiftNs c) \<and> int32_ok (cf_sync1ShiftNs c)"

fun before_dc :: "xml_token \<Rightarrow> bool" where
  "before_dc (StartElem n) = (n \<noteq> ''Dc'')"
| "before_dc (EndElem n) = (n \<noteq> ''Dc'')"
| "before_dc _ = True"

lemma parse_dc_skip:
  "\<forall>t \<in> set pre. before_dc t \<Longrightarrow>
   parse_dc (length pre + k) bad False False c (pre @ ts) = parse_dc k bad False False c ts"
proof (induction pre)
  case (Cons t pre)
  then show ?case by (cases t) simp_all
qed simp

lemma parse_dc_field:
  assumes "name \<in> set dc_fields" and "trimmed text = text"
  shows "parse_dc (Suc k) bad True True c (field_tokens name text @ ts) = parse_dc k bad True True (set_dc_field name text c) ts"
proof -
  have "name \<noteq> ''Dc''" "name \<noteq> ''OpMode''" "name \<noteq> ''OpModeData''" using assms(1) by (auto simp: dc_fields_def)
  then show ?thesis using assms by (simp add: field_tokens_def)
qed

lemma int32_number: "int32_ok i \<Longrightarrow> to_sint 2147483648 10 (number_int i) = Some i"
  by (rule to_sint_number_int) (simp_all add: int32_ok_def)

lemma hex_or_dec_hash: "n < 4294967296 \<Longrightarrow> hex_or_dec (hash_hex n) = n"
  using starts_with_ci_append [of "''#x''" "number_hex n"]
  by (simp add: hex_or_dec_def hash_hex_def to_uint_number_hex)

lemma trimmed_hash_hex [simp]: "trimmed (hash_hex n) = hash_hex n"
proof (rule trimmed_id)
  have "\<not> is_space (CHR ''#'')" "\<not> is_space (CHR ''x'')" by (simp_all add: is_space_def code_of_def Let_def)
  then show "\<forall>c \<in> set (hash_hex n). \<not> is_space c" by (auto simp: hash_hex_def number_hex_chars)
qed

text \<open>
  The configuration in the first \<open>Dc\<close> block of a description is read as written, the
  activation word in ESI hexadecimal, cycles and shifts in decimal and shifts possibly negative,
  whatever stands before the block and after it, and even if the document is malformed after it.
\<close>

theorem dc_config_read_from_xml:
  assumes "config_ok c" and "\<forall>t \<in> set pre. before_dc t" and "xml text = (pre @ dc_tokens c @ post, bad)"
  shows "parseDcConfigFromXml xml text = c"
proof -
  let ?f = "\<lambda>k. parse_dc k bad"
  obtain k where k: "Suc (length (pre @ dc_tokens c @ post)) = length pre + (9 + k)"
    by (rule that [of "Suc (length (dc_tokens c @ post)) - 9"])
       (simp add: dc_tokens_def field_tokens_def)
  have "?f (length pre + (9 + k)) False False new_config (pre @ dc_tokens c @ post)
      = ?f (9 + k) False False new_config (dc_tokens c @ post)"
    by (rule parse_dc_skip) (rule assms(2))
  also have "\<dots> = Some c"
    using assms(1)
    by (simp add: dc_tokens_def numeral_eq_Suc parse_dc_field dc_fields_def)
       (simp add: set_dc_field_def hex_or_dec_hash int32_number config_ok_def new_config_def)
  finally show ?thesis unfolding parseDcConfigFromXml_def assms(3) by (simp add: k del: length_append)
qed

definition demo_config :: dc_config where
  "demo_config = \<lparr>cf_assignActivate = 768, cf_sync0CycleNs = 1000000, cf_sync0ShiftNs = - 500,
     cf_sync1CycleNs = 0, cf_sync1ShiftNs = 0\<rparr>"

theorem dc_config_read_from_xml_witness:
  "parseDcConfigFromXml (\<lambda>text. ([OtherToken, StartElem ''Slave''] @ dc_tokens demo_config @ [], True)) ''x'' = demo_config"
  using dc_config_read_from_xml [of demo_config "[OtherToken, StartElem ''Slave'']"
      "\<lambda>text. ([OtherToken, StartElem ''Slave''] @ dc_tokens demo_config @ [], True)" "''x''" "[]" True]
  by (simp add: config_ok_def demo_config_def int32_ok_def)

section \<open>The validity flag\<close>

datatype dc_op =
    DcStatus string jobject
  | DcConfigure string jobject
  | DcActivate string jobject
  | DcDeactivate string jobject
  | DcUpdate bool int nat nat

fun dc_step ::
  "'w proc \<Rightarrow> xml_reader \<Rightarrow> 'w ecat_service option \<Rightarrow> dc_sync \<times> 'w \<Rightarrow> dc_op \<Rightarrow> dc_sync \<times> 'w" where
  "dc_step proc xml bk s (DcStatus rid ps) = snd (handle_dc proc bk rid ps s)"
| "dc_step proc xml bk s (DcConfigure rid ps) = snd (handleDcConfigure proc xml bk rid ps s)"
| "dc_step proc xml bk s (DcActivate rid ps) = snd (handleDcActivate proc bk rid ps s)"
| "dc_step proc xml bk s (DcDeactivate rid ps) = snd (handleDcDeactivate rid ps s)"
| "dc_step proc xml bk s (DcUpdate m n t d) = (snd (dc_update m n t d (fst s)), snd s)"

lemma dc_step_valid: "ds_rtDataValid (fst s) \<Longrightarrow> ds_rtDataValid (fst (dc_step proc xml bk s p))"
  by (cases p) (simp_all add: dc_defs dc_update_def Let_def case_prod_beta)

text \<open>
  The flag that stands for a live master is never cleared: once an update with a
  master ran, every later activation with an explicit reference clock answers \<open>ecrtRefSet\<close> true, also
  after the master is gone and without any further update.
\<close>

theorem dc_live_flag_is_sticky:
  "fst (handleDcActivate proc bk rid [(''refClockSlave'', jint 0)]
       (foldl (dc_step proc xml bk) (snd (dc_update True 1 t d dc_init), w) ops))
     = success rid
         [(''dcActivated'', JBool True), (''refClockSlave'', jint 0), (''ecrtRefSet'', JBool True),
          (''assignActivate'', jnat (cf_assignActivate (ds_activeDcConfig
             (fst (foldl (dc_step proc xml bk) (snd (dc_update True 1 t d dc_init), w) ops))))),
          (''sync0CycleNs'', jnat (cf_sync0CycleNs (ds_activeDcConfig
             (fst (foldl (dc_step proc xml bk) (snd (dc_update True 1 t d dc_init), w) ops)))))]"
proof -
  have "ds_rtDataValid (fst (foldl (dc_step proc xml bk) (snd (dc_update True 1 t d dc_init), w) ops))"
    by (rule foldl_invariant [where I = "\<lambda>s. ds_rtDataValid (fst s)"]) (simp_all add: dc_update_def dc_step_valid)
  then show ?thesis by (simp add: handleDcActivate_def Let_def)
qed

end
