(* ===== verification/RtTestController.thy ===== *)
theory RtTestController
  imports BoundedLog JsonRpc
begin

text \<open>
  \<^verbatim>\<open>apps/ecatd/RtTestController.{h,cpp}\<close>: the cycle timing test. The answers of the \<open>ecrt\<close> library, the
  clock and \<open>clock_nanosleep\<close> are arguments of the operations, and the calls that acquire or give back
  the master are listed in their results. The thread is the field \<open>rt_thread\<close> with the loop's local
  variable \<open>prevTime\<close>; joining it waits until the loop has left, so \<open>stop\<close> is one step. Times read from
  the clock are 64-bit words, differences and sums integers (the sum of the cycle times stays below
  $2^{63}$ ns for 292 years).
\<close>

section \<open>State\<close>

datatype rt_thread = NoThread | Looping | Exited

datatype ecrt_call = RequestMaster u32 | CreateDomain | ActivateMaster | DeactivateMaster | ReleaseMaster

record rt_test =
  rt_running :: bool
  rt_cycleCount :: nat
  rt_errorCount :: nat
  rt_thread :: rt_thread
  rt_activeMasterIndex :: u32
  rt_status :: string
  rt_master :: bool
  rt_domain :: bool
  rt_domainData :: bool
  rt_minCycleNsec :: int
  rt_maxCycleNsec :: int
  rt_totalCycleNsec :: int
  rt_recentCycles :: "int list"
  rt_prevTime :: u64

definition INT64_MAX :: int where "INT64_MAX = 9223372036854775807"

definition kRollingWindow :: nat where "kRollingWindow = 2000"

definition rt_init :: rt_test where
  "rt_init = \<lparr>rt_running = False, rt_cycleCount = 0, rt_errorCount = 0, rt_thread = NoThread,
     rt_activeMasterIndex = 0, rt_status = ''Stopped'', rt_master = False, rt_domain = False,
     rt_domainData = False, rt_minCycleNsec = INT64_MAX, rt_maxCycleNsec = 0, rt_totalCycleNsec = 0,
     rt_recentCycles = [], rt_prevTime = 0\<rparr>"

section \<open>Starting and stopping\<close>

record ecrt_answers =
  \<comment> \<open>whether the master and the domain were given, the result of activation, whether the domain has
      data, and the clock when the loop begins\<close>
  ans_master :: bool
  ans_domain :: bool
  ans_activate :: int
  ans_data :: bool
  ans_now :: u64

datatype start_outcome = Started | Refused string | Terminated

definition rt_cleanup :: "rt_test \<Rightarrow> ecrt_call list \<times> rt_test" where
  "rt_cleanup s =
     ((if rt_master s then [DeactivateMaster, ReleaseMaster] else []),
      s\<lparr>rt_master := False, rt_domain := False, rt_domainData := False\<rparr>)"

definition rt_range_error :: "int \<Rightarrow> string" where
  "rt_range_error cycleUsec = ''cycleUsec '' @ number_int cycleUsec @ '' out of range; use 500..1000000 usec.''"

definition rt_busy_error :: "u32 \<Rightarrow> string" where
  "rt_busy_error m = ''RT test is already running on master '' @ number_nat (unat m) @ ''.''"

definition rt_request_error :: "u32 \<Rightarrow> string" where
  "rt_request_error m = ''Failed to request IgH master '' @ number_nat (unat m)
     @ ''. Stop other EtherCAT applications and retry.''"

definition rt_start :: "ecrt_answers \<Rightarrow> u32 \<Rightarrow> int \<Rightarrow> rt_test \<Rightarrow> start_outcome \<times> ecrt_call list \<times> rt_test" where
  \<comment> \<open>assigning to a joinable \<open>std::thread\<close> ends the process\<close>
  "rt_start a masterIndex cycleUsec s =
     (if cycleUsec < 500 \<or> cycleUsec > 1000000 then
        (Refused (rt_range_error cycleUsec), [], s)
      else if rt_running s then
        if masterIndex = rt_activeMasterIndex s then (Started, [], s)
        else (Refused (rt_busy_error (rt_activeMasterIndex s)), [], s)
      else
        let s1 = s\<lparr>rt_master := ans_master a\<rparr> in
        if \<not> ans_master a then
          let (cs, s2) = rt_cleanup s1
          in (Refused (rt_request_error masterIndex), RequestMaster masterIndex # cs, s2)
        else
          let s2 = s1\<lparr>rt_domain := ans_domain a\<rparr> in
          if \<not> ans_domain a then
            let (cs, s3) = rt_cleanup s2
            in (Refused ''Failed to create EtherCAT process data domain.'',
                [RequestMaster masterIndex, CreateDomain] @ cs, s3)
          else if ans_activate a \<noteq> 0 then
            let (cs, s3) = rt_cleanup s2
            in (Refused ''Failed to activate IgH master.'',
                [RequestMaster masterIndex, CreateDomain, ActivateMaster] @ cs, s3)
          else
            let s3 = s2\<lparr>rt_domainData := ans_data a, rt_activeMasterIndex := masterIndex,
                 rt_cycleCount := 0, rt_errorCount := 0, rt_minCycleNsec := INT64_MAX,
                 rt_maxCycleNsec := 0, rt_totalCycleNsec := 0, rt_recentCycles := [],
                 rt_status := ''Running'', rt_running := True\<rparr>;
                calls = [RequestMaster masterIndex, CreateDomain, ActivateMaster]
            in if rt_thread s3 \<noteq> NoThread then (Terminated, calls, s3)
               else (Started, calls, s3\<lparr>rt_thread := Looping, rt_prevTime := ans_now a\<rparr>))"

definition rt_stop :: "rt_test \<Rightarrow> ecrt_call list \<times> rt_test" where
  "rt_stop s =
     (let (cs, s') = rt_cleanup (s\<lparr>rt_running := False, rt_thread := NoThread\<rparr>)
      in (cs, s'\<lparr>rt_status := ''Stopped''\<rparr>))"

section \<open>The loop\<close>

definition ring_store :: "nat \<Rightarrow> nat \<Rightarrow> 'x \<Rightarrow> 'x list \<Rightarrow> 'x list" where
  \<comment> \<open>\<open>size < window ? push_back : recent[count % window] = x\<close>\<close>
  "ring_store window count x xs =
     (if length xs < window then xs @ [x] else xs[count mod window := x])"

definition rt_record :: "int \<Rightarrow> rt_test \<Rightarrow> rt_test" where
  "rt_record cycleDelta s = s\<lparr>
     rt_minCycleNsec := (if cycleDelta < rt_minCycleNsec s then cycleDelta else rt_minCycleNsec s),
     rt_maxCycleNsec := (if cycleDelta > rt_maxCycleNsec s then cycleDelta else rt_maxCycleNsec s),
     rt_totalCycleNsec := rt_totalCycleNsec s + cycleDelta,
     rt_recentCycles := ring_store kRollingWindow (rt_cycleCount s) cycleDelta (rt_recentCycles s),
     rt_cycleCount := Suc (rt_cycleCount s)\<rparr>"

definition rt_cycle :: "int \<Rightarrow> u64 \<Rightarrow> int \<Rightarrow> rt_test \<Rightarrow> rt_test" where
  \<comment> \<open>one iteration: the result of the sleep, the clock after it and the result of the send\<close>
  "rt_cycle sleepErr now ret s =
     (if \<not> rt_running s then s\<lparr>rt_thread := Exited\<rparr>
      else if sleepErr \<noteq> 0 then s\<lparr>rt_running := False, rt_thread := Exited\<rparr>
      else
        let cycleDelta = sint (now - rt_prevTime s);
            s1 = rt_record cycleDelta (s\<lparr>rt_prevTime := now\<rparr>)
        in if ret < 0 then s1\<lparr>rt_errorCount := Suc (rt_errorCount s1)\<rparr> else s1)"

section \<open>Telemetry\<close>

definition avg_nsec :: "rt_test \<Rightarrow> int" where
  \<comment> \<open>C++ division truncates towards zero\<close>
  "avg_nsec s = (if rt_cycleCount s > 0 then
     sgn (rt_totalCycleNsec s) * (\<bar>rt_totalCycleNsec s\<bar> div int (rt_cycleCount s)) else 0)"

definition min_nsec :: "rt_test \<Rightarrow> int" where
  "min_nsec s = (if rt_minCycleNsec s = INT64_MAX then 0 else rt_minCycleNsec s)"

definition jitter_nsec :: "rt_test \<Rightarrow> int" where
  "jitter_nsec s = (if rt_cycleCount s > 0 then
     max (rt_maxCycleNsec s - avg_nsec s) (avg_nsec s - min_nsec s) else 0)"

definition usec :: "int \<Rightarrow> json" where
  "usec n = JNum (of_int n / 1000)"

definition rt_telemetry :: "rt_test \<Rightarrow> jobject" where
  "rt_telemetry s = [(''running'', JBool (rt_running s)), (''status'', JStr (rt_status s)),
     (''cycles'', jnat (rt_cycleCount s)), (''errors'', jnat (rt_errorCount s)),
     (''lossRate'', JNum (if rt_cycleCount s > 0
        then of_nat (rt_errorCount s) / of_nat (rt_cycleCount s) * 100 else 0)),
     (''minUsec'', usec (min_nsec s)), (''maxUsec'', usec (rt_maxCycleNsec s)),
     (''avgUsec'', usec (avg_nsec s)), (''jitterUsec'', usec (jitter_nsec s)),
     (''recent'', JArr (map usec (rt_recentCycles s)))]"

section \<open>The rolling window\<close>

text \<open>
  The window as a bounded log: up to the window's size the samples in order, afterwards a ring whose
  rotation to the oldest slot is the last samples. The state is the ring with the number of samples
  stored; the log is the rotated ring.
\<close>

definition ring_push :: "nat \<Rightarrow> 'x \<Rightarrow> 'x list \<times> nat \<Rightarrow> 'x list \<times> nat" where
  "ring_push window x r = (ring_store window (snd r) x (fst r), Suc (snd r))"

definition ring_ok :: "nat \<Rightarrow> 'x list \<times> nat \<Rightarrow> bool" where
  "ring_ok window r \<longleftrightarrow> length (fst r) = min window (snd r)"

definition ring_log :: "nat \<Rightarrow> 'x list \<times> nat \<Rightarrow> 'x list" where
  "ring_log window r = (if length (fst r) < window then fst r else rotate (snd r mod window) (fst r))"

lemma rotate_update:
  assumes "k < length xs"
  shows "rotate (Suc k) (xs[k := x]) = tl (rotate k xs) @ [x]"
proof -
  have "rotate (Suc k) (xs[k := x]) = drop (Suc k) (xs[k := x]) @ take (Suc k) (xs[k := x])"
    using assms by (cases "Suc k = length xs") (simp_all add: rotate_drop_take)
  also have "\<dots> = drop (Suc k) xs @ take k xs @ [x]"
    using assms by (simp add: take_Suc_conv_app_nth)
  also have "drop (Suc k) xs = tl (drop k xs)" by (simp add: tl_drop drop_Suc)
  also have "tl (drop k xs) @ take k xs @ [x] = tl (rotate k xs) @ [x]"
    using assms by (simp add: rotate_drop_take)
  finally show ?thesis .
qed

lemma rotate_Suc_mod: "0 < length xs \<Longrightarrow> rotate (Suc n mod length xs) xs = rotate (Suc (n mod length xs)) xs"
  by (metis mod_Suc_eq rotate_conv_mod)

lemma ring_push_ok: "0 < window \<Longrightarrow> ring_ok window r \<Longrightarrow> ring_ok window (ring_push window x r)"
  by (auto simp: ring_ok_def ring_push_def ring_store_def)

lemma ring_push_log:
  assumes "0 < window" and "ring_ok window r"
  shows "ring_log window (ring_push window x r) = last_n window (ring_log window r @ [x])"
proof -
  obtain xs n where r: "r = (xs, n)" by (cases r)
  consider "length xs + 1 < window" | "length xs + 1 = window" | "length xs = window"
    using assms(2) r by (fastforce simp: ring_ok_def)
  then show ?thesis
  proof cases
    case 1
    then show ?thesis by (simp add: r ring_log_def ring_push_def ring_store_def)
  next
    case 2
    then have "n = length xs" using assms(2) r by (auto simp: ring_ok_def min_def split: if_splits)
    with 2 show ?thesis by (auto simp: r ring_log_def ring_push_def ring_store_def)
  next
    case 3
    let ?k = "n mod length xs"
    have k: "?k < length xs" using 3 assms(1) by simp
    have "ring_log window (ring_push window x r) = rotate (Suc n mod length xs) (xs[?k := x])"
      using 3 by (simp add: r ring_log_def ring_push_def ring_store_def)
    also have "\<dots> = rotate (Suc ?k) (xs[?k := x])"
    proof -
      have "xs \<noteq> []" using k by auto
      then show ?thesis using rotate_Suc_mod [of "xs[?k := x]" n] by simp
    qed
    also have "\<dots> = tl (rotate ?k xs) @ [x]" using k by (rule rotate_update)
    also have "\<dots> = last_n window (ring_log window r @ [x])"
    proof -
      have "rotate ?k xs \<noteq> []" using k by auto
      then show ?thesis using 3 by (cases "rotate ?k xs") (auto simp: r ring_log_def last_n_def drop_Suc dest: arg_cong [where f = length])
    qed
    finally show ?thesis .
  qed
qed

lemma window_pos: "0 < kRollingWindow"
  by (simp add: kRollingWindow_def)

interpretation window: bounded_log "ring_push kRollingWindow" "ring_log kRollingWindow"
    "ring_ok kRollingWindow" kRollingWindow
proof unfold_locales
  fix s :: "'a list \<times> nat" and x :: 'a
  assume ok: "ring_ok kRollingWindow s"
  then show "length (ring_log kRollingWindow s) \<le> kRollingWindow"
    by (auto simp: ring_ok_def ring_log_def)
  show "ring_ok kRollingWindow (ring_push kRollingWindow x s)"
    by (rule ring_push_ok [OF window_pos ok])
  show "ring_log kRollingWindow (ring_push kRollingWindow x s) = last_n kRollingWindow (ring_log kRollingWindow s @ [x])"
    by (rule ring_push_log [OF window_pos ok])
qed

section \<open>The statistics of a run\<close>

definition rt_ring :: "rt_test \<Rightarrow> int list \<times> nat" where
  "rt_ring s = (rt_recentCycles s, rt_cycleCount s)"

definition rt_stats :: "int list \<Rightarrow> rt_test \<Rightarrow> bool" where
  \<comment> \<open>the statistics are those of the cycle times measured since the start\<close>
  "rt_stats ds s \<longleftrightarrow> rt_cycleCount s = length ds \<and> rt_totalCycleNsec s = sum_list ds
     \<and> rt_minCycleNsec s = foldr min ds INT64_MAX \<and> rt_maxCycleNsec s = foldr max ds 0
     \<and> ring_ok kRollingWindow (rt_ring s) \<and> ring_log kRollingWindow (rt_ring s) = last_n kRollingWindow ds"

lemma foldr_min_snoc: "foldr min ds (min d (m :: int)) = min d (foldr min ds m)"
  by (induction ds) (simp_all add: min.left_commute)

lemma foldr_max_snoc: "foldr max ds (max d (m :: int)) = max d (foldr max ds m)"
  by (induction ds) (simp_all add: max.left_commute)

lemma rt_ring_record: "rt_ring (rt_record d s) = ring_push kRollingWindow d (rt_ring s)"
  by (simp add: rt_ring_def rt_record_def ring_push_def)

lemma rt_stats_record: "rt_stats ds s \<Longrightarrow> rt_stats (ds @ [d]) (rt_record d s)"
  using window.ok_push [of "rt_ring s" d] window.log_push [of "rt_ring s" d]
  by (auto simp: rt_stats_def rt_ring_record last_n_append_last_n foldr_min_snoc foldr_max_snoc)
     (auto simp: rt_record_def)

lemma rt_stats_start: "rt_start a m c s = (Started, cs, s') \<Longrightarrow> \<not> rt_running s \<Longrightarrow> rt_stats [] s' \<and> rt_running s' \<and> rt_prevTime s' = ans_now a"
  by (auto simp: rt_start_def Let_def rt_stats_def rt_ring_def ring_ok_def ring_log_def kRollingWindow_def
      split: if_splits prod.splits)

definition deltas :: "u64 \<Rightarrow> u64 list \<Rightarrow> int list" where
  \<comment> \<open>the intervals between the clock readings, the first one against the loop's start\<close>
  "deltas t ts = map2 (\<lambda>a b. sint (b - a)) (t # ts) ts"

lemma deltas_simps [simp]: "deltas t [] = []" "deltas t (u # ts) = sint (u - t) # deltas u ts"
  by (simp_all add: deltas_def)

fun rt_cycles :: "(u64 \<times> int) list \<Rightarrow> rt_test \<Rightarrow> rt_test" where
  "rt_cycles [] s = s"
| "rt_cycles ((now, ret) # cs) s = rt_cycles cs (rt_cycle 0 now ret s)"

lemma rt_stats_errors [simp]: "rt_stats ds (s\<lparr>rt_errorCount := n\<rparr>) = rt_stats ds s"
  by (simp add: rt_stats_def rt_ring_def)

lemma rt_stats_prev [simp]: "rt_stats ds (s\<lparr>rt_prevTime := n\<rparr>) = rt_stats ds s"
  by (simp add: rt_stats_def rt_ring_def)

lemma rt_record_keeps [simp]:
  "rt_running (rt_record d s) = rt_running s" "rt_prevTime (rt_record d s) = rt_prevTime s"
  "rt_errorCount (rt_record d s) = rt_errorCount s"
  by (simp_all add: rt_record_def)

lemma rt_cycle_running:
  "rt_running s \<Longrightarrow> rt_running (rt_cycle 0 now ret s) \<and> rt_prevTime (rt_cycle 0 now ret s) = now
     \<and> rt_errorCount (rt_cycle 0 now ret s) = rt_errorCount s + (if ret < 0 then 1 else 0)"
  by (simp add: rt_cycle_def Let_def)

lemma rt_cycle_stats:
  "rt_running s \<Longrightarrow> rt_stats ds s \<Longrightarrow> rt_stats (ds @ [sint (now - rt_prevTime s)]) (rt_cycle 0 now ret s)"
  using rt_stats_record [of ds "s\<lparr>rt_prevTime := now\<rparr>" "sint (now - rt_prevTime s)"]
  by (simp add: rt_cycle_def Let_def)

lemma rt_cycles_stats:
  "rt_running s \<Longrightarrow> rt_stats ds s \<Longrightarrow>
   rt_running (rt_cycles cs s) \<and> rt_stats (ds @ deltas (rt_prevTime s) (map fst cs)) (rt_cycles cs s)
   \<and> rt_errorCount (rt_cycles cs s) = rt_errorCount s + length (filter (\<lambda>c. snd c < 0) cs)"
proof (induction cs arbitrary: s ds)
  case (Cons c cs)
  obtain now ret where c: "c = (now, ret)" by (cases c)
  from rt_cycle_running [OF Cons.prems(1), of now ret] Cons.IH [OF _ rt_cycle_stats [OF Cons.prems, of now ret]]
  show ?case by (auto simp: c)
qed simp

lemma foldr_min_bound: "\<forall>d \<in> set ds. d \<le> m \<Longrightarrow> ds \<noteq> [] \<Longrightarrow> foldr min ds (m :: int) = Min (set ds)"
proof (induction ds)
  case (Cons d ds)
  then show ?case by (cases "ds = []") (simp_all add: min_absorb1)
qed simp

lemma foldr_max_bound: "\<forall>d \<in> set ds. m \<le> d \<Longrightarrow> ds \<noteq> [] \<Longrightarrow> foldr max ds (m :: int) = Max (set ds)"
proof (induction ds)
  case (Cons d ds)
  then show ?case by (cases "ds = []") (simp_all add: max_absorb1)
qed simp

lemma sum_list_bounds:
  "int (length ds) * Min (set ds) \<le> sum_list ds \<and> sum_list ds \<le> int (length ds) * Max (set ds)"
proof -
  have "(\<forall>d \<in> set ds. l \<le> d \<and> d \<le> u) \<Longrightarrow> int (length ds) * l \<le> sum_list ds \<and> sum_list ds \<le> int (length ds) * u" for l u :: int
    by (induction ds) (auto simp: algebra_simps)
  from this [of "Min (set ds)" "Max (set ds)"] show ?thesis by simp
qed

text \<open>
  Claim C35 (functional). What the telemetry of a run is made from, the controller's counts, sums and ring, is that of its
  cycle times: after the cycles \<open>cs\<close> of a
  started test, with clock readings that never go back, the counts are those of the cycles and of
  the failed sends, the extremes and the mean are those of the intervals, the mean lies between
  the extremes, and the samples kept are the newest \<open>kRollingWindow\<close> intervals, rotated.
\<close>

theorem rt_telemetry_of_run:
  assumes "rt_start a m c s = (Started, calls, s0)" and "\<not> rt_running s" and "cs \<noteq> []"
    and "ds = deltas (ans_now a) (map fst cs)"
    and "\<forall>d \<in> set ds. 0 \<le> d" and "s' = rt_cycles cs s0"
  shows "rt_cycleCount s' = length cs \<and> rt_errorCount s' = length (filter (\<lambda>c. snd c < 0) cs)
     \<and> rt_minCycleNsec s' = Min (set ds) \<and> rt_maxCycleNsec s' = Max (set ds)
     \<and> avg_nsec s' = sum_list ds div int (length cs)
     \<and> rt_minCycleNsec s' \<le> avg_nsec s' \<and> avg_nsec s' \<le> rt_maxCycleNsec s'
     \<and> (\<exists>k. rotate k (rt_recentCycles s') = last_n kRollingWindow ds)"
proof -
  from rt_stats_start [OF assms(1,2)] have s0: "rt_stats [] s0" "rt_running s0" "rt_prevTime s0 = ans_now a" by auto
  have e0: "rt_errorCount s0 = 0" using assms(1,2) by (auto simp: rt_start_def Let_def split: if_splits prod.splits)
  from rt_cycles_stats [OF s0(2,1), of cs] have st: "rt_stats ds s'" "rt_errorCount s' = length (filter (\<lambda>c. snd c < 0) cs)"
    using assms(4,6) s0(3) e0 by auto
  have len: "length ds = length cs" using assms(4) by (simp add: deltas_def)
  with assms(3) have ne: "ds \<noteq> []" and pos: "0 < length cs" by auto
  have up: "\<forall>d \<in> set ds. d \<le> INT64_MAX"
  proof
    fix d
    assume "d \<in> set ds"
    then obtain x :: u64 where "d = sint x" unfolding assms(4) deltas_def by auto
    then show "d \<le> INT64_MAX" using sint_lt [of x] by (simp add: INT64_MAX_def)
  qed
  have mm: "rt_minCycleNsec s' = Min (set ds)" "rt_maxCycleNsec s' = Max (set ds)"
    using st(1) foldr_min_bound [OF up ne] foldr_max_bound [OF assms(5) ne] by (simp_all add: rt_stats_def)
  have "0 \<le> sum_list ds" using assms(5) by (simp add: sum_list_nonneg)
  then have avg: "avg_nsec s' = sum_list ds div int (length cs)"
    using st(1) len pos by (auto simp: avg_nsec_def rt_stats_def sgn_if)
  have "Min (set ds) \<le> sum_list ds div int (length cs)" "sum_list ds div int (length cs) \<le> Max (set ds)"
    using sum_list_bounds [of ds] pos len
      zdiv_mono1 [of "int (length cs) * Min (set ds)" "sum_list ds" "int (length cs)"]
      zdiv_mono1 [of "sum_list ds" "int (length cs) * Max (set ds)" "int (length cs)"]
    by simp_all
  moreover have "\<exists>k. rotate k (rt_recentCycles s') = last_n kRollingWindow ds"
    using st(1) by (auto simp: rt_stats_def ring_log_def rt_ring_def split: if_splits intro: exI [of _ 0])
  ultimately show ?thesis using st mm avg len by (auto simp: rt_stats_def)
qed

definition demo_answers :: ecrt_answers where
  "demo_answers = \<lparr>ans_master = True, ans_domain = True, ans_activate = 0, ans_data = False, ans_now = 1000\<rparr>"

theorem rt_telemetry_of_run_witness:
  "avg_nsec (rt_cycles [(2000, 0), (3400, - 1)] (snd (snd (rt_start demo_answers 0 1000 rt_init)))) = 1200"
proof -
  let ?s0 = "snd (snd (rt_start demo_answers 0 1000 rt_init))"
  let ?cs = "[(2000, 0), (3400, - 1)] :: (u64 \<times> int) list"
  have st: "rt_start demo_answers 0 1000 rt_init = (Started, [RequestMaster 0, CreateDomain, ActivateMaster], ?s0)"
    by (simp add: rt_start_def demo_answers_def rt_init_def)
  have ds: "[1000, 1400] = deltas (ans_now demo_answers) (map fst ?cs)"
    by (simp add: demo_answers_def)
  have side: "\<not> rt_running rt_init" "?cs \<noteq> []" "\<forall>d \<in> set [1000, 1400 :: int]. 0 \<le> d"
    by (simp_all add: rt_init_def)
  from rt_telemetry_of_run [OF st side(1,2) ds side(3) refl]
  have "avg_nsec (rt_cycles ?cs ?s0) = sum_list [1000, 1400] div int (length ?cs)"
    by (elim conjE)
  also have "\<dots> = 1200" by simp
  finally show ?thesis .
qed

section \<open>The life of the controller\<close>

datatype rt_op = RtStart ecrt_answers u32 int | RtStop | RtCycle int u64 int

record rt_life =
  \<comment> \<open>whether the process was terminated, and the masters held: granted requests less releases\<close>
  rl_dead :: bool
  rl_held :: int
  rl_state :: rt_test

definition released :: "ecrt_call list \<Rightarrow> int" where
  "released cs = int (length (filter (\<lambda>c. c = ReleaseMaster) cs))"

definition granted :: "ecrt_answers \<Rightarrow> ecrt_call list \<Rightarrow> int" where
  "granted a cs = (if ans_master a then int (length (filter (\<lambda>c. \<exists>m. c = RequestMaster m) cs)) else 0)"

fun rt_life_step :: "rt_life \<Rightarrow> rt_op \<Rightarrow> rt_life" where
  "rt_life_step l (RtStart a m c) =
     (if rl_dead l then l
      else let (out, cs, s) = rt_start a m c (rl_state l)
           in \<lparr>rl_dead = (out = Terminated), rl_held = rl_held l + granted a cs - released cs, rl_state = s\<rparr>)"
| "rt_life_step l RtStop =
     (if rl_dead l then l
      else let (cs, s) = rt_stop (rl_state l)
           in l\<lparr>rl_held := rl_held l - released cs, rl_state := s\<rparr>)"
| "rt_life_step l (RtCycle e now ret) =
     (if rl_dead l \<or> rt_thread (rl_state l) \<noteq> Looping then l
      else l\<lparr>rl_state := rt_cycle e now ret (rl_state l)\<rparr>)"

definition rt_life_init :: rt_life where
  "rt_life_init = \<lparr>rl_dead = False, rl_held = 0, rl_state = rt_init\<rparr>"

definition rt_life_inv :: "rt_life \<Rightarrow> bool" where
  "rt_life_inv l \<longleftrightarrow> \<not> rl_dead l \<and> rl_held l = (if rt_master (rl_state l) then 1 else 0)
     \<and> (rt_running (rl_state l) \<longleftrightarrow> rt_master (rl_state l))
     \<and> rt_thread (rl_state l) = (if rt_running (rl_state l) then Looping else NoThread)"

fun sleeps_well :: "rt_op \<Rightarrow> bool" where
  "sleeps_well (RtCycle e now ret) = (e = 0)"
| "sleeps_well _ = True"

lemma rt_start_kept:
  assumes "c < 500 \<or> c > 1000000 \<or> rt_running s"
  shows "\<exists>out. out \<noteq> Terminated \<and> rt_start a m c s = (out, [], s)"
  using assms by (auto simp: rt_start_def)

lemma rt_start_fails:
  assumes "\<not> (c < 500 \<or> c > 1000000 \<or> rt_running s)"
    and "\<not> (ans_master a \<and> ans_domain a \<and> ans_activate a = 0)"
  shows "\<exists>e cs. rt_start a m c s
     = (Refused e, cs, s\<lparr>rt_master := False, rt_domain := False, rt_domainData := False\<rparr>)
     \<and> granted a cs = released cs"
  using assms
  by (cases "ans_master a"; cases "ans_domain a")
     (simp_all add: rt_start_def rt_cleanup_def granted_def released_def)

lemma rt_start_runs:
  assumes "\<not> (c < 500 \<or> c > 1000000 \<or> rt_running s)"
    and "ans_master a \<and> ans_domain a \<and> ans_activate a = 0"
  shows "\<exists>cs s'. rt_start a m c s = (if rt_thread s \<noteq> NoThread then Terminated else Started, cs, s')
     \<and> granted a cs = 1 \<and> released cs = 0 \<and> rt_running s' \<and> rt_master s'
     \<and> (rt_thread s = NoThread \<longrightarrow> rt_thread s' = Looping)"
  using assms by (simp add: rt_start_def granted_def released_def)

lemma rt_life_start:
  assumes "rt_life_inv l"
  shows "rt_life_inv (rt_life_step l (RtStart a m c))"
proof -
  have d: "\<not> rl_dead l" using assms by (simp add: rt_life_inv_def)
  consider "c < 500 \<or> c > 1000000 \<or> rt_running (rl_state l)"
    | "\<not> (c < 500 \<or> c > 1000000 \<or> rt_running (rl_state l))" "\<not> (ans_master a \<and> ans_domain a \<and> ans_activate a = 0)"
    | "\<not> (c < 500 \<or> c > 1000000 \<or> rt_running (rl_state l))" "ans_master a \<and> ans_domain a \<and> ans_activate a = 0"
    by blast
  then show ?thesis
  proof cases
    case 1
    from rt_start_kept [OF this, of a m] obtain out where
      "out \<noteq> Terminated" "rt_start a m c (rl_state l) = (out, [], rl_state l)" by blast
    with assms d show ?thesis by (simp add: rt_life_inv_def granted_def released_def)
  next
    case 2
    from rt_start_fails [OF this, of m] obtain e cs where
      "rt_start a m c (rl_state l)
         = (Refused e, cs, (rl_state l)\<lparr>rt_master := False, rt_domain := False, rt_domainData := False\<rparr>)"
      "granted a cs = released cs" by blast
    with assms d 2(1) show ?thesis by (simp add: rt_life_inv_def)
  next
    case 3
    from rt_start_runs [OF this, of m] obtain cs s' where
      "rt_start a m c (rl_state l) = (if rt_thread (rl_state l) \<noteq> NoThread then Terminated else Started, cs, s')"
      "granted a cs = 1" "released cs = 0" "rt_running s'" "rt_master s'"
      "rt_thread (rl_state l) = NoThread \<longrightarrow> rt_thread s' = Looping" by blast
    with assms d 3(1) show ?thesis by (simp add: rt_life_inv_def)
  qed
qed

lemma rt_life_stop: "rt_life_inv l \<Longrightarrow> rt_life_inv (rt_life_step l RtStop)"
  by (auto simp: rt_life_inv_def rt_stop_def rt_cleanup_def Let_def released_def)

lemma rt_life_cycle: "rt_life_inv l \<Longrightarrow> rt_life_inv (rt_life_step l (RtCycle 0 now ret))"
  by (auto simp: rt_life_inv_def rt_cycle_def rt_record_def Let_def)

lemma rt_life_step_inv: "sleeps_well p \<Longrightarrow> rt_life_inv l \<Longrightarrow> rt_life_inv (rt_life_step l p)"
  using rt_life_start rt_life_stop rt_life_cycle by (cases p) auto

text \<open>
  Claim C36 (safety). As long as the sleep of the loop never fails, any sequence of starts (with
  whatever the library answers), stops and cycles keeps the balance: every master granted by the
  library is held by the running test or was released, at most one is held, and no start meets a
  thread that was not joined.
\<close>

theorem rt_master_balance:
  assumes "\<forall>p \<in> set ops. sleeps_well p" and "l = foldl rt_life_step rt_life_init ops"
  shows "\<not> rl_dead l \<and> rl_held l = (if rt_running (rl_state l) then 1 else 0)
     \<and> (rt_running (rl_state l) \<longleftrightarrow> rt_thread (rl_state l) = Looping)"
proof -
  have "rt_life_inv rt_life_init" by (simp add: rt_life_inv_def rt_life_init_def rt_init_def)
  then have "rt_life_inv l"
    unfolding assms(2) using foldl_invariant [of rt_life_inv rt_life_init ops rt_life_step] assms(1)
      rt_life_step_inv by blast
  then show ?thesis by (auto simp: rt_life_inv_def)
qed

theorem rt_master_balance_witness:
  "rl_held (foldl rt_life_step rt_life_init [RtStart demo_answers 0 1000, RtCycle 0 5000 0, RtStop]) = 0"
  using rt_master_balance [of "[RtStart demo_answers 0 1000, RtCycle 0 5000 0, RtStop]", OF _ refl]
  by (simp add: rt_life_init_def rt_init_def rt_start_def demo_answers_def rt_cycle_def rt_record_def
      rt_stop_def rt_cleanup_def Let_def)

text \<open>
  When the sleep fails the loop leaves with the flag cleared, the master held and the
  thread not joined. A start that the library grants then acquires a second master over the first
  and assigns to the joinable thread, which ends the daemon.
\<close>

theorem rt_restart_after_sleep_error_terminates:
  "(let l = foldl rt_life_step rt_life_init
          [RtStart demo_answers m 1000, RtCycle (int (Suc e)) now ret, RtStart demo_answers m' 1000]
      in rl_dead l \<and> rl_held l = 2)"
  by (simp add: rt_life_init_def rt_init_def rt_start_def demo_answers_def rt_cycle_def Let_def
      granted_def released_def)

end
