(* ===== verification/FreeRunConfig.thy ===== *)
theory FreeRunConfig
  imports Backend ShmMirror
begin

text \<open>
  The configuration part of \<^verbatim>\<open>apps/ecatd/FreeRunController.{h,cpp}\<close>: the topology read from the \<open>ethercat\<close>
  tool before a free run. \<open>parseCStruct\<close> reads the C structures the tool prints for a slave into the
  tree of sync managers, PDOs and entries, \<open>applyPdoNames\<close> fills in missing names from the PDO list,
  \<open>buildConfiguration\<close> does both for every slave. Conversions from text answer 0 where they fail, and
  the casts to the fields' widths wrap.
\<close>

section \<open>Specifications\<close>

record entry_spec =
  en_index :: u16
  en_subindex :: byte
  en_bitLength :: byte
  en_name :: string

record pdo_spec =
  pd_index :: u16
  pd_entries :: "entry_spec list"

datatype ec_direction = EC_DIR_INVALID | EC_DIR_OUTPUT | EC_DIR_INPUT
datatype ec_watchdog = EC_WD_DEFAULT | EC_WD_ENABLE | EC_WD_DISABLE

record sync_spec =
  sy_index :: byte
  sy_direction :: ec_direction
  sy_watchdog :: ec_watchdog
  sy_pdos :: "pdo_spec list"

record slave_spec =
  sl_alias :: u16
  sl_position :: u16
  sl_vendorId :: u32
  sl_productCode :: u32
  sl_syncs :: "sync_spec list"

section \<open>The printed structures\<close>

definition ushort :: "nat \<Rightarrow> string \<Rightarrow> nat" where
  "ushort b s = or_zero (to_uint (2 ^ 16) b s)"

definition vendor_re :: "rx list" where
  "vendor_re = [Lit ''Vendor ID:'', Spaces, Lit ''0x'', Grp 1 [Hexes]]"

definition product_re :: "rx list" where
  "product_re = [Lit ''Product code:'', Spaces, Lit ''0x'', Grp 1 [Hexes]]"

definition cs_entry_re :: "rx list" where
  \<comment> \<open>\<open>\{0x([0-9a-fA-F]+),\s*0x([0-9a-fA-F]+),\s*(\d+)\}\<close>\<close>
  "cs_entry_re = [Lit ''{0x'', Grp 1 [Hexes], Lit '','', Spaces0, Lit ''0x'', Grp 2 [Hexes], Lit '','', Spaces0,
     Grp 3 [Digits], Lit ''}'']"

definition cs_pdo_re :: "rx list" where
  \<comment> \<open>\<open>\{0x([0-9a-fA-F]+),\s*(\d+),\s*slave_\d+_pdo_entries\s*\+\s*(\d+)\}\<close>\<close>
  "cs_pdo_re = [Lit ''{0x'', Grp 1 [Hexes], Lit '','', Spaces0, Grp 2 [Digits], Lit '','', Spaces0, Lit ''slave_'',
     Digits, Lit ''_pdo_entries'', Spaces0, Lit ''+'', Spaces0, Grp 3 [Digits], Lit ''}'']"

definition is_upper :: "char \<Rightarrow> bool" where
  "is_upper c \<longleftrightarrow> 65 \<le> code_of c \<and> code_of c \<le> 90"

definition cs_sync_re :: "rx list" where
  \<comment> \<open>\<open>\{(\d+),\s*(EC_DIR_[A-Z]+),\s*(\d+),\s*(?:slave_\d+_pdos\s*\+\s*(\d+)|NULL),\s*(EC_WD_[A-Z]+)\}\<close>\<close>
  "cs_sync_re = [Lit ''{'', Grp 1 [Digits], Lit '','', Spaces0, Grp 2 [Lit ''EC_DIR_'', Many is_upper 1 None],
     Lit '','', Spaces0, Grp 3 [Digits], Lit '','', Spaces0,
     Alt [Lit ''slave_'', Digits, Lit ''_pdos'', Spaces0, Lit ''+'', Spaces0, Grp 4 [Digits]] [Lit ''NULL''],
     Lit '','', Spaces0, Grp 5 [Lit ''EC_WD_'', Many is_upper 1 None], Lit ''}'']"

definition captured_end :: "rx_pos \<Rightarrow> nat" where
  "captured_end m = length (fst m)"

definition entry_comment :: "string \<Rightarrow> nat \<Rightarrow> string" where
  \<comment> \<open>the name in the comment that follows on the same line\<close>
  "entry_comment text from =
     (case index_from ''/*'' text from of
        None \<Rightarrow> []
      | Some commentStart \<Rightarrow>
          if (case index_from [newline] text from of None \<Rightarrow> True | Some nextLine \<Rightarrow> commentStart < nextLine) then
            (case index_from ''*/'' text commentStart of
               None \<Rightarrow> []
             | Some commentEnd \<Rightarrow>
                 if commentEnd > commentStart
                 then trimmed (take (commentEnd - commentStart - 2) (drop (commentStart + 2) text))
                 else [])
          else [])"

definition cs_entries :: "string \<Rightarrow> entry_spec list" where
  "cs_entries text = map (\<lambda>m. \<lparr>en_index = of_nat (ushort 16 (captured m 1)),
       en_subindex = of_nat (ushort 16 (captured m 2)), en_bitLength = of_nat (ushort 10 (captured m 3)),
       en_name = entry_comment text (captured_end m)\<rparr>)
     (rx_global rx_plain cs_entry_re text)"

fun pick_loop :: "nat \<Rightarrow> int \<Rightarrow> int \<Rightarrow> int \<Rightarrow> 'x list \<Rightarrow> 'x list" where
  \<comment> \<open>\<open>for (i = 0; i < count && start + i < size; ++i) out.push_back(xs[start + i])\<close>, with fuel\<close>
  "pick_loop 0 i count start xs = []"
| "pick_loop (Suc k) i count start xs =
     (if i < count \<and> start + i < int (length xs)
      then xs ! nat (start + i) # pick_loop k (i + 1) count start xs else [])"

definition pick :: "int \<Rightarrow> int \<Rightarrow> 'x list \<Rightarrow> 'x list" where
  "pick count start xs = pick_loop (nat count) 0 count start xs"

definition int_of_text :: "string \<Rightarrow> int" where
  "int_of_text s = or_zero (to_int32 s)"

definition cs_pdos :: "entry_spec list \<Rightarrow> string \<Rightarrow> pdo_spec list" where
  "cs_pdos allEntries text = map (\<lambda>m. \<lparr>pd_index = of_nat (ushort 16 (captured m 1)),
       pd_entries = pick (int_of_text (captured m 2)) (int_of_text (captured m 3)) allEntries\<rparr>)
     (rx_global rx_plain cs_pdo_re text)"

definition cs_syncs :: "pdo_spec list \<Rightarrow> string \<Rightarrow> sync_spec list" where
  "cs_syncs allPdos text = map (\<lambda>m. \<lparr>sy_index = of_nat (ushort 10 (captured m 1)),
       sy_direction = (if captured m 2 = ''EC_DIR_OUTPUT'' then EC_DIR_OUTPUT else EC_DIR_INPUT),
       sy_watchdog = (if captured m 5 = ''EC_WD_ENABLE'' then EC_WD_ENABLE else EC_WD_DISABLE),
       sy_pdos = pick (int_of_text (captured m 3))
         (if captured m 4 = [] then 0 else int_of_text (captured m 4)) allPdos\<rparr>)
     (rx_global rx_plain cs_sync_re text)"

definition parseCStruct :: "u16 \<Rightarrow> string \<Rightarrow> string + slave_spec" where
  "parseCStruct position text =
     (case (rx_match rx_plain vendor_re text, rx_match rx_plain product_re text) of
        (Some vendor, Some product) \<Rightarrow>
          let syncs = cs_syncs (cs_pdos (cs_entries text) text) text
          in if syncs = [] then
               Inl (''No PDO sync information found for slave '' @ number_nat (unat position) @ ''.'')
             else Inr \<lparr>sl_alias = 0, sl_position = position,
                    sl_vendorId = of_nat (or_zero (to_uint (2 ^ 32) 16 (captured vendor 1))),
                    sl_productCode = of_nat (or_zero (to_uint (2 ^ 32) 16 (captured product 1))),
                    sl_syncs = syncs\<rparr>
      | _ \<Rightarrow> Inl (''Failed to parse vendor/product from cstruct for slave '' @ number_nat (unat position) @ ''.''))"

section \<open>Names from the PDO list\<close>

definition pdo_name_re :: "rx list" where
  \<comment> \<open>\<open>^\s+PDO entry\s+(0x[0-9a-fA-F]+):([0-9a-fA-F]+),\s+\d+\s+bit,\s+"(.+)"\<close>\<close>
  "pdo_name_re = [Bol, Spaces, Lit ''PDO entry'', Spaces, Grp 1 [Lit ''0x'', Hexes], Lit '':'', Grp 2 [Hexes], Lit '','',
     Spaces, Digits, Spaces, Lit ''bit,'', Spaces, Lit [CHR 0x22], Grp 3 [Many rx_dot 1 None], Lit [CHR 0x22]]"

definition entry_key :: "nat \<Rightarrow> nat \<Rightarrow> string" where
  "entry_key index sub = hex_field 4 index @ '':'' @ hex_field 2 sub"

fun collect_names :: "string list \<Rightarrow> (string \<times> string) list \<Rightarrow> (string \<times> string) list" where
  \<comment> \<open>\<open>QHash::insert\<close> replaces: the newest pair of a key is found first\<close>
  "collect_names [] names = names"
| "collect_names (line # lines) names =
     (case rx_match rx_plain pdo_name_re line of
        None \<Rightarrow> collect_names lines names
      | Some m \<Rightarrow>
          let key = entry_key (ushort 16 (captured m 1)) (ushort 16 (captured m 2));
              name = trimmed (captured m 3)
          in collect_names lines (if name \<noteq> [] then (key, name) # names else names))"

definition name_entry :: "(string \<times> string) list \<Rightarrow> entry_spec \<Rightarrow> entry_spec" where
  "name_entry names e =
     (if trimmed (en_name e) \<noteq> [] then e
      else e\<lparr>en_name := (case map_of names (entry_key (unat (en_index e)) (unat (en_subindex e))) of
               None \<Rightarrow> [] | Some n \<Rightarrow> n)\<rparr>)"

definition map_entries :: "(entry_spec \<Rightarrow> entry_spec) \<Rightarrow> slave_spec \<Rightarrow> slave_spec" where
  "map_entries f s = s\<lparr>sl_syncs := map (\<lambda>sy. sy\<lparr>sy_pdos := map (\<lambda>p. p\<lparr>pd_entries := map f (pd_entries p)\<rparr>)
     (sy_pdos sy)\<rparr>) (sl_syncs s)\<rparr>"

definition applyPdoNames :: "string \<Rightarrow> slave_spec \<Rightarrow> slave_spec" where
  "applyPdoNames text s =
     (let names = collect_names (split_on newline text) []
      in if names = [] then s else map_entries (name_entry names) s)"

section \<open>The whole bus\<close>

definition runEthercat ::
  "'w proc \<Rightarrow> int \<Rightarrow> u32 \<Rightarrow> string list \<Rightarrow> 'w \<Rightarrow> string \<times> int \<times> string \<times> 'w" where
  \<comment> \<open>the answer of \<open>waitForFinished\<close> is not looked at; \<open>unfinished\<close> is what \<open>exitCode()\<close> answers for
      a process that has not finished\<close>
  "runEthercat proc unfinished masterIndex arguments w =
     (let (out, w') = proc ''ethercat'' ([''-m'', number_nat (unat masterIndex)] @ arguments) w
      in case out of
           NotStarted \<Rightarrow> ([], - 1, ''Failed to start ethercat CLI.'', w')
         | TimedOut so \<Rightarrow> (so, unfinished, [], w')
         | Exited code so se \<Rightarrow> (so, code, trimmed se, w'))"

definition bus_line_re :: "rx list" where
  "bus_line_re = [Bol, Spaces0, Grp 1 [Digits], Spaces]"

fun build_lines ::
  "'w proc \<Rightarrow> int \<Rightarrow> u32 \<Rightarrow> string list \<Rightarrow> 'w \<Rightarrow> (string + slave_spec list) \<times> 'w" where
  "build_lines proc unf m [] w = (Inr [], w)"
| "build_lines proc unf m (line # lines) w =
     (case rx_match rx_plain bus_line_re line of
        None \<Rightarrow> build_lines proc unf m lines w
      | Some mt \<Rightarrow>
          let pos = ushort 10 (captured mt 1);
              (cstruct, code1, err1, w1) = runEthercat proc unf m [''cstruct'', ''-p'', number_nat pos] w
          in if code1 \<noteq> 0 then (Inl (if err1 = [] then cstruct else err1), w1)
             else case parseCStruct (of_nat pos) cstruct of
               Inl e \<Rightarrow> (Inl e, w1)
             | Inr slave \<Rightarrow>
                 let (pdos, code2, err2, w2) = runEthercat proc unf m [''pdos'', ''-p'', number_nat pos] w1;
                     slave' = (if code2 = 0 then applyPdoNames pdos slave else slave);
                     (rest, w3) = build_lines proc unf m lines w2
                 in (case rest of Inl e \<Rightarrow> Inl e | Inr slaves \<Rightarrow> Inr (slave' # slaves), w3))"

definition buildConfiguration ::
  "'w proc \<Rightarrow> int \<Rightarrow> u32 \<Rightarrow> 'w \<Rightarrow> (string + slave_spec list) \<times> 'w" where
  "buildConfiguration proc unf masterIndex w =
     (let (scan, code, err, w1) = runEthercat proc unf masterIndex [''slaves''] w
      in if code \<noteq> 0 then (Inl (if err = [] then scan else err), w1)
         else build_lines proc unf masterIndex (split_skip_empty newline scan) w1)"

section \<open>Picking stays in bounds\<close>

lemma pick_loop_slice:
  "0 \<le> start \<Longrightarrow> 0 \<le> i \<Longrightarrow> nat (count - i) \<le> k \<Longrightarrow>
   pick_loop k i count start xs = slice (nat (start + i)) (nat (count - i)) xs"
proof (induction k arbitrary: i)
  case (Suc k)
  show ?case
  proof (cases "i < count \<and> start + i < int (length xs)")
    case True
    then have n: "nat (start + i) < length xs" "nat (count - i) = Suc (nat (count - (i + 1)))"
      "nat (start + (i + 1)) = Suc (nat (start + i))"
      using Suc.prems by auto
    have "pick_loop k (i + 1) count start xs = slice (nat (start + (i + 1))) (nat (count - (i + 1))) xs"
      using Suc.prems True by (intro Suc.IH) auto
    with True n show ?thesis by (simp add: slice_def Cons_nth_drop_Suc [symmetric])
  next
    case False
    then show ?thesis using Suc.prems by (auto simp: slice_def)
  qed
qed (simp add: slice_def)

lemma pick_slice: "0 \<le> start \<Longrightarrow> pick count start xs = slice (nat start) (nat count) xs"
  by (simp add: pick_def pick_loop_slice)

definition digit_groups :: "nat \<Rightarrow> string \<Rightarrow> bool" where
  "digit_groups n s \<longleftrightarrow> (n \<in> {2, 3, 4} \<longrightarrow> (\<forall>c \<in> set s. is_digit c))"

lemma int_of_digits: "\<forall>c \<in> set s. is_digit c \<Longrightarrow> 0 \<le> int_of_text s"
proof -
  assume d: "\<forall>c \<in> set s. is_digit c"
  then have "trimmed s = s" by (intro trimmed_id) (auto dest: is_digit_not_space)
  moreover have "s = c # r \<Longrightarrow> c \<noteq> CHR ''-''" for c r using d is_digit_minus by auto
  ultimately show ?thesis
    by (auto simp: int_of_text_def to_sint_def or_zero_def Let_def split: list.splits option.splits)
qed

lemma digit_many_group: "groups_ok digit_groups fl (Grp n [Digits])"
  using many_consumes [of _ fl is_digit 1 None] by (auto simp: digit_groups_def simp del: rx_seq.simps rx_atom.simps)

lemma digit_pdo_groups: "\<forall>r \<in> set cs_pdo_re. groups_ok digit_groups rx_plain r"
  using digit_many_group unfolding cs_pdo_re_def by (simp add: digit_groups_def del: rx_seq.simps rx_atom.simps)

text \<open>
  The PDOs a configuration is built from hold contiguous runs of the printed entry
  table: whatever counts and start indices the text has, a PDO's entries are the slice the indices
  name, cut off at the end of the table, and none is read outside it.
\<close>

theorem cstruct_pdos_are_slices:
  assumes "p \<in> set (cs_pdos all text)"
  shows "\<exists>start count. pd_entries p = slice start count all"
proof -
  from assms obtain m where m: "m \<in> set (rx_global rx_plain cs_pdo_re text)"
    "pd_entries p = pick (int_of_text (captured m 2)) (int_of_text (captured m 3)) all"
    by (auto simp: cs_pdos_def)
  have "captured m 3 = [] \<or> digit_groups 3 (captured m 3)"
    by (rule rx_global_captured [OF m(1) digit_pdo_groups])
  then have "0 \<le> int_of_text (captured m 3)"
    using int_of_digits [of "captured m 3"] by (auto simp: digit_groups_def)
  then show ?thesis unfolding m(2) using pick_slice by blast
qed

definition demo_pdo_text :: string where
  "demo_pdo_text = ''{0x1a00, 1, slave_0_pdo_entries + 0},''"

definition demo_entry :: entry_spec where
  "demo_entry = \<lparr>en_index = 0x6041, en_subindex = 0, en_bitLength = 16, en_name = []\<rparr>"

theorem cstruct_pdos_are_slices_witness:
  "cs_pdos [demo_entry] demo_pdo_text \<noteq> []
   \<and> (\<exists>start count. pd_entries (hd (cs_pdos [demo_entry] demo_pdo_text)) = slice start count [demo_entry])"
proof -
  have "rx_global rx_plain cs_pdo_re demo_pdo_text \<noteq> []" by code_simp
  then have n: "cs_pdos [demo_entry] demo_pdo_text \<noteq> []" by (simp add: cs_pdos_def)
  then have "hd (cs_pdos [demo_entry] demo_pdo_text) \<in> set (cs_pdos [demo_entry] demo_pdo_text)" by simp
  from n cstruct_pdos_are_slices [OF this] show ?thesis by blast
qed

end
