(* ===== verification/FreeRunController.thy ===== *)
theory FreeRunController
  imports FreeRunConfig RtTestController
begin

text \<open>
  \<^verbatim>\<open>apps/ecatd/FreeRunController.{h,cpp}\<close>: the process data cycle. Starting builds the configuration, acquires
  the master, registers every PDO entry and maps the shared memory; the loop receives, mirrors and
  sends; stopping gives everything back. The answers of \<open>ecrt\<close> and of the system calls are arguments
  (\<open>start_answers\<close>), the calls that acquire and release are listed in the results. An entry's offset
  and bit position are the values the registration stored; the mapped shared memory is a header and
  two buffers of the stride's length. The thread and the clock are as in \<open>RtTestController\<close>.
\<close>

section \<open>State\<close>

record runtime_entry =
  rn_slave :: u16
  rn_sync :: byte
  rn_direction :: string
  rn_pdo :: u16
  rn_index :: u16
  rn_subindex :: byte
  rn_bitLength :: byte
  rn_name :: string
  rn_offset :: u32
  rn_bit :: u32

record pdo_registration =
  rg_alias :: u16
  rg_position :: u16
  rg_vendorId :: u32
  rg_productCode :: u32
  rg_index :: u16
  rg_subindex :: byte

datatype wc_state = EC_WC_ZERO | EC_WC_INCOMPLETE | EC_WC_COMPLETE | EC_WC_OTHER int

record master_state =
  ms_slaves_responding :: u32
  ms_al_states :: u32
  ms_link_up :: bool

record domain_state =
  ds_working_counter :: u32
  ds_wc_state :: wc_state
  ds_redundancy_active :: u32

record shm_map =
  sm_header :: shm_header
  sm_data0 :: "byte list"
  sm_data1 :: "byte list"

record free_run =
  fr_running :: bool
  fr_cycleCount :: nat
  fr_wcErrorCount :: nat
  fr_minCycleNsec :: int
  fr_maxCycleNsec :: int
  fr_totalCycleNsec :: int
  fr_thread :: rt_thread
  fr_prevTime :: u64
  fr_activeMasterIndex :: u32
  fr_status :: string
  fr_shm :: "shm_map option"
  fr_stride :: nat
  fr_masterState :: master_state
  fr_domainState :: domain_state
  fr_master :: bool
  fr_domain :: bool
  fr_domainData :: "byte list option"
  fr_slaves :: "slave_spec list"
  fr_registrations :: "pdo_registration list"
  fr_entries :: "runtime_entry list"
  fr_mirror :: "mirror_entry list"

definition kWcErrorThreshold :: nat where "kWcErrorThreshold = 100"

definition kShmName :: string where "kShmName = ''/nekoecat_proc_0''"

definition no_master_state :: master_state where
  "no_master_state = \<lparr>ms_slaves_responding = 0, ms_al_states = 0, ms_link_up = False\<rparr>"

definition no_domain_state :: domain_state where
  "no_domain_state = \<lparr>ds_working_counter = 0, ds_wc_state = EC_WC_ZERO, ds_redundancy_active = 0\<rparr>"

definition fr_init :: free_run where
  "fr_init = \<lparr>fr_running = False, fr_cycleCount = 0, fr_wcErrorCount = 0, fr_minCycleNsec = INT64_MAX,
     fr_maxCycleNsec = 0, fr_totalCycleNsec = 0, fr_thread = NoThread, fr_prevTime = 0,
     fr_activeMasterIndex = 0, fr_status = ''Stopped'', fr_shm = None, fr_stride = 0,
     fr_masterState = no_master_state, fr_domainState = no_domain_state, fr_master = False,
     fr_domain = False, fr_domainData = None, fr_slaves = [], fr_registrations = [],
     fr_entries = [], fr_mirror = []\<rparr>"

section \<open>Registering the entries\<close>

definition direction_text :: "ec_direction \<Rightarrow> string" where
  "direction_text d = (if d = EC_DIR_OUTPUT then ''RxPDO'' else ''TxPDO'')"

definition slave_entries :: "slave_spec \<Rightarrow> runtime_entry list" where
  \<comment> \<open>the pushes of the nested loops, before the registration stores offsets and bit positions\<close>
  "slave_entries sl = concat (map (\<lambda>sy. concat (map (\<lambda>p. map (\<lambda>e.
     \<lparr>rn_slave = sl_position sl, rn_sync = sy_index sy, rn_direction = direction_text (sy_direction sy),
       rn_pdo = pd_index p, rn_index = en_index e, rn_subindex = en_subindex e,
       rn_bitLength = en_bitLength e, rn_name = en_name e, rn_offset = 0, rn_bit = 0\<rparr>)
     (pd_entries p)) (sy_pdos sy))) (sl_syncs sl))"

definition slave_registrations :: "slave_spec \<Rightarrow> pdo_registration list" where
  "slave_registrations sl = concat (map (\<lambda>sy. concat (map (\<lambda>p. map (\<lambda>e.
     \<lparr>rg_alias = sl_alias sl, rg_position = sl_position sl, rg_vendorId = sl_vendorId sl,
       rg_productCode = sl_productCode sl, rg_index = en_index e, rg_subindex = en_subindex e\<rparr>)
     (pd_entries p)) (sy_pdos sy))) (sl_syncs sl))"

definition totalEntries :: "slave_spec list \<Rightarrow> nat" where
  "totalEntries slaves = sum_list (map (\<lambda>sl. sum_list (map (\<lambda>sy. sum_list (map (\<lambda>p. length (pd_entries p))
     (sy_pdos sy))) (sl_syncs sl))) slaves)"

fun sync_storage :: "nat \<Rightarrow> sync_spec list \<Rightarrow> (sync_spec \<times> nat \<times> nat) list" where
  \<comment> \<open>the sync infos: how many PDOs and where they start in the slave's PDO array\<close>
  "sync_storage pdoCursor [] = []"
| "sync_storage pdoCursor (sy # sys) =
     (sy, pdoCursor, length (sy_pdos sy)) # sync_storage (pdoCursor + length (sy_pdos sy)) sys"

definition pdo_storage :: "sync_spec list \<Rightarrow> pdo_spec list" where
  "pdo_storage syncs = concat (map sy_pdos syncs)"

definition store_offsets :: "(nat \<Rightarrow> u32) \<Rightarrow> (nat \<Rightarrow> u32) \<Rightarrow> runtime_entry list \<Rightarrow> runtime_entry list" where
  \<comment> \<open>entry \<open>k\<close> points to \<open>offsets_[k]\<close> and \<open>bitPositions_[k]\<close>\<close>
  "store_offsets offs bits es =
     map (\<lambda>(k, e). e\<lparr>rn_offset := offs k, rn_bit := bits k\<rparr>) (zip [0..<length es] es)"

section \<open>Shared memory\<close>

definition new_header :: "nat \<Rightarrow> shm_header" where
  "new_header bufferSize = \<lparr>version = 0, cycle_count = 0, timestamp_ns = 0, active_buffer = 0,
     data_size = of_nat bufferSize, layout_version = LAYOUT_VERSION, status_flags = 0, ignored_writes = 0\<rparr>"

record shm_answers =
  \<comment> \<open>whether \<open>shm_open\<close>, \<open>ftruncate\<close> and \<open>mmap\<close> succeed, and the bytes of the mapped buffers\<close>
  sa_open :: bool
  sa_truncate :: bool
  sa_mmap :: bool
  sa_bytes :: "nat \<Rightarrow> byte"

definition initSharedMemory :: "shm_answers \<Rightarrow> nat \<Rightarrow> free_run \<Rightarrow> string option \<times> free_run" where
  "initSharedMemory a dataSize s =
     (if \<not> sa_open a then (Some (''Failed to open shared memory '' @ kShmName), s)
      else
        let bufferSize = (if dataSize > 0 then dataSize else MAX_PROCESS_DATA_SIZE) in
        if \<not> sa_truncate a then (Some ''Failed to size shared memory'', s)
        else if \<not> sa_mmap a then (Some ''Failed to mmap shared memory'', s)
        else (None, s\<lparr>fr_stride := bufferSize,
               fr_shm := Some \<lparr>sm_header = new_header bufferSize,
                 sm_data0 = map (sa_bytes a) [0..<bufferSize],
                 sm_data1 = map (\<lambda>i. sa_bytes a (bufferSize + i)) [0..<bufferSize]\<rparr>\<rparr>))"

definition cleanupSharedMemory :: "free_run \<Rightarrow> free_run" where
  "cleanupSharedMemory s = s\<lparr>fr_shm := None, fr_stride := 0\<rparr>"

definition buildMirrorEntries :: "runtime_entry list \<Rightarrow> mirror_entry list" where
  "buildMirrorEntries es = map (\<lambda>e. \<lparr>me_slave = rn_slave e, me_index = rn_index e, me_sub = rn_subindex e,
     me_bit_length = rn_bitLength e, me_direction = take 7 (rn_direction e), me_offset = rn_offset e\<rparr>) es"

definition fr_context :: "u64 \<Rightarrow> shm_map \<Rightarrow> free_run \<Rightarrow> mirror_ctx" where
  "fr_context now m s =
     (let stride = (if fr_stride s > 0 then fr_stride s else MAX_PROCESS_DATA_SIZE);
          hdr = unat (data_size (sm_header m));
          dataSize = (if hdr = 0 \<or> hdr > stride then stride else hdr)
      in \<lparr>domain_data = fr_domainData s, shm_data0 = Some (sm_data0 m), shm_data1 = Some (sm_data1 m),
          entries = fr_mirror s, ctx_data_size = dataSize, ctx_timestamp = now,
          active_ref = active_buffer (sm_header m), version_ref = Some (version (sm_header m)),
          cycle_ref = Some (cycle_count (sm_header m)), timestamp_ref = Some (timestamp_ns (sm_header m)),
          flags_ref = Some (status_flags (sm_header m)), ignored_ref = Some (ignored_writes (sm_header m))\<rparr>)"

definition header_of :: "mirror_ctx \<Rightarrow> shm_header \<Rightarrow> shm_header" where
  "header_of c h = h\<lparr>version := the (version_ref c), cycle_count := the (cycle_ref c),
     timestamp_ns := the (timestamp_ref c), active_buffer := active_ref c,
     status_flags := the (flags_ref c), ignored_writes := the (ignored_ref c)\<rparr>"

definition fr_mirrorToShm :: "u64 \<Rightarrow> free_run \<Rightarrow> free_run" where
  "fr_mirrorToShm now s =
     (case (fr_shm s, fr_domainData s) of
        (Some m, Some d) \<Rightarrow>
          if fr_mirror s = [] then s
          else (case mirrorToShm (Some (fr_context now m s)) of
             None \<Rightarrow> s
           | Some c \<Rightarrow> s\<lparr>fr_domainData := domain_data c,
               fr_shm := Some (m\<lparr>sm_header := header_of c (sm_header m),
                 sm_data0 := the (shm_data0 c), sm_data1 := the (shm_data1 c)\<rparr>)\<rparr>)
      | _ \<Rightarrow> s)"

definition shmInfo :: "free_run \<Rightarrow> jobject" where
  "shmInfo s = [(''shm_name'', JStr kShmName)]
     @ (case fr_shm s of None \<Rightarrow> []
        | Some m \<Rightarrow> [(''data_size'', jint (sint (data_size (sm_header m)))),
            (''layout_version'', jint (sint (layout_version (sm_header m)))),
            (''active_buffer'', jint (sint (active_buffer (sm_header m)))),
            (''version'', jint (sint (version (sm_header m))))])
     @ [(''layout'', JArr (map (\<lambda>e. JObj [(''slave'', jnat (unat (rn_slave e))),
          (''index'', jnat (unat (rn_index e))), (''subindex'', jnat (unat (rn_subindex e))),
          (''bitLength'', jnat (unat (rn_bitLength e))), (''direction'', JStr (rn_direction e)),
          (''name'', JStr (rn_name e)), (''offset'', jint (sint (rn_offset e)))]) (fr_entries s)))]"

end
