(* ===== verification/ByteOrder.thy ===== *)
theory ByteOrder
  imports Prelude
begin

text \<open>
  Numbers in memory. The daemon runs on little-endian machines: \<open>memcpy\<close> between an integer and a buffer, as
  \<open>EC_READ_U8\<close> to \<open>EC_READ_U64\<close>, has the least significant byte first.
\<close>

definition le_value :: "byte list \<Rightarrow> nat" where
  "le_value bs = foldr (\<lambda>b acc. unat b + 256 * acc) bs 0"

fun le_bytes :: "nat \<Rightarrow> nat \<Rightarrow> byte list" where
  "le_bytes 0 n = []"
| "le_bytes (Suc k) n = of_nat n # le_bytes k (n div 256)"

definition signed_value :: "nat \<Rightarrow> nat \<Rightarrow> int" where
  \<comment> \<open>two's complement of \<open>k\<close> bytes\<close>
  "signed_value k n = (if 2 * n < 256 ^ k then int n else int n - 256 ^ k)"

definition wrapped :: "nat \<Rightarrow> int \<Rightarrow> nat" where
  \<comment> \<open>the bits of an integer kept by a cast to \<open>k\<close> bytes\<close>
  "wrapped k i = nat (i mod 256 ^ k)"

lemma length_le_bytes [simp]: "length (le_bytes k n) = k"
  by (induction k arbitrary: n) simp_all

lemma le_value_simps [simp]: "le_value [] = 0" "le_value (b # bs) = unat b + 256 * le_value bs"
  by (simp_all add: le_value_def)

lemma le_value_bytes: "le_value (le_bytes k n) = n mod 256 ^ k"
proof (induction k arbitrary: n)
  case (Suc k)
  have "unat (of_nat n :: byte) = n mod 256" by (simp add: unat_of_nat)
  then show ?case using Suc by (simp add: mod_mult2_eq)
qed simp

lemma unat_byte: "unat (b :: byte) < 256"
  using unsigned_less [of b, where 'a = nat] by simp

lemma le_value_bound: "le_value bs < 256 ^ length bs"
proof (induction bs)
  case (Cons b bs)
  have "unat b < 256" by (rule unat_byte)
  with Cons show ?case by simp
qed simp

lemma le_bytes_value: "le_bytes (length bs) (le_value bs) = bs"
proof (induction bs)
  case (Cons b bs)
  have b: "unat b < 256" by (rule unat_byte)
  have "unat (of_nat (unat b + 256 * le_value bs) :: byte) = unat b"
    using b by (simp only: unat_of_nat) simp
  then have "(of_nat (unat b + 256 * le_value bs) :: byte) = b" by (simp only: word_unat_eq_iff)
  moreover have "(unat b + 256 * le_value bs) div 256 = le_value bs" using b by simp
  ultimately show ?case using Cons by simp
qed simp

lemma wrapped_bound: "wrapped k i < 256 ^ k"
  by (simp add: wrapped_def nat_less_iff)

lemma wrapped_nat: "wrapped k (int n) = n mod 256 ^ k"
  by (simp add: wrapped_def nat_mod_distrib nat_power_eq)

lemma signed_wrapped:
  assumes "0 < k" and "- (256 ^ k) \<le> 2 * i" and "2 * i < 256 ^ k"
  shows "signed_value k (wrapped k i) = i"
proof (cases "0 \<le> i")
  case True
  then have "i mod 256 ^ k = i" using assms(3) by simp
  then have "int (wrapped k i) = i" using True by (simp add: wrapped_def)
  moreover from this assms(3) have "int (2 * wrapped k i) < int (256 ^ k)" by simp
  ultimately show ?thesis unfolding of_nat_less_iff by (simp add: signed_value_def)
next
  case False
  have "0 \<le> i + 256 ^ k" "i + 256 ^ k < 256 ^ k" using assms(2) False zero_less_power [of "256 :: int" k] by linarith+
  then have "(i + 256 ^ k) mod 256 ^ k = i + 256 ^ k" by (rule mod_pos_pos_trivial)
  then have "i mod 256 ^ k = i + 256 ^ k" by simp
  then have "int (wrapped k i) = i + 256 ^ k" using assms(2) False by (simp add: wrapped_def)
  moreover from this assms(2) have "\<not> int (2 * wrapped k i) < int (256 ^ k)" by simp
  ultimately show ?thesis unfolding of_nat_less_iff by (simp add: signed_value_def)
qed

end
