(* ===== verification/FreeRunCycle.thy ===== *)
theory FreeRunCycle
  imports FreeRunController ByteOrder
begin

text \<open>
  The life of \<^verbatim>\<open>apps/ecatd/FreeRunController.cpp\<close>: \<open>start\<close>, the loop's turns, \<open>stop\<close>, the telemetry and the
  four methods of \<^verbatim>\<open>apps/ecatd/freerun_rpc_handlers.cpp\<close>. The answers of \<open>ecrt\<close>, the system calls and
  the clock are arguments, the calls made are listed in the results. The scheduling and memory locking
  of the loop and \<open>lastWarning_\<close>, which nothing reads, are left out.
\<close>

section \<open>Starting\<close>

datatype fr_call =
    FrRequest u32
  | FrCreateDomain
  | FrSendInterval nat
  | FrSlaveConfig u16
  | FrSlavePdos u16 "(sync_spec \<times> nat \<times> nat) list" "pdo_spec list"
  | FrRegister "pdo_registration list"
  | FrActivate
  | FrRelease

record fr_answers =
  \<comment> \<open>whether each call of \<open>ecrt\<close> succeeds (the slaves counted from 0), the offsets and bit positions the
      registration stores, the domain's data, the states, and the clock when the loop begins\<close>
  fa_master :: bool
  fa_domain :: bool
  fa_config :: "nat \<Rightarrow> bool"
  fa_pdos :: "nat \<Rightarrow> bool"
  fa_register :: bool
  fa_activate :: bool
  fa_data :: "byte list option"
  fa_offsets :: "nat \<Rightarrow> u32"
  fa_bits :: "nat \<Rightarrow> u32"
  fa_masterState :: master_state
  fa_domainState :: domain_state
  fa_shm :: shm_answers
  fa_now :: u64

definition fr_cleanup :: "free_run \<Rightarrow> fr_call list \<times> free_run" where
  \<comment> \<open>the join waits for a loop that has left or is about to\<close>
  "fr_cleanup s =
     ((if fr_master s then [FrRelease] else []),
      cleanupSharedMemory (s\<lparr>fr_thread := NoThread, fr_master := False, fr_domain := False, fr_domainData := None,
        fr_slaves := [], fr_registrations := [], fr_entries := [], fr_mirror := [],
        fr_activeMasterIndex := 0, fr_cycleCount := 0,
        fr_masterState := no_master_state, fr_domainState := no_domain_state\<rparr>))"

definition fr_refuse ::
  "string \<Rightarrow> fr_call list \<Rightarrow> free_run \<Rightarrow> start_outcome \<times> fr_call list \<times> free_run" where
  \<comment> \<open>\<open>*error = e; cleanup(); return false;\<close>\<close>
  "fr_refuse e calls s = (let (cs, s') = fr_cleanup s in (Refused e, calls @ cs, s'))"

fun configure_slaves :: "fr_answers \<Rightarrow> nat \<Rightarrow> slave_spec list \<Rightarrow> fr_call list \<times> string option" where
  "configure_slaves a k [] = ([], None)"
| "configure_slaves a k (sl # sls) =
     (if \<not> fa_config a k then
        ([FrSlaveConfig (sl_position sl)],
         Some (''Failed to create slave config for position '' @ number_nat (unat (sl_position sl)) @ ''.''))
      else
        let calls = [FrSlaveConfig (sl_position sl),
               FrSlavePdos (sl_position sl) (sync_storage 0 (sl_syncs sl)) (pdo_storage (sl_syncs sl))]
        in if \<not> fa_pdos a k then
             (calls, Some (''Failed to configure PDOs for slave '' @ number_nat (unat (sl_position sl)) @ ''.''))
           else let (cs, e) = configure_slaves a (Suc k) sls in (calls @ cs, e))"

definition fr_busy_error :: "u32 \<Rightarrow> string" where
  "fr_busy_error m = ''Free Run is already active on master '' @ number_nat (unat m)
     @ ''. Stop it before switching masters.''"

definition fr_request_error :: "u32 \<Rightarrow> string" where
  "fr_request_error m = ''Failed to request IgH master '' @ number_nat (unat m)
     @ ''. Stop other EtherCAT applications and retry.''"

definition fr_running_status :: "u32 \<Rightarrow> nat \<Rightarrow> nat \<Rightarrow> string" where
  "fr_running_status m slaves entries_n = ''Running on master '' @ number_nat (unat m) @ '', ''
     @ number_nat slaves @ '' slave(s), '' @ number_nat entries_n @ '' PDO entries''"

definition image_bytes :: "mirror_entry list \<Rightarrow> nat" where
  "image_bytes es =
     (let computed = computeProcessDataSize (Some es);
          computed' = (if computed = 0 then 1 else computed)
      in if computed' > MAX_PROCESS_DATA_SIZE then MAX_PROCESS_DATA_SIZE else computed')"

definition fr_install :: "fr_answers \<Rightarrow> slave_spec list \<Rightarrow> free_run \<Rightarrow> free_run" where
  \<comment> \<open>the runtime arrays after the slaves' loop and the registration\<close>
  "fr_install a slaves s = s\<lparr>fr_slaves := slaves,
     fr_registrations := concat (map slave_registrations slaves),
     fr_entries := store_offsets (fa_offsets a) (fa_bits a) (concat (map slave_entries slaves))\<rparr>"

definition fr_activated ::
  "fr_answers \<Rightarrow> u32 \<Rightarrow> slave_spec list \<Rightarrow> fr_call list \<Rightarrow> free_run \<Rightarrow> start_outcome \<times> fr_call list \<times> free_run" where
  \<comment> \<open>from the states' snapshot to the start of the thread\<close>
  "fr_activated a masterIndex slaves calls s =
     (let s1 = s\<lparr>fr_masterState := fa_masterState a, fr_domainState := fa_domainState a,
            fr_mirror := buildMirrorEntries (fr_entries s)\<rparr>
      in case initSharedMemory (fa_shm a) (image_bytes (fr_mirror s1)) s1 of
           (Some e, s2) \<Rightarrow> fr_refuse e calls s2
         | (None, s2) \<Rightarrow>
             let s3 = s2\<lparr>fr_activeMasterIndex := masterIndex, fr_cycleCount := 0, fr_wcErrorCount := 0,
                   fr_minCycleNsec := INT64_MAX, fr_maxCycleNsec := 0, fr_totalCycleNsec := 0,
                   fr_status := fr_running_status masterIndex (length slaves) (totalEntries slaves),
                   fr_running := True\<rparr>
             in if fr_thread s3 \<noteq> NoThread then (Terminated, calls, s3)
                else (Started, calls, s3\<lparr>fr_thread := Looping, fr_prevTime := fa_now a\<rparr>))"

definition fr_acquire ::
  "fr_answers \<Rightarrow> nat \<Rightarrow> u32 \<Rightarrow> slave_spec list \<Rightarrow> free_run \<Rightarrow> start_outcome \<times> fr_call list \<times> free_run" where
  \<comment> \<open>\<open>start\<close> from \<open>ecrt_request_master\<close> on; the arrays are cleared and filled where it does\<close>
  "fr_acquire a cycleNsec masterIndex slaves s =
     (let calls = [FrRequest masterIndex]; s1 = s\<lparr>fr_master := fa_master a\<rparr> in
      if \<not> fa_master a then fr_refuse (fr_request_error masterIndex) calls s1
      else
        let calls = calls @ [FrCreateDomain]; s2 = s1\<lparr>fr_domain := fa_domain a\<rparr> in
        if \<not> fa_domain a then fr_refuse ''Failed to create EtherCAT process data domain.'' calls s2
        else
          let (cs, e) = configure_slaves a 0 slaves;
              calls = calls @ [FrSendInterval (cycleNsec div 1000)] @ cs;
              s3 = fr_install a slaves s2
          in case e of
               Some msg \<Rightarrow> fr_refuse msg calls s3
             | None \<Rightarrow>
                 let calls = calls @ [FrRegister (fr_registrations s3)] in
                 if \<not> fa_register a then
                   fr_refuse ''Failed to register PDO entries in the process data domain.'' calls s3
                 else
                   let calls = calls @ [FrActivate] in
                   if \<not> fa_activate a then fr_refuse ''Failed to activate IgH master for Free Run.'' calls s3
                   else
                     let s4 = s3\<lparr>fr_domainData := fa_data a\<rparr> in
                     if fa_data a = None then
                       fr_refuse ''Failed to obtain domain process data pointer.'' calls s4
                     else fr_activated a masterIndex slaves calls s4)"

definition fr_start ::
  "'w proc \<Rightarrow> int \<Rightarrow> fr_answers \<Rightarrow> nat \<Rightarrow> u32 \<Rightarrow> free_run \<times> 'w \<Rightarrow> start_outcome \<times> fr_call list \<times> free_run \<times> 'w" where
  "fr_start proc unf a cycleNsec masterIndex sw =
     (case sw of (s, w) \<Rightarrow>
        if fr_running s then
          if masterIndex = fr_activeMasterIndex s then (Started, [], s, w)
          else (Refused (fr_busy_error (fr_activeMasterIndex s)), [], s, w)
        else
          case buildConfiguration proc unf masterIndex w of
            (Inl e, w') \<Rightarrow> (Refused e, [], s, w')
          | (Inr slaves, w') \<Rightarrow>
              if slaves = [] then (Refused ''No EtherCAT slaves found for Free Run.'', [], s, w')
              else let (out, calls, s') = fr_acquire a cycleNsec masterIndex slaves s in (out, calls, s', w'))"

section \<open>Stopping\<close>

definition fr_announce_stop :: "shm_map \<Rightarrow> shm_map" where
  "fr_announce_stop m = m\<lparr>sm_header := (sm_header m)\<lparr>status_flags := status_flags (sm_header m) AND NOT FLAG_RUNNING,
     version := version (sm_header m) + 1\<rparr>\<rparr>"

definition fr_stop :: "free_run \<Rightarrow> fr_call list \<times> shm_map option \<times> free_run" where
  \<comment> \<open>with the last contents of the mapping, which attached clients keep\<close>
  "fr_stop s =
     (let s1 = (if fr_running s then s\<lparr>fr_running := False, fr_thread := NoThread\<rparr> else s);
          s2 = s1\<lparr>fr_shm := map_option fr_announce_stop (fr_shm s1)\<rparr>;
          (cs, s3) = fr_cleanup s2
      in (cs, fr_shm s2, s3\<lparr>fr_status := ''Stopped''\<rparr>))"

section \<open>One turn of the loop\<close>

record cycle_inputs =
  \<comment> \<open>the sleep's result, the clock after it and in the mirror, the image \<open>ecrt_domain_process\<close> leaves, the states\<close>
  ci_sleepErr :: int
  ci_now :: u64
  ci_shmNow :: u64
  ci_receive :: "byte list \<Rightarrow> byte list"
  ci_masterState :: master_state
  ci_domainState :: domain_state

definition em_dash :: string where
  \<comment> \<open>U+2014 in UTF-8\<close>
  "em_dash = [CHR 0xE2, CHR 0x80, CHR 0x94]"

definition wc_warning :: "nat \<Rightarrow> string" where
  "wc_warning n = ''WARNING: '' @ number_nat n @ '' consecutive WC errors '' @ em_dash @ '' check bus wiring''"

definition wc_recovered :: "u32 \<Rightarrow> nat \<Rightarrow> string" where
  "wc_recovered m n = ''Running on master '' @ number_nat (unat m) @ '' '' @ em_dash @ '' WC recovered after ''
     @ number_nat n @ '' errors''"

definition fr_trackWc :: "free_run \<Rightarrow> free_run" where
  "fr_trackWc s =
     (if ds_wc_state (fr_domainState s) \<noteq> EC_WC_COMPLETE then
        let s1 = s\<lparr>fr_wcErrorCount := Suc (fr_wcErrorCount s)\<rparr>
        in if fr_wcErrorCount s1 = kWcErrorThreshold
           then s1\<lparr>fr_status := wc_warning (fr_wcErrorCount s1)\<rparr> else s1
      else
        let s1 = (if fr_wcErrorCount s > 0
                  then s\<lparr>fr_status := wc_recovered (fr_activeMasterIndex s) (fr_wcErrorCount s)\<rparr> else s)
        in s1\<lparr>fr_wcErrorCount := 0\<rparr>)"

definition fr_measure :: "u64 \<Rightarrow> free_run \<Rightarrow> free_run" where
  "fr_measure now s =
     (let cycleDelta = sint (now - fr_prevTime s)
      in s\<lparr>fr_prevTime := now,
           fr_minCycleNsec := (if cycleDelta < fr_minCycleNsec s then cycleDelta else fr_minCycleNsec s),
           fr_maxCycleNsec := (if cycleDelta > fr_maxCycleNsec s then cycleDelta else fr_maxCycleNsec s),
           fr_totalCycleNsec := fr_totalCycleNsec s + cycleDelta\<rparr>)"

definition fr_exchange :: "cycle_inputs \<Rightarrow> free_run \<Rightarrow> free_run" where
  \<comment> \<open>receive and process, mirror, then the states\<close>
  "fr_exchange inp s =
     (let s1 = s\<lparr>fr_domainData := map_option (ci_receive inp) (fr_domainData s)\<rparr>;
          s2 = fr_mirrorToShm (ci_shmNow inp) s1
      in s2\<lparr>fr_masterState := ci_masterState inp, fr_domainState := ci_domainState inp\<rparr>)"

definition fr_turn :: "cycle_inputs \<Rightarrow> free_run \<Rightarrow> free_run" where
  "fr_turn inp s =
     (if \<not> fr_running s then s\<lparr>fr_thread := Exited\<rparr>
      else if ci_sleepErr inp \<noteq> 0 then s\<lparr>fr_thread := Exited\<rparr>
      else
        let s1 = fr_trackWc (fr_exchange inp (fr_measure (ci_now inp) s))
        in s1\<lparr>fr_cycleCount := Suc (fr_cycleCount s1)\<rparr>)"

section \<open>Texts and values for the display\<close>

definition al_flag :: "u32 \<Rightarrow> nat \<Rightarrow> string \<Rightarrow> string list" where
  "al_flag states k name = (if bit states k then [name] else [])"

definition alStateText :: "u32 \<Rightarrow> string" where
  "alStateText alStates =
     (let states = al_flag alStates 0 ''INIT'' @ al_flag alStates 1 ''PREOP'' @ al_flag alStates 2 ''SAFEOP''
            @ al_flag alStates 3 ''OP''
      in if states = [] then ''Unknown'' else join_with '' | '' states)"

fun wcStateText :: "wc_state \<Rightarrow> string" where
  "wcStateText EC_WC_ZERO = ''Zero''"
| "wcStateText EC_WC_INCOMPLETE = ''Incomplete''"
| "wcStateText EC_WC_COMPLETE = ''Complete''"
| "wcStateText (EC_WC_OTHER _) = ''Unknown''"

fun wc_state_number :: "wc_state \<Rightarrow> int" where
  "wc_state_number EC_WC_ZERO = 0"
| "wc_state_number EC_WC_INCOMPLETE = 1"
| "wc_state_number EC_WC_COMPLETE = 2"
| "wc_state_number (EC_WC_OTHER n) = n"

definition bracket_re :: "rx list" where
  \<comment> \<open>\<open>\s*\[[^\]]+\]\s*\<close>\<close>
  "bracket_re = [Spaces0, Lit ''['', Many (\<lambda>c. c \<noteq> CHR '']'') 1 None, Lit '']'', Spaces0]"

definition normalizedEntryName :: "string \<Rightarrow> string" where
  "normalizedEntryName name = trimmed (rx_remove rx_plain bracket_re name)"

definition entryDisplayName :: "runtime_entry \<Rightarrow> string" where
  "entryDisplayName e =
     (let cleaned = normalizedEntryName (rn_name e)
      in if cleaned \<noteq> [] then cleaned
         else rn_direction e @ '' 0x'' @ hex_field 4 (unat (rn_index e)) @ '':0x'' @ hex_field 2 (unat (rn_subindex e)))"

definition entryMeaning :: "runtime_entry \<Rightarrow> string" where
  "entryMeaning e =
     (let name = to_lower (entryDisplayName e)
      in if contains_str ''flow'' name then ''Flow''
         else if contains_str ''pressure'' name then ''Pressure''
         else if contains_str ''temperature'' name then ''Temperature''
         else if contains_str ''position'' name then ''Position''
         else if contains_str ''exception'' name \<or> contains_str ''status'' name then ''Status''
         else if contains_str ''actuator'' name \<or> contains_str ''valve'' name then ''Actuator''
         else rn_direction e)"

definition read_le :: "nat \<Rightarrow> byte list \<Rightarrow> nat \<Rightarrow> nat" where
  \<comment> \<open>\<open>EC_READ_U8\<close> to \<open>EC_READ_U64\<close> on the bytes of the image from an offset\<close>
  "read_le n d off = le_value (slice off n d)"

definition read_bit :: "byte list \<Rightarrow> nat \<Rightarrow> nat \<Rightarrow> nat" where
  "read_bit d off k = (read_le 1 d off div 2 ^ k) mod 2"

definition has_data :: "byte list option \<Rightarrow> runtime_entry \<Rightarrow> bool" where
  "has_data d e \<longleftrightarrow> d \<noteq> None \<and> rn_offset e \<noteq> - 1"

definition readEntryRawValue :: "byte list option \<Rightarrow> runtime_entry \<Rightarrow> string" where
  "readEntryRawValue d e =
     (if \<not> has_data d e then []
      else
        let data = the d; off = unat (rn_offset e); n = unat (rn_bitLength e)
        in if n = 1 then number_nat (read_bit data off (unat (rn_bit e)))
           else if n = 8 then number_nat (read_le 1 data off)
           else if n = 16 then number_nat (read_le 2 data off)
           else if n = 32 then number_nat (read_le 4 data off)
           else if n = 64 then number_nat (read_le 8 data off)
           else ''raw '' @ number_nat n @ '' bit'')"

definition readEntryDecodedValue :: "(u32 \<Rightarrow> string) \<Rightarrow> byte list option \<Rightarrow> runtime_entry \<Rightarrow> string" where
  \<comment> \<open>\<open>real_text\<close> is \<open>QString::number(x, 'f', 6)\<close> of the float with these bits\<close>
  "readEntryDecodedValue real_text d e =
     (if \<not> has_data d e then []
      else if unat (rn_bitLength e) = 32 then real_text (of_nat (read_le 4 (the d) (unat (rn_offset e))))
      else readEntryRawValue d e)"

section \<open>Telemetry\<close>

definition entryTelemetry :: "(u32 \<Rightarrow> string) \<Rightarrow> byte list option \<Rightarrow> runtime_entry \<Rightarrow> json" where
  "entryTelemetry real_text d e = JObj [(''slave'', jnat (unat (rn_slave e))), (''sync'', jnat (unat (rn_sync e))),
     (''direction'', JStr (rn_direction e)), (''pdo'', JStr (''0x'' @ hex_field 4 (unat (rn_pdo e)))),
     (''index'', JStr (''0x'' @ hex_field 4 (unat (rn_index e)))),
     (''subindex'', JStr (''0x'' @ hex_field 2 (unat (rn_subindex e)))),
     (''bits'', jnat (unat (rn_bitLength e))), (''offset'', jint (sint (rn_offset e))),
     (''bit'', jint (sint (rn_bit e))), (''name'', JStr (rn_name e)),
     (''displayName'', JStr (entryDisplayName e)), (''rawValue'', JStr (readEntryRawValue d e)),
     (''decodedValue'', JStr (readEntryDecodedValue real_text d e)), (''meaning'', JStr (entryMeaning e))]"

definition fr_avg :: "free_run \<Rightarrow> int" where
  "fr_avg s = (if fr_cycleCount s > 0 then
     sgn (fr_totalCycleNsec s) * (\<bar>fr_totalCycleNsec s\<bar> div int (fr_cycleCount s)) else 0)"

definition fr_jitter :: "free_run \<Rightarrow> int" where
  "fr_jitter s = (if fr_cycleCount s > 0 then
     max (fr_maxCycleNsec s - fr_avg s) (fr_avg s - fr_minCycleNsec s) else 0)"

definition fr_telemetry :: "(u32 \<Rightarrow> string) \<Rightarrow> free_run \<Rightarrow> jobject" where
  "fr_telemetry real_text s = [(''running'', JBool (fr_running s)), (''status'', JStr (fr_status s)),
     (''master'', jint (sint (fr_activeMasterIndex s))), (''cycles'', JStr (number_nat (fr_cycleCount s))),
     (''slavesResponding'', jint (sint (ms_slaves_responding (fr_masterState s)))),
     (''alStates'', jint (sint (ms_al_states (fr_masterState s)))),
     (''alStateText'', JStr (alStateText (ms_al_states (fr_masterState s)))),
     (''linkUp'', JBool (ms_link_up (fr_masterState s))),
     (''workingCounter'', jint (sint (ds_working_counter (fr_domainState s)))),
     (''wcState'', jint (wc_state_number (ds_wc_state (fr_domainState s)))),
     (''wcStateText'', JStr (wcStateText (ds_wc_state (fr_domainState s)))),
     (''wcErrors'', jnat (fr_wcErrorCount s)),
     (''minCycleUsec'', usec (if fr_minCycleNsec s = INT64_MAX then 0 else fr_minCycleNsec s)),
     (''maxCycleUsec'', usec (fr_maxCycleNsec s)), (''avgCycleUsec'', usec (fr_avg s)),
     (''jitterUsec'', usec (fr_jitter s)),
     (''redundancyActive'', jint (sint (ds_redundancy_active (fr_domainState s)))),
     (''pdoEntries'', jnat (length (fr_registrations s))),
     (''configuredSlaves'', jnat (length (fr_slaves s))),
     (''entries'', JArr (map (entryTelemetry real_text (fr_domainData s)) (fr_entries s)))]"

section \<open>The methods\<close>

definition fr_masterIndex :: "jobject \<Rightarrow> string + u32" where
  "fr_masterIndex params =
     (case to_uint32 (requestedMaster params) of
        None \<Rightarrow> Inl ''Free Run requires a numeric IgH master index.''
      | Some n \<Rightarrow> Inr (of_nat n))"

definition freeRunStart ::
  "'w proc \<Rightarrow> int \<Rightarrow> fr_answers \<Rightarrow> nat \<Rightarrow> (u32 \<Rightarrow> string) \<Rightarrow> string \<Rightarrow> jobject \<Rightarrow> free_run \<times> 'w \<Rightarrow> json \<times> free_run \<times> 'w" where
  "freeRunStart proc unf a cycleNsec real_text rid params sw =
     (case fr_masterIndex params of
        Inl e \<Rightarrow> (failure rid e, sw)
      | Inr m \<Rightarrow> (case fr_start proc unf a cycleNsec m sw of
           (Refused e, _, sw') \<Rightarrow> (failure rid e, sw')
         | (_, _, sw') \<Rightarrow> (success rid (fr_telemetry real_text (fst sw')), sw')))"

definition freeRunStop :: "string \<Rightarrow> jobject \<Rightarrow> free_run \<Rightarrow> json \<times> free_run" where
  "freeRunStop rid params s =
     (let (_, _, s') = fr_stop s in (success rid [(''status'', JStr (fr_status s'))], s'))"

definition freeRunStatus :: "(u32 \<Rightarrow> string) \<Rightarrow> string \<Rightarrow> jobject \<Rightarrow> free_run \<Rightarrow> json \<times> free_run" where
  "freeRunStatus real_text rid params s = (success rid (fr_telemetry real_text s), s)"

definition freeRunShmInfo :: "string \<Rightarrow> jobject \<Rightarrow> free_run \<Rightarrow> json \<times> free_run" where
  "freeRunShmInfo rid params s = (success rid (shmInfo s), s)"

section \<open>The tables of a started run\<close>

lemma length_store_offsets [simp]: "length (store_offsets offs bits es) = length es"
  by (simp add: store_offsets_def)

lemma nth_store_offsets:
  "k < length es \<Longrightarrow> store_offsets offs bits es ! k = (es ! k)\<lparr>rn_offset := offs k, rn_bit := bits k\<rparr>"
  by (simp add: store_offsets_def)

definition tables_agree :: "runtime_entry \<Rightarrow> pdo_registration \<Rightarrow> bool" where
  "tables_agree e r \<longleftrightarrow> rn_slave e = rg_position r \<and> rn_index e = rg_index r \<and> rn_subindex e = rg_subindex r"

lemma list_all2_concat_map:
  "(\<And>x. x \<in> set xs \<Longrightarrow> list_all2 R (f x) (g x)) \<Longrightarrow> list_all2 R (concat (map f xs)) (concat (map g xs))"
  by (induction xs) (auto intro: list_all2_appendI)

lemma slave_tables_agree: "list_all2 tables_agree (slave_entries sl) (slave_registrations sl)"
  unfolding slave_entries_def slave_registrations_def
  by (intro list_all2_concat_map) (simp add: list_all2_conv_all_nth tables_agree_def)

lemma length_slave_entries:
  "length (concat (map slave_entries slaves)) = totalEntries slaves"
  by (simp add: length_concat slave_entries_def totalEntries_def comp_def)

lemma sync_storage_slices:
  "(sy, start, n) \<in> set (sync_storage (length pre) syncs) \<Longrightarrow> slice start n (pre @ pdo_storage syncs) = sy_pdos sy"
proof (induction syncs arbitrary: pre)
  case (Cons sy' syncs)
  from Cons.prems consider "sy = sy'" "start = length pre" "n = length (sy_pdos sy')"
    | "(sy, start, n) \<in> set (sync_storage (length (pre @ sy_pdos sy')) syncs)" by auto
  then show ?case
  proof cases
    case 1
    then show ?thesis by (simp add: slice_def pdo_storage_def)
  next
    case 2
    from Cons.IH [OF this] show ?thesis by (simp add: pdo_storage_def)
  qed
qed simp

definition pdos_call_ok :: "fr_call \<Rightarrow> bool" where
  "pdos_call_ok c = (case c of
     FrSlavePdos pos syncs ps \<Rightarrow> (\<forall>(sy, start, n) \<in> set syncs. slice start n ps = sy_pdos sy) | _ \<Rightarrow> True)"

lemma pdos_call_ok_config [simp]: "pdos_call_ok (FrSlaveConfig pos)"
  by (simp add: pdos_call_ok_def)

lemma pdos_call_ok_slave: "pdos_call_ok (FrSlavePdos pos (sync_storage 0 syncs) (pdo_storage syncs))"
  using sync_storage_slices [where pre = "[]"] by (fastforce simp: pdos_call_ok_def)

lemma configure_slaves_calls: "configure_slaves a k sls = (calls, e) \<Longrightarrow> list_all pdos_call_ok calls"
  by (induction sls arbitrary: k calls e)
     (auto simp: Let_def pdos_call_ok_slave split: if_splits prod.splits)

definition configured_positions :: "fr_call list \<Rightarrow> u16 list" where
  "configured_positions calls = concat (map (\<lambda>c. case c of FrSlavePdos pos _ _ \<Rightarrow> [pos] | _ \<Rightarrow> []) calls)"

lemma configure_slaves_all:
  "configure_slaves a k sls = (calls, None) \<Longrightarrow> configured_positions calls = map sl_position sls"
  by (induction sls arbitrary: k calls)
     (auto simp: Let_def configured_positions_def split: if_splits prod.splits)

lemma initShared_Some: "initSharedMemory sa n s1 = (None, s2) \<Longrightarrow>
   \<exists>m. s2 = s1\<lparr>fr_stride := (if n > 0 then n else MAX_PROCESS_DATA_SIZE), fr_shm := Some m\<rparr>
     \<and> length (sm_data0 m) = (if n > 0 then n else MAX_PROCESS_DATA_SIZE)
     \<and> length (sm_data1 m) = (if n > 0 then n else MAX_PROCESS_DATA_SIZE)
     \<and> sm_header m = new_header (if n > 0 then n else MAX_PROCESS_DATA_SIZE)"
  by (auto simp: initSharedMemory_def Let_def split: if_splits)

lemma initShared_fail: "initSharedMemory sa n s1 = (Some e, s2) \<Longrightarrow> s2 = s1"
  by (auto simp: initSharedMemory_def Let_def split: if_splits)

section \<open>The life of the controller\<close>

definition fr_idle :: "free_run \<Rightarrow> bool" where
  "fr_idle s \<longleftrightarrow> \<not> fr_running s \<and> fr_thread s = NoThread \<and> \<not> fr_master s \<and> \<not> fr_domain s
     \<and> fr_domainData s = None \<and> fr_shm s = None \<and> fr_slaves s = [] \<and> fr_registrations s = []
     \<and> fr_entries s = [] \<and> fr_mirror s = []"

definition shm_sized :: "nat \<Rightarrow> shm_map \<Rightarrow> bool" where
  "shm_sized n m \<longleftrightarrow> length (sm_data0 m) = n \<and> length (sm_data1 m) = n"

definition fr_live :: "free_run \<Rightarrow> bool" where
  "fr_live s \<longleftrightarrow> fr_running s \<and> fr_thread s \<noteq> NoThread \<and> fr_master s
     \<and> fr_stride s = image_bytes (fr_mirror s) \<and> fr_mirror s = buildMirrorEntries (fr_entries s)
     \<and> (\<exists>m. fr_shm s = Some m \<and> shm_sized (fr_stride s) m)
     \<and> (\<exists>d. fr_domainData s = Some d \<and> fr_stride s \<le> length d)"

definition fr_covered :: "free_run \<Rightarrow> bool" where
  \<comment> \<open>the domain's image, whose size \<open>ecrt\<close> chooses, holds every mirrored entry\<close>
  "fr_covered s \<longleftrightarrow> (\<exists>d. fr_domainData s = Some d \<and> fr_stride s \<le> length d)"

definition fr_held :: "free_run \<Rightarrow> bool" where
  \<comment> \<open>the part of \<open>fr_live\<close> that does not rest on the size of the domain's image\<close>
  "fr_held s \<longleftrightarrow> fr_running s \<and> fr_thread s \<noteq> NoThread \<and> fr_master s
     \<and> fr_stride s = image_bytes (fr_mirror s) \<and> fr_mirror s = buildMirrorEntries (fr_entries s)
     \<and> (\<exists>m. fr_shm s = Some m \<and> shm_sized (fr_stride s) m) \<and> fr_domainData s \<noteq> None"

lemma fr_live_iff: "fr_live s \<longleftrightarrow> fr_held s \<and> fr_covered s"
  by (auto simp: fr_live_def fr_held_def fr_covered_def)

lemma image_bytes_bounds: "0 < image_bytes es" "image_bytes es \<le> MAX_PROCESS_DATA_SIZE"
  by (auto simp: image_bytes_def Let_def MAX_PROCESS_DATA_SIZE_def)

lemma fr_cleanup_idle: "\<not> fr_running s \<Longrightarrow> fr_cleanup s = (cs, s') \<Longrightarrow>
   fr_idle s' \<and> cs = (if fr_master s then [FrRelease] else [])"
  by (auto simp: fr_cleanup_def cleanupSharedMemory_def fr_idle_def)

lemma fr_refuse_idle: "\<not> fr_running s \<Longrightarrow> fr_refuse e calls s = (out, cs, s') \<Longrightarrow>
   out = Refused e \<and> fr_idle s' \<and> cs = calls @ (if fr_master s then [FrRelease] else [])"
  using fr_cleanup_idle [of s] by (auto simp: fr_refuse_def split: prod.splits)

definition releases :: "fr_call list \<Rightarrow> nat" where
  "releases calls = length (filter (\<lambda>c. c = FrRelease) calls)"

definition requests :: "fr_call list \<Rightarrow> nat" where
  "requests calls = length (filter (\<lambda>c. case c of FrRequest _ \<Rightarrow> True | _ \<Rightarrow> False) calls)"

lemma call_counts [simp]:
  "releases [] = 0" "releases (c # cs) = (if c = FrRelease then 1 else 0) + releases cs"
  "releases (cs @ ds) = releases cs + releases ds"
  "requests [] = 0" "requests (c # cs) = (case c of FrRequest _ \<Rightarrow> 1 | _ \<Rightarrow> 0) + requests cs"
  "requests (cs @ ds) = requests cs + requests ds"
  by (auto simp: releases_def requests_def split: fr_call.splits)

lemma configure_slaves_counts:
  "configure_slaves a k sls = (calls, e) \<Longrightarrow> releases calls = 0 \<and> requests calls = 0"
  by (induction sls arbitrary: k calls e) (auto simp: Let_def split: if_splits prod.splits)

lemma fr_activated_result:
  assumes "fr_activated a m slaves calls s = (out, cs, s')"
    and "\<not> fr_running s" and "fr_master s" and "fr_thread s = NoThread"
  shows "out = Started \<and> cs = calls \<and> fr_running s' \<and> fr_thread s' = Looping \<and> fr_master s'
      \<and> fr_entries s' = fr_entries s \<and> fr_registrations s' = fr_registrations s
      \<and> fr_slaves s' = fr_slaves s \<and> fr_domainData s' = fr_domainData s
      \<and> fr_mirror s' = buildMirrorEntries (fr_entries s') \<and> fr_stride s' = image_bytes (fr_mirror s')
      \<and> fr_activeMasterIndex s' = m \<and> fr_wcErrorCount s' = 0
      \<and> (\<exists>mp. fr_shm s' = Some mp \<and> shm_sized (fr_stride s') mp)
    \<or> (\<exists>e. out = Refused e \<and> cs = calls @ [FrRelease] \<and> fr_idle s')"
proof -
  define s1 where "s1 = s\<lparr>fr_masterState := fa_masterState a, fr_domainState := fa_domainState a,
    fr_mirror := buildMirrorEntries (fr_entries s)\<rparr>"
  obtain r s2 where i: "initSharedMemory (fa_shm a) (image_bytes (fr_mirror s1)) s1 = (r, s2)"
    by (cases "initSharedMemory (fa_shm a) (image_bytes (fr_mirror s1)) s1")
  show ?thesis
  proof (cases r)
    case None
    from initShared_Some [OF i [unfolded None]] image_bytes_bounds(1) [of "fr_mirror s1"] obtain mp where
      "s2 = s1\<lparr>fr_stride := image_bytes (fr_mirror s1), fr_shm := Some mp\<rparr>"
      "shm_sized (image_bytes (fr_mirror s1)) mp" by (auto simp: shm_sized_def)
    with assms i None show ?thesis
      by (simp add: fr_activated_def Let_def s1_def) auto
  next
    case (Some e)
    from initShared_fail [OF i [unfolded Some]] have "s2 = s1" .
    with assms(1) i Some have "fr_refuse e calls s1 = (out, cs, s')"
      by (simp add: fr_activated_def Let_def s1_def)
    moreover have "\<not> fr_running s1" "fr_master s1" using assms by (simp_all add: s1_def)
    ultimately show ?thesis using fr_refuse_idle [of s1 e calls] by auto
  qed
qed

definition started_tables :: "fr_answers \<Rightarrow> slave_spec list \<Rightarrow> fr_call list \<Rightarrow> free_run \<Rightarrow> bool" where
  "started_tables a slaves calls s \<longleftrightarrow> fr_slaves s = slaves
     \<and> fr_registrations s = concat (map slave_registrations slaves)
     \<and> fr_entries s = store_offsets (fa_offsets a) (fa_bits a) (concat (map slave_entries slaves))
     \<and> fr_domainData s = fa_data a
     \<and> list_all pdos_call_ok calls \<and> configured_positions calls = map sl_position slaves"

definition fr_running_ok :: "u32 \<Rightarrow> free_run \<Rightarrow> bool" where
  "fr_running_ok m s \<longleftrightarrow> fr_running s \<and> fr_thread s = Looping \<and> fr_master s
     \<and> fr_activeMasterIndex s = m \<and> fr_wcErrorCount s = 0 \<and> fr_domainData s \<noteq> None
     \<and> fr_mirror s = buildMirrorEntries (fr_entries s) \<and> fr_stride s = image_bytes (fr_mirror s)
     \<and> (\<exists>mp. fr_shm s = Some mp \<and> shm_sized (fr_stride s) mp)"

lemma fr_acquire_started:
  assumes "fr_acquire a cyc m slaves s = (out, calls, s')" and "fr_idle s"
    and "configure_slaves a 0 slaves = (cs, None)"
    and "fa_master a" and "fa_domain a" and "fa_register a" and "fa_activate a" and "fa_data a \<noteq> None"
  shows "out = Started \<and> requests calls = 1 \<and> releases calls = 0
       \<and> fr_running_ok m s' \<and> started_tables a slaves calls s'
    \<or> (\<exists>e. out = Refused e) \<and> requests calls = 1 \<and> releases calls = 1 \<and> fr_idle s'"
proof -
  define s4 where "s4 = (fr_install a slaves (s\<lparr>fr_master := True, fr_domain := True\<rparr>))\<lparr>fr_domainData := fa_data a\<rparr>"
  define all where "all = [FrRequest m, FrCreateDomain, FrSendInterval (cyc div 1000)] @ cs
    @ [FrRegister (fr_registrations s4), FrActivate]"
  have s4: "\<not> fr_running s4" "fr_master s4" "fr_thread s4 = NoThread"
    using assms(2) by (simp_all add: fr_idle_def s4_def fr_install_def)
  have "fr_activated a m slaves all s4 = (out, calls, s')"
    using assms(1,3-) by (auto simp: fr_acquire_def Let_def s4_def all_def)
  note act = fr_activated_result [OF this s4]
  have cnt: "requests all = 1" "releases all = 0"
    using configure_slaves_counts [OF assms(3)] by (simp_all add: all_def)
  have ok: "list_all pdos_call_ok all" "configured_positions all = map sl_position slaves"
    using configure_slaves_calls [OF assms(3)] configure_slaves_all [OF assms(3)]
    by (simp_all add: all_def pdos_call_ok_def configured_positions_def)
  from act show ?thesis
  proof (rule disjE)
    assume st: "out = Started \<and> calls = all \<and> fr_running s' \<and> fr_thread s' = Looping \<and> fr_master s'
      \<and> fr_entries s' = fr_entries s4 \<and> fr_registrations s' = fr_registrations s4
      \<and> fr_slaves s' = fr_slaves s4 \<and> fr_domainData s' = fr_domainData s4
      \<and> fr_mirror s' = buildMirrorEntries (fr_entries s') \<and> fr_stride s' = image_bytes (fr_mirror s')
      \<and> fr_activeMasterIndex s' = m \<and> fr_wcErrorCount s' = 0
      \<and> (\<exists>mp. fr_shm s' = Some mp \<and> shm_sized (fr_stride s') mp)"
    then have "started_tables a slaves calls s'"
      using ok by (simp add: started_tables_def s4_def fr_install_def)
    moreover have "fr_domainData s' \<noteq> None" using st assms(8) by (simp add: s4_def)
    then have "fr_running_ok m s'" unfolding fr_running_ok_def using st by (elim conjE) (intro conjI; assumption)
    ultimately show ?thesis using st cnt by simp
  qed (use cnt in auto)
qed

definition refused_with :: "fr_answers \<Rightarrow> start_outcome \<times> fr_call list \<times> free_run \<Rightarrow> bool" where
  "refused_with a r \<longleftrightarrow> (\<exists>msg calls t. r = fr_refuse msg calls t \<and> \<not> fr_running t
     \<and> requests calls = 1 \<and> releases calls = 0 \<and> fr_master t = fa_master a)"

lemma refused_withI:
  "\<not> fr_running t \<Longrightarrow> requests calls = 1 \<Longrightarrow> releases calls = 0 \<Longrightarrow> fr_master t = fa_master a \<Longrightarrow>
   refused_with a (fr_refuse msg calls t)"
  by (auto simp: refused_with_def)

lemma refused_with_result:
  assumes "refused_with a (out, calls, s')"
  shows "(\<exists>e. out = Refused e) \<and> requests calls = 1 \<and> releases calls = (if fa_master a then 1 else 0) \<and> fr_idle s'"
proof -
  from assms obtain msg calls0 t where r: "fr_refuse msg calls0 t = (out, calls, s')" "\<not> fr_running t"
    "requests calls0 = 1" "releases calls0 = 0" "fr_master t = fa_master a"
    by (auto simp: refused_with_def)
  from fr_refuse_idle [OF r(2,1)] r show ?thesis by auto
qed

lemma fr_acquire_refused:
  assumes "\<not> fr_running s" and c: "configure_slaves a 0 slaves = (cs, e)"
    and "\<not> (fa_master a \<and> fa_domain a \<and> e = None \<and> fa_register a \<and> fa_activate a \<and> fa_data a \<noteq> None)"
  shows "refused_with a (fr_acquire a cyc m slaves s)"
proof -
  note n = configure_slaves_counts [OF c]
  note acq = fr_acquire_def Let_def c fr_install_def
  consider "\<not> fa_master a" | "fa_master a" "\<not> fa_domain a"
    | msg where "fa_master a" "fa_domain a" "e = Some msg"
    | "fa_master a" "fa_domain a" "e = None" "\<not> fa_register a"
    | "fa_master a" "fa_domain a" "e = None" "fa_register a" "\<not> fa_activate a"
    | "fa_master a" "fa_domain a" "e = None" "fa_register a" "fa_activate a" "fa_data a = None"
    using assms(3) by (cases e) blast+
  then show ?thesis
    by cases (use assms(1) n in \<open>simp_all add: acq refused_withI\<close>)
qed

lemma fr_acquire_result:
  assumes "fr_acquire a cyc m slaves s = (out, calls, s')" and "fr_idle s"
  shows "out = Started \<and> fa_master a \<and> requests calls = 1 \<and> releases calls = 0
       \<and> fr_running_ok m s' \<and> started_tables a slaves calls s'
    \<or> (\<exists>e. out = Refused e) \<and> requests calls = 1 \<and> releases calls = (if fa_master a then 1 else 0) \<and> fr_idle s'"
proof -
  obtain cs e where c: "configure_slaves a 0 slaves = (cs, e)" by (cases "configure_slaves a 0 slaves")
  show ?thesis
  proof (cases "fa_master a \<and> fa_domain a \<and> e = None \<and> fa_register a \<and> fa_activate a \<and> fa_data a \<noteq> None")
    case True
    with fr_acquire_started [OF assms, of cs] c show ?thesis by auto
  next
    case False
    have "\<not> fr_running s" using assms(2) by (simp add: fr_idle_def)
    from refused_with_result [OF fr_acquire_refused [OF this c False, of cyc m, unfolded assms(1)]]
    show ?thesis by blast
  qed
qed

section \<open>The mirror of a running controller\<close>

lemma fr_context_facts:
  fixes now :: u64
  assumes "fr_domainData s = Some d" and "shm_sized (fr_stride s) m"
    and "0 < fr_stride s" and "fr_stride s \<le> MAX_PROCESS_DATA_SIZE" and "fr_stride s \<le> length d"
  defines "ctx \<equiv> fr_context now m s"
  shows "0 < image_size ctx" "image_size ctx \<le> fr_stride s" "image_size ctx \<le> length d"
    "domain_data ctx = Some d" "entries ctx = fr_mirror s"
    "\<exists>act. shm_buf ctx (active_index ctx) = Some act \<and> length act = fr_stride s"
    "\<exists>inact. shm_buf ctx (1 - active_index ctx) = Some inact \<and> length inact = fr_stride s"
  using assms(1-5) by (auto simp: ctx_def fr_context_def image_size_def Let_def shm_buf_def shm_sized_def
      unat_gt_0)

lemma shm_buf_sized:
  "shm_buf ctx 0 = Some b0 \<Longrightarrow> shm_buf ctx 1 = Some b1 \<Longrightarrow> the (shm_data0 ctx) = b0 \<and> the (shm_data1 ctx) = b1"
  by (simp add: shm_buf_def)

lemma fr_mirror_result:
  fixes now :: u64
  assumes "fr_shm s = Some m" and "fr_mirror s \<noteq> []" and "fr_domainData s = Some d"
    and "shm_sized (fr_stride s) m"
    and "0 < fr_stride s" and "fr_stride s \<le> MAX_PROCESS_DATA_SIZE" and "fr_stride s \<le> length d"
  defines "sz \<equiv> image_size (fr_context now m s)"
  shows "\<exists>m' d'. fr_mirrorToShm now s = s\<lparr>fr_domainData := Some d', fr_shm := Some m'\<rparr>
    \<and> shm_sized (fr_stride s) m' \<and> length d' = length d
    \<and> drop sz d' = drop sz d
    \<and> (\<forall>i < sz. d' ! i = (if driven sz (fr_mirror s) i
         then (if active_buffer (sm_header m) = 1 then sm_data1 m else sm_data0 m) ! i else d ! i))
    \<and> version (sm_header m') = version (sm_header m) + 1
    \<and> status_flags (sm_header m') = status_flags (sm_header m) OR FLAG_RUNNING
    \<and> active_buffer (sm_header m') = (if active_buffer (sm_header m) = 1 then 0 else 1)"
proof -
  let ?c = "fr_context now m s"
  note f = fr_context_facts [OF assms(3-7), of now]
  from f(6,7) obtain act inact where b: "shm_buf ?c (active_index ?c) = Some act"
    "shm_buf ?c (1 - active_index ?c) = Some inact" "length act = fr_stride s" "length inact = fr_stride s" by blast
  have le: "image_size ?c \<le> length act" "image_size ?c \<le> length inact" using b f(2) by simp_all
  from mirror_step [OF f(4) b(1,2) f(1,3) le] obtain c' nb nd where r:
    "mirrorToShm (Some ?c) = Some c'" "domain_data c' = Some nd" "shm_buf c' (active_ref c') = Some nb"
    "shm_buf c' (active_index ?c) = Some act" "active_ref c' = 1 - active_index ?c"
    "length nb = length inact" "length nd = length d"
    "\<And>i. i < length d \<Longrightarrow> nd ! i = (if driven (image_size ?c) (entries ?c) i then act ! i else d ! i)"
    "version_ref c' = map_option (\<lambda>v. v + 1) (version_ref ?c)"
    "flags_ref c' = map_option (\<lambda>f. f OR FLAG_RUNNING) (flags_ref ?c)" by (rule mirror_step [OF f(4) b(1,2) f(1,3) le]) (rule that; assumption)
  define m' where "m' = m\<lparr>sm_header := header_of c' (sm_header m), sm_data0 := the (shm_data0 c'), sm_data1 := the (shm_data1 c')\<rparr>"
  have eq: "fr_mirrorToShm now s = s\<lparr>fr_domainData := Some nd, fr_shm := Some m'\<rparr>"
    using assms(1-3) r(1,2) by (simp add: fr_mirrorToShm_def m'_def)
  have act: "active_index ?c = (if active_buffer (sm_header m) = 1 then 1 else 0)"
    using active_index_le_1 [of ?c] by (auto simp: active_index_def fr_context_def Let_def split: if_splits)
  have sized: "shm_sized (fr_stride s) m'"
    using r(3-6) b(3,4) act by (auto simp: m'_def shm_sized_def shm_buf_def split: if_splits)
  have hdr: "version (sm_header m') = version (sm_header m) + 1"
    "status_flags (sm_header m') = status_flags (sm_header m) OR FLAG_RUNNING"
    "active_buffer (sm_header m') = (if active_buffer (sm_header m) = 1 then 0 else 1)"
    using r(5,9,10) act by (simp_all add: m'_def header_of_def fr_context_def Let_def)
  have acted: "act = (if active_buffer (sm_header m) = 1 then sm_data1 m else sm_data0 m)"
    using b(1) act by (auto simp: shm_buf_def fr_context_def Let_def split: if_splits)
  have bytes: "\<forall>i < sz. nd ! i = (if driven sz (fr_mirror s) i
      then (if active_buffer (sm_header m) = 1 then sm_data1 m else sm_data0 m) ! i else d ! i)"
    using r(8) f(3,5) acted by (auto simp: sz_def)
  have "drop sz nd = drop sz d"
    by (rule nth_equalityI) (use r(7,8) f(3) in \<open>auto simp: sz_def dest: driven_bound\<close>)
  with eq sized r(7) bytes hdr show ?thesis by blast
qed

lemma fr_mirror_keeps_live:
  assumes "fr_live s"
  shows "fr_live (fr_mirrorToShm now s)"
proof (cases "fr_mirror s = []")
  case True
  then have "fr_mirrorToShm now s = s" by (simp add: fr_mirrorToShm_def split: option.splits)
  with assms show ?thesis by simp
next
  case False
  from assms obtain m d where l: "fr_shm s = Some m" "fr_domainData s = Some d" "shm_sized (fr_stride s) m"
    "fr_stride s \<le> length d" "fr_stride s = image_bytes (fr_mirror s)" by (auto simp: fr_live_def)
  have "0 < fr_stride s" "fr_stride s \<le> MAX_PROCESS_DATA_SIZE" using image_bytes_bounds l(5) by simp_all
  from fr_mirror_result [OF l(1) False l(2,3) this l(4), of now] obtain m' d' where
    e: "fr_mirrorToShm now s = s\<lparr>fr_domainData := Some d', fr_shm := Some m'\<rparr>"
    "shm_sized (fr_stride s) m'" "length d' = length d" by blast
  show ?thesis using assms l e by (simp add: fr_live_def)
qed

lemma fr_live_updates [simp]:
  "fr_live (fr_measure now s) = fr_live s"
  "fr_live (s\<lparr>fr_masterState := a, fr_domainState := b\<rparr>) = fr_live s"
  "fr_live (s\<lparr>fr_cycleCount := n\<rparr>) = fr_live s"
  "fr_live (fr_trackWc s) = fr_live s"
  by (simp_all add: fr_live_def fr_measure_def fr_trackWc_def Let_def)

lemma fr_live_receive:
  "(\<And>d. length (f d) = length d) \<Longrightarrow> fr_live s \<Longrightarrow> fr_live (s\<lparr>fr_domainData := map_option f (fr_domainData s)\<rparr>)"
  by (auto simp: fr_live_def)

lemma fr_live_exited: "fr_live s \<Longrightarrow> fr_live (s\<lparr>fr_thread := Exited\<rparr>)"
  unfolding fr_live_def by (elim conjE) simp

lemma fr_live_scribbled: "fr_live s \<Longrightarrow> shm_sized (fr_stride s) m \<Longrightarrow> fr_live (s\<lparr>fr_shm := Some m\<rparr>)"
  unfolding fr_live_def by (elim conjE) simp

lemma fr_turn_live:
  "(\<And>d. length (ci_receive inp d) = length d) \<Longrightarrow> fr_live s \<Longrightarrow> fr_live (fr_turn inp s)"
  by (simp add: fr_turn_def fr_exchange_def Let_def fr_mirror_keeps_live fr_live_receive fr_live_exited)

lemma fr_stop_result:
  assumes "fr_stop s = (calls, m, s')" and "fr_running s \<or> fr_thread s = NoThread"
  shows "fr_idle s' \<and> fr_status s' = ''Stopped'' \<and> requests calls = 0
    \<and> releases calls = (if fr_master s then 1 else 0) \<and> m = map_option fr_announce_stop (fr_shm s)"
  using assms
  by (auto simp: fr_stop_def Let_def fr_cleanup_def cleanupSharedMemory_def fr_idle_def split: if_splits)

section \<open>Reachable states\<close>

inductive fr_reach :: "'w proc \<Rightarrow> int \<Rightarrow> nat \<Rightarrow> 'w \<Rightarrow> free_run \<times> 'w \<times> int \<Rightarrow> bool" for proc unf cyc w0 where
  \<comment> \<open>with the number of masters granted and not yet released; a client writes its mapping at any time; no turn is
     followed whose mirror would leave the domain's image\<close>
  fr_reach_init: "fr_reach proc unf cyc w0 (fr_init, w0, 0)"
| fr_reach_start: "fr_reach proc unf cyc w0 (s, w, h) \<Longrightarrow>
    fr_start proc unf a cyc m (s, w) = (out, calls, s', w') \<Longrightarrow>
    fr_reach proc unf cyc w0 (s', w', h + (if fa_master a then int (requests calls) else 0) - int (releases calls))"
| fr_reach_stop: "fr_reach proc unf cyc w0 (s, w, h) \<Longrightarrow> fr_stop s = (calls, last_map, s') \<Longrightarrow>
    fr_reach proc unf cyc w0 (s', w, h - int (releases calls))"
| fr_reach_turn: "fr_reach proc unf cyc w0 (s, w, h) \<Longrightarrow> fr_thread s = Looping \<Longrightarrow> fr_covered s \<Longrightarrow>
    \<forall>d. length (ci_receive inp d) = length d \<Longrightarrow> fr_reach proc unf cyc w0 (fr_turn inp s, w, h)"
| fr_reach_client: "fr_reach proc unf cyc w0 (s, w, h) \<Longrightarrow> fr_shm s = Some mp \<Longrightarrow>
    shm_sized (length (sm_data0 mp)) mp' \<Longrightarrow> fr_reach proc unf cyc w0 (s\<lparr>fr_shm := Some mp'\<rparr>, w, h)"

definition fr_life_ok :: "free_run \<Rightarrow> int \<Rightarrow> bool" where
  "fr_life_ok s h \<longleftrightarrow> (if fr_running s then fr_held s \<and> h = 1 else fr_idle s \<and> h = 0)"

lemma fr_live_running: "fr_live s \<Longrightarrow> fr_running s \<and> fr_master s"
  and fr_held_running: "fr_held s \<Longrightarrow> fr_running s \<and> fr_master s"
  and fr_idle_stopped: "fr_idle s \<Longrightarrow> \<not> fr_running s \<and> \<not> fr_master s \<and> fr_shm s = None \<and> fr_thread s = NoThread"
  by (simp_all add: fr_live_def fr_held_def fr_idle_def)

lemma fr_life_okI:
  "fr_held s \<Longrightarrow> h = 1 \<Longrightarrow> fr_life_ok s h"
  "fr_idle s \<Longrightarrow> h = 0 \<Longrightarrow> fr_life_ok s h"
  by (simp_all add: fr_life_ok_def fr_held_running fr_idle_stopped)

lemma fr_life_ok_joinable:
  assumes "fr_life_ok s h"
  shows "fr_running s \<or> fr_thread s = NoThread" and "h = (if fr_master s then 1 else 0)"
  using assms unfolding fr_life_ok_def by (metis fr_held_running fr_idle_stopped)+

lemma fr_life_start:
  assumes "fr_start proc unf a cyc m (s, w) = (out, calls, s', w')" and "fr_life_ok s h"
  shows "fr_life_ok s' (h + (if fa_master a then int (requests calls) else 0) - int (releases calls))
    \<and> out \<noteq> Terminated"
proof (cases "fr_running s")
  case True
  then show ?thesis using assms(1,2) by (auto simp: fr_start_def split: if_splits)
next
  case False
  with assms(2) have idle: "fr_idle s" "h = 0" by (simp_all add: fr_life_ok_def)
  obtain r w1 where b: "buildConfiguration proc unf m w = (r, w1)" by (cases "buildConfiguration proc unf m w")
  consider "calls = []" "s' = s" "out \<noteq> Terminated" | slaves where "fr_acquire a cyc m slaves s = (out, calls, s')"
    using assms(1) False b by (auto simp: fr_start_def split: sum.splits if_splits prod.splits)
  then show ?thesis
  proof cases
    case 1
    then show ?thesis using idle by (simp add: fr_life_okI(2))
  next
    case 2
    from fr_acquire_result [OF this idle(1)] show ?thesis
    proof
      assume st: "out = Started \<and> fa_master a \<and> requests calls = 1 \<and> releases calls = 0
        \<and> fr_running_ok m s' \<and> started_tables a slaves calls s'"
      then have "fr_held s'" by (auto simp: fr_running_ok_def fr_held_def)
      with st idle show ?thesis by (simp add: fr_life_okI(1))
    next
      assume "(\<exists>e. out = Refused e) \<and> requests calls = 1 \<and> releases calls = (if fa_master a then 1 else 0) \<and> fr_idle s'"
      with idle show ?thesis by (auto intro!: fr_life_okI(2))
    qed
  qed
qed

lemma fr_reach_ok: "fr_reach proc unf cyc w0 c \<Longrightarrow> fr_life_ok (fst c) (snd (snd c))"
proof (induction rule: fr_reach.induct)
  case fr_reach_init
  show ?case by (intro fr_life_okI(2)) (simp_all add: fr_init_def fr_idle_def)
next
  case (fr_reach_start s w h a m out calls s' w')
  with fr_life_start [OF fr_reach_start(2)] show ?case by simp
next
  case (fr_reach_stop s w h calls last_map s')
  then have ok: "fr_life_ok s h" by simp
  from fr_stop_result [OF fr_reach_stop(2) fr_life_ok_joinable(1) [OF ok]] fr_life_ok_joinable(2) [OF ok]
  show ?case by (simp add: fr_life_okI(2))
next
  case (fr_reach_turn s w h inp)
  have "fr_running s" using fr_reach_turn.IH fr_reach_turn(2) by (auto simp: fr_life_ok_def fr_idle_def split: if_splits)
  then have "fr_live s" "h = 1" using fr_reach_turn.IH fr_reach_turn(3) by (simp_all add: fr_life_ok_def fr_live_iff)
  then show ?case using fr_turn_live [of inp s] fr_reach_turn(4) by (simp add: fr_life_okI(1) fr_live_iff)
next
  case (fr_reach_client s w h mp mp')
  have "fr_running s" using fr_reach_client.IH fr_reach_client(2) by (auto simp: fr_life_ok_def fr_idle_def split: if_splits)
  then have l: "fr_held s" "h = 1" using fr_reach_client.IH by (simp_all add: fr_life_ok_def)
  then have "shm_sized (fr_stride s) mp'" using fr_reach_client(2,3) by (auto simp: fr_held_def shm_sized_def)
  with l show ?case by (simp add: fr_life_okI(1) fr_held_def)
qed

lemma fr_start_not_terminated:
  assumes "fr_life_ok s h"
  shows "fst (fr_start proc unf a cyc m (s, w)) \<noteq> Terminated"
proof (cases "fr_running s")
  case True
  then show ?thesis by (simp add: fr_start_def)
next
  case False
  with assms have idle: "fr_idle s" by (simp add: fr_life_ok_def)
  have "fst (fr_acquire a cyc m slaves s) \<noteq> Terminated" for slaves
    using fr_acquire_result [OF _ idle, of a cyc m slaves] by (cases "fr_acquire a cyc m slaves s") auto
  with False show ?thesis by (simp add: fr_start_def split: sum.split prod.split) (metis fst_conv)
qed

section \<open>A bus of one slave\<close>

definition demo_cstruct :: string where
  "demo_cstruct = ''Vendor ID: 0x02 Product code: 0x07 {0x6041, 0x00, 16}, {0x1a00, 1, slave_0_pdo_entries + 0}, ''
     @ ''{3, EC_DIR_INPUT, 1, slave_0_pdos + 0, EC_WD_DISABLE},''"

definition demo_bus :: "unit proc" where
  "demo_bus program args w =
     (if args = [''-m'', ''0'', ''slaves''] then outcome.Exited 0 ''0  0:0  PREOP'' []
      else if args = [''-m'', ''0'', ''cstruct'', ''-p'', ''0''] then outcome.Exited 0 demo_cstruct []
      else outcome.Exited 1 [] ''no'', w)"

definition demo_entry2 :: entry_spec where
  "demo_entry2 = \<lparr>en_index = 0x6041, en_subindex = 0, en_bitLength = 16, en_name = []\<rparr>"

definition demo_pdo :: pdo_spec where
  "demo_pdo = \<lparr>pd_index = 0x1a00, pd_entries = [demo_entry2]\<rparr>"

definition demo_sync :: sync_spec where
  "demo_sync = \<lparr>sy_index = 3, sy_direction = EC_DIR_INPUT, sy_watchdog = EC_WD_DISABLE, sy_pdos = [demo_pdo]\<rparr>"

definition demo_slave :: slave_spec where
  "demo_slave = \<lparr>sl_alias = 0, sl_position = 0, sl_vendorId = 2, sl_productCode = 7, sl_syncs = [demo_sync]\<rparr>"

lemmas text_eval = to_uint_def to_sint_def Let_def parse_base_def strip_plus_def trimmed_def parse_nat_def all_digits_def digit_val_def code_of_def
    is_digit_def is_space_def strip_hex_prefix_def starts_with_ci_def to_lower_def to_lower_char_def starts_with_def

lemma demo_ushorts: "ushort 16 ''6041'' = 0x6041" "ushort 16 ''00'' = 0" "ushort 10 ''16'' = 16" "ushort 16 ''1a00'' = 0x1a00"
  "ushort 10 ''3'' = 3" "ushort 10 ''0'' = 0"
  by (simp_all add: ushort_def text_eval)

lemma demo_numbers: "int_of_text ''1'' = 1" "int_of_text ''0'' = 0"
  "to_uint 4294967296 16 ''02'' = Some 2" "to_uint 4294967296 16 ''07'' = Some 7"
  by (simp_all add: int_of_text_def text_eval)

lemma demo_entry_match: "map (\<lambda>m. (captured m 1, captured m 2, captured m 3, entry_comment demo_cstruct (captured_end m))) (rx_global rx_plain cs_entry_re demo_cstruct) = [(''6041'', ''00'', ''16'', [])]"
  by code_simp

lemma demo_pdo_match: "map (\<lambda>m. (captured m 1, captured m 2, captured m 3)) (rx_global rx_plain cs_pdo_re demo_cstruct) = [(''1a00'', ''1'', ''0'')]"
  by code_simp

lemma demo_sync_match: "map (\<lambda>m. (captured m 1, captured m 2, captured m 3, captured m 4, captured m 5)) (rx_global rx_plain cs_sync_re demo_cstruct) = [(''3'', ''EC_DIR_INPUT'', ''1'', ''0'', ''EC_WD_DISABLE'')]"
  by code_simp

lemma demo_id_match: "map_option (\<lambda>m. captured m 1) (rx_match rx_plain vendor_re demo_cstruct) = Some ''02''"
  "map_option (\<lambda>m. captured m 1) (rx_match rx_plain product_re demo_cstruct) = Some ''07''"
  "map_option (\<lambda>m. captured m 1) (rx_match rx_plain bus_line_re ''0  0:0  PREOP'') = Some ''0''"
  by code_simp+

lemma demo_entries: "cs_entries demo_cstruct = [demo_entry2]"
proof -
  have "cs_entries demo_cstruct = map (\<lambda>(a, b, c, n). \<lparr>en_index = of_nat (ushort 16 a), en_subindex = of_nat (ushort 16 b),
    en_bitLength = of_nat (ushort 10 c), en_name = n\<rparr>) (map (\<lambda>m. (captured m 1, captured m 2, captured m 3, entry_comment demo_cstruct (captured_end m))) (rx_global rx_plain cs_entry_re demo_cstruct))"
    by (simp add: cs_entries_def comp_def)
  then show ?thesis by (simp only: demo_entry_match) (simp add: demo_ushorts demo_entry2_def)
qed

lemma demo_pdos: "cs_pdos [demo_entry2] demo_cstruct = [demo_pdo]"
proof -
  have "cs_pdos [demo_entry2] demo_cstruct = map (\<lambda>(a, b, c). \<lparr>pd_index = of_nat (ushort 16 a), 
    pd_entries = pick (int_of_text b) (int_of_text c) [demo_entry2]\<rparr>) (map (\<lambda>m. (captured m 1, captured m 2, captured m 3)) (rx_global rx_plain cs_pdo_re demo_cstruct))"
    by (simp add: cs_pdos_def comp_def)
  then show ?thesis by (simp only: demo_pdo_match) (simp add: demo_ushorts demo_numbers demo_pdo_def pick_def)
qed

lemma demo_syncs: "cs_syncs [demo_pdo] demo_cstruct = [demo_sync]"
proof -
  have "cs_syncs [demo_pdo] demo_cstruct = map (\<lambda>(a, b, c, d, e). \<lparr>sy_index = of_nat (ushort 10 a),
       sy_direction = (if b = ''EC_DIR_OUTPUT'' then EC_DIR_OUTPUT else EC_DIR_INPUT),
       sy_watchdog = (if e = ''EC_WD_ENABLE'' then EC_WD_ENABLE else EC_WD_DISABLE),
       sy_pdos = pick (int_of_text c) (if d = [] then 0 else int_of_text d) [demo_pdo]\<rparr>) 
     (map (\<lambda>m. (captured m 1, captured m 2, captured m 3, captured m 4, captured m 5)) (rx_global rx_plain cs_sync_re demo_cstruct))"
    by (simp add: cs_syncs_def comp_def)
  then show ?thesis by (simp only: demo_sync_match) (simp add: demo_ushorts demo_numbers demo_sync_def pick_def)
qed

lemma demo_parse: "parseCStruct 0 demo_cstruct = Inr demo_slave"
  using demo_id_match(1,2) by (auto simp: parseCStruct_def demo_entries demo_pdos demo_syncs Let_def demo_numbers demo_slave_def)

lemma demo_master_text: "number_nat 0 = ''0''" by code_simp

lemma demo_scan_lines: "split_skip_empty newline ''0  0:0  PREOP'' = [''0  0:0  PREOP'']" by code_simp

lemma demo_configuration: "buildConfiguration demo_bus 0 0 () = (Inr [demo_slave], ())"
  using demo_id_match(3) by (auto simp: buildConfiguration_def runEthercat_def demo_master_text demo_bus_def demo_scan_lines demo_parse demo_ushorts Let_def)

definition demo_fr_answers :: fr_answers where
  "demo_fr_answers = \<lparr>fa_master = True, fa_domain = True, fa_config = (\<lambda>_. True), fa_pdos = (\<lambda>_. True),
     fa_register = True, fa_activate = True, fa_data = Some [5, 6], fa_offsets = (\<lambda>_. 0), fa_bits = (\<lambda>_. 0),
     fa_masterState = no_master_state, fa_domainState = no_domain_state,
     fa_shm = \<lparr>sa_open = True, sa_truncate = True, sa_mmap = True, sa_bytes = (\<lambda>_. 0)\<rparr>, fa_now = 0\<rparr>"

section \<open>Working counter errors\<close>

definition fr_turns :: "cycle_inputs list \<Rightarrow> free_run \<Rightarrow> free_run" where
  "fr_turns inps s = foldl (\<lambda>s i. fr_turn i s) s inps"

definition wc_bad :: "cycle_inputs \<Rightarrow> bool" where
  "wc_bad inp \<longleftrightarrow> ds_wc_state (ci_domainState inp) \<noteq> EC_WC_COMPLETE"

definition bad_tail :: "cycle_inputs list \<Rightarrow> nat" where
  "bad_tail inps = length (takeWhile wc_bad (rev inps))"

lemma fr_mirror_frame:
  "fr_running (fr_mirrorToShm now s) = fr_running s \<and> fr_wcErrorCount (fr_mirrorToShm now s) = fr_wcErrorCount s
   \<and> fr_status (fr_mirrorToShm now s) = fr_status s \<and> fr_cycleCount (fr_mirrorToShm now s) = fr_cycleCount s
   \<and> fr_activeMasterIndex (fr_mirrorToShm now s) = fr_activeMasterIndex s"
  by (simp add: fr_mirrorToShm_def split: option.split)

lemma fr_turn_wc:
  assumes "fr_running s" and "ci_sleepErr inp = 0"
  shows "fr_running (fr_turn inp s)" and "fr_cycleCount (fr_turn inp s) = Suc (fr_cycleCount s)"
    and "fr_activeMasterIndex (fr_turn inp s) = fr_activeMasterIndex s"
    and "fr_wcErrorCount (fr_turn inp s) = (if wc_bad inp then Suc (fr_wcErrorCount s) else 0)"
    and "fr_status (fr_turn inp s) =
      (if wc_bad inp then if Suc (fr_wcErrorCount s) = 100 then wc_warning 100 else fr_status s
       else if fr_wcErrorCount s > 0 then wc_recovered (fr_activeMasterIndex s) (fr_wcErrorCount s) else fr_status s)"
  using assms fr_mirror_frame [of "ci_shmNow inp"
      "(fr_measure (ci_now inp) s)\<lparr>fr_domainData := map_option (ci_receive inp) (fr_domainData (fr_measure (ci_now inp) s))\<rparr>"]
  by (simp_all add: fr_turn_def fr_exchange_def fr_trackWc_def Let_def wc_bad_def kWcErrorThreshold_def)
     (simp_all add: fr_measure_def Let_def)

lemma fr_turns_snoc [simp]: "fr_turns [] s = s" "fr_turns (cs @ [i]) s = fr_turn i (fr_turns cs s)"
  by (simp_all add: fr_turns_def)

lemma bad_tail_snoc [simp]: "bad_tail [] = 0" "bad_tail (cs @ [i]) = (if wc_bad i then Suc (bad_tail cs) else 0)"
  by (simp_all add: bad_tail_def)

lemma fr_turns_frame:
  "fr_running s \<Longrightarrow> \<forall>i \<in> set inps. ci_sleepErr i = 0 \<Longrightarrow> fr_wcErrorCount s = 0 \<Longrightarrow>
   fr_running (fr_turns inps s) \<and> fr_cycleCount (fr_turns inps s) = fr_cycleCount s + length inps
   \<and> fr_activeMasterIndex (fr_turns inps s) = fr_activeMasterIndex s
   \<and> fr_wcErrorCount (fr_turns inps s) = bad_tail inps"
  by (induction inps rule: rev_induct) (simp_all add: fr_turn_wc)

lemma fr_turns_warning:
  "fr_running s \<Longrightarrow> \<forall>i \<in> set inps. ci_sleepErr i = 0 \<Longrightarrow> fr_wcErrorCount s = 0 \<Longrightarrow>
   100 \<le> bad_tail inps \<Longrightarrow> fr_status (fr_turns inps s) = wc_warning 100"
proof (induction inps rule: rev_induct)
  case (snoc i inps)
  then have r: "fr_running (fr_turns inps s)" "fr_wcErrorCount (fr_turns inps s) = bad_tail inps" "ci_sleepErr i = 0"
    using fr_turns_frame [of s inps] by auto
  from snoc.prems(4) have bad: "wc_bad i" "99 \<le> bad_tail inps" by (auto split: if_splits)
  show ?case
  proof (cases "bad_tail inps = 99")
    case False
    then have "100 \<le> bad_tail inps" using bad(2) by simp
    with snoc r bad show ?thesis by (simp add: fr_turn_wc)
  qed (use r bad in \<open>simp add: fr_turn_wc\<close>)
qed simp

section \<open>Properties\<close>

text \<open>
  Claim C9 (safety). Over every sequence of starts (whatever \<open>ecrt\<close>, the command line tool and the system calls
  answer), stops, client writes that leave the sizes of the mapping alone, and turns of the loop that are taken
  while the domain's image holds every mirrored entry and receive an image of its size, the resources balance: the masters granted and not released are one
  while the controller runs and none otherwise; while it runs it holds its thread and its domain, and the mapped
  buffers have the stride computed from the entries; when it does not run, nothing is left of a run; no
  start meets an unjoined thread. An image that holds the entries goes on holding them over a turn that
  receives an image of the same size.
\<close>

theorem free_run_resources_balanced:
  assumes "fr_reach proc unf cyc w0 (s, w, h)"
  shows "h = (if fr_running s then 1 else 0) \<and> (if fr_running s then fr_held s else fr_idle s)
    \<and> fst (fr_start proc unf a cyc m (s, w)) \<noteq> Terminated
    \<and> (fr_running s \<and> fr_covered s \<and> (\<forall>d. length (ci_receive inp d) = length d) \<longrightarrow> fr_covered (fr_turn inp s))"
proof -
  from fr_reach_ok [OF assms] have ok: "fr_life_ok s h" by simp
  moreover have "fr_covered (fr_turn inp s)"
    if "fr_running s" "fr_covered s" "\<forall>d. length (ci_receive inp d) = length d"
    using fr_turn_live [of inp s] ok that by (simp add: fr_life_ok_def fr_live_iff)
  ultimately show ?thesis using fr_start_not_terminated [OF ok] by (simp add: fr_life_ok_def)
qed

definition demo_run :: free_run where
  "demo_run = fst (snd (snd (fr_start demo_bus 0 demo_fr_answers 1000000 0 (fr_init, ()))))"

lemma demo_acquire:
  "fr_acquire demo_fr_answers 1000000 0 [demo_slave] fr_init = (out, calls, s') \<Longrightarrow>
   out = Started \<and> requests calls = 1 \<and> releases calls = 0 \<and> image_bytes (fr_mirror s') = 2 \<and> fr_running s'
   \<and> length (fr_entries s') = 1 \<and> fr_domainData s' = Some [5, 6]"
  by (auto simp: fr_acquire_def Let_def demo_fr_answers_def demo_slave_def demo_sync_def demo_pdo_def demo_entry2_def
      fr_init_def fr_install_def fr_activated_def initSharedMemory_def buildMirrorEntries_def store_offsets_def
      slave_entries_def slave_registrations_def image_bytes_def computeProcessDataSize_def entry_end_def
      entry_bytes_def MAX_PROCESS_DATA_SIZE_def)

lemma demo_start: "\<exists>calls. fr_start demo_bus 0 demo_fr_answers 1000000 0 (fr_init, ()) = (Started, calls, demo_run, ())
   \<and> requests calls = 1 \<and> releases calls = 0 \<and> image_bytes (fr_mirror demo_run) = 2 \<and> fr_running demo_run
   \<and> fr_domainData demo_run = Some [5, 6]"
proof -
  obtain out calls s' where acq: "fr_acquire demo_fr_answers 1000000 0 [demo_slave] fr_init = (out, calls, s')"
    by (cases "fr_acquire demo_fr_answers 1000000 0 [demo_slave] fr_init")
  have "\<not> fr_running fr_init" by (simp add: fr_init_def)
  then have "fr_start demo_bus 0 demo_fr_answers 1000000 0 (fr_init, ()) = (out, calls, s', ())"
    by (simp add: fr_start_def demo_configuration acq)
  with demo_acquire [OF acq] show ?thesis by (simp add: demo_run_def)
qed

lemma demo_run_reached: "fr_reach demo_bus 0 1000000 () (demo_run, (), 1)"
proof -
  from demo_start obtain calls where st: "fr_start demo_bus 0 demo_fr_answers 1000000 0 (fr_init, ()) = (Started, calls, demo_run, ())"
    "requests calls = 1" "releases calls = 0" "image_bytes (fr_mirror demo_run) = 2" by blast
  from fr_reach_start [OF fr_reach_init st(1)] st(2,3) show ?thesis by (simp add: demo_fr_answers_def)
qed

lemma demo_run_live: "fr_live demo_run" "image_bytes (fr_mirror demo_run) = 2"
proof -
  from demo_start fr_reach_ok [OF demo_run_reached] have l: "fr_held demo_run" "image_bytes (fr_mirror demo_run) = 2"
    "fr_domainData demo_run = Some [5, 6]"
    by (auto simp: fr_life_ok_def)
  then have "fr_covered demo_run" by (simp add: fr_covered_def fr_held_def)
  with l show "fr_live demo_run" "image_bytes (fr_mirror demo_run) = 2" by (simp_all add: fr_live_iff)
qed

definition quiet_input :: cycle_inputs where
  "quiet_input = \<lparr>ci_sleepErr = 0, ci_now = 1, ci_shmNow = 1, ci_receive = (\<lambda>d. d), ci_masterState = no_master_state,
     ci_domainState = no_domain_state\<rparr>"

theorem free_run_resources_balanced_witness:
  "fr_running demo_run \<and> fr_held demo_run \<and> fr_covered (fr_turn quiet_input demo_run)
   \<and> fst (fr_start demo_bus 0 demo_fr_answers 1000000 1 (demo_run, ())) \<noteq> Terminated"
proof -
  have "fr_running demo_run" "fr_covered demo_run" using demo_run_live(1) by (simp_all add: fr_live_iff fr_held_def)
  moreover have "\<forall>d. length (ci_receive quiet_input d) = length d" by (simp add: quiet_input_def)
  ultimately show ?thesis
    using free_run_resources_balanced [OF demo_run_reached, of demo_fr_answers 1 quiet_input] by auto
qed

text \<open>
  Claim C10 (bounds). No client can drive the mirror out of bounds: whatever a client leaves in the
  mapped header and buffers of a running controller, the cycle works on an image no larger than the
  stride and the domain's data, leaves the sizes of both buffers and of the domain as they are, changes
  the domain only where an in-bounds RxPDO entry covers it, and publishes with the version advanced,
  the running flag set and a buffer index of 0 or 1.
\<close>

theorem mirror_survives_any_client:
  assumes "fr_live s" and "fr_mirror s \<noteq> []" and "shm_sized (fr_stride s) m"
    and "fr_domainData s = Some d"
  shows "\<exists>m' d'. fr_mirrorToShm now (s\<lparr>fr_shm := Some m\<rparr>) = s\<lparr>fr_domainData := Some d', fr_shm := Some m'\<rparr>
    \<and> shm_sized (fr_stride s) m' \<and> length d' = length d
    \<and> (\<exists>sz. 0 < sz \<and> sz \<le> fr_stride s \<and> sz \<le> length d \<and> drop sz d' = drop sz d
         \<and> (\<forall>i < sz. d' ! i = d ! i \<or> driven sz (fr_mirror s) i))
    \<and> version (sm_header m') = version (sm_header m) + 1
    \<and> status_flags (sm_header m') = status_flags (sm_header m) OR FLAG_RUNNING
    \<and> active_buffer (sm_header m') \<le> 1"
proof -
  let ?s = "s\<lparr>fr_shm := Some m\<rparr>" and ?sz = "image_size (fr_context now m (s\<lparr>fr_shm := Some m\<rparr>))"
  from assms have stride: "0 < fr_stride ?s" "fr_stride ?s \<le> MAX_PROCESS_DATA_SIZE" "fr_stride ?s \<le> length d"
    using image_bytes_bounds by (auto simp: fr_live_def)
  have pre: "fr_shm ?s = Some m" "fr_mirror ?s \<noteq> []" "fr_domainData ?s = Some d" "shm_sized (fr_stride ?s) m"
    using assms by simp_all
  from fr_mirror_result [OF pre stride, of now] obtain m' d' where r:
    "fr_mirrorToShm now ?s = ?s\<lparr>fr_domainData := Some d', fr_shm := Some m'\<rparr>"
    "shm_sized (fr_stride ?s) m'" "length d' = length d" "drop ?sz d' = drop ?sz d"
    "\<forall>i < ?sz. d' ! i = (if driven ?sz (fr_mirror ?s) i
       then (if active_buffer (sm_header m) = 1 then sm_data1 m else sm_data0 m) ! i else d ! i)"
    "version (sm_header m') = version (sm_header m) + 1"
    "status_flags (sm_header m') = status_flags (sm_header m) OR FLAG_RUNNING"
    "active_buffer (sm_header m') = (if active_buffer (sm_header m) = 1 then 0 else 1)" by blast
  have "\<forall>i < ?sz. d' ! i = d ! i \<or> driven ?sz (fr_mirror s) i" using r(5) by simp
  moreover have "active_buffer (sm_header m') \<le> 1" using r(8) by simp
  moreover note fr_context_facts(1,2,3) [OF pre(3,4) stride, of now]
  ultimately show ?thesis using r by (intro exI [of _ m'] exI [of _ d'] conjI exI [of _ ?sz]) simp_all
qed

definition scribbled_map :: shm_map where
  "scribbled_map = \<lparr>sm_header = (new_header 0)\<lparr>data_size := 4000000000, active_buffer := 77\<rparr>,
     sm_data0 = [9, 9], sm_data1 = [8, 8]\<rparr>"

lemma demo_run_facts: "fr_stride demo_run = 2 \<and> fr_mirror demo_run \<noteq> [] \<and> fr_domainData demo_run \<noteq> None \<and> fr_live demo_run"
proof -
  note l = demo_run_live
  have "fr_mirror demo_run \<noteq> []"
  proof
    assume "fr_mirror demo_run = []"
    with l(2) show False by (simp add: image_bytes_def computeProcessDataSize_def MAX_PROCESS_DATA_SIZE_def)
  qed
  with l show ?thesis by (auto simp: fr_live_def)
qed

theorem mirror_survives_any_client_witness:
  "\<exists>s'. fr_mirrorToShm 7 (demo_run\<lparr>fr_shm := Some scribbled_map\<rparr>) = s' \<and> fr_stride s' = 2
     \<and> shm_sized 2 (the (fr_shm s')) \<and> version (sm_header (the (fr_shm s'))) = 1"
proof -
  from demo_run_facts obtain d where d: "fr_domainData demo_run = Some d" "fr_live demo_run" "fr_mirror demo_run \<noteq> []"
    "fr_stride demo_run = 2" by blast
  have "shm_sized (fr_stride demo_run) scribbled_map" by (simp add: d(4) shm_sized_def scribbled_map_def)
  from mirror_survives_any_client [OF d(2,3) this d(1), of 7] show ?thesis
    by (auto simp: d(4) scribbled_map_def new_header_def)
qed

text \<open>
  Working counter errors are counted and reported as consecutive ones: after any
  turns of the loop whose sleeps succeed, started at a count of 0, the count is the number of incomplete
  turns since the last complete one, every turn counts as a cycle, a hundred incomplete turns in
  a row leave the warning as the status, and a complete turn after incomplete ones reports the
  recovery with their number.
\<close>

theorem wc_errors_are_consecutive:
  assumes "fr_running s" and "\<forall>i \<in> set inps. ci_sleepErr i = 0" and "fr_wcErrorCount s = 0"
  shows "fr_wcErrorCount (fr_turns inps s) = bad_tail inps
    \<and> fr_cycleCount (fr_turns inps s) = fr_cycleCount s + length inps
    \<and> (100 \<le> bad_tail inps \<longrightarrow> fr_status (fr_turns inps s) = wc_warning 100)
    \<and> (\<forall>i. ci_sleepErr i = 0 \<and> \<not> wc_bad i \<and> 0 < bad_tail inps \<longrightarrow>
         fr_status (fr_turns (inps @ [i]) s) = wc_recovered (fr_activeMasterIndex s) (bad_tail inps))"
  using fr_turns_frame [OF assms] fr_turns_warning [OF assms] by (simp add: fr_turn_wc)

theorem wc_errors_are_consecutive_witness:
  "fr_status (fr_turns (replicate 100 quiet_input) (fr_init\<lparr>fr_running := True\<rparr>)) = wc_warning 100"
proof -
  have bad: "wc_bad quiet_input" by (simp add: wc_bad_def quiet_input_def no_domain_state_def)
  then have "bad_tail (replicate 100 quiet_input) = 100" by (simp add: bad_tail_def)
  then show ?thesis
    using wc_errors_are_consecutive [of "fr_init\<lparr>fr_running := True\<rparr>" "replicate 100 quiet_input"]
    by (simp add: fr_init_def quiet_input_def)
qed

text \<open>
  The tables a successful start hands to \<open>ecrt\<close> agree: the entries the telemetry
  reads and the registrations are the same list of slave, index and subindex, entry \<open>k\<close> has the
  offset and the bit position the registration stored for it, there is one of each per entry of the
  configuration, every slave has its PDOs configured once, in order, and each sync manager's
  part of the slave's PDO array is exactly that sync manager's PDOs.
\<close>

theorem started_tables_agree:
  assumes "fr_acquire a cyc m slaves s = (Started, calls, s')" and "fr_idle s"
  shows "length (fr_entries s') = totalEntries slaves
    \<and> list_all2 tables_agree (fr_entries s') (fr_registrations s')
    \<and> map rn_offset (fr_entries s') = map (fa_offsets a) [0..<totalEntries slaves]
    \<and> map rn_bit (fr_entries s') = map (fa_bits a) [0..<totalEntries slaves]
    \<and> configured_positions calls = map sl_position slaves \<and> list_all pdos_call_ok calls"
proof -
  from fr_acquire_result [OF assms] have t: "started_tables a slaves calls s'" by blast
  let ?es = "concat (map slave_entries slaves)"
  have e: "fr_entries s' = store_offsets (fa_offsets a) (fa_bits a) ?es" "length ?es = totalEntries slaves"
    using t length_slave_entries by (simp_all add: started_tables_def)
  have "list_all2 tables_agree ?es (fr_registrations s')"
    using t list_all2_concat_map [of slaves tables_agree] slave_tables_agree by (simp add: started_tables_def)
  then have "list_all2 tables_agree (fr_entries s') (fr_registrations s')"
    unfolding e(1) list_all2_conv_all_nth by (simp add: nth_store_offsets tables_agree_def)
  moreover have "map rn_offset (fr_entries s') = map (fa_offsets a) [0..<totalEntries slaves]"
    "map rn_bit (fr_entries s') = map (fa_bits a) [0..<totalEntries slaves]"
    using e by (auto intro!: nth_equalityI simp: nth_store_offsets)
  ultimately show ?thesis using t e by (simp add: started_tables_def)
qed

theorem started_tables_agree_witness:
  "\<exists>calls s'. fr_acquire demo_fr_answers 1000000 0 [demo_slave] fr_init = (Started, calls, s')
     \<and> length (fr_entries s') = 1 \<and> configured_positions calls = [0]"
proof -
  obtain out calls s' where acq: "fr_acquire demo_fr_answers 1000000 0 [demo_slave] fr_init = (out, calls, s')"
    by (cases "fr_acquire demo_fr_answers 1000000 0 [demo_slave] fr_init")
  have "fr_idle fr_init" by (simp add: fr_idle_def fr_init_def)
  with started_tables_agree [of demo_fr_answers 1000000 0 "[demo_slave]" fr_init calls s'] acq demo_acquire [OF acq]
  show ?thesis by (simp add: demo_slave_def)
qed

end
