(* ===== verification/AdapterHandler.thy ===== *)
theory AdapterHandler
  imports Backend
begin

text \<open>
  The network adapters of the host and the choice of the one the master binds to
  (\<^verbatim>\<open>apps/ecatd/handlers/AdapterHandler.cpp\<close>). The files under \<^verbatim>\<open>/sys/class/net\<close> and
  \<^verbatim>\<open>/etc/ethercat.conf\<close> are parameters: reading answers the text or the error of opening, rewriting
  the error of opening or nothing. The texts are Latin-1, where UTF-8 decoding loses nothing.
\<close>

section \<open>The host's files\<close>

record 'w sys_files =
  sf_ifaces :: "'w \<Rightarrow> string list"
  sf_read :: "string \<Rightarrow> 'w \<Rightarrow> string + string"
  sf_link_target :: "string \<Rightarrow> 'w \<Rightarrow> string option"
  sf_rewrite :: "string \<Rightarrow> string \<Rightarrow> 'w \<Rightarrow> string option \<times> 'w"

record network_adapter =
  na_name :: string
  na_mac :: string
  na_driver :: string
  na_pciSlot :: string
  na_linkUp :: bool
  na_isEthercat :: bool

definition confPath :: string where "confPath = ''/etc/ethercat.conf''"
definition basePath :: string where "basePath = ''/sys/class/net''"

definition readSysfs :: "'w sys_files \<Rightarrow> string \<Rightarrow> 'w \<Rightarrow> string" where
  "readSysfs sf path w = (case sf_read sf path w of Inl _ \<Rightarrow> [] | Inr content \<Rightarrow> trimmed content)"

definition runCommand :: "'w proc \<Rightarrow> string \<Rightarrow> 'w \<Rightarrow> string \<times> 'w" where
  "runCommand proc cmd w =
     (let (out, w') = proc ''sh'' [''-c'', cmd] w
      in (case out of NotStarted \<Rightarrow> [] | TimedOut so \<Rightarrow> so | Exited _ so _ \<Rightarrow> so, w'))"

section \<open>The configuration file\<close>

definition conf_key :: string where "conf_key = ''MASTER0_DEVICE''"

abbreviation value_part :: "rx list \<Rightarrow> rx list" where
  "value_part v \<equiv> [Spaces0, Lit ''='', Spaces0, Lit [quote_char]] @ v @ [Lit [quote_char]]"

abbreviation Unquoted :: rx where "Unquoted \<equiv> Many (rx_none_of [quote_char]) 0 None"

definition current_re :: "rx list" where
  \<comment> \<open>\<open>MASTER0_DEVICE\s*=\s*"([^"]*)"\<close>\<close>
  "current_re = Lit conf_key # value_part [Grp 1 [Unquoted]]"

definition conf_re :: "rx list" where
  \<comment> \<open>\<open>^MASTER0_DEVICE\s*=\s*"[^"]*"\<close> with \<open>MultilineOption\<close>\<close>
  "conf_re = Bol # Lit conf_key # value_part [Unquoted]"

definition device_line :: "string \<Rightarrow> string" where
  "device_line adapter = conf_key @ ''='' @ [quote_char] @ adapter @ [quote_char]"

definition configured :: "string \<Rightarrow> string" where
  "configured content = (case rx_match rx_plain current_re content of None \<Rightarrow> [] | Some m \<Rightarrow> captured m 1)"

definition currentAdapter :: "'w sys_files \<Rightarrow> 'w \<Rightarrow> string" where
  "currentAdapter sf w = configured (readSysfs sf confPath w)"

definition rewritten :: "string \<Rightarrow> string \<Rightarrow> string" where
  "rewritten adapter content =
     (if has_match rx_multi conf_re content then rx_replace rx_multi conf_re (device_line adapter) content
      else content @ (if \<not> ends_with [newline] content then [newline] else [])
        @ device_line adapter @ [newline])"

section \<open>Enumerating\<close>

definition slot_re :: "rx list" where
  \<comment> \<open>\<open>PCI_SLOT_NAME=(\S+)\<close>\<close>
  "slot_re = [Lit ''PCI_SLOT_NAME='', Grp 1 [Many rx_nonspace 1 None]]"

definition pci_slot :: "string \<Rightarrow> string" where
  "pci_slot uevent = (if uevent = [] then []
     else case rx_match rx_plain slot_re uevent of None \<Rightarrow> [] | Some m \<Rightarrow> captured m 1)"

definition adapter_of :: "'w proc \<Rightarrow> 'w sys_files \<Rightarrow> string \<Rightarrow> string \<Rightarrow> 'w \<Rightarrow> network_adapter \<times> 'w" where
  "adapter_of proc sf ethercat iface w =
     (let dir = basePath @ ''/'' @ iface;
          (out, w') = runCommand proc (''ethtool '' @ iface) w
      in (\<lparr>na_name = iface,
           na_mac = readSysfs sf (dir @ ''/address'') w,
           na_driver = (case sf_link_target sf (dir @ ''/device/driver'') w of
              None \<Rightarrow> [] | Some target \<Rightarrow> last (split_on (CHR ''/'') target)),
           na_pciSlot = pci_slot (readSysfs sf (dir @ ''/device/uevent'') w),
           na_linkUp = contains_str ''Link detected: yes'' out,
           na_isEthercat = (iface = ethercat)\<rparr>, w'))"

fun adapters_of :: "'w proc \<Rightarrow> 'w sys_files \<Rightarrow> string \<Rightarrow> string list \<Rightarrow> 'w \<Rightarrow> network_adapter list \<times> 'w" where
  "adapters_of proc sf ethercat [] w = ([], w)"
| "adapters_of proc sf ethercat (iface # ifaces) w =
     (if iface = ''lo'' then adapters_of proc sf ethercat ifaces w
      else let (a, w1) = adapter_of proc sf ethercat iface w;
               (as, w2) = adapters_of proc sf ethercat ifaces w1
           in (a # as, w2))"

definition enumerateAdapters :: "'w proc \<Rightarrow> 'w sys_files \<Rightarrow> 'w \<Rightarrow> network_adapter list \<times> 'w" where
  "enumerateAdapters proc sf w = adapters_of proc sf (currentAdapter sf w) (sf_ifaces sf w) w"

section \<open>The methods\<close>

definition adapter_json :: "network_adapter \<Rightarrow> json" where
  "adapter_json a = JObj [(''name'', JStr (na_name a)), (''mac'', JStr (na_mac a)),
     (''driver'', JStr (na_driver a)), (''pciSlot'', JStr (na_pciSlot a)),
     (''linkUp'', JBool (na_linkUp a)), (''isEthercat'', JBool (na_isEthercat a))]"

definition handleList :: "'w proc \<Rightarrow> 'w sys_files \<Rightarrow> string \<Rightarrow> jobject \<Rightarrow> 'w \<Rightarrow> json \<times> 'w" where
  "handleList proc sf rid params w =
     (let (adapters, w') = enumerateAdapters proc sf w
      in (success rid [(''adapters'', JArr (map adapter_json adapters)), (''current'', JStr (currentAdapter sf w'))], w'))"

definition in_quotes :: "string \<Rightarrow> string" where
  "in_quotes s = [apostrophe] @ s @ [apostrophe]"

definition handleSet :: "'w proc \<Rightarrow> 'w sys_files \<Rightarrow> string \<Rightarrow> jobject \<Rightarrow> 'w \<Rightarrow> json \<times> 'w" where
  "handleSet proc sf rid params w =
     (let adapter = trimmed (to_string (jfind params ''adapter''))
      in if adapter = [] then (failure rid (''Missing '' @ in_quotes ''adapter'' @ '' parameter.''), w)
         else let (adapters, w1) = enumerateAdapters proc sf w
         in if \<not> list_ex (\<lambda>a. na_name a = adapter) adapters
            then (failure rid (''Adapter '' @ in_quotes adapter @ '' not found.''), w1)
            else case sf_read sf confPath w1 of
                Inl e \<Rightarrow> (failure rid (''Cannot read '' @ confPath @ '': '' @ e), w1)
              | Inr content \<Rightarrow>
                  (case sf_rewrite sf confPath (rewritten adapter content) w1 of
                     (Some e, w2) \<Rightarrow> (failure rid (''Cannot write '' @ confPath @ '': '' @ e), w2)
                   | (None, w2) \<Rightarrow> (success rid [(''adapter'', JStr adapter),
                       (''message'', JStr (''Adapter set to '' @ in_quotes adapter
                          @ ''. Restart ethercat service to apply.''))], w2)))"

interpretation adapter_list: rpc_handler "handleList proc sf" for proc sf
  by unfold_locales (simp add: handleList_def case_prod_beta)

interpretation adapter_set: rpc_handler "handleSet proc sf" for proc sf
  by unfold_locales (simp add: handleSet_def Let_def case_prod_beta split: sum.splits option.splits)

section \<open>Reading the setting\<close>

lemma conf_key_Cons: "conf_key = CHR ''M'' # ''ASTER0_DEVICE''" "CHR ''M'' \<notin> set ''ASTER0_DEVICE''"
  by (simp_all add: conf_key_def)

lemma plain_case [simp]: "\<not> nocase rx_plain" "\<not> nocase rx_multi" "multiline rx_multi"
  by (simp_all add: rx_plain_def rx_multi_def)

lemma quote_char_simps [simp]: "\<not> rx_space quote_char" "\<not> is_space quote_char"
  "\<not> rx_space (CHR ''='')" "\<not> is_space (CHR ''M'')"
  by (simp_all add: rx_space_def is_space_def code_of_def quote_char_def Let_def)

lemma concat_map_concat: "concat (map f (concat (map g xs))) = concat (map (\<lambda>x. concat (map f (g x))) xs)"
  by (induction xs) simp_all

lemma rx_seq_append: "rx_seq fl (as @ bs) = (\<lambda>st. concat (map (rx_seq fl bs) (rx_seq fl as st)))"
  by (induction as) (rule ext, simp add: concat_map_concat)+

lemma value_part_match:
  assumes dev: "quote_char \<notin> set dev" and v: "first_match fl v (p, dev @ [quote_char] @ rest, []) (rev dev @ p, [quote_char] @ rest, caps)"
    and fl: "\<not> nocase fl" and p: "p = rev ([CHR ''='', quote_char]) @ q"
  shows "first_match fl (value_part v) (q, ''='' @ [quote_char] @ dev @ [quote_char] @ rest, [])
     (quote_char # rev dev @ p, rest, caps)"
proof -
  have tail: "first_match fl (v @ [Lit [quote_char]]) (p, dev @ [quote_char] @ rest, []) (quote_char # rev dev @ p, rest, caps)"
    using v fl by (auto simp: first_match_def rx_seq_append lit_at_def eat_def starts_with_def)
  have sp: "first_atom fl Spaces0 (r, c # s, []) (r, c # s, [])" if "\<not> rx_space c" for r c s
    using first_many [of "[]" rx_space 0 "c # s" fl r "[]"] that by simp
  have lit: "first_atom fl (Lit [c]) (r, c # s, []) (c # r, s, [])" for r c s
    using first_lit [OF fl, of "[c]" r s "[]"] by simp
  show ?thesis using tail p
    by (auto intro!: first_match_Cons [OF sp] first_match_Cons [OF lit])
qed

lemma unquoted_match:
  assumes "quote_char \<notin> set dev"
  shows "first_atom fl Unquoted (p, dev @ [quote_char] @ rest, []) (rev dev @ p, [quote_char] @ rest, [])"
  using assms by (intro first_many) (auto simp: rx_none_of_def)

lemma device_line_Cons: "device_line dev = CHR ''M'' # ''ASTER0_DEVICE'' @ ''='' @ [quote_char] @ dev @ [quote_char]"
  by (simp add: device_line_def conf_key_def)

lemma current_re_search:
  assumes "quote_char \<notin> set dev" and "\<not> contains_str conf_key pre"
  shows "\<exists>m. rx_match rx_plain current_re (pre @ device_line dev @ rest) = Some m \<and> captured m 1 = dev"
proof -
  let ?q = "rev conf_key @ rev pre"
  let ?p = "rev [CHR ''='', quote_char] @ ?q"
  have "first_match rx_plain [Grp 1 [Unquoted]] (?p, dev @ [quote_char] @ rest, [])
      (rev dev @ ?p, [quote_char] @ rest, [(1, dev)])"
    by (rule first_match_Cons [OF first_grp [OF first_match_Cons [OF unquoted_match [OF assms(1)]]]]) simp_all
  from value_part_match [OF assms(1) this _ refl]
  have "first_match rx_plain (value_part [Grp 1 [Unquoted]]) (?q, ''='' @ [quote_char] @ dev @ [quote_char] @ rest, [])
      (quote_char # rev dev @ ?p, rest, [(1, dev)])" by simp
  then have "first_match rx_plain current_re (rev pre, conf_key @ ''='' @ [quote_char] @ dev @ [quote_char] @ rest, [])
      (quote_char # rev dev @ ?p, rest, [(1, dev)])"
    unfolding current_re_def by (rule first_match_Cons [OF first_lit [OF plain_case(1)]])
  then have "rx_search rx_plain current_re [] (pre @ device_line dev @ rest) = Some (quote_char # rev dev @ ?p, rest, [(1, dev)])"
    using rx_search_lit_after [OF plain_case(1) conf_key_Cons(2), of pre "value_part [Grp 1 [Unquoted]]" "[]"] assms(2)
    unfolding current_re_def conf_key_Cons(1) device_line_Cons by simp
  then show ?thesis by (simp add: rx_match_def captured_def)
qed

lemma dropWhile_around: "\<not> P c \<Longrightarrow> dropWhile P (a @ c # b) = dropWhile P a @ c # b"
  by (induction a) simp_all

lemma trimmed_around:
  assumes "\<not> is_space c" and "\<not> is_space d"
  shows "trimmed (a @ (c # u @ [d]) @ b) = dropWhile is_space a @ (c # u @ [d]) @ rev (dropWhile is_space (rev b))"
proof -
  have "dropWhile is_space (a @ (c # u @ [d]) @ b) = dropWhile is_space a @ (c # u @ [d]) @ b"
    using dropWhile_around [of is_space c a "u @ [d] @ b"] assms(1) by simp
  moreover have "dropWhile is_space (rev b @ d # rev u @ c # rev (dropWhile is_space a))
      = dropWhile is_space (rev b) @ d # rev u @ c # rev (dropWhile is_space a)"
    using dropWhile_around [of is_space d] assms(2) by simp
  ultimately show ?thesis by (simp add: trimmed_def)
qed

lemma contains_str_drop: "contains_str k (dropWhile P a) \<Longrightarrow> contains_str k a"
  unfolding contains_str_iff by (metis append_assoc takeWhile_dropWhile_id)

lemma configured_line:
  assumes "quote_char \<notin> set dev" and "\<not> contains_str conf_key pre"
  shows "configured (trimmed (pre @ device_line dev @ rest)) = dev"
proof -
  have "trimmed (pre @ device_line dev @ rest) = dropWhile is_space pre @ device_line dev @ rev (dropWhile is_space (rev rest))"
    using trimmed_around [of "CHR ''M''" quote_char pre "''ASTER0_DEVICE'' @ ''='' @ [quote_char] @ dev" rest]
    by (simp add: device_line_Cons)
  with current_re_search [OF assms(1), of "dropWhile is_space pre"] contains_str_drop assms(2)
  show ?thesis unfolding configured_def by (metis option.simps(5))
qed


section \<open>Rewriting the setting\<close>

lemma conf_re_fails: "rx_seq fl conf_re st = []" if "\<not> starts_with conf_key (fst (snd st))" "\<not> nocase fl"
  using that by (cases st) (simp add: conf_re_def lit_at_def split: prod.splits)

lemma grp_fails: "rx_seq fl rs st = [] \<Longrightarrow> rx_seq fl [Grp n rs] st = []"
  by (cases st) simp

lemma conf_re_match:
  assumes "quote_char \<notin> set old" and "pre = [] \<or> last pre = newline"
  shows "first_match rx_multi conf_re (rev pre, device_line old @ rest, [])
    (rev (device_line old) @ rev pre, rest, [])"
proof -
  let ?q = "rev conf_key @ rev pre"
  let ?p = "rev [CHR ''='', quote_char] @ ?q"
  have "first_match rx_multi [Unquoted] (?p, old @ [quote_char] @ rest, []) (rev old @ ?p, [quote_char] @ rest, [])"
    by (rule first_match_Cons [OF unquoted_match [OF assms(1)]]) simp
  from value_part_match [OF assms(1) this _ refl]
  have "first_match rx_multi (value_part [Unquoted]) (?q, ''='' @ [quote_char] @ old @ [quote_char] @ rest, [])
      (quote_char # rev old @ ?p, rest, [])" by simp
  then have "first_match rx_multi (Lit conf_key # value_part [Unquoted])
      (rev pre, conf_key @ ''='' @ [quote_char] @ old @ [quote_char] @ rest, []) (quote_char # rev old @ ?p, rest, [])"
    by (rule first_match_Cons [OF first_lit [OF plain_case(2)]])
  moreover have "first_atom rx_multi Bol (rev pre, s, []) (rev pre, s, [])" for s
    using assms(2) by (cases pre rule: rev_cases) (auto simp: first_atom_def)
  ultimately have "first_match rx_multi conf_re (rev pre, conf_key @ ''='' @ [quote_char] @ old @ [quote_char] @ rest, [])
      (quote_char # rev old @ ?p, rest, [])"
    unfolding conf_re_def by (blast intro: first_match_Cons)
  then show ?thesis by (simp add: device_line_def)
qed

lemma key_free_prefix:
  assumes "\<not> contains_str conf_key pre" and "i < length pre" and "rest = [] \<or> hd rest = CHR ''M'' \<or> \<not> contains_str conf_key (pre @ rest)"
  shows "\<not> starts_with conf_key (drop i pre @ rest)"
proof
  assume a: "starts_with conf_key (drop i pre @ rest)"
  have no: "\<not> starts_with conf_key (drop i pre)"
    using assms(1) unfolding starts_with_iff contains_str_iff by (metis append_take_drop_id)
  from assms(3) consider "rest = []" | s where "rest = CHR ''M'' # s" | "\<not> contains_str conf_key (pre @ rest)"
    by (cases rest) auto
  then show False
  proof cases
    case 1
    then show ?thesis using a no by simp
  next
    case 2
    with a no starts_with_straddle [OF _ conf_key_Cons(2)] assms(2) show ?thesis
      by (simp add: conf_key_Cons(1))
  next
    case 3
    then show ?thesis using a unfolding starts_with_iff contains_str_iff
      by (metis append.assoc append_take_drop_id)
  qed
qed

lemma rx_search_here: "first_match fl rs (p, s, []) m \<Longrightarrow> rx_search fl rs p s = Some m"
  by (cases s) (auto simp: first_match_def)

lemma conf_search_skips:
  assumes "\<not> contains_str conf_key pre" and "rest = [] \<or> hd rest = CHR ''M''"
    and "rs = conf_re \<or> rs = [Grp 0 conf_re]"
  shows "rx_search rx_multi rs [] (pre @ rest) = rx_search rx_multi rs (rev pre) rest"
proof -
  have "rx_seq rx_multi rs (rev (take i pre), drop i pre @ rest, []) = []" if "i < length pre" for i
  proof -
    have "rx_seq rx_multi conf_re (rev (take i pre), drop i pre @ rest, []) = []"
      using key_free_prefix [OF assms(1) that] assms(2) by (intro conf_re_fails) auto
    then show ?thesis using assms(3) grp_fails by blast
  qed
  then show ?thesis using rx_search_skip [of pre rx_multi rs "[]" rest] by simp
qed

lemma conf_search_finds:
  assumes "\<not> contains_str conf_key pre" and "quote_char \<notin> set old" and "pre = [] \<or> last pre = newline"
  shows "has_match rx_multi conf_re (pre @ device_line old @ rest)"
    and "rx_search rx_multi [Grp 0 conf_re] [] (pre @ device_line old @ rest)
      = Some (rev (device_line old) @ rev pre, rest, [(0, device_line old)])"
proof -
  have M: "hd (device_line old @ rest) = CHR ''M''" by (simp add: device_line_Cons)
  note f = conf_re_match [OF assms(2,3), of rest]
  show "has_match rx_multi conf_re (pre @ device_line old @ rest)"
    using conf_search_skips [OF assms(1)] M rx_search_here [OF f] by (simp add: has_match_def rx_match_def)
  have g: "first_match rx_multi [Grp 0 conf_re] (rev pre, device_line old @ rest, [])
      (rev (device_line old) @ rev pre, rest, [(0, device_line old)])"
    by (rule first_match_Cons [OF first_grp [OF f]]) simp
  show "rx_search rx_multi [Grp 0 conf_re] [] (pre @ device_line old @ rest)
      = Some (rev (device_line old) @ rev pre, rest, [(0, device_line old)])"
    using conf_search_skips [OF assms(1)] M rx_search_here [OF g] by simp
qed

lemma rewritten_replaces:
  assumes "\<not> contains_str conf_key pre" and "quote_char \<notin> set old" and "pre = [] \<or> last pre = newline"
  shows "\<exists>post. rewritten adapter (pre @ device_line old @ rest) = pre @ device_line adapter @ post"
proof -
  have "length (pre @ device_line old @ rest) - length rest - length (device_line old) = length pre" by simp
  then have "rx_replace rx_multi conf_re (device_line adapter) (pre @ device_line old @ rest)
      = pre @ device_line adapter @ rx_replace_fuel (length (pre @ device_line old @ rest)) rx_multi conf_re
          (device_line adapter) (rev (device_line old) @ rev pre) rest"
    unfolding rx_replace_def rx_replace_fuel.simps(2) conf_search_finds(2) [OF assms, of rest]
    by (simp add: captured_def Let_def del: rx_replace_fuel.simps)
  then show ?thesis using conf_search_finds(1) [OF assms, of rest] by (simp add: rewritten_def)
qed

lemma rewritten_appends:
  assumes "\<not> contains_str conf_key content"
  shows "\<exists>nl. set nl \<subseteq> {newline} \<and> rewritten adapter content = (content @ nl) @ device_line adapter @ [newline]"
proof -
  have "rx_search rx_multi conf_re (rev content) [] = None"
    using conf_re_fails [of "(rev content, [], [])" rx_multi] by (simp add: starts_with_def conf_key_def)
  then have "\<not> has_match rx_multi conf_re content"
    using conf_search_skips [OF assms, of "[]" conf_re] by (simp add: has_match_def rx_match_def)
  then show ?thesis by (auto simp: rewritten_def)
qed

text \<open>
  The texts the daemon and the user mean by a configuration that names the device in one place: either no text
  \<open>MASTER0_DEVICE\<close> at all, or a first one that is an assignment at the beginning of a line.
\<close>

definition plain_conf :: "string \<Rightarrow> bool" where
  "plain_conf content \<longleftrightarrow> \<not> contains_str conf_key content
     \<or> (\<exists>pre old rest. content = pre @ device_line old @ rest \<and> \<not> contains_str conf_key pre
          \<and> quote_char \<notin> set old \<and> (pre = [] \<or> last pre = newline))"

lemma newline_not_key: "newline \<notin> set conf_key"
  by (simp add: conf_key_def newline_def char_of_def)

lemma no_key_newlines:
  assumes "\<not> contains_str conf_key content" and "set nl \<subseteq> {newline}"
  shows "\<not> contains_str conf_key (content @ nl)"
proof
  assume "contains_str conf_key (content @ nl)"
  then obtain a b where "content @ nl = (a @ conf_key) @ b" unfolding contains_str_iff by auto
  then consider us where "content = (a @ conf_key) @ us" | us where "content @ us = a @ conf_key" "nl = us @ b"
    unfolding append_eq_append_conv2 by blast
  then show False
  proof cases
    case 1
    then show ?thesis using assms(1) unfolding contains_str_iff by auto
  next
    case 2
    show ?thesis
    proof (cases us rule: rev_cases)
      case Nil
      then show ?thesis using 2(1) assms(1) unfolding contains_str_iff by (metis append_Nil2)
    next
      case (snoc us' c)
      then have "c = last (a @ conf_key)" using 2(1) by (metis append.assoc last_snoc)
      moreover have "c = newline" using 2(2) snoc assms(2) by auto
      ultimately show ?thesis using newline_not_key by (simp add: conf_key_def)
    qed
  qed
qed

lemma configured_rewritten:
  assumes "plain_conf content" and "quote_char \<notin> set adapter"
  shows "configured (trimmed (rewritten adapter content)) = adapter"
  using assms(1) unfolding plain_conf_def
proof
  assume n: "\<not> contains_str conf_key content"
  obtain nl where "set nl \<subseteq> {newline}" "rewritten adapter content = (content @ nl) @ device_line adapter @ [newline]"
    using rewritten_appends [OF n] by blast
  then show ?thesis using configured_line [OF assms(2) no_key_newlines [OF n]] by simp
next
  assume "\<exists>pre old rest. content = pre @ device_line old @ rest \<and> \<not> contains_str conf_key pre
      \<and> quote_char \<notin> set old \<and> (pre = [] \<or> last pre = newline)"
  then obtain pre old rest where c: "content = pre @ device_line old @ rest" "\<not> contains_str conf_key pre"
      "quote_char \<notin> set old" "pre = [] \<or> last pre = newline" by blast
  obtain post where "rewritten adapter content = pre @ device_line adapter @ post"
    using rewritten_replaces [OF c(2-4)] c(1) by blast
  then show ?thesis using configured_line [OF assms(2) c(2)] by simp
qed

lemma configured_commented:
  assumes "\<not> contains_str conf_key pre" and "pre \<noteq> []" and "last pre \<noteq> newline" and "quote_char \<notin> set old"
    and "\<not> contains_str conf_key (tl (device_line old @ rest))"
  shows "configured (trimmed (rewritten adapter (pre @ device_line old @ rest))) = old"
proof -
  let ?c = "pre @ device_line old @ rest"
  obtain t where t: "device_line old @ rest = CHR ''M'' # t" by (simp add: device_line_Cons)
  have M: "hd (device_line old @ rest) = CHR ''M''" by (simp add: t)
  have bol: "rx_seq rx_multi conf_re (rev pre, u, []) = []" for u
    using assms(2,3) by (cases pre rule: rev_cases) (simp_all add: conf_re_def)
  have "rx_search rx_multi conf_re (CHR ''M'' # rev pre) (t @ []) = rx_search rx_multi conf_re (rev t @ CHR ''M'' # rev pre) []"
    using key_free_prefix [of t _ "[]"] assms(5) by (intro rx_search_skip allI impI conf_re_fails) (simp_all add: t)
  also have "\<dots> = None"
    using conf_re_fails [of "(rev t @ CHR ''M'' # rev pre, [], [])" rx_multi] by (simp add: starts_with_def conf_key_def)
  finally have "rx_search rx_multi conf_re (rev pre) (CHR ''M'' # t) = None" using bol [of "CHR ''M'' # t"] by simp
  then have "\<not> has_match rx_multi conf_re ?c"
    using conf_search_skips [OF assms(1)] M by (simp add: has_match_def rx_match_def t)
  then have "\<exists>post. rewritten adapter ?c = pre @ device_line old @ post" by (simp add: rewritten_def)
  then show ?thesis using configured_line [OF assms(4,1)] by metis
qed

section \<open>What a successful request has done\<close>

lemma adapters_of_names: "na_name ` set (fst (adapters_of proc sf e ifs w)) = set ifs - {''lo''}"
proof (induction ifs arbitrary: w)
  case (Cons i ifs)
  have "na_name (fst (adapter_of proc sf e i w)) = i" by (simp add: adapter_of_def Let_def case_prod_beta)
  then show ?case using Cons.IH by (auto simp: case_prod_beta Let_def)
qed simp

lemma handleSet_ok:
  assumes "handleSet proc sf rid params w = (r, w')" and "ok_of r"
  obtains content w1 where "trimmed (to_string (jfind params ''adapter'')) \<in> set (sf_ifaces sf w) - {''lo''}"
    "w1 = snd (enumerateAdapters proc sf w)" "sf_read sf confPath w1 = Inr content"
    "sf_rewrite sf confPath (rewritten (trimmed (to_string (jfind params ''adapter''))) content) w1 = (None, w')"
proof -
  let ?a = "trimmed (to_string (jfind params ''adapter''))"
  obtain as w1 where e: "enumerateAdapters proc sf w = (as, w1)" by fastforce
  have n: "?a \<noteq> []" using assms by (auto simp: handleSet_def Let_def)
  have ex: "list_ex (\<lambda>a. na_name a = ?a) as" using assms n by (auto simp: handleSet_def e Let_def split: if_splits)
  have "?a \<in> na_name ` set as" using ex unfolding list_ex_iff by force
  then have mem: "?a \<in> set (sf_ifaces sf w) - {''lo''}"
    using adapters_of_names [of proc sf "currentAdapter sf w" "sf_ifaces sf w" w] e
    by (simp only: enumerateAdapters_def fst_conv)
  from assms n ex obtain content where c: "sf_read sf confPath w1 = Inr content"
    by (cases "sf_read sf confPath w1") (auto simp: handleSet_def e Let_def)
  with assms n ex have "sf_rewrite sf confPath (rewritten ?a content) w1 = (None, w')"
    by (cases "sf_rewrite sf confPath (rewritten ?a content) w1")
       (auto simp: handleSet_def e Let_def split: option.splits)
  with mem e c that show thesis by simp
qed

section \<open>Properties\<close>

definition rereads :: "'w sys_files \<Rightarrow> bool" where
  \<comment> \<open>a rewritten file is read back as written\<close>
  "rereads sf \<longleftrightarrow> (\<forall>c w w'. sf_rewrite sf confPath c w = (None, w') \<longrightarrow> sf_read sf confPath w' = Inr c)"

text \<open>
  Claim C14 (roundtrip). A successful \<open>setAdapter\<close> takes effect: the adapter is an interface of the
  host other than the loopback, and what the daemon reads from the configuration afterwards is that
  adapter, whether the file had no \<open>MASTER0_DEVICE\<close> or a first one at the beginning of a line.
\<close>

theorem set_adapter_takes_effect:
  assumes "handleSet proc sf rid params w = (r, w')" and "ok_of r" and "rereads sf"
    and "\<And>content. sf_read sf confPath (snd (enumerateAdapters proc sf w)) = Inr content \<Longrightarrow> plain_conf content"
    and "quote_char \<notin> set (trimmed (to_string (jfind params ''adapter'')))"
  shows "trimmed (to_string (jfind params ''adapter'')) \<in> set (sf_ifaces sf w) - {''lo''}
    \<and> currentAdapter sf w' = trimmed (to_string (jfind params ''adapter''))"
proof -
  obtain content w1 where c: "trimmed (to_string (jfind params ''adapter'')) \<in> set (sf_ifaces sf w) - {''lo''}"
    "w1 = snd (enumerateAdapters proc sf w)" "sf_read sf confPath w1 = Inr content"
    "sf_rewrite sf confPath (rewritten (trimmed (to_string (jfind params ''adapter''))) content) w1 = (None, w')"
    using handleSet_ok [OF assms(1,2)] .
  have "sf_read sf confPath w' = Inr (rewritten (trimmed (to_string (jfind params ''adapter''))) content)"
    using assms(3) c(4) by (auto simp: rereads_def)
  then have "currentAdapter sf w' = trimmed (to_string (jfind params ''adapter''))"
    using configured_rewritten [OF assms(4) assms(5)] c(2,3) by (simp add: currentAdapter_def readSysfs_def)
  with c(1) show ?thesis by blast
qed

definition demo_files :: "string sys_files" where
  \<comment> \<open>the state is the configuration file\<close>
  "demo_files = \<lparr>sf_ifaces = (\<lambda>w. [''lo'', ''eth0'', ''eth1'']),
     sf_read = (\<lambda>path w. if path = confPath then Inr w else Inl ''No such file or directory''),
     sf_link_target = (\<lambda>path w. None), sf_rewrite = (\<lambda>path c w. (None, c))\<rparr>"

definition no_tool :: "string proc" where
  "no_tool program args w = (NotStarted, w)"

definition set_eth1 :: jobject where
  "set_eth1 = [(''adapter'', JStr ''eth1'')]"

lemma demo_reads: "sf_read demo_files confPath w = Inr w" "rereads demo_files"
  "snd (enumerateAdapters no_tool demo_files w) = w"
  "trimmed (to_string (jfind set_eth1 ''adapter'')) = ''eth1''"
  by (simp_all add: demo_files_def rereads_def enumerateAdapters_def adapter_of_def runCommand_def no_tool_def Let_def
      set_eth1_def) (simp_all add: trimmed_def is_space_def code_of_def)

lemma demo_set: "\<exists>r. handleSet no_tool demo_files ''1'' set_eth1 w = (r, rewritten ''eth1'' w) \<and> ok_of r"
proof -
  have "''eth1'' \<in> na_name ` set (fst (enumerateAdapters no_tool demo_files w))"
    unfolding enumerateAdapters_def adapters_of_names by (simp add: demo_files_def)
  then have "list_ex (\<lambda>a. na_name a = ''eth1'') (fst (enumerateAdapters no_tool demo_files w))"
    by (auto simp: list_ex_iff)
  then show ?thesis
    by (simp add: handleSet_def demo_reads case_prod_beta Let_def) (simp add: demo_files_def)
qed

theorem set_adapter_takes_effect_witness:
  "\<exists>r w'. handleSet no_tool demo_files ''1'' set_eth1 (device_line ''eth0'') = (r, w') \<and> currentAdapter demo_files w' = ''eth1''"
proof -
  obtain r where r: "handleSet no_tool demo_files ''1'' set_eth1 (device_line ''eth0'') = (r, rewritten ''eth1'' (device_line ''eth0''))"
    "ok_of r" using demo_set by blast
  have "plain_conf (device_line ''eth0'')"
    unfolding plain_conf_def
    by (rule disjI2, rule exI [of _ "[]"], rule exI [of _ "''eth0''"], rule exI [of _ "[]"])
       (simp add: conf_key_def quote_char_def)
  moreover have "quote_char \<notin> set ''eth1''" by (simp add: quote_char_def)
  ultimately have "currentAdapter demo_files (rewritten ''eth1'' (device_line ''eth0'')) = ''eth1''"
    using set_adapter_takes_effect [OF r demo_reads(2)] by (simp add: demo_reads)
  with r(1) show ?thesis by blast
qed

text \<open>
  The setting is written to lines that begin with \<open>MASTER0_DEVICE\<close> and read from the first
  occurrence anywhere: after an assignment that is indented or commented out, a successful
  \<open>setAdapter\<close> leaves the daemon reporting the old adapter.
\<close>

theorem commented_line_shadows_adapter:
  assumes "handleSet proc sf rid params w = (r, w')" and "ok_of r" and "rereads sf"
    and "sf_read sf confPath (snd (enumerateAdapters proc sf w)) = Inr (pre @ device_line old @ rest)"
    and "pre \<noteq> []" and "last pre \<noteq> newline" and "\<not> contains_str conf_key pre" and "quote_char \<notin> set old"
    and "\<not> contains_str conf_key (tl (device_line old @ rest))"
  shows "currentAdapter sf w' = old"
proof -
  obtain content w1 where c: "w1 = snd (enumerateAdapters proc sf w)" "sf_read sf confPath w1 = Inr content"
    "sf_rewrite sf confPath (rewritten (trimmed (to_string (jfind params ''adapter''))) content) w1 = (None, w')"
    using handleSet_ok [OF assms(1,2)] .
  then have "sf_read sf confPath w' = Inr (rewritten (trimmed (to_string (jfind params ''adapter''))) (pre @ device_line old @ rest))"
    using assms(3,4) by (auto simp: rereads_def)
  then show ?thesis
    using configured_commented [OF assms(7,5,6,8,9)] by (simp add: currentAdapter_def readSysfs_def)
qed

theorem commented_line_shadows_adapter_witness:
  "\<exists>r w'. handleSet no_tool demo_files ''1'' set_eth1 (''# '' @ device_line ''eth0'') = (r, w') \<and> ok_of r
     \<and> currentAdapter demo_files w' = ''eth0''"
proof -
  obtain r where r: "handleSet no_tool demo_files ''1'' set_eth1 (''# '' @ device_line ''eth0'')
      = (r, rewritten ''eth1'' (''# '' @ device_line ''eth0''))" "ok_of r" using demo_set by blast
  have "currentAdapter demo_files (rewritten ''eth1'' (''# '' @ device_line ''eth0'')) = ''eth0''"
  proof (rule commented_line_shadows_adapter [OF r demo_reads(2), where pre = "''# ''" and rest = "[]"])
    show "last ''# '' \<noteq> newline" using newline_not_blank [symmetric] by simp
    show "\<not> contains_str conf_key ''# ''" by (simp add: conf_key_def starts_with_def)
    show "\<not> contains_str conf_key (tl (device_line ''eth0'' @ []))"
      by (simp add: device_line_def conf_key_def starts_with_def)
  qed (simp_all add: demo_reads quote_char_def)
  with r show ?thesis by blast
qed

end
