(* ===== verification/DaemonMethods.thy ===== *)
theory DaemonMethods
  imports AlEventHandler SignalHandler RedundancyHandler OnlineChangeHandler EoEHandler SoEHandler FoEHandler
    DcSyncHandler RtTestController FreeRunCycle AdapterHandler
begin

text \<open>
  The daemon's state and the methods it registers (\<^verbatim>\<open>apps/ecatd/EcatDaemon.{h,cpp}\<close>). The lambdas of
  \<^verbatim>\<open>setupHandlers\<close> are the definitions \<open>h_\<dots>\<close>; a method that only calls a handler object is that handler,
  lifted to the daemon's state by \<open>focus\<close>. What the daemon asks of its host is the record \<open>env\<close>; of its
  answers those of \<open>ecrt\<close> are functions of the world. \<open>d_dead\<close> is set where \<open>std::terminate\<close> ends the
  process.
\<close>

section \<open>The state\<close>

record 'w env =
  e_haveIgh :: bool \<comment> \<open>compiled with \<open>HAVE_IGH\<close>\<close>
  e_host :: "'w host"
  e_diag :: "'w \<Rightarrow> json list \<times> string option \<times> 'w" \<comment> \<open>\<open>hostDiagnostics\<close> of the CLI backend\<close>
  e_native :: "'w ecat_service"
  e_files :: "'w file_system"
  e_sys :: "'w sys_files"
  e_xml :: xml_reader
  e_uptime :: "'w \<Rightarrow> int"
  e_unfinished :: int
  e_real_text :: "u32 \<Rightarrow> string"
  e_fr :: "'w \<Rightarrow> fr_answers"
  e_rt :: "'w \<Rightarrow> ecrt_answers"
  e_compact :: "json \<Rightarrow> string" \<comment> \<open>\<open>QJsonDocument::toJson(Compact)\<close>\<close>
  e_parse :: "string \<Rightarrow> jobject option" \<comment> \<open>\<open>QJsonDocument::fromJson\<close>, where it answers an object\<close>

datatype daemon_out = Reply nat json string | CloseSocket nat
  \<comment> \<open>a frame written to a socket, with the value it encodes, and \<open>disconnectFromHost\<close>\<close>

record 'w daemon =
  d_native :: bool
  d_backendMode :: string
  d_freeRun :: free_run
  d_rtTest :: rt_test
  d_al :: al_handler
  d_dc :: dc_sync
  d_red :: "redundancy_event list"
  d_oc :: online_change
  d_signals :: signal_handler
  d_requestCount :: u64
  d_errorCount :: u64
  d_activeConnections :: int
  d_buffers :: "nat \<rightharpoonup> string"
  d_out :: "daemon_out list"
  d_dead :: bool
  d_world :: 'w

type_synonym 'w daemon_handler = "string \<Rightarrow> jobject \<Rightarrow> 'w daemon \<Rightarrow> json \<times> 'w daemon"

definition backend :: "'w env \<Rightarrow> 'w daemon \<Rightarrow> 'w ecat_service" where
  "backend e s = (if d_native s then e_native e else cli_service (hs_proc (e_host e)) (e_diag e))"

definition daemon_init :: "'w \<Rightarrow> 'w daemon" where
  "daemon_init w = \<lparr>d_native = False, d_backendMode = ''auto'', d_freeRun = fr_init, d_rtTest = rt_init,
     d_al = al_init, d_dc = dc_init, d_red = [], d_oc = oc_init, d_signals = signal_init, d_requestCount = 0,
     d_errorCount = 0, d_activeConnections = 0, d_buffers = Map.empty, d_out = [], d_dead = False, d_world = w\<rparr>"

section \<open>Methods of a part of the state\<close>

definition focus :: "('s \<Rightarrow> 'x) \<Rightarrow> ('x \<Rightarrow> 's \<Rightarrow> 's) \<Rightarrow> ('s \<Rightarrow> 'x handler) \<Rightarrow> 's handler" where
  "focus get put h rid params s = (let (r, x) = h s rid params (get s) in (r, put x s))"

lemma focus_handler: "(\<And>s. rpc_handler (h s)) \<Longrightarrow> rpc_handler (focus get put h)"
  by (simp add: rpc_handler_def focus_def case_prod_beta Let_def)

definition put_world :: "'w \<Rightarrow> 'w daemon \<Rightarrow> 'w daemon" where
  "put_world w s = s\<lparr>d_world := w\<rparr>"

abbreviation on_world :: "('w daemon \<Rightarrow> 'w handler) \<Rightarrow> 'w daemon_handler" where
  "on_world \<equiv> focus d_world put_world"

abbreviation on_backend :: "'w env \<Rightarrow> ('w ecat_service \<Rightarrow> 'w handler) \<Rightarrow> 'w daemon_handler" where
  "on_backend e h \<equiv> on_world (\<lambda>s. h (backend e s))"

section \<open>Methods of the backend\<close>

definition subIndexFromJson :: "jobject \<Rightarrow> json" where
  "subIndexFromJson ob =
     (let v = jfind ob ''subIndex''
      in if v = JUndefined \<or> to_string v = [] then jfind ob ''subindex'' else v)"

definition answer_text :: "string \<Rightarrow> string \<Rightarrow> string \<times> string option \<times> 'w \<Rightarrow> json \<times> 'w" where
  \<comment> \<open>\<open>error.isEmpty() ? success(id, {{key, text}}) : failure(id, error)\<close>\<close>
  "answer_text rid key res = (case res of (text, e, w) \<Rightarrow>
     (if stored [] e = [] then success rid [(key, JStr text)] else failure rid (stored [] e), w))"

definition with_fallback :: "'w ecat_service \<Rightarrow> json \<times> 'w \<Rightarrow> json \<times> 'w" where
  \<comment> \<open>a success of the native backend that fell back to the command line says so\<close>
  "with_fallback svc res = (case res of (resp, w) \<Rightarrow>
     (if ok_of resp \<and> isNative svc \<and> lastOperationWasFallback svc w
      then JObj (jset ''reason'' (JStr (lastFallbackReason svc w))
             (jset ''backend'' (JStr ''cli_fallback'') (to_object resp)))
      else resp, w))"

definition answer_flag :: "string \<Rightarrow> bool \<times> string option \<times> 'w \<Rightarrow> json \<times> 'w" where
  \<comment> \<open>\<open>flag ? success(id) : failure(id, error)\<close>\<close>
  "answer_flag rid res = (case res of (flag, e, w) \<Rightarrow>
     (if flag then success rid [] else failure rid (stored [] e), w))"

definition position_of :: "jobject \<Rightarrow> int" where
  "position_of params = to_int (jfind params ''position'')"

definition h_hostDiagnostics :: "'w ecat_service \<Rightarrow> 'w handler" where
  "h_hostDiagnostics svc rid params w =
     (let (checks, e, w') = hostDiagnostics svc w
      in (if stored [] e = [] then success rid [(''checks'', JArr checks)] else failure rid (stored [] e), w'))"

definition h_master :: "'w ecat_service \<Rightarrow> 'w handler" where
  "h_master svc rid params w = answer_text rid ''text'' (masterText svc (requestedMaster params) w)"

definition h_scan :: "'w ecat_service \<Rightarrow> 'w handler" where
  "h_scan svc rid params w =
     (let (slaves, e, w') = scanSlaves svc (requestedMaster params) w
      in (if stored [] e = [] then success rid [(''slaves'', slaves_to_json slaves)] else failure rid (stored [] e), w'))"

definition h_rescan :: "'w ecat_service \<Rightarrow> 'w handler" where
  "h_rescan svc rid params w = with_fallback svc (answer_flag rid (rescan svc (requestedMaster params) w))"

definition h_slaveInfo :: "'w ecat_service \<Rightarrow> 'w handler" where
  "h_slaveInfo svc rid params w =
     answer_text rid ''text'' (slaveInfo svc (requestedMaster params) (position_of params) w)"

definition h_pdos :: "'w ecat_service \<Rightarrow> 'w handler" where
  "h_pdos svc rid params w = answer_text rid ''text'' (pdos svc (requestedMaster params) (position_of params) w)"

definition h_sdos :: "'w ecat_service \<Rightarrow> 'w handler" where
  "h_sdos svc rid params w =
     with_fallback svc (answer_text rid ''text'' (sdos svc (requestedMaster params) (position_of params) w))"

definition h_xml :: "'w ecat_service \<Rightarrow> 'w handler" where
  "h_xml svc rid params w =
     with_fallback svc (answer_text rid ''text'' (slaveXml svc (requestedMaster params) (position_of params) w))"

definition h_upload :: "'w ecat_service \<Rightarrow> 'w handler" where
  "h_upload svc rid params w = answer_text rid ''value''
     (upload svc (requestedMaster params) (position_of params) (to_string (jfind params ''index''))
        (to_string (subIndexFromJson params)) (to_string (jfind params ''type'')) w)"

definition h_download :: "'w ecat_service \<Rightarrow> 'w handler" where
  "h_download svc rid params w = answer_flag rid
     (download svc (requestedMaster params) (position_of params) (to_string (jfind params ''index''))
        (to_string (subIndexFromJson params)) (to_string (jfind params ''value'')) (to_string (jfind params ''type'')) w)"

definition h_setState :: "'w ecat_service \<Rightarrow> 'w handler" where
  "h_setState svc rid params w = with_fallback svc (answer_flag rid
     (setState svc (requestedMaster params) (position_of params) (to_string (jfind params ''state'')) w))"

definition h_setAllStates :: "'w ecat_service \<Rightarrow> 'w handler" where
  "h_setAllStates svc rid params w = with_fallback svc (answer_flag rid
     (setAllStates svc (requestedMaster params) (to_string (jfind params ''state'')) w))"

record startup_counts =
  su_applied :: int
  su_failed :: int
  su_failures :: "json list"
  su_results :: "json list"

definition startup_ok :: "int \<Rightarrow> jobject \<Rightarrow> json" where
  "startup_ok row item = JObj [(''row'', jint row), (''ok'', JBool True), (''position'', jint (position_of item)),
     (''index'', JStr (to_string (jfind item ''index''))), (''subIndex'', JStr (to_string (subIndexFromJson item)))]"

definition startup_fail :: "int \<Rightarrow> jobject \<Rightarrow> string \<Rightarrow> jobject" where
  "startup_fail row item err = [(''row'', jint row), (''position'', jint (position_of item)),
     (''index'', JStr (to_string (jfind item ''index''))), (''subIndex'', JStr (to_string (jfind item ''subIndex''))),
     (''error'', JStr err)]"

fun apply_items ::
  "'w ecat_service \<Rightarrow> string \<Rightarrow> int \<Rightarrow> json list \<Rightarrow> startup_counts \<Rightarrow> 'w \<Rightarrow> startup_counts \<times> 'w" where
  "apply_items svc master row [] c w = (c, w)"
| "apply_items svc master row (v # vs) c w =
     (let item = to_object v;
          (applied, e, w') = download svc master (position_of item) (to_string (jfind item ''index''))
             (to_string (subIndexFromJson item)) (to_string (jfind item ''value'')) (to_string (jfind item ''type'')) w
      in apply_items svc master (row + 1) vs
           (if applied then c\<lparr>su_applied := su_applied c + 1, su_results := su_results c @ [startup_ok row item]\<rparr>
            else let failed = startup_fail row item (stored [] e)
                 in c\<lparr>su_failed := su_failed c + 1, su_failures := su_failures c @ [JObj failed],
                      su_results := su_results c @ [JObj (jset ''ok'' (JBool False) failed)]\<rparr>) w')"

definition h_applyStartupSdos :: "'w ecat_service \<Rightarrow> 'w handler" where
  "h_applyStartupSdos svc rid params w =
     (let (c, w') = apply_items svc (requestedMaster params) 0 (to_array (jfind params ''items''))
            \<lparr>su_applied = 0, su_failed = 0, su_failures = [], su_results = []\<rparr> w
      in (success rid [(''applied'', jint (su_applied c)), (''failed'', jint (su_failed c)),
            (''failures'', JArr (su_failures c)), (''results'', JArr (su_results c))], w'))"

section \<open>Methods of the daemon itself\<close>

definition h_ping :: "'w env \<Rightarrow> 'w daemon_handler" where
  "h_ping e rid params s = (success rid [(''name'', JStr ''ecatd''), (''version'', JStr ''0.1.0''),
     (''multiMaster'', JBool True), (''uptimeMs'', jint (e_uptime e (d_world s))),
     (''requestCount'', jint (sint (d_requestCount s))), (''errorCount'', jint (sint (d_errorCount s))),
     (''activeConnections'', jint (d_activeConnections s))], s)"

definition h_rtTestStart :: "'w env \<Rightarrow> 'w daemon_handler" where
  \<comment> \<open>\<open>Terminated\<close> ends the process: no answer is sent\<close>
  "h_rtTestStart e rid params s =
     (case fr_masterIndex params of
        Inl err \<Rightarrow> (failure rid err, s)
      | Inr masterIndex \<Rightarrow>
          let cycleUsec = to_int_def 1000 (jfind params ''cycleUsec'');
              clampedCycleUsec = max 500 (min 1000000 cycleUsec);
              (out, calls, t) = rt_start (e_rt e (d_world s)) masterIndex clampedCycleUsec (d_rtTest s)
          in case out of
               Started \<Rightarrow> (success rid (rt_telemetry t), s\<lparr>d_rtTest := t\<rparr>)
             | Refused err \<Rightarrow> (failure rid err, s\<lparr>d_rtTest := t\<rparr>)
             | Terminated \<Rightarrow> (failure rid [], s\<lparr>d_rtTest := t, d_dead := True\<rparr>))"

definition h_rtTestStop :: "'w daemon_handler" where
  "h_rtTestStop rid params s =
     (let (calls, t) = rt_stop (d_rtTest s) in (success rid (rt_telemetry t), s\<lparr>d_rtTest := t\<rparr>))"

definition h_rtTestStatus :: "'w daemon_handler" where
  "h_rtTestStatus rid params s = (success rid (rt_telemetry (d_rtTest s)), s)"

definition h_alEventClear :: "'w daemon_handler" where
  "h_alEventClear rid params s = (success rid [], s\<lparr>d_al := clear (d_al s)\<rparr>)"

definition install_backend :: "bool \<Rightarrow> 'w daemon \<Rightarrow> 'w daemon" where
  \<comment> \<open>the backend is replaced and the EoE, redundancy and online change handlers are made anew\<close>
  "install_backend nat_backend s = s\<lparr>d_native := nat_backend, d_red := [], d_oc := oc_init\<rparr>"

definition setBackendMode :: "'w env \<Rightarrow> string \<Rightarrow> 'w daemon \<Rightarrow> 'w daemon" where
  "setBackendMode e mode s0 =
     (let s = s0\<lparr>d_backendMode := mode\<rparr>
      in if mode = ''cli'' then (if isNative (backend e s) then install_backend False s else s)
         else if mode = ''native'' then
           (if \<not> isNative (backend e s) \<and> e_haveIgh e then install_backend True s else s)
         else if e_haveIgh e then
           (let (checks, err, w) = hostDiagnostics (e_native e) (d_world s); s1 = s\<lparr>d_world := w\<rparr>
            in if stored [] err = [] then install_backend True s1 else s1)
         else s)"

definition backend_json :: "'w env \<Rightarrow> 'w daemon \<Rightarrow> jobject" where
  "backend_json e s = [(''backend'', JStr (if isNative (backend e s) then ''native'' else ''cli'')),
     (''mode'', JStr (d_backendMode s))]"

definition h_setBackend :: "'w env \<Rightarrow> 'w daemon_handler" where
  "h_setBackend e rid params s =
     (let s' = setBackendMode e (to_string_def ''auto'' (jfind params ''mode'')) s in (success rid (backend_json e s'), s'))"

definition h_getBackend :: "'w env \<Rightarrow> 'w daemon_handler" where
  "h_getBackend e rid params s = (success rid (backend_json e s), s)"

definition h_signalSubscribe :: "signal_handler handler" where
  "h_signalSubscribe rid p sg =
     (let (ch, sg') = subscribe (to_string (jfind p ''name'')) (to_int (jfind p ''slave''))
            (to_string (jfind p ''index'')) (to_string (subIndexFromJson p)) sg
      in (success rid [(''channelId'', jint ch)], sg'))"

definition h_signalUnsubscribe :: "signal_handler handler" where
  "h_signalUnsubscribe rid p sg = (success rid [], unsubscribe (to_int (jfind p ''channelId'')) sg)"

section \<open>Methods of the handler objects\<close>

abbreviation on_freeRun :: "(free_run \<times> 'w) handler \<Rightarrow> 'w daemon_handler" where
  "on_freeRun h \<equiv> focus (\<lambda>s. (d_freeRun s, d_world s)) (\<lambda>(x, w) s. s\<lparr>d_freeRun := x, d_world := w\<rparr>) (\<lambda>s. h)"

definition pure_part :: "'x handler \<Rightarrow> ('x \<times> 'w) handler" where
  \<comment> \<open>a handler that does not look at the world\<close>
  "pure_part h rid params xw = (let (r, x) = h rid params (fst xw) in (r, x, snd xw))"

definition h_freeRunStart :: "'w env \<Rightarrow> 'w daemon_handler" where
  "h_freeRunStart e rid params s = on_freeRun
     (freeRunStart (hs_proc (e_host e)) (e_unfinished e) (e_fr e (d_world s)) 1000000 (e_real_text e)) rid params s"

definition on_dc :: "'w env \<Rightarrow> ('w proc \<Rightarrow> 'w ecat_service option \<Rightarrow> (dc_sync \<times> 'w) handler) \<Rightarrow> 'w daemon_handler" where
  "on_dc e h = focus (\<lambda>s. (d_dc s, d_world s)) (\<lambda>(x, w) s. s\<lparr>d_dc := x, d_world := w\<rparr>)
     (\<lambda>s. h (hs_proc (e_host e)) (Some (backend e s)))"

definition on_red :: "'w env \<Rightarrow> red_request \<Rightarrow> 'w daemon_handler" where
  "on_red e q = focus (\<lambda>s. (d_red s, d_world s)) (\<lambda>(x, w) s. s\<lparr>d_red := x, d_world := w\<rparr>)
     (\<lambda>s. red_handle (e_host e) (Some (backend e s)) q)"

definition on_oc :: "('w ecat_service option \<Rightarrow> (online_change \<times> 'w) handler) \<Rightarrow> 'w env \<Rightarrow> 'w daemon_handler" where
  "on_oc h e = focus (\<lambda>s. (d_oc s, d_world s)) (\<lambda>(x, w) s. s\<lparr>d_oc := x, d_world := w\<rparr>)
     (\<lambda>s. h (Some (backend e s)))"

abbreviation on_al :: "al_handler handler \<Rightarrow> 'w daemon_handler" where
  "on_al h \<equiv> focus d_al (\<lambda>x s. s\<lparr>d_al := x\<rparr>) (\<lambda>s. h)"

abbreviation on_signals :: "signal_handler handler \<Rightarrow> 'w daemon_handler" where
  "on_signals h \<equiv> focus d_signals (\<lambda>x s. s\<lparr>d_signals := x\<rparr>) (\<lambda>s. h)"

section \<open>The table\<close>

definition bus_methods :: "'w env \<Rightarrow> (string \<times> 'w daemon_handler) list" where
  "bus_methods e = [(''ping'', h_ping e), (''hostDiagnostics'', on_backend e h_hostDiagnostics),
     (''master'', on_backend e h_master), (''scan'', on_backend e h_scan), (''rescan'', on_backend e h_rescan),
     (''slaveInfo'', on_backend e h_slaveInfo), (''pdos'', on_backend e h_pdos), (''sdos'', on_backend e h_sdos),
     (''xml'', on_backend e h_xml), (''upload'', on_backend e h_upload), (''download'', on_backend e h_download),
     (''applyStartupSdos'', on_backend e h_applyStartupSdos), (''setState'', on_backend e h_setState),
     (''setAllStates'', on_backend e h_setAllStates)]"

definition cycle_methods :: "'w env \<Rightarrow> (string \<times> 'w daemon_handler) list" where
  "cycle_methods e = [(''freeRunStart'', h_freeRunStart e), (''freeRunStop'', on_freeRun (pure_part freeRunStop)),
     (''freeRunStatus'', on_freeRun (pure_part (freeRunStatus (e_real_text e)))),
     (''freeRunShmInfo'', on_freeRun (pure_part freeRunShmInfo)),
     (''rtTestStart'', h_rtTestStart e), (''rtTestStop'', h_rtTestStop), (''rtTestStatus'', h_rtTestStatus),
     (''dcSyncStatus'', on_dc e handle_dc), (''dcConfigure'', on_dc e (\<lambda>proc. handleDcConfigure proc (e_xml e))),
     (''dcActivate'', on_dc e handleDcActivate), (''dcDeactivate'', on_dc e (\<lambda>proc bk. handleDcDeactivate))]"

definition device_methods :: "'w env \<Rightarrow> (string \<times> 'w daemon_handler) list" where
  "device_methods e = (let proc = hs_proc (e_host e) in
     [(''alEventLog'', on_al handle_al), (''alEventClear'', h_alEventClear),
     (''listAdapters'', on_world (\<lambda>s. handleList proc (e_sys e))),
     (''setAdapter'', on_world (\<lambda>s. handleSet proc (e_sys e))),
     (''foeRead'', on_world (\<lambda>s. handleFoeRead proc (e_files e))),
     (''foeWrite'', on_world (\<lambda>s. handleFoeWrite proc (e_files e))),
     (''soeRead'', on_world (\<lambda>s. handleSoeRead proc)), (''soeWrite'', on_world (\<lambda>s. handleSoeWrite proc)),
     (''eoeStatus'', on_backend e (\<lambda>b. handleEoeStatus (Some b))),
     (''eoeConfigureIp'', on_backend e (\<lambda>b. handleEoeConfigureIp (Some b))),
     (''eoeGetIp'', on_backend e (\<lambda>b. handleEoeGetIp (Some b))),
     (''eoeStats'', on_backend e (\<lambda>b. handleEoeStats (Some b)))])"

definition system_methods :: "'w env \<Rightarrow> (string \<times> 'w daemon_handler) list" where
  "system_methods e = [(''redundancyStatus'', on_red e RedStatus), (''redundancyEnable'', on_red e RedEnable),
     (''redundancyDisable'', on_red e RedDisable), (''redundancyFailover'', on_red e RedFailover),
     (''redundancyFailback'', on_red e RedFailback), (''redundancyHistory'', on_red e RedHistory),
     (''onlineChangePreview'', on_oc (\<lambda>bk. oc_handlePreview) e), (''onlineChangeApply'', on_oc oc_handleApply e),
     (''onlineChangeStatus'', on_oc (\<lambda>bk. oc_handleStatus) e),
     (''setBackend'', h_setBackend e), (''getBackend'', h_getBackend e),
     (''signalPoll'', on_signals handlePoll), (''signalSubscribe'', on_signals h_signalSubscribe),
     (''signalUnsubscribe'', on_signals h_signalUnsubscribe)]"

definition setupHandlers :: "'w env \<Rightarrow> (string \<times> 'w daemon_handler) list" where
  "setupHandlers e = bus_methods e @ cycle_methods e @ device_methods e @ system_methods e"

definition dispatcher :: "'w env \<Rightarrow> 'w daemon table" where
  "dispatcher e = register_all (setupHandlers e) Map.empty"

section \<open>Every method meets the contract of a handler\<close>

lemma is_success_jset:
  "is_success rid r \<Longrightarrow> k \<noteq> ''id'' \<Longrightarrow> k \<noteq> ''ok'' \<Longrightarrow> k \<noteq> ''result'' \<Longrightarrow> is_success rid (JObj (jset k v (to_object r)))"
  by (simp add: is_success_def)

lemma well_formed_with_fallback:
  assumes "well_formed_response rid (fst res)"
  shows "well_formed_response rid (fst (with_fallback svc res))"
proof (cases res)
  case (Pair r w)
  show ?thesis
  proof (cases "ok_of r \<and> isNative svc \<and> lastOperationWasFallback svc w")
    case True
    then have "is_success rid r" using assms ok_of_iff Pair by auto
    then have "is_success rid (JObj (jset ''backend'' b (to_object r)))" for b
      by (rule is_success_jset) simp_all
    then have "is_success rid (JObj (jset ''reason'' a (to_object (JObj (jset ''backend'' b (to_object r))))))" for a b
      by (rule is_success_jset) simp_all
    with True Pair show ?thesis by (simp add: with_fallback_def well_formed_response_def)
  next
    case False
    with assms Pair show ?thesis by (auto simp: with_fallback_def)
  qed
qed

lemma well_formed_answers [simp]:
  "well_formed_response rid (fst (answer_text rid k res))" "well_formed_response rid (fst (answer_flag rid res'))"
  by (simp_all add: answer_text_def answer_flag_def case_prod_beta)

lemmas bus_handler_defs = h_hostDiagnostics_def h_master_def h_scan_def h_rescan_def h_slaveInfo_def h_pdos_def
  h_sdos_def h_xml_def h_upload_def h_download_def h_setState_def h_setAllStates_def h_applyStartupSdos_def

lemma bus_handlers:
  "rpc_handler (h_hostDiagnostics svc)" "rpc_handler (h_master svc)" "rpc_handler (h_scan svc)"
  "rpc_handler (h_rescan svc)" "rpc_handler (h_slaveInfo svc)" "rpc_handler (h_pdos svc)"
  "rpc_handler (h_sdos svc)" "rpc_handler (h_xml svc)" "rpc_handler (h_upload svc)"
  "rpc_handler (h_download svc)" "rpc_handler (h_applyStartupSdos svc)" "rpc_handler (h_setState svc)"
  "rpc_handler (h_setAllStates svc)"
  by (simp_all add: rpc_handler_def bus_handler_defs case_prod_beta Let_def well_formed_with_fallback)


lemma pure_part_handler: "rpc_handler h \<Longrightarrow> rpc_handler (pure_part h)"
  by (simp add: rpc_handler_def pure_part_def case_prod_beta Let_def)

lemma free_run_handlers:
  "rpc_handler (freeRunStart proc unf a cyc rt)" "rpc_handler freeRunStop" "rpc_handler (freeRunStatus rt)"
  "rpc_handler freeRunShmInfo"
  by (simp_all add: rpc_handler_def freeRunStart_def freeRunStop_def freeRunStatus_def freeRunShmInfo_def
      case_prod_beta Let_def split: sum.split start_outcome.split)

lemma own_handlers:
  "rpc_handler (h_ping e)" "rpc_handler (h_rtTestStart e)" "rpc_handler h_rtTestStop" "rpc_handler h_rtTestStatus"
  "rpc_handler h_alEventClear" "rpc_handler (h_setBackend e)" "rpc_handler (h_getBackend e)"
  "rpc_handler h_signalSubscribe" "rpc_handler h_signalUnsubscribe"
  by (simp_all add: rpc_handler_def h_ping_def h_rtTestStart_def h_rtTestStop_def h_rtTestStatus_def
      h_alEventClear_def h_setBackend_def h_getBackend_def h_signalSubscribe_def h_signalUnsubscribe_def
      case_prod_beta Let_def split: sum.split start_outcome.split)

lemma h_freeRunStart_handler: "rpc_handler (h_freeRunStart e)"
  unfolding rpc_handler_def h_freeRunStart_def focus_def
  by (simp add: case_prod_beta Let_def rpc_handler.echoes [OF free_run_handlers(1)])

lemma on_red_handler: "rpc_handler (on_red e q)"
  unfolding on_red_def by (rule focus_handler) (rule red_rpc.rpc_handler_axioms)

lemmas part_handlers = al_handle.rpc_handler_axioms signal_poll.rpc_handler_axioms red_rpc.rpc_handler_axioms
  oc_preview.rpc_handler_axioms oc_apply.rpc_handler_axioms oc_status.rpc_handler_axioms
  eoe_status.rpc_handler_axioms eoe_configure.rpc_handler_axioms eoe_get.rpc_handler_axioms eoe_stats.rpc_handler_axioms
  soe_read.rpc_handler_axioms soe_write.rpc_handler_axioms foe_read.rpc_handler_axioms foe_write.rpc_handler_axioms
  dc_handle.rpc_handler_axioms dc_configure.rpc_handler_axioms dc_activate.rpc_handler_axioms
  dc_deactivate.rpc_handler_axioms adapter_list.rpc_handler_axioms adapter_set.rpc_handler_axioms

lemma all_methods: "list_all (\<lambda>p. rpc_handler (snd p)) (setupHandlers e)"
  by (simp add: setupHandlers_def bus_methods_def cycle_methods_def device_methods_def system_methods_def Let_def
      on_dc_def on_oc_def on_red_handler own_handlers h_freeRunStart_handler
      focus_handler bus_handlers pure_part_handler free_run_handlers part_handlers)

lemma registered_methods: "dispatcher e m = Some h \<Longrightarrow> rpc_handler h"
proof -
  assume "dispatcher e m = Some h"
  then have "h \<in> ran (dispatcher e)" by (rule ranI)
  then have "h \<in> snd ` set (setupHandlers e)"
    using register_all_ran unfolding dispatcher_def by fastforce
  then show ?thesis using all_methods [of e] by (auto simp: list_all_iff)
qed

interpretation daemon_table: rpc_table "dispatcher e" for e
  by (rule rpc_table.intro) (rule registered_methods)

section \<open>Properties\<close>

text \<open>
  A tool that fails without a word is taken for one that succeeded: when \<open>ethercat\<close> exits
  with a failure code and nothing on either channel, scans, texts and uploads are answered with a success,
  the scan with an empty slave list.
\<close>

definition text_methods :: "('w ecat_service \<Rightarrow> 'w handler) list" where
  "text_methods = [h_master, h_scan, h_slaveInfo, h_pdos, h_sdos, h_xml, h_upload]"

theorem silent_failure_is_success:
  assumes "\<And>args w. \<exists>w'. proc ''ethercat'' args w = (outcome.Exited code [] err, w')"
    and "code \<noteq> 0" and "trimmed err = []" and "h \<in> set text_methods"
  shows "is_success rid (fst (h (cli_service proc diag) rid params w))
    \<and> fst (h_scan (cli_service proc diag) rid params w) = success rid [(''slaves'', JArr [])]"
proof -
  have "\<exists>w'. run proc master args w = ([], code, [], w')" for master args w
    using assms(1) [of "scoped_args master args" w] assms(3) by (auto simp: run_def)
  then have r: "\<exists>w'. cli_text proc master args w = ([], Some [], w')" "\<exists>w'. cli_scanSlaves proc master w = ([], Some [], w')"
    for master args w
    using assms(2) by (auto simp: cli_text_def cli_scanSlaves_def Let_def split: prod.splits) (metis prod.inject)+
  have t: "fst (cli_text proc master args w) = [] \<and> fst (snd (cli_text proc master args w)) = Some []"
    "fst (cli_scanSlaves proc master w) = [] \<and> fst (snd (cli_scanSlaves proc master w)) = Some []" for master args w
    using r(1) [of master args w] r(2) [of master w] by auto
  have a: "is_success rid (fst (answer_text rid k res))" if "fst (snd res) = Some []" for k and res :: "string \<times> string option \<times> 'a"
    using that by (simp add: answer_text_def case_prod_beta)
  have f: "with_fallback (cli_service proc diag) res = res" for res :: "json \<times> 'a"
    by (simp add: with_fallback_def case_prod_beta)
  have "is_success rid (fst (h_scan (cli_service proc diag) rid params w))"
    "fst (h_scan (cli_service proc diag) rid params w) = success rid [(''slaves'', JArr [])]"
    using t(2) [of "requestedMaster params" w] by (simp_all add: h_scan_def case_prod_beta Let_def slaves_to_json_def)
  moreover have "is_success rid (fst (h_upload (cli_service proc diag) rid params w))"
    unfolding h_upload_def by (rule a) (simp add: cli_upload_def case_prod_beta Let_def t)
  moreover have "is_success rid (fst (h (cli_service proc diag) rid params w))"
    if "h \<in> {h_master, h_slaveInfo, h_pdos, h_sdos, h_xml}"
    using that by (auto simp: h_master_def h_slaveInfo_def h_pdos_def h_sdos_def h_xml_def f cli_masterText_def
        cli_slaveInfo_def cli_pdos_def cli_sdos_def cli_slaveXml_def intro!: a t [THEN conjunct2])
  ultimately show ?thesis using assms(4) by (auto simp: text_methods_def)
qed

definition mute_tool :: "unit proc" where
  "mute_tool program args w = (outcome.Exited 1 [] [], w)"

theorem silent_failure_is_success_witness:
  "fst (h_scan (cli_service mute_tool (\<lambda>w. ([], None, w))) ''1'' [] ()) = success ''1'' [(''slaves'', JArr [])]"
  using silent_failure_is_success [of mute_tool 1 "[]" h_scan "''1''" "\<lambda>w. ([], None, w)" "[]" "()"]
  by (simp add: mute_tool_def text_methods_def)


section \<open>Startup SDOs\<close>

fun downloads :: "'w ecat_service \<Rightarrow> string \<Rightarrow> jobject list \<Rightarrow> 'w \<Rightarrow> (bool \<times> string option) list \<times> 'w" where
  \<comment> \<open>the outcomes of downloading the items in order\<close>
  "downloads svc master [] w = ([], w)"
| "downloads svc master (item # items) w =
     (let (flag, err, w1) = download svc master (position_of item) (to_string (jfind item ''index''))
            (to_string (subIndexFromJson item)) (to_string (jfind item ''value'')) (to_string (jfind item ''type'')) w;
          (outs, w2) = downloads svc master items w1
      in ((flag, err) # outs, w2))"

definition startup_result :: "int \<times> jobject \<times> bool \<times> string option \<Rightarrow> json" where
  "startup_result x = (case x of (row, item, flag, err) \<Rightarrow>
     if flag then startup_ok row item
     else JObj (startup_fail row item (stored [] err) @ [(''ok'', JBool False)]))"

lemma jset_ok_fail: "jset ''ok'' b (startup_fail row item err) = startup_fail row item err @ [(''ok'', b)]"
  by (simp add: startup_fail_def)

lemma length_downloads: "length (fst (downloads svc m items w)) = length items"
  by (induction items arbitrary: w) (simp_all add: case_prod_beta Let_def)

lemma apply_items_downloads:
  "apply_items svc m row vs c w = (let (outs, w') = downloads svc m (map to_object vs) w;
      rows = zip (map (\<lambda>k. row + int k) [0..<length vs]) (zip (map to_object vs) outs)
    in (\<lparr>su_applied = su_applied c + int (length (filter fst outs)),
         su_failed = su_failed c + int (length (filter (\<lambda>o1. \<not> fst o1) outs)),
         su_failures = su_failures c @ map (\<lambda>(r, item, o1). JObj (startup_fail r item (stored [] (snd o1))))
           (filter (\<lambda>(r, item, o1). \<not> fst o1) rows),
         su_results = su_results c @ map startup_result rows\<rparr>, w'))"
proof (induction vs arbitrary: row c w)
  case Nil
  then show ?case by simp
next
  case (Cons v vs)
  obtain flag err w1 where d: "download svc m (position_of (to_object v)) (to_string (jfind (to_object v) ''index''))
      (to_string (subIndexFromJson (to_object v))) (to_string (jfind (to_object v) ''value''))
      (to_string (jfind (to_object v) ''type'')) w = (flag, err, w1)" by (metis prod_cases3)
  obtain outs w2 where ds: "downloads svc m (map to_object vs) w1 = (outs, w2)" by fastforce
  have "map (\<lambda>k. row + int k) [0..<length (v # vs)] = row # map (\<lambda>k. (row + 1) + int k) [0..<length vs]"
    unfolding length_Cons upt_conv_Cons [OF zero_less_Suc] by (simp add: map_Suc_upt [symmetric] comp_def del: upt_Suc)
  then show ?case
    using Cons.IH [of "row + 1" _ w1]
    by (cases flag) (simp_all add: d ds Let_def startup_result_def jset_ok_fail del: upt_Suc)
qed

text \<open>
  Claim C13 (functional). The startup list is applied in order, one download per item whatever fails before it:
  the answer has one result per item with its row, success or error of that download, counts that add up to
  the number of items, and the failed rows once more as failures; it is a success even if all fail.
\<close>

theorem startup_sdos_account_for_every_item:
  "\<exists>outs w'. downloads svc (requestedMaster params) (map to_object (to_array (jfind params ''items''))) w = (outs, w')
    \<and> (let items = map to_object (to_array (jfind params ''items''));
           rows = zip (map int [0..<length items]) (zip items outs);
           good = length (filter fst outs); bad = length (filter (\<lambda>o1. \<not> fst o1) outs)
       in h_applyStartupSdos svc rid params w = (success rid [(''applied'', jnat good), (''failed'', jnat bad),
            (''failures'', JArr (map (\<lambda>(r, item, o1). JObj (startup_fail r item (stored [] (snd o1))))
               (filter (\<lambda>(r, item, o1). \<not> fst o1) rows))),
            (''results'', JArr (map startup_result rows))], w')
        \<and> good + bad = length items \<and> length rows = length items)"
proof -
  let ?items = "map to_object (to_array (jfind params ''items''))"
  obtain outs w' where d: "downloads svc (requestedMaster params) ?items w = (outs, w')" by fastforce
  have len: "length outs = length ?items" using length_downloads [of svc _ ?items w] d by (metis fst_conv)
  have "length (filter fst outs) + length (filter (\<lambda>o1. \<not> fst o1) outs) = length ?items"
    using sum_length_filter_compl [of fst outs] len by simp
  with d len show ?thesis
    by (intro exI [of _ outs] exI [of _ w'])
       (simp add: h_applyStartupSdos_def apply_items_downloads Let_def jnat_def)
qed

end
