(* ===== verification/EcatDaemon.thy ===== *)
theory EcatDaemon
  imports DaemonMethods LineReader
begin

text \<open>
  The daemon around its methods (\<^verbatim>\<open>apps/ecatd/EcatDaemon.cpp\<close>): connections with their read buffers, the
  framing of requests, dispatch and answer, the two timers. Sockets are numbers, each used for one
  connection. The step relation interleaves the socket events with the timers, the loops of the two
  real-time threads and a client's writes to the mapping; its invariant is the conjunction of the
  components' invariants.
\<close>

section \<open>Connections and requests\<close>

definition kMaxSocketBuffer :: nat where "kMaxSocketBuffer = 1048576"

definition send :: "'w env \<Rightarrow> nat \<Rightarrow> json \<Rightarrow> 'w daemon \<Rightarrow> 'w daemon" where
  "send e sock response s = s\<lparr>d_out := d_out s @ [Reply sock response (encode (e_compact e) response)]\<rparr>"

definition handle :: "'w env \<Rightarrow> nat \<Rightarrow> jobject \<Rightarrow> 'w daemon \<Rightarrow> 'w daemon" where
  \<comment> \<open>nothing follows a method that ended the process\<close>
  "handle e sock req s =
     (let (response, s') = dispatch (dispatcher e) req (s\<lparr>d_requestCount := d_requestCount s + 1\<rparr>)
      in if d_dead s' then s'
         else send e sock response (if ok_of response then s' else s'\<lparr>d_errorCount := d_errorCount s' + 1\<rparr>))"

definition handleLine :: "'w env \<Rightarrow> nat \<Rightarrow> string \<Rightarrow> 'w daemon \<Rightarrow> 'w daemon" where
  "handleLine e sock line s =
     (if d_dead s then s
      else case e_parse e line of
          None \<Rightarrow> send e sock (proto_failure [] ''Invalid JSON request'' (- 1)) s
        | Some req \<Rightarrow> handle e sock req s)"

definition acceptClient :: "nat \<Rightarrow> 'w daemon \<Rightarrow> 'w daemon" where
  "acceptClient sock s = s\<lparr>d_buffers := (d_buffers s)(sock \<mapsto> []), d_activeConnections := d_activeConnections s + 1\<rparr>"

definition onDisconnected :: "nat \<Rightarrow> 'w daemon \<Rightarrow> 'w daemon" where
  "onDisconnected sock s = s\<lparr>d_buffers := (d_buffers s)(sock := None), d_activeConnections := d_activeConnections s - 1\<rparr>"

definition feedClient :: "'w env \<Rightarrow> nat \<Rightarrow> string \<Rightarrow> string \<times> 'w daemon \<Rightarrow> string \<times> 'w daemon" where
  \<comment> \<open>the buffer of the socket and the rest of the state\<close>
  "feedClient e sock chunk bs = (case bs of (buf, s) \<Rightarrow>
     (let buffer = buf @ chunk
      in if kMaxSocketBuffer < length buffer then
           (buffer, let s' = send e sock (proto_failure [] ''Request frame too large'' (- 1)) s
                    in s'\<lparr>d_out := d_out s' @ [CloseSocket sock]\<rparr>)
         else read_loop (handleLine e sock) buffer s))"

definition readClient :: "'w env \<Rightarrow> nat \<Rightarrow> string \<Rightarrow> 'w daemon \<Rightarrow> 'w daemon" where
  "readClient e sock chunk s =
     (let buf = (case d_buffers s sock of None \<Rightarrow> [] | Some b \<Rightarrow> b);
          (rest, s') = feedClient e sock chunk (buf, s)
      in s'\<lparr>d_buffers := (d_buffers s')(sock \<mapsto> rest)\<rparr>)"

subsection \<open>When a write fails\<close>

text \<open>
  \<open>send\<close> above is a write that goes through. A \<^verbatim>\<open>flush()\<close> that fails aborts the socket, and its \<^verbatim>\<open>disconnected\<close>
  signal runs the lambda of \<open>acceptClient\<close> at once: the buffer that \<open>readClient\<close> holds a reference to is removed
  from the table, and the loop goes on to use it. \<open>serveClient\<close> is \<open>readClient\<close> with the outcome of each of its
  writes as an argument, \<open>wr k\<close> for the \<open>k\<close>th; it stops where the code has no defined behaviour any more.
\<close>

datatype read_end =
    ReadDone
  | ProcessEnded \<comment> \<open>a method ended the process\<close>
  | BufferFreed \<comment> \<open>a write failed, and the loop refers to a buffer that is gone\<close>

definition serveLine :: "'w env \<Rightarrow> string \<Rightarrow> 'w daemon \<Rightarrow> json option \<times> 'w daemon" where
  \<comment> \<open>the response to write; none when the method ended the process\<close>
  "serveLine e line s = (case e_parse e line of
      None \<Rightarrow> (Some (proto_failure [] ''Invalid JSON request'' (- 1)), s)
    | Some req \<Rightarrow>
        let (response, s') = dispatch (dispatcher e) req (s\<lparr>d_requestCount := d_requestCount s + 1\<rparr>)
        in if d_dead s' then (None, s')
           else (Some response, if ok_of response then s' else s'\<lparr>d_errorCount := d_errorCount s' + 1\<rparr>))"

function serveLoop :: "'w env \<Rightarrow> nat \<Rightarrow> (nat \<Rightarrow> bool) \<Rightarrow> string \<Rightarrow> 'w daemon \<Rightarrow> read_end \<times> string \<times> 'w daemon" where
  "serveLoop e sock wr buf s =
     (case index_of [newline] buf of
        None \<Rightarrow> (ReadDone, buf, s)
      | Some n \<Rightarrow>
          (case serveLine e (take n buf) s of
             (None, s') \<Rightarrow> (ProcessEnded, drop (n + 1) buf, s')
           | (Some response, s') \<Rightarrow>
               if wr 0 then serveLoop e sock (\<lambda>k. wr (Suc k)) (drop (n + 1) buf) (send e sock response s')
               else (BufferFreed, drop (n + 1) buf, onDisconnected sock s')))"
  by pat_completeness auto

termination
  by (relation "measure (\<lambda>(e, sock, wr, buf, s). length buf)") (auto dest: index_of_newline_less)

declare serveLoop.simps [simp del]

lemma serveLoop_line:
  assumes "newline \<notin> set l"
  shows "serveLoop e sock wr (l @ newline # rest) s = (case serveLine e l s of
      (None, s') \<Rightarrow> (ProcessEnded, rest, s')
    | (Some response, s') \<Rightarrow> if wr 0 then serveLoop e sock (\<lambda>k. wr (Suc k)) rest (send e sock response s')
        else (BufferFreed, rest, onDisconnected sock s'))"
proof -
  have "drop (length l + 1) (l @ newline # rest) = rest" by simp
  then show ?thesis
    by (subst serveLoop.simps) (simp add: index_of_newline_split [OF assms] split: option.split prod.split del: drop_append)
qed

definition serveClient :: "'w env \<Rightarrow> nat \<Rightarrow> (nat \<Rightarrow> bool) \<Rightarrow> string \<Rightarrow> 'w daemon \<Rightarrow> read_end \<times> 'w daemon" where
  "serveClient e sock wr chunk s =
     (let buffer = (case d_buffers s sock of None \<Rightarrow> [] | Some b \<Rightarrow> b) @ chunk
      in if kMaxSocketBuffer < length buffer then
           (ReadDone, if wr 0 then (let s' = send e sock (proto_failure [] ''Request frame too large'' (- 1)) s
                                    in s'\<lparr>d_out := d_out s' @ [CloseSocket sock], d_buffers := (d_buffers s)(sock \<mapsto> buffer)\<rparr>)
                      else onDisconnected sock s)
         else (case serveLoop e sock wr buffer s of
             (ReadDone, rest, s') \<Rightarrow> (ReadDone, s'\<lparr>d_buffers := (d_buffers s')(sock \<mapsto> rest)\<rparr>)
           | (fin, rest, s') \<Rightarrow> (fin, s')))"

interpretation daemon_reader: line_reader "feedClient e sock" "handleLine e sock" "Some kMaxSocketBuffer" for e sock
  by unfold_locales (simp add: feedClient_def Let_def)

section \<open>The timers\<close>

definition alPoll :: "'w env \<Rightarrow> 'w daemon \<Rightarrow> 'w daemon" where
  "alPoll e s =
     (let (output, w) = runCommand (hs_proc (e_host e)) ''ethercat slaves'' (d_world s)
      in s\<lparr>d_al := poll (hs_clock (e_host e) w) output (d_al s), d_world := w\<rparr>)"

definition dcPoll :: "nat \<Rightarrow> nat \<Rightarrow> 'w daemon \<Rightarrow> 'w daemon" where
  \<comment> \<open>the reference clock's time and the maximal difference are what the master answers\<close>
  "dcPoll refTime maxDiff s =
     (if fr_running (d_freeRun s)
      then s\<lparr>d_dc := snd (dc_update (fr_master (d_freeRun s)) (int (length (fr_slaves (d_freeRun s)))) refTime maxDiff (d_dc s))\<rparr>
      else s)"

section \<open>What a method leaves alone and what it keeps\<close>

definition io :: "'w daemon \<Rightarrow> u64 \<times> u64 \<times> int \<times> (nat \<rightharpoonup> string) \<times> daemon_out list" where
  "io s = (d_requestCount s, d_errorCount s, d_activeConnections s, d_buffers s, d_out s)"

definition fr_ok :: "free_run \<Rightarrow> bool" where
  "fr_ok s \<longleftrightarrow> (if fr_running s then fr_live s else fr_idle s)"

definition rt_ok :: "rt_test \<Rightarrow> bool" where
  "rt_ok t \<longleftrightarrow> (rt_running t \<longleftrightarrow> rt_master t) \<and> rt_thread t = (if rt_running t then Looping else NoThread)"

definition signals_ok :: "signal_handler \<Rightarrow> bool" where
  "signals_ok g \<longleftrightarrow> signal_inv g \<and> (\<forall>ch \<in> set (sg_channels g). ch_samples ch = [])"

definition parts_ok :: "'w daemon \<Rightarrow> bool" where
  "parts_ok s \<longleftrightarrow> \<not> d_dead s \<and> fr_ok (d_freeRun s) \<and> rt_ok (d_rtTest s)
     \<and> length (al_events (d_al s)) \<le> kMaxEvents \<and> length (d_red s) \<le> kMaxHistory
     \<and> signals_ok (d_signals s) \<and> d_oc s = oc_init"

locale daemon_frame =
  fixes h :: "string \<Rightarrow> jobject \<Rightarrow> 'w daemon \<Rightarrow> json \<times> 'w daemon"
  assumes leaves_io: "io (snd (h rid params s)) = io s"
begin

lemma frame_fields:
  "d_requestCount (snd (h rid params s)) = d_requestCount s" "d_errorCount (snd (h rid params s)) = d_errorCount s"
  "d_activeConnections (snd (h rid params s)) = d_activeConnections s" "d_buffers (snd (h rid params s)) = d_buffers s"
  "d_out (snd (h rid params s)) = d_out s"
  using leaves_io [of rid params s] by (simp_all add: io_def)

end

locale daemon_method = daemon_frame +
  assumes keeps_parts: "parts_ok s \<Longrightarrow> parts_ok (snd (h rid params s))"
begin

lemma alive_after: "parts_ok s \<Longrightarrow> \<not> d_dead (snd (h rid params s))"
  using keeps_parts by (simp add: parts_ok_def)

end

lemmas daemon_method_laws = daemon_method_def daemon_frame_def daemon_method_axioms_def

lemma method_frame [intro]: "daemon_method h \<Longrightarrow> daemon_frame h"
  by (simp add: daemon_method_def)

lemma put_world_simps [simp]: "io (put_world w s) = io s" "parts_ok (put_world w s) = parts_ok s"
  by (simp_all add: io_def parts_ok_def put_world_def)

lemma on_world_method: "daemon_method (on_world h)"
  by (simp add: daemon_method_laws focus_def case_prod_beta Let_def)

lemma focus_method:
  assumes "\<And>x s. io (put x s) = io s"
    and "\<And>s rid params. parts_ok s \<Longrightarrow> parts_ok (put (snd (h s rid params (get s))) s)"
  shows "daemon_method (focus get put h)"
  using assms by (simp add: daemon_method_laws focus_def case_prod_beta Let_def)

lemma on_dc_method: "daemon_method (on_dc e h)"
  unfolding on_dc_def by (rule focus_method) (simp_all add: io_def parts_ok_def case_prod_beta)

lemma on_red_method: "daemon_method (on_red e q)"
  unfolding on_red_def
proof (rule focus_method)
  fix s :: "'a daemon" and rid params
  assume ok: "parts_ok s"
  then have len: "length (d_red s) \<le> kMaxHistory" by (simp add: parts_ok_def)
  obtain r h w where r: "red_handle (e_host e) (Some (backend e s)) q rid params (d_red s, d_world s) = (r, h, w)"
    by (cases "red_handle (e_host e) (Some (backend e s)) q rid params (d_red s, d_world s)") auto
  have "length h \<le> kMaxHistory"
  proof (cases "red_event_type q")
    case None
    from red_handle_silent [OF this, of "e_host e" "Some (backend e s)" rid params "(d_red s, d_world s)"] r len
    show ?thesis by simp
  next
    case (Some t)
    from red_handle_records [OF this, of "(d_red s, d_world s)" "e_host e" "Some (backend e s)" rid params]
    obtain x w' where "(h, w) = red_append x (d_red s, w')" by (auto simp: records_def r)
    with red_log.ok_push [of "(d_red s, w')" x] len show ?thesis by simp (metis fst_conv)
  qed
  with ok show "parts_ok ((\<lambda>(x, w) s. s\<lparr>d_red := x, d_world := w\<rparr>)
      (snd (red_handle (e_host e) (Some (backend e s)) q rid params (d_red s, d_world s))) s)"
    by (simp add: r parts_ok_def)
qed (simp add: io_def case_prod_beta)


lemma oc_methods:
  "daemon_method (on_oc (\<lambda>bk. oc_handlePreview) e)" "daemon_method (on_oc oc_handleApply e)"
  "daemon_method (on_oc (\<lambda>bk. oc_handleStatus) e)"
  unfolding on_oc_def
  by (rule focus_method; simp add: io_def parts_ok_def case_prod_beta oc_defs oc_init_def Let_def)+

lemma signal_methods:
  "daemon_method (on_signals handlePoll)" "daemon_method (on_signals h_signalSubscribe)"
  "daemon_method (on_signals h_signalUnsubscribe)"
proof -
  have sub: "signals_ok g \<Longrightarrow> signals_ok (snd (subscribe n sl i si g))" for n sl i si g
    using subscribe_inv [of g] by (auto simp: signals_ok_def subscribe_def Let_def)
  have unsub: "signals_ok g \<Longrightarrow> signals_ok (unsubscribe cid g)" for cid g
    using unsubscribe_inv [of g] remove_channel_subset [of cid "sg_channels g"]
    by (auto simp: signals_ok_def unsubscribe_def)
  show "daemon_method (on_signals handlePoll)"
    by (rule focus_method) (simp_all add: io_def parts_ok_def handlePoll_def Let_def)
  show "daemon_method (on_signals h_signalSubscribe)"
    using sub by (intro focus_method) (simp_all add: io_def parts_ok_def h_signalSubscribe_def case_prod_beta Let_def)
  show "daemon_method (on_signals h_signalUnsubscribe)"
    using unsub by (intro focus_method) (simp_all add: io_def parts_ok_def h_signalUnsubscribe_def)
qed

lemma al_methods: "daemon_method (on_al handle_al)" "daemon_method h_alEventClear"
  by (rule focus_method; simp add: io_def parts_ok_def handle_al_def Let_def)
     (simp add: daemon_method_laws h_alEventClear_def io_def parts_ok_def clear_def)

lemma ping_method: "daemon_method (h_ping e)"
  and getBackend_method: "daemon_method (h_getBackend e)"
  and rtTestStatus_method: "daemon_method h_rtTestStatus"
  by (simp_all add: daemon_method_laws h_ping_def h_getBackend_def h_rtTestStatus_def)

lemma setBackend_method: "daemon_method (h_setBackend e)"
  by (simp add: daemon_method_laws h_setBackend_def setBackendMode_def install_backend_def io_def parts_ok_def
      case_prod_beta Let_def kMaxHistory_def)

section \<open>The real-time test\<close>

lemma rt_ok_life: "rt_ok t \<Longrightarrow> rt_life_inv \<lparr>rl_dead = False, rl_held = (if rt_master t then 1 else 0), rl_state = t\<rparr>"
  by (simp add: rt_ok_def rt_life_inv_def)

lemma rt_life_ok: "rt_life_inv l \<Longrightarrow> \<not> rl_dead l \<and> rt_ok (rl_state l)"
  by (auto simp: rt_ok_def rt_life_inv_def)

lemma rt_start_ok:
  assumes "rt_ok t"
  shows "fst (rt_start a m c t) \<noteq> Terminated \<and> rt_ok (snd (snd (rt_start a m c t)))"
  using rt_life_ok [OF rt_life_start [OF rt_ok_life [OF assms], of a m c]] by (simp add: case_prod_beta)

lemma rt_stop_ok: "rt_ok t \<Longrightarrow> rt_ok (snd (rt_stop t))"
  using rt_life_ok [OF rt_life_stop [OF rt_ok_life]] by (fastforce simp: case_prod_beta)

lemma rt_cycle_ok: "rt_ok t \<Longrightarrow> rt_thread t = Looping \<Longrightarrow> rt_ok (rt_cycle 0 now ret t)"
  using rt_life_ok [OF rt_life_cycle [OF rt_ok_life, of t now ret]] by simp

lemma rt_methods: "daemon_method (h_rtTestStart e)" "daemon_method h_rtTestStop"
proof -
  have "parts_ok (snd (h_rtTestStart e rid params s)) \<and> io (snd (h_rtTestStart e rid params s)) = io s"
    if ok: "parts_ok s" for rid params s
  proof (cases "fr_masterIndex params")
    case (Inr m)
    let ?r = "rt_start (e_rt e (d_world s)) m (max 500 (min 1000000 (to_int_def 1000 (jfind params ''cycleUsec'')))) (d_rtTest s)"
    obtain out calls t where r: "?r = (out, calls, t)" by (cases ?r)
    have "out \<noteq> Terminated" "rt_ok t" using rt_start_ok [of "d_rtTest s"] ok r by (auto simp: parts_ok_def) (metis fst_conv snd_conv)+
    with ok Inr r show ?thesis
      by (cases out) (simp_all add: h_rtTestStart_def parts_ok_def io_def)
  qed (use ok in \<open>simp add: h_rtTestStart_def\<close>)
  moreover have "io (snd (h_rtTestStart e rid params s)) = io s" for rid params s
    by (simp add: h_rtTestStart_def io_def case_prod_beta Let_def split: sum.split start_outcome.split)
  ultimately show "daemon_method (h_rtTestStart e)" by (simp add: daemon_method_laws)
  show "daemon_method h_rtTestStop"
    using rt_stop_ok by (simp add: daemon_method_laws h_rtTestStop_def io_def parts_ok_def case_prod_beta Let_def)
qed

section \<open>The free run\<close>

definition covers_entries :: "'w env \<Rightarrow> bool" where
  \<comment> \<open>the domain's image holds every registered entry, in each start \<open>ecrt\<close> grants to an idle controller\<close>
  "covers_entries e \<longleftrightarrow> (\<forall>m s w calls s' w' d. fr_idle s \<longrightarrow>
     fr_start (hs_proc (e_host e)) (e_unfinished e) (e_fr e w) 1000000 m (s, w) = (Started, calls, s', w') \<longrightarrow>
     fa_data (e_fr e w) = Some d \<longrightarrow> image_bytes (fr_mirror s') \<le> length d)"

lemma fr_start_ok:
  assumes "fr_start (hs_proc (e_host e)) (e_unfinished e) (e_fr e w) 1000000 m (s, w) = (out, calls, s', w')"
    and "fr_ok s" and "covers_entries e"
  shows "fr_ok s'"
proof (cases "fr_running s")
  case True
  with assms(1,2) show ?thesis by (auto simp: fr_start_def split: if_splits)
next
  case False
  with assms(2) have idle: "fr_idle s" by (simp add: fr_ok_def)
  obtain r w1 where b: "buildConfiguration (hs_proc (e_host e)) (e_unfinished e) m w = (r, w1)"
    by (cases "buildConfiguration (hs_proc (e_host e)) (e_unfinished e) m w")
  consider "s' = s" | slaves where "fr_acquire (e_fr e w) 1000000 m slaves s = (out, calls, s')"
    using assms(1) False b by (auto simp: fr_start_def split: sum.splits if_splits prod.splits)
  then show ?thesis
  proof cases
    case 1
    with assms(2) show ?thesis by simp
  next
    case 2
    from fr_acquire_result [OF this idle] show ?thesis
    proof
      assume st: "out = Started \<and> fa_master (e_fr e w) \<and> requests calls = 1 \<and> releases calls = 0
        \<and> fr_running_ok m s' \<and> started_tables (e_fr e w) slaves calls s'"
      then have "\<forall>d. fa_data (e_fr e w) = Some d \<longrightarrow> image_bytes (fr_mirror s') \<le> length d"
        using assms(1,3) idle unfolding covers_entries_def by blast
      with st have "fr_live s'" by (auto simp: fr_running_ok_def started_tables_def fr_live_def)
      then show ?thesis by (simp add: fr_ok_def fr_live_running)
    next
      assume "(\<exists>e. out = Refused e) \<and> requests calls = 1 \<and> releases calls = (if fa_master (e_fr e w) then 1 else 0) \<and> fr_idle s'"
      then show ?thesis by (simp add: fr_ok_def fr_idle_def)
    qed
  qed
qed

lemma fr_stop_ok: "fr_ok s \<Longrightarrow> fr_ok (snd (snd (fr_stop s)))"
proof -
  assume "fr_ok s"
  then have "fr_running s \<or> fr_thread s = NoThread" by (auto simp: fr_ok_def fr_idle_def split: if_splits)
  moreover obtain calls m s' where st: "fr_stop s = (calls, m, s')" by (cases "fr_stop s") auto
  ultimately have "fr_idle s'" using fr_stop_result by blast
  with st show ?thesis by (simp add: fr_ok_def fr_idle_def)
qed

lemma fr_turn_ok:
  "fr_ok s \<Longrightarrow> fr_thread s = Looping \<Longrightarrow> \<forall>d. length (ci_receive inp d) = length d \<Longrightarrow> fr_ok (fr_turn inp s)"
  using fr_turn_live [of inp s] by (auto simp: fr_ok_def fr_idle_def fr_live_running split: if_splits)

lemma fr_scribbled_ok:
  assumes "fr_ok s" and "fr_shm s = Some m" and "shm_sized (length (sm_data0 m)) m'"
  shows "fr_ok (s\<lparr>fr_shm := Some m'\<rparr>)"
proof -
  have l: "fr_live s" using assms(1,2) by (auto simp: fr_ok_def fr_idle_def split: if_splits)
  then have "shm_sized (fr_stride s) m'" using assms(2,3) by (auto simp: fr_live_def shm_sized_def)
  with l fr_live_scribbled have "fr_live (s\<lparr>fr_shm := Some m'\<rparr>)" by blast
  then show ?thesis by (simp add: fr_ok_def fr_live_running [OF \<open>fr_live s\<close>])
qed

lemma on_freeRun_method:
  assumes "\<And>rid params x w. fr_ok x \<Longrightarrow> fr_ok (fst (snd (h rid params (x, w))))"
  shows "daemon_method (on_freeRun h)"
  by (rule focus_method) (simp_all add: io_def parts_ok_def case_prod_beta assms)

lemma freeRunStart_frame: "daemon_frame (h_freeRunStart e)"
  by (simp add: daemon_frame_def h_freeRunStart_def focus_def io_def case_prod_beta Let_def)

lemma free_run_parts:
  "daemon_method (on_freeRun (pure_part freeRunStop))" "daemon_method (on_freeRun (pure_part (freeRunStatus rt)))"
  "daemon_method (on_freeRun (pure_part freeRunShmInfo))"
proof -
  show "daemon_method (on_freeRun (pure_part freeRunStop))"
    by (rule on_freeRun_method) (simp add: pure_part_def freeRunStop_def case_prod_beta Let_def fr_stop_ok)
  show "daemon_method (on_freeRun (pure_part (freeRunStatus rt)))" "daemon_method (on_freeRun (pure_part freeRunShmInfo))"
    by (rule on_freeRun_method, simp add: pure_part_def freeRunStatus_def freeRunShmInfo_def)+
qed

lemma freeRunStart_method:
  assumes "covers_entries e"
  shows "daemon_method (h_freeRunStart e)"
proof -
  have "parts_ok (snd (h_freeRunStart e rid params s))" if ok: "parts_ok s" for rid params s
  proof (cases "fr_masterIndex params")
    case (Inr m)
    let ?st = "fr_start (hs_proc (e_host e)) (e_unfinished e) (e_fr e (d_world s)) 1000000 m (d_freeRun s, d_world s)"
    obtain out calls x w where st: "?st = (out, calls, x, w)" by (cases ?st) auto
    have "fr_ok x" using fr_start_ok [OF st _ assms] ok by (simp add: parts_ok_def)
    with ok Inr st show ?thesis
      by (cases out) (simp_all add: h_freeRunStart_def focus_def freeRunStart_def parts_ok_def)
  qed (use ok in \<open>simp add: h_freeRunStart_def focus_def freeRunStart_def parts_ok_def\<close>)
  then show "daemon_method (h_freeRunStart e)"
    using freeRunStart_frame by (simp add: daemon_method_def daemon_method_axioms_def)
qed

section \<open>Dispatch\<close>

lemmas table_defs = setupHandlers_def bus_methods_def cycle_methods_def device_methods_def system_methods_def

lemmas kept_methods = ping_method getBackend_method rtTestStatus_method setBackend_method on_world_method on_dc_method
  on_red_method oc_methods signal_methods al_methods rt_methods free_run_parts

lemma all_daemon_methods: "covers_entries e \<Longrightarrow> list_all (\<lambda>p. daemon_method (snd p)) (setupHandlers e)"
  by (simp add: table_defs Let_def kept_methods freeRunStart_method del: red_handle.simps)

lemma all_daemon_frames: "list_all (\<lambda>p. daemon_frame (snd p)) (setupHandlers e)"
  by (simp add: table_defs Let_def kept_methods [THEN method_frame] freeRunStart_frame del: red_handle.simps)

lemma methods_distinct: "distinct (map fst (setupHandlers e))"
  by (simp add: table_defs Let_def)

lemma dispatched_frame: "dispatcher e m = Some h \<Longrightarrow> daemon_frame h"
proof -
  assume "dispatcher e m = Some h"
  then have "h \<in> snd ` set (setupHandlers e)"
    using register_all_ran [of h "setupHandlers e" Map.empty] ranI [of "dispatcher e" m h] unfolding dispatcher_def by auto
  then show ?thesis using all_daemon_frames [of e] by (auto simp: list_all_iff)
qed

lemma dispatched_method: "covers_entries e \<Longrightarrow> dispatcher e m = Some h \<Longrightarrow> daemon_method h"
proof -
  assume c: "covers_entries e" and "dispatcher e m = Some h"
  then have "h \<in> snd ` set (setupHandlers e)"
    using register_all_ran [of h "setupHandlers e" Map.empty] ranI [of "dispatcher e" m h] unfolding dispatcher_def by auto
  then show ?thesis using all_daemon_methods [OF c] by (auto simp: list_all_iff)
qed

interpretation ping: daemon_method "h_ping e" for e
  by (rule ping_method)

interpretation backend_choice: daemon_method "h_setBackend e" for e
  by (rule setBackend_method)

interpretation free_run_start: daemon_frame "h_freeRunStart e" for e
  by (rule freeRunStart_frame)

interpretation redundancy_method: daemon_method "on_red e q" for e q
  by (rule on_red_method)

lemma dispatch_frame: "io (snd (dispatch (dispatcher e) req s)) = io s"
  using daemon_frame.leaves_io [OF dispatched_frame] by (auto simp: dispatch_def Let_def split: option.split)

lemma dispatch_keeps:
  "covers_entries e \<Longrightarrow> parts_ok s \<Longrightarrow> parts_ok (snd (dispatch (dispatcher e) req s))"
  using daemon_method.keeps_parts [OF dispatched_method] by (auto simp: dispatch_def Let_def split: option.split)

text \<open>Only one method can end the process.\<close>

lemma register_all_from: "register_all hs tab m = Some h \<Longrightarrow> (m, h) \<in> set hs \<or> tab m = Some h"
proof (induction hs arbitrary: tab)
  case (Cons p hs)
  obtain k g where p: "p = (k, g)" by (cases p)
  with Cons.prems have "register_all hs (tab(k \<mapsto> g)) m = Some h" by (simp add: registerHandler_def)
  from Cons.IH [OF this] show ?case by (cases "m = k") (auto simp: p)
qed simp

definition spares :: "'w daemon_handler \<Rightarrow> bool" where
  "spares h \<longleftrightarrow> (\<forall>rid params s. d_dead (snd (h rid params s)) = d_dead s)"

lemma focus_spares: "(\<And>x s. d_dead (put x s) = d_dead s) \<Longrightarrow> spares (focus get put h)"
  by (simp add: spares_def focus_def case_prod_beta Let_def)

lemma sparing_methods:
  "spares (on_world h1)" "spares (on_freeRun h2)" "spares (on_dc e h3)" "spares (on_red e q)" "spares (on_oc h4 e)"
  "spares (on_al h5)" "spares (on_signals h6)" "spares (h_freeRunStart e)" "spares (h_ping e)" "spares h_rtTestStop"
  "spares h_rtTestStatus" "spares h_alEventClear" "spares (h_setBackend e)" "spares (h_getBackend e)"
  unfolding on_dc_def on_red_def on_oc_def
  by (rule focus_spares, simp add: put_world_def case_prod_beta)+
     (simp_all add: spares_def focus_def case_prod_beta Let_def h_freeRunStart_def h_ping_def h_rtTestStop_def
        h_rtTestStatus_def h_alEventClear_def h_setBackend_def setBackendMode_def install_backend_def h_getBackend_def)

lemma all_spare: "list_all (\<lambda>(m, h). m \<noteq> ''rtTestStart'' \<longrightarrow> spares h) (setupHandlers e)"
  by (simp add: table_defs Let_def sparing_methods del: red_handle.simps)

lemma dispatch_death:
  assumes "d_dead (snd (dispatch (dispatcher e) req s))" and "\<not> d_dead s"
  shows "to_string (jfind req ''method'') = ''rtTestStart''"
proof (rule ccontr)
  let ?m = "to_string (jfind req ''method'')"
  assume other: "?m \<noteq> ''rtTestStart''"
  from assms obtain h where h: "dispatcher e ?m = Some h" "d_dead (snd (h (to_string (jfind req ''id'')) (to_object (jfind req ''params'')) s))"
    by (auto simp: dispatch_def Let_def split: option.splits if_splits)
  then have "(?m, h) \<in> set (setupHandlers e)"
    using register_all_from [of "setupHandlers e" Map.empty ?m h] by (simp add: dispatcher_def)
  with all_spare [of e] other have "spares h" by (auto simp: list_all_iff)
  with h(2) assms(2) show False by (simp add: spares_def)
qed

lemma parts_ok_io [simp]:
  "parts_ok (s\<lparr>d_requestCount := n\<rparr>) = parts_ok s" "parts_ok (s\<lparr>d_errorCount := k\<rparr>) = parts_ok s"
  "parts_ok (s\<lparr>d_out := os\<rparr>) = parts_ok s" "parts_ok (s\<lparr>d_buffers := bs\<rparr>) = parts_ok s"
  "parts_ok (s\<lparr>d_activeConnections := c\<rparr>) = parts_ok s" "parts_ok (send e sock r s) = parts_ok s"
  by (simp_all add: parts_ok_def send_def)

lemma handle_parts: "covers_entries e \<Longrightarrow> parts_ok s \<Longrightarrow> parts_ok (handle e sock req s)"
  using dispatch_keeps [of e "s\<lparr>d_requestCount := d_requestCount s + 1\<rparr>" req]
  by (simp add: handle_def case_prod_beta Let_def)

lemma handleLine_parts: "covers_entries e \<Longrightarrow> parts_ok s \<Longrightarrow> parts_ok (handleLine e sock line s)"
  by (auto simp: handleLine_def handle_parts split: option.split)

section \<open>One answer for every line\<close>

definition answers_line :: "'w env \<Rightarrow> nat \<Rightarrow> string \<Rightarrow> json \<Rightarrow> bool" where
  \<comment> \<open>a well-formed response that echoes the request's id, a failure without id for a line that is no object\<close>
  "answers_line e sock line response \<longleftrightarrow> (case e_parse e line of
      None \<Rightarrow> is_failure [] response
    | Some req \<Rightarrow> well_formed_response (to_string (jfind req ''id'')) response)"

definition requests_in :: "'w env \<Rightarrow> string list \<Rightarrow> nat" where
  "requests_in e lines = length (filter (\<lambda>l. e_parse e l \<noteq> None) lines)"

definition failed_in :: "'w env \<Rightarrow> string list \<Rightarrow> json list \<Rightarrow> nat" where
  "failed_in e lines responses = length (filter (\<lambda>(l, r). e_parse e l \<noteq> None \<and> \<not> ok_of r) (zip lines responses))"

definition reply :: "'w env \<Rightarrow> nat \<Rightarrow> json \<Rightarrow> daemon_out" where
  "reply e sock r = Reply sock r (encode (e_compact e) r)"

lemma handleLine_answers:
  assumes "covers_entries e" and "parts_ok s"
  shows "\<exists>r. d_out (handleLine e sock line s) = d_out s @ [reply e sock r] \<and> answers_line e sock line r
    \<and> d_requestCount (handleLine e sock line s) = d_requestCount s + of_nat (requests_in e [line])
    \<and> d_errorCount (handleLine e sock line s) = d_errorCount s + of_nat (failed_in e [line] [r])
    \<and> d_buffers (handleLine e sock line s) = d_buffers s
    \<and> d_activeConnections (handleLine e sock line s) = d_activeConnections s"
proof (cases "e_parse e line")
  case None
  then show ?thesis using assms(2)
    by (intro exI [of _ "proto_failure [] ''Invalid JSON request'' (- 1)"])
       (simp add: handleLine_def parts_ok_def send_def reply_def answers_line_def requests_in_def failed_in_def)
next
  case (Some req)
  let ?s = "s\<lparr>d_requestCount := d_requestCount s + 1\<rparr>"
  obtain r s' where d: "dispatch (dispatcher e) req ?s = (r, s')" by (cases "dispatch (dispatcher e) req ?s")
  from dispatch_frame [where e = e and req = req and s = ?s] dispatch_keeps [OF assms(1), where req = req and s = ?s] d assms(2)
  have k: "io s' = io ?s" "\<not> d_dead s'"
    by (simp_all add: parts_ok_def)
  have w: "well_formed_response (to_string (jfind req ''id'')) r"
    using daemon_table.dispatch_echoes [of req e ?s] d by simp
  show ?thesis
    using k w Some d assms(2)
    by (intro exI [of _ r])
       (auto simp: handleLine_def handle_def parts_ok_def io_def send_def reply_def answers_line_def requests_in_def failed_in_def)
qed

lemma handleLines_answer:
  assumes "covers_entries e" and "parts_ok s"
  shows "\<exists>rs. list_all2 (answers_line e sock) lines rs
    \<and> (let s' = foldl (\<lambda>s line. handleLine e sock line s) s lines in parts_ok s'
    \<and> d_out s' = d_out s @ map (reply e sock) rs
    \<and> d_requestCount s' = d_requestCount s + of_nat (requests_in e lines)
    \<and> d_errorCount s' = d_errorCount s + of_nat (failed_in e lines rs)
    \<and> d_buffers s' = d_buffers s \<and> d_activeConnections s' = d_activeConnections s)"
  using assms(2)
proof (induction lines arbitrary: s)
  case Nil
  then show ?case by (intro exI [of _ "[]"]) (simp add: requests_in_def failed_in_def)
next
  case (Cons line lines)
  from handleLine_answers [OF assms(1) Cons.prems] obtain r where
    r: "d_out (handleLine e sock line s) = d_out s @ [reply e sock r]" "answers_line e sock line r"
    "d_requestCount (handleLine e sock line s) = d_requestCount s + of_nat (requests_in e [line])"
    "d_errorCount (handleLine e sock line s) = d_errorCount s + of_nat (failed_in e [line] [r])"
    "d_buffers (handleLine e sock line s) = d_buffers s"
    "d_activeConnections (handleLine e sock line s) = d_activeConnections s" by blast
  from Cons.IH [OF handleLine_parts [OF assms(1) Cons.prems]] obtain rs where
    rs: "list_all2 (answers_line e sock) lines rs"
    "let s' = foldl (\<lambda>s line. handleLine e sock line s) (handleLine e sock line s) lines in parts_ok s'
    \<and> d_out s' = d_out (handleLine e sock line s) @ map (reply e sock) rs
    \<and> d_requestCount s' = d_requestCount (handleLine e sock line s) + of_nat (requests_in e lines)
    \<and> d_errorCount s' = d_errorCount (handleLine e sock line s) + of_nat (failed_in e lines rs)
    \<and> d_buffers s' = d_buffers (handleLine e sock line s)
    \<and> d_activeConnections s' = d_activeConnections (handleLine e sock line s)" by blast
  have "of_nat (requests_in e (line # lines)) = of_nat (requests_in e [line]) + (of_nat (requests_in e lines) :: u64)"
    "of_nat (failed_in e (line # lines) (r # rs)) = of_nat (failed_in e [line] [r]) + (of_nat (failed_in e lines rs) :: u64)"
    by (simp_all add: requests_in_def failed_in_def)
  with r rs show ?case
    by (intro exI [of _ "r # rs"]) (simp add: Let_def ac_simps)
qed

section \<open>Every line, whatever the writes do\<close>

lemma serveLine_answers:
  assumes "serveLine e line s = (Some r, s')"
  shows "answers_line e sock line r \<and> d_out s' = d_out s \<and> d_buffers s' = d_buffers s
    \<and> d_activeConnections s' = d_activeConnections s \<and> (\<not> d_dead s \<longrightarrow> \<not> d_dead s')
    \<and> d_requestCount s' = d_requestCount s + of_nat (requests_in e [line])
    \<and> d_errorCount s' = d_errorCount s + of_nat (failed_in e [line] [r])"
proof (cases "e_parse e line")
  case None
  with assms show ?thesis by (auto simp: serveLine_def answers_line_def requests_in_def failed_in_def)
next
  case (Some req)
  let ?s = "s\<lparr>d_requestCount := d_requestCount s + 1\<rparr>"
  obtain r1 s1 where d: "dispatch (dispatcher e) req ?s = (r1, s1)" by (cases "dispatch (dispatcher e) req ?s")
  with assms Some have r: "r1 = r" "\<not> d_dead s1" "s' = (if ok_of r then s1 else s1\<lparr>d_errorCount := d_errorCount s1 + 1\<rparr>)"
    by (auto simp: serveLine_def split: if_splits)
  have "io s1 = io ?s" using dispatch_frame [of e req ?s] d by simp
  moreover have "well_formed_response (to_string (jfind req ''id'')) r"
    using daemon_table.dispatch_echoes [of req e ?s] d r(1) by simp
  ultimately show ?thesis
    using Some r(2,3) by (simp add: io_def answers_line_def requests_in_def failed_in_def)
qed

lemma serveLine_death:
  assumes "serveLine e line s = (None, s')" and "\<not> d_dead s"
  shows "d_dead s' \<and> d_out s' = d_out s
    \<and> (\<exists>req. e_parse e line = Some req \<and> to_string (jfind req ''method'') = ''rtTestStart'')"
proof -
  let ?s = "s\<lparr>d_requestCount := d_requestCount s + 1\<rparr>"
  from assms(1) obtain req r1 where p: "e_parse e line = Some req" "dispatch (dispatcher e) req ?s = (r1, s')" "d_dead s'"
    by (auto simp: serveLine_def Let_def split: option.splits prod.splits if_splits)
  have "io s' = io ?s" using dispatch_frame [of e req ?s] p(2) by simp
  moreover have "to_string (jfind req ''method'') = ''rtTestStart''"
    using dispatch_death [of e req ?s] p(2,3) assms(2) by simp
  ultimately show ?thesis using p by (simp add: io_def)
qed

definition served :: "'w env \<Rightarrow> nat \<Rightarrow> (nat \<Rightarrow> bool) \<Rightarrow> string list \<Rightarrow> 'w daemon \<Rightarrow> json list \<Rightarrow> read_end \<Rightarrow> 'w daemon \<Rightarrow> bool" where
  \<comment> \<open>the first lines have their responses, in order, all of them written; and why the reading ended\<close>
  "served e sock wr lines s responses fin s' \<longleftrightarrow> (let n = length responses in
     n \<le> length lines \<and> list_all2 (answers_line e sock) (take n lines) responses \<and> (\<forall>k < n. wr k)
   \<and> d_out s' = d_out s @ map (reply e sock) responses
   \<and> (case fin of
        ReadDone \<Rightarrow> n = length lines \<and> \<not> d_dead s' \<and> d_buffers s' = d_buffers s \<and> d_activeConnections s' = d_activeConnections s
          \<and> d_requestCount s' = d_requestCount s + of_nat (requests_in e lines)
          \<and> d_errorCount s' = d_errorCount s + of_nat (failed_in e lines responses)
      | ProcessEnded \<Rightarrow> n < length lines \<and> d_dead s'
          \<and> (\<exists>req. e_parse e (lines ! n) = Some req \<and> to_string (jfind req ''method'') = ''rtTestStart'')
      | BufferFreed \<Rightarrow> n < length lines \<and> \<not> wr n \<and> \<not> d_dead s' \<and> d_buffers s' = (d_buffers s)(sock := None)
          \<and> d_activeConnections s' = d_activeConnections s - 1))"

lemma served_cons:
  assumes "answers_line e sock l r \<and> d_out s1 = d_out s @ [reply e sock r] \<and> d_buffers s1 = d_buffers s
      \<and> d_activeConnections s1 = d_activeConnections s
      \<and> d_requestCount s1 = d_requestCount s + of_nat (requests_in e [l])
      \<and> d_errorCount s1 = d_errorCount s + of_nat (failed_in e [l] [r])"
    and "wr 0" and "served e sock (\<lambda>k. wr (Suc k)) lines s1 rs fin s2"
  shows "served e sock wr (l # lines) s (r # rs) fin s2"
proof -
  have sums: "of_nat (requests_in e (l # lines)) = of_nat (requests_in e [l]) + (of_nat (requests_in e lines) :: u64)"
    "of_nat (failed_in e (l # lines) (r # rs)) = of_nat (failed_in e [l] [r]) + (of_nat (failed_in e lines rs) :: u64)"
    by (simp_all add: requests_in_def failed_in_def)
  have wr: "(\<forall>k < Suc n. wr k) \<longleftrightarrow> (\<forall>k < n. wr (Suc k))" for n using assms(2) by (auto simp: less_Suc_eq_0_disj)
  show ?thesis
    using assms(1,3) unfolding served_def Let_def list.size sums
    by (cases fin) (auto simp: wr ac_simps)
qed

lemma serveLoop_served:
  "\<not> d_dead s \<Longrightarrow> \<exists>responses fin rest s'. serveLoop e sock wr buf s = (fin, rest, s')
     \<and> served e sock wr (frames buf) s responses fin s' \<and> (fin = ReadDone \<longrightarrow> rest = leftover buf)"
proof (induction buf arbitrary: s wr rule: length_induct)
  case (1 buf)
  show ?case
  proof (cases buf rule: buffer_cases)
    case partial
    then have "serveLoop e sock wr buf s = (ReadDone, buf, s)" "frames buf = []" "leftover buf = buf"
      using index_of_newline_none [of buf] by (simp_all add: serveLoop.simps frames_def leftover_def split_on_no_sep)
    then show ?thesis
      by (intro exI [of _ "[] :: json list"] exI [of _ ReadDone] exI [of _ buf] exI [of _ s])
         (simp add: served_def requests_in_def failed_in_def 1(2))
  next
    case (line l rest)
    then have f: "frames buf = l # frames rest" "leftover buf = leftover rest" "length rest < length buf"
      by (simp_all add: frames_def leftover_def split_on_line)
    note loop = serveLoop_line [OF line(2), of e sock wr rest s, folded line(1)]
    obtain resp s1 where v: "serveLine e l s = (resp, s1)" by (cases "serveLine e l s")
    show ?thesis
    proof (cases resp)
      case None
      with serveLine_death [of e l s s1] v 1(2) show ?thesis
        by (intro exI [of _ "[] :: json list"] exI [of _ ProcessEnded] exI [of _ rest] exI [of _ s1]) (simp add: loop f served_def)
    next
      case (Some r)
      note a = serveLine_answers [OF v [unfolded Some], of sock]
      show ?thesis
      proof (cases "wr 0")
        case False
        with Some v a show ?thesis
          by (intro exI [of _ "[] :: json list"] exI [of _ BufferFreed] exI [of _ rest] exI [of _ "onDisconnected sock s1"])
             (simp add: loop f served_def onDisconnected_def 1(2))
      next
        case True
        have "\<not> d_dead (send e sock r s1)" using a 1(2) by (simp add: send_def)
        with 1(1) f(3) obtain rs fin rst s2 where
          ih: "serveLoop e sock (\<lambda>k. wr (Suc k)) rest (send e sock r s1) = (fin, rst, s2)"
            "served e sock (\<lambda>k. wr (Suc k)) (frames rest) (send e sock r s1) rs fin s2" "fin = ReadDone \<longrightarrow> rst = leftover rest"
          by blast
        have "served e sock wr (frames buf) s (r # rs) fin s2"
          using served_cons [OF _ True ih(2), where l = l and s = s] a f(1) by (simp add: send_def reply_def)
        with Some v True ih f(2) show ?thesis
          by (intro exI [of _ "r # rs"] exI [of _ fin] exI [of _ rst] exI [of _ s2]) (simp add: loop)
      qed
    qed
  qed
qed

text \<open>Where every write goes through and the process lives, this is \<open>readClient\<close>.\<close>

lemma handleLine_serveLine:
  "\<not> d_dead s \<Longrightarrow> handleLine e sock line s = (case serveLine e line s of (None, s') \<Rightarrow> s' | (Some r, s') \<Rightarrow> send e sock r s')"
  by (simp add: handleLine_def handle_def serveLine_def case_prod_beta Let_def split: option.split)

lemma serveLoop_read_loop:
  "\<not> d_dead s \<Longrightarrow> serveLoop e sock (\<lambda>k. True) buf s = (ReadDone, rest, s') \<Longrightarrow>
     read_loop (handleLine e sock) buf s = (rest, s')"
proof (induction buf arbitrary: s rule: length_induct)
  case (1 buf)
  show ?case
  proof (cases buf rule: buffer_cases)
    case partial
    with 1(3) show ?thesis using index_of_newline_none [of buf] by (simp add: read_loop_end serveLoop.simps)
  next
    case (line l more)
    from 1(3) obtain r s1 where v: "serveLine e l s = (Some r, s1)"
      and next_line: "serveLoop e sock (\<lambda>k. True) more (send e sock r s1) = (ReadDone, rest, s')"
      unfolding line(1) serveLoop_line [OF line(2)] by (auto split: option.splits prod.splits)
    have "\<not> d_dead (send e sock r s1)" using serveLine_answers [OF v] 1(2) by (simp add: send_def)
    moreover have "length more < length buf" using line by simp
    ultimately have "read_loop (handleLine e sock) more (send e sock r s1) = (rest, s')"
      using 1(1) next_line by blast
    then show ?thesis using line v 1(2) by (simp add: read_loop_line handleLine_serveLine)
  qed
qed

lemma serveClient_readClient:
  assumes "\<not> d_dead s" and "serveClient e sock (\<lambda>k. True) chunk s = (ReadDone, s')"
  shows "readClient e sock chunk s = s'"
proof -
  let ?buffer = "(case d_buffers s sock of None \<Rightarrow> [] | Some b \<Rightarrow> b) @ chunk"
  show ?thesis
  proof (cases "kMaxSocketBuffer < length ?buffer")
    case True
    with assms(2) show ?thesis by (auto simp: serveClient_def readClient_def feedClient_def send_def Let_def)
  next
    case False
    with assms(2) obtain rest t where "serveLoop e sock (\<lambda>k. True) ?buffer s = (ReadDone, rest, t)"
      "s' = t\<lparr>d_buffers := (d_buffers t)(sock \<mapsto> rest)\<rparr>"
      by (auto simp: serveClient_def Let_def split: prod.splits read_end.splits)
    with serveLoop_read_loop [OF assms(1)] False show ?thesis by (simp add: readClient_def feedClient_def Let_def)
  qed
qed

text \<open>
  A client that is gone when the first answer is written leaves the loop with a buffer that is no longer in the
  table.
\<close>

theorem failed_write_frees_buffer:
  assumes "d_buffers s sock = Some []" and "e_parse e line = None" and "newline \<notin> set line" and "length line < kMaxSocketBuffer"
  shows "serveClient e sock (\<lambda>k. False) (line @ [newline]) s = (BufferFreed, onDisconnected sock s)"
    and "d_buffers (snd (serveClient e sock (\<lambda>k. False) (line @ [newline]) s)) sock = None"
proof -
  show "serveClient e sock (\<lambda>k. False) (line @ [newline]) s = (BufferFreed, onDisconnected sock s)"
    using assms serveLoop_line [of line e sock "\<lambda>k. False" "[]" s] by (simp add: serveClient_def serveLine_def Let_def)
  then show "d_buffers (snd (serveClient e sock (\<lambda>k. False) (line @ [newline]) s)) sock = None"
    by (simp add: onDisconnected_def)
qed

section \<open>The daemon among its events\<close>

inductive daemon_step :: "'w env \<Rightarrow> 'w daemon \<Rightarrow> 'w daemon \<Rightarrow> bool" for e where
  \<comment> \<open>the process runs; no socket is read after it was asked to close, and none is used twice\<close>
  step_accept: "\<not> d_dead s \<Longrightarrow> d_buffers s sock = None \<Longrightarrow> CloseSocket sock \<notin> set (d_out s) \<Longrightarrow>
    daemon_step e s (acceptClient sock s)"
| step_read: "\<not> d_dead s \<Longrightarrow> d_buffers s sock \<noteq> None \<Longrightarrow> CloseSocket sock \<notin> set (d_out s) \<Longrightarrow>
    daemon_step e s (readClient e sock chunk s)"
| step_gone: "\<not> d_dead s \<Longrightarrow> d_buffers s sock \<noteq> None \<Longrightarrow> daemon_step e s (onDisconnected sock s)"
| step_al: "\<not> d_dead s \<Longrightarrow> daemon_step e s (alPoll e s)"
| step_dc: "\<not> d_dead s \<Longrightarrow> daemon_step e s (dcPoll refTime maxDiff s)"
| step_turn: "\<not> d_dead s \<Longrightarrow> fr_thread (d_freeRun s) = Looping \<Longrightarrow> \<forall>d. length (ci_receive inp d) = length d \<Longrightarrow>
    daemon_step e s (s\<lparr>d_freeRun := fr_turn inp (d_freeRun s)\<rparr>)"
| step_client: "\<not> d_dead s \<Longrightarrow> fr_shm (d_freeRun s) = Some m \<Longrightarrow> shm_sized (length (sm_data0 m)) m' \<Longrightarrow>
    daemon_step e s (s\<lparr>d_freeRun := (d_freeRun s)\<lparr>fr_shm := Some m'\<rparr>\<rparr>)"
| step_rt: "\<not> d_dead s \<Longrightarrow> rt_thread (d_rtTest s) = Looping \<Longrightarrow>
    daemon_step e s (s\<lparr>d_rtTest := rt_cycle 0 now ret (d_rtTest s)\<rparr>)"

definition daemon_reach :: "'w env \<Rightarrow> 'w \<Rightarrow> 'w daemon \<Rightarrow> bool" where
  "daemon_reach e w s \<longleftrightarrow> (daemon_step e)\<^sup>*\<^sup>* (daemon_init w) s"

definition sockets_ok :: "'w daemon \<Rightarrow> bool" where
  "sockets_ok s \<longleftrightarrow> finite (dom (d_buffers s)) \<and> d_activeConnections s = int (card (dom (d_buffers s)))
     \<and> (\<forall>sock b. d_buffers s sock = Some b \<longrightarrow> CloseSocket sock \<notin> set (d_out s) \<longrightarrow>
          length b \<le> kMaxSocketBuffer \<and> newline \<notin> set b)"

lemma sockets_ok_io: "io s' = io s \<Longrightarrow> sockets_ok s' = sockets_ok s"
  by (simp add: sockets_ok_def io_def)

lemma readClient_result:
  assumes "covers_entries e" and "parts_ok s" and "d_buffers s sock = Some buf" and "length (buf @ chunk) \<le> kMaxSocketBuffer"
  shows "\<exists>rs. list_all2 (answers_line e sock) (frames (buf @ chunk)) rs
    \<and> (let s' = readClient e sock chunk s in parts_ok s'
    \<and> d_out s' = d_out s @ map (reply e sock) rs
    \<and> d_requestCount s' = d_requestCount s + of_nat (requests_in e (frames (buf @ chunk)))
    \<and> d_errorCount s' = d_errorCount s + of_nat (failed_in e (frames (buf @ chunk)) rs)
    \<and> d_buffers s' = (d_buffers s)(sock \<mapsto> leftover (buf @ chunk)) \<and> d_activeConnections s' = d_activeConnections s)"
proof -
  have "feedClient e sock chunk (buf, s)
      = (leftover (buf @ chunk), foldl (\<lambda>s line. handleLine e sock line s) s (frames (buf @ chunk)))"
    using assms(4) by (simp add: feedClient_def Let_def read_loop_frames)
  then have r: "readClient e sock chunk s = (let s' = foldl (\<lambda>s line. handleLine e sock line s) s (frames (buf @ chunk))
      in s'\<lparr>d_buffers := (d_buffers s')(sock \<mapsto> leftover (buf @ chunk))\<rparr>)"
    by (simp add: readClient_def assms(3) Let_def)
  from handleLines_answer [OF assms(1,2), of sock "frames (buf @ chunk)"] show ?thesis
    unfolding r by (auto simp: Let_def)
qed

lemma readClient_overflow:
  assumes "d_buffers s sock = Some buf" and "kMaxSocketBuffer < length (buf @ chunk)"
  shows "readClient e sock chunk s = s\<lparr>d_out := d_out s
    @ [reply e sock (proto_failure [] ''Request frame too large'' (- 1)), CloseSocket sock],
    d_buffers := (d_buffers s)(sock \<mapsto> buf @ chunk)\<rparr>"
  using assms by (simp add: readClient_def feedClient_def Let_def send_def reply_def)

lemma readClient_ok:
  assumes "covers_entries e" and "parts_ok s" and "sockets_ok s" and "d_buffers s sock \<noteq> None"
  shows "parts_ok (readClient e sock chunk s) \<and> sockets_ok (readClient e sock chunk s)"
proof -
  from assms(4) obtain buf where b: "d_buffers s sock = Some buf" by blast
  have d: "dom ((d_buffers s)(sock \<mapsto> x)) = dom (d_buffers s)" for x using b by auto
  show ?thesis
  proof (cases "length (buf @ chunk) \<le> kMaxSocketBuffer")
    case True
    have l: "length (leftover (buf @ chunk)) \<le> kMaxSocketBuffer" "newline \<notin> set (leftover (buf @ chunk))"
      using length_leftover [of "buf @ chunk"] True leftover_no_newline by simp_all
    from readClient_result [OF assms(1,2) b True] obtain rs where
      "parts_ok (readClient e sock chunk s)" "d_out (readClient e sock chunk s) = d_out s @ map (reply e sock) rs"
      "d_buffers (readClient e sock chunk s) = (d_buffers s)(sock \<mapsto> leftover (buf @ chunk))"
      "d_activeConnections (readClient e sock chunk s) = d_activeConnections s"
      by (auto simp: Let_def)
    with assms(3) l d show ?thesis by (auto simp: sockets_ok_def)
  next
    case False
    with readClient_overflow [OF b, of chunk e] assms(2,3) d show ?thesis
      by (auto simp: sockets_ok_def parts_ok_def split: if_splits)
  qed
qed

lemma dcPoll_ok: "parts_ok (dcPoll t d s) = parts_ok s" "io (dcPoll t d s) = io s"
  by (simp_all add: dcPoll_def parts_ok_def io_def)

lemma alPoll_ok: "parts_ok s \<Longrightarrow> parts_ok (alPoll e s)" "io (alPoll e s) = io s"
  by (simp_all add: alPoll_def case_prod_beta Let_def parts_ok_def io_def poll_log)

lemma daemon_step_ok:
  "daemon_step e s s' \<Longrightarrow> covers_entries e \<Longrightarrow> parts_ok s \<and> sockets_ok s \<Longrightarrow> parts_ok s' \<and> sockets_ok s'"
proof (induction rule: daemon_step.induct)
  case (step_accept s sock)
  then have "sock \<notin> dom (d_buffers s)" by auto
  with step_accept show ?case by (auto simp: acceptClient_def parts_ok_def sockets_ok_def)
next
  case (step_read s sock chunk)
  then show ?case using readClient_ok by blast
next
  case (step_gone s sock)
  then have "sock \<in> dom (d_buffers s)" by auto
  then have "int (card (dom (d_buffers s) - {sock})) = int (card (dom (d_buffers s))) - 1"
    using step_gone card_Suc_Diff1 [of "dom (d_buffers s)" sock] by (auto simp: sockets_ok_def)
  with step_gone show ?case
    by (auto simp: onDisconnected_def parts_ok_def sockets_ok_def split: if_splits)
next
  case (step_al s)
  then show ?case using alPoll_ok sockets_ok_io [OF alPoll_ok(2)] by blast
next
  case (step_dc s refTime maxDiff)
  then show ?case using dcPoll_ok(1) sockets_ok_io [OF dcPoll_ok(2)] by blast
next
  case (step_turn s inp)
  then show ?case using fr_turn_ok [of "d_freeRun s" inp] by (simp add: parts_ok_def sockets_ok_def)
next
  case (step_client s m m')
  then show ?case using fr_scribbled_ok [of "d_freeRun s" m m'] by (simp add: parts_ok_def sockets_ok_def)
next
  case (step_rt s now ret)
  then show ?case using rt_cycle_ok [of "d_rtTest s" now ret] by (simp add: parts_ok_def sockets_ok_def)
qed

lemma daemon_reach_ok:
  assumes "daemon_reach e w s" and "covers_entries e"
  shows "parts_ok s \<and> sockets_ok s"
  using assms(1) unfolding daemon_reach_def
proof (induction rule: rtranclp_induct)
  case base
  show ?case
    by (simp add: daemon_init_def parts_ok_def sockets_ok_def fr_ok_def fr_init_def fr_idle_def rt_ok_def rt_init_def
        al_init_def signals_ok_def signal_init_def signal_inv_def)
next
  case (step s s')
  then show ?case using daemon_step_ok assms(2) by blast
qed

section \<open>Methods do not see the read buffers\<close>

definition set_buffers :: "(nat \<rightharpoonup> string) \<Rightarrow> 'w daemon \<Rightarrow> 'w daemon" where
  "set_buffers b s = s\<lparr>d_buffers := b\<rparr>"

definition blind :: "'w daemon_handler \<Rightarrow> bool" where
  "blind h \<longleftrightarrow> (\<forall>rid params s b. h rid params (set_buffers b s) = apsnd (set_buffers b) (h rid params s))"

lemma backend_blind [simp]: "backend e (set_buffers b s) = backend e s"
  by (simp add: backend_def set_buffers_def)

lemma set_buffers_simps [simp]:
  "d_dead (set_buffers b s) = d_dead s" "send e sock r (set_buffers b s) = set_buffers b (send e sock r s)"
  "d_buffers (set_buffers b s) = b" "set_buffers b (set_buffers b' s) = set_buffers b s"
  "d_requestCount (set_buffers b s) = d_requestCount s" "d_errorCount (set_buffers b s) = d_errorCount s"
  "d_world (set_buffers b s) = d_world s" "d_backendMode (set_buffers b s) = d_backendMode s"
  by (simp_all add: set_buffers_def send_def)

lemma set_buffers_commute [simp]:
  "set_buffers b s\<lparr>d_requestCount := n\<rparr> = set_buffers b (s\<lparr>d_requestCount := n\<rparr>)"
  "set_buffers b s\<lparr>d_errorCount := n\<rparr> = set_buffers b (s\<lparr>d_errorCount := n\<rparr>)"
  "set_buffers b s\<lparr>d_backendMode := m\<rparr> = set_buffers b (s\<lparr>d_backendMode := m\<rparr>)"
  "set_buffers b s\<lparr>d_world := w\<rparr> = set_buffers b (s\<lparr>d_world := w\<rparr>)"
  "install_backend nb (set_buffers b s) = set_buffers b (install_backend nb s)"
  by (simp_all add: set_buffers_def install_backend_def)

lemma focus_blind:
  assumes "\<And>s b. get (set_buffers b s) = get s" and "\<And>s b. h (set_buffers b s) = h s"
    and "\<And>x s b. put x (set_buffers b s) = set_buffers b (put x s)"
  shows "blind (focus get put h)"
  using assms by (simp add: blind_def focus_def case_prod_beta Let_def)

lemma part_blind:
  "blind (on_dc e h1)" "blind (on_red e q)" "blind (on_oc h2 e)" "blind (on_freeRun h5)" "blind (on_al h6)" "blind (on_signals h7)"
  unfolding on_dc_def on_red_def on_oc_def
  by (rule focus_blind; simp add: set_buffers_def put_world_def backend_def case_prod_beta)+

lemma on_world_blind: "(\<And>s b. h (set_buffers b s) = h s) \<Longrightarrow> blind (on_world h)"
  by (rule focus_blind) (simp_all add: set_buffers_def put_world_def)

lemma own_blind:
  "blind (h_ping e)" "blind (h_rtTestStart e)" "blind h_rtTestStop" "blind h_rtTestStatus" "blind h_alEventClear"
  "blind (h_getBackend e)"
  by (simp_all add: blind_def h_ping_def h_rtTestStart_def h_rtTestStop_def h_rtTestStatus_def h_alEventClear_def
      h_getBackend_def backend_json_def set_buffers_def backend_def case_prod_beta Let_def
      split: sum.split start_outcome.split)

lemma setBackendMode_blind: "setBackendMode e mode (set_buffers b s) = set_buffers b (setBackendMode e mode s)"
  by (simp add: setBackendMode_def case_prod_beta Let_def)

lemma setBackend_blind: "blind (h_setBackend e)"
  by (simp add: blind_def h_setBackend_def backend_json_def setBackendMode_blind Let_def)

lemma freeRunStart_blind: "blind (h_freeRunStart e)"
  by (simp add: blind_def h_freeRunStart_def focus_def set_buffers_def case_prod_beta Let_def)

lemma all_blind: "list_all (\<lambda>p. blind (snd p)) (setupHandlers e)"
  by (simp add: setupHandlers_def bus_methods_def cycle_methods_def device_methods_def system_methods_def Let_def
      part_blind on_world_blind own_blind setBackend_blind freeRunStart_blind)

lemma dispatch_blind: "dispatch (dispatcher e) req (set_buffers b s) = apsnd (set_buffers b) (dispatch (dispatcher e) req s)"
proof -
  have "blind h" if "dispatcher e m = Some h" for m h
  proof -
    from that have "h \<in> snd ` set (setupHandlers e)"
      using register_all_ran [of h "setupHandlers e" Map.empty] ranI [of "dispatcher e" m h] unfolding dispatcher_def by auto
    then show ?thesis using all_blind [of e] by (auto simp: list_all_iff)
  qed
  then show ?thesis by (auto simp: dispatch_def Let_def blind_def split: option.split)
qed

lemma handleLine_blind: "handleLine e sock line (set_buffers b s) = set_buffers b (handleLine e sock line s)"
  by (simp add: handleLine_def handle_def case_prod_beta Let_def dispatch_blind split: option.split)

lemma handleLines_blind:
  "foldl (\<lambda>s line. handleLine e sock line s) (set_buffers b s) lines
     = set_buffers b (foldl (\<lambda>s line. handleLine e sock line s) s lines)"
  by (induction lines arbitrary: s) (simp_all add: handleLine_blind)

lemma handleLines_buffers: "d_buffers (foldl (\<lambda>s line. handleLine e sock line s) s lines) = d_buffers s"
proof -
  have "s = set_buffers (d_buffers s) s" by (simp add: set_buffers_def)
  then have "foldl (\<lambda>s line. handleLine e sock line s) s lines
      = set_buffers (d_buffers s) (foldl (\<lambda>s line. handleLine e sock line s) s lines)"
    using handleLines_blind by metis
  then show ?thesis by (metis set_buffers_simps(3))
qed

definition with_buffer :: "nat \<Rightarrow> string \<times> 'w daemon \<Rightarrow> 'w daemon" where
  "with_buffer sock bs = set_buffers ((d_buffers (snd bs))(sock \<mapsto> fst bs)) (snd bs)"

lemma readClient_with_buffer:
  assumes "length (buf @ chunk) \<le> kMaxSocketBuffer"
  shows "readClient e sock chunk (with_buffer sock (buf, s)) = with_buffer sock (feedClient e sock chunk (buf, s))"
proof -
  have f: "feedClient e sock chunk (buf, t)
      = (leftover (buf @ chunk), foldl (\<lambda>s line. handleLine e sock line s) t (frames (buf @ chunk)))" for t
    using assms by (simp add: feedClient_def Let_def read_loop_frames)
  show ?thesis
    by (simp add: readClient_def with_buffer_def f handleLines_blind handleLines_buffers)
       (simp add: set_buffers_def handleLines_buffers)
qed

lemma reads_with_buffer:
  "length (buf @ concat cs) \<le> kMaxSocketBuffer \<Longrightarrow>
   foldl (\<lambda>s c. readClient e sock c s) (with_buffer sock (buf, s)) cs
     = with_buffer sock (foldl (\<lambda>bs c. feedClient e sock c bs) (buf, s) cs)"
proof (induction cs arbitrary: buf s)
  case (Cons c cs)
  have l: "length (buf @ c) \<le> kMaxSocketBuffer" using Cons.prems by simp
  have f: "feedClient e sock c (buf, s)
      = (leftover (buf @ c), foldl (\<lambda>s line. handleLine e sock line s) s (frames (buf @ c)))"
    using l by (simp add: feedClient_def Let_def read_loop_frames)
  have "length (leftover (buf @ c) @ concat cs) \<le> kMaxSocketBuffer"
    using length_leftover [of "buf @ c"] Cons.prems by simp
  then show ?case using readClient_with_buffer [OF l, of e sock s] Cons.IH by (simp add: f)
qed simp

section \<open>A daemon that runs\<close>

definition demo_env :: "unit env" where
  "demo_env = \<lparr>e_haveIgh = True, e_host = \<lparr>hs_proc = demo_bus, hs_clock = (\<lambda>w. 0), hs_iso = (\<lambda>t. [])\<rparr>,
     e_diag = (\<lambda>w. ([], None, w)), e_native = (cli_service demo_bus (\<lambda>w. ([], None, w)))\<lparr>isNative := True\<rparr>,
     e_files = \<lparr>fs_canonical = (\<lambda>p w. []), fs_dir_exists = (\<lambda>p w. False), fs_lstat = (\<lambda>p w. NoEntry),
       fs_exists = (\<lambda>p w. False), fs_readable = (\<lambda>p w. False), fs_size = (\<lambda>p w. 0), fs_remove = (\<lambda>p w. w),
       fs_firmware_env = (\<lambda>w. []), fs_home = (\<lambda>w. []), fs_others = (\<lambda>k w. w)\<rparr>,
     e_sys = \<lparr>sf_ifaces = (\<lambda>w. []), sf_read = (\<lambda>p w. Inl []), sf_link_target = (\<lambda>p w. None),
       sf_rewrite = (\<lambda>p c w. (Some [], w))\<rparr>,
     e_xml = (\<lambda>t. ([], True)), e_uptime = (\<lambda>w. 5), e_unfinished = 0, e_real_text = (\<lambda>b. []),
     e_fr = (\<lambda>w. demo_fr_answers), e_rt = (\<lambda>w. demo_answers), e_compact = (\<lambda>j. ''{}''),
     e_parse = (\<lambda>l. if l = ''ping'' then Some [(''id'', JStr ''7''), (''method'', JStr ''ping'')] else None)\<rparr>"

lemma demo_acquire_any:
  "fr_acquire demo_fr_answers 1000000 m [demo_slave] s = (Started, calls, s') \<Longrightarrow> image_bytes (fr_mirror s') = 2"
  by (auto simp: fr_acquire_def fr_refuse_def Let_def demo_fr_answers_def demo_slave_def demo_sync_def demo_pdo_def demo_entry2_def
      fr_install_def fr_activated_def initSharedMemory_def buildMirrorEntries_def store_offsets_def
      slave_entries_def slave_registrations_def image_bytes_def computeProcessDataSize_def entry_end_def
      entry_bytes_def MAX_PROCESS_DATA_SIZE_def case_prod_beta split: if_splits)

lemma demo_covers: "covers_entries demo_env"
  unfolding covers_entries_def
proof (intro allI impI)
  fix m s w calls s' w' d
  assume idle: "fr_idle s"
    and st: "fr_start (hs_proc (e_host demo_env)) (e_unfinished demo_env) (e_fr demo_env w) 1000000 m (s, w) = (Started, calls, s', w')"
    and d: "fa_data (e_fr demo_env w) = Some d"
  have "m = 0"
  proof (rule ccontr)
    assume "m \<noteq> 0"
    then have "unat m \<noteq> 0" by (simp add: unat_eq_0)
    have "number_nat (unat m) \<noteq> ''0''"
    proof
      assume "number_nat (unat m) = ''0''"
      then have "to_uint (Suc (unat m)) 10 ''0'' = Some (unat m)" using to_uint_number_nat [of "unat m" "Suc (unat m)"] by simp
      then show False using \<open>unat m \<noteq> 0\<close> by (simp add: text_eval)
    qed
    then have "fst (buildConfiguration demo_bus 0 m w) = Inl ''no''"
      by (simp add: buildConfiguration_def runEthercat_def demo_bus_def text_eval)
    with st idle show False
      by (auto simp: fr_start_def demo_env_def fr_idle_def split: sum.splits prod.splits)
  qed
  with st idle have "fr_acquire demo_fr_answers 1000000 m [demo_slave] s = (Started, calls, s')"
    by (auto simp: fr_start_def demo_env_def fr_idle_def demo_configuration split: prod.splits)
  then have "image_bytes (fr_mirror s') = 2" by (rule demo_acquire_any)
  moreover have "d = [5, 6]" using d by (simp add: demo_env_def demo_fr_answers_def)
  ultimately show "image_bytes (fr_mirror s') \<le> length d" by simp
qed

definition demo_daemon :: "unit daemon" where
  "demo_daemon = acceptClient 1 (daemon_init ())"

lemma demo_daemon_simps [simp]: "d_buffers demo_daemon = [1 \<mapsto> []]" "d_out demo_daemon = []" "\<not> d_dead demo_daemon"
  "d_activeConnections demo_daemon = 1" "d_requestCount demo_daemon = 0"
  "\<not> fr_running (d_freeRun demo_daemon)" "sg_channels (d_signals demo_daemon) = []"
  by (simp_all add: demo_daemon_def acceptClient_def daemon_init_def fr_init_def signal_init_def)

lemma demo_reach: "daemon_reach demo_env () demo_daemon"
proof -
  have "daemon_step demo_env (daemon_init ()) demo_daemon"
    unfolding demo_daemon_def by (rule step_accept) (simp_all add: daemon_init_def)
  then show ?thesis by (simp add: daemon_reach_def r_into_rtranclp)
qed

definition ping_frame :: string where "ping_frame = ''ping'' @ [newline]"

lemma ping_frames: "frames ping_frame = [''ping'']" "length ping_frame = 5" "leftover ping_frame = []"
  by code_simp+

lemma demo_ping: "e_parse demo_env ''ping'' = Some [(''id'', JStr ''7''), (''method'', JStr ''ping'')]"
  by (simp add: demo_env_def)

lemma demo_read: "daemon_step demo_env demo_daemon (readClient demo_env 1 ping_frame demo_daemon)"
  by (rule step_read) simp_all

theorem failed_write_frees_buffer_witness:
  "fst (serveClient demo_env 1 (\<lambda>k. False) (''?'' @ [newline]) demo_daemon) = BufferFreed"
proof -
  have "e_parse demo_env ''?'' = None" by (simp add: demo_env_def)
  moreover have "newline \<notin> set ''?''" by code_simp
  ultimately show ?thesis using failed_write_frees_buffer(1) [of demo_daemon 1 demo_env "''?''"]
    by (simp add: kMaxSocketBuffer_def)
qed

section \<open>Properties\<close>

text \<open>
  Claim C3 (invariant). In every state the daemon reaches by connections, reads of whatever bytes (their answers
  being written without failure), timers, cycles of the two real-time loops (whose sleep succeeds) and writes of a
  mapped client, provided that the image \<open>ecrt\<close> gives for a domain holds the entries registered for it, it is alive; the
  connection count is the number of open sockets; the bytes kept for a socket that it still reads are at most
  1 MiB and hold no complete line; both controllers hold their master exactly while they run; the
  event log and the redundancy history are within their caps, channel ids are distinct.
\<close>

theorem daemon_stays_sound:
  assumes "daemon_reach e w s" and "covers_entries e"
  shows "\<not> d_dead s \<and> d_activeConnections s = int (card (dom (d_buffers s)))
    \<and> (\<forall>sock b. d_buffers s sock = Some b \<and> CloseSocket sock \<notin> set (d_out s) \<longrightarrow> length b \<le> kMaxSocketBuffer \<and> newline \<notin> set b)
    \<and> (if fr_running (d_freeRun s) then fr_live (d_freeRun s) else fr_idle (d_freeRun s))
    \<and> (rt_running (d_rtTest s) \<longleftrightarrow> rt_master (d_rtTest s))
    \<and> length (al_events (d_al s)) \<le> kMaxEvents \<and> length (d_red s) \<le> kMaxHistory
    \<and> distinct (map ch_id (sg_channels (d_signals s)))"
  using daemon_reach_ok [OF assms]
  by (auto simp: parts_ok_def sockets_ok_def fr_ok_def rt_ok_def signals_ok_def signal_inv_def)

theorem daemon_stays_sound_witness:
  "\<not> d_dead (readClient demo_env 1 ping_frame demo_daemon)
   \<and> fr_idle (d_freeRun demo_daemon) \<and> d_activeConnections demo_daemon = int (card {1 :: nat})"
proof -
  have "daemon_reach demo_env () (readClient demo_env 1 ping_frame demo_daemon)"
    using demo_reach demo_read unfolding daemon_reach_def by (rule rtranclp.rtrancl_into_rtrancl)
  from daemon_stays_sound [OF this demo_covers] daemon_stays_sound [OF demo_reach demo_covers]
  show ?thesis by simp
qed

text \<open>
  Claim C4 (functional). Whatever bytes reach an open socket of a living daemon within the cap, and whichever of its
  writes fail: the complete lines are answered on that socket in order, one frame each, without a gap; a frame echoes the id of
  its request and is a well-formed success or failure, a failure without id where the line is no JSON object.
  Either every line is answered, all requests and failed requests are counted and the incomplete rest
  is kept, or the reading ends at the first line without an answer for one of two reasons: that line is an
  \<^verbatim>\<open>rtTestStart\<close> request, which ended the process, or its write failed, which frees the buffer that the
  code goes on to use.
\<close>

theorem every_line_answered:
  assumes "\<not> d_dead s" and "d_buffers s sock = Some buf" and "length (buf @ chunk) \<le> kMaxSocketBuffer"
    and "serveClient e sock wr chunk s = (fin, s')"
  shows "\<exists>responses. let lines = frames (buf @ chunk); n = length responses in
     n \<le> length lines \<and> list_all2 (answers_line e sock) (take n lines) responses \<and> (\<forall>k < n. wr k)
   \<and> d_out s' = d_out s @ map (reply e sock) responses
   \<and> (case fin of
        ReadDone \<Rightarrow> n = length lines \<and> \<not> d_dead s'
          \<and> d_requestCount s' = d_requestCount s + of_nat (requests_in e lines)
          \<and> d_errorCount s' = d_errorCount s + of_nat (failed_in e lines responses)
          \<and> d_buffers s' = (d_buffers s)(sock \<mapsto> leftover (buf @ chunk))
      | ProcessEnded \<Rightarrow> n < length lines \<and> d_dead s'
          \<and> (\<exists>req. e_parse e (lines ! n) = Some req \<and> to_string (jfind req ''method'') = ''rtTestStart'')
      | BufferFreed \<Rightarrow> n < length lines \<and> \<not> wr n \<and> d_buffers s' = (d_buffers s)(sock := None))"
proof -
  from serveLoop_served [OF assms(1), of e sock wr "buf @ chunk"] obtain responses fin1 rest t where
    loop: "serveLoop e sock wr (buf @ chunk) s = (fin1, rest, t)"
    and ok: "served e sock wr (frames (buf @ chunk)) s responses fin1 t" and rest: "fin1 = ReadDone \<longrightarrow> rest = leftover (buf @ chunk)"
    by blast
  from assms(2-4) loop have "fin = fin1" "s' = (if fin = ReadDone then t\<lparr>d_buffers := (d_buffers t)(sock \<mapsto> rest)\<rparr> else t)"
    by (auto simp: serveClient_def Let_def split: read_end.splits)
  with ok rest show ?thesis by (intro exI [of _ responses]) (cases fin; auto simp: served_def Let_def)
qed

theorem every_line_answered_witness:
  "\<exists>r. d_out (snd (serveClient demo_env 1 (\<lambda>k. True) ping_frame demo_daemon)) = [reply demo_env 1 r]
     \<and> well_formed_response ''7'' r
     \<and> d_requestCount (snd (serveClient demo_env 1 (\<lambda>k. True) ping_frame demo_daemon)) = 1"
proof -
  obtain fin s' where v: "serveClient demo_env 1 (\<lambda>k. True) ping_frame demo_daemon = (fin, s')" by fastforce
  have l: "length ([] @ ping_frame) \<le> kMaxSocketBuffer" by (simp add: ping_frames kMaxSocketBuffer_def)
  have b: "d_buffers demo_daemon 1 = Some []" by simp
  have a: "\<not> d_dead demo_daemon" by simp
  from every_line_answered [OF a b l v] obtain rs where
    rs: "length rs \<le> 1" "list_all2 (answers_line demo_env 1) (take (length rs) [''ping'']) rs" "d_out s' = map (reply demo_env 1) rs"
    "case fin of ReadDone \<Rightarrow> length rs = 1 \<and> d_requestCount s' = of_nat (requests_in demo_env [''ping''])
       | ProcessEnded \<Rightarrow> (\<exists>req. e_parse demo_env ([''ping''] ! length rs) = Some req
           \<and> to_string (jfind req ''method'') = ''rtTestStart'') \<and> length rs < 1
       | BufferFreed \<Rightarrow> False"
    by (cases fin) (auto simp: ping_frames Let_def)
  then have "fin = ReadDone" by (cases fin) (auto simp: demo_ping)
  with rs obtain r where "rs = [r]" by (auto simp: length_Suc_conv)
  with rs v \<open>fin = ReadDone\<close> show ?thesis by (auto simp: answers_line_def demo_ping requests_in_def)
qed

text \<open>
  Claim C8 (equivalence). How TCP cuts the stream does not matter: reading a sequence of chunks one by one leaves
  the daemon, its answers and its buffers exactly as reading their concatenation at once, as long as
  the bytes fit the cap.
\<close>

theorem chunks_are_invisible:
  assumes "d_buffers s sock = Some buf" and "newline \<notin> set buf" and "length (buf @ concat cs) \<le> kMaxSocketBuffer"
  shows "foldl (\<lambda>s c. readClient e sock c s) s cs = readClient e sock (concat cs) s"
proof -
  have s: "s = with_buffer sock (buf, s)"
    using assms(1) by (simp add: with_buffer_def set_buffers_def map_upd_triv)
  have "foldl (\<lambda>s c. readClient e sock c s) s cs = with_buffer sock (foldl (\<lambda>bs c. feedClient e sock c bs) (buf, s) cs)"
    using reads_with_buffer [OF assms(3), of e sock s] s by simp
  also have "\<dots> = with_buffer sock (feedClient e sock (concat cs) (buf, s))"
    using daemon_reader.feed_chunks [of buf cs e sock s] assms(2,3) by (simp add: daemon_reader.fits_def)
  also have "\<dots> = readClient e sock (concat cs) s"
    using readClient_with_buffer [OF assms(3), of e sock s] s by simp
  finally show ?thesis .
qed

theorem chunks_are_invisible_witness:
  "readClient demo_env 1 (''ng'' @ [newline]) (readClient demo_env 1 ''pi'' demo_daemon)
     = readClient demo_env 1 ping_frame demo_daemon"
  using chunks_are_invisible [of demo_daemon 1 "[]" "[''pi'', ''ng'' @ [newline]]" demo_env]
  by (simp add: ping_frame_def kMaxSocketBuffer_def)

text \<open>
  Where native support is not compiled in, the command line backend stays whatever
  mode is asked for, and nothing of the handlers is reset; where it is, mode \<open>native\<close> always ends on
  the native backend and \<open>cli\<close> on the command line, the handlers being made anew exactly when the backend is
  exchanged, and any other mode exchanges it exactly when the native backend finds its host in order.
\<close>

theorem backend_mode_decides_backend:
  assumes "isNative (e_native e)"
  shows "d_native (setBackendMode e mode s) = (if mode = ''cli'' then False
      else if \<not> e_haveIgh e then d_native s
      else mode = ''native'' \<or> d_native s \<or> stored [] (fst (snd (hostDiagnostics (e_native e) (d_world s)))) = [])
    \<and> (d_red (setBackendMode e mode s), d_oc (setBackendMode e mode s)) =
       (if (if mode = ''cli'' then d_native s else e_haveIgh e \<and> (if mode = ''native'' then \<not> d_native s
            else stored [] (fst (snd (hostDiagnostics (e_native e) (d_world s)))) = []))
        then ([], oc_init) else (d_red s, d_oc s))
    \<and> d_backendMode (setBackendMode e mode s) = mode"
  using assms
  by (cases "d_native s") (simp_all add: setBackendMode_def install_backend_def backend_def case_prod_beta Let_def)

theorem backend_mode_decides_backend_witness:
  "d_native (setBackendMode demo_env ''native'' demo_daemon) \<and> \<not> d_native (setBackendMode demo_env ''cli'' demo_daemon)"
proof -
  have "isNative (e_native demo_env)" by (simp add: demo_env_def)
  moreover have "e_haveIgh demo_env" by (simp add: demo_env_def)
  ultimately show ?thesis
    using backend_mode_decides_backend [of demo_env "''native''" demo_daemon] backend_mode_decides_backend [of demo_env "''cli''" demo_daemon]
    by simp
qed

text \<open>
  Signals are never sampled: whatever is subscribed, in every state the daemon reaches a poll
  answers each of its channels with no samples, since no part of the daemon pushes any.
\<close>

theorem signals_are_never_sampled:
  assumes "daemon_reach e w s" and "covers_entries e"
    and "jfind req ''method'' = JStr ''signalPoll''"
  shows "dispatch (dispatcher e) req s
    = (success (to_string (jfind req ''id'')) [(''channels'', JArr (map (\<lambda>ch. JObj [(''id'', jint (ch_id ch)),
         (''name'', JStr (ch_name ch)), (''samples'', JArr [])]) (sg_channels (d_signals s))))], s)"
proof -
  have none: "\<forall>ch \<in> set (sg_channels (d_signals s)). ch_samples ch = []"
    using daemon_reach_ok [OF assms(1,2)] by (simp add: parts_ok_def signals_ok_def)
  have "(''signalPoll'', on_signals handlePoll) \<in> set (setupHandlers e)"
    by (simp add: setupHandlers_def system_methods_def)
  then have "dispatcher e ''signalPoll'' = Some (on_signals handlePoll)"
    unfolding dispatcher_def using methods_distinct by (intro register_all_lookup)
  with none assms(3) show ?thesis
    by (simp add: dispatch_def focus_def handlePoll_def channel_json_def newer_def Let_def)
qed

theorem signals_are_never_sampled_witness:
  "fst (dispatch (dispatcher demo_env) [(''id'', JStr ''9''), (''method'', JStr ''signalPoll'')] demo_daemon)
     = success ''9'' [(''channels'', JArr [])]"
  using signals_are_never_sampled [OF demo_reach demo_covers, of "[(''id'', JStr ''9''), (''method'', JStr ''signalPoll'')]"]
  by simp

end
