(* ===== verification/ClientDaemon.thy ===== *)
theory ClientDaemon
  imports EcatClient EcatDaemon "HOL-Library.Countable"
begin

text \<open>
  Client and daemon together: the methods the client calls are those the daemon registers, and a call
  of a connected client comes back. The texts between them are those of \<open>QJsonDocument\<close>; what is
  relied on is stated by \<open>codec\<close>: a compact text has no newline, and parsing it gives an object with
  the same members up to a normal form (Qt sorts the keys) that leaves strings and flags alone.
\<close>

section \<open>The tables agree\<close>

lemma bus_registered: "fst (bus_request b) \<in> fst ` set (bus_methods e)"
  by (cases b) (simp_all add: bus_methods_def)

lemma cycle_registered: "fst (cycle_request b) \<in> fst ` set (cycle_methods e)"
  by (cases b) (simp_all add: cycle_methods_def)

lemma device_registered: "fst (device_request b) \<in> fst ` set (device_methods e @ system_methods e)"
  by (cases b) (simp_all add: device_methods_def system_methods_def Let_def)

lemma net_registered: "fst (net_request b) \<in> fst ` set (device_methods e @ system_methods e)"
  by (cases b) (simp_all add: device_methods_def system_methods_def Let_def)

lemma calls_registered: "fst (request_of cl) \<in> fst ` set (setupHandlers e)"
proof (cases cl)
  case HeartbeatPing
  then show ?thesis by (simp add: setupHandlers_def bus_methods_def)
next
  case (Bus b)
  then show ?thesis using bus_registered [of b e] by (simp add: setupHandlers_def image_Un)
next
  case (Cycle b)
  then show ?thesis using cycle_registered [of b e] by (simp add: setupHandlers_def image_Un)
next
  case (Device b)
  then show ?thesis using device_registered [of b e] by (simp add: setupHandlers_def image_Un)
next
  case (Net b)
  then show ?thesis using net_registered [of b e] by (simp add: setupHandlers_def image_Un)
qed

lemma call_method: "\<exists>h. dispatcher e (fst (request_of cl)) = Some h \<and> rpc_handler h \<and> fst (request_of cl) \<noteq> []"
proof -
  obtain h where h: "(fst (request_of cl), h) \<in> set (setupHandlers e)" using calls_registered [of cl e] by force
  then have "dispatcher e (fst (request_of cl)) = Some h"
    unfolding dispatcher_def by (rule register_all_lookup [OF methods_distinct])
  moreover have "\<forall>p \<in> set (setupHandlers e). fst p \<noteq> []"
    by (simp add: setupHandlers_def bus_methods_def cycle_methods_def device_methods_def system_methods_def Let_def)
  ultimately show ?thesis using h registered_methods by force
qed

section \<open>The texts\<close>

fun plain_json :: "json \<Rightarrow> bool" where
  "plain_json (JStr s) = True"
| "plain_json (JBool b) = True"
| "plain_json JUndefined = True"
| "plain_json _ = False"

definition codec :: "(json \<Rightarrow> string) \<Rightarrow> (string \<Rightarrow> json) \<Rightarrow> (json \<Rightarrow> json) \<Rightarrow> bool" where
  "codec text_of parse nrm \<longleftrightarrow>
     (\<forall>v. plain_json v \<longrightarrow> nrm v = v)
   \<and> (\<forall>ob. is_object (nrm (JObj ob)) \<and> (\<forall>k. jfind (to_object (nrm (JObj ob))) k = nrm (jfind ob k)))
   \<and> (\<forall>ob. newline \<notin> set (text_of (JObj ob)) \<and> parse (text_of (JObj ob)) = nrm (JObj ob))"

definition parse_object :: "(string \<Rightarrow> json) \<Rightarrow> string \<Rightarrow> jobject option" where
  "parse_object parse line = (if is_object (parse line) then Some (to_object (parse line)) else None)"

lemma codec_object:
  assumes "codec text_of parse nrm" and "is_object v"
  shows "parse_object parse (text_of v) = Some (to_object (nrm v))" "is_object (parse (text_of v))"
    "to_object (parse (text_of v)) = to_object (nrm v)" "newline \<notin> set (text_of v)"
    "plain_json (jfind (to_object v) k) \<Longrightarrow> jfind (to_object (nrm v)) k = jfind (to_object v) k"
proof -
  from assms(2) obtain ob where v: "v = JObj ob" by (cases v) (simp_all add: is_object_def)
  from assms(1) have "parse (text_of v) = nrm v" "is_object (nrm v)" "newline \<notin> set (text_of v)"
    "\<And>k. jfind (to_object (nrm v)) k = nrm (jfind (to_object v) k)" "\<And>u. plain_json u \<Longrightarrow> nrm u = u"
    by (simp_all add: codec_def v)
  then show "parse_object parse (text_of v) = Some (to_object (nrm v))" "is_object (parse (text_of v))"
    "to_object (parse (text_of v)) = to_object (nrm v)" "newline \<notin> set (text_of v)"
    "plain_json (jfind (to_object v) k) \<Longrightarrow> jfind (to_object (nrm v)) k = jfind (to_object v) k"
    by (simp_all add: parse_object_def)
qed

lemma frames_line: "newline \<notin> set l \<Longrightarrow> frames (l @ [newline]) = [l] \<and> leftover (l @ [newline]) = []"
  by (simp add: frames_def leftover_def split_on_line)

lemma encode_newline: "encode text_of v = text_of v @ [newline]"
  by (simp add: encode_def newline_def)

lemma read_one_line: "newline \<notin> set l \<Longrightarrow> read_loop h (l @ [newline]) s = ([], h l s)"
  using frames_line [of l] by (simp add: read_loop_frames)

section \<open>A call comes back\<close>

lemma continue_with_requests [simp]:
  "cl_handlers (continue_with cl r c) = cl_handlers c" "cl_stamps (continue_with cl r c) = cl_stamps c"
proof -
  have "cl_handlers (foldl (\<lambda>c sig. emit sig c) c sigs) = cl_handlers c \<and> cl_stamps (foldl (\<lambda>c sig. emit sig c) c sigs) = cl_stamps c"
    for c sigs by (induction sigs arbitrary: c) simp_all
  then show "cl_handlers (continue_with cl r c) = cl_handlers c" "cl_stamps (continue_with cl r c) = cl_stamps c"
    by (simp_all add: continue_with_def settle_def)
qed

lemma run_last_handler: "chain_rank cl = 0 \<Longrightarrow> run_handler now cl r c = continue_with cl r c"
  using follow_up_rank [of cl r] by (cases "follow_up cl r") (simp_all add: run_handler.simps Let_def)

definition answer_signals :: "call \<Rightarrow> string \<Rightarrow> jobject \<Rightarrow> client_signal list" where
  \<comment> \<open>what the client signals on an answer: the continuation's signals on the result, or the error and the
     continuation's signals on the error object\<close>
  "answer_signals cl rid ob =
     (if to_bool (jfind ob ''ok'') then signals_of cl (to_object (jfind ob ''result''))
      else let err = to_object (jfind ob ''error''); msg = to_string_def ''Unknown runtime error'' (jfind err ''message'')
           in SigErrorMessage (reported_error rid msg)
              # signals_of cl (error_result msg (to_int_def (- 1) (jfind err ''code''))))"

lemma continue_with_out [simp]: "cl_out (continue_with cl r c) = cl_out c @ map Emit (signals_of cl r)"
proof -
  have "cl_out (foldl (\<lambda>c sig. emit sig c) c sigs) = cl_out c @ map Emit sigs" for c sigs
    by (induction sigs arbitrary: c) simp_all
  then show ?thesis by (simp add: continue_with_def settle_def)
qed

lemma answered_client:
  assumes "codec text_of parse nrm" and "well_formed_response rid r"
    and "map_of (cl_handlers c) rid = Some cl" and "chain_rank cl = 0"
  shows "\<exists>c'. readSocket parse now (encode text_of r) ([], c) = ([], c')
    \<and> cl_handlers c' = hash_remove rid (cl_handlers c) \<and> cl_stamps c' = hash_remove rid (cl_stamps c)
    \<and> cl_out c' = cl_out c @ map Emit (answer_signals cl rid (to_object (nrm r)))"
proof -
  have ob: "is_object r" "jfind (to_object r) ''id'' = JStr rid" "\<exists>b. jfind (to_object r) ''ok'' = JBool b"
    using assms(2) by (auto simp: well_formed_response_def is_success_def is_failure_def)
  note cr = codec_object [OF assms(1) ob(1)]
  have "jfind (to_object (nrm r)) ''id'' = JStr rid" using cr(5) [of "''id''"] ob(2) by simp
  then have "cl_handlers (EcatClient.handleLine parse now (text_of r) c) = hash_remove rid (cl_handlers c)
      \<and> cl_stamps (EcatClient.handleLine parse now (text_of r) c) = hash_remove rid (cl_stamps c)
      \<and> cl_out (EcatClient.handleLine parse now (text_of r) c) = cl_out c @ map Emit (answer_signals cl rid (to_object (nrm r)))"
    using cr(2,3) assms(3) run_last_handler [OF assms(4)]
    by (simp add: EcatClient.handleLine_def take_handler_def answer_signals_def Let_def)
  then show ?thesis by (simp add: readSocket_def encode_newline read_one_line cr(4))
qed

lemma h_rtTestStart_spares: "rt_ok (d_rtTest s) \<Longrightarrow> d_dead (snd (h_rtTestStart e rid params s)) = d_dead s"
proof (cases "fr_masterIndex params")
  case (Inr m)
  assume ok: "rt_ok (d_rtTest s)"
  let ?r = "rt_start (e_rt e (d_world s)) m (max 500 (min 1000000 (to_int_def 1000 (jfind params ''cycleUsec'')))) (d_rtTest s)"
  obtain out calls t where r: "?r = (out, calls, t)" by (cases ?r)
  have "out \<noteq> Terminated" using rt_start_ok [OF ok] r by (metis fst_conv)
  with Inr r show ?thesis by (cases out) (simp_all add: h_rtTestStart_def)
qed (simp add: h_rtTestStart_def)

lemma method_spares:
  assumes "dispatcher e m = Some h" and "m = ''rtTestStart'' \<Longrightarrow> rt_ok (d_rtTest s)"
  shows "d_dead (snd (h rid params s)) = d_dead s"
proof -
  have mem: "(m, h) \<in> set (setupHandlers e)"
    using register_all_from [of "setupHandlers e" Map.empty m h] assms(1) by (simp add: dispatcher_def)
  show ?thesis
  proof (cases "m = ''rtTestStart''")
    case True
    have "(''rtTestStart'', h_rtTestStart e) \<in> set (setupHandlers e)" by (simp add: setupHandlers_def cycle_methods_def)
    with mem True methods_distinct [of e] have "h = h_rtTestStart e" by (metis eq_key_imp_eq_value)
    with assms(2) True show ?thesis by (simp add: h_rtTestStart_spares)
  next
    case False
    with mem all_spare [of e] show ?thesis by (auto simp: list_all_iff spares_def)
  qed
qed

text \<open>
  Claim C7 (liveness). A call comes back: the frame that a connected client, in any state it reaches, sends for a call without a follow-up,
  read at once by a living daemon (for \<^verbatim>\<open>rtTestStart\<close>: one whose last test's thread is joined) with nothing left in the
  socket's buffer and within the cap of 1 MiB, is answered by one frame: the response of the method the
  call names to the id of the request and to the call's parameters with the master, in the normal form in which
  \<open>QJsonDocument\<close> gives back what was written. When that frame, written, reaches a client that waits for nothing else
  under that id, the call's continuation has run on the result, or on the error after it was reported: exactly its
  signals are emitted, the other pending requests are kept, and nothing of the request is left. Parser and
  writer obey \<open>codec\<close>.
\<close>

theorem call_comes_back:
  assumes "\<not> d_dead s" and "fst (request_of cl) = ''rtTestStart'' \<longrightarrow> rt_ok (d_rtTest s)"
    and "codec (e_compact e) parse nrm" and "e_parse e = parse_object parse" and "d_buffers s sock = Some []"
    and "client_inv c" and "rid = number_nat (unat (cl_nextId c))" and "rid \<notin> fst ` set (cl_handlers c)"
    and "chain_rank cl = 0" and "cl_out (post now cl c) = cl_out c @ [Send frame]"
    and "length (encode (e_compact e) frame) \<le> kMaxSocketBuffer"
  shows "\<exists>h r c'. dispatcher e (fst (request_of cl)) = Some h
    \<and> r = fst (h rid (to_object (nrm (JObj (jset ''master'' (JStr (cl_master c)) (snd (request_of cl))))))
              (s\<lparr>d_requestCount := d_requestCount s + 1\<rparr>))
    \<and> d_out (readClient e sock (encode (e_compact e) frame) s) = d_out s @ [reply e sock r]
    \<and> readSocket parse now' (encode (e_compact e) r) ([], post now cl c) = ([], c')
    \<and> cl_out c' = cl_out c @ Send frame # map Emit (answer_signals cl rid (to_object (nrm r)))
    \<and> cl_handlers c' = cl_handlers c \<and> cl_stamps c' = cl_stamps c"
proof -
  obtain m ps where req: "request_of cl = (m, ps)" by (cases "request_of cl")
  let ?ps = "jset ''master'' (JStr (cl_master c)) ps"
  have frame: "frame = request rid m ?ps"
    using assms(10) by (simp add: post_def Let_def req assms(7))
  obtain h where h: "dispatcher e m = Some h" "rpc_handler h" "m \<noteq> []" using call_method [where cl = cl and e = e] req by auto
  have ob: "is_object frame" by (simp add: frame request_def)
  note co = codec_object [OF assms(3) ob]
  define rq where "rq = to_object (nrm frame)"
  have parsed: "e_parse e (e_compact e frame) = Some rq" using co(1) assms(4) by (simp add: rq_def)
  have fields: "jfind rq ''id'' = JStr rid" "jfind rq ''method'' = JStr m" "jfind rq ''params'' = nrm (JObj ?ps)"
    using co(5) [of "''id''"] co(5) [of "''method''"] assms(3) unfolding rq_def codec_def by (auto simp: frame request_def)
  let ?params = "to_object (nrm (JObj ?ps))" and ?s = "s\<lparr>d_requestCount := d_requestCount s + 1\<rparr>"
  have disp: "dispatch (dispatcher e) rq ?s = h rid ?params ?s"
    using h fields by (simp add: dispatch_def)
  define r where "r = fst (h rid ?params ?s)"
  have wf: "well_formed_response rid r" unfolding r_def by (rule rpc_handler.echoes [OF h(2)])
  have line: "frames (encode (e_compact e) frame) = [e_compact e frame]" "leftover (encode (e_compact e) frame) = []"
    using frames_line [OF co(4)] by (simp_all add: encode_newline)
  have "\<not> d_dead (snd (h rid ?params ?s))" using method_spares [OF h(1), of ?s rid ?params] assms(1,2) req by simp
  moreover have "d_out (snd (h rid ?params ?s)) = d_out s"
    using daemon_frame.frame_fields(5) [OF dispatched_frame [OF h(1)], of rid ?params ?s] by simp
  ultimately have out: "d_out (readClient e sock (encode (e_compact e) frame) s) = d_out s @ [reply e sock r]"
    using assms(1,5,11)
    by (simp add: readClient_def feedClient_def read_loop_frames line EcatDaemon.handleLine_def parsed handle_def disp
        EcatDaemon.send_def reply_def r_def case_prod_beta Let_def)
  have "map_of (cl_handlers (post now cl c)) rid = Some cl"
    by (simp add: post_def Let_def req assms(7) hash_insert_lookup)
  from answered_client [OF assms(3) wf this assms(9), of now'] obtain c' where
    c': "readSocket parse now' (encode (e_compact e) r) ([], post now cl c) = ([], c')"
      "cl_handlers c' = hash_remove rid (cl_handlers (post now cl c))" "cl_stamps c' = hash_remove rid (cl_stamps (post now cl c))"
      "cl_out c' = cl_out (post now cl c) @ map Emit (answer_signals cl rid (to_object (nrm r)))" by blast
  have "rid \<notin> fst ` set (cl_stamps c)"
    using assms(6,8) by (metis client_inv_def list.set_map)
  then have "cl_handlers c' = cl_handlers c" "cl_stamps c' = cl_stamps c"
    using c'(2,3) hash_remove_insert assms(7,8) by (simp_all add: post_def Let_def req)
  with c'(1,4) assms(10) out h(1) show ?thesis unfolding req fst_conv snd_conv
    by (intro exI [of _ h] exI [of _ r] exI [of _ c']) (simp add: r_def)
qed

section \<open>Texts that satisfy the laws\<close>


instance json :: countable
  by countable_datatype

definition number_text :: "json \<Rightarrow> string" where
  "number_text v = number_nat (to_nat v)"

definition number_parse :: "string \<Rightarrow> json" where
  "number_parse s = from_nat (or_zero (parse_nat 10 s))"

definition short_text :: "json \<Rightarrow> json \<Rightarrow> string" where
  "short_text f v = (if v = f then ''!'' else number_text v)"

definition short_parse :: "json \<Rightarrow> string \<Rightarrow> json" where
  "short_parse f s = (if s = ''!'' then f else number_parse s)"

lemma number_text_digits: "c \<in> set (number_text v) \<Longrightarrow> is_digit c"
  using number_nat_digits by (simp add: number_text_def)

lemma short_codec: "codec (short_text f) (short_parse f) (\<lambda>v. v)"
  unfolding codec_def
proof (intro conjI allI impI)
  fix ob
  have "newline \<notin> set ''!''" by code_simp
  moreover have "\<not> is_digit newline" by (simp add: is_digit_def code_of_def newline_def)
  ultimately show "newline \<notin> set (short_text f (JObj ob))"
    using number_text_digits [of newline "JObj ob"] by (auto simp: short_text_def)
  have "number_parse (number_text (JObj ob)) = JObj ob"
    by (simp add: number_parse_def number_text_def number_nat_def parse_nat_digits_base)
  moreover have "number_text (JObj ob) \<noteq> ''!''"
    using number_text_digits [of "CHR ''!''" "JObj ob"] by (auto simp: is_digit_def code_of_def)
  ultimately show "short_parse f (short_text f (JObj ob)) = JObj ob"
    by (simp add: short_parse_def short_text_def)
qed simp_all

definition ping_request :: json where
  "ping_request = request ''1'' ''ping'' [(''master'', JStr ''0'')]"

definition talk_env :: "unit env" where
  "talk_env = demo_env\<lparr>e_compact := short_text ping_request, e_parse := parse_object (short_parse ping_request)\<rparr>"

lemma number_one: "number_nat (Suc 0) = ''1''" by code_simp

theorem call_comes_back_witness:
  "\<exists>r c'. d_out (readClient talk_env 1 (encode (short_text ping_request) ping_request) demo_daemon) = [reply talk_env 1 r]
     \<and> readSocket (short_parse ping_request) 5 (encode (short_text ping_request) r) ([], post 0 (Bus Ping) client_init) = ([], c')
     \<and> cl_handlers c' = [] \<and> cl_out c' = Send ping_request # map Emit (answer_signals (Bus Ping) ''1'' (to_object r))"
proof -
  have e: "e_compact talk_env = short_text ping_request" "e_parse talk_env = parse_object (short_parse ping_request)"
    by (simp_all add: talk_env_def)
  have inv: "client_inv client_init" by (simp add: client_inv_def client_init_def kDefaultRequestTimeoutMs_def)
  have "unat (cl_nextId client_init) = 1" by (simp add: client_init_def)
  then have rid: "''1'' = number_nat (unat (cl_nextId client_init))" by (simp add: number_one)
  have out: "cl_out (post 0 (Bus Ping) client_init) = cl_out client_init @ [Send ping_request]"
    by (simp add: post_def Let_def ping_request_def rid [symmetric]) (simp add: client_init_def)
  have len: "length (encode (e_compact talk_env) ping_request) \<le> kMaxSocketBuffer"
    by (simp add: e encode_def short_text_def kMaxSocketBuffer_def)
  have buf: "d_buffers demo_daemon 1 = Some []" by simp
  have fresh: "''1'' \<notin> fst ` set (cl_handlers client_init)" by (simp add: client_init_def)
  have rank: "chain_rank (Bus Ping) = 0" by simp
  have alive: "\<not> d_dead demo_daemon" by simp
  have other: "fst (request_of (Bus Ping)) = ''rtTestStart'' \<longrightarrow> rt_ok (d_rtTest demo_daemon)" by simp
  from call_comes_back [OF alive other, where e = talk_env and parse = "short_parse ping_request" and nrm = "\<lambda>v. v",
      unfolded e, OF short_codec refl
      buf inv rid fresh rank out len [unfolded e], where now' = 5] obtain r c' where
    "d_out (readClient talk_env 1 (encode (short_text ping_request) ping_request) demo_daemon) = [reply talk_env 1 r]"
    "readSocket (short_parse ping_request) 5 (encode (short_text ping_request) r) ([], post 0 (Bus Ping) client_init) = ([], c')"
    "cl_handlers c' = cl_handlers client_init"
    "cl_out c' = cl_out client_init @ Send ping_request # map Emit (answer_signals (Bus Ping) ''1'' (to_object r))"
    by auto
  then show ?thesis by (intro exI [of _ r] exI [of _ c']) (simp add: client_init_def)
qed

end
