(* ===== verification/SlaveStates.thy ===== *)
theory SlaveStates
  imports BoundedLog EcatClient
begin

text \<open>
  The studio's view of the slaves' EtherCAT states (\<^verbatim>\<open>services/StateMachineService.{h,cpp}\<close>) and the checks
  made before dangerous operations (\<^verbatim>\<open>services/SafetyController.{h,cpp}\<close>). A state is the integer of the
  code: 1 INIT, 2 PREOP, 4 SAFEOP, 8 OP, 0 not known. The hashes by position are maps; the client the
  service sends through is the model of \<open>EcatClient\<close>; the signals emitted are logged, newest last.
\<close>

section \<open>The safety controller\<close>

type_synonym validation = "bool \<times> string"

definition kStateInit :: int where "kStateInit = 1"
definition kStatePreOp :: int where "kStatePreOp = 2"
definition kStateSafeOp :: int where "kStateSafeOp = 4"
definition kStateOp :: int where "kStateOp = 8"

definition known_state :: "int \<Rightarrow> bool" where
  "known_state st \<longleftrightarrow> st = kStateInit \<or> st = kStatePreOp \<or> st = kStateSafeOp \<or> st = kStateOp"

definition validateStateTransition :: "int \<Rightarrow> int \<Rightarrow> validation" where
  "validateStateTransition from to =
     (if from = kStateOp \<and> to = kStateInit then
        (False, ''Cannot transition directly from OP to INIT. Must go through SAFE-OP or PRE-OP first.'')
      else if from = kStateOp \<and> to = kStatePreOp then
        (False, ''Cannot transition directly from OP to PRE-OP. Must go through SAFE-OP first.'')
      else if \<not> known_state from \<or> \<not> known_state to then (False, ''Invalid state value.'')
      else (True, []))"

definition validateSdoWrite :: "int \<Rightarrow> string \<Rightarrow> string \<Rightarrow> validation" where
  "validateSdoWrite position index val =
     (if position < 0 then (False, ''Invalid slave position.'')
      else if index = [] then (False, ''SDO index cannot be empty.'')
      else case to_sint (2 ^ 31) 16 index of
        None \<Rightarrow> (True, [])
      | Some idx \<Rightarrow>
          if idx \<ge> 0x1000 \<and> idx < 0x1FFF \<and> (idx = 0x1000 \<or> idx = 0x1001 \<or> idx = 0x1018)
          then (False, ''Object 0x'' @ hex_field 4 (nat idx) @ '' is read-only and cannot be written.'')
          else (True, []))"

definition validateFreeRunStart :: "bool \<Rightarrow> validation" where
  "validateFreeRunStart opStateActive =
     (if \<not> opStateActive then (False, ''Cannot start Free Run: at least one slave must be in OP state.'')
      else (True, []))"

definition validateSdoWriteDuringFreeRun :: "bool \<Rightarrow> validation" where
  "validateSdoWriteDuringFreeRun freeRunActive =
     (if freeRunActive then (False, ''Cannot write SDOs while Free Run is active. Stop Free Run first.'')
      else (True, []))"

section \<open>The state machine service\<close>

record state_transition =
  tr_position :: int
  tr_from :: int
  tr_to :: int
  tr_time :: int
  tr_success :: bool

datatype state_signal =
    TransitionFailed int int int string
  | ChangeRequested int int
  | StateChanged int int

record slave_states =
  ss_client :: client
  ss_current :: "int \<rightharpoonup> int"
  ss_history :: "int \<rightharpoonup> state_transition list"
  ss_signals :: "state_signal list"

definition ss_kMaxHistory :: nat where "ss_kMaxHistory = 500"

definition ss_init :: "client \<Rightarrow> slave_states" where
  "ss_init c = \<lparr>ss_client = c, ss_current = Map.empty, ss_history = Map.empty, ss_signals = []\<rparr>"

definition currentState :: "slave_states \<Rightarrow> int \<Rightarrow> int" where
  "currentState s position = (case ss_current s position of None \<Rightarrow> 0 | Some st \<Rightarrow> st)"

definition stateHistory :: "slave_states \<Rightarrow> int \<Rightarrow> state_transition list" where
  "stateHistory s position = (case ss_history s position of None \<Rightarrow> [] | Some h \<Rightarrow> h)"

definition isValidState :: "int \<Rightarrow> bool" where
  "isValidState st \<longleftrightarrow> st = 1 \<or> st = 2 \<or> st = 4 \<or> st = 8"

definition validateTransition :: "int \<Rightarrow> int \<Rightarrow> bool" where
  "validateTransition from to \<longleftrightarrow>
     (if \<not> isValidState to then False
      else if from = 0 \<and> to = 1 then True
      else if \<not> isValidState from then False
      else if from = to then True
      else if from = 1 then to = 2
      else if from = 2 then to = 4 \<or> to = 1
      else if from = 4 then to = 8 \<or> to = 2 \<or> to = 1
      else if from = 8 then to = 4
      else False)"

definition stateToString :: "int \<Rightarrow> string" where
  "stateToString st =
     (if st = 1 then ''INIT'' else if st = 2 then ''PREOP'' else if st = 4 then ''SAFEOP''
      else if st = 8 then ''OP'' else ''INIT'')"

definition recoveryTargetState :: "int \<Rightarrow> int" where
  "recoveryTargetState current =
     (if current = 8 then 4 else if current = 4 then 2 else if current = 2 then 1 else current)"

definition ss_emit :: "state_signal list \<Rightarrow> slave_states \<Rightarrow> slave_states" where
  "ss_emit sigs s = s\<lparr>ss_signals := ss_signals s @ sigs\<rparr>"

definition record_transition :: "int \<Rightarrow> int \<Rightarrow> int \<Rightarrow> int \<Rightarrow> slave_states \<Rightarrow> slave_states" where
  "record_transition now position from to s =
     s\<lparr>ss_history := (ss_history s)(position \<mapsto> push_pop ss_kMaxHistory
         \<lparr>tr_position = position, tr_from = from, tr_to = to, tr_time = now, tr_success = True\<rparr>
         (stateHistory s position))\<rparr>"

definition requestState :: "int \<Rightarrow> int \<Rightarrow> int \<Rightarrow> slave_states \<Rightarrow> bool \<times> slave_states" where
  "requestState now position st s =
     (let from = currentState s position in
      if \<not> isValidState st then
        (False, ss_emit [TransitionFailed position from st ''Invalid target state''] s)
      else if \<not> validateTransition from st then
        (False, ss_emit [TransitionFailed position from st
           (''Transition from state '' @ number_int from @ '' to '' @ number_int st @ '' is not allowed'')] s)
      else
        let s1 = s\<lparr>ss_client := send now (Bus (SetState position (stateToString st))) (ss_client s)\<rparr>;
            s2 = record_transition now position from st s1;
            s3 = s2\<lparr>ss_current := (ss_current s2)(position \<mapsto> st)\<rparr>
        in (True, ss_emit [ChangeRequested position st, StateChanged position st] s3))"

definition recoverState :: "int \<Rightarrow> int \<Rightarrow> slave_states \<Rightarrow> bool \<times> slave_states" where
  "recoverState now position s =
     (let current = currentState s position in
      if \<not> isValidState current then
        (False, ss_emit [TransitionFailed position current current ''No known state to recover from''] s)
      else let target = recoveryTargetState current in
        if target = current then (True, ss_emit [StateChanged position current] s)
        else requestState now position target s)"

datatype state_op = Request int int int | Recover int int

fun state_step :: "slave_states \<Rightarrow> state_op \<Rightarrow> slave_states" where
  "state_step s (Request now position st) = snd (requestState now position st s)"
| "state_step s (Recover now position) = snd (recoverState now position s)"

section \<open>What an accepted request does\<close>

lemma ss_fields [simp, state_simps]:
  "ss_client (ss_emit sigs s) = ss_client s" "ss_current (ss_emit sigs s) = ss_current s"
  "ss_history (ss_emit sigs s) = ss_history s"
  "ss_client (record_transition now p f t s) = ss_client s" "ss_current (record_transition now p f t s) = ss_current s"
  "stateHistory (ss_emit sigs s) p' = stateHistory s p'" "currentState (ss_emit sigs s) p' = currentState s p'"
  by (simp_all add: ss_emit_def record_transition_def stateHistory_def currentState_def)

lemma known_state_valid: "known_state st = isValidState st"
  by (simp add: known_state_def isValidState_def kStateInit_def kStatePreOp_def kStateSafeOp_def kStateOp_def)

lemma transition_target_valid: "validateTransition a b \<Longrightarrow> isValidState b"
  by (simp add: validateTransition_def split: if_splits)

lemma safe_iff:
  "fst (validateStateTransition a b) \<longleftrightarrow> isValidState a \<and> isValidState b \<and> \<not> (a = 8 \<and> (b = 1 \<or> b = 2))"
  unfolding validateStateTransition_def known_state_valid
  by (auto simp: kStateInit_def kStatePreOp_def kStateOp_def isValidState_def)

lemma accepted_source:
  "validateTransition a b \<Longrightarrow> a = 0 \<and> b = 1 \<or> isValidState a"
  "validateTransition 8 b \<Longrightarrow> b = 8 \<or> b = 4"
  by (simp_all add: validateTransition_def split: if_splits)

lemma accepted_is_safe: "validateTransition a b \<Longrightarrow> a = 0 \<and> b = 1 \<or> fst (validateStateTransition a b)"
  using accepted_source(1) [of a b] accepted_source(2) [of b] transition_target_valid [of a b]
  by (auto simp: safe_iff)

lemma requestState_accepts: "fst (requestState now p st s) \<longleftrightarrow> validateTransition (currentState s p) st"
  by (auto simp: requestState_def Let_def dest: transition_target_valid)

lemma requestState_refused:
  "\<not> validateTransition (currentState s p) st \<Longrightarrow>
     currentState (snd (requestState now p st s)) q = currentState s q
     \<and> stateHistory (snd (requestState now p st s)) q = stateHistory s q
     \<and> ss_client (snd (requestState now p st s)) = ss_client s"
  by (auto simp: requestState_def Let_def)

lemma requestState_done:
  assumes "validateTransition (currentState s p) st"
  shows "currentState (snd (requestState now p st s)) q = (if q = p then st else currentState s q)"
    and "stateHistory (snd (requestState now p st s)) q = (if q = p then push_pop ss_kMaxHistory
         \<lparr>tr_position = p, tr_from = currentState s p, tr_to = st, tr_time = now, tr_success = True\<rparr>
         (stateHistory s p) else stateHistory s q)"
    and "ss_client (snd (requestState now p st s)) = send now (Bus (SetState p (stateToString st))) (ss_client s)"
  using assms transition_target_valid [OF assms]
  by (simp_all add: requestState_def Let_def ss_emit_def record_transition_def stateHistory_def currentState_def)

lemma ss_start [simp]: "currentState (ss_init c) p = 0" "stateHistory (ss_init c) p = []"
  by (simp_all add: ss_init_def currentState_def stateHistory_def)

section \<open>The histories are paths of the diagram\<close>

inductive al_edge :: "int \<Rightarrow> int \<Rightarrow> bool" where
  \<comment> \<open>the EtherCAT diagram by its arrows: up one state at a time, down from SAFEOP and PREOP to any lower state, from OP
     only to SAFEOP; a slave not heard of can be brought to INIT, and a known state can be asked for again\<close>
  edge_known: "al_edge 0 1"
| edge_stay: "a \<in> {1, 2, 4, 8} \<Longrightarrow> al_edge a a"
| edge_IP: "al_edge 1 2" | edge_PS: "al_edge 2 4" | edge_SO: "al_edge 4 8"
| edge_PI: "al_edge 2 1" | edge_SP: "al_edge 4 2" | edge_SI: "al_edge 4 1" | edge_OS: "al_edge 8 4"

inductive_simps al_edge_iff: "al_edge a b"

lemma accepted_edge: "validateTransition a b \<longleftrightarrow> al_edge a b"
  unfolding al_edge_iff by (auto simp: validateTransition_def isValidState_def split: if_splits)

definition rank_of :: "int \<Rightarrow> nat" where
  "rank_of st = (if st = 8 then 3 else if st = 4 then 2 else if st = 2 then 1 else 0)"

lemma edge_climbs_one: "al_edge a b \<Longrightarrow> rank_of b \<le> Suc (rank_of a)"
  by (auto simp: al_edge_iff rank_of_def)

definition follows :: "state_transition \<Rightarrow> state_transition \<Rightarrow> bool" where
  "follows a b \<longleftrightarrow> tr_from b = tr_to a"

definition path_of :: "int \<Rightarrow> int \<Rightarrow> state_transition list \<Rightarrow> bool" where
  \<comment> \<open>the list is a path of the diagram, of one slave, that ends in the given state\<close>
  "path_of position st h \<longleftrightarrow>
     length h \<le> ss_kMaxHistory \<and> successively follows h
     \<and> list_all (\<lambda>t. tr_position t = position \<and> tr_success t \<and> al_edge (tr_from t) (tr_to t)) h
     \<and> (if h = [] then st = 0 else tr_to (last h) = st)"

lemma successively_drop: "successively P xs \<Longrightarrow> successively P (drop n xs)"
  by (metis append_take_drop_id successively_append_iff)

lemma path_of_push:
  assumes h: "path_of p st h" and st: "al_edge st st'"
  shows "path_of p st' (push_pop ss_kMaxHistory
     \<lparr>tr_position = p, tr_from = st, tr_to = st', tr_time = now, tr_success = True\<rparr> h)"
proof -
  define t where "t = \<lparr>tr_position = p, tr_from = st, tr_to = st', tr_time = now, tr_success = True\<rparr>"
  have len: "length h \<le> ss_kMaxHistory" using h by (simp add: path_of_def)
  have chain: "successively follows (h @ [t])"
    using h by (cases "h = []") (auto simp: path_of_def successively_append_iff follows_def t_def)
  have all: "list_all (\<lambda>t. tr_position t = p \<and> tr_success t \<and> al_edge (tr_from t) (tr_to t)) (h @ [t])"
    using h st by (simp add: path_of_def t_def)
  have sub: "set (last_n ss_kMaxHistory (h @ [t])) \<subseteq> set (h @ [t])" by (rule set_last_n_subset)
  have nonempty: "last_n ss_kMaxHistory (h @ [t]) \<noteq> []" and last: "last (last_n ss_kMaxHistory (h @ [t])) = t"
    by (simp_all add: last_n_def ss_kMaxHistory_def)
  have "path_of p st' (last_n ss_kMaxHistory (h @ [t]))"
    unfolding path_of_def
  proof (intro conjI)
    show "successively follows (last_n ss_kMaxHistory (h @ [t]))"
      unfolding last_n_def by (rule successively_drop [OF chain])
    show "list_all (\<lambda>t. tr_position t = p \<and> tr_success t \<and> al_edge (tr_from t) (tr_to t))
        (last_n ss_kMaxHistory (h @ [t]))"
      using all sub by (auto simp only: list_all_iff subset_iff)
  qed (simp_all add: nonempty last, simp add: t_def)
  then show ?thesis by (simp add: t_def push_pop_last_n [OF len])
qed

definition states_inv :: "slave_states \<Rightarrow> bool" where
  "states_inv s \<longleftrightarrow> (\<forall>p. path_of p (currentState s p) (stateHistory s p))"

lemma states_inv_init: "states_inv (ss_init c)"
  by (simp add: states_inv_def path_of_def)

lemma states_inv_request: "states_inv s \<Longrightarrow> states_inv (snd (requestState now p st s))"
  by (cases "validateTransition (currentState s p) st")
     (auto simp: states_inv_def requestState_refused requestState_done accepted_edge path_of_push)

lemma states_inv_recover: "states_inv s \<Longrightarrow> states_inv (snd (recoverState now p s))"
  by (auto simp: recoverState_def Let_def states_inv_request) (simp_all add: states_inv_def)

lemma states_inv_steps: "states_inv s \<Longrightarrow> states_inv (foldl state_step s ops)"
proof (rule foldl_invariant)
  fix s x
  assume "states_inv s"
  then show "states_inv (state_step s x)" by (cases x) (simp_all add: states_inv_request states_inv_recover)
qed

interpretation state_history: bounded_log
  "\<lambda>t h. push_pop ss_kMaxHistory t h" "\<lambda>h. h" "\<lambda>h. length h \<le> ss_kMaxHistory" ss_kMaxHistory
  by unfold_locales (auto simp: push_pop_last_n ss_kMaxHistory_def)

lemma path_safe: "path_of p st h \<Longrightarrow> t \<in> set h \<Longrightarrow> tr_from t = 0 \<and> tr_to t = 1 \<or> fst (validateStateTransition (tr_from t) (tr_to t))"
  using accepted_is_safe by (auto simp: path_of_def list_all_iff accepted_edge)

lemma path_climbs: "path_of p st h \<Longrightarrow> t \<in> set h \<Longrightarrow> rank_of (tr_to t) \<le> Suc (rank_of (tr_from t))"
  using edge_climbs_one by (auto simp: path_of_def list_all_iff)

text \<open>
  Claim C19 (safety). The recorded states follow the EtherCAT state diagram, whose arrows \<open>al_edge\<close> lists: after any
  requests and recoveries for any slaves, in any order, each slave's history is a path of its own transitions
  along the arrows that ends in its current state and keeps at most 500 of them; no transition climbs more than one
  state, so that OP is entered only from SAFEOP; every one but the first known state (0 to INIT) is
  one the safety controller allows; and a further request is accepted exactly if it follows an arrow.
\<close>

theorem slave_states_follow_the_diagram:
  "let s = foldl state_step (ss_init c) ops
   in path_of p (currentState s p) (stateHistory s p)
    \<and> list_all (\<lambda>t. rank_of (tr_to t) \<le> Suc (rank_of (tr_from t))
         \<and> (tr_from t = 0 \<and> tr_to t = 1 \<or> fst (validateStateTransition (tr_from t) (tr_to t)))) (stateHistory s p)
    \<and> (fst (requestState now p st s) \<longleftrightarrow> al_edge (currentState s p) st)"
proof -
  have path: "path_of p (currentState (foldl state_step (ss_init c) ops) p) (stateHistory (foldl state_step (ss_init c) ops) p)"
    using states_inv_steps [OF states_inv_init, of c ops] by (simp add: states_inv_def)
  then show ?thesis
    using path_safe [OF path] path_climbs [OF path] by (simp add: Let_def list_all_iff requestState_accepts accepted_edge)
qed

section \<open>Recovery\<close>

fun recover_n :: "nat \<Rightarrow> int \<Rightarrow> int \<Rightarrow> slave_states \<Rightarrow> bool \<times> slave_states" where
  "recover_n 0 now p s = (True, s)"
| "recover_n (Suc n) now p s =
     (let (ok, s') = recoverState now p s; (oks, s'') = recover_n n now p s' in (ok \<and> oks, s''))"

lemma recoverState_step:
  assumes "isValidState (currentState s p)"
  shows "fst (recoverState now p s)"
    and "currentState (snd (recoverState now p s)) p = recoveryTargetState (currentState s p)"
proof -
  let ?c = "currentState s p"
  have v: "recoveryTargetState ?c \<noteq> ?c \<Longrightarrow> validateTransition ?c (recoveryTargetState ?c)"
    using assms by (auto simp: recoveryTargetState_def validateTransition_def isValidState_def)
  show "fst (recoverState now p s)"
    using assms v by (simp add: recoverState_def Let_def requestState_accepts)
  show "currentState (snd (recoverState now p s)) p = recoveryTargetState ?c"
    using assms v by (simp add: recoverState_def Let_def requestState_done)
qed

lemma recovery_target:
  "isValidState c \<Longrightarrow> isValidState (recoveryTargetState c) \<and> rank_of (recoveryTargetState c) = rank_of c - 1"
  "isValidState c \<Longrightarrow> rank_of c = 0 \<Longrightarrow> c = 1"
  by (auto simp: isValidState_def recoveryTargetState_def rank_of_def split: if_splits)

text \<open>
  Claim C39 (termination). Recovery comes down to INIT one state at a time: from any known state, as many recoveries as
  the state is above INIT, or more, all succeed and leave the slave in INIT; three are always enough.
\<close>

theorem recovery_reaches_init:
  assumes "isValidState (currentState s p)" and "rank_of (currentState s p) \<le> n"
  shows "fst (recover_n n now p s) \<and> currentState (snd (recover_n n now p s)) p = 1
    \<and> rank_of (currentState s p) \<le> 3"
proof -
  have "rank_of (currentState s p) \<le> 3" by (simp add: rank_of_def)
  moreover have "fst (recover_n n now p s) \<and> currentState (snd (recover_n n now p s)) p = 1"
    using assms
  proof (induction n arbitrary: s)
    case 0
    then show ?case using recovery_target(2) by simp
  next
    case (Suc n)
    note step = recoverState_step [OF Suc.prems(1), of now]
    have "fst (recover_n n now p (snd (recoverState now p s)))
        \<and> currentState (snd (recover_n n now p (snd (recoverState now p s)))) p = 1"
      using Suc.prems recovery_target(1) [OF Suc.prems(1)] by (intro Suc.IH) (simp_all add: step)
    then show ?case using step(1) by (simp add: case_prod_unfold)
  qed
  ultimately show ?thesis by simp
qed

theorem recovery_reaches_init_witness:
  "let s = foldl state_step (ss_init client_init) [Request 0 5 1, Request 1 5 2, Request 2 5 4]
   in currentState s 5 = 4 \<and> fst (recover_n 2 9 5 s) \<and> currentState (snd (recover_n 2 9 5 s)) 5 = 1"
proof -
  let ?s = "foldl state_step (ss_init client_init) [Request 0 5 1, Request 1 5 2, Request 2 5 4]"
  have cur: "currentState ?s 5 = 4"
    by (simp add: requestState_done ss_start validateTransition_def isValidState_def)
  show ?thesis
    using recovery_reaches_init [of ?s 5 2 9] cur by (simp add: isValidState_def rank_of_def Let_def)
qed

text \<open>The local state is advanced whether or not the request could be sent.\<close>

theorem optimistic_without_connection:
  assumes "\<not> isConnected (ss_client s)" and "validateTransition (currentState s p) st"
  shows "currentState (snd (requestState now p st s)) p = st
    \<and> cl_out (ss_client (snd (requestState now p st s))) = cl_out (ss_client s) @ [Emit (SigErrorMessage not_connected)]"
  using assms
  by (simp add: requestState_done send.simps run_handler.simps error_result_def continue_with_def settle_def effect_def)

theorem optimistic_without_connection_witness:
  "currentState (snd (requestState 0 3 1 (ss_init client_init))) 3 = 1"
  using optimistic_without_connection [of "ss_init client_init" 3 1 0]
  by (simp add: ss_init_def client_init_def isConnected_def validateTransition_def isValidState_def currentState_def)

theorem sdo_value_is_not_checked: "validateSdoWrite position index v = validateSdoWrite position index w"
  by (simp add: validateSdoWrite_def)

end
