(* ===== verification/AsyncOperations.thy ===== *)
theory AsyncOperations
  imports QtHash QtJson
begin

text \<open>
  The studio's executor of background operations (\<^verbatim>\<open>services/AsyncOperationManager.{h,cpp}\<close>): a table of
  operations, a queue, at most \<open>maxConcurrent\<close> of them on the thread pool. An operation given to the pool is a
  worker; when its function returns, the worker reads the operation's cancellation flag and posts the
  result to the manager's event queue. What the function returns or throws is an argument of that step.
  The worker holds a pointer to the flag: reading it after the operation was deleted is recorded in
  \<open>am_dangling\<close>, with the value found there as an argument. The identifiers, random in the code,
  are arguments that have not been used before. Each method runs as one step. The mutex is held throughout a
  method except in two that only the manager's thread runs: \<open>processQueue\<close> holds it for each pass, and
  \<open>onOperationFinished\<close> releases it between the block that settles the operation and the block that bounds the table, and
  emits a signal there; what other threads or the receivers of that signal do in between is not interleaved. The
  destructor is left out.
\<close>

section \<open>Data\<close>

datatype op_priority = Low | Normal | High | Critical

fun priority_rank :: "op_priority \<Rightarrow> int" where
  "priority_rank Low = 0"
| "priority_rank Normal = 1"
| "priority_rank High = 2"
| "priority_rank Critical = 3"

instantiation op_priority :: linorder
begin

definition less_eq_op_priority :: "op_priority \<Rightarrow> op_priority \<Rightarrow> bool" where
  "less_eq_op_priority a b \<longleftrightarrow> priority_rank a \<le> priority_rank b"

definition less_op_priority :: "op_priority \<Rightarrow> op_priority \<Rightarrow> bool" where
  "less_op_priority a b \<longleftrightarrow> priority_rank a < priority_rank b"

instance
proof
  fix a b :: op_priority
  show "a \<le> b \<Longrightarrow> b \<le> a \<Longrightarrow> a = b"
    by (cases a; cases b) (simp_all add: less_eq_op_priority_def)
qed (auto simp: less_eq_op_priority_def less_op_priority_def)

end

datatype operation_state = OpPending | OpRunning | OpCompleted | OpFailed | OpCancelled

record op_result =
  res_success :: bool
  res_data :: jobject
  res_error :: string

record operation =
  op_name :: string
  op_priority :: op_priority
  op_state :: operation_state
  op_progress :: int
  op_timeoutMs :: int
  op_result :: op_result
  op_cancelled :: bool

datatype op_signal =
    OperationStarted string
  | OperationCompleted string op_result
  | OperationFailed string string

record async_manager =
  am_maxConcurrent :: int
  am_runningCount :: int
  am_operations :: "(string \<times> operation) list"
  am_queue :: "string list"
  am_finishedOrder :: "string list"
  am_workers :: "string list"
  am_posted :: "(string \<times> op_result) list"
  am_timers :: "string list"
  am_signals :: "op_signal list"
  am_dangling :: bool

definition kMaxRetainedOperations :: nat where "kMaxRetainedOperations = 64"

definition am_init :: "int \<Rightarrow> async_manager" where
  "am_init maxConcurrent = \<lparr>am_maxConcurrent = maxConcurrent, am_runningCount = 0, am_operations = [],
     am_queue = [], am_finishedOrder = [], am_workers = [], am_posted = [], am_timers = [],
     am_signals = [], am_dangling = False\<rparr>"

definition new_operation :: "string \<Rightarrow> op_priority \<Rightarrow> int \<Rightarrow> operation" where
  "new_operation nm pr timeoutMs = \<lparr>op_name = nm, op_priority = pr, op_state = OpPending, op_progress = 0,
     op_timeoutMs = timeoutMs, op_result = \<lparr>res_success = False, res_data = [], res_error = []\<rparr>,
     op_cancelled = False\<rparr>"

abbreviation lookup_op :: "async_manager \<Rightarrow> string \<Rightarrow> operation option" where
  "lookup_op s \<equiv> map_of (am_operations s)"

section \<open>The methods\<close>

definition start_op :: "string \<Rightarrow> async_manager \<Rightarrow> async_manager" where
  "start_op opid s = s\<lparr>am_operations := hash_adjust opid (\<lambda>x. x\<lparr>op_state := OpRunning\<rparr>) (am_operations s),
     am_runningCount := am_runningCount s + 1, am_workers := am_workers s @ [opid],
     am_signals := am_signals s @ [OperationStarted opid]\<rparr>"

definition execute :: "string \<Rightarrow> string \<Rightarrow> op_priority \<Rightarrow> int \<Rightarrow> async_manager \<Rightarrow> async_manager" where
  "execute opid nm pr timeoutMs s =
     (let s1 = s\<lparr>am_operations := hash_insert opid (new_operation nm pr timeoutMs) (am_operations s)\<rparr>;
          s2 = (if am_runningCount s1 < am_maxConcurrent s1 then start_op opid s1
                else s1\<lparr>am_queue := am_queue s1 @ [opid]\<rparr>)
      in if timeoutMs > 0 then s2\<lparr>am_timers := am_timers s2 @ [opid]\<rparr> else s2)"

definition cancel :: "string \<Rightarrow> async_manager \<Rightarrow> bool \<times> async_manager" where
  "cancel opid s =
     (case lookup_op s opid of
        None \<Rightarrow> (False, s)
      | Some x \<Rightarrow>
          let s1 = s\<lparr>am_operations := hash_adjust opid (\<lambda>x. x\<lparr>op_cancelled := True\<rparr>) (am_operations s)\<rparr> in
          if op_state x = OpPending then
            (True, s1\<lparr>am_queue := removeAll opid (am_queue s1),
               am_operations := hash_remove opid (am_operations s1)\<rparr>)
          else if op_state x = OpRunning then
            (True, s1\<lparr>am_operations := hash_adjust opid (\<lambda>x. x\<lparr>op_state := OpCancelled\<rparr>) (am_operations s1)\<rparr>)
          else (False, s1))"

definition isRunning :: "async_manager \<Rightarrow> string \<Rightarrow> bool" where
  "isRunning s opid = (case lookup_op s opid of None \<Rightarrow> False | Some x \<Rightarrow> op_state x = OpRunning)"

definition op_progress_of :: "async_manager \<Rightarrow> string \<Rightarrow> int" where
  "op_progress_of s opid = (case lookup_op s opid of None \<Rightarrow> 0 | Some x \<Rightarrow> op_progress x)"

definition op_result_of :: "async_manager \<Rightarrow> string \<Rightarrow> op_result" where
  "op_result_of s opid = (case lookup_op s opid of
     None \<Rightarrow> \<lparr>res_success = False, res_data = [], res_error = ''Not found''\<rparr> | Some x \<Rightarrow> op_result x)"

definition cancel_visit :: "operation \<Rightarrow> bool \<times> operation" where
  \<comment> \<open>one turn of the loop of \<open>cancelAll\<close>: whether the entry is collected for deletion, and the entry after\<close>
  "cancel_visit x =
     (let wasRunning = (op_state x = OpRunning);
          x' = (if op_state x = OpPending \<or> wasRunning then x\<lparr>op_cancelled := True, op_state := OpCancelled\<rparr> else x)
      in (\<not> wasRunning \<and> op_state x' = OpCancelled, x'))"

definition cancelAll :: "async_manager \<Rightarrow> async_manager" where
  "cancelAll s =
     (let visited = map (\<lambda>p. (fst p, cancel_visit (snd p))) (am_operations s);
          toRemove = map fst (filter (\<lambda>p. fst (snd p)) visited)
      in s\<lparr>am_operations := filter (\<lambda>p. fst p \<notin> set toRemove) (map (\<lambda>p. (fst p, snd (snd p))) visited),
           am_queue := []\<rparr>)"

fun scan_queue :: "(string \<times> operation) list \<Rightarrow> nat \<Rightarrow> nat option \<times> int \<Rightarrow> string list \<Rightarrow> nat option \<times> int" where
  \<comment> \<open>\<open>bestIndex\<close> is None for -1\<close>
  "scan_queue ops i best [] = best"
| "scan_queue ops i best (opid # q) =
     scan_queue ops (Suc i)
       (case map_of ops opid of
          None \<Rightarrow> best
        | Some x \<Rightarrow>
            if op_state x = OpCancelled then best
            else if priority_rank (op_priority x) > snd best then (Some i, priority_rank (op_priority x))
            else best) q"

definition best_index :: "async_manager \<Rightarrow> nat option" where
  "best_index s = fst (scan_queue (am_operations s) 0 (None, - 1) (am_queue s))"

definition remove_at :: "nat \<Rightarrow> 'a list \<Rightarrow> 'a list" where
  "remove_at i xs = take i xs @ drop (Suc i) xs"

lemma scan_queue_bound:
  "fst (scan_queue ops i b q) = Some j \<Longrightarrow> fst b = Some j \<or> i \<le> j \<and> j < i + length q"
proof (induction q arbitrary: i b)
  case (Cons x q)
  then show ?case by (auto split: option.splits if_splits dest!: Cons.IH)
qed simp

lemma best_index_bound: "best_index s = Some i \<Longrightarrow> i < length (am_queue s)"
  unfolding best_index_def by (auto dest: scan_queue_bound)

lemma length_remove_at [simp]: "i < length xs \<Longrightarrow> length (remove_at i xs) = length xs - 1"
  by (simp add: remove_at_def)

lemma start_op_queue [simp]: "am_queue (start_op x s) = am_queue s"
  by (simp add: start_op_def)

function processQueue :: "async_manager \<Rightarrow> async_manager" where
  "processQueue s =
     (if am_runningCount s < am_maxConcurrent s \<and> am_queue s \<noteq> [] then
        (case best_index s of
           None \<Rightarrow> s\<lparr>am_queue := []\<rparr>
         | Some i \<Rightarrow>
             let opid = am_queue s ! i;
                 s1 = s\<lparr>am_queue := remove_at i (am_queue s)\<rparr>
             in (case lookup_op s1 opid of
                   None \<Rightarrow> processQueue s1
                 | Some x \<Rightarrow> if op_state x = OpCancelled then processQueue s1
                            else processQueue (start_op opid s1)))
      else s)"
  by pat_completeness auto

termination
  by (relation "measure (\<lambda>s. length (am_queue s))") (auto dest: best_index_bound)

declare processQueue.simps [simp del]

fun evict_finished :: "(string \<times> operation) list \<Rightarrow> string list \<Rightarrow> (string \<times> operation) list \<times> string list" where
  "evict_finished ops [] = (ops, [])"
| "evict_finished ops (victim # vs) =
     (if length ops > kMaxRetainedOperations then evict_finished (hash_remove victim ops) vs else (ops, victim # vs))"

definition finish_op :: "op_result \<Rightarrow> operation \<Rightarrow> operation" where
  "finish_op r x = x\<lparr>op_result := r, op_state :=
     (if op_state x = OpCancelled then OpCancelled else if res_success r then OpCompleted else OpFailed)\<rparr>"

definition finish_signal :: "string \<Rightarrow> op_result \<Rightarrow> operation \<Rightarrow> op_signal" where
  "finish_signal opid r x =
     (if op_state x = OpCancelled then OperationFailed opid ''Cancelled''
      else if res_success r then OperationCompleted opid r else OperationFailed opid (res_error r))"

definition onOperationFinished :: "string \<Rightarrow> op_result \<Rightarrow> async_manager \<Rightarrow> async_manager" where
  "onOperationFinished opid r s =
     (case lookup_op s opid of
        None \<Rightarrow> s
      | Some x \<Rightarrow>
          let s1 = s\<lparr>am_operations := hash_adjust opid (finish_op r) (am_operations s),
                     am_runningCount := am_runningCount s - 1,
                     am_signals := am_signals s @ [finish_signal opid r x]\<rparr>;
              (ops, order) = evict_finished (am_operations s1) (am_finishedOrder s1 @ [opid])
          in processQueue (s1\<lparr>am_operations := ops, am_finishedOrder := order\<rparr>))"

section \<open>Workers, the event queue and the steps\<close>

datatype worker_outcome = Returned jobject | Threw string | ThrewUnknown

fun worker_result :: "bool \<Rightarrow> worker_outcome \<Rightarrow> op_result" where
  "worker_result flag (Returned d) =
     (if flag then \<lparr>res_success = False, res_data = [], res_error = ''Cancelled''\<rparr>
      else \<lparr>res_success = True, res_data = d, res_error = []\<rparr>)"
| "worker_result flag (Threw what) = \<lparr>res_success = False, res_data = [], res_error = what\<rparr>"
| "worker_result flag ThrewUnknown = \<lparr>res_success = False, res_data = [], res_error = ''Unknown error''\<rparr>"

fun reads_flag :: "worker_outcome \<Rightarrow> bool" where
  "reads_flag (Returned d) = True"
| "reads_flag _ = False"

definition worker_returns :: "string \<Rightarrow> worker_outcome \<Rightarrow> bool \<Rightarrow> async_manager \<Rightarrow> async_manager" where
  "worker_returns opid oc garbage s =
     (let flag = (case lookup_op s opid of None \<Rightarrow> garbage | Some x \<Rightarrow> op_cancelled x)
      in s\<lparr>am_workers := remove1 opid (am_workers s), am_posted := am_posted s @ [(opid, worker_result flag oc)],
           am_dangling := (am_dangling s \<or> lookup_op s opid = None \<and> reads_flag oc)\<rparr>)"

datatype op_event =
    Execute string string op_priority int
  | Cancel string
  | CancelAll
  | TimerFires string
  | WorkerReturns string worker_outcome bool
  | Deliver

definition used_ids :: "async_manager \<Rightarrow> string set" where
  "used_ids s = fst ` set (am_operations s) \<union> set (am_queue s) \<union> set (am_finishedOrder s)
     \<union> set (am_workers s) \<union> fst ` set (am_posted s) \<union> set (am_timers s)"

fun event_ok :: "async_manager \<Rightarrow> op_event \<Rightarrow> bool" where
  "event_ok s (Execute opid nm pr t) \<longleftrightarrow> opid \<notin> used_ids s"
| "event_ok s (Cancel opid) \<longleftrightarrow> True"
| "event_ok s CancelAll \<longleftrightarrow> True"
| "event_ok s (TimerFires opid) \<longleftrightarrow> opid \<in> set (am_timers s)"
| "event_ok s (WorkerReturns opid oc g) \<longleftrightarrow> opid \<in> set (am_workers s)"
| "event_ok s Deliver \<longleftrightarrow> am_posted s \<noteq> []"

fun op_step :: "async_manager \<Rightarrow> op_event \<Rightarrow> async_manager" where
  "op_step s (Execute opid nm pr t) = execute opid nm pr t s"
| "op_step s (Cancel opid) = snd (cancel opid s)"
| "op_step s CancelAll = cancelAll s"
| "op_step s (TimerFires opid) = snd (cancel opid (s\<lparr>am_timers := remove1 opid (am_timers s)\<rparr>))"
| "op_step s (WorkerReturns opid oc g) = worker_returns opid oc g s"
| "op_step s Deliver = (case am_posted s of
     [] \<Rightarrow> s | (opid, r) # rest \<Rightarrow> onOperationFinished opid r (s\<lparr>am_posted := rest\<rparr>))"

inductive am_from :: "(async_manager \<Rightarrow> op_event \<Rightarrow> bool) \<Rightarrow> async_manager \<Rightarrow> async_manager \<Rightarrow> bool" for P s0 where
  am_start: "am_from P s0 s0"
| am_next: "am_from P s0 s \<Longrightarrow> event_ok s e \<Longrightarrow> P s e \<Longrightarrow> am_from P s0 (op_step s e)"

definition any_event :: "async_manager \<Rightarrow> op_event \<Rightarrow> bool" where
  "any_event s e \<longleftrightarrow> True"

section \<open>The invariant\<close>

definition busy :: "async_manager \<Rightarrow> string list" where
  \<comment> \<open>the operations whose worker has not been reported back\<close>
  "busy s = am_workers s @ map fst (am_posted s)"

definition am_base :: "async_manager \<Rightarrow> bool" where
  "am_base s \<longleftrightarrow> distinct (map fst (am_operations s)) \<and> distinct (am_queue s)
     \<and> (\<forall>k. k \<in> set (am_queue s) \<longleftrightarrow> (\<exists>x. lookup_op s k = Some x \<and> op_state x = OpPending))
     \<and> distinct (busy s) \<and> int (length (busy s)) \<le> am_runningCount s
     \<and> am_runningCount s \<le> am_maxConcurrent s
     \<and> (\<forall>k x. lookup_op s k = Some x \<and> op_state x = OpRunning \<longrightarrow> k \<in> set (busy s))
     \<and> set (am_finishedOrder s) \<inter> (set (am_queue s) \<union> set (busy s)) = {}
     \<and> set (am_queue s) \<inter> set (busy s) = {}"

definition am_conserving :: "async_manager \<Rightarrow> bool" where
  "am_conserving s \<longleftrightarrow> (am_queue s = [] \<or> am_runningCount s = am_maxConcurrent s)"

definition am_tight :: "async_manager \<Rightarrow> bool" where
  \<comment> \<open>every slot in use belongs to a worker whose operation is still in the table\<close>
  "am_tight s \<longleftrightarrow> (\<forall>k \<in> set (busy s). lookup_op s k \<noteq> None)
     \<and> am_runningCount s = int (length (busy s)) \<and> \<not> am_dangling s"

declare map_of_eq_Some_iff [simp del]

lemma used_ids_fresh:
  "k \<notin> used_ids s \<Longrightarrow> lookup_op s k = None \<and> k \<notin> set (am_queue s) \<and> k \<notin> set (am_finishedOrder s) \<and> k \<notin> set (busy s)"
  by (auto simp: used_ids_def busy_def map_of_eq_None_iff)

lemma busy_start [simp]:
  "set (busy (start_op k s)) = insert k (set (busy s))"
  "distinct (busy (start_op k s)) \<longleftrightarrow> distinct (busy s) \<and> k \<notin> set (busy s)"
  "length (busy (start_op k s)) = Suc (length (busy s))"
  by (auto simp: busy_def start_op_def)

lemma busy_update [simp]:
  "busy (s\<lparr>am_queue := q\<rparr>) = busy s" "busy (s\<lparr>am_operations := ops\<rparr>) = busy s"
  "busy (s\<lparr>am_finishedOrder := q\<rparr>) = busy s" "busy (s\<lparr>am_timers := q\<rparr>) = busy s"
  "busy (s\<lparr>am_signals := sg\<rparr>) = busy s" "busy (s\<lparr>am_runningCount := n\<rparr>) = busy s"
  by (simp_all add: busy_def)

lemma start_op_fields [simp]:
  "am_operations (start_op k s) = hash_adjust k (\<lambda>x. x\<lparr>op_state := OpRunning\<rparr>) (am_operations s)"
  "am_runningCount (start_op k s) = am_runningCount s + 1"
  "am_maxConcurrent (start_op k s) = am_maxConcurrent s"
  "am_finishedOrder (start_op k s) = am_finishedOrder s"
  "am_dangling (start_op k s) = am_dangling s"
  by (simp_all add: start_op_def)

lemma am_base_pending:
  "am_base s \<Longrightarrow> k \<in> set (am_queue s) \<Longrightarrow> \<exists>x. lookup_op s k = Some x \<and> op_state x = OpPending"
  by (simp add: am_base_def)

lemma am_base_disjoint:
  "am_base s \<Longrightarrow> k \<in> set (am_queue s) \<or> k \<in> set (busy s) \<Longrightarrow> k \<notin> set (am_finishedOrder s)"
  by (auto simp: am_base_def)

lemma remove_at_distinct:
  assumes "i < length xs" and "distinct xs"
  shows "distinct (remove_at i xs)" and "set (remove_at i xs) = set xs - {xs ! i}"
proof -
  have "distinct (take i xs @ xs ! i # drop (Suc i) xs)" using assms by (simp add: id_take_nth_drop [symmetric])
  moreover have "set xs = set (take i xs @ xs ! i # drop (Suc i) xs)" using assms by (simp add: id_take_nth_drop [symmetric])
  ultimately show "distinct (remove_at i xs)" "set (remove_at i xs) = set xs - {xs ! i}"
    by (auto simp: remove_at_def)
qed

subsection \<open>Starting operations\<close>

lemma base_start_fresh:
  assumes "am_base s" and "opid \<notin> used_ids s" and "am_runningCount s < am_maxConcurrent s"
  shows "am_base (start_op opid (s\<lparr>am_operations := hash_insert opid (new_operation nm pr t) (am_operations s)\<rparr>))"
  using assms(1,3) used_ids_fresh [OF assms(2)]
  unfolding am_base_def
  by (intro conjI) (auto simp: map_of_hash_insert map_of_hash_adjust new_operation_def hash_distinct(1) split: if_splits)

lemma base_enqueue_fresh:
  assumes "am_base s" and "opid \<notin> used_ids s"
  shows "am_base (s\<lparr>am_operations := hash_insert opid (new_operation nm pr t) (am_operations s),
    am_queue := am_queue s @ [opid]\<rparr>)"
  using assms(1) used_ids_fresh [OF assms(2)]
  unfolding am_base_def
  by (intro conjI) (auto simp: map_of_hash_insert new_operation_def hash_distinct(1) split: if_splits)

lemma base_start_queued:
  assumes base: "am_base s" and i: "i < length (am_queue s)" and free: "am_runningCount s < am_maxConcurrent s"
  shows "am_base (start_op (am_queue s ! i) (s\<lparr>am_queue := remove_at i (am_queue s)\<rparr>))"
proof -
  have d: "distinct (am_queue s)" using base by (simp add: am_base_def)
  have mem: "am_queue s ! i \<in> set (am_queue s)" using i by simp
  obtain x where x: "lookup_op s (am_queue s ! i) = Some x" "op_state x = OpPending"
    using am_base_pending [OF base mem] by blast
  show ?thesis
    using base free mem x remove_at_distinct [OF i d]
    unfolding am_base_def by (intro conjI) (auto simp: map_of_hash_adjust split: if_splits)
qed

subsection \<open>The choice of the queue\<close>

definition rank_at :: "async_manager \<Rightarrow> string \<Rightarrow> int" where
  "rank_at s k = (case lookup_op s k of None \<Rightarrow> - 1 | Some x \<Rightarrow> priority_rank (op_priority x))"

lemma priority_rank_nonneg: "0 \<le> priority_rank p"
  by (cases p) simp_all

lemma scan_queue_best:
  assumes "\<forall>k \<in> set q. \<exists>x. lookup_op s k = Some x \<and> op_state x = OpPending"
  shows "(\<forall>k \<in> set q. rank_at s k \<le> bp) \<and> scan_queue (am_operations s) i (bi, bp) q = (bi, bp)
    \<or> (\<exists>j < length q. scan_queue (am_operations s) i (bi, bp) q = (Some (i + j), rank_at s (q ! j))
         \<and> bp < rank_at s (q ! j) \<and> (\<forall>k < length q. rank_at s (q ! k) \<le> rank_at s (q ! j))
         \<and> (\<forall>k < j. rank_at s (q ! k) < rank_at s (q ! j)))"
  using assms
proof (induction q arbitrary: i bi bp)
  case (Cons y q)
  then obtain x where x: "lookup_op s y = Some x" "op_state x = OpPending" by auto
  have r: "rank_at s y = priority_rank (op_priority x)" using x by (simp add: rank_at_def)
  have q: "\<forall>k \<in> set q. \<exists>x. lookup_op s k = Some x \<and> op_state x = OpPending" using Cons.prems by simp
  define b where "b = (if rank_at s y > bp then (Some i, rank_at s y) else (bi, bp))"
  have scan: "scan_queue (am_operations s) i (bi, bp) (y # q) = scan_queue (am_operations s) (Suc i) b q"
    using x by (simp add: b_def r)
  show ?case
    using Cons.IH [OF q, of "snd b" "Suc i" "fst b"]
  proof (elim disjE exE conjE)
    assume "\<forall>k \<in> set q. rank_at s k \<le> snd b"
      and "scan_queue (am_operations s) (Suc i) (fst b, snd b) q = (fst b, snd b)"
    then show ?thesis
      unfolding scan by (cases "rank_at s y > bp") (force simp: b_def nth_Cons' intro!: exI [of _ 0])+
  next
    fix j
    assume "j < length q" "scan_queue (am_operations s) (Suc i) (fst b, snd b) q = (Some (Suc i + j), rank_at s (q ! j))"
      "snd b < rank_at s (q ! j)" "\<forall>k < length q. rank_at s (q ! k) \<le> rank_at s (q ! j)"
      "\<forall>k < j. rank_at s (q ! k) < rank_at s (q ! j)"
    then show ?thesis
      unfolding scan
      by (intro disjI2 exI [of _ "Suc j"]) (auto simp: b_def nth_Cons' split: if_splits)
  qed
qed simp

definition first_highest :: "async_manager \<Rightarrow> nat \<Rightarrow> bool" where
  \<comment> \<open>the entry of the queue that should be next: of the highest priority, and the earliest of that\<close>
  "first_highest s i \<longleftrightarrow> i < length (am_queue s)
     \<and> (\<forall>k < length (am_queue s). rank_at s (am_queue s ! k) \<le> rank_at s (am_queue s ! i))
     \<and> (\<forall>k < i. rank_at s (am_queue s ! k) < rank_at s (am_queue s ! i))"

lemma best_index_first_highest:
  assumes "am_base s" and "am_queue s \<noteq> []"
  shows "\<exists>i. best_index s = Some i \<and> first_highest s i"
proof -
  have q: "\<forall>k \<in> set (am_queue s). \<exists>x. lookup_op s k = Some x \<and> op_state x = OpPending"
    using assms by (simp add: am_base_def)
  obtain k where "k \<in> set (am_queue s)" using assms(2) by (cases "am_queue s") auto
  then obtain x where "lookup_op s k = Some x" using q by auto
  then have "- 1 < rank_at s k" using priority_rank_nonneg [of "op_priority x"] by (simp add: rank_at_def)
  then show ?thesis
    using scan_queue_best [OF q, of "- 1" 0 None] \<open>k \<in> set (am_queue s)\<close>
    by (auto simp: best_index_def first_highest_def)
qed

lemma processQueue_start:
  assumes "am_base s" and "am_queue s \<noteq> []" and "am_runningCount s < am_maxConcurrent s"
  shows "\<exists>i. first_highest s i \<and>
    processQueue s = processQueue (start_op (am_queue s ! i) (s\<lparr>am_queue := remove_at i (am_queue s)\<rparr>))"
proof -
  obtain i where i: "best_index s = Some i" "first_highest s i" using best_index_first_highest [OF assms(1,2)] by blast
  then have "am_queue s ! i \<in> set (am_queue s)" by (simp add: first_highest_def)
  then obtain x where "lookup_op s (am_queue s ! i) = Some x" "op_state x = OpPending"
    using assms(1) by (auto simp: am_base_def)
  then show ?thesis using i assms(2,3) by (subst processQueue.simps) (auto simp: Let_def)
qed

lemma processQueue_idle:
  "am_queue s = [] \<or> \<not> am_runningCount s < am_maxConcurrent s \<Longrightarrow> processQueue s = s"
  by (subst processQueue.simps) auto

lemma processQueue_base:
  "am_base s \<Longrightarrow> am_base (processQueue s) \<and> am_conserving (processQueue s)
     \<and> am_maxConcurrent (processQueue s) = am_maxConcurrent s \<and> (am_tight s \<longrightarrow> am_tight (processQueue s))"
proof (induction "length (am_queue s)" arbitrary: s rule: less_induct)
  case less
  show ?case
  proof (cases "am_queue s \<noteq> [] \<and> am_runningCount s < am_maxConcurrent s")
    case True
    then obtain i where i: "first_highest s i"
      and step: "processQueue s = processQueue (start_op (am_queue s ! i) (s\<lparr>am_queue := remove_at i (am_queue s)\<rparr>))"
      using processQueue_start [OF less.prems] by blast
    let ?s = "start_op (am_queue s ! i) (s\<lparr>am_queue := remove_at i (am_queue s)\<rparr>)"
    have i': "i < length (am_queue s)" using i by (simp add: first_highest_def)
    then have mem: "am_queue s ! i \<in> set (am_queue s)" by simp
    have base: "am_base ?s" using base_start_queued [OF less.prems i'] True by simp
    have "am_queue s ! i \<notin> set (busy s)" and "lookup_op s (am_queue s ! i) \<noteq> None"
      using less.prems mem am_base_pending [OF less.prems mem] by (auto simp: am_base_def)
    then have "am_tight s \<longrightarrow> am_tight ?s"
      by (auto simp: am_tight_def map_of_hash_adjust)
    then show ?thesis using less.hyps [of ?s] base i' unfolding step by simp
  next
    case False
    then have id: "processQueue s = s" by (intro processQueue_idle) auto
    show ?thesis using less.prems False by (auto simp: id am_conserving_def am_base_def)
  qed
qed

subsection \<open>The other steps\<close>

lemma worker_returns_fields [simp]:
  "am_operations (worker_returns k oc g s) = am_operations s" "am_queue (worker_returns k oc g s) = am_queue s"
  "am_runningCount (worker_returns k oc g s) = am_runningCount s"
  "am_maxConcurrent (worker_returns k oc g s) = am_maxConcurrent s"
  "am_finishedOrder (worker_returns k oc g s) = am_finishedOrder s"
  by (simp_all add: worker_returns_def Let_def)

lemma busy_worker_returns:
  assumes "k \<in> set (am_workers s)" and "distinct (busy s)"
  shows "set (busy (worker_returns k oc g s)) = set (busy s) \<and> distinct (busy (worker_returns k oc g s))
    \<and> length (busy (worker_returns k oc g s)) = length (busy s)"
proof -
  have "length (am_workers s) \<noteq> 0" using assms(1) by auto
  then show ?thesis
    using assms by (auto simp: busy_def worker_returns_def Let_def length_remove1)
qed

lemma worker_returns_keeps:
  assumes "am_base s" and "k \<in> set (am_workers s)"
  shows "am_base (worker_returns k oc g s)" and "am_tight s \<Longrightarrow> am_tight (worker_returns k oc g s)"
proof -
  have b: "set (busy (worker_returns k oc g s)) = set (busy s)" "distinct (busy (worker_returns k oc g s))"
    "length (busy (worker_returns k oc g s)) = length (busy s)"
    using busy_worker_returns [OF assms(2), of oc g] assms(1) by (simp_all add: am_base_def)
  show "am_base (worker_returns k oc g s)" using assms(1) b by (simp add: am_base_def)
  assume t: "am_tight s"
  then have "lookup_op s k \<noteq> None" using assms(2) by (auto simp: am_tight_def busy_def)
  then show "am_tight (worker_returns k oc g s)"
    using t b by (simp add: am_tight_def worker_returns_def Let_def)
qed

lemma evict_finished_spec:
  "evict_finished ops order = (ops', order') \<Longrightarrow>
     (\<forall>k. k \<notin> set order \<longrightarrow> map_of ops' k = map_of ops k)
     \<and> (\<forall>k y. map_of ops' k = Some y \<longrightarrow> map_of ops k = Some y \<and> (k \<in> set order \<longrightarrow> k \<in> set order'))
     \<and> set order' \<subseteq> set order \<and> (distinct (map fst ops) \<longrightarrow> distinct (map fst ops'))
     \<and> (order' = [] \<or> length ops' \<le> kMaxRetainedOperations)"
proof (induction ops order rule: evict_finished.induct)
  case (2 ops v vs)
  show ?case
  proof (cases "length ops > kMaxRetainedOperations")
    case True
    then have "evict_finished (hash_remove v ops) vs = (ops', order')" using "2.prems" by simp
    note ih = "2.IH" [OF True this]
    show ?thesis
    proof (intro conjI)
      show "\<forall>k y. map_of ops' k = Some y \<longrightarrow> map_of ops k = Some y \<and> (k \<in> set (v # vs) \<longrightarrow> k \<in> set order')"
      proof (intro allI impI)
        fix k y
        assume y: "map_of ops' k = Some y"
        with ih have "map_of (hash_remove v ops) k = Some y" by blast
        then have "k \<noteq> v" "map_of ops k = Some y" by (auto simp: map_of_hash_remove split: if_splits)
        then show "map_of ops k = Some y \<and> (k \<in> set (v # vs) \<longrightarrow> k \<in> set order')" using ih y by auto
      qed
    qed (use ih hash_distinct(2) [of ops v] in \<open>auto simp: map_of_hash_remove\<close>)
  next
    case False
    then show ?thesis using "2.prems" by auto
  qed
qed auto

definition finished_state :: "operation_state \<Rightarrow> bool" where
  "finished_state st \<longleftrightarrow> st = OpCompleted \<or> st = OpFailed"

definition am_retained :: "async_manager \<Rightarrow> bool" where
  \<comment> \<open>the finished operations that are kept are listed for eviction, and there are at most 64\<close>
  "am_retained s \<longleftrightarrow> (\<forall>k x. lookup_op s k = Some x \<and> finished_state (op_state x) \<longrightarrow> k \<in> set (am_finishedOrder s))
     \<and> length (filter (\<lambda>p. finished_state (op_state (snd p))) (am_operations s)) \<le> kMaxRetainedOperations"

definition finished_entry :: "string \<Rightarrow> op_result \<Rightarrow> async_manager \<Rightarrow> async_manager" where
  \<comment> \<open>the state of \<open>onOperationFinished\<close> before the queue is looked at\<close>
  "finished_entry k r s =
     (let x = the (lookup_op s k);
          (ops, order) = evict_finished (hash_adjust k (finish_op r) (am_operations s)) (am_finishedOrder s @ [k])
      in s\<lparr>am_runningCount := am_runningCount s - 1, am_signals := am_signals s @ [finish_signal k r x],
           am_operations := ops, am_finishedOrder := order\<rparr>)"

lemma onOperationFinished_entry:
  "lookup_op s k \<noteq> None \<Longrightarrow> onOperationFinished k r s = processQueue (finished_entry k r s)"
  by (auto simp: onOperationFinished_def finished_entry_def Let_def split: prod.split)

lemma finish_op_state: "op_state (finish_op r x) \<noteq> OpPending \<and> op_state (finish_op r x) \<noteq> OpRunning"
  by (simp add: finish_op_def)

lemma finished_entry_fields [simp]:
  "am_queue (finished_entry k r s) = am_queue s" "am_runningCount (finished_entry k r s) = am_runningCount s - 1"
  "am_maxConcurrent (finished_entry k r s) = am_maxConcurrent s" "busy (finished_entry k r s) = busy s"
  "am_workers (finished_entry k r s) = am_workers s" "am_posted (finished_entry k r s) = am_posted s"
  "am_dangling (finished_entry k r s) = am_dangling s"
  by (simp_all add: finished_entry_def Let_def busy_def split: prod.split)

lemma finished_entry_keeps:
  fixes r :: op_result
  assumes base: "am_base s" and p: "am_posted s = (k, r') # rest" and x: "lookup_op s k = Some x"
  defines "s1 \<equiv> finished_entry k r (s\<lparr>am_posted := rest\<rparr>)"
  shows "am_base s1" and "am_tight s \<Longrightarrow> am_tight s1" and "am_retained s \<Longrightarrow> am_retained s1"
    and "\<And>j. j \<in> set (am_queue s) \<Longrightarrow> lookup_op s1 j = lookup_op s j"
proof -
  let ?A = "hash_adjust k (finish_op r) (am_operations s)"
  obtain ops order where ev: "evict_finished ?A (am_finishedOrder s @ [k]) = (ops, order)" by fastforce
  have f: "am_operations s1 = ops" "am_finishedOrder s1 = order" "busy s1 = am_workers s @ map fst rest"
    unfolding s1_def by (simp_all add: finished_entry_def Let_def ev busy_def)
  note spec = evict_finished_spec [OF ev]
  have bs: "busy s = am_workers s @ k # map fst rest" using p by (simp add: busy_def)
  have k: "k \<notin> set (busy s1)" "set (busy s) = insert k (set (busy s1))" "distinct (busy s1)"
    "length (busy s) = Suc (length (busy s1))"
    using base bs by (auto simp: am_base_def f(3))
  have kq: "k \<notin> set (am_queue s)" using base k(2) by (auto simp: am_base_def)
  have other: "lookup_op s1 j = lookup_op s j" if "j \<notin> set (am_finishedOrder s)" "j \<noteq> k" for j
    using spec that by (simp add: f map_of_hash_adjust)
  have known: "lookup_op s1 j = Some y \<Longrightarrow> j \<noteq> k \<Longrightarrow> lookup_op s j = Some y" for j y
    using spec by (auto simp: f map_of_hash_adjust split: if_splits)
  have knew: "lookup_op s1 k = Some y \<Longrightarrow> y = finish_op r x" for y
    using spec x by (auto simp: f map_of_hash_adjust split: if_splits)
  show q: "lookup_op s1 j = lookup_op s j" if "j \<in> set (am_queue s)" for j
    using other [of j] am_base_disjoint [OF base, of j] that kq by blast
  have busy: "lookup_op s1 j = lookup_op s j" if "j \<in> set (busy s1)" for j
    using other [of j] am_base_disjoint [OF base, of j] that k(1,2) by blast
  have qs1: "am_queue s1 = am_queue s" by (simp add: s1_def)
  have counts: "am_runningCount s1 = am_runningCount s - 1" "am_maxConcurrent s1 = am_maxConcurrent s"
    "am_dangling s1 = am_dangling s" by (simp_all add: s1_def)
  show "am_base s1"
    unfolding am_base_def
  proof (intro conjI allI impI)
    show "distinct (map fst (am_operations s1))" using spec base by (simp add: f am_base_def)
    show "j \<in> set (am_queue s1) \<longleftrightarrow> (\<exists>y. lookup_op s1 j = Some y \<and> op_state y = OpPending)" for j
    proof
      assume "j \<in> set (am_queue s1)"
      then show "\<exists>y. lookup_op s1 j = Some y \<and> op_state y = OpPending"
        using q [of j] am_base_pending [OF base] by (simp add: qs1)
    next
      assume "\<exists>y. lookup_op s1 j = Some y \<and> op_state y = OpPending"
      then obtain y where y: "lookup_op s1 j = Some y" "op_state y = OpPending" by blast
      then have "j \<noteq> k" using knew finish_op_state [of r x] by auto
      then have "lookup_op s j = Some y" using known y by blast
      then show "j \<in> set (am_queue s1)" using base y by (auto simp: am_base_def qs1)
    qed
    fix j y
    assume y: "lookup_op s1 j = Some y \<and> op_state y = OpRunning"
    then have jk: "j \<noteq> k" using knew finish_op_state [of r x] by auto
    then have "lookup_op s j = Some y" using known y by blast
    then have "j \<in> set (busy s)" using base y by (auto simp: am_base_def)
    then show "j \<in> set (busy s1)" using k(2) jk by simp
  next
    show "set (am_finishedOrder s1) \<inter> (set (am_queue s1) \<union> set (busy s1)) = {}"
    proof -
      have "set (am_finishedOrder s1) \<subseteq> insert k (set (am_finishedOrder s))" using spec by (auto simp: f(2))
      moreover have "set (am_finishedOrder s) \<inter> (set (am_queue s) \<union> set (busy s)) = {}"
        using base by (simp add: am_base_def)
      ultimately show ?thesis using k(1,2) kq by (auto simp: qs1)
    qed
    show "set (am_queue s1) \<inter> set (busy s1) = {}" using base k(2) by (auto simp: am_base_def qs1)
    show "int (length (busy s1)) \<le> am_runningCount s1" and "am_runningCount s1 \<le> am_maxConcurrent s1"
      using base k(4) by (simp_all add: counts am_base_def)
    show "distinct (am_queue s1)" using base by (simp add: am_base_def qs1)
  qed (rule k(3))
  show "am_tight s1" if "am_tight s"
    using that k(2,4) busy by (auto simp: am_tight_def counts)
  have listed: "j \<in> set (am_finishedOrder s1)"
    if "am_retained s" and y: "lookup_op s1 j = Some y \<and> finished_state (op_state y)" for j y
  proof -
    have "j \<in> set (am_finishedOrder s @ [k])"
      using that known [of j y] by (cases "j = k") (auto simp: am_retained_def)
    then show ?thesis using spec y by (auto simp: f)
  qed
  show "am_retained s1" if ret: "am_retained s"
    unfolding am_retained_def
  proof (intro conjI allI impI)
    fix j y
    assume "lookup_op s1 j = Some y \<and> finished_state (op_state y)"
    then show "j \<in> set (am_finishedOrder s1)" by (rule listed [OF ret])
  next
    show "length (filter (\<lambda>p. finished_state (op_state (snd p))) (am_operations s1)) \<le> kMaxRetainedOperations"
    proof (cases "order = []")
      case False
      then have "length ops \<le> kMaxRetainedOperations" using spec by blast
      then show ?thesis using le_trans [OF length_filter_le] by (simp add: f)
    next
      case True
      have "\<not> finished_state (op_state (snd p))" if "p \<in> set ops" for p
      proof
        assume "finished_state (op_state (snd p))"
        moreover have "map_of ops (fst p) = Some (snd p)"
          using that spec base by (simp add: am_base_def)
        ultimately show False using listed [OF ret, of "fst p" "snd p"] True by (simp add: f)
      qed
      then show ?thesis by (simp add: f)
    qed
  qed
qed

lemma am_retained_queue [simp]:
  "am_retained (s\<lparr>am_queue := q\<rparr>) = am_retained s" "am_retained (s\<lparr>am_timers := ts\<rparr>) = am_retained s"
  by (simp_all add: am_retained_def)

lemma filter_state_adjust:
  assumes "\<And>x. map_of ops k = Some x \<Longrightarrow> finished_state (op_state (f x)) = finished_state (op_state x)"
    and "distinct (map fst ops)"
  shows "length (filter (\<lambda>p. finished_state (op_state (snd p))) (hash_adjust k f ops))
    = length (filter (\<lambda>p. finished_state (op_state (snd p))) ops)"
proof -
  have "finished_state (op_state (snd (if fst p = k then (fst p, f (snd p)) else p))) = finished_state (op_state (snd p))"
    if "p \<in> set ops" for p
  proof (cases "fst p = k")
    case True
    then have "map_of ops k = Some (snd p)" using that assms(2) by (metis map_of_eq_Some_iff prod.collapse)
    then show ?thesis using assms(1) by simp
  qed simp
  then have "filter (\<lambda>p. finished_state (op_state (snd (if fst p = k then (fst p, f (snd p)) else p)))) ops
      = filter (\<lambda>p. finished_state (op_state (snd p))) ops"
    by (intro filter_cong) auto
  then show ?thesis by (simp add: hash_adjust_def filter_map comp_def)
qed

lemma retained_adjust:
  assumes "am_retained s" and "distinct (map fst (am_operations s))"
    and "\<And>x. lookup_op s k = Some x \<Longrightarrow> finished_state (op_state (f x)) = finished_state (op_state x)"
    and "am_operations s' = hash_adjust k f (am_operations s)" and "am_finishedOrder s' = am_finishedOrder s"
  shows "am_retained s'"
  using assms filter_state_adjust [of "am_operations s" k f]
  by (auto simp: am_retained_def map_of_hash_adjust split: if_splits)

lemma start_op_retained:
  assumes "am_base s" and "am_retained s" and "lookup_op s k = Some x" and "op_state x = OpPending"
  shows "am_retained (start_op k s)"
  using assms by (intro retained_adjust [OF assms(2)]) (auto simp: am_base_def finished_state_def)

lemma processQueue_retained: "am_base s \<Longrightarrow> am_retained s \<Longrightarrow> am_retained (processQueue s)"
proof (induction "length (am_queue s)" arbitrary: s rule: less_induct)
  case less
  show ?case
  proof (cases "am_queue s \<noteq> [] \<and> am_runningCount s < am_maxConcurrent s")
    case True
    then obtain i where i: "first_highest s i"
      and step: "processQueue s = processQueue (start_op (am_queue s ! i) (s\<lparr>am_queue := remove_at i (am_queue s)\<rparr>))"
      using processQueue_start [OF less.prems(1)] by blast
    let ?s = "start_op (am_queue s ! i) (s\<lparr>am_queue := remove_at i (am_queue s)\<rparr>)"
    have i': "i < length (am_queue s)" using i by (simp add: first_highest_def)
    have base: "am_base ?s" using base_start_queued [OF less.prems(1) i'] True by simp
    obtain x where x: "lookup_op s (am_queue s ! i) = Some x" "op_state x = OpPending"
      using am_base_pending [OF less.prems(1) nth_mem [OF i']] by blast
    have "am_retained (start_op (am_queue s ! i) s)" by (rule start_op_retained [OF less.prems x])
    then have "am_retained ?s" by (simp add: am_retained_def)
    then show ?thesis using less.hyps [of ?s] base i' unfolding step by simp
  next
    case False
    then have "processQueue s = s" by (intro processQueue_idle) auto
    then show ?thesis using less.prems by simp
  qed
qed

subsection \<open>Submitting, cancelling and delivering\<close>

definition am_inv :: "async_manager \<Rightarrow> bool" where
  "am_inv s \<longleftrightarrow> am_base s \<and> am_conserving s \<and> am_retained s"

lemma am_inv_timers [simp]: "am_inv (s\<lparr>am_timers := ts\<rparr>) = am_inv s" "am_tight (s\<lparr>am_timers := ts\<rparr>) = am_tight s"
  "am_base (s\<lparr>am_timers := ts\<rparr>) = am_base s" "am_conserving (s\<lparr>am_timers := ts\<rparr>) = am_conserving s"
  by (simp_all add: am_inv_def am_base_def am_conserving_def am_tight_def)

lemma new_operation_state [simp]: "op_state (new_operation nm pr t) = OpPending"
  by (simp add: new_operation_def)

lemma retained_insert:
  assumes "am_retained s" and "lookup_op s k = None"
  shows "am_retained (s\<lparr>am_operations := hash_insert k (new_operation nm pr t) (am_operations s)\<rparr>)"
proof -
  have "filter (\<lambda>p. finished_state (op_state (snd p))) (hash_insert k (new_operation nm pr t) (am_operations s))
      = filter (\<lambda>p. finished_state (op_state (snd p))) (filter (\<lambda>p. fst p \<noteq> k) (am_operations s))"
    by (simp add: hash_insert_def finished_state_def)
  moreover have "filter (\<lambda>p. fst p \<noteq> k) (am_operations s) = am_operations s"
    using assms(2) by (auto simp: filter_id_conv map_of_eq_None_iff)
  ultimately show ?thesis
    using assms by (auto simp: am_retained_def map_of_hash_insert finished_state_def split: if_splits)
qed

lemma execute_keeps:
  assumes inv: "am_inv s" and fresh: "k \<notin> used_ids s"
  shows "am_inv (execute k nm pr t s)" and "am_tight s \<Longrightarrow> am_tight (execute k nm pr t s)"
proof -
  let ?s1 = "s\<lparr>am_operations := hash_insert k (new_operation nm pr t) (am_operations s)\<rparr>"
  let ?s2 = "if am_runningCount s < am_maxConcurrent s then start_op k ?s1 else ?s1\<lparr>am_queue := am_queue s @ [k]\<rparr>"
  have ex: "execute k nm pr t s = ?s2 \<or> execute k nm pr t s = ?s2\<lparr>am_timers := am_timers ?s2 @ [k]\<rparr>"
    by (simp add: execute_def Let_def)
  note base = inv [unfolded am_inv_def, THEN conjunct1]
  note no = used_ids_fresh [OF fresh]
  have ret: "am_retained ?s1" using inv no by (simp add: am_inv_def retained_insert)
  have "am_inv ?s2"
  proof (cases "am_runningCount s < am_maxConcurrent s")
    case True
    have "am_queue s = []" using inv True by (auto simp: am_inv_def am_conserving_def)
    moreover have "am_retained (start_op k ?s1)"
      using base by (intro retained_adjust [OF ret])
        (auto simp: map_of_hash_insert hash_distinct am_base_def finished_state_def)
    ultimately show ?thesis
      using base_start_fresh [OF base fresh True] True by (simp add: am_inv_def am_conserving_def)
  next
    case False
    then have "am_runningCount s = am_maxConcurrent s" using base by (simp add: am_base_def)
    then show ?thesis
      using base_enqueue_fresh [OF base fresh] ret False by (simp add: am_inv_def am_conserving_def)
  qed
  then show "am_inv (execute k nm pr t s)" using ex by auto
  assume t: "am_tight s"
  have "am_tight ?s2"
    using t no by (auto simp: am_tight_def map_of_hash_adjust map_of_hash_insert)
  then show "am_tight (execute k nm pr t s)" using ex by auto
qed

lemma deliver_keeps:
  assumes inv: "am_inv s" and p: "am_posted s = (k, r) # rest"
  shows "am_inv (onOperationFinished k r (s\<lparr>am_posted := rest\<rparr>))"
    and "am_tight s \<Longrightarrow> am_tight (onOperationFinished k r (s\<lparr>am_posted := rest\<rparr>))"
proof -
  let ?s = "s\<lparr>am_posted := rest\<rparr>"
  have base: "am_base s" and ret: "am_retained s" using inv by (simp_all add: am_inv_def)
  have busy: "busy s = am_workers s @ k # map fst rest" "busy ?s = am_workers s @ map fst rest"
    using p by (simp_all add: busy_def)
  have "am_inv (onOperationFinished k r ?s) \<and> (am_tight s \<longrightarrow> am_tight (onOperationFinished k r ?s))"
  proof (cases "lookup_op s k")
    case None
    then have id: "onOperationFinished k r ?s = ?s" by (simp add: onOperationFinished_def)
    have run: "j \<in> set (busy ?s)" if "lookup_op s j = Some x" "op_state x = OpRunning" for j x
      using base that None by (auto simp: am_base_def busy)
    have "am_base ?s" using base run by (auto simp: am_base_def busy)
    moreover have "\<not> am_tight s" using None by (auto simp: am_tight_def busy)
    ultimately show ?thesis
      using inv by (simp add: id am_inv_def am_conserving_def am_retained_def)
  next
    case (Some x)
    note keeps = finished_entry_keeps [OF base p Some, where r = r]
    have fin: "onOperationFinished k r ?s = processQueue (finished_entry k r ?s)"
      using Some by (intro onOperationFinished_entry) simp
    show ?thesis
      using processQueue_base [OF keeps(1)] processQueue_retained [OF keeps(1) keeps(3) [OF ret]] keeps(2)
      unfolding fin by (auto simp: am_inv_def)
  qed
  then show "am_inv (onOperationFinished k r ?s)" "am_tight s \<Longrightarrow> am_tight (onOperationFinished k r ?s)" by blast+
qed

lemma hash_adjust_twice: "hash_adjust k g (hash_adjust k f xs) = hash_adjust k (\<lambda>x. g (f x)) xs"
  by (auto simp: hash_adjust_def)

lemma hash_remove_adjust: "hash_remove k (hash_adjust k f xs) = hash_remove k xs"
  by (induction xs) (auto simp: hash_remove_def hash_adjust_def)

lemma length_filter_filter: "length (filter P (filter Q xs)) \<le> length (filter P xs)"
  by (induction xs) auto

lemma retained_fewer:
  assumes "am_retained s" and "am_operations s' = filter Q (am_operations s)" and "distinct (map fst (am_operations s))"
    and "am_finishedOrder s' = am_finishedOrder s"
  shows "am_retained s'"
  unfolding am_retained_def
proof (intro conjI allI impI)
  fix k x
  assume "lookup_op s' k = Some x \<and> finished_state (op_state x)"
  then have "lookup_op s k = Some x \<and> finished_state (op_state x)"
    using assms(2,3) by (auto dest!: map_of_SomeD simp: map_of_eq_Some_iff)
  then show "k \<in> set (am_finishedOrder s')" using assms(1,4) by (auto simp: am_retained_def)
next
  show "length (filter (\<lambda>p. finished_state (op_state (snd p))) (am_operations s')) \<le> kMaxRetainedOperations"
    using assms(1,2) length_filter_filter le_trans unfolding am_retained_def by metis
qed

lemma cancel_keeps:
  assumes inv: "am_inv s"
  shows "am_inv (snd (cancel k s))" and "am_tight s \<Longrightarrow> am_tight (snd (cancel k s))"
proof -
  have base: "am_base s" and ret: "am_retained s" and con: "am_conserving s" using inv by (simp_all add: am_inv_def)
  have d: "distinct (map fst (am_operations s))" using base by (simp add: am_base_def)
  have "am_inv (snd (cancel k s)) \<and> (am_tight s \<longrightarrow> am_tight (snd (cancel k s)))"
  proof (cases "lookup_op s k")
    case None
    then show ?thesis using inv by (simp add: cancel_def)
  next
    case (Some x)
    show ?thesis
    proof (cases "op_state x = OpPending")
      case True
      then have c: "snd (cancel k s) = s\<lparr>am_operations := hash_remove k (am_operations s), am_queue := removeAll k (am_queue s)\<rparr>"
        using Some by (simp add: cancel_def Let_def hash_remove_adjust)
      have kq: "k \<in> set (am_queue s)" using base Some True by (auto simp: am_base_def)
      have "am_base (snd (cancel k s))"
        using base unfolding c am_base_def
        by (intro conjI) (auto simp: map_of_hash_remove hash_distinct distinct_removeAll split: if_splits)
      moreover have "am_retained (snd (cancel k s))"
        by (rule retained_fewer [OF ret _ d]) (simp_all add: c hash_remove_def)
      moreover have "am_conserving (snd (cancel k s))" using con by (auto simp: am_conserving_def c)
      moreover have "am_tight s \<longrightarrow> am_tight (snd (cancel k s))"
        using base kq by (auto simp: am_tight_def c map_of_hash_remove am_base_def)
      ultimately show ?thesis by (simp add: am_inv_def)
    next
      case False
      then obtain f where c: "snd (cancel k s) = s\<lparr>am_operations := hash_adjust k f (am_operations s)\<rparr>"
        and f: "op_state (f x) = (if op_state x = OpRunning then OpCancelled else op_state x)"
        using Some by (cases "op_state x = OpRunning") (auto simp: cancel_def Let_def hash_adjust_twice)
      have "am_base (snd (cancel k s))"
        using base Some False f unfolding c am_base_def
        by (intro conjI) (auto simp: map_of_hash_adjust split: if_splits)
      moreover have "am_retained (snd (cancel k s))"
        using Some f by (intro retained_adjust [OF ret d, of k f]) (auto simp: c finished_state_def)
      moreover have "am_conserving (snd (cancel k s))" using con by (simp add: am_conserving_def c)
      moreover have "am_tight s \<longrightarrow> am_tight (snd (cancel k s))"
        by (auto simp: am_tight_def c map_of_hash_adjust)
      ultimately show ?thesis by (simp add: am_inv_def)
    qed
  qed
  then show "am_inv (snd (cancel k s))" "am_tight s \<Longrightarrow> am_tight (snd (cancel k s))" by blast+
qed

lemma cancelAll_operations:
  assumes "distinct (map fst (am_operations s))"
  shows "am_operations (cancelAll s)
    = map (\<lambda>p. (fst p, snd (cancel_visit (snd p)))) (filter (\<lambda>p. \<not> fst (cancel_visit (snd p))) (am_operations s))"
proof -
  let ?xs = "am_operations s"
  let ?gone = "set (map fst (filter (\<lambda>p. fst (snd p)) (map (\<lambda>p. (fst p, cancel_visit (snd p))) ?xs)))"
  have gone: "fst p \<in> ?gone \<longleftrightarrow> fst (cancel_visit (snd p))" if "p \<in> set ?xs" for p
  proof
    assume "fst p \<in> ?gone"
    then obtain q where "q \<in> set ?xs" "fst q = fst p" "fst (cancel_visit (snd q))" by auto
    moreover then have "q = p" using that assms by (auto simp: distinct_map dest: inj_onD)
    ultimately show "fst (cancel_visit (snd p))" by simp
  next
    assume "fst (cancel_visit (snd p))"
    then show "fst p \<in> ?gone" using that by force
  qed
  have "am_operations (cancelAll s)
      = map (\<lambda>p. (fst p, snd (cancel_visit (snd p)))) (filter (\<lambda>p. fst p \<notin> ?gone) ?xs)"
    by (simp add: cancelAll_def Let_def filter_map comp_def Compr_image_eq image_image)
  also have "filter (\<lambda>p. fst p \<notin> ?gone) ?xs = filter (\<lambda>p. \<not> fst (cancel_visit (snd p))) ?xs"
    using gone by (intro filter_cong) auto
  finally show ?thesis .
qed

lemma lookup_map_filter:
  "distinct (map fst xs) \<Longrightarrow> map_of (map (\<lambda>p. (fst p, g (snd p))) (filter (\<lambda>p. Q (snd p)) xs)) k
     = (case map_of xs k of None \<Rightarrow> None | Some x \<Rightarrow> if Q x then Some (g x) else None)"
  by (induction xs) (auto split: option.splits simp: map_of_eq_None_iff image_iff)

lemma cancel_visit_states:
  "\<not> fst (cancel_visit x) \<Longrightarrow> op_state (snd (cancel_visit x)) =
     (if op_state x = OpRunning then OpCancelled else op_state x)"
  "fst (cancel_visit x) \<longleftrightarrow> op_state x = OpPending \<or> op_state x = OpCancelled"
  "finished_state (op_state (snd (cancel_visit x))) = finished_state (op_state x)"
  by (auto simp: cancel_visit_def Let_def finished_state_def split: if_splits)

lemma cancelAll_fields [simp]:
  "am_queue (cancelAll s) = []" "busy (cancelAll s) = busy s" "am_runningCount (cancelAll s) = am_runningCount s"
  "am_maxConcurrent (cancelAll s) = am_maxConcurrent s" "am_finishedOrder (cancelAll s) = am_finishedOrder s"
  "am_dangling (cancelAll s) = am_dangling s"
  by (simp_all add: cancelAll_def Let_def busy_def)

lemma lookup_cancelAll:
  assumes "am_base s"
  shows "lookup_op (cancelAll s) k = (case lookup_op s k of None \<Rightarrow> None
    | Some x \<Rightarrow> if op_state x = OpPending \<or> op_state x = OpCancelled then None else Some (snd (cancel_visit x)))"
  using assms lookup_map_filter [of "am_operations s" "\<lambda>x. snd (cancel_visit x)" "\<lambda>x. \<not> fst (cancel_visit x)" k]
  by (simp add: am_base_def cancelAll_operations cancel_visit_states(2) split: option.splits)

lemma cancelAll_keeps:
  assumes inv: "am_inv s"
  shows "am_inv (cancelAll s)"
proof -
  have base: "am_base s" and ret: "am_retained s" using inv by (simp_all add: am_inv_def)
  have d: "distinct (map fst (am_operations s))" using base by (simp add: am_base_def)
  note lookup = lookup_cancelAll [OF base]
  have st: "op_state (snd (cancel_visit x)) = (if op_state x = OpRunning then OpCancelled else op_state x)"
    if "op_state x \<noteq> OpPending" "op_state x \<noteq> OpCancelled" for x
    using that cancel_visit_states(1,2) [of x] by simp
  have "distinct (map fst (am_operations (cancelAll s)))"
    by (simp add: cancelAll_operations [OF d] comp_def distinct_map_filter [OF d])
  then have "am_base (cancelAll s)"
    using base unfolding am_base_def
    by (intro conjI) (auto simp: lookup st split: option.splits if_splits)
  moreover have "am_retained (cancelAll s)"
    unfolding am_retained_def
  proof (intro conjI allI impI)
    fix k x
    assume "lookup_op (cancelAll s) k = Some x \<and> finished_state (op_state x)"
    then show "k \<in> set (am_finishedOrder (cancelAll s))"
      using ret by (auto simp: lookup am_retained_def cancel_visit_states(3) split: option.splits if_splits)
  next
    have "length (filter (\<lambda>p. finished_state (op_state (snd p))) (am_operations (cancelAll s)))
        \<le> length (filter (\<lambda>p. finished_state (op_state (snd p))) (am_operations s))"
      using length_filter_filter [of "\<lambda>p. finished_state (op_state (snd p))" "\<lambda>p. \<not> fst (cancel_visit (snd p))" "am_operations s"]
      by (simp add: cancelAll_operations [OF d] filter_map comp_def cancel_visit_states(3))
    then show "length (filter (\<lambda>p. finished_state (op_state (snd p))) (am_operations (cancelAll s))) \<le> kMaxRetainedOperations"
      using ret by (simp add: am_retained_def)
  qed
  ultimately show ?thesis by (simp add: am_inv_def am_conserving_def)
qed

lemma deliver_max:
  assumes "am_inv s" and p: "am_posted s = (k, r) # rest"
  shows "am_maxConcurrent (onOperationFinished k r (s\<lparr>am_posted := rest\<rparr>)) = am_maxConcurrent s"
proof (cases "lookup_op s k")
  case None
  then show ?thesis by (simp add: onOperationFinished_def)
next
  case (Some x)
  have base: "am_base s" using assms(1) by (simp add: am_inv_def)
  note pq = processQueue_base [OF finished_entry_keeps(1) [OF base p Some, where r = r]]
  have "onOperationFinished k r (s\<lparr>am_posted := rest\<rparr>) = processQueue (finished_entry k r (s\<lparr>am_posted := rest\<rparr>))"
    using Some by (intro onOperationFinished_entry) simp
  then show ?thesis using pq by simp
qed

lemma worker_returns_inv: "am_inv s \<Longrightarrow> k \<in> set (am_workers s) \<Longrightarrow> am_inv (worker_returns k oc g s)"
  using worker_returns_keeps(1) [of s k oc g] by (simp add: am_inv_def am_conserving_def am_retained_def)

lemma op_step_inv:
  assumes "am_inv s" and "event_ok s e"
  shows "am_inv (op_step s e) \<and> am_maxConcurrent (op_step s e) = am_maxConcurrent s"
proof (cases e)
  case (Execute k nm pr t)
  then show ?thesis using assms by (simp add: execute_keeps) (simp add: execute_def Let_def)
next
  case (Cancel k)
  then show ?thesis using assms by (simp add: cancel_keeps) (simp add: cancel_def Let_def split: option.split)
next
  case CancelAll
  then show ?thesis using assms by (simp add: cancelAll_keeps)
next
  case (TimerFires k)
  then show ?thesis using assms by (simp add: cancel_keeps) (simp add: cancel_def Let_def split: option.split)
next
  case (WorkerReturns k oc g)
  then show ?thesis using assms by (simp add: worker_returns_inv)
next
  case Deliver
  then obtain k r rest where "am_posted s = (k, r) # rest" using assms(2) by (cases "am_posted s") auto
  then show ?thesis using assms Deliver by (simp add: deliver_keeps deliver_max)
qed

lemma am_inv_init: "0 \<le> m \<Longrightarrow> am_inv (am_init m) \<and> am_tight (am_init m) \<and> am_maxConcurrent (am_init m) = m"
  by (simp add: am_inv_def am_init_def am_base_def am_conserving_def am_retained_def am_tight_def busy_def)

lemma am_from_inv:
  "am_from P s0 s \<Longrightarrow> am_inv s0 \<Longrightarrow> am_inv s \<and> am_maxConcurrent s = am_maxConcurrent s0"
  by (induction rule: am_from.induct) (simp_all add: op_step_inv)

definition spares_workers :: "async_manager \<Rightarrow> op_event \<Rightarrow> bool" where
  \<comment> \<open>\<open>cancelAll\<close> is called only while no running operation has been cancelled before\<close>
  "spares_workers s e \<longleftrightarrow>
     (e = CancelAll \<longrightarrow> list_all (\<lambda>k. map_option op_state (lookup_op s k) \<noteq> Some OpCancelled) (busy s))"

lemma op_step_tight:
  assumes inv: "am_inv s" and ok: "event_ok s e" and spares: "spares_workers s e" and t: "am_tight s"
  shows "am_tight (op_step s e)"
proof (cases e)
  case (Execute k nm pr tm)
  then show ?thesis using assms by (simp add: execute_keeps)
next
  case (Cancel k)
  then show ?thesis using assms by (simp add: cancel_keeps)
next
  case CancelAll
  have base: "am_base s" using inv by (simp add: am_inv_def)
  have "lookup_op (cancelAll s) k \<noteq> None" if k: "k \<in> set (busy s)" for k
  proof -
    obtain x where x: "lookup_op s k = Some x" using t k by (auto simp: am_tight_def)
    moreover have "op_state x \<noteq> OpCancelled" using spares CancelAll x k by (auto simp: spares_workers_def list_all_iff)
    moreover have "op_state x \<noteq> OpPending" using base x k by (auto simp: am_base_def)
    ultimately show ?thesis by (simp add: lookup_cancelAll [OF base])
  qed
  then show ?thesis using t CancelAll by (simp add: am_tight_def)
next
  case (TimerFires k)
  then show ?thesis using assms by (simp add: cancel_keeps)
next
  case (WorkerReturns k oc g)
  then show ?thesis using assms by (simp add: worker_returns_keeps am_inv_def)
next
  case Deliver
  then obtain k r rest where "am_posted s = (k, r) # rest" using ok by (cases "am_posted s") auto
  then show ?thesis using assms Deliver by (simp add: deliver_keeps)
qed

section \<open>What holds of every run\<close>

text \<open>
  Claim C16 (invariant). In every state the manager reaches, whatever is submitted, cancelled, timed out, returned and
  delivered, in whatever order: no operation has two workers, the workers and their undelivered results are
  never more than the slots in use and these never more than the maximum; the queue holds
  exactly the pending operations; it is empty unless every slot is in use; and no more than
  64 finished operations are kept.
\<close>

theorem slots_are_accounted:
  assumes "am_from P (am_init m) s" and "0 \<le> m"
  shows "distinct (am_workers s @ map fst (am_posted s))
    \<and> int (length (am_workers s) + length (am_posted s)) \<le> am_runningCount s \<and> am_runningCount s \<le> m
    \<and> set (am_queue s) = {k. map_option op_state (lookup_op s k) = Some OpPending}
    \<and> (am_queue s = [] \<or> am_runningCount s = m)
    \<and> length (filter (\<lambda>p. finished_state (op_state (snd p))) (am_operations s)) \<le> kMaxRetainedOperations"
proof -
  have inv: "am_inv s" and m: "am_maxConcurrent s = m"
    using am_from_inv [OF assms(1)] am_inv_init [OF assms(2)] by simp_all
  have "am_base s" "am_conserving s" "am_retained s" using inv by (simp_all add: am_inv_def)
  then show ?thesis using m by (auto simp: am_base_def am_conserving_def am_retained_def busy_def)
qed

fun run_from :: "(async_manager \<Rightarrow> op_event \<Rightarrow> bool) \<Rightarrow> async_manager \<Rightarrow> op_event list \<Rightarrow> bool" where
  "run_from P s [] = True"
| "run_from P s (e # es) = (event_ok s e \<and> P s e \<and> run_from P (op_step s e) es)"

lemma am_from_run: "am_from P s0 s \<Longrightarrow> run_from P s es \<Longrightarrow> am_from P s0 (foldl op_step s es)"
  by (induction es arbitrary: s) (auto intro: am_next)

lemmas run_simps = am_init_def used_ids_def execute_def start_op_def hash_insert_def hash_adjust_def hash_remove_def
  new_operation_def any_event_def spares_workers_def busy_def cancel_def cancelAll_def cancel_visit_def worker_returns_def
  onOperationFinished_def

definition demo_submitted :: "op_event list" where
  "demo_submitted = [Execute ''a'' [] Low 0, Execute ''b'' [] Normal 0, Execute ''c'' [] High 0,
     WorkerReturns ''a'' ThrewUnknown False]"

lemma demo_submitted_run:
  "am_from spares_workers (am_init 1) (foldl op_step (am_init 1) demo_submitted)"
  "am_from any_event (am_init 1) (foldl op_step (am_init 1) demo_submitted)"
  by (rule am_from_run [OF am_start], simp add: demo_submitted_def run_simps)+

theorem slots_are_accounted_witness:
  "let s = foldl op_step (am_init 1) demo_submitted
   in am_runningCount s = 1 \<and> set (am_queue s) = {k. map_option op_state (lookup_op s k) = Some OpPending}"
  using slots_are_accounted [OF demo_submitted_run(2)]
  by (simp add: Let_def) (simp add: demo_submitted_def run_simps)

text \<open>
  Claim C17 (liveness). No slot is lost, as long as \<open>cancelAll\<close> is not called while an operation that was
  cancelled is still running: in every state reached so, the slots in use are exactly those of workers and of results on
  their way, each of their operations is still in the table, no worker ever read a deleted flag,
  and so, where an operation waits and the maximum is positive, some worker or result is there
  to free a slot for it.
\<close>

theorem no_slot_is_lost:
  assumes "am_from spares_workers (am_init m) s" and "0 \<le> m"
  shows "am_runningCount s = int (length (am_workers s) + length (am_posted s))
    \<and> list_all (\<lambda>k. lookup_op s k \<noteq> None) (am_workers s @ map fst (am_posted s)) \<and> \<not> am_dangling s
    \<and> (am_queue s = [] \<or> m = 0 \<or> am_workers s \<noteq> [] \<or> am_posted s \<noteq> [])"
proof -
  have "am_inv s \<and> am_tight s \<and> am_maxConcurrent s = m"
    using assms(1)
  proof (induction rule: am_from.induct)
    case am_start
    then show ?case using am_inv_init [OF assms(2)] by simp
  next
    case (am_next s e)
    then show ?case using op_step_inv [of s e] op_step_tight [of s e] by simp
  qed
  then show ?thesis by (auto simp: am_tight_def busy_def list_all_iff am_inv_def am_conserving_def)
qed

theorem no_slot_is_lost_witness:
  "let s = foldl op_step (am_init 1) demo_submitted
   in am_runningCount s = int (length (am_workers s) + length (am_posted s)) \<and> am_queue s = [''b'', ''c'']"
  using no_slot_is_lost [OF demo_submitted_run(1)]
  by (simp add: Let_def) (simp add: demo_submitted_def run_simps)

text \<open>
  A freed slot goes to the most urgent waiting operation: when a result is delivered while
  operations wait, exactly one of them is started, the earliest of the highest priority; the others keep
  their order and every slot is in use again.
\<close>

theorem freed_slot_goes_to_most_urgent:
  assumes "am_from P (am_init m) s" and "0 \<le> m" and p: "am_posted s = (k, r) # rest"
    and x: "lookup_op s k = Some x" and wait: "am_queue s \<noteq> []"
  shows "\<exists>i. first_highest s i
    \<and> am_workers (op_step s Deliver) = am_workers s @ [am_queue s ! i]
    \<and> am_queue (op_step s Deliver) = remove_at i (am_queue s) \<and> am_runningCount (op_step s Deliver) = m"
proof -
  have inv: "am_inv s" and m: "am_maxConcurrent s = m"
    using am_from_inv [OF assms(1)] am_inv_init [OF assms(2)] by simp_all
  have base: "am_base s" and full: "am_runningCount s = m"
    using inv wait m by (auto simp: am_inv_def am_conserving_def)
  let ?s = "finished_entry k r (s\<lparr>am_posted := rest\<rparr>)"
  note entry = finished_entry_keeps [OF base p x, where r = r]
  have step: "op_step s Deliver = processQueue ?s"
    using p x by (simp add: onOperationFinished_entry)
  obtain i where i: "first_highest ?s i"
    and start: "processQueue ?s = processQueue (start_op (am_queue ?s ! i) (?s\<lparr>am_queue := remove_at i (am_queue ?s)\<rparr>))"
    using processQueue_start [OF entry(1)] wait full m by auto
  have "first_highest s i"
    using i entry(4) by (auto simp: first_highest_def rank_at_def)
  moreover have "processQueue ?s = start_op (am_queue s ! i) (?s\<lparr>am_queue := remove_at i (am_queue s)\<rparr>)"
    unfolding start by (subst processQueue_idle) (simp_all add: full m)
  ultimately show ?thesis unfolding step by (auto simp: start_op_def full)
qed

theorem freed_slot_goes_to_most_urgent_witness:
  "\<exists>i. am_workers (op_step (foldl op_step (am_init 1) demo_submitted) Deliver) = [am_queue (foldl op_step (am_init 1) demo_submitted) ! i]
    \<and> am_runningCount (op_step (foldl op_step (am_init 1) demo_submitted) Deliver) = 1"
proof -
  let ?s = "foldl op_step (am_init 1) demo_submitted"
  obtain r x where "am_posted ?s = [(''a'', r)]" "lookup_op ?s ''a'' = Some x" "am_queue ?s \<noteq> []" and w: "am_workers ?s = []"
    by (simp add: demo_submitted_def run_simps)
  from freed_slot_goes_to_most_urgent [OF demo_submitted_run(2) _ this(1-3)] show ?thesis unfolding w by auto
qed

text \<open>
  A cancellation of everything can take slots for good: where all slots are in use and no worker or
  result is left, no later event ever starts an operation again. Such a state is reached when a running
  operation is cancelled and then everything is, before its worker returns: the entry is deleted under
  the worker, which reads the freed flag, and its slot is not given back.
\<close>

theorem lost_slots_never_return:
  assumes "am_from P s0 s" and "am_inv s0" and "am_workers s0 = []" and "am_posted s0 = []"
    and "am_runningCount s0 = am_maxConcurrent s0"
  shows "am_workers s = [] \<and> am_posted s = [] \<and> am_runningCount s = am_maxConcurrent s"
  using assms(1)
proof (induction rule: am_from.induct)
  case am_start
  then show ?case using assms by simp
next
  case (am_next s e)
  then show ?case
    by (cases e) (auto simp: execute_def cancel_def cancelAll_def Let_def split: option.split)
qed

definition demo_lost :: "op_event list" where
  "demo_lost = [Execute ''a'' [] Normal 0, Cancel ''a'', CancelAll, WorkerReturns ''a'' (Returned []) False, Deliver]"

theorem lost_slots_never_return_witness:
  "am_from any_event (am_init 1) (foldl op_step (am_init 1) demo_lost)
   \<and> am_dangling (foldl op_step (am_init 1) demo_lost)
   \<and> am_workers (foldl op_step (foldl op_step (am_init 1) demo_lost) [Execute ''b'' [] Critical 0]) = []"
proof -
  let ?s = "foldl op_step (am_init 1) demo_lost"
  have reach: "am_from any_event (am_init 1) ?s"
    by (rule am_from_run [OF am_start]) code_simp
  have s: "am_dangling ?s" "am_workers ?s = []" "am_posted ?s = []" "am_runningCount ?s = 1" "am_maxConcurrent ?s = 1"
    by code_simp+
  have "am_from any_event ?s (foldl op_step ?s [Execute ''b'' [] Critical 0])"
    by (rule am_from_run [OF am_start]) code_simp
  from lost_slots_never_return [OF this] show ?thesis
    using reach s am_from_inv [OF reach] am_inv_init [of 1] by simp
qed

end
