(* ===== verification/SdoCache.thy ===== *)
theory SdoCache
  imports QtHash QtText
begin

text \<open>
  The studio's cache of SDO values and dictionaries (\<^verbatim>\<open>services/SdoCacheService.{h,cpp}\<close>). A slave has a list of
  nodes, front first, and an index from keys to iterators: an iterator is the address of its node, addresses are
  never used twice. The clock is an argument. Each method runs under the write lock, so it is one step.

  The loop of \<open>evictExpired\<close> advances its reverse iterator before it erases a node, so that the iterator's base
  is the erased node: once one node was erased the loop goes on through freed memory. \<open>sc_freed_read\<close> records that;
  the model goes on as if the freed node still had its links.
\<close>

section \<open>Data\<close>

datatype eviction_policy = LRU | LFU | FIFO

record sdo_cache_config =
  maxEntriesPerSlave :: int
  ttlMs :: int
  evictionPolicy :: eviction_policy

record sdo_dictionary_entry =
  de_index :: string
  de_subIndex :: string
  de_name :: string
  de_dataType :: string
  de_bitSize :: int
  de_accessType :: string
  de_defaultValue :: string
  de_description :: string

type_synonym sdo_dictionary = "sdo_dictionary_entry list"

record sdo_cache_entry =
  ce_value :: string
  ce_time :: int
  ce_count :: int

record lru_node =
  nd_addr :: nat
  nd_key :: string
  nd_entry :: sdo_cache_entry

record sdo_cache =
  sc_config :: sdo_cache_config
  sc_dictionaries :: "(int \<times> sdo_dictionary) list"
  sc_order :: "(int \<times> lru_node list) list"
  sc_index :: "(int \<times> (string \<times> nat) list) list"
  sc_hits :: int
  sc_misses :: int
  sc_next :: nat
  sc_signals :: "(bool \<times> int) list" \<comment> \<open>updated (True) or invalidated, with the position\<close>
  sc_freed_read :: bool

definition default_config :: sdo_cache_config where
  "default_config = \<lparr>maxEntriesPerSlave = 2048, ttlMs = 60000, evictionPolicy = LRU\<rparr>"

definition cache_init :: sdo_cache where
  "cache_init = \<lparr>sc_config = default_config, sc_dictionaries = [], sc_order = [], sc_index = [], sc_hits = 0,
     sc_misses = 0, sc_next = 0, sc_signals = [], sc_freed_read = False\<rparr>"

definition hash_at :: "'k \<Rightarrow> ('k \<times> 'v list) list \<Rightarrow> 'v list" where
  "hash_at k xs = (case map_of xs k of None \<Rightarrow> [] | Some v \<Rightarrow> v)"

abbreviation nodes_of :: "sdo_cache \<Rightarrow> int \<Rightarrow> lru_node list" where
  "nodes_of s position \<equiv> hash_at position (sc_order s)"

abbreviation index_at :: "sdo_cache \<Rightarrow> int \<Rightarrow> (string \<times> nat) list" where
  "index_at s position \<equiv> hash_at position (sc_index s)"

definition put_slot :: "int \<Rightarrow> lru_node list \<Rightarrow> (string \<times> nat) list \<Rightarrow> sdo_cache \<Rightarrow> sdo_cache" where
  "put_slot position order idx s =
     s\<lparr>sc_order := hash_insert position order (sc_order s), sc_index := hash_insert position idx (sc_index s)\<rparr>"

definition makeKey :: "string \<Rightarrow> string \<Rightarrow> string" where
  "makeKey index subIndex = index @ '':'' @ subIndex"

section \<open>Eviction\<close>

fun expire_back :: "int \<Rightarrow> int \<Rightarrow> lru_node list \<Rightarrow> (string \<times> nat) list \<Rightarrow> lru_node list \<times> (string \<times> nat) list \<times> bool" where
  \<comment> \<open>the loop of \<open>evictExpired\<close> on the list from its back; whether a node was erased\<close>
  "expire_back ttl now [] idx = ([], idx, False)"
| "expire_back ttl now (n # ns) idx =
     (if ttl > 0 \<and> now - ce_time (nd_entry n) > ttl then
        let (ns', idx', erased) = expire_back ttl now ns (hash_remove (nd_key n) idx) in (ns', idx', True)
      else (n # ns, idx, False))"

definition evictExpired :: "int \<Rightarrow> int \<Rightarrow> sdo_cache \<Rightarrow> sdo_cache" where
  "evictExpired now position s =
     (if map_of (sc_order s) position = None \<or> map_of (sc_index s) position = None then s
      else let (ns, idx, erased) = expire_back (ttlMs (sc_config s)) now (rev (nodes_of s position)) (index_at s position)
        in (put_slot position (rev ns) idx s)\<lparr>sc_freed_read := (sc_freed_read s \<or> erased)\<rparr>)"

fun evict_back :: "int \<Rightarrow> lru_node list \<Rightarrow> (string \<times> nat) list \<Rightarrow> lru_node list \<times> (string \<times> nat) list" where
  "evict_back m [] idx = ([], idx)"
| "evict_back m (victim # ns) idx =
     (if int (length idx) \<ge> m then evict_back m ns (hash_remove (nd_key victim) idx) else (victim # ns, idx))"

definition evictIfNeeded :: "int \<Rightarrow> int \<Rightarrow> sdo_cache \<Rightarrow> sdo_cache" where
  "evictIfNeeded now position s =
     (let s1 = evictExpired now position s in
      if map_of (sc_order s1) position = None \<or> map_of (sc_index s1) position = None then s1
      else let (ns, idx) = evict_back (maxEntriesPerSlave (sc_config s1)) (rev (nodes_of s1 position)) (index_at s1 position)
        in put_slot position (rev ns) idx s1)"

section \<open>The methods\<close>

definition splice_front :: "nat \<Rightarrow> lru_node list \<Rightarrow> lru_node list" where
  "splice_front a ns = filter (\<lambda>n. nd_addr n = a) ns @ filter (\<lambda>n. nd_addr n \<noteq> a) ns"

definition touch_node :: "nat \<Rightarrow> (sdo_cache_entry \<Rightarrow> sdo_cache_entry) \<Rightarrow> lru_node list \<Rightarrow> lru_node list" where
  "touch_node a f ns = map (\<lambda>n. if nd_addr n = a then n\<lparr>nd_entry := f (nd_entry n)\<rparr> else n) ns"

definition promote :: "eviction_policy \<Rightarrow> nat \<Rightarrow> lru_node list \<Rightarrow> lru_node list" where
  "promote policy a ns = (if policy = LRU then splice_front a ns else ns)"

definition cacheValue :: "int \<Rightarrow> int \<Rightarrow> string \<Rightarrow> string \<Rightarrow> string \<Rightarrow> sdo_cache \<Rightarrow> sdo_cache" where
  "cacheValue now position index subIndex v s =
     (let key = makeKey index subIndex;
          s0 = put_slot position (nodes_of s position) (index_at s position) s;
          s1 = (case map_of (index_at s0 position) key of
             Some a \<Rightarrow>
               put_slot position
                 (promote (evictionPolicy (sc_config s0)) a
                    (touch_node a (\<lambda>e. e\<lparr>ce_value := v, ce_time := now, ce_count := ce_count e + 1\<rparr>) (nodes_of s0 position)))
                 (index_at s0 position) s0
           | None \<Rightarrow>
               let s2 = evictIfNeeded now position s0;
                   node = \<lparr>nd_addr = sc_next s2, nd_key = key, nd_entry = \<lparr>ce_value = v, ce_time = now, ce_count = 1\<rparr>\<rparr>
               in (put_slot position (node # nodes_of s2 position) (hash_insert key (sc_next s2) (index_at s2 position)) s2)
                    \<lparr>sc_next := sc_next s2 + 1\<rparr>)
      in s1\<lparr>sc_signals := sc_signals s1 @ [(True, position)]\<rparr>)"

definition node_at :: "nat \<Rightarrow> lru_node list \<Rightarrow> lru_node option" where
  "node_at a ns = find (\<lambda>n. nd_addr n = a) ns"

definition expired :: "sdo_cache_config \<Rightarrow> int \<Rightarrow> sdo_cache_entry \<Rightarrow> bool" where
  "expired cfg now e \<longleftrightarrow> ttlMs cfg > 0 \<and> now - ce_time e > ttlMs cfg"

definition getCachedValue :: "int \<Rightarrow> int \<Rightarrow> string \<Rightarrow> string \<Rightarrow> sdo_cache \<Rightarrow> string \<times> sdo_cache" where
  \<comment> \<open>an iterator without a node does not occur (it would be read after the free)\<close>
  "getCachedValue now position index subIndex s =
     (let key = makeKey index subIndex; missed = ([], s\<lparr>sc_misses := sc_misses s + 1\<rparr>) in
      case map_of (sc_index s) position of
        None \<Rightarrow> missed
      | Some idx \<Rightarrow>
          (case map_of idx key of
             None \<Rightarrow> missed
           | Some a \<Rightarrow>
               (case node_at a (nodes_of s position) of
                  None \<Rightarrow> ([], s\<lparr>sc_freed_read := True\<rparr>)
                | Some n \<Rightarrow>
                    if expired (sc_config s) now (nd_entry n) then missed
                    else (ce_value (nd_entry n),
                      (put_slot position
                        (promote (evictionPolicy (sc_config s)) a
                           (touch_node a (\<lambda>e. e\<lparr>ce_count := ce_count e + 1\<rparr>) (nodes_of s position))) idx s)
                        \<lparr>sc_hits := sc_hits s + 1\<rparr>))))"

definition cacheDictionary :: "int \<Rightarrow> sdo_dictionary \<Rightarrow> sdo_cache \<Rightarrow> sdo_cache" where
  "cacheDictionary position dict s = s\<lparr>sc_dictionaries := hash_insert position dict (sc_dictionaries s),
     sc_signals := sc_signals s @ [(True, position)]\<rparr>"

definition getCachedDictionary :: "int \<Rightarrow> sdo_cache \<Rightarrow> sdo_dictionary" where
  "getCachedDictionary position s = hash_at position (sc_dictionaries s)"

definition invalidateCache :: "int \<Rightarrow> sdo_cache \<Rightarrow> sdo_cache" where
  "invalidateCache position s = s\<lparr>sc_dictionaries := hash_remove position (sc_dictionaries s),
     sc_order := hash_remove position (sc_order s), sc_index := hash_remove position (sc_index s),
     sc_signals := sc_signals s @ [(False, position)]\<rparr>"

definition invalidateAll :: "sdo_cache \<Rightarrow> sdo_cache" where
  "invalidateAll s = s\<lparr>sc_dictionaries := [], sc_order := [], sc_index := [], sc_hits := 0, sc_misses := 0,
     sc_signals := sc_signals s @ [(False, - 1)]\<rparr>"

definition cachedSlaveCount :: "sdo_cache \<Rightarrow> nat" where
  "cachedSlaveCount s = length (sc_index s)"

definition cacheSize :: "int \<Rightarrow> sdo_cache \<Rightarrow> nat" where
  "cacheSize position s = length (index_at s position)"

definition setConfig :: "sdo_cache_config \<Rightarrow> sdo_cache \<Rightarrow> sdo_cache" where
  "setConfig cfg s = s\<lparr>sc_config := cfg\<rparr>"

datatype cache_op =
    CacheValue int int string string string
  | GetValue int int string string
  | CacheDictionary int sdo_dictionary
  | Invalidate int
  | InvalidateAll
  | SetConfig sdo_cache_config

fun cache_step :: "sdo_cache \<Rightarrow> cache_op \<Rightarrow> sdo_cache" where
  "cache_step s (CacheValue now p i sub v) = cacheValue now p i sub v s"
| "cache_step s (GetValue now p i sub) = snd (getCachedValue now p i sub s)"
| "cache_step s (CacheDictionary p d) = cacheDictionary p d s"
| "cache_step s (Invalidate p) = invalidateCache p s"
| "cache_step s InvalidateAll = invalidateAll s"
| "cache_step s (SetConfig cfg) = setConfig cfg s"

section \<open>List and index agree\<close>

definition slot_ok :: "nat \<Rightarrow> lru_node list \<Rightarrow> (string \<times> nat) list \<Rightarrow> bool" where
  \<comment> \<open>every iterator of the index points to the node of its key, and every node is indexed\<close>
  "slot_ok fresh ns idx \<longleftrightarrow> distinct (map nd_addr ns) \<and> distinct (map nd_key ns) \<and> distinct (map fst idx)
     \<and> set idx = set (map (\<lambda>n. (nd_key n, nd_addr n)) ns) \<and> (\<forall>n \<in> set ns. nd_addr n < fresh)"

lemma hash_at_insert [simp]: "hash_at k (hash_insert k' v xs) = (if k = k' then v else hash_at k xs)"
  by (simp add: hash_at_def map_of_hash_insert)

lemma hash_at_remove [simp]: "hash_at k (hash_remove k' xs) = (if k = k' then [] else hash_at k xs)"
  by (simp add: hash_at_def map_of_hash_remove)

lemma hash_at_Nil [simp]: "hash_at k [] = []"
  by (simp add: hash_at_def)

lemma put_slot_fields [simp]:
  "nodes_of (put_slot p ns idx s) q = (if q = p then ns else nodes_of s q)"
  "index_at (put_slot p ns idx s) q = (if q = p then idx else index_at s q)"
  "sc_config (put_slot p ns idx s) = sc_config s" "sc_next (put_slot p ns idx s) = sc_next s"
  "sc_freed_read (put_slot p ns idx s) = sc_freed_read s" "sc_hits (put_slot p ns idx s) = sc_hits s"
  "sc_misses (put_slot p ns idx s) = sc_misses s"
  "map_of (sc_order (put_slot p ns idx s)) p = Some ns" "map_of (sc_index (put_slot p ns idx s)) p = Some idx"
  by (simp_all add: put_slot_def map_of_hash_insert)

lemma slot_ok_length: "slot_ok fresh ns idx \<Longrightarrow> length idx = length ns"
proof -
  assume ok: "slot_ok fresh ns idx"
  have "distinct idx" using ok by (auto simp: slot_ok_def distinct_map)
  then have "length idx = card (set idx)" by (simp add: distinct_card)
  also have "\<dots> = card (set (map (\<lambda>n. (nd_key n, nd_addr n)) ns))" using ok by (simp add: slot_ok_def)
  also have "\<dots> = length ns"
    using ok by (subst distinct_card) (auto simp: slot_ok_def distinct_map inj_on_def)
  finally show ?thesis .
qed

lemma slot_ok_remove:
  assumes "slot_ok fresh ns idx" and "ns = a @ n # b"
  shows "slot_ok fresh (a @ b) (hash_remove (nd_key n) idx)"
  using assms by (auto simp: slot_ok_def hash_remove_def distinct_map_filter) (metis imageI)+

lemma expire_back_ok:
  "expire_back ttl now ns idx = (ns', idx', e) \<Longrightarrow> slot_ok fresh (rev ns) idx \<Longrightarrow> slot_ok fresh (rev ns') idx'"
proof (induction ttl now ns idx arbitrary: ns' idx' e rule: expire_back.induct)
  case (2 ttl now n ns idx)
  show ?case
  proof (cases "ttl > 0 \<and> now - ce_time (nd_entry n) > ttl")
    case True
    then obtain e' where "expire_back ttl now ns (hash_remove (nd_key n) idx) = (ns', idx', e')"
      using "2.prems"(1) by (auto split: prod.splits)
    then show ?thesis
      using "2.IH" True "2.prems"(2) slot_ok_remove [of fresh "rev (n # ns)" idx "rev ns" n "[]"] by simp
  next
    case False
    then show ?thesis using "2.prems" by auto
  qed
qed simp

lemma expire_back_fresh:
  "\<not> (\<exists>n \<in> set ns. ttl > 0 \<and> now - ce_time (nd_entry n) > ttl) \<Longrightarrow> expire_back ttl now ns idx = (ns, idx, False)"
  by (cases ns) auto

lemma expire_back_subset: "expire_back ttl now ns idx = (ns', idx', e) \<Longrightarrow> set ns' \<subseteq> set ns"
  by (induction ttl now ns idx arbitrary: ns' idx' e rule: expire_back.induct)
     (fastforce split: if_splits prod.splits)+

lemma evict_back_ok:
  "evict_back m ns idx = (ns', idx') \<Longrightarrow> slot_ok fresh (rev ns) idx \<Longrightarrow>
     slot_ok fresh (rev ns') idx' \<and> rev ns' = take (nat (m - 1)) (rev ns)"
proof (induction m ns idx arbitrary: ns' idx' rule: evict_back.induct)
  case (2 m n ns idx)
  have len: "length idx = Suc (length ns)" using slot_ok_length [OF "2.prems"(2)] by simp
  show ?case
  proof (cases "int (length idx) \<ge> m")
    case True
    then have "evict_back m ns (hash_remove (nd_key n) idx) = (ns', idx')" using "2.prems"(1) by simp
    moreover have "slot_ok fresh (rev ns) (hash_remove (nd_key n) idx)"
      using "2.prems"(2) slot_ok_remove [of fresh "rev (n # ns)" idx "rev ns" n "[]"] by simp
    ultimately have "slot_ok fresh (rev ns') idx' \<and> rev ns' = take (nat (m - 1)) (rev ns)" by (rule "2.IH" [OF True])
    moreover have "take (nat (m - 1)) (rev (n # ns)) = take (nat (m - 1)) (rev ns)" using True len by simp
    ultimately show ?thesis by metis
  next
    case False
    then show ?thesis using "2.prems" len by auto
  qed
qed auto

definition slots_ok :: "sdo_cache \<Rightarrow> bool" where
  "slots_ok s \<longleftrightarrow> (\<forall>p. slot_ok (sc_next s) (nodes_of s p) (index_at s p))"

lemma slot_ok_Nil [simp]: "slot_ok fresh [] []"
  by (simp add: slot_ok_def)

lemma slot_ok_later: "slot_ok fresh ns idx \<Longrightarrow> fresh \<le> fresh' \<Longrightarrow> slot_ok fresh' ns idx"
  by (auto simp: slot_ok_def)

definition slot_frame :: "int \<Rightarrow> sdo_cache \<Rightarrow> sdo_cache \<Rightarrow> bool" where
  \<comment> \<open>only the slot of one position and the statistics may differ\<close>
  "slot_frame p s s' \<longleftrightarrow> sc_config s' = sc_config s
     \<and> (\<forall>q. q \<noteq> p \<longrightarrow> nodes_of s' q = nodes_of s q \<and> index_at s' q = index_at s q)"

lemma evictIfNeeded_slot:
  assumes "slots_ok s" and "map_of (sc_order s) p \<noteq> None" and "map_of (sc_index s) p \<noteq> None"
  shows "slot_ok (sc_next s) (nodes_of (evictIfNeeded now p s) p) (index_at (evictIfNeeded now p s) p)"
    and "sc_next (evictIfNeeded now p s) = sc_next s" and "slot_frame p s (evictIfNeeded now p s)"
    and "length (nodes_of (evictIfNeeded now p s) p) \<le> nat (maxEntriesPerSlave (sc_config s) - 1)"
    and "set (nodes_of (evictIfNeeded now p s) p) \<subseteq> set (nodes_of s p)"
    and "list_all (\<lambda>n. \<not> expired (sc_config s) now (nd_entry n)) (nodes_of s p) \<Longrightarrow>
      nodes_of (evictIfNeeded now p s) p = take (nat (maxEntriesPerSlave (sc_config s) - 1)) (nodes_of s p)"
proof -
  obtain ns idx e where ex: "expire_back (ttlMs (sc_config s)) now (rev (nodes_of s p)) (index_at s p) = (ns, idx, e)"
    by (metis prod_cases3)
  define s1 where "s1 = evictExpired now p s"
  have s1: "s1 = (put_slot p (rev ns) idx s)\<lparr>sc_freed_read := (sc_freed_read s \<or> e)\<rparr>"
    using assms(2,3) ex by (auto simp: s1_def evictExpired_def)
  have f1: "nodes_of s1 p = rev ns" "index_at s1 p = idx" "sc_config s1 = sc_config s" "sc_next s1 = sc_next s"
    "\<And>q. q \<noteq> p \<Longrightarrow> nodes_of s1 q = nodes_of s q \<and> index_at s1 q = index_at s q"
    "map_of (sc_order s1) p = Some (rev ns)" "map_of (sc_index s1) p = Some idx"
    by (simp_all add: s1)
  have ok1: "slot_ok (sc_next s) (rev ns) idx"
    using expire_back_ok [OF ex, of "sc_next s"] assms(1) by (simp add: slots_ok_def)
  obtain ns2 idx2 where ev: "evict_back (maxEntriesPerSlave (sc_config s)) ns idx = (ns2, idx2)" by fastforce
  have s2: "evictIfNeeded now p s = put_slot p (rev ns2) idx2 s1"
    by (simp add: evictIfNeeded_def Let_def s1_def [symmetric] f1 ev)
  note evb = evict_back_ok [OF ev ok1]
  show "slot_ok (sc_next s) (nodes_of (evictIfNeeded now p s) p) (index_at (evictIfNeeded now p s) p)"
    using evb [THEN conjunct1] by (simp add: s2)
  have "set (rev ns2) \<subseteq> set ns" using evb by (metis set_rev set_take_subset)
  also have "set ns \<subseteq> set (nodes_of s p)" using expire_back_subset [OF ex] by simp
  finally show "set (nodes_of (evictIfNeeded now p s) p) \<subseteq> set (nodes_of s p)" by (simp add: s2)
  show "sc_next (evictIfNeeded now p s) = sc_next s" by (simp add: s2 f1)
  show "slot_frame p s (evictIfNeeded now p s)" by (simp add: slot_frame_def s2 f1)
  show "length (nodes_of (evictIfNeeded now p s) p) \<le> nat (maxEntriesPerSlave (sc_config s) - 1)"
    using evb by (simp add: s2)
  assume "list_all (\<lambda>n. \<not> expired (sc_config s) now (nd_entry n)) (nodes_of s p)"
  then have "ns = rev (nodes_of s p)"
    using ex expire_back_fresh [of "rev (nodes_of s p)" "ttlMs (sc_config s)" now "index_at s p"]
    by (auto simp: list_all_iff expired_def)
  then show "nodes_of (evictIfNeeded now p s) p = take (nat (maxEntriesPerSlave (sc_config s) - 1)) (nodes_of s p)"
    using evb by (simp add: s2)
qed

lemma splice_front_facts:
  "set (splice_front a ns) = set ns" "distinct (map f ns) \<Longrightarrow> distinct (map f (splice_front a ns))"
  "length (splice_front a ns) = length ns"
proof -
  show "set (splice_front a ns) = set ns" by (auto simp: splice_front_def)
  show "distinct (map f ns) \<Longrightarrow> distinct (map f (splice_front a ns))"
    by (auto simp: splice_front_def distinct_map_filter distinct_map inj_on_def)
  show "length (splice_front a ns) = length ns"
    using sum_length_filter_compl [of "\<lambda>n. nd_addr n = a" ns] by (simp add: splice_front_def)
qed

lemma touch_node_maps [simp]:
  "map nd_addr (touch_node a f ns) = map nd_addr ns" "map nd_key (touch_node a f ns) = map nd_key ns"
  "map (\<lambda>n. (nd_key n, nd_addr n)) (touch_node a f ns) = map (\<lambda>n. (nd_key n, nd_addr n)) ns"
  "length (touch_node a f ns) = length ns"
  by (simp_all add: touch_node_def)

lemma slot_ok_touch: "slot_ok fresh ns idx \<Longrightarrow> slot_ok fresh (promote pol a (touch_node b f ns)) idx"
proof -
  assume ok: "slot_ok fresh ns idx"
  let ?t = "touch_node b f ns"
  have "nd_addr ` set ?t = nd_addr ` set ns" by (metis list.set_map touch_node_maps(1))
  then have "\<forall>a \<in> nd_addr ` set ?t. a < fresh" using ok by (simp add: slot_ok_def)
  then have "\<forall>n \<in> set ?t. nd_addr n < fresh" by simp
  moreover have "set (map (\<lambda>n. (nd_key n, nd_addr n)) (splice_front a ?t)) = set (map (\<lambda>n. (nd_key n, nd_addr n)) ?t)"
    by (simp only: set_map splice_front_facts)
  ultimately show ?thesis
    using ok by (auto simp: slot_ok_def promote_def splice_front_facts simp del: set_map)
qed

lemma slot_ok_push:
  assumes "slot_ok fresh ns idx" and "key \<notin> nd_key ` set ns" and "nd_addr n = fresh" and "nd_key n = key"
  shows "slot_ok (Suc fresh) (n # ns) (hash_insert key fresh idx)"
proof -
  have "key \<notin> fst ` set idx" using assms by (auto simp: slot_ok_def)
  then have "filter (\<lambda>p. fst p \<noteq> key) idx = idx" by (auto simp: filter_id_conv)
  then show ?thesis using assms by (auto simp: slot_ok_def hash_insert_def)
qed

lemma slot_ok_lookup:
  assumes "slot_ok fresh ns idx"
  shows "map_of idx key = None \<longleftrightarrow> key \<notin> nd_key ` set ns"
    and "map_of idx key = Some a \<Longrightarrow> \<exists>n \<in> set ns. nd_key n = key \<and> nd_addr n = a"
    and "n \<in> set ns \<Longrightarrow> map_of idx (nd_key n) = Some (nd_addr n)"
proof -
  have "fst ` set idx = nd_key ` set ns" using assms by (simp add: slot_ok_def image_image)
  then show "map_of idx key = None \<longleftrightarrow> key \<notin> nd_key ` set ns" by (simp add: map_of_eq_None_iff)
  show "map_of idx key = Some a \<Longrightarrow> \<exists>n \<in> set ns. nd_key n = key \<and> nd_addr n = a"
    using assms by (auto simp: slot_ok_def dest!: map_of_SomeD)
  show "n \<in> set ns \<Longrightarrow> map_of idx (nd_key n) = Some (nd_addr n)"
    using assms by (auto simp: slot_ok_def)
qed

lemma slots_ok_put:
  assumes "slots_ok s" and "slot_ok (sc_next s) ns idx"
  shows "slots_ok (put_slot p ns idx s)"
  using assms by (simp add: slots_ok_def)

lemma slots_ok_updates [simp]:
  "slots_ok (s\<lparr>sc_signals := sg\<rparr>) = slots_ok s" "slots_ok (s\<lparr>sc_hits := h\<rparr>) = slots_ok s"
  "slots_ok (s\<lparr>sc_misses := m\<rparr>) = slots_ok s" "slots_ok (s\<lparr>sc_config := c\<rparr>) = slots_ok s"
  "slots_ok (s\<lparr>sc_dictionaries := d\<rparr>) = slots_ok s" "slots_ok (s\<lparr>sc_freed_read := b\<rparr>) = slots_ok s"
  by (simp_all add: slots_ok_def)

text \<open>The value of a key, as the two branches of \<open>cacheValue\<close> store it.\<close>

lemma cacheValue_slot:
  fixes index sub v :: string and p now :: int
  assumes ok: "slots_ok s"
  defines "key \<equiv> makeKey index sub" and "s' \<equiv> cacheValue now p index sub v s"
  shows "slots_ok s'" and "slot_frame p s s'"
    and "map_of (index_at s p) key = Some a \<Longrightarrow>
      nodes_of s' p = promote (evictionPolicy (sc_config s)) a
        (touch_node a (\<lambda>e. e\<lparr>ce_value := v, ce_time := now, ce_count := ce_count e + 1\<rparr>) (nodes_of s p))"
    and "map_of (index_at s p) key = None \<Longrightarrow> list_all (\<lambda>n. \<not> expired (sc_config s) now (nd_entry n)) (nodes_of s p) \<Longrightarrow>
      nodes_of s' p = \<lparr>nd_addr = sc_next s, nd_key = key, nd_entry = \<lparr>ce_value = v, ce_time = now, ce_count = 1\<rparr>\<rparr>
        # take (nat (maxEntriesPerSlave (sc_config s) - 1)) (nodes_of s p)"
    and "map_of (index_at s p) key = None \<Longrightarrow> length (nodes_of s' p) \<le> nat (max 1 (maxEntriesPerSlave (sc_config s)))"
    and "nodes_of s' p \<noteq> []"
proof -
  let ?s0 = "put_slot p (nodes_of s p) (index_at s p) s"
  have ok0: "slots_ok ?s0" using ok by (intro slots_ok_put) (simp_all add: slots_ok_def)
  have slot: "slot_ok (sc_next s) (nodes_of s p) (index_at s p)" using ok by (simp add: slots_ok_def)
  have "slots_ok s' \<and> slot_frame p s s' \<and> nodes_of s' p \<noteq> []
    \<and> (map_of (index_at s p) key = Some a \<longrightarrow> nodes_of s' p = promote (evictionPolicy (sc_config s)) a
        (touch_node a (\<lambda>e. e\<lparr>ce_value := v, ce_time := now, ce_count := ce_count e + 1\<rparr>) (nodes_of s p)))
    \<and> (map_of (index_at s p) key = None \<longrightarrow> length (nodes_of s' p) \<le> nat (max 1 (maxEntriesPerSlave (sc_config s)))
        \<and> (list_all (\<lambda>n. \<not> expired (sc_config s) now (nd_entry n)) (nodes_of s p) \<longrightarrow>
      nodes_of s' p = \<lparr>nd_addr = sc_next s, nd_key = key, nd_entry = \<lparr>ce_value = v, ce_time = now, ce_count = 1\<rparr>\<rparr>
        # take (nat (maxEntriesPerSlave (sc_config s) - 1)) (nodes_of s p)))"
  proof (cases "map_of (index_at s p) key")
    case (Some b)
    let ?ns = "promote (evictionPolicy (sc_config s)) b
        (touch_node b (\<lambda>e. e\<lparr>ce_value := v, ce_time := now, ce_count := ce_count e + 1\<rparr>) (nodes_of s p))"
    have s': "s' = (put_slot p ?ns (index_at s p) ?s0)\<lparr>sc_signals := sc_signals (put_slot p ?ns (index_at s p) ?s0) @ [(True, p)]\<rparr>"
      using Some by (simp add: s'_def cacheValue_def Let_def key_def)
    have "length ?ns = length (nodes_of s p)" by (simp add: promote_def splice_front_facts)
    moreover have "nodes_of s p \<noteq> []" using slot_ok_lookup(2) [OF slot Some] by auto
    ultimately have "?ns \<noteq> []" by fastforce
    moreover have "slots_ok s'"
      unfolding s' slots_ok_updates by (intro slots_ok_put ok0) (simp add: slot_ok_touch slot)
    ultimately show ?thesis using Some by (auto simp: s' slot_frame_def)
  next
    case None
    let ?s2 = "evictIfNeeded now p ?s0"
    note ev = evictIfNeeded_slot [OF ok0, of p now, simplified]
    let ?node = "\<lparr>nd_addr = sc_next ?s2, nd_key = key, nd_entry = \<lparr>ce_value = v, ce_time = now, ce_count = 1\<rparr>\<rparr>"
    define s3 where "s3 = put_slot p (?node # nodes_of ?s2 p) (hash_insert key (sc_next ?s2) (index_at ?s2 p)) ?s2"
    have s': "s' = s3\<lparr>sc_next := sc_next ?s2 + 1, sc_signals := sc_signals s3 @ [(True, p)]\<rparr>"
      using None by (simp add: s'_def cacheValue_def Let_def key_def s3_def)
    have new: "key \<notin> nd_key ` set (nodes_of ?s2 p)"
      using slot_ok_lookup(1) [OF slot, of key] None ev(5) by auto
    have "slot_ok (Suc (sc_next s)) (nodes_of s' p) (index_at s' p)"
      using slot_ok_push [OF ev(1) new, of ?node] ev(2) by (simp add: s' s3_def)
    moreover have "slot_ok (Suc (sc_next s)) (nodes_of s' q) (index_at s' q)" if "q \<noteq> p" for q
      using that ev(3) ok slot_ok_later [of "sc_next s" "nodes_of s q" "index_at s q" "Suc (sc_next s)"]
      by (simp add: s' s3_def slot_frame_def slots_ok_def)
    moreover have "sc_next s' = Suc (sc_next s)" by (simp add: s' ev(2))
    ultimately have "slots_ok s'" unfolding slots_ok_def by metis
    then show ?thesis
      using None ev(2,3,4,6) by (auto simp: s' s3_def slot_frame_def)
  qed
  then show "slots_ok s'" "slot_frame p s s'"
    "map_of (index_at s p) key = Some a \<Longrightarrow> nodes_of s' p = promote (evictionPolicy (sc_config s)) a
        (touch_node a (\<lambda>e. e\<lparr>ce_value := v, ce_time := now, ce_count := ce_count e + 1\<rparr>) (nodes_of s p))"
    "map_of (index_at s p) key = None \<Longrightarrow> list_all (\<lambda>n. \<not> expired (sc_config s) now (nd_entry n)) (nodes_of s p) \<Longrightarrow>
      nodes_of s' p = \<lparr>nd_addr = sc_next s, nd_key = key, nd_entry = \<lparr>ce_value = v, ce_time = now, ce_count = 1\<rparr>\<rparr>
        # take (nat (maxEntriesPerSlave (sc_config s) - 1)) (nodes_of s p)"
    "map_of (index_at s p) key = None \<Longrightarrow> length (nodes_of s' p) \<le> nat (max 1 (maxEntriesPerSlave (sc_config s)))"
    "nodes_of s' p \<noteq> []" by blast+
qed

lemma find_distinct:
  "distinct (map g xs) \<Longrightarrow> x \<in> set xs \<Longrightarrow> find (\<lambda>y. g y = g x) xs = Some x \<and> filter (\<lambda>y. g y = g x) xs = [x]"
  by (induction xs) (auto simp: filter_empty_conv rev_image_eqI)

lemma getCachedValue_slot:
  assumes ok: "slots_ok s"
  shows "makeKey i sub \<notin> nd_key ` set (nodes_of s p) \<Longrightarrow>
      getCachedValue now p i sub s = ([], s\<lparr>sc_misses := sc_misses s + 1\<rparr>)"
    and "n \<in> set (nodes_of s p) \<Longrightarrow> nd_key n = makeKey i sub \<Longrightarrow> getCachedValue now p i sub s =
      (if expired (sc_config s) now (nd_entry n) then ([], s\<lparr>sc_misses := sc_misses s + 1\<rparr>)
       else (ce_value (nd_entry n),
          (put_slot p (promote (evictionPolicy (sc_config s)) (nd_addr n)
             (touch_node (nd_addr n) (\<lambda>e. e\<lparr>ce_count := ce_count e + 1\<rparr>) (nodes_of s p))) (index_at s p) s)
            \<lparr>sc_hits := sc_hits s + 1\<rparr>))"
proof -
  have slot: "slot_ok (sc_next s) (nodes_of s p) (index_at s p)" using ok by (simp add: slots_ok_def)
  have at: "map_of (sc_index s) p = Some idx \<Longrightarrow> index_at s p = idx" for idx by (simp add: hash_at_def)
  {
    assume "makeKey i sub \<notin> nd_key ` set (nodes_of s p)"
    then have "map_of (index_at s p) (makeKey i sub) = None" using slot_ok_lookup(1) [OF slot] by simp
    then show "getCachedValue now p i sub s = ([], s\<lparr>sc_misses := sc_misses s + 1\<rparr>)"
      using at by (auto simp: getCachedValue_def Let_def split: option.splits)
  }
  assume n: "n \<in> set (nodes_of s p)" "nd_key n = makeKey i sub"
  have key: "map_of (index_at s p) (makeKey i sub) = Some (nd_addr n)"
    using slot_ok_lookup(3) [OF slot n(1)] n(2) by simp
  then obtain idx where idx: "map_of (sc_index s) p = Some idx"
    by (cases "map_of (sc_index s) p") (simp_all add: hash_at_def)
  have "node_at (nd_addr n) (nodes_of s p) = Some n"
    using find_distinct [of nd_addr "nodes_of s p" n] slot n(1) by (simp add: slot_ok_def node_at_def)
  then show "getCachedValue now p i sub s =
      (if expired (sc_config s) now (nd_entry n) then ([], s\<lparr>sc_misses := sc_misses s + 1\<rparr>)
       else (ce_value (nd_entry n),
          (put_slot p (promote (evictionPolicy (sc_config s)) (nd_addr n)
             (touch_node (nd_addr n) (\<lambda>e. e\<lparr>ce_count := ce_count e + 1\<rparr>) (nodes_of s p))) (index_at s p) s)
            \<lparr>sc_hits := sc_hits s + 1\<rparr>))"
    using key at [OF idx] idx by (simp add: getCachedValue_def Let_def)
qed

lemma getCachedValue_keeps:
  assumes ok: "slots_ok s"
  shows "slots_ok (snd (getCachedValue now p i sub s))" and "slot_frame p s (snd (getCachedValue now p i sub s))"
proof -
  have slot: "slot_ok (sc_next s) (nodes_of s p) (index_at s p)" using ok by (simp add: slots_ok_def)
  have "slots_ok (snd (getCachedValue now p i sub s)) \<and> slot_frame p s (snd (getCachedValue now p i sub s))"
  proof (cases "makeKey i sub \<in> nd_key ` set (nodes_of s p)")
    case False
    then show ?thesis using getCachedValue_slot(1) [OF ok] ok by (simp add: slot_frame_def)
  next
    case True
    then obtain n where n: "n \<in> set (nodes_of s p)" "nd_key n = makeKey i sub" by auto
    show ?thesis
      unfolding getCachedValue_slot(2) [OF ok n]
      using ok slots_ok_put [OF ok slot_ok_touch [OF slot]] by (simp add: slot_frame_def)
  qed
  then show "slots_ok (snd (getCachedValue now p i sub s))" "slot_frame p s (snd (getCachedValue now p i sub s))" by blast+
qed

lemma cache_step_ok: "slots_ok s \<Longrightarrow> slots_ok (cache_step s e)"
  by (cases e) (simp_all add: cacheValue_slot(1) getCachedValue_keeps(1),
    simp_all add: cacheDictionary_def invalidateCache_def invalidateAll_def setConfig_def slots_ok_def)

lemma slots_ok_init: "slots_ok cache_init"
  by (simp add: slots_ok_def cache_init_def)

text \<open>
  List and index of the cache never disagree: after any operations, with any changes of the
  configuration in between, each slave's nodes have distinct keys, the index has exactly one iterator for each of
  them and no other, pointing to the node of that key, and so the reported size is the number of nodes.
\<close>

theorem cache_index_agrees:
  fixes ops :: "cache_op list" and p :: int
  defines "s \<equiv> foldl cache_step cache_init ops"
  shows "distinct (map nd_key (nodes_of s p)) \<and> distinct (map fst (index_at s p))
    \<and> set (index_at s p) = set (map (\<lambda>n. (nd_key n, nd_addr n)) (nodes_of s p))
    \<and> cacheSize p s = length (nodes_of s p)"
proof -
  have "slots_ok s" unfolding s_def by (rule foldl_invariant [where I = slots_ok, OF slots_ok_init]) (rule cache_step_ok)
  then have "slot_ok (sc_next s) (nodes_of s p) (index_at s p)" by (simp add: slots_ok_def)
  then show ?thesis using slot_ok_length by (auto simp: slot_ok_def cacheSize_def)
qed

section \<open>The cache is a least-recently-used cache\<close>

definition lru_put :: "nat \<Rightarrow> string \<Rightarrow> string \<Rightarrow> (string \<times> string) list \<Rightarrow> (string \<times> string) list" where
  "lru_put m k v xs = take m ((k, v) # filter (\<lambda>e. fst e \<noteq> k) xs)"

definition lru_get :: "string \<Rightarrow> (string \<times> string) list \<Rightarrow> (string \<times> string) list" where
  "lru_get k xs = (case map_of xs k of None \<Rightarrow> xs | Some v \<Rightarrow> (k, v) # filter (\<lambda>e. fst e \<noteq> k) xs)"

type_synonym lru_spec = "int \<Rightarrow> (string \<times> string) list"

fun lru_step :: "nat \<Rightarrow> lru_spec \<Rightarrow> cache_op \<Rightarrow> lru_spec" where
  "lru_step m X (CacheValue now p i sub v) = X(p := lru_put m (makeKey i sub) v (X p))"
| "lru_step m X (GetValue now p i sub) = X(p := lru_get (makeKey i sub) (X p))"
| "lru_step m X (CacheDictionary p d) = X"
| "lru_step m X (Invalidate p) = X(p := [])"
| "lru_step m X InvalidateAll = (\<lambda>p. [])"
| "lru_step m X (SetConfig cfg) = X"

definition view :: "sdo_cache \<Rightarrow> lru_spec" where
  "view s p = map (\<lambda>n. (nd_key n, ce_value (nd_entry n))) (nodes_of s p)"

definition in_window :: "int \<Rightarrow> int \<Rightarrow> int \<Rightarrow> bool" where
  \<comment> \<open>the times at which nothing stored since \<open>t0\<close> has expired\<close>
  "in_window ttl t0 now \<longleftrightarrow> t0 \<le> now \<and> (ttl \<le> 0 \<or> now \<le> t0 + ttl)"

fun op_in_window :: "int \<Rightarrow> int \<Rightarrow> cache_op \<Rightarrow> bool" where
  "op_in_window ttl t0 (CacheValue now p i sub v) = in_window ttl t0 now"
| "op_in_window ttl t0 (GetValue now p i sub) = in_window ttl t0 now"
| "op_in_window ttl t0 (SetConfig cfg) = False"
| "op_in_window ttl t0 e = True"

definition lru_sim :: "sdo_cache_config \<Rightarrow> int \<Rightarrow> sdo_cache \<Rightarrow> bool" where
  "lru_sim cfg t0 s \<longleftrightarrow> slots_ok s \<and> sc_config s = cfg
     \<and> (\<forall>p. length (nodes_of s p) \<le> nat (maxEntriesPerSlave cfg) \<and> (\<forall>n \<in> set (nodes_of s p). t0 \<le> ce_time (nd_entry n)))"

lemma not_expired: "in_window (ttlMs cfg) t0 now \<Longrightarrow> t0 \<le> ce_time e \<Longrightarrow> \<not> expired cfg now e"
  by (auto simp: in_window_def expired_def)

lemma set_touch_node: "n' \<in> set (touch_node a f ns) \<Longrightarrow> \<exists>n \<in> set ns. n' = n \<or> n' = n\<lparr>nd_entry := f (nd_entry n)\<rparr>"
  by (auto simp: touch_node_def)

lemma view_spliced:
  assumes slot: "slot_ok fresh ns idx" and n: "n \<in> set ns"
  shows "map (\<lambda>n. (nd_key n, ce_value (nd_entry n))) (splice_front (nd_addr n) (touch_node (nd_addr n) f ns))
    = (nd_key n, ce_value (f (nd_entry n))) # filter (\<lambda>e. fst e \<noteq> nd_key n) (map (\<lambda>n. (nd_key n, ce_value (nd_entry n))) ns)"
proof -
  have d: "distinct (map nd_addr ns)" "distinct (map nd_key ns)" using slot by (simp_all add: slot_ok_def)
  have same: "nd_addr x = nd_addr n \<longleftrightarrow> nd_key x = nd_key n" if "x \<in> set ns" for x
    using d n that by (auto simp: distinct_map dest: inj_onD)
  let ?g = "\<lambda>x. if nd_addr x = nd_addr n then x\<lparr>nd_entry := f (nd_entry x)\<rparr> else x"
  have "filter (\<lambda>x. nd_addr x = nd_addr n) (touch_node (nd_addr n) f ns)
      = map ?g (filter (\<lambda>x. nd_addr x = nd_addr n) ns)"
    by (simp add: touch_node_def filter_map comp_def if_distrib cong: if_cong filter_cong)
  also have "\<dots> = [n\<lparr>nd_entry := f (nd_entry n)\<rparr>]" using find_distinct [OF d(1) n] by simp
  finally have one: "filter (\<lambda>x. nd_addr x = nd_addr n) (touch_node (nd_addr n) f ns) = [n\<lparr>nd_entry := f (nd_entry n)\<rparr>]" .
  have "filter (\<lambda>x. nd_addr x \<noteq> nd_addr n) (touch_node (nd_addr n) f ns) = filter (\<lambda>x. nd_addr x \<noteq> nd_addr n) ns"
    by (induction ns) (simp_all add: touch_node_def)
  also have "\<dots> = filter (\<lambda>x. nd_key x \<noteq> nd_key n) ns" using same by (intro filter_cong) auto
  finally show ?thesis by (simp add: splice_front_def one filter_map comp_def)
qed

lemma view_lookup:
  assumes "slot_ok fresh (nodes_of s p) idx"
  shows "n \<in> set (nodes_of s p) \<Longrightarrow> map_of (view s p) (nd_key n) = Some (ce_value (nd_entry n))"
    and "k \<notin> nd_key ` set (nodes_of s p) \<Longrightarrow> map_of (view s p) k = None"
    and "k \<notin> nd_key ` set (nodes_of s p) \<Longrightarrow> filter (\<lambda>e. fst e \<noteq> k) (view s p) = view s p"
proof -
  have d: "distinct (map fst (view s p))" using assms by (simp add: view_def slot_ok_def comp_def)
  show "n \<in> set (nodes_of s p) \<Longrightarrow> map_of (view s p) (nd_key n) = Some (ce_value (nd_entry n))"
    using d by (simp add: map_of_eq_Some_iff) (force simp: view_def)
  show "k \<notin> nd_key ` set (nodes_of s p) \<Longrightarrow> map_of (view s p) k = None"
    by (force simp: map_of_eq_None_iff view_def)
  show "k \<notin> nd_key ` set (nodes_of s p) \<Longrightarrow> filter (\<lambda>e. fst e \<noteq> k) (view s p) = view s p"
    by (force simp: filter_id_conv view_def)
qed

lemma touched_times:
  assumes "\<forall>n \<in> set ns. t0 \<le> ce_time (nd_entry n)" and "\<And>e. t0 \<le> ce_time e \<Longrightarrow> t0 \<le> ce_time (f e)"
  shows "\<forall>n \<in> set (promote pol a (touch_node b f ns)). t0 \<le> ce_time (nd_entry n)"
proof -
  have "\<forall>n \<in> set (touch_node b f ns). t0 \<le> ce_time (nd_entry n)" using assms by (auto simp: touch_node_def)
  then show ?thesis by (simp add: promote_def splice_front_facts)
qed

lemma lru_simI:
  assumes "lru_sim cfg t0 s" and "slots_ok s'" and "slot_frame p s s'"
    and "length (nodes_of s' p) \<le> nat (maxEntriesPerSlave cfg)" and "\<forall>n \<in> set (nodes_of s' p). t0 \<le> ce_time (nd_entry n)"
  shows "lru_sim cfg t0 s'"
  unfolding lru_sim_def
proof (intro conjI allI)
  fix q
  show "length (nodes_of s' q) \<le> nat (maxEntriesPerSlave cfg)" "\<forall>n \<in> set (nodes_of s' q). t0 \<le> ce_time (nd_entry n)"
    using assms by (cases "q = p"; simp add: lru_sim_def slot_frame_def)+
qed (use assms in \<open>simp_all add: lru_sim_def slot_frame_def\<close>)

lemma view_frame: "slot_frame p s s' \<Longrightarrow> view s' = (view s)(p := view s' p)"
  by (auto simp: view_def slot_frame_def)

lemma lru_put_sim:
  fixes i sub v :: string and p :: int
  assumes sim: "lru_sim cfg t0 s" and pol: "evictionPolicy cfg = LRU" and m: "1 \<le> maxEntriesPerSlave cfg"
    and w: "in_window (ttlMs cfg) t0 now"
  defines "s' \<equiv> cacheValue now p i sub v s"
  shows "lru_sim cfg t0 s' \<and> view s' = (view s)(p := lru_put (nat (maxEntriesPerSlave cfg)) (makeKey i sub) v (view s p))"
proof -
  have ok: "slots_ok s" and cfg: "sc_config s = cfg" and times: "\<forall>n \<in> set (nodes_of s p). t0 \<le> ce_time (nd_entry n)"
    and len: "length (nodes_of s p) \<le> nat (maxEntriesPerSlave cfg)"
    using sim by (simp_all add: lru_sim_def)
  have slot: "slot_ok (sc_next s) (nodes_of s p) (index_at s p)" using ok by (simp add: slots_ok_def)
  note put = cacheValue_slot [OF ok, where p = p and index = i and sub = sub and v = v and now = now, folded s'_def]
  have t0: "t0 \<le> now" using w by (simp add: in_window_def)
  show ?thesis
  proof (cases "makeKey i sub \<in> nd_key ` set (nodes_of s p)")
    case True
    then obtain n where n: "n \<in> set (nodes_of s p)" "nd_key n = makeKey i sub" by auto
    let ?f = "\<lambda>e. e\<lparr>ce_value := v, ce_time := now, ce_count := ce_count e + 1\<rparr>"
    have nodes: "nodes_of s' p = promote LRU (nd_addr n) (touch_node (nd_addr n) ?f (nodes_of s p))"
      using put(3) slot_ok_lookup(3) [OF slot n(1)] n(2) by (simp add: cfg pol)
    have "view s' p = (makeKey i sub, v) # filter (\<lambda>e. fst e \<noteq> makeKey i sub) (view s p)"
      using view_spliced [OF slot n(1), of ?f] n(2) by (simp add: view_def nodes promote_def)
    moreover have "length (view s' p) \<le> nat (maxEntriesPerSlave cfg)"
      using len by (simp add: view_def nodes promote_def splice_front_facts)
    ultimately have "view s' p = lru_put (nat (maxEntriesPerSlave cfg)) (makeKey i sub) v (view s p)"
      by (simp add: lru_put_def)
    moreover have "lru_sim cfg t0 s'"
    proof (rule lru_simI [OF sim put(1,2)])
      show "length (nodes_of s' p) \<le> nat (maxEntriesPerSlave cfg)"
        using len by (simp add: nodes promote_def splice_front_facts)
      show "\<forall>n \<in> set (nodes_of s' p). t0 \<le> ce_time (nd_entry n)"
        unfolding nodes by (rule touched_times [OF times]) (simp add: t0)
    qed
    ultimately show ?thesis using view_frame [OF put(2)] by simp
  next
    case False
    then have none: "map_of (index_at s p) (makeKey i sub) = None" using slot_ok_lookup(1) [OF slot] by simp
    have "list_all (\<lambda>n. \<not> expired (sc_config s) now (nd_entry n)) (nodes_of s p)"
      using times not_expired [OF w] by (auto simp: list_all_iff cfg)
    note nodes = put(4) [OF none this]
    obtain m' where m': "nat (maxEntriesPerSlave cfg) = Suc m'" "nat (maxEntriesPerSlave cfg - 1) = m'"
      using m by (cases "nat (maxEntriesPerSlave cfg)") auto
    have "view s' p = lru_put (nat (maxEntriesPerSlave cfg)) (makeKey i sub) v (view s p)"
      using view_lookup(3) [OF slot False] m' by (simp add: lru_put_def) (simp add: view_def nodes cfg take_map)
    moreover have "lru_sim cfg t0 s'"
      using times t0 m' by (intro lru_simI [OF sim put(1,2)]) (auto simp: nodes cfg dest: in_set_takeD)
    ultimately show ?thesis using view_frame [OF put(2)] by simp
  qed
qed

lemma lru_get_sim:
  fixes i sub :: string and p :: int
  assumes sim: "lru_sim cfg t0 s" and pol: "evictionPolicy cfg = LRU" and w: "in_window (ttlMs cfg) t0 now"
  defines "r \<equiv> getCachedValue now p i sub s"
  shows "lru_sim cfg t0 (snd r) \<and> view (snd r) = (view s)(p := lru_get (makeKey i sub) (view s p))
    \<and> map_of (view s p) (makeKey i sub) = (if sc_hits (snd r) = sc_hits s + 1 then Some (fst r) else None)
    \<and> sc_hits (snd r) + sc_misses (snd r) = sc_hits s + sc_misses s + 1"
proof -
  have ok: "slots_ok s" and cfg: "sc_config s = cfg" and times: "\<forall>n \<in> set (nodes_of s p). t0 \<le> ce_time (nd_entry n)"
    and len: "length (nodes_of s p) \<le> nat (maxEntriesPerSlave cfg)"
    using sim by (simp_all add: lru_sim_def)
  have slot: "slot_ok (sc_next s) (nodes_of s p) (index_at s p)" using ok by (simp add: slots_ok_def)
  note keeps = getCachedValue_keeps [OF ok, where p = p and i = i and sub = sub and now = now, folded r_def]
  show ?thesis
  proof (cases "makeKey i sub \<in> nd_key ` set (nodes_of s p)")
    case True
    then obtain n where n: "n \<in> set (nodes_of s p)" "nd_key n = makeKey i sub" by auto
    let ?f = "\<lambda>e. e\<lparr>ce_count := ce_count e + 1\<rparr>"
    have "\<not> expired cfg now (nd_entry n)" using times n(1) not_expired [OF w] by blast
    then have r: "r = (ce_value (nd_entry n), (put_slot p (promote LRU (nd_addr n)
             (touch_node (nd_addr n) ?f (nodes_of s p))) (index_at s p) s) \<lparr>sc_hits := sc_hits s + 1\<rparr>)"
      unfolding r_def using getCachedValue_slot(2) [OF ok n] by (simp add: cfg pol)
    have nodes: "nodes_of (snd r) p = promote LRU (nd_addr n) (touch_node (nd_addr n) ?f (nodes_of s p))"
      by (simp add: r)
    have look: "map_of (view s p) (makeKey i sub) = Some (ce_value (nd_entry n))"
      using view_lookup(1) [OF slot n(1)] n(2) by simp
    have "view (snd r) p = lru_get (makeKey i sub) (view s p)"
      using view_spliced [OF slot n(1), of ?f] n(2) look by (simp add: lru_get_def) (simp add: view_def nodes promote_def)
    moreover have "lru_sim cfg t0 (snd r)"
    proof (rule lru_simI [OF sim keeps])
      show "length (nodes_of (snd r) p) \<le> nat (maxEntriesPerSlave cfg)"
        using len by (simp add: nodes promote_def splice_front_facts)
      show "\<forall>n \<in> set (nodes_of (snd r) p). t0 \<le> ce_time (nd_entry n)"
        unfolding nodes by (rule touched_times [OF times]) simp
    qed
    ultimately show ?thesis using view_frame [OF keeps(2)] look by (simp add: r)
  next
    case False
    have r: "r = ([], s\<lparr>sc_misses := sc_misses s + 1\<rparr>)" unfolding r_def by (rule getCachedValue_slot(1) [OF ok False])
    have "map_of (view s p) (makeKey i sub) = None" by (rule view_lookup(2) [OF slot False])
    moreover have "view (snd r) = view s" by (simp add: r view_def fun_eq_iff)
    moreover have "lru_sim cfg t0 (snd r)" using sim by (simp add: r lru_sim_def)
    ultimately show ?thesis by (simp add: r lru_get_def)
  qed
qed

lemma lru_step_sim:
  assumes sim: "lru_sim cfg t0 s" and pol: "evictionPolicy cfg = LRU" and m: "1 \<le> maxEntriesPerSlave cfg"
    and w: "op_in_window (ttlMs cfg) t0 e"
  shows "lru_sim cfg t0 (cache_step s e) \<and> view (cache_step s e) = lru_step (nat (maxEntriesPerSlave cfg)) (view s) e"
proof (cases e)
  case (CacheValue now p i sub v)
  then show ?thesis using lru_put_sim [OF sim pol m] w by simp
next
  case (GetValue now p i sub)
  then show ?thesis using lru_get_sim [OF sim pol] w by simp
next
  case (CacheDictionary p d)
  then show ?thesis using sim by (simp add: cacheDictionary_def lru_sim_def view_def fun_eq_iff)
next
  case (Invalidate p)
  then show ?thesis
    using sim cache_step_ok [of s e]
    by (auto simp: invalidateCache_def lru_sim_def view_def fun_eq_iff)
next
  case InvalidateAll
  then show ?thesis
    using sim cache_step_ok [of s e] by (simp add: invalidateAll_def lru_sim_def view_def fun_eq_iff)
next
  case (SetConfig c)
  then show ?thesis using w by simp
qed

text \<open>
  Claim C18 (refinement). Under its default policy the cache is a least-recently-used cache of bounded size, of at
  least one value, for each slave: as long as the operations span no more than the time to live, what the nodes hold, front to back, is what
  the specification holds (putting and getting move a key to the front, an insertion beyond the
  maximum drops the last), and a read answers a hit exactly for the keys of the specification, with the last value
  put under it; each read counts as one hit or one miss.
\<close>

theorem cache_refines_lru:
  fixes i sub :: string and p :: int
  assumes "evictionPolicy cfg = LRU" and "1 \<le> maxEntriesPerSlave cfg"
    and "list_all (op_in_window (ttlMs cfg) t0) ops" and "in_window (ttlMs cfg) t0 now"
  defines "s \<equiv> foldl cache_step (setConfig cfg cache_init) ops"
    and "X \<equiv> foldl (lru_step (nat (maxEntriesPerSlave cfg))) (\<lambda>p. []) ops"
  defines "r \<equiv> getCachedValue now p i sub s"
  shows "view s = X \<and> map_of (X p) (makeKey i sub) = (if sc_hits (snd r) = sc_hits s + 1 then Some (fst r) else None)
    \<and> sc_hits (snd r) + sc_misses (snd r) = sc_hits s + sc_misses s + 1"
proof -
  have init: "lru_sim cfg t0 (setConfig cfg cache_init) \<and> view (setConfig cfg cache_init) = (\<lambda>p. [])"
    by (simp add: lru_sim_def setConfig_def cache_init_def view_def fun_eq_iff slots_ok_def)
  have "lru_sim cfg t0 (foldl cache_step s0 ops)
      \<and> view (foldl cache_step s0 ops) = foldl (lru_step (nat (maxEntriesPerSlave cfg))) (view s0) ops"
    if "lru_sim cfg t0 s0" for s0
    using assms(3) that
  proof (induction ops arbitrary: s0)
    case (Cons e ops)
    then show ?case using lru_step_sim [OF Cons.prems(2) assms(1,2), of e] by simp
  qed simp
  then have "lru_sim cfg t0 s" "view s = X" using init by (auto simp: s_def X_def)
  then show ?thesis using lru_get_sim [OF _ assms(1,4), of s p i sub] by (simp add: r_def)
qed

definition demo_cache_ops :: "cache_op list" where
  "demo_cache_ops = [CacheValue 0 3 ''0x6041'' ''0'' ''a'', CacheValue 1 3 ''0x6040'' ''0'' ''b'',
     GetValue 2 3 ''0x6041'' ''0'', CacheValue 3 3 ''0x6060'' ''0'' ''c'']"

theorem cache_refines_lru_witness:
  "let cfg = \<lparr>maxEntriesPerSlave = 2, ttlMs = 100, evictionPolicy = LRU\<rparr>;
     s = foldl cache_step (setConfig cfg cache_init) demo_cache_ops
   in view s 3 = [(''0x6060:0'', ''c''), (''0x6041:0'', ''a'')]"
proof -
  let ?cfg = "\<lparr>maxEntriesPerSlave = 2, ttlMs = 100, evictionPolicy = LRU\<rparr> :: sdo_cache_config"
  have "view (foldl cache_step (setConfig ?cfg cache_init) demo_cache_ops)
      = foldl (lru_step (nat (maxEntriesPerSlave ?cfg))) (\<lambda>p. []) demo_cache_ops"
    using cache_refines_lru [where cfg = ?cfg and ?t0.0 = 0 and ops = demo_cache_ops and now = 4]
    by (simp add: demo_cache_ops_def in_window_def)
  then show ?thesis
    by (simp add: demo_cache_ops_def lru_put_def lru_get_def makeKey_def numeral_2_eq_2)
qed

section \<open>What the policies and the clean-up do\<close>

text \<open>The policy LFU evicts as FIFO does: the access counts are kept but never looked at.\<close>

lemma lfu_evicts_like_fifo:
  assumes "evictionPolicy (sc_config s) = LFU" and "evictionPolicy cfg = FIFO"
    and "maxEntriesPerSlave cfg = maxEntriesPerSlave (sc_config s)" and "ttlMs cfg = ttlMs (sc_config s)"
  shows "nodes_of (cacheValue now p i sub v (s\<lparr>sc_config := cfg\<rparr>)) p = nodes_of (cacheValue now p i sub v s) p"
  using assms
  by (simp add: cacheValue_def Let_def promote_def evictIfNeeded_def evictExpired_def put_slot_def map_of_hash_insert
      split: option.splits prod.splits)

text \<open>Whenever the last node has expired, inserting a new key goes on through the node it has just freed.\<close>

lemma expired_eviction_reads_freed:
  assumes "map_of (index_at s p) (makeKey i sub) = None" and "nodes_of s p = ns @ [n]"
    and "expired (sc_config s) now (nd_entry n)"
  shows "sc_freed_read (cacheValue now p i sub v s)"
  using assms
  by (simp add: cacheValue_def Let_def evictIfNeeded_def evictExpired_def expired_def split: prod.splits)

end
