(* ===== verification/DriveModel.thy ===== *)
theory DriveModel
  imports QtText
begin

text \<open>
  The CiA 402 drive model of the studio (\<^verbatim>\<open>models/Cia402DriveModel.{h,cpp}\<close>): decoding of the drive profile's
  objects and the control word recommended for a decoded status word. A \<open>qint64\<close> is a 64-bit word, read with
  \<open>sint\<close>; the null string is the empty one.
\<close>

section \<open>Decoding\<close>

definition parseInteger :: "string \<Rightarrow> u64 option" where
  "parseInteger text0 =
     (let text = trimmed text0 in
      if text = [] then None
      else let negative = starts_with ''-'' text;
               text1 = (if negative then drop 1 text else text);
               hexadecimal = starts_with_ci ''0x'' text1;
               text2 = (if hexadecimal then drop 2 text1 else text1)
        in (case to_uint (2 ^ 64) (if hexadecimal then 16 else 10) text2 of
              None \<Rightarrow> None
            | Some n \<Rightarrow> Some (if negative then - of_nat n else of_nat n)))"

definition hex16 :: "u16 \<Rightarrow> string" where
  "hex16 n = to_lower (''0x'' @ hex_field 4 (unat n))"

definition status_state :: "u16 \<Rightarrow> string" where
  "status_state sw =
     (if sw AND 0x004f = 0x0000 then ''Not ready to switch on''
      else if sw AND 0x004f = 0x0040 then ''Switch on disabled''
      else if sw AND 0x006f = 0x0021 then ''Ready to switch on''
      else if sw AND 0x006f = 0x0023 then ''Switched on''
      else if sw AND 0x006f = 0x0027 then ''Operation enabled''
      else if sw AND 0x006f = 0x0007 then ''Quick stop active''
      else if sw AND 0x004f = 0x000f then ''Fault reaction active''
      else if sw AND 0x004f = 0x0008 then ''Fault''
      else ''Unknown state'')"

definition status_flags :: "u16 \<Rightarrow> string list" where
  "status_flags sw =
     (if sw AND 0x0010 \<noteq> 0 then [''voltage''] else []) @ (if sw AND 0x0080 \<noteq> 0 then [''warning''] else [])
     @ (if sw AND 0x0200 \<noteq> 0 then [''remote''] else []) @ (if sw AND 0x0400 \<noteq> 0 then [''target reached''] else [])
     @ (if sw AND 0x0800 \<noteq> 0 then [''internal limit''] else [])"

definition decode_status :: "u16 \<Rightarrow> string" where
  "decode_status sw =
     (if status_flags sw = [] then status_state sw @ '' ('' @ hex16 sw @ '')''
      else status_state sw @ '' ('' @ hex16 sw @ '', '' @ join_with '', '' (status_flags sw) @ '')'')"

definition control_commands :: "u16 \<Rightarrow> string list" where
  "control_commands cw =
     (if cw AND 0x0080 \<noteq> 0 then [''fault reset''] else [])
     @ (if cw AND 0x000f = 0x0006 then [''shutdown'']
        else if cw AND 0x000f = 0x0007 then [''switch on'']
        else if cw AND 0x000f = 0x000f then [''enable operation'']
        else if cw AND 0x000f = 0x0002 then [''quick stop'']
        else if cw AND 0x000f = 0x0000 then [''disable voltage'']
        else [])"

definition decode_control :: "u16 \<Rightarrow> string" where
  "decode_control cw =
     (if control_commands cw = [] then ''Controlword '' @ hex16 cw
      else join_with '', '' (control_commands cw) @ '' ('' @ hex16 cw @ '')'')"

definition operation_modes :: "(int \<times> string) list" where
  "operation_modes = [(1, ''Profile position''), (3, ''Profile velocity''), (4, ''Profile torque''), (6, ''Homing''),
     (7, ''Interpolated position''), (8, ''Cyclic sync position''), (9, ''Cyclic sync velocity''),
     (10, ''Cyclic sync torque'')]"

definition decode_mode :: "u64 \<Rightarrow> string" where
  "decode_mode numeric = (case map_of operation_modes (sint (ucast numeric :: u32)) of
     Some nm \<Rightarrow> nm | None \<Rightarrow> ''Mode '' @ number_int (sint numeric))"

definition plain_objects :: "(string \<times> string) list" where
  "plain_objects = [(''0x6064'', ''Actual position''), (''0x606c'', ''Actual velocity''), (''0x6077'', ''Actual torque''),
     (''0x607a'', ''Target position''), (''0x60ff'', ''Target velocity''), (''0x6071'', ''Target torque'')]"

definition decodeCia402Value :: "string \<Rightarrow> string \<Rightarrow> string" where
  "decodeCia402Value index val =
     (let normalizedIndex = to_lower (trimmed index) in
      case parseInteger val of
        None \<Rightarrow> []
      | Some numeric \<Rightarrow>
          if normalizedIndex = ''0x6041'' then decode_status (ucast numeric)
          else if normalizedIndex = ''0x6040'' then decode_control (ucast numeric)
          else if normalizedIndex = ''0x6060'' \<or> normalizedIndex = ''0x6061'' then decode_mode numeric
          else if normalizedIndex = ''0x603f'' then
            (if numeric = 0 then ''No error'' else ''Error code '' @ hex16 (ucast numeric))
          else (case map_of plain_objects normalizedIndex of Some t \<Rightarrow> t | None \<Rightarrow> []))"

definition isCia402Object :: "string \<Rightarrow> string \<Rightarrow> bool" where
  "isCia402Object index mode =
     (let normalizedIndex = to_lower (trimmed index); normalizedMode = to_lower (trimmed mode)
      in contains_str ''cia 402'' normalizedMode \<or> contains_str ''cia402'' normalizedMode
         \<or> normalizedIndex \<in> set [''0x6040'', ''0x6041'', ''0x6060'', ''0x6061'', ''0x603f'', ''0x6064'', ''0x606c'',
             ''0x6077'', ''0x607a'', ''0x60ff'', ''0x6071''])"

section \<open>The recommended control word\<close>

record recommendation =
  rec_label :: string
  rec_value :: string
  rec_reason :: string

definition recommendedControlword :: "string \<Rightarrow> recommendation" where
  "recommendedControlword decodedStatusword =
     (let normalized = to_lower decodedStatusword;
          (label, val) =
            (if contains_str ''fault'' normalized then (''Fault Reset'', ''0x0080'')
             else if contains_str ''switch on disabled'' normalized then (''Shutdown'', ''0x0006'')
             else if contains_str ''ready to switch on'' normalized then (''Switch On'', ''0x0007'')
             else if contains_str ''switched on'' normalized then (''Enable Operation'', ''0x000f'')
             else if contains_str ''quick stop active'' normalized then (''Shutdown'', ''0x0006'')
             else ([], []))
      in \<lparr>rec_label = label, rec_value = val, rec_reason = decodedStatusword\<rparr>)"

section \<open>The states of the drive profile\<close>

definition state_table :: "(string \<times> u16 \<times> u16) list" where
  \<comment> \<open>the coding of the drive states in the status word: mask and pattern\<close>
  "state_table = [(''Not ready to switch on'', 0x004f, 0x0000), (''Switch on disabled'', 0x004f, 0x0040),
     (''Ready to switch on'', 0x006f, 0x0021), (''Switched on'', 0x006f, 0x0023), (''Operation enabled'', 0x006f, 0x0027),
     (''Quick stop active'', 0x006f, 0x0007), (''Fault reaction active'', 0x004f, 0x000f), (''Fault'', 0x004f, 0x0008)]"

lemma mask_6f_4f: "sw AND 0x006f = a \<Longrightarrow> sw AND 0x004f = a AND (0x004f :: u16)"
proof -
  assume "sw AND 0x006f = a"
  then have "a AND 0x004f = sw AND (0x006f AND (0x004f :: u16))" by (simp only: and.assoc [symmetric])
  then show ?thesis by simp
qed

text \<open>
  The decoded state is that of the profile's table, however the tests are ordered: for each state of the
  table, the status word decodes to its name exactly if it has the state's pattern under the state's mask, so
  no two patterns of the table can match one word; a word that matches none is reported as unknown.
\<close>

theorem status_state_is_table_entry:
  "list_all (\<lambda>(nm, m, v). status_state sw = nm \<longleftrightarrow> sw AND m = v) state_table
   \<and> (status_state sw = ''Unknown state'' \<longleftrightarrow> list_all (\<lambda>(nm, m, v). sw AND m \<noteq> v) state_table)"
proof -
  note masks = mask_6f_4f [of sw "0x0021"] mask_6f_4f [of sw "0x0023"] mask_6f_4f [of sw "0x0027"] mask_6f_4f [of sw "0x0007"]
  show ?thesis using masks by (auto simp: state_table_def status_state_def split: if_splits)
qed

lemma parseInteger_number_nat:
  assumes "n < 2 ^ 64"
  shows "parseInteger (number_nat n) = Some (of_nat n)"
proof -
  have digits: "\<forall>c \<in> set (number_nat n). is_digit c" using number_nat_digits by blast
  have x: "to_lower_char c \<noteq> CHR ''x''" if "is_digit c" for c
    using that by (auto simp: is_digit_def to_lower_char_def code_of_def Let_def)
  have "\<not> starts_with ''-'' (number_nat n)"
    using digits is_digit_minus by (cases "number_nat n") (auto simp: starts_with_def)
  moreover have "\<not> starts_with_ci ''0x'' (number_nat n)"
  proof
    assume "starts_with_ci ''0x'' (number_nat n)"
    then obtain t where t: "to_lower (number_nat n) = to_lower ''0x'' @ t"
      unfolding starts_with_ci_def starts_with_iff by blast
    then have "to_lower_char (CHR ''x'') \<in> set (to_lower (number_nat n))" by (simp add: to_lower_def)
    moreover have "to_lower_char (CHR ''x'') = CHR ''x''" by (simp add: to_lower_char_def code_of_def Let_def)
    ultimately obtain c where "c \<in> set (number_nat n)" "to_lower_char c = CHR ''x''"
      unfolding to_lower_def set_map by (metis imageE)
    then show False using x [of c] digits by blast
  qed
  ultimately show ?thesis using assms by (simp add: parseInteger_def Let_def)
qed

section \<open>Status word to control word\<close>

lemma contains_str_sep:
  assumes "c \<notin> set p" and "p \<noteq> []"
  shows "contains_str p (a @ c # b) \<longleftrightarrow> contains_str p a \<or> contains_str p b"
proof
  assume "contains_str p (a @ c # b)"
  then obtain u v where uv: "a @ c # b = u @ p @ v" by (auto simp: contains_str_iff)
  then consider w where "a = u @ p @ w" | w where "b = w @ p @ v" | w where "u = a @ w" "w = []"
    using assms by (auto simp: append_eq_append_conv2 append_eq_Cons_conv Cons_eq_append_conv)
  then show "contains_str p a \<or> contains_str p b"
  proof cases
    case 3
    then have "c # b = p @ v" using uv by simp
    then show ?thesis using assms by (cases p) auto
  qed (auto simp: contains_str_iff)
next
  assume "contains_str p a \<or> contains_str p b"
  then show "contains_str p (a @ c # b)"
    unfolding contains_str_iff by (metis append.assoc append_Cons)
qed

lemma contains_str_chars: "contains_str p s \<Longrightarrow> set p \<subseteq> set s"
  by (auto simp: contains_str_iff)

definition looked_for :: "string list" where
  "looked_for = [''fault'', ''switch on disabled'', ''ready to switch on'', ''switched on'', ''quick stop active'']"

lemma looked_for_facts:
  "p \<in> set looked_for \<Longrightarrow> CHR ''('' \<notin> set p \<and> CHR '','' \<notin> set p \<and> CHR '')'' \<notin> set p \<and> p \<noteq> [] \<and> CHR ''t'' \<in> set p"
  by (auto simp: looked_for_def)

declare to_lower_append [simp]

lemma lower_hex_char:
  assumes "d < 16"
  shows "to_lower_char (digit_char d) = digit_char d" and "digit_char d \<noteq> CHR ''t''"
proof -
  have code: "code_of (digit_char d) = (if d < 10 then 48 + d else 87 + d)" using assms by (simp add: code_digit_char)
  then show "to_lower_char (digit_char d) = digit_char d" using assms by (auto simp: to_lower_char_def Let_def)
  have "code_of (CHR ''t'') = 116" by (simp add: code_of_def)
  then show "digit_char d \<noteq> CHR ''t''" using code assms by (auto split: if_splits)
qed

lemma hex16_no_t: "CHR ''t'' \<notin> set (to_lower (hex16 n))"
proof -
  have zero: "CHR ''0'' = digit_char 0" by code_simp
  have digit: "\<exists>d<16. c = digit_char d" if "c \<in> set (hex_field 4 k)" for c k
    using that digits_base_digits [of 16 c k] exI [of "\<lambda>d. d < 16 \<and> CHR ''0'' = digit_char d" 0] zero
    by (simp add: hex_field_def right_justified_def number_hex_def) blast
  have "set (to_lower (to_lower (hex_field 4 k))) \<subseteq> digit_char ` {..<16}" for k
  proof
    fix c
    assume "c \<in> set (to_lower (to_lower (hex_field 4 k)))"
    then obtain c' where c': "c' \<in> set (hex_field 4 k)" "c = to_lower_char (to_lower_char c')" by (auto simp: to_lower_def)
    then obtain d where "d < 16" "c' = digit_char d" using digit by blast
    then show "c \<in> digit_char ` {..<16}" using c'(2) lower_hex_char(1) [of d] by simp
  qed
  moreover have "CHR ''t'' \<notin> digit_char ` {..<16}"
  proof
    assume "CHR ''t'' \<in> digit_char ` {..<16}"
    then obtain d where "d < 16" "CHR ''t'' = digit_char d" by blast
    then show False using lower_hex_char(2) [of d] by simp
  qed
  ultimately have "CHR ''t'' \<notin> set (to_lower (to_lower (hex_field 4 k)))" for k by blast
  moreover have "CHR ''t'' \<notin> set (to_lower (to_lower ''0x''))" by code_simp
  ultimately show ?thesis unfolding hex16_def to_lower_append set_append by blast
qed

lemma status_flags_subseq:
  "status_flags sw \<in> set (subseqs [''voltage'', ''warning'', ''remote'', ''target reached'', ''internal limit''])"
  unfolding status_flags_def by (simp split: if_split)

lemma lower_flags:
  "to_lower ''voltage'' = ''voltage''" "to_lower ''warning'' = ''warning''" "to_lower ''remote'' = ''remote''"
  "to_lower ''target reached'' = ''target reached''" "to_lower ''internal limit'' = ''internal limit''"
  "to_lower '', '' = '', ''" "to_lower '' '' = '' ''" "to_lower '')'' = '')''"
  by code_simp+

lemma to_lower_punct_strings: "to_lower [] = []" "to_lower (CHR '','' # CHR '' '' # s) = CHR '','' # CHR '' '' # to_lower s"
  by (simp_all add: to_lower_def to_lower_char_def code_of_def Let_def)

lemma to_lower_join: "to_lower (join_with '', '' fs) = join_with '', '' (map to_lower fs)"
  by (induction fs rule: induct_list012) (simp_all add: to_lower_punct_strings)

lemma lower_status_flags: "map to_lower (status_flags sw) = status_flags sw"
  by (simp add: status_flags_def lower_flags)

lemma flags_free:
  "list_all (\<lambda>p. list_all (\<lambda>fs. \<not> contains_str p ('' '' @ join_with '', '' fs @ '')''))
     (subseqs [''voltage'', ''warning'', ''remote'', ''target reached'', ''internal limit''])) looked_for"
  by code_simp

lemma to_lower_punctuation [simp]:
  "to_lower_char (CHR ''('') = CHR ''(''" "to_lower_char (CHR '')'') = CHR '')''" "to_lower_char (CHR '','') = CHR '',''"
  "to_lower_char (CHR '' '') = CHR '' ''"
  by (simp_all add: to_lower_char_def code_of_def Let_def)

lemma contains_decoded:
  assumes p: "p \<in> set looked_for"
  shows "contains_str p (to_lower (decode_status sw)) \<longleftrightarrow> contains_str p (to_lower (status_state sw @ '' ''))"
proof -
  note facts = looked_for_facts [OF p]
  have hex: "\<not> contains_str p (to_lower (hex16 sw))"
    using contains_str_chars [of p "to_lower (hex16 sw)"] hex16_no_t [of sw] facts by auto
  have empty: "\<not> contains_str p []" using facts by simp
  have flags: "\<not> contains_str p (to_lower ('' '' @ join_with '', '' (status_flags sw) @ '')''))"
  proof -
    have "\<not> contains_str p ('' '' @ join_with '', '' (status_flags sw) @ '')'')"
      using flags_free status_flags_subseq p unfolding list_all_iff by blast
    moreover have "to_lower ('' '' @ join_with '', '' (status_flags sw) @ '')'') = '' '' @ join_with '', '' (status_flags sw) @ '')''"
      by (simp only: to_lower_append to_lower_join lower_status_flags lower_flags)
    ultimately show ?thesis by (simp only: not_False_eq_True)
  qed
  have plain: "to_lower (status_state sw @ '' ('' @ hex16 sw @ '')'')
      = to_lower (status_state sw @ '' '') @ CHR ''('' # (to_lower (hex16 sw) @ CHR '')'' # [])"
    by (simp add: to_lower_def)
  have flagged: "to_lower (status_state sw @ '' ('' @ hex16 sw @ '', '' @ join_with '', '' (status_flags sw) @ '')'')
      = to_lower (status_state sw @ '' '') @ CHR ''('' # (to_lower (hex16 sw)
          @ CHR '','' # to_lower ('' '' @ join_with '', '' (status_flags sw) @ '')''))"
    by (simp add: to_lower_def)
  show ?thesis
  proof (cases "status_flags sw = []")
    case True
    then have eq: "to_lower (decode_status sw)
        = to_lower (status_state sw @ '' '') @ CHR ''('' # (to_lower (hex16 sw) @ CHR '')'' # [])"
      by (simp only: decode_status_def plain if_True True)
    show ?thesis
      unfolding eq using facts hex empty contains_str_sep [of "CHR ''(''" p] contains_str_sep [of "CHR '')''" p] by metis
  next
    case False
    then have eq: "to_lower (decode_status sw) = to_lower (status_state sw @ '' '') @ CHR ''('' # (to_lower (hex16 sw)
          @ CHR '','' # to_lower ('' '' @ join_with '', '' (status_flags sw) @ '')''))"
      by (simp only: decode_status_def flagged if_False False)
    show ?thesis
      unfolding eq using facts hex flags contains_str_sep [of "CHR ''(''" p] contains_str_sep [of "CHR '',''" p] by metis
  qed
qed

definition next_command :: "(string \<times> string) list" where
  "next_command = [(''Not ready to switch on'', ''0x0007''), (''Switch on disabled'', ''0x0006''),
     (''Ready to switch on'', ''0x0007''), (''Switched on'', ''0x000f''), (''Operation enabled'', []),
     (''Quick stop active'', ''0x0006''), (''Fault reaction active'', ''0x0080''), (''Fault'', ''0x0080''),
     (''Unknown state'', [])]"

lemma lower_states:
  "to_lower ''Not ready to switch on'' = ''not ready to switch on''"
  "to_lower ''Switch on disabled'' = ''switch on disabled''" "to_lower ''Ready to switch on'' = ''ready to switch on''"
  "to_lower ''Switched on'' = ''switched on''" "to_lower ''Operation enabled'' = ''operation enabled''"
  "to_lower ''Quick stop active'' = ''quick stop active''"
  "to_lower ''Fault reaction active'' = ''fault reaction active''" "to_lower ''Fault'' = ''fault''"
  "to_lower ''Unknown state'' = ''unknown state''"
  by code_simp+

lemma state_commands:
  "list_all (\<lambda>st. rec_value (recommendedControlword (st @ '' '')) = the (map_of next_command st)) (map fst next_command)"
  by (simp add: next_command_def recommendedControlword_def lower_states) code_simp

lemma status_state_cases: "status_state sw \<in> set (map fst next_command)"
  by (simp add: status_state_def next_command_def)

lemma recommended_by_contents:
  assumes "list_all (\<lambda>p. contains_str p (to_lower a) = contains_str p (to_lower b)) looked_for"
  shows "rec_value (recommendedControlword a) = rec_value (recommendedControlword b)
    \<and> rec_label (recommendedControlword a) = rec_label (recommendedControlword b)"
  using assms by (simp add: recommendedControlword_def looked_for_def Let_def)

text \<open>
  The recommendation follows the drive's state alone, whatever the flags and the numeral the decoded text
  carries: a fault is reset, a disabled or stopped drive shut down, a ready one switched on, a switched on one
  enabled, and an operating drive left alone. The table also shows the one state for which it is wrong: a drive
  that is not ready is told to switch on, since its name contains that of the ready state.
\<close>

theorem recommendation_follows_state:
  assumes "parseInteger val = Some w"
  shows "rec_value (recommendedControlword (decodeCia402Value ''0x6041'' val))
    = the (map_of next_command (status_state (ucast w)))"
proof -
  have "decodeCia402Value ''0x6041'' val = decode_status (ucast w)"
    using assms by (simp add: decodeCia402Value_def trimmed_def is_space_def to_lower_def to_lower_char_def code_of_def Let_def)
  moreover have "rec_value (recommendedControlword (decode_status (ucast w)))
      = rec_value (recommendedControlword (status_state (ucast w) @ '' ''))"
    using recommended_by_contents contains_decoded by (simp only: list_all_iff) blast
  moreover have "\<dots> = the (map_of next_command (status_state (ucast w)))"
    using state_commands status_state_cases unfolding list_all_iff by blast
  ultimately show ?thesis by simp
qed

theorem recommendation_follows_state_witness:
  "rec_value (recommendedControlword (decodeCia402Value ''0x6041'' (number_nat 0x0231))) = ''0x0007''"
  using recommendation_follows_state [OF parseInteger_number_nat, of "0x0231"]
  by (simp add: status_state_def next_command_def)

text \<open>A drive that is not ready to switch on is recommended the command of a ready one.\<close>

lemma not_ready_is_switched_on:
  assumes "parseInteger val = Some w" and "(ucast w :: u16) AND 0x004f = 0"
  shows "rec_value (recommendedControlword (decodeCia402Value ''0x6041'' val)) = ''0x0007''"
  using recommendation_follows_state [OF assms(1)] assms(2) by (simp add: status_state_def next_command_def)

end
