(* ===== verification/PdoMapping.thy ===== *)
theory PdoMapping
  imports QtHash QtJson QtRegex "HOL-Library.Multiset"
begin

text \<open>
  The studio's table of process data mappings (\<^verbatim>\<open>services/PdoMappingService.{h,cpp}\<close>). Saving and
  loading a JSON document under a path are parameters that include opening the file and the document's text
  form; an object lists its keys sorted, as \<open>QJsonObject\<close> does. The table by slave is an association
  list; the order in which the sync managers of a layout are listed is that of their first entry, where Qt leaves
  it open. Signals are logged, newest last.
\<close>

section \<open>Data\<close>

datatype pdo_direction = Input | Output

record pdo_mapping =
  pm_index :: string
  pm_subIndex :: string
  pm_name :: string
  pm_dataType :: string
  pm_bitSize :: int
  pm_direction :: pdo_direction
  pm_slavePosition :: int
  pm_enabled :: bool

record pdo_entry_layout =
  pe_index :: string
  pe_subIndex :: string
  pe_name :: string
  pe_dataType :: string
  pe_bitSize :: int
  pe_direction :: pdo_direction
  pe_enabled :: bool

record sync_manager_layout =
  sl_smIndex :: int
  sl_direction :: pdo_direction
  sl_pdoEntries :: "pdo_entry_layout list"
  sl_size :: int
  sl_enabled :: bool

record mapping_layout =
  ml_syncManagers :: "sync_manager_layout list"
  ml_totalSize :: int
  ml_direction :: pdo_direction
  ml_valid :: bool
  ml_errors :: "string list"

record pdo_validation =
  pv_valid :: bool
  pv_errorMessage :: string
  pv_totalBitSize :: int
  pv_maxBitSize :: int

datatype pdo_signal =
    MappingChanged int pdo_mapping
  | MappingLayoutChanged int mapping_layout
  | MappingError string

record pdo_service =
  ps_mappings :: "(int \<times> pdo_mapping list) list"
  ps_signals :: "pdo_signal list"

record 'w json_files =
  jf_save :: "string \<Rightarrow> json \<Rightarrow> 'w \<Rightarrow> bool \<times> 'w"
  jf_load :: "string \<Rightarrow> 'w \<Rightarrow> json option"

definition ps_init :: pdo_service where
  "ps_init = \<lparr>ps_mappings = [], ps_signals = []\<rparr>"

definition pdo_emit :: "pdo_signal \<Rightarrow> pdo_service \<Rightarrow> pdo_service" where
  "pdo_emit sig s = s\<lparr>ps_signals := ps_signals s @ [sig]\<rparr>"

definition currentMappings :: "pdo_service \<Rightarrow> int \<Rightarrow> pdo_mapping list" where
  "currentMappings s position = (case map_of (ps_mappings s) position of None \<Rightarrow> [] | Some ms \<Rightarrow> ms)"

definition discoverMappings :: "pdo_service \<Rightarrow> int \<Rightarrow> pdo_mapping list" where
  "discoverMappings s position = (case map_of (ps_mappings s) position of None \<Rightarrow> [] | Some ms \<Rightarrow> ms)"

section \<open>Validation\<close>

definition isValidPosition :: "int \<Rightarrow> bool" where
  "isValidPosition position \<longleftrightarrow> position \<ge> 0"

definition isHexAddress :: "string \<Rightarrow> bool" where
  "isHexAddress val = has_match rx_plain [Bol, Lit ''0x'', Hexes, Eol] (trimmed val)"

definition kMaxPdoBits :: int where "kMaxPdoBits = 1500 * 8"

definition validateMapping :: "pdo_service \<Rightarrow> pdo_mapping \<Rightarrow> pdo_validation" where
  "validateMapping s m =
     (let r = \<lparr>pv_valid = True, pv_errorMessage = [], pv_totalBitSize = 0, pv_maxBitSize = kMaxPdoBits\<rparr>;
          bad = (\<lambda>msg. r\<lparr>pv_valid := False, pv_errorMessage := msg\<rparr>)
      in if pm_slavePosition m < 0 then bad ''Slave position must be non-negative''
         else if trimmed (pm_index m) = [] then bad ''Index cannot be empty''
         else if \<not> isHexAddress (pm_index m) then bad ''Index must be a hexadecimal address''
         else if trimmed (pm_subIndex m) \<noteq> [] \<and> \<not> isHexAddress (pm_subIndex m) then
           bad ''Sub-index must be a hexadecimal address''
         else if pm_bitSize m \<le> 0 then bad ''Bit size must be positive''
         else if pm_bitSize m > kMaxPdoBits then bad (''Bit size exceeds maximum ('' @ number_int kMaxPdoBits @ '')'')
         else (case map_of (ps_mappings s) (pm_slavePosition m) of
                 None \<Rightarrow> r
               | Some ms \<Rightarrow> r\<lparr>pv_totalBitSize :=
                   sum_list (map pm_bitSize (filter pm_enabled ms)) + pm_bitSize m\<rparr>))"

definition validateMappingLayout :: "mapping_layout \<Rightarrow> pdo_validation" where
  "validateMappingLayout layout =
     (let r = \<lparr>pv_valid = True, pv_errorMessage = [], pv_totalBitSize = ml_totalSize layout, pv_maxBitSize = kMaxPdoBits\<rparr>
      in (case find (\<lambda>sm. sl_size sm > kMaxPdoBits) (ml_syncManagers layout) of
            None \<Rightarrow> r
          | Some sm \<Rightarrow> r\<lparr>pv_valid := False, pv_errorMessage := ''SM'' @ number_int (sl_smIndex sm) @ '' total size ''
              @ number_int (sl_size sm) @ '' bits exceeds maximum '' @ number_int kMaxPdoBits @ '' bits''\<rparr>))"

section \<open>Configuring\<close>

fun replace_mapping :: "pdo_mapping \<Rightarrow> pdo_mapping list \<Rightarrow> pdo_mapping list option" where
  \<comment> \<open>the loop that overwrites the first mapping of the same object\<close>
  "replace_mapping m [] = None"
| "replace_mapping m (x # xs) =
     (if pm_index x = pm_index m \<and> pm_subIndex x = pm_subIndex m then Some (m # xs)
      else map_option ((#) x) (replace_mapping m xs))"

definition configureMapping :: "int \<Rightarrow> pdo_mapping \<Rightarrow> pdo_service \<Rightarrow> bool \<times> pdo_service" where
  "configureMapping position m s =
     (if \<not> isValidPosition position then
        (False, pdo_emit (MappingError (''Invalid slave position: '' @ number_int position)) s)
      else if pm_slavePosition m \<noteq> position then
        (False, pdo_emit (MappingError ''Mapping slave position does not match target position'') s)
      else let vr = validateMapping s m in
        if \<not> pv_valid vr then (False, pdo_emit (MappingError (pv_errorMessage vr)) s)
        else
          let vec = currentMappings s position;
              vec' = (case replace_mapping m vec of Some v \<Rightarrow> v | None \<Rightarrow> vec @ [m])
          in (True, pdo_emit (MappingChanged position m) (s\<lparr>ps_mappings := hash_insert position vec' (ps_mappings s)\<rparr>)))"

section \<open>Files\<close>

definition mapping_to_json :: "pdo_mapping \<Rightarrow> json" where
  "mapping_to_json m = JObj [(''bitSize'', jint (pm_bitSize m)), (''dataType'', JStr (pm_dataType m)),
     (''direction'', JStr (if pm_direction m = Output then ''output'' else ''input'')), (''enabled'', JBool (pm_enabled m)),
     (''index'', JStr (pm_index m)), (''name'', JStr (pm_name m)), (''subIndex'', JStr (pm_subIndex m))]"

definition exportMapping :: "'w json_files \<Rightarrow> int \<Rightarrow> string \<Rightarrow> pdo_service \<Rightarrow> 'w \<Rightarrow> bool \<times> 'w" where
  "exportMapping fs position filePath s w =
     (if \<not> isValidPosition position \<or> filePath = [] then (False, w)
      else case map_of (ps_mappings s) position of
        None \<Rightarrow> (False, w)
      | Some ms \<Rightarrow> jf_save fs filePath
          (JObj [(''mappings'', JArr (map mapping_to_json ms)), (''position'', jint position)]) w)"

definition to_bool_def :: "bool \<Rightarrow> json \<Rightarrow> bool" where
  "to_bool_def d v = (case v of JBool b \<Rightarrow> b | _ \<Rightarrow> d)"

definition mapping_from_json :: "int \<Rightarrow> jobject \<Rightarrow> pdo_mapping" where
  "mapping_from_json position ob = \<lparr>pm_index = to_string (jfind ob ''index''), pm_subIndex = to_string (jfind ob ''subIndex''),
     pm_name = to_string (jfind ob ''name''), pm_dataType = to_string (jfind ob ''dataType''),
     pm_bitSize = to_int (jfind ob ''bitSize''),
     pm_direction = (if to_string (jfind ob ''direction'') = ''output'' then Output else Input),
     pm_slavePosition = position, pm_enabled = to_bool_def True (jfind ob ''enabled'')\<rparr>"

fun import_items :: "pdo_service \<Rightarrow> int \<Rightarrow> json list \<Rightarrow> pdo_mapping list \<Rightarrow> string option + pdo_mapping list" where
  \<comment> \<open>the loop of \<open>importMapping\<close>: the left is an early return, with the error emitted if there is one\<close>
  "import_items s position [] imported = Inr imported"
| "import_items s position (v # vs) imported =
     (if \<not> is_object v then Inl None
      else let m = mapping_from_json position (to_object v); vr = validateMapping s m in
        if \<not> pv_valid vr then Inl (Some (pv_errorMessage vr))
        else import_items s position vs (imported @ [m]))"

definition importMapping :: "'w json_files \<Rightarrow> int \<Rightarrow> string \<Rightarrow> 'w \<Rightarrow> pdo_service \<Rightarrow> bool \<times> pdo_service" where
  "importMapping fs position filePath w s =
     (if \<not> isValidPosition position \<or> filePath = [] then (False, s)
      else case jf_load fs filePath w of
        None \<Rightarrow> (False, s)
      | Some doc \<Rightarrow>
          if \<not> is_object doc then (False, s)
          else (case jfind (to_object doc) ''mappings'' of
            JArr arr \<Rightarrow>
              (case import_items s position arr [] of
                 Inl None \<Rightarrow> (False, s)
               | Inl (Some msg) \<Rightarrow> (False, pdo_emit (MappingError msg) s)
               | Inr imported \<Rightarrow> (True, s\<lparr>ps_mappings := hash_insert position imported (ps_mappings s)\<rparr>))
          | _ \<Rightarrow> (False, s)))"

section \<open>Layouts\<close>

definition entry_of :: "pdo_mapping \<Rightarrow> pdo_entry_layout" where
  "entry_of m = \<lparr>pe_index = pm_index m, pe_subIndex = pm_subIndex m, pe_name = pm_name m, pe_dataType = pm_dataType m,
     pe_bitSize = pm_bitSize m, pe_direction = pm_direction m, pe_enabled = pm_enabled m\<rparr>"

definition mapping_of :: "int \<Rightarrow> pdo_entry_layout \<Rightarrow> pdo_mapping" where
  "mapping_of position e = \<lparr>pm_index = pe_index e, pm_subIndex = pe_subIndex e, pm_name = pe_name e,
     pm_dataType = pe_dataType e, pm_bitSize = pe_bitSize e, pm_direction = pe_direction e, pm_slavePosition = position,
     pm_enabled = pe_enabled e\<rparr>"

definition layout_step :: "(int \<times> sync_manager_layout) list \<times> int \<Rightarrow> pdo_mapping \<Rightarrow> (int \<times> sync_manager_layout) list \<times> int" where
  "layout_step st m =
     (let (smMap, total) = st;
          smIdx = (if pm_direction m = Output then 2 else 3);
          smMap1 = (if map_of smMap smIdx = None then
             hash_insert smIdx \<lparr>sl_smIndex = smIdx, sl_direction = pm_direction m, sl_pdoEntries = [], sl_size = 0,
               sl_enabled = True\<rparr> smMap else smMap)
      in (hash_adjust smIdx (\<lambda>sm. sm\<lparr>sl_pdoEntries := sl_pdoEntries sm @ [entry_of m],
            sl_size := sl_size sm + pm_bitSize m\<rparr>) smMap1, total + pm_bitSize m))"

definition getMappingLayout :: "pdo_service \<Rightarrow> int \<Rightarrow> mapping_layout" where
  "getMappingLayout s position =
     (let empty = \<lparr>ml_syncManagers = [], ml_totalSize = 0, ml_direction = Input, ml_valid = True, ml_errors = []\<rparr> in
      case map_of (ps_mappings s) position of
        None \<Rightarrow> empty
      | Some ms \<Rightarrow>
          let (smMap, total) = foldl layout_step ([], 0) ms
          in empty\<lparr>ml_syncManagers := map snd smMap, ml_totalSize := total\<rparr>)"

fun apply_entries :: "pdo_service \<Rightarrow> int \<Rightarrow> pdo_entry_layout list \<Rightarrow> pdo_mapping list \<Rightarrow> string + pdo_mapping list" where
  "apply_entries s position [] acc = Inr acc"
| "apply_entries s position (e # es) acc =
     (let m = mapping_of position e; vr = validateMapping s m in
      if \<not> pv_valid vr then Inl (pv_errorMessage vr) else apply_entries s position es (acc @ [m]))"

definition applyMappingLayout :: "int \<Rightarrow> mapping_layout \<Rightarrow> pdo_service \<Rightarrow> bool \<times> pdo_service" where
  "applyMappingLayout position layout s =
     (if \<not> isValidPosition position then
        (False, pdo_emit (MappingError (''Invalid slave position: '' @ number_int position)) s)
      else let vr = validateMappingLayout layout in
        if \<not> pv_valid vr then (False, pdo_emit (MappingError (pv_errorMessage vr)) s)
        else (case apply_entries s position (concat (map sl_pdoEntries (ml_syncManagers layout))) [] of
                Inl msg \<Rightarrow> (False, pdo_emit (MappingError msg) s)
              | Inr newMappings \<Rightarrow> (True, pdo_emit (MappingLayoutChanged position layout)
                  (s\<lparr>ps_mappings := hash_insert position newMappings (ps_mappings s)\<rparr>))))"

section \<open>Only valid mappings are stored\<close>

definition sound_mapping :: "int \<Rightarrow> pdo_mapping \<Rightarrow> bool" where
  "sound_mapping position m \<longleftrightarrow> pm_slavePosition m = position \<and> position \<ge> 0 \<and> isHexAddress (pm_index m)
     \<and> (trimmed (pm_subIndex m) = [] \<or> isHexAddress (pm_subIndex m)) \<and> 0 < pm_bitSize m \<and> pm_bitSize m \<le> kMaxPdoBits"

lemma hex_address_not_blank: "isHexAddress t \<Longrightarrow> trimmed t \<noteq> []"
  by (auto simp: isHexAddress_def has_match_def rx_match_def lit_at_def rx_plain_def starts_with_def)

lemma validateMapping_sound:
  "pv_valid (validateMapping s m) \<longleftrightarrow> sound_mapping (pm_slavePosition m) m"
  using hex_address_not_blank [of "pm_index m"]
  by (auto simp: validateMapping_def sound_mapping_def Let_def split: option.splits)

lemma validateMapping_other: "pv_valid (validateMapping s m) = pv_valid (validateMapping s' m)"
  by (simp add: validateMapping_sound)

definition mappings_sound :: "pdo_service \<Rightarrow> bool" where
  "mappings_sound s \<longleftrightarrow> (\<forall>p. list_all (sound_mapping p) (currentMappings s p))"

lemma currentMappings_insert [simp]:
  "currentMappings (s\<lparr>ps_mappings := hash_insert p ms (ps_mappings s)\<rparr>) q = (if q = p then ms else currentMappings s q)"
  "currentMappings (pdo_emit sig s) q = currentMappings s q"
  by (simp_all add: currentMappings_def map_of_hash_insert pdo_emit_def)

lemma replace_mapping_sound:
  "replace_mapping m xs = Some ys \<Longrightarrow> list_all P xs \<Longrightarrow> P m \<Longrightarrow> list_all P ys"
  by (induction xs arbitrary: ys) (auto split: if_splits)

lemma import_items_sound:
  "import_items s p vs acc = Inr ms \<Longrightarrow> list_all (sound_mapping p) acc \<Longrightarrow> list_all (sound_mapping p) ms"
proof (induction vs arbitrary: acc)
  case (Cons v vs)
  then show ?case
    by (auto simp: Let_def validateMapping_sound mapping_from_json_def split: if_splits)
qed simp

lemma apply_entries_sound:
  "apply_entries s p es acc = Inr ms \<Longrightarrow> list_all (sound_mapping p) acc \<Longrightarrow> list_all (sound_mapping p) ms"
proof (induction es arbitrary: acc)
  case (Cons e es)
  then show ?case by (auto simp: Let_def validateMapping_sound mapping_of_def split: if_splits)
qed simp

datatype 'w pdo_op =
    Configure int pdo_mapping
  | Import "'w json_files" 'w int string
  | ApplyLayout int mapping_layout

fun pdo_step :: "pdo_service \<Rightarrow> 'w pdo_op \<Rightarrow> pdo_service" where
  "pdo_step s (Configure p m) = snd (configureMapping p m s)"
| "pdo_step s (Import fs w p path) = snd (importMapping fs p path w s)"
| "pdo_step s (ApplyLayout p l) = snd (applyMappingLayout p l s)"

lemma sound_insert:
  "mappings_sound s \<Longrightarrow> list_all (sound_mapping p) ms \<Longrightarrow>
     mappings_sound (s\<lparr>ps_mappings := hash_insert p ms (ps_mappings s)\<rparr>)"
  by (simp add: mappings_sound_def)

lemma sound_emit [simp]: "mappings_sound (pdo_emit sig s) = mappings_sound s"
  by (simp add: mappings_sound_def)

lemma configure_sound: "mappings_sound s \<Longrightarrow> mappings_sound (snd (configureMapping p m s))"
proof -
  assume s: "mappings_sound s"
  then have old: "list_all (sound_mapping p) (currentMappings s p)" by (simp add: mappings_sound_def)
  have "list_all (sound_mapping p) (case replace_mapping m (currentMappings s p) of Some v \<Rightarrow> v | None \<Rightarrow> currentMappings s p @ [m])"
    if "sound_mapping p m"
    using old that replace_mapping_sound by (auto split: option.splits)
  then show ?thesis
    using s by (auto simp: configureMapping_def Let_def validateMapping_sound intro!: sound_insert)
qed

lemma pdo_step_sound: "mappings_sound s \<Longrightarrow> mappings_sound (pdo_step s e)"
proof (cases e)
  case (Import fs w p path)
  assume "mappings_sound s"
  then show ?thesis
    using Import import_items_sound [of s p _ "[]"]
    by (auto simp: importMapping_def intro!: sound_insert split: option.splits json.splits sum.splits)
next
  case (ApplyLayout p l)
  assume "mappings_sound s"
  then show ?thesis
    using ApplyLayout apply_entries_sound [of s p _ "[]"]
    by (auto simp: applyMappingLayout_def Let_def intro!: sound_insert split: sum.splits)
qed (simp add: configure_sound)

text \<open>
  Claim C21 (type). Every stored mapping is well formed: whatever is configured, imported from whatever files and applied as
  whatever layouts, each mapping stored for a slave carries that slave's position, which is not negative,
  hexadecimal addresses (the sub-index possibly blank) and a size of 1 to 12000 bits.
\<close>

theorem stored_mappings_well_formed:
  "list_all (sound_mapping p) (currentMappings (foldl pdo_step ps_init ops) p)"
proof -
  have "mappings_sound ps_init" by (simp add: mappings_sound_def ps_init_def currentMappings_def)
  then have "mappings_sound (foldl pdo_step ps_init ops)"
    by (rule foldl_invariant [where I = mappings_sound]) (rule pdo_step_sound)
  then show ?thesis by (simp add: mappings_sound_def)
qed

text \<open>The total size of a slave's mappings is computed but never compared with the maximum.\<close>

lemma total_size_is_not_checked:
  "sound_mapping p m \<Longrightarrow> fst (configureMapping p m s) \<and> m \<in> set (currentMappings (snd (configureMapping p m s)) p)"
proof -
  assume m: "sound_mapping p m"
  have "replace_mapping m xs = Some ys \<Longrightarrow> m \<in> set ys" for xs ys
    by (induction xs arbitrary: ys) (auto split: if_splits)
  then show ?thesis
    using m by (auto simp: configureMapping_def Let_def validateMapping_sound isValidPosition_def sound_mapping_def
        split: option.splits)
qed

section \<open>Export and import\<close>

definition moved_to :: "int \<Rightarrow> pdo_mapping \<Rightarrow> pdo_mapping" where
  "moved_to position m = m\<lparr>pm_slavePosition := position\<rparr>"

lemma mapping_from_to_json:
  "int32_ok (pm_bitSize m) \<Longrightarrow> mapping_from_json q (to_object (mapping_to_json m)) = moved_to q m"
  by (cases m) (auto simp: mapping_from_json_def mapping_to_json_def moved_to_def to_bool_def_def,
      (use pdo_direction.exhaust in blast)+)

lemma import_exported:
  assumes "list_all (sound_mapping p) ms" and "q \<ge> 0"
  shows "import_items s q (map mapping_to_json ms) acc = Inr (acc @ map (moved_to q) ms)"
  using assms(1)
proof (induction ms arbitrary: acc)
  case (Cons m ms)
  have m: "sound_mapping p m" using Cons.prems by simp
  then have "int32_ok (pm_bitSize m)" by (simp add: sound_mapping_def int32_ok_def kMaxPdoBits_def)
  then have read: "mapping_from_json q (to_object (mapping_to_json m)) = moved_to q m" by (rule mapping_from_to_json)
  have "sound_mapping q (moved_to q m)" using m assms(2) by (simp add: sound_mapping_def moved_to_def)
  moreover have "pm_slavePosition (moved_to q m) = q" by (simp add: moved_to_def)
  ultimately have "pv_valid (validateMapping s (moved_to q m))" by (simp add: validateMapping_sound)
  moreover have "is_object (mapping_to_json m)" by (simp add: mapping_to_json_def)
  ultimately show ?case using Cons.IH [of "acc @ [moved_to q m]"] Cons.prems read by (simp add: Let_def)
qed simp

text \<open>
  Claim C40 (roundtrip). A successful export can be imported again, for the same or another slave: where loading a path gives the
  document last saved there, the import succeeds and stores exactly the exported mappings, in order,
  with the position of the slave they are imported for, whatever the service held before.
\<close>

theorem export_import_roundtrip:
  assumes "exportMapping fs p path (foldl pdo_step ps_init ops) w = (True, w')"
    and "\<And>doc. jf_save fs path doc w = (True, w') \<Longrightarrow> jf_load fs path w' = Some doc" and "q \<ge> 0"
  shows "fst (importMapping fs q path w' s)
    \<and> currentMappings (snd (importMapping fs q path w' s)) q
      = map (moved_to q) (currentMappings (foldl pdo_step ps_init ops) p)"
proof -
  let ?s = "foldl pdo_step ps_init ops"
  have "mappings_sound ps_init" by (simp add: mappings_sound_def ps_init_def currentMappings_def)
  then have "mappings_sound ?s" by (rule foldl_invariant [where I = mappings_sound]) (rule pdo_step_sound)
  then have sound: "list_all (sound_mapping p) (currentMappings ?s p)" by (simp add: mappings_sound_def)
  have path: "path \<noteq> []" using assms(1) by (auto simp: exportMapping_def split: if_splits)
  obtain ms where ms: "map_of (ps_mappings ?s) p = Some ms"
    and save: "jf_save fs path (JObj [(''mappings'', JArr (map mapping_to_json ms)), (''position'', jint p)]) w = (True, w')"
    using assms(1) by (auto simp: exportMapping_def split: if_splits option.splits)
  have cur: "currentMappings ?s p = ms" by (simp add: currentMappings_def ms)
  have "import_items s q (map mapping_to_json ms) [] = Inr (map (moved_to q) ms)"
    using import_exported [OF sound [unfolded cur] assms(3), of s "[]"] by simp
  then show ?thesis
    using assms(2) [OF save] assms(3) path by (simp add: importMapping_def isValidPosition_def cur)
qed

section \<open>Layouts keep the mappings\<close>

definition manager_of :: "pdo_direction \<Rightarrow> pdo_mapping list \<Rightarrow> sync_manager_layout" where
  "manager_of d ms = \<lparr>sl_smIndex = (if d = Output then 2 else 3), sl_direction = d, sl_pdoEntries = map entry_of ms,
     sl_size = sum_list (map pm_bitSize ms), sl_enabled = True\<rparr>"

definition directed :: "pdo_direction \<Rightarrow> pdo_mapping list \<Rightarrow> pdo_mapping list" where
  "directed d ms = filter (\<lambda>m. pm_direction m = d) ms"

definition managers_of :: "pdo_direction \<Rightarrow> pdo_mapping list \<Rightarrow> (int \<times> sync_manager_layout) list" where
  \<comment> \<open>the managers that are used, that of the given direction first\<close>
  "managers_of d ms = map (\<lambda>d. (if d = Output then 2 else 3, manager_of d (directed d ms)))
     (filter (\<lambda>d. directed d ms \<noteq> []) (if d = Output then [Output, Input] else [Input, Output]))"

definition first_direction :: "pdo_mapping list \<Rightarrow> pdo_direction" where
  "first_direction ms = (case ms of [] \<Rightarrow> Output | m # _ \<Rightarrow> pm_direction m)"

lemma layout_step_managers:
  assumes "ms \<noteq> [] \<Longrightarrow> directed d ms \<noteq> []" and "ms = [] \<Longrightarrow> d = pm_direction m"
  shows "layout_step (managers_of d ms, t) m = (managers_of d (ms @ [m]), t + pm_bitSize m)"
proof -
  have none: "ms = [] \<Longrightarrow> directed x ms = []" for x by (simp add: directed_def)
  show ?thesis
    using assms none
    by (cases d; cases "pm_direction m"; cases "directed Input ms = []"; cases "directed Output ms = []"; cases "ms = []")
       (simp_all add: layout_step_def managers_of_def manager_of_def hash_insert_def hash_adjust_def Let_def,
        simp_all add: directed_def)
qed

lemma layout_fold:
  "foldl layout_step ([], 0) ms = (managers_of (first_direction ms) ms, sum_list (map pm_bitSize ms))"
proof (induction ms rule: rev_induct)
  case Nil
  show ?case by (simp add: managers_of_def directed_def)
next
  case (snoc m ms)
  have "first_direction (ms @ [m]) = (if ms = [] then pm_direction m else first_direction ms)"
    by (cases ms) (simp_all add: first_direction_def)
  moreover have "managers_of (first_direction []) [] = managers_of (pm_direction m) []"
    by (simp add: managers_of_def directed_def)
  moreover have "directed (first_direction ms) ms \<noteq> []" if "ms \<noteq> []"
    using that by (cases ms) (simp_all add: first_direction_def directed_def)
  ultimately show ?case
    using snoc layout_step_managers [of ms "if ms = [] then pm_direction m else first_direction ms" m] by (cases "ms = []") simp_all
qed

lemma apply_entries_valid:
  "list_all (sound_mapping p) ms \<Longrightarrow> apply_entries s p (map entry_of ms) acc = Inr (acc @ ms)"
proof (induction ms arbitrary: acc)
  case (Cons m ms)
  have "mapping_of p (entry_of m) = m"
    using Cons.prems by (simp add: mapping_of_def entry_of_def sound_mapping_def)
  moreover have "pv_valid (validateMapping s m)"
    using Cons.prems by (simp add: validateMapping_sound) (simp add: sound_mapping_def)
  ultimately show ?case using Cons.IH [of "acc @ [m]"] Cons.prems by (simp add: Let_def)
qed simp

text \<open>
  Applying the layout shown for a slave changes nothing but the grouping: where the mappings of each
  direction fit a sync manager, it succeeds and the slave's mappings afterwards are the same, each as
  often, those of one direction in the same order.
\<close>

theorem layout_roundtrip:
  fixes ops :: "'w pdo_op list" and p :: int
  defines "s \<equiv> foldl pdo_step ps_init ops"
  assumes "p \<ge> 0" and "\<And>d. sum_list (map pm_bitSize (directed d (currentMappings s p))) \<le> kMaxPdoBits"
  shows "fst (applyMappingLayout p (getMappingLayout s p) s)
    \<and> mset (currentMappings (snd (applyMappingLayout p (getMappingLayout s p) s)) p) = mset (currentMappings s p)
    \<and> directed d (currentMappings (snd (applyMappingLayout p (getMappingLayout s p) s)) p) = directed d (currentMappings s p)"
proof -
  let ?ms = "currentMappings s p"
  have "mappings_sound ps_init" by (simp add: mappings_sound_def ps_init_def currentMappings_def)
  then have "mappings_sound s" unfolding s_def by (rule foldl_invariant [where I = mappings_sound]) (rule pdo_step_sound)
  then have sound: "list_all (sound_mapping p) ?ms" by (simp add: mappings_sound_def)
  define ds where "ds = filter (\<lambda>d. directed d ?ms \<noteq> []) (if first_direction ?ms = Output then [Output, Input] else [Input, Output])"
  have layout: "ml_syncManagers (getMappingLayout s p) = map (\<lambda>d. manager_of d (directed d ?ms)) ds"
    by (auto simp: getMappingLayout_def Let_def currentMappings_def layout_fold managers_of_def ds_def comp_def directed_def
        split: option.splits)
  have "find (\<lambda>sm. sl_size sm > kMaxPdoBits) (map (\<lambda>d. manager_of d (directed d ?ms)) ds) = None"
    using assms(3) by (auto simp: find_None_iff manager_of_def not_less)
  then have valid: "pv_valid (validateMappingLayout (getMappingLayout s p))"
    by (simp add: validateMappingLayout_def Let_def layout)
  have entries: "concat (map sl_pdoEntries (ml_syncManagers (getMappingLayout s p)))
      = map entry_of (concat (map (\<lambda>d. directed d ?ms) ds))"
    by (simp add: layout comp_def manager_of_def map_concat)
  have all: "list_all (sound_mapping p) (concat (map (\<lambda>d. directed d ?ms) ds))"
    using sound by (auto simp: list_all_iff directed_def)
  have "concat (map (\<lambda>d. directed d ?ms) ds)
      = (if first_direction ?ms = Output then directed Output ?ms @ directed Input ?ms else directed Input ?ms @ directed Output ?ms)"
    by (simp add: ds_def)
  moreover have "mset (directed Output ms) + mset (directed Input ms) = mset ms" for ms
  proof (induction ms)
    case (Cons m ms)
    then show ?case by (cases "pm_direction m") (simp_all add: directed_def)
  qed (simp add: directed_def)
  moreover have "directed x (directed y ?ms) = (if x = y then directed x ?ms else [])" for x y
    by (auto simp: directed_def filter_empty_conv)
  moreover have "directed x (a @ b) = directed x a @ directed x b" for x a b by (simp add: directed_def)
  ultimately show ?thesis
    using apply_entries_valid [OF all, of s "[]"] assms(2) valid entries
    by (cases d) (auto simp: applyMappingLayout_def Let_def isValidPosition_def add.commute)
qed

definition demo_mapping :: "string \<Rightarrow> pdo_direction \<Rightarrow> pdo_mapping" where
  "demo_mapping index d = \<lparr>pm_index = index, pm_subIndex = [], pm_name = [], pm_dataType = ''INT16'', pm_bitSize = 16,
     pm_direction = d, pm_slavePosition = 1, pm_enabled = True\<rparr>"

definition demo_configured :: "'w pdo_op list" where
  "demo_configured = [Configure 1 (demo_mapping ''0x6041'' Input), Configure 1 (demo_mapping ''0x6040'' Output),
     Configure 1 (demo_mapping ''0x6064'' Input)]"

lemma demo_mapping_fields [simp]:
  "pm_index (demo_mapping i d) = i" "pm_subIndex (demo_mapping i d) = []" "pm_direction (demo_mapping i d) = d"
  "pm_bitSize (demo_mapping i d) = 16"
  by (simp_all add: demo_mapping_def)

lemma demo_sound: "list_all (\<lambda>i. sound_mapping 1 (demo_mapping i d)) [''0x6041'', ''0x6040'', ''0x6064'']"
proof -
  have "list_all isHexAddress [''0x6041'', ''0x6040'', ''0x6064'']" by code_simp
  then show ?thesis by (simp add: sound_mapping_def demo_mapping_def kMaxPdoBits_def)
qed

lemma configure_new:
  assumes "sound_mapping p m" and "replace_mapping m (currentMappings s p) = None"
  shows "currentMappings (snd (configureMapping p m s)) q
    = (if q = p then currentMappings s p @ [m] else currentMappings s q)"
  using assms by (simp add: configureMapping_def Let_def validateMapping_sound isValidPosition_def)
    (auto simp: sound_mapping_def)

lemma demo_stored:
  "currentMappings (foldl pdo_step ps_init demo_configured) 1
   = [demo_mapping ''0x6041'' Input, demo_mapping ''0x6040'' Output, demo_mapping ''0x6064'' Input]"
proof -
  have "currentMappings ps_init 1 = []" by (simp add: ps_init_def currentMappings_def)
  then show ?thesis
    using demo_sound [of Input] demo_sound [of Output]
    by (simp add: demo_configured_def configure_new)
qed

theorem layout_roundtrip_witness:
  "let s = foldl pdo_step ps_init (demo_configured :: unit pdo_op list)
   in fst (applyMappingLayout 1 (getMappingLayout s 1) s)
     \<and> length (currentMappings (snd (applyMappingLayout 1 (getMappingLayout s 1) s)) 1) = 3"
proof -
  let ?s = "foldl pdo_step ps_init (demo_configured :: unit pdo_op list)"
  have "sum_list (map pm_bitSize (directed d (currentMappings ?s 1))) \<le> kMaxPdoBits" for d
    by (cases d) (simp_all add: demo_stored directed_def kMaxPdoBits_def)
  then have "fst (applyMappingLayout 1 (getMappingLayout ?s 1) ?s)
      \<and> mset (currentMappings (snd (applyMappingLayout 1 (getMappingLayout ?s 1) ?s)) 1) = mset (currentMappings ?s 1)"
    using layout_roundtrip [of 1 "demo_configured :: unit pdo_op list" Input] by simp
  moreover then have "length (currentMappings (snd (applyMappingLayout 1 (getMappingLayout ?s 1) ?s)) 1)
      = length (currentMappings ?s 1)" by (metis size_mset)
  ultimately show ?thesis by (simp add: demo_stored Let_def)
qed

definition demo_json_files :: "json option json_files" where
  "demo_json_files = \<lparr>jf_save = (\<lambda>path doc w. (True, Some doc)), jf_load = (\<lambda>path w. w)\<rparr>"

theorem export_import_roundtrip_witness:
  "let s = foldl pdo_step ps_init (demo_configured :: json option pdo_op list); w = snd (exportMapping demo_json_files 1 ''m.json'' s None)
   in map pm_index (currentMappings (snd (importMapping demo_json_files 7 ''m.json'' w ps_init)) 7) = [''0x6041'', ''0x6040'', ''0x6064'']"
proof -
  let ?s = "foldl pdo_step ps_init (demo_configured :: json option pdo_op list)"
  have "map_of (ps_mappings ?s) 1 \<noteq> None"
    using demo_stored by (auto simp: currentMappings_def split: option.splits)
  then obtain w' where w': "exportMapping demo_json_files 1 ''m.json'' ?s None = (True, w')" "w' \<noteq> None"
    by (auto simp: exportMapping_def isValidPosition_def demo_json_files_def)
  show ?thesis
    using export_import_roundtrip [OF w'(1), where q = 7 and s = ps_init] w'(1)
    by (simp add: demo_json_files_def Let_def demo_stored) (simp add: moved_to_def)
qed

end
