(* ===== verification/PdoValidator.thy ===== *)
theory PdoValidator
  imports QtText
begin

text \<open>
  The check of an edited process data layout (\<^verbatim>\<open>plugins/pdomapping/PdoMappingValidator.{h,cpp}\<close> on the blocks of
  \<^verbatim>\<open>PdoMappingCanvas.h\<close>). The sums of bit sizes are integers (an \<open>int\<close> of the code for layouts a slave can
  have). Each check is a function to its list of errors, in the order they are appended.
\<close>

section \<open>Data\<close>

datatype entry_direction = InputEntry | OutputEntry

record canvas_entry =
  pc_index :: string
  pc_subIndex :: string
  pc_name :: string
  pc_dataType :: string
  pc_bitSize :: int
  pc_direction :: entry_direction
  pc_smIndex :: int
  pc_enabled :: bool
  pc_selected :: bool
  pc_hasError :: bool

record sync_manager_block =
  sb_index :: int
  sb_name :: string
  sb_direction :: entry_direction
  sb_entries :: "canvas_entry list"
  sb_enabled :: bool

datatype pdo_error_type = SizeExceeded | DuplicateEntry | OverlappingAddress | MissingRequired | InvalidBitSize

record pdo_error =
  er_type :: pdo_error_type
  er_message :: string
  er_smIndex :: int
  er_entryIndex :: int

record pdo_report =
  pr_valid :: bool
  pr_errors :: "pdo_error list"
  pr_totalInputBits :: int
  pr_totalOutputBits :: int
  pr_maxBitsPerSm :: int

definition kMaxBitsPerSm :: int where "kMaxBitsPerSm = 1500 * 8"

section \<open>The checks\<close>

definition enabled_bits :: "canvas_entry list \<Rightarrow> int" where
  "enabled_bits es = sum_list (map pc_bitSize (filter pc_enabled es))"

definition validateSmSize :: "sync_manager_block list \<Rightarrow> pdo_error list" where
  "validateSmSize sms = concat (map (\<lambda>sm.
     if \<not> sb_enabled sm then []
     else if enabled_bits (sb_entries sm) > kMaxBitsPerSm then
       [\<lparr>er_type = SizeExceeded, er_message = ''SM'' @ number_int (sb_index sm) @ '' total size ''
          @ number_int (enabled_bits (sb_entries sm)) @ '' bits exceeds maximum '' @ number_int kMaxBitsPerSm @ '' bits'',
          er_smIndex = sb_index sm, er_entryIndex = - 1\<rparr>]
     else []) sms)"

definition object_key :: "canvas_entry \<Rightarrow> string" where
  "object_key e = to_upper (pc_index e) @ ''.'' @ to_upper (pc_subIndex e)"

fun duplicates_in :: "int \<Rightarrow> int \<Rightarrow> canvas_entry list \<Rightarrow> string list \<Rightarrow> pdo_error list \<times> string list" where
  \<comment> \<open>the inner loop: manager, position, what is left, and the keys seen so far\<close>
  "duplicates_in sm j [] seen = ([], seen)"
| "duplicates_in sm j (e # es) seen =
     (if object_key e \<in> set seen then
        let (errs, seen') = duplicates_in sm (j + 1) es seen
        in (\<lparr>er_type = DuplicateEntry, er_message = ''Duplicate PDO entry '' @ pc_index e @ ''.'' @ pc_subIndex e
              @ '' ('' @ pc_name e @ '')'', er_smIndex = sm, er_entryIndex = j\<rparr> # errs, seen')
      else duplicates_in sm (j + 1) es (object_key e # seen))"

fun duplicates_from :: "sync_manager_block list \<Rightarrow> string list \<Rightarrow> pdo_error list" where
  "duplicates_from [] seen = []"
| "duplicates_from (sm # sms) seen =
     (let (errs, seen') = duplicates_in (sb_index sm) 0 (sb_entries sm) seen in errs @ duplicates_from sms seen')"

definition validateDuplicates :: "sync_manager_block list \<Rightarrow> pdo_error list" where
  "validateDuplicates sms = duplicates_from sms []"

type_synonym ranges = "(int \<times> int) list"

definition overlap_error :: "int \<Rightarrow> int \<Rightarrow> canvas_entry \<Rightarrow> pdo_error" where
  "overlap_error sm j e = \<lparr>er_type = OverlappingAddress,
     er_message = (if pc_direction e = InputEntry then ''Input PDO '' else ''Output PDO '') @ pc_index e @ ''.''
       @ pc_subIndex e @ '' overlaps with another entry'', er_smIndex = sm, er_entryIndex = j\<rparr>"

definition clashes :: "int \<Rightarrow> int \<Rightarrow> ranges \<Rightarrow> ranges" where
  "clashes start stop rs = filter (\<lambda>r. start < snd r \<and> stop > fst r) rs"

fun overlaps_in :: "int \<Rightarrow> int \<Rightarrow> int \<Rightarrow> canvas_entry list \<Rightarrow> ranges \<times> ranges \<Rightarrow> pdo_error list \<times> ranges \<times> ranges" where
  "overlaps_in sm j off [] rs = ([], rs)"
| "overlaps_in sm j off (e # es) rs =
     (if \<not> pc_enabled e then overlaps_in sm (j + 1) off es rs
      else
        let stop = off + pc_bitSize e;
            (ins, outs) = rs;
            found = clashes off stop (if pc_direction e = InputEntry then ins else outs);
            rs' = (if pc_direction e = InputEntry then (ins @ [(off, stop)], outs) else (ins, outs @ [(off, stop)]));
            (errs, rs'') = overlaps_in sm (j + 1) stop es rs'
        in (map (\<lambda>_. overlap_error sm j e) found @ errs, rs''))"

fun overlaps_from :: "sync_manager_block list \<Rightarrow> ranges \<times> ranges \<Rightarrow> pdo_error list" where
  "overlaps_from [] rs = []"
| "overlaps_from (sm # sms) rs =
     (let (errs, rs') = overlaps_in (sb_index sm) 0 0 (sb_entries sm) rs in errs @ overlaps_from sms rs')"

definition validateAddresses :: "sync_manager_block list \<Rightarrow> pdo_error list" where
  "validateAddresses sms = overlaps_from sms ([], [])"

definition active_entries :: "sync_manager_block list \<Rightarrow> canvas_entry list" where
  "active_entries sms = concat (map (\<lambda>sm. filter pc_enabled (sb_entries sm)) (filter sb_enabled sms))"

definition required_error :: "string \<Rightarrow> pdo_error" where
  "required_error msg = \<lparr>er_type = MissingRequired, er_message = msg, er_smIndex = - 1, er_entryIndex = - 1\<rparr>"

definition validateRequired :: "sync_manager_block list \<Rightarrow> pdo_error list" where
  "validateRequired sms =
     (let hasInput = list_ex (\<lambda>e. pc_direction e = InputEntry) (active_entries sms);
          hasOutput = list_ex (\<lambda>e. pc_direction e = OutputEntry) (active_entries sms)
      in (if \<not> hasInput then [required_error ''No input (RxPDO) entries configured''] else [])
         @ (if \<not> hasOutput then [required_error ''No output (TxPDO) entries configured''] else []))"

definition directed_bits :: "entry_direction \<Rightarrow> sync_manager_block list \<Rightarrow> int" where
  "directed_bits d sms = sum_list (map pc_bitSize (filter (\<lambda>e. pc_direction e = d) (active_entries sms)))"

definition validate :: "sync_manager_block list \<Rightarrow> pdo_report" where
  "validate sms =
     (let errs = validateSmSize sms @ validateDuplicates sms @ validateAddresses sms @ validateRequired sms
      in \<lparr>pr_valid = (errs = []), pr_errors = errs, pr_totalInputBits = directed_bits InputEntry sms,
          pr_totalOutputBits = directed_bits OutputEntry sms, pr_maxBitsPerSm = kMaxBitsPerSm\<rparr>)"

section \<open>What a valid layout is\<close>

fun spans_of :: "int \<Rightarrow> canvas_entry list \<Rightarrow> (entry_direction \<times> int \<times> int) list" where
  \<comment> \<open>the bit ranges of a manager's enabled entries, one after the other from the given offset\<close>
  "spans_of off [] = []"
| "spans_of off (e # es) =
     (if pc_enabled e then (pc_direction e, off, off + pc_bitSize e) # spans_of (off + pc_bitSize e) es
      else spans_of off es)"

definition apart :: "entry_direction \<times> int \<times> int \<Rightarrow> entry_direction \<times> int \<times> int \<Rightarrow> bool" where
  "apart a b \<longleftrightarrow> fst a = fst b \<longrightarrow> snd (snd a) \<le> fst (snd b) \<or> snd (snd b) \<le> fst (snd a)"

definition all_spans :: "sync_manager_block list \<Rightarrow> (entry_direction \<times> int \<times> int) list" where
  "all_spans sms = concat (map (\<lambda>sm. spans_of 0 (sb_entries sm)) sms)"

definition ranges_of :: "entry_direction \<Rightarrow> (entry_direction \<times> int \<times> int) list \<Rightarrow> ranges" where
  "ranges_of d sp = map snd (filter (\<lambda>x. fst x = d) sp)"

lemma ranges_of_append [simp]: "ranges_of d (a @ b) = ranges_of d a @ ranges_of d b"
  by (simp add: ranges_of_def)

lemma ranges_of_Cons [simp]: "ranges_of d (x # b) = (if fst x = d then [snd x] else []) @ ranges_of d b" "ranges_of d [] = []"
  by (simp_all add: ranges_of_def)

lemma clashes_Nil: "clashes a b (ranges_of d sp) = [] \<longleftrightarrow> (\<forall>x \<in> set sp. apart x (d, a, b))"
proof (induction sp)
  case (Cons x sp)
  have "clashes a b ((if fst x = d then [snd x] else []) @ rs) = [] \<longleftrightarrow> apart x (d, a, b) \<and> clashes a b rs = []" for rs
    by (simp add: clashes_def apart_def not_less disj_commute)
  with Cons show ?case by simp
qed (simp add: clashes_def)

lemma overlaps_in_spans:
  "\<exists>errs. overlaps_in sm j off es (ranges_of InputEntry sp, ranges_of OutputEntry sp)
     = (errs, ranges_of InputEntry (sp @ spans_of off es), ranges_of OutputEntry (sp @ spans_of off es))
   \<and> (errs = [] \<longleftrightarrow> (\<forall>x \<in> set sp. \<forall>y \<in> set (spans_of off es). apart x y) \<and> sorted_wrt apart (spans_of off es))"
proof (induction es arbitrary: j off sp)
  case (Cons e es)
  show ?case
  proof (cases "pc_enabled e")
    case False
    then show ?thesis using Cons.IH [of "j + 1" off sp] by simp
  next
    case True
    let ?x = "(pc_direction e, off, off + pc_bitSize e)"
    have grown: "(if pc_direction e = InputEntry then (ranges_of InputEntry sp @ [(off, off + pc_bitSize e)], ranges_of OutputEntry sp)
        else (ranges_of InputEntry sp, ranges_of OutputEntry sp @ [(off, off + pc_bitSize e)]))
      = (ranges_of InputEntry (sp @ [?x]), ranges_of OutputEntry (sp @ [?x]))"
      by (cases "pc_direction e") simp_all
    obtain errs where ih: "overlaps_in sm (j + 1) (off + pc_bitSize e) es (ranges_of InputEntry (sp @ [?x]), ranges_of OutputEntry (sp @ [?x]))
        = (errs, ranges_of InputEntry ((sp @ [?x]) @ spans_of (off + pc_bitSize e) es),
                 ranges_of OutputEntry ((sp @ [?x]) @ spans_of (off + pc_bitSize e) es))"
      and none: "errs = [] \<longleftrightarrow> (\<forall>x \<in> set (sp @ [?x]). \<forall>y \<in> set (spans_of (off + pc_bitSize e) es). apart x y)
        \<and> sorted_wrt apart (spans_of (off + pc_bitSize e) es)"
      using Cons.IH [of "j + 1" "off + pc_bitSize e" "sp @ [?x]"] by blast
    let ?found = "clashes off (off + pc_bitSize e) (ranges_of (pc_direction e) sp)"
    have "(if pc_direction e = InputEntry then ranges_of InputEntry sp else ranges_of OutputEntry sp) = ranges_of (pc_direction e) sp"
      by (cases "pc_direction e") simp_all
    then have "overlaps_in sm j off (e # es) (ranges_of InputEntry sp, ranges_of OutputEntry sp)
      = (map (\<lambda>_. overlap_error sm j e) ?found @ errs, ranges_of InputEntry (sp @ spans_of off (e # es)),
         ranges_of OutputEntry (sp @ spans_of off (e # es)))"
      using True ih by (simp only: overlaps_in.simps Let_def prod.case grown) simp
    moreover have "map (\<lambda>_. overlap_error sm j e) ?found @ errs = [] \<longleftrightarrow>
        (\<forall>x \<in> set sp. \<forall>y \<in> set (spans_of off (e # es)). apart x y) \<and> sorted_wrt apart (spans_of off (e # es))"
      using True none
      by (simp only: append_is_Nil_conv map_is_Nil_conv clashes_Nil spans_of.simps if_True set_append set_simps
          sorted_wrt.simps ball_Un ball_simps ball_conj_distrib) argo
    ultimately show ?thesis by blast
  qed
qed simp

lemma overlaps_from_spans:
  "overlaps_from sms (ranges_of InputEntry sp, ranges_of OutputEntry sp) = [] \<longleftrightarrow>
     (\<forall>x \<in> set sp. \<forall>y \<in> set (all_spans sms). apart x y) \<and> sorted_wrt apart (all_spans sms)"
proof (induction sms arbitrary: sp)
  case (Cons sm sms)
  obtain errs where eq: "overlaps_in (sb_index sm) 0 0 (sb_entries sm) (ranges_of InputEntry sp, ranges_of OutputEntry sp)
      = (errs, ranges_of InputEntry (sp @ spans_of 0 (sb_entries sm)), ranges_of OutputEntry (sp @ spans_of 0 (sb_entries sm)))"
    and none: "errs = [] \<longleftrightarrow> (\<forall>x \<in> set sp. \<forall>y \<in> set (spans_of 0 (sb_entries sm)). apart x y)
      \<and> sorted_wrt apart (spans_of 0 (sb_entries sm))"
    using overlaps_in_spans [of "sb_index sm" 0 0 "sb_entries sm" sp] by blast
  show ?case
  proof -
    have spans: "all_spans (sm # sms) = spans_of 0 (sb_entries sm) @ all_spans sms" by (simp add: all_spans_def)
    have "overlaps_from (sm # sms) (ranges_of InputEntry sp, ranges_of OutputEntry sp) = [] \<longleftrightarrow>
        errs = [] \<and> overlaps_from sms (ranges_of InputEntry (sp @ spans_of 0 (sb_entries sm)),
          ranges_of OutputEntry (sp @ spans_of 0 (sb_entries sm))) = []"
      by (simp only: overlaps_from.simps eq Let_def prod.case append_is_Nil_conv)
    then show ?thesis
      unfolding Cons.IH none spans sorted_wrt_append set_append ball_Un ball_conj_distrib by argo
  qed
qed (simp add: all_spans_def)

lemma duplicates_in_spec:
  "duplicates_in sm j es seen = (errs, seen') \<Longrightarrow> set seen' = set seen \<union> object_key ` set es
     \<and> (errs = [] \<longleftrightarrow> distinct (map object_key es) \<and> set seen \<inter> object_key ` set es = {})"
proof (induction es arbitrary: j seen errs seen')
  case (Cons e es)
  then show ?case
  proof (cases "object_key e \<in> set seen")
    case True
    then obtain errs' where "duplicates_in sm (j + 1) es seen = (errs', seen')" "errs \<noteq> []"
      using Cons.prems by (auto split: prod.splits)
    then show ?thesis using Cons.IH [of "j + 1" seen errs' seen'] True by (simp add: insert_absorb)
  next
    case False
    then have "duplicates_in sm (j + 1) es (object_key e # seen) = (errs, seen')" using Cons.prems by simp
    from Cons.IH [OF this] False show ?thesis by simp blast
  qed
qed simp

lemma duplicates_from_spec:
  "duplicates_from sms seen = [] \<longleftrightarrow>
     distinct (map object_key (concat (map sb_entries sms))) \<and> set seen \<inter> object_key ` set (concat (map sb_entries sms)) = {}"
proof (induction sms arbitrary: seen)
  case (Cons sm sms)
  obtain errs seen' where eq: "duplicates_in (sb_index sm) 0 (sb_entries sm) seen = (errs, seen')" by fastforce
  let ?here = "object_key ` set (sb_entries sm)" and ?later = "object_key ` set (concat (map sb_entries sms))"
  from duplicates_in_spec [OF eq] have grown: "set seen' = set seen \<union> ?here"
    and none: "errs = [] \<longleftrightarrow> distinct (map object_key (sb_entries sm)) \<and> set seen \<inter> ?here = {}" by simp_all
  have here: "duplicates_from (sm # sms) seen = [] \<longleftrightarrow> errs = [] \<and> duplicates_from sms seen' = []" by (simp add: eq)
  have split: "distinct (map object_key (concat (map sb_entries (sm # sms)))) \<longleftrightarrow>
      distinct (map object_key (sb_entries sm)) \<and> distinct (map object_key (concat (map sb_entries sms))) \<and> ?here \<inter> ?later = {}"
    by (simp only: list.map concat.simps map_append distinct_append set_map)
  have keys: "object_key ` set (concat (map sb_entries (sm # sms))) = ?here \<union> ?later"
    by (simp only: list.map concat.simps set_append image_Un)
  show ?case unfolding here split keys none Cons.IH grown Int_Un_distrib Int_Un_distrib2 Un_empty by argo
qed simp

text \<open>
  Claim C20 (equivalence). The report calls a layout valid exactly if it is: every enabled manager's enabled entries fit its
  12000 bits, no two entries of the layout name the same object in whatever case, there is an enabled input and an
  enabled output, and no two enabled entries of one direction have overlapping bit ranges, each manager's entries
  being laid one after the other from its own bit 0.
\<close>

theorem report_valid_iff:
  "pr_valid (validate sms) \<longleftrightarrow>
     list_all (\<lambda>sm. enabled_bits (sb_entries sm) \<le> kMaxBitsPerSm) (filter sb_enabled sms)
     \<and> distinct (map object_key (concat (map sb_entries sms)))
     \<and> list_ex (\<lambda>e. pc_direction e = InputEntry) (active_entries sms) \<and> list_ex (\<lambda>e. pc_direction e = OutputEntry) (active_entries sms)
     \<and> sorted_wrt apart (all_spans sms)"
proof -
  have "validateSmSize sms = [] \<longleftrightarrow> list_all (\<lambda>sm. enabled_bits (sb_entries sm) \<le> kMaxBitsPerSm) (filter sb_enabled sms)"
    unfolding validateSmSize_def by (induction sms) (simp_all add: not_less)
  moreover have "validateDuplicates sms = [] \<longleftrightarrow> distinct (map object_key (concat (map sb_entries sms)))"
    using duplicates_from_spec [of sms "[]"] by (simp add: validateDuplicates_def)
  moreover have "validateAddresses sms = [] \<longleftrightarrow> sorted_wrt apart (all_spans sms)"
    using overlaps_from_spans [of sms "[]"] by (simp add: validateAddresses_def)
  moreover have "validateRequired sms = [] \<longleftrightarrow>
      list_ex (\<lambda>e. pc_direction e = InputEntry) (active_entries sms) \<and> list_ex (\<lambda>e. pc_direction e = OutputEntry) (active_entries sms)"
    by (simp add: validateRequired_def Let_def)
  ultimately show ?thesis by (simp add: validate_def Let_def) blast
qed

text \<open>
  The address check never finds anything within one manager, and it takes two managers of one direction, which have
  separate memories, for overlapping.
\<close>

lemma spans_after:
  "list_all (\<lambda>e. 0 \<le> pc_bitSize e) es \<Longrightarrow> x \<in> set (spans_of off es) \<Longrightarrow> off \<le> fst (snd x)"
proof (induction es arbitrary: off)
  case (Cons e es)
  then have "x = (pc_direction e, off, off + pc_bitSize e) \<or> x \<in> set (spans_of (off + pc_bitSize e) es) \<or> x \<in> set (spans_of off es)"
    by (auto split: if_splits)
  with Cons.IH [of "off + pc_bitSize e"] Cons.IH [of off] Cons.prems(1) show ?case by (elim disjE) simp_all
qed simp

lemma one_manager_never_overlaps:
  assumes "list_all (\<lambda>e. 0 \<le> pc_bitSize e) (sb_entries sm)"
  shows "validateAddresses [sm] = []"
proof -
  have "sorted_wrt apart (spans_of off es)" if "list_all (\<lambda>e. 0 \<le> pc_bitSize e) es" for off es
    using that
  proof (induction es arbitrary: off)
    case (Cons e es)
    then show ?case using spans_after [of es _ "off + pc_bitSize e"] by (auto simp: apart_def)
  qed simp
  then show ?thesis
    using assms overlaps_from_spans [of "[sm]" "[]"] by (simp add: validateAddresses_def all_spans_def)
qed

lemma two_managers_overlap:
  assumes "sb_entries a = e # es" and "sb_entries b = f # fs" and "pc_enabled e" and "pc_enabled f"
    and "pc_direction e = pc_direction f" and "0 < pc_bitSize e" and "0 < pc_bitSize f"
  shows "validateAddresses [a, b] \<noteq> []"
proof
  assume "validateAddresses [a, b] = []"
  then have "sorted_wrt apart (all_spans [a, b])"
    using overlaps_from_spans [of "[a, b]" "[]"] by (simp add: validateAddresses_def)
  then show False using assms by (simp add: all_spans_def sorted_wrt_append apart_def)
qed

end
