(* ===== verification/ProcessRows.thy ===== *)
theory ProcessRows
  imports QtHash QtText
begin

text \<open>
  The rows of the I/O variable table and what the studio reads off their texts
  (\<^verbatim>\<open>models/ProcessDataRowModel.cpp\<close>, \<^verbatim>\<open>models/EvidenceModel.cpp\<close>, \<^verbatim>\<open>normalizeHexText\<close> of
  \<^verbatim>\<open>utils/TextHelpers.cpp\<close>, the row of \<^verbatim>\<open>infra/ProcessDataTypes.h\<close>). The code also looks for Chinese words;
  a text of the model holds code units up to 255, where those never occur, so their alternatives are left out.
\<close>

section \<open>Rows\<close>

record io_row =
  io_row_number :: int
  io_position :: int
  io_positionValid :: bool
  io_direction :: string
  io_symbol :: string
  io_index :: string
  io_subIndex :: string
  io_bits :: string
  io_pdo :: string
  io_source :: string
  io_raw :: string
  io_decoded :: string
  io_meaning :: string
  io_watch :: string
  io_startup :: string
  io_map :: string
  io_changed :: string
  io_plcQuality :: string
  io_alias :: string
  io_tags :: string
  io_note :: string

section \<open>Types from texts\<close>

definition processDataTypeFromBits :: "string \<Rightarrow> string" where
  "processDataTypeFromBits bitsText = (case to_int32 (trimmed bitsText) of
     None \<Rightarrow> ''''
   | Some bits \<Rightarrow>
       if bits \<le> 0 then ''''
       else if bits = 1 then ''bool''
       else if bits \<le> 8 then ''uint8''
       else if bits \<le> 16 then ''uint16''
       else if bits \<le> 32 then ''uint32''
       else ''uint64'')"

definition known_types :: "string list" where
  "known_types = [''bool'', ''int8'', ''int16'', ''int32'', ''int64'', ''uint8'', ''uint16'', ''uint32'', ''uint64'',
     ''float'', ''double'', ''string'', ''octet_string'']"

definition type_synonyms :: "(string \<times> string) list" where
  "type_synonyms = [(''byte'', ''uint8''), (''word'', ''uint16''), (''dword'', ''uint32''), (''real32'', ''float''),
     (''real64'', ''double'')]"

definition iec_types :: "(string \<times> string) list" where
  "iec_types = [(''bool'', ''BOOL''), (''int8'', ''SINT''), (''uint8'', ''USINT''), (''int16'', ''INT''), (''uint16'', ''UINT''),
     (''int32'', ''DINT''), (''uint32'', ''UDINT''), (''int64'', ''LINT''), (''uint64'', ''ULINT''), (''float'', ''REAL''),
     (''double'', ''LREAL'')]"

definition or_empty :: "string option \<Rightarrow> string" where
  "or_empty o' = (case o' of None \<Rightarrow> '''' | Some t \<Rightarrow> t)"

definition processDataNormalizedKnownType :: "string \<Rightarrow> string" where
  "processDataNormalizedKnownType type =
     (let normalized = map (\<lambda>c. if c = CHR '' '' then CHR ''_'' else c) (to_lower (trimmed type))
      in if normalized \<in> set known_types then normalized else or_empty (map_of type_synonyms normalized))"

definition processDataIecTypeFromNormalizedType :: "string \<Rightarrow> string" where
  "processDataIecTypeFromNormalizedType type = or_empty (map_of iec_types type)"

definition ioVariableTableRowTypeFromBits :: "io_row \<Rightarrow> string" where
  "ioVariableTableRowTypeFromBits row = processDataTypeFromBits (io_bits row)"

definition ioVariableTableRowSdoType :: "io_row \<Rightarrow> string" where
  "ioVariableTableRowSdoType row =
     (let parts = split_on (CHR ''|'') (to_lower (io_source row));
          type = processDataNormalizedKnownType (last parts)
      in if 1 < length parts \<and> type \<noteq> '''' then type else ioVariableTableRowTypeFromBits row)"

definition ioVariableTableRowIecType :: "io_row \<Rightarrow> string" where
  "ioVariableTableRowIecType row =
     (let type = processDataIecTypeFromNormalizedType (processDataNormalizedKnownType (ioVariableTableRowSdoType row))
      in if type = '''' then ''ANY'' else type)"

section \<open>What a row holds\<close>

definition ioVariableTableRowHasTarget :: "io_row \<Rightarrow> bool" where
  "ioVariableTableRowHasTarget row \<longleftrightarrow>
     io_positionValid row \<and> 0 \<le> io_position row \<and> io_index row \<noteq> '''' \<and> io_subIndex row \<noteq> ''''"

definition ioVariableTableRowHasValue :: "io_row \<Rightarrow> bool" where
  "ioVariableTableRowHasValue row \<longleftrightarrow> io_raw row \<noteq> '''' \<or> io_watch row \<noteq> ''''"

definition ioVariableTableRowPreferredValue :: "io_row \<Rightarrow> string" where
  "ioVariableTableRowPreferredValue row = (if io_raw row = '''' then io_watch row else io_raw row)"

definition ioVariableTableRowStartupValue :: "io_row \<Rightarrow> string" where
  "ioVariableTableRowStartupValue row = (if io_watch row = '''' then io_raw row else io_watch row)"

definition ioVariableTableRowHasProcessSource :: "io_row \<Rightarrow> bool" where
  "ioVariableTableRowHasProcessSource row \<longleftrightarrow> contains_str ''process'' (to_lower (io_source row))"

definition ioVariableTableRowHasPdoSource :: "io_row \<Rightarrow> bool" where
  "ioVariableTableRowHasPdoSource row \<longleftrightarrow> contains_ci ''pdo'' (io_source row)"

definition ioVariableTableRowHasWatchEvidence :: "io_row \<Rightarrow> bool" where
  "ioVariableTableRowHasWatchEvidence row \<longleftrightarrow> io_watch row \<noteq> '''' \<or> contains_ci ''watch'' (io_source row)"

definition hasStartupDiffEvidence :: "string \<Rightarrow> bool" where
  "hasStartupDiffEvidence status =
     (let normalized = to_lower (trimmed status)
      in contains_str ''diff'' normalized \<or> contains_str ''mismatch'' normalized)"

definition hasPdoMapIssueEvidence :: "string \<Rightarrow> bool" where
  "hasPdoMapIssueEvidence status =
     (let normalized = to_lower status
      in contains_str ''warning'' normalized \<or> contains_str ''missing'' normalized \<or> contains_str ''no pdo map'' normalized)"

definition ioVariableTableRowHasStartupDiff :: "io_row \<Rightarrow> bool" where
  "ioVariableTableRowHasStartupDiff row = hasStartupDiffEvidence (io_startup row)"

definition ioVariableTableRowHasPdoMapIssue :: "io_row \<Rightarrow> bool" where
  "ioVariableTableRowHasPdoMapIssue row = hasPdoMapIssueEvidence (io_map row)"

definition ioVariableTableRowHasMissingValue :: "io_row \<Rightarrow> bool" where
  "ioVariableTableRowHasMissingValue row \<longleftrightarrow> io_raw row = '''' \<and> io_watch row = ''''"

definition ioVariableTableRowHasChangedValue :: "io_row \<Rightarrow> bool" where
  "ioVariableTableRowHasChangedValue row \<longleftrightarrow> io_changed row \<noteq> ''''"

definition ioVariableTableRowHasPlcIssue :: "string \<Rightarrow> io_row \<Rightarrow> bool" where
  "ioVariableTableRowHasPlcIssue readyText row \<longleftrightarrow>
     io_plcQuality row \<noteq> '''' \<and> to_lower (io_plcQuality row) \<noteq> to_lower readyText"

definition ioVariableTableRowIsRx :: "io_row \<Rightarrow> bool" where
  "ioVariableTableRowIsRx row =
     (let direction = to_lower (io_direction row) in contains_str ''rx'' direction \<or> contains_str ''output'' direction)"

definition ioVariableTableRowIsTx :: "io_row \<Rightarrow> bool" where
  "ioVariableTableRowIsTx row =
     (let direction = to_lower (io_direction row) in contains_str ''tx'' direction \<or> contains_str ''input'' direction)"

definition drive_indices :: "string list" where
  "drive_indices = [''0x6040'', ''0x6041'', ''0x6060'', ''0x6061'', ''0x603f'', ''0x6064'', ''0x606c'', ''0x6077'', ''0x607a'',
     ''0x60ff'', ''0x6071'']"

definition ioVariableTableRowIsCia402 :: "io_row \<Rightarrow> bool" where
  "ioVariableTableRowIsCia402 row \<longleftrightarrow>
     io_index row \<in> set drive_indices \<or> contains_ci ''cia'' (io_symbol row) \<or> contains_ci ''cia'' (io_meaning row)"

section \<open>Evidence\<close>

datatype evidence_severity = NeutralEvidence | OkEvidence | ActionEvidence | WarningEvidence | ErrorEvidence

definition driveEvidenceSeverity :: "string \<Rightarrow> evidence_severity" where
  "driveEvidenceSeverity evidence =
     (let normalized = to_lower evidence
      in if trimmed normalized = '''' then NeutralEvidence
         else if contains_str ''fault'' normalized \<or> contains_str ''error code'' normalized then ErrorEvidence
         else if contains_str ''quick stop'' normalized \<or> contains_str ''warning'' normalized
           \<or> contains_str ''internal limit'' normalized then WarningEvidence
         else if contains_str ''operation enabled'' normalized then OkEvidence
         else ActionEvidence)"

record state_evidence =
  se_currentState :: string
  se_pdoLoaded :: bool
  se_watchValueRows :: int
  se_freeRunRows :: int
  se_startupDiffs :: int
  se_mapIssues :: int
  se_consistencyOk :: bool

definition recommendedEthercatState :: "state_evidence \<Rightarrow> string" where
  "recommendedEthercatState e =
     (let state = to_upper (trimmed (se_currentState e))
      in if contains_str ''INIT'' state then ''PREOP''
         else if contains_str ''PREOP'' state then (if se_pdoLoaded e \<and> se_watchValueRows e > 0 then ''SAFEOP'' else '''')
         else if contains_str ''SAFEOP'' state then
           (if se_freeRunRows e > 0 \<and> se_startupDiffs e \<le> 0 \<and> se_mapIssues e \<le> 0 \<and> se_consistencyOk e then ''OP'' else '''')
         else '''')"

section \<open>Object keys\<close>

definition normalizeHexText :: "nat \<Rightarrow> string \<Rightarrow> string" where
  "normalizeHexText minimumDigits text0 =
     (let text = trimmed text0;
          digits = (if starts_with_ci ''0x'' text then drop 2 text else text)
      in if text = '''' then text
         else case to_uint (2 ^ 64) 16 digits of
           None \<Rightarrow> to_lower text
         | Some parsed \<Rightarrow> to_lower (''0x'' @ hex_field minimumDigits parsed))"

definition ioVariableTableObjectKey :: "int \<Rightarrow> string \<Rightarrow> string \<Rightarrow> string" where
  "ioVariableTableObjectKey position index subIndex =
     (if position < 0 \<or> trimmed index = '''' \<or> trimmed subIndex = '''' then ''''
      else number_int position @ ''|'' @ normalizeHexText 4 index @ ''|'' @ normalizeHexText 2 subIndex)"

definition ioVariableTableRowKey :: "io_row \<Rightarrow> string" where
  "ioVariableTableRowKey row =
     (if \<not> ioVariableTableRowHasTarget row then ''''
      else ioVariableTableObjectKey (io_position row) (io_index row) (io_subIndex row))"

section \<open>Types of rows\<close>

lemma type_from_bits_known: "processDataTypeFromBits t = '''' \<or> processDataTypeFromBits t \<in> set known_types"
  by (simp add: processDataTypeFromBits_def known_types_def split: option.split)

lemma or_empty_range: "or_empty (map_of xs k) = '''' \<or> or_empty (map_of xs k) \<in> snd ` set xs"
proof (cases "map_of xs k")
  case (Some t)
  then have "t \<in> snd ` set xs" using map_of_SomeD by (force simp: image_iff)
  with Some show ?thesis by (simp add: or_empty_def)
qed (simp add: or_empty_def)

lemma synonyms_known: "snd ` set type_synonyms \<subseteq> set known_types"
  by (simp add: type_synonyms_def known_types_def)

lemma normalized_type_known: "processDataNormalizedKnownType t = '''' \<or> processDataNormalizedKnownType t \<in> set known_types"
  using or_empty_range [of type_synonyms] synonyms_known by (auto simp: processDataNormalizedKnownType_def Let_def)

lemma sdo_type_known: "ioVariableTableRowSdoType row = '''' \<or> ioVariableTableRowSdoType row \<in> set known_types"
  using normalized_type_known [of "last (split_on (CHR ''|'') (to_lower (io_source row)))"] type_from_bits_known [of "io_bits row"]
  unfolding ioVariableTableRowSdoType_def Let_def ioVariableTableRowTypeFromBits_def by presburger

lemma known_type_fixed: "t \<in> set known_types \<Longrightarrow> processDataNormalizedKnownType t = t"
proof -
  have "list_all (\<lambda>t. processDataNormalizedKnownType t = t) known_types" by code_simp
  then show "t \<in> set known_types \<Longrightarrow> processDataNormalizedKnownType t = t" by (simp add: list_all_iff)
qed

lemma iec_type_of_sdo_type:
  "ioVariableTableRowIecType row = (case map_of iec_types (ioVariableTableRowSdoType row) of None \<Rightarrow> ''ANY'' | Some t \<Rightarrow> t)"
proof -
  have fixed: "processDataNormalizedKnownType (ioVariableTableRowSdoType row) = ioVariableTableRowSdoType row"
  proof (cases "ioVariableTableRowSdoType row = ''''")
    case True
    have "processDataNormalizedKnownType '''' = ''''" by code_simp
    with True show ?thesis by simp
  next
    case False
    with sdo_type_known [of row] show ?thesis by (auto intro: known_type_fixed)
  qed
  have named: "map_of iec_types t = Some t' \<Longrightarrow> t' \<noteq> ''''" for t t'
    by (drule map_of_SomeD) (auto simp: iec_types_def)
  show ?thesis
    unfolding ioVariableTableRowIecType_def fixed processDataIecTypeFromNormalizedType_def or_empty_def Let_def
    using named by (simp split: option.split)
qed

section \<open>Keys identify objects\<close>

definition hex_value :: "string \<Rightarrow> nat option" where
  \<comment> \<open>the number a hexadecimal text names, with or without \<open>0x\<close>\<close>
  "hex_value text0 = (let text = trimmed text0 in
     if text = '''' then None else to_uint (2 ^ 64) 16 (if starts_with_ci ''0x'' text then drop 2 text else text))"

lemma hex_value_small:
  assumes "trimmed t \<noteq> '''' \<and> parse_base 16 (strip_plus (trimmed (if starts_with_ci ''0x'' (trimmed t)
      then drop 2 (trimmed t) else trimmed t))) = Some n" and "n < 2 ^ 64"
  shows "hex_value t = Some n"
  using assms by (simp add: hex_value_def to_uint_def Let_def)

lemma to_lower_hex_field: "to_lower (''0x'' @ hex_field w n) = ''0x'' @ hex_field w n"
proof -
  have "to_lower_char c = c" if "c \<in> set (hex_field w n)" for c
    using hex_field_chars [OF that] by (auto simp: to_lower_char_def Let_def)
  then show ?thesis by (simp add: to_lower_def map_idI) (simp add: to_lower_char_def code_of_def)
qed

lemma normalized_hex: "hex_value t = Some n \<Longrightarrow> normalizeHexText w t = ''0x'' @ hex_field w n \<and> trimmed t \<noteq> ''''"
  unfolding normalizeHexText_def hex_value_def Let_def
  by (simp add: to_lower_hex_field [simplified] split: if_splits)

lemma bar_code: "code_of (CHR ''|'') = 124"
  by code_simp

lemma bar_not_in_field: "CHR ''|'' \<notin> set (hex_field w n)"
  using hex_field_chars [of "CHR ''|''" w n] unfolding bar_code by auto

lemma bar_not_in_hex: "CHR ''|'' \<notin> set (''0x'' @ hex_field w n)"
  using bar_not_in_field by simp

lemma bar_not_in_number: "0 \<le> p \<Longrightarrow> CHR ''|'' \<notin> set (number_int p)"
  using number_nat_digits [of "CHR ''|''" "nat p"] unfolding is_digit_def bar_code by (auto simp: number_int_def)

lemma split_three:
  "c \<notin> set a \<Longrightarrow> c \<notin> set b \<Longrightarrow> c \<notin> set d \<Longrightarrow> split_on c (a @ c # b @ c # d) = [a, b, d]"
  by (simp add: split_on_append split_on_no_sep)

lemma number_nat_inj: "number_nat k = number_nat l \<Longrightarrow> k = l"
proof -
  have v: "value_acc 10 0 (number_nat n) = n" for n
    unfolding number_nat_def by (rule value_digits_base) simp_all
  assume "number_nat k = number_nat l"
  then have "value_acc 10 0 (number_nat k) = value_acc 10 0 (number_nat l)" by (rule arg_cong)
  then show "k = l" unfolding v .
qed

lemma number_int_inj: "0 \<le> p \<Longrightarrow> 0 \<le> q \<Longrightarrow> number_int p = number_int q \<Longrightarrow> p = q"
  using number_nat_inj [of "nat p" "nat q"] unfolding number_int_def by simp

text \<open>
  Two object keys are the same exactly if they name the same object of the same slave: whatever the
  case, the zeros in front or the \<open>0x\<close> of the index and sub-index they were made of.
\<close>

theorem key_identifies_object:
  assumes "0 \<le> p" and "0 \<le> q" and "hex_value i = Some a" and "hex_value j = Some b"
    and "hex_value s = Some c" and "hex_value t = Some d"
  shows "ioVariableTableObjectKey p i s = ioVariableTableObjectKey q j t \<longleftrightarrow> p = q \<and> a = b \<and> c = d"
proof -
  have key: "ioVariableTableObjectKey p i s = number_int p @ CHR ''|'' # (''0x'' @ hex_field 4 a) @ CHR ''|'' # (''0x'' @ hex_field 2 c)"
    if "0 \<le> p" "hex_value i = Some a" "hex_value s = Some c" for p i s a c
    using normalized_hex [OF that(2), of 4] normalized_hex [OF that(3), of 2] that(1) by (simp add: ioVariableTableObjectKey_def)
  have parts: "split_on (CHR ''|'') (number_int p @ CHR ''|'' # (''0x'' @ hex_field 4 a) @ CHR ''|'' # (''0x'' @ hex_field 2 c))
      = [number_int p, ''0x'' @ hex_field 4 a, ''0x'' @ hex_field 2 c]" if "0 \<le> p" for p a c
    by (rule split_three [OF bar_not_in_number [OF that] bar_not_in_hex bar_not_in_hex])
  show ?thesis
  proof
    assume "ioVariableTableObjectKey p i s = ioVariableTableObjectKey q j t"
    then have "[number_int p, ''0x'' @ hex_field 4 a, ''0x'' @ hex_field 2 c] = [number_int q, ''0x'' @ hex_field 4 b, ''0x'' @ hex_field 2 d]"
      using parts [OF assms(1), of a c] parts [OF assms(2), of b d] key [OF assms(1,3,5)] key [OF assms(2,4,6)] by simp
    then show "p = q \<and> a = b \<and> c = d" using number_int_inj [OF assms(1,2)] hex_field_inj [of 4 a 4 b] hex_field_inj [of 2 c 2 d] by simp
  next
    assume "p = q \<and> a = b \<and> c = d"
    then show "ioVariableTableObjectKey p i s = ioVariableTableObjectKey q j t" using key [OF assms(1,3,5)] key [OF assms(2,4,6)] by simp
  qed
qed

lemma key_identifies_object_witness:
  "ioVariableTableObjectKey 3 ''40'' ''0x0'' = ioVariableTableObjectKey 3 '' 0X040'' ''00''"
proof (rule key_identifies_object [where i = "''40''" and j = "'' 0X040''" and a = 64 and b = 64
      and s = "''0x0''" and t = "''00''" and c = 0 and d = 0, THEN iffD2])
  show "hex_value ''40'' = Some 64" by (rule hex_value_small) (code_simp, simp)
  show "hex_value '' 0X040'' = Some 64" by (rule hex_value_small) (code_simp, simp)
  show "hex_value ''0x0'' = Some 0" by (rule hex_value_small) (code_simp, simp)
  show "hex_value ''00'' = Some 0" by (rule hex_value_small) (code_simp, simp)
qed simp_all

end
