(* ===== verification/PlcHandoff.thy ===== *)
theory PlcHandoff
  imports ProcessRows
begin

text \<open>
  Naming, filtering and exporting the I/O variables (\<^verbatim>\<open>models/IoVariableModel.{h,cpp}\<close>, \<^verbatim>\<open>plcIdentifier\<close> of
  \<^verbatim>\<open>utils/TextHelpers.cpp\<close>). A \<open>QSet\<close> of names is the list of its members. Where the code fills two place markers
  one after the other the first text is put in as it is: a text that itself holds a place marker is outside the model.
\<close>

section \<open>Identifiers\<close>

definition is_alnum :: "char \<Rightarrow> bool" where
  "is_alnum c = (let n = code_of c in 48 \<le> n \<and> n \<le> 57 \<or> 65 \<le> n \<and> n \<le> 90 \<or> 97 \<le> n \<and> n \<le> 122)"

definition is_ident :: "char \<Rightarrow> bool" where
  "is_ident c \<longleftrightarrow> is_alnum c \<or> c = CHR ''_''"

lemma length_dropWhile [termination_simp]: "length (dropWhile P s) \<le> length s"
  by (induction s) auto

fun replace_runs :: "(char \<Rightarrow> bool) \<Rightarrow> string \<Rightarrow> string" where
  \<comment> \<open>a regular expression of one repeated class, each of its matches replaced by an underscore\<close>
  "replace_runs P [] = []"
| "replace_runs P (c # s) = (if P c then CHR ''_'' # replace_runs P (dropWhile P s) else c # replace_runs P s)"

fun replace_pair :: "(char \<Rightarrow> char \<Rightarrow> bool) \<Rightarrow> string \<Rightarrow> string \<Rightarrow> string" where
  \<comment> \<open>\<open>replace\<close> and \<open>remove\<close> of a text of two characters: left to right, going on behind each match\<close>
  "replace_pair P by (x # y # s) = (if P x y then by @ replace_pair P by s else x # replace_pair P by (y # s))"
| "replace_pair P by s = s"

definition strip_underscores :: "string \<Rightarrow> string" where
  "strip_underscores s = rev (dropWhile (\<lambda>c. c = CHR ''_'') (rev (dropWhile (\<lambda>c. c = CHR ''_'') s)))"

definition sanitised :: "string \<Rightarrow> string" where
  "sanitised text =
     (let t1 = replace_char (CHR ''%'') '' percent '' (replace_char (CHR ''+'') '' plus '' (replace_char (CHR ''&'') '' and '' text));
          t2 = replace_runs (\<lambda>c. c = CHR ''_'') (replace_runs (\<lambda>c. \<not> is_ident c) t1)
      in strip_underscores (trimmed t2))"

definition plcIdentifier :: "string \<Rightarrow> string \<Rightarrow> string" where
  "plcIdentifier text0 fallback =
     (let t0 = trimmed text0;
          t1 = sanitised (if t0 = '''' then trimmed fallback else t0);
          t2 = (if t1 = '''' then trimmed fallback else t1);
          t3 = (if t2 = '''' then ''Var'' else t2)
      in if is_digit (hd t3) then ''V_'' @ t3 else t3)"

section \<open>Names of a row\<close>

definition remove_hex_prefixes :: "string \<Rightarrow> string" where
  "remove_hex_prefixes s = replace_pair (\<lambda>x y. x = CHR ''0'' \<and> (y = CHR ''x'' \<or> y = CHR ''X'')) '''' s"

definition alias_seed :: "io_row \<Rightarrow> string" where
  "alias_seed row =
     (if io_alias row \<noteq> '''' then io_alias row
      else if io_symbol row \<noteq> '''' then io_symbol row
      else if io_meaning row \<noteq> '''' then io_meaning row
      else ''Obj_'' @ io_index row @ ''_'' @ io_subIndex row)"

definition address_fallback :: "io_row \<Rightarrow> string" where
  "address_fallback row = ''S'' @ (if io_positionValid row then number_int (io_position row) else '''') @ ''_''
     @ remove_hex_prefixes (io_index row) @ ''_'' @ remove_hex_prefixes (io_subIndex row)"

definition suggestedIoVariableAlias :: "io_row \<Rightarrow> string \<Rightarrow> bool \<Rightarrow> string" where
  "suggestedIoVariableAlias row pre includeAddress =
     (let fallback = address_fallback row;
          name = plcIdentifier (alias_seed row) fallback;
          address = plcIdentifier fallback fallback;
          name' = (if includeAddress \<and> \<not> contains_ci address name then address @ ''_'' @ name else name);
          normalizedPrefix = (if trimmed pre = '''' then '''' else plcIdentifier pre '''')
      in if normalizedPrefix \<noteq> '''' \<and> \<not> starts_with_ci (normalizedPrefix @ ''_'') name' then normalizedPrefix @ ''_'' @ name'
         else name')"

record handoff_name =
  hn_alias :: string
  hn_fallbackAlias :: string
  hn_symbol :: string

definition ioVariableHandoffName :: "io_row \<Rightarrow> handoff_name" where
  "ioVariableHandoffName row =
     (let fallbackAlias = suggestedIoVariableAlias row '''' True
      in \<lparr>hn_alias = io_alias row, hn_fallbackAlias = fallbackAlias, hn_symbol = plcIdentifier (io_alias row) fallbackAlias\<rparr>)"

section \<open>Issues\<close>

datatype handoff_issue = MissingAlias | AutoName | NoTags | DuplicateSymbol

definition ioVariableHandoffIssues :: "io_row \<Rightarrow> string list option \<Rightarrow> handoff_issue list" where
  "ioVariableHandoffIssues row duplicateSymbols =
     (let name = ioVariableHandoffName row
      in (if trimmed (hn_alias name) = '''' then [MissingAlias]
          else if to_lower (hn_alias name) = to_lower (hn_fallbackAlias name)
               \<or> starts_with_ci (''S'' @ number_int (io_position row) @ ''_'') (hn_alias name) then [AutoName]
          else [])
         @ (if trimmed (io_tags row) = '''' then [NoTags] else [])
         @ (case duplicateSymbols of None \<Rightarrow> []
            | Some ds \<Rightarrow> if to_lower (hn_symbol name) \<in> set ds then [DuplicateSymbol] else []))"

definition duplicate_step :: "(string \<times> nat) list \<times> string list \<Rightarrow> io_row \<Rightarrow> (string \<times> nat) list \<times> string list" where
  "duplicate_step st row = (case st of (counts, duplicates) \<Rightarrow>
     let symbol = to_lower (hn_symbol (ioVariableHandoffName row));
         n = (case map_of counts symbol of None \<Rightarrow> 0 | Some k \<Rightarrow> k) + 1
     in (hash_insert symbol n counts, if n > 1 then List.insert symbol duplicates else duplicates))"

definition duplicateIoVariableHandoffSymbols :: "io_row list \<Rightarrow> string list" where
  "duplicateIoVariableHandoffSymbols rows = snd (foldl duplicate_step ([], []) rows)"

definition ioVariableHandoffIssueKeys :: "handoff_issue list \<Rightarrow> string list" where
  "ioVariableHandoffIssueKeys = map (\<lambda>i. case i of MissingAlias \<Rightarrow> ''missingAlias'' | AutoName \<Rightarrow> ''autoName''
     | NoTags \<Rightarrow> ''noTags'' | DuplicateSymbol \<Rightarrow> ''duplicateSymbol'')"

section \<open>Unique names\<close>

definition numbered :: "string \<Rightarrow> nat \<Rightarrow> string" where
  "numbered base k = (base @ ''_'') @ number_nat k"

lemma to_lower_number: "to_lower (number_nat k) = number_nat k"
proof -
  have "to_lower_char c = c" if "c \<in> set (number_nat k)" for c
    using number_nat_digits [OF that] by (auto simp: is_digit_def to_lower_char_def Let_def)
  then show ?thesis by (simp add: to_lower_def map_idI)
qed

lemma numbered_inj: "inj (\<lambda>k. to_lower (numbered base k))"
proof (rule injI)
  fix k l
  assume "to_lower (numbered base k) = to_lower (numbered base l)"
  then have "to_lower (base @ ''_'') @ number_nat k = to_lower (base @ ''_'') @ number_nat l"
    unfolding numbered_def to_lower_append [of "base @ ''_''"] to_lower_number .
  then show "k = l" by (simp add: number_nat_inj)
qed

lemma finite_taken: "finite {k. d \<le> k \<and> to_lower (numbered base k) \<in> set used}"
proof -
  have "finite ((\<lambda>k. to_lower (numbered base k)) -` set used)" by (rule finite_vimageI [OF _ numbered_inj]) simp
  then show ?thesis by (rule rev_finite_subset) auto
qed

function unique_name :: "string list \<Rightarrow> string \<Rightarrow> string \<Rightarrow> nat \<Rightarrow> string" where
  \<comment> \<open>\<open>while (used.contains(name.toLower())) name = QString("%1_%2").arg(base).arg(duplicate++);\<close>\<close>
  "unique_name used base name duplicate =
     (if to_lower name \<in> set used then unique_name used base (numbered base duplicate) (duplicate + 1) else name)"
  by auto

termination
proof (relation "measure (\<lambda>(used, base, name, d). card {k. d \<le> k \<and> to_lower (numbered base k) \<in> set used}
    + (if to_lower name \<in> set used then 1 else 0))", goal_cases)
  case (2 used base name d)
  let ?taken = "\<lambda>d. {k. d \<le> k \<and> to_lower (numbered base k) \<in> set used}"
  have "?taken d = (if to_lower (numbered base d) \<in> set used then insert d (?taken (d + 1)) else ?taken (d + 1))"
    by (auto simp: Suc_le_eq le_less)
  then have "card (?taken d) = card (?taken (d + 1)) + (if to_lower (numbered base d) \<in> set used then 1 else 0)"
    using finite_taken [of "d + 1" base used] by (simp add: card_insert_if)
  then show ?case using 2 by simp
qed simp

declare unique_name.simps [simp del]

lemma unique_name_fresh: "to_lower (unique_name used base name d) \<notin> set used"
proof (induction used base name d rule: unique_name.induct)
  case (1 used base name d)
  then show ?case by (subst unique_name.simps) simp
qed

lemma unique_name_form: "unique_name used base name d = name \<or> (\<exists>k \<ge> d. unique_name used base name d = numbered base k)"
proof (induction used base name d rule: unique_name.induct)
  case (1 used base name d)
  show ?case
  proof (cases "to_lower name \<in> set used")
    case True
    then have "unique_name used base name d = unique_name used base (numbered base d) (d + 1)"
      by (subst unique_name.simps) simp
    with 1 [OF True] show ?thesis by (metis add_leD1 order_refl)
  next
    case False
    then show ?thesis by (subst unique_name.simps) simp
  qed
qed

definition ioVariableHandoffUniqueSymbol :: "io_row \<Rightarrow> string list option \<Rightarrow> string \<times> string list option" where
  "ioVariableHandoffUniqueSymbol row usedSymbols =
     (let symbol = hn_symbol (ioVariableHandoffName row)
      in case usedSymbols of
           None \<Rightarrow> (symbol, None)
         | Some used \<Rightarrow> let symbol' = unique_name used symbol symbol 2 in (symbol', Some (to_lower symbol' # used)))"

section \<open>Declarations\<close>

definition ioVariableHandoffPlcDirection :: "io_row \<Rightarrow> string" where
  "ioVariableHandoffPlcDirection row =
     (if ioVariableTableRowIsRx row then ''Output'' else if ioVariableTableRowIsTx row then ''Input'' else ''Parameter'')"

definition ioVariableHandoffPlcType :: "io_row \<Rightarrow> string" where
  "ioVariableHandoffPlcType row = ioVariableTableRowIecType row"

definition object_address :: "io_row \<Rightarrow> string" where
  "object_address row = ''#'' @ (if io_positionValid row then number_int (io_position row) else ''?'') @ '' ''
     @ io_index row @ '':'' @ io_subIndex row"

definition ioVariableHandoffComment :: "io_row \<Rightarrow> string list \<Rightarrow> string" where
  "ioVariableHandoffComment row qualityLabels =
     (let direction = ioVariableHandoffPlcDirection row;
          facts = (if direction \<noteq> '''' then [direction] else [])
            @ (if io_pdo row \<noteq> '''' then [io_pdo row] else [])
            @ (if io_meaning row \<noteq> '''' then [io_meaning row] else [])
            @ (if qualityLabels \<noteq> [] then [''Quality: '' @ join_with '' | '' qualityLabels] else []);
          comment = object_address row @ (if facts \<noteq> [] then '' | '' @ join_with '' | '' facts else '''')
      in replace_pair (\<lambda>x y. x = CHR ''*'' \<and> y = CHR '')'') '')''
           (replace_pair (\<lambda>x y. x = CHR ''('' \<and> y = CHR ''*'') ''('' comment))"

definition declaration_text :: "string \<Rightarrow> io_row \<Rightarrow> string list \<Rightarrow> string" where
  "declaration_text symbol row qualityLabels = ''    '' @ symbol @ '' : '' @ ioVariableHandoffPlcType row @ ''; ('' @ ''* ''
     @ ioVariableHandoffComment row qualityLabels @ '' *'' @ '')''"

definition ioVariableHandoffDeclarationLine :: "io_row \<Rightarrow> string list option \<Rightarrow> string list \<Rightarrow> string \<times> string list option" where
  "ioVariableHandoffDeclarationLine row usedSymbols qualityLabels =
     (let (symbol, used) = ioVariableHandoffUniqueSymbol row usedSymbols in (declaration_text symbol row qualityLabels, used))"

fun declaration_lines :: "io_row list \<Rightarrow> string list list \<Rightarrow> string list option \<Rightarrow> string list" where
  "declaration_lines [] labels used = []"
| "declaration_lines (row # rows) labels used =
     (let (line, used') = ioVariableHandoffDeclarationLine row used (case labels of [] \<Rightarrow> [] | l # _ \<Rightarrow> l)
      in line # declaration_lines rows (drop 1 labels) used')"

definition ioVariableHandoffDeclarationBlock :: "io_row list \<Rightarrow> string list list \<Rightarrow> string" where
  "ioVariableHandoffDeclarationBlock rows labels =
     join_with [CHR 0x0A] ([''VAR_GLOBAL''] @ declaration_lines rows labels (Some []) @ [''END_VAR''])"

section \<open>Exported tables\<close>

definition ioVariableHandoffCsvHeaders :: "string list" where
  "ioVariableHandoffCsvHeaders = [''Symbol'', ''Direction'', ''Type'', ''Slave'', ''Index'', ''SubIndex'', ''Bits'', ''Pdo'',
     ''Source'', ''Raw'', ''Decoded'', ''Meaning'', ''Watch'', ''Startup'', ''Map'', ''Changed'',
     ''Quality'', ''Alias'', ''Tags'', ''Note'', ''Address'', ''DefaultName'', ''ExportedAt'']"

definition ioVariableHandoffCsvRow :: "io_row \<Rightarrow> string list option \<Rightarrow> string \<Rightarrow> string list \<times> string list option" where
  "ioVariableHandoffCsvRow row usedSymbols exportedAt =
     (let name = ioVariableHandoffName row;
          (symbol, used) = ioVariableHandoffUniqueSymbol row usedSymbols
      in ([symbol, ioVariableHandoffPlcDirection row, ioVariableHandoffPlcType row,
           if io_positionValid row then number_int (io_position row) else '''', io_index row, io_subIndex row, io_bits row,
           io_pdo row, io_source row, io_raw row, io_decoded row, io_meaning row, io_watch row, io_startup row, io_map row,
           io_changed row, io_plcQuality row, hn_alias name, io_tags row, io_note row, object_address row,
           if io_symbol row = '''' then hn_fallbackAlias name else io_symbol row, exportedAt], used))"

lemma csv_row_fits_headers: "length (fst (ioVariableHandoffCsvRow row used at)) = length ioVariableHandoffCsvHeaders"
  by (simp add: ioVariableHandoffCsvRow_def ioVariableHandoffCsvHeaders_def Let_def split: prod.split)

section \<open>Filtering\<close>

record filter_state =
  fs_selected :: bool
  fs_process :: bool
  fs_pdo :: bool
  fs_watchEvidence :: bool
  fs_startupDiff :: bool
  fs_missingValue :: bool
  fs_changed :: bool
  fs_plcIssue :: bool
  fs_rx :: bool
  fs_tx :: bool
  fs_cia402 :: bool

definition ioVariableFilterRowState :: "io_row \<Rightarrow> int \<Rightarrow> string \<Rightarrow> filter_state" where
  "ioVariableFilterRowState row selectedPosition readyText =
     \<lparr>fs_selected = (io_positionValid row \<and> io_position row = selectedPosition),
      fs_process = ioVariableTableRowHasProcessSource row, fs_pdo = ioVariableTableRowHasPdoSource row,
      fs_watchEvidence = ioVariableTableRowHasWatchEvidence row, fs_startupDiff = ioVariableTableRowHasStartupDiff row,
      fs_missingValue = ioVariableTableRowHasMissingValue row, fs_changed = ioVariableTableRowHasChangedValue row,
      fs_plcIssue = ioVariableTableRowHasPlcIssue readyText row, fs_rx = ioVariableTableRowIsRx row,
      fs_tx = ioVariableTableRowIsTx row, fs_cia402 = ioVariableTableRowIsCia402 row\<rparr>"

definition filter_scopes :: "(string \<times> (filter_state \<Rightarrow> bool)) list" where
  "filter_scopes = [(''all'', \<lambda>_. True), (''selected'', fs_selected), (''process'', fs_process), (''pdo'', fs_pdo),
     (''watch'', fs_watchEvidence), (''startupDiff'', fs_startupDiff), (''missingValue'', fs_missingValue), (''rx'', fs_rx),
     (''tx'', fs_tx), (''cia402'', fs_cia402), (''changed'', fs_changed), (''plcIssues'', fs_plcIssue)]"

definition ioVariableFilterScopeMatches :: "filter_state \<Rightarrow> string \<Rightarrow> bool" where
  "ioVariableFilterScopeMatches state scope = (case map_of filter_scopes scope of None \<Rightarrow> True | Some p \<Rightarrow> p state)"

definition ioVariableFilterTextMatches :: "string list \<Rightarrow> string \<Rightarrow> bool" where
  "ioVariableFilterTextMatches cells needle \<longleftrightarrow>
     needle = '''' \<or> list_ex (\<lambda>cell. contains_str (to_lower needle) (to_lower cell)) cells"

record filter_decision =
  fd_state :: filter_state
  fd_visible :: bool

definition evaluateIoVariableFilterRow :: "io_row \<Rightarrow> string list \<Rightarrow> string \<Rightarrow> string \<Rightarrow> int \<Rightarrow> string \<Rightarrow> filter_decision" where
  "evaluateIoVariableFilterRow row cells scope needle selectedPosition readyText =
     (let state = ioVariableFilterRowState row selectedPosition readyText
      in \<lparr>fd_state = state,
          fd_visible = (ioVariableFilterScopeMatches state scope \<and> ioVariableFilterTextMatches cells needle)\<rparr>)"

record filter_stats =
  ft_visible :: nat
  ft_total :: nat
  ft_processRows :: nat
  ft_watchRows :: nat
  ft_startupDiffs :: nat
  ft_missingValues :: nat
  ft_changedRows :: nat
  ft_plcIssues :: nat

definition bump :: "bool \<Rightarrow> nat \<Rightarrow> nat" where
  "bump b n = (if b then n + 1 else n)"

definition accumulateIoVariableFilterStats :: "filter_stats \<Rightarrow> filter_decision \<Rightarrow> filter_stats" where
  "accumulateIoVariableFilterStats stats d = (let s = fd_state d in
     \<lparr>ft_visible = bump (fd_visible d) (ft_visible stats), ft_total = ft_total stats + 1,
      ft_processRows = bump (fs_process s) (ft_processRows stats), ft_watchRows = bump (fs_watchEvidence s) (ft_watchRows stats),
      ft_startupDiffs = bump (fs_startupDiff s) (ft_startupDiffs stats),
      ft_missingValues = bump (fs_missingValue s) (ft_missingValues stats),
      ft_changedRows = bump (fs_changed s) (ft_changedRows stats), ft_plcIssues = bump (fs_plcIssue s) (ft_plcIssues stats)\<rparr>)"

section \<open>Bulk naming\<close>

record naming_options =
  no_prefix :: string
  no_requestedTags :: "string list"
  no_includeAddress :: bool
  no_keepExistingAliases :: bool
  no_addDirectionTags :: bool

record naming_result =
  nr_metadataUpdates :: "(string \<times> string list) list"
  nr_updated :: nat
  nr_skippedExistingAliases :: nat
  nr_skippedInvalidRows :: nat

definition appendUniqueTag :: "string list \<Rightarrow> string \<Rightarrow> string list" where
  "appendUniqueTag tags tag0 = (let tag = trimmed tag0 in
     if tag = '''' \<or> list_ex (\<lambda>existing. to_lower (trimmed existing) = to_lower tag) tags then tags else tags @ [tag])"

definition countIoVariableBulkNamingExistingAliases :: "io_row list \<Rightarrow> nat" where
  "countIoVariableBulkNamingExistingAliases rows = length (filter (\<lambda>row. trimmed (io_alias row) \<noteq> '''') rows)"

definition rows_by_number :: "io_row list \<Rightarrow> (int \<times> io_row) list" where
  "rows_by_number rows = foldl (\<lambda>h row. hash_insert (io_row_number row) row h) [] rows"

definition reserved_aliases :: "io_row list \<Rightarrow> int list \<Rightarrow> bool \<Rightarrow> string list" where
  "reserved_aliases allRows targetRows keep =
     map (\<lambda>row. to_lower (trimmed (io_alias row)))
       (filter (\<lambda>row. \<not> (io_row_number row \<in> set targetRows \<and> \<not> keep) \<and> trimmed (io_alias row) \<noteq> '''') allRows)"

definition metadata_for :: "(string \<times> string list) list \<Rightarrow> string \<Rightarrow> string list" where
  "metadata_for metadataByKey key =
     (let m = (case map_of metadataByKey key of None \<Rightarrow> [] | Some m \<Rightarrow> m) in m @ replicate (3 - length m) '''')"

definition keeps_alias :: "naming_options \<Rightarrow> string list \<Rightarrow> bool" where
  "keeps_alias opts metadata \<longleftrightarrow> no_keepExistingAliases opts \<and> trimmed (metadata ! 0) \<noteq> ''''"

definition new_tags :: "naming_options \<Rightarrow> io_row \<Rightarrow> string list \<Rightarrow> string list" where
  "new_tags opts row metadata =
     (let tags = foldl appendUniqueTag (split_skip_empty (CHR '','') (metadata ! 1)) (no_requestedTags opts)
      in if no_addDirectionTags opts then
           appendUniqueTag (appendUniqueTag tags (to_lower (ioVariableHandoffPlcDirection row))) (to_lower (ioVariableHandoffPlcType row))
         else tags)"

definition naming_step ::
    "(int \<times> io_row) list \<Rightarrow> (string \<times> string list) list \<Rightarrow> naming_options \<Rightarrow> naming_result \<times> string list \<Rightarrow> int \<Rightarrow> naming_result \<times> string list" where
  \<comment> \<open>one turn of the loop over the target rows: the result so far and the aliases used\<close>
  "naming_step byNumber metadataByKey opts st number = (case st of (result, used) \<Rightarrow>
     case map_of byNumber number of
       None \<Rightarrow> (result\<lparr>nr_skippedInvalidRows := nr_skippedInvalidRows result + 1\<rparr>, used)
     | Some row \<Rightarrow>
         let key = ioVariableTableRowKey row in
         if key = '''' then (result\<lparr>nr_skippedInvalidRows := nr_skippedInvalidRows result + 1\<rparr>, used)
         else
           let metadata = metadata_for metadataByKey key;
               kept = keeps_alias opts metadata;
               base = suggestedIoVariableAlias row (no_prefix opts) (no_includeAddress opts);
               given = unique_name used base base 2;
               metadata1 = (if kept then metadata else metadata[0 := given]);
               metadata2 = metadata1[1 := join_with '', '' (new_tags opts row metadata)]
           in (result\<lparr>nr_metadataUpdates := hash_insert key metadata2 (nr_metadataUpdates result),
                      nr_updated := nr_updated result + 1,
                      nr_skippedExistingAliases := nr_skippedExistingAliases result + (if kept then 1 else 0)\<rparr>,
               if kept then used else to_lower given # used))"

definition empty_naming :: naming_result where
  "empty_naming = \<lparr>nr_metadataUpdates = [], nr_updated = 0, nr_skippedExistingAliases = 0, nr_skippedInvalidRows = 0\<rparr>"

definition buildIoVariableBulkNamingPlan ::
    "io_row list \<Rightarrow> int list \<Rightarrow> (string \<times> string list) list \<Rightarrow> naming_options \<Rightarrow> naming_result" where
  "buildIoVariableBulkNamingPlan allRows targetRows metadataByKey opts =
     fst (foldl (naming_step (rows_by_number allRows) metadataByKey opts)
            (empty_naming, reserved_aliases allRows targetRows (no_keepExistingAliases opts)) targetRows)"

section \<open>Identifiers are well formed\<close>

definition valid_identifier :: "string \<Rightarrow> bool" where
  "valid_identifier s \<longleftrightarrow> s \<noteq> '''' \<and> list_all is_ident s \<and> \<not> is_digit (hd s)"

lemma replace_runs_chars: "c \<in> set (replace_runs P s) \<Longrightarrow> c = CHR ''_'' \<or> c \<in> set s \<and> \<not> P c"
  by (induction P s rule: replace_runs.induct) (auto split: if_splits dest: set_dropWhileD)

lemma set_trimmed: "set (trimmed s) \<subseteq> set s"
  unfolding trimmed_def by (auto dest!: set_dropWhileD)

lemma set_strip: "set (strip_underscores s) \<subseteq> set s"
  unfolding strip_underscores_def by (auto dest!: set_dropWhileD)

lemma sanitised_ident: "list_all is_ident (sanitised t)"
proof -
  have "is_ident (CHR ''_'')" by (simp add: is_ident_def)
  moreover have "c = CHR ''_'' \<or> is_ident c" if "c \<in> set (sanitised t)" for c
    using that set_strip set_trimmed replace_runs_chars unfolding sanitised_def Let_def by (smt (verit) subsetD)
  ultimately show ?thesis by (auto simp: list_all_iff)
qed

lemma valid_named: "list_all is_ident t \<Longrightarrow> t \<noteq> '''' \<Longrightarrow> valid_identifier (if is_digit (hd t) then ''V_'' @ t else t)"
proof -
  have "is_ident (CHR ''V'') \<and> is_ident (CHR ''_'') \<and> \<not> is_digit (CHR ''V'')" by code_simp
  then show "list_all is_ident t \<Longrightarrow> t \<noteq> '''' \<Longrightarrow> valid_identifier (if is_digit (hd t) then ''V_'' @ t else t)"
    by (simp add: valid_identifier_def)
qed

lemma trimmed_ident: "list_all is_ident t \<Longrightarrow> list_all is_ident (trimmed t)"
  using set_trimmed by (auto simp: list_all_iff)

lemma plcIdentifier_valid: "list_all is_ident fallback \<Longrightarrow> valid_identifier (plcIdentifier t fallback)"
proof -
  assume "list_all is_ident fallback"
  then have f: "list_all is_ident (trimmed fallback)" by (rule trimmed_ident)
  have v: "list_all is_ident ''Var''" by code_simp
  show ?thesis unfolding plcIdentifier_def Let_def
    by (rule valid_named) (simp_all add: sanitised_ident f v [simplified])
qed

lemma valid_joined: "valid_identifier a \<Longrightarrow> list_all is_ident b \<Longrightarrow> valid_identifier (a @ CHR ''_'' # b)"
  by (cases a) (simp_all add: valid_identifier_def is_ident_def)

lemma ident_number: "list_all is_ident (number_nat k)"
  using number_nat_digits by (auto simp: list_all_iff is_ident_def is_alnum_def is_digit_def Let_def)

lemma valid_numbered: "valid_identifier a \<Longrightarrow> valid_identifier (numbered a k)"
  using valid_joined [OF _ ident_number, of a k] by (simp add: numbered_def)

lemma valid_unique: "valid_identifier base \<Longrightarrow> valid_identifier (unique_name used base base d)"
  using unique_name_form [of used base base d] valid_numbered by auto

definition plain_row :: "io_row \<Rightarrow> bool" where
  \<comment> \<open>index and sub-index are letters and digits, and a valid position is a position\<close>
  "plain_row row \<longleftrightarrow> list_all is_alnum (io_index row) \<and> list_all is_alnum (io_subIndex row)
     \<and> (io_positionValid row \<longrightarrow> 0 \<le> io_position row)"

lemma replace_pair_chars: "set (replace_pair P by' s) \<subseteq> set by' \<union> set s"
  by (induction P by' s rule: replace_pair.induct) auto

lemma ident_address: "plain_row row \<Longrightarrow> list_all is_ident (address_fallback row)"
proof -
  assume row: "plain_row row"
  have stripped: "list_all is_ident (remove_hex_prefixes s)" if "list_all is_alnum s" for s
    using that replace_pair_chars [of _ "''''" s] by (auto simp: remove_hex_prefixes_def list_all_iff is_ident_def)
  have "list_all is_ident ''S'' \<and> list_all is_ident ''_''" by code_simp
  then show ?thesis
    using row stripped ident_number by (simp add: address_fallback_def plain_row_def number_int_def not_less [symmetric])
qed

lemma suggested_valid: "plain_row row \<Longrightarrow> valid_identifier (suggestedIoVariableAlias row pre inc)"
proof -
  assume "plain_row row"
  note f = ident_address [OF this]
  have p: "valid_identifier (plcIdentifier pre '''')" by (rule plcIdentifier_valid) simp
  have idents: "valid_identifier s \<Longrightarrow> list_all is_ident s" for s by (simp add: valid_identifier_def)
  show ?thesis
    unfolding suggestedIoVariableAlias_def Let_def append.simps
    by (auto intro!: plcIdentifier_valid valid_joined f p intro: idents)
qed

text \<open>
  The symbol a row is exported under, and every numbered variant of it, is a PLC identifier - letters, digits
  and underscores, no digit in front - whatever the user has typed as its alias, as soon as the row's address is plain.
\<close>

theorem exported_symbol_is_identifier:
  assumes "plain_row row"
  shows "valid_identifier (fst (ioVariableHandoffUniqueSymbol row used))"
proof -
  have "valid_identifier (hn_symbol (ioVariableHandoffName row))"
    using suggested_valid [OF assms, of "''''" True] plcIdentifier_valid
    by (simp add: ioVariableHandoffName_def Let_def valid_identifier_def)
  then show ?thesis
    by (simp add: ioVariableHandoffUniqueSymbol_def Let_def valid_unique split: option.split)
qed

section \<open>Declared names differ\<close>

fun declared_symbols :: "io_row list \<Rightarrow> string list \<Rightarrow> string list" where
  "declared_symbols [] used = []"
| "declared_symbols (row # rows) used =
     (let symbol = hn_symbol (ioVariableHandoffName row); symbol' = unique_name used symbol symbol 2
      in symbol' # declared_symbols rows (to_lower symbol' # used))"

definition label_of :: "string list list \<Rightarrow> nat \<Rightarrow> string list" where
  "label_of labels i = (if i < length labels then labels ! i else [])"

lemma declared_fresh:
  "distinct (map to_lower (declared_symbols rows used)) \<and> set (map to_lower (declared_symbols rows used)) \<inter> set used = {}"
proof (induction rows used rule: declared_symbols.induct)
  case (2 row rows used)
  let ?symbol = "hn_symbol (ioVariableHandoffName row)"
  from 2 [OF refl refl] unique_name_fresh [of used ?symbol ?symbol 2] show ?case by (auto simp: Let_def)
qed simp

lemma length_declared [simp]: "length (declared_symbols rows used) = length rows"
  by (induction rows used rule: declared_symbols.induct) (simp_all add: Let_def)

lemma declaration_lines_eq:
  "declaration_lines rows labels (Some used) =
     map (\<lambda>(symbol, row, label). declaration_text symbol row label)
       (zip (declared_symbols rows used) (zip rows (map (label_of labels) [0..<length rows])))"
proof (induction rows arbitrary: labels used)
  case (Cons row rows)
  have labels: "map (label_of labels) [0..<length (row # rows)]
      = (case labels of [] \<Rightarrow> [] | l # _ \<Rightarrow> l) # map (label_of (drop 1 labels)) [0..<length rows]"
    by (cases labels) (simp_all add: label_of_def upt_conv_Cons map_Suc_upt [symmetric] del: upt_Suc)
  show ?case unfolding labels
    by (simp add: Cons.IH ioVariableHandoffDeclarationLine_def ioVariableHandoffUniqueSymbol_def Let_def)
qed simp

text \<open>
  Claim C22 (functional). The exported block declares every row once, in order, under symbols that differ from one another
  ignoring case - the loop looking for a free suffix always ends - and each is the row's own symbol or that symbol with a
  number from 2 behind it.
\<close>

theorem declared_symbols_differ:
  "\<exists>symbols. distinct (map to_lower symbols)
     \<and> list_all2 (\<lambda>row symbol. let own = hn_symbol (ioVariableHandoffName row)
          in symbol = own \<or> (\<exists>k. 2 \<le> k \<and> symbol = numbered own k)) rows symbols
     \<and> ioVariableHandoffDeclarationBlock rows labels =
         join_with [CHR 0x0A] ([''VAR_GLOBAL'']
           @ map (\<lambda>(symbol, row, label). declaration_text symbol row label)
               (zip symbols (zip rows (map (label_of labels) [0..<length rows])))
           @ [''END_VAR''])"
proof (intro exI conjI)
  show "distinct (map to_lower (declared_symbols rows []))" using declared_fresh by blast
  show "list_all2 (\<lambda>row symbol. let own = hn_symbol (ioVariableHandoffName row)
      in symbol = own \<or> (\<exists>k. 2 \<le> k \<and> symbol = numbered own k)) rows (declared_symbols rows [])"
  proof -
    have "list_all2 (\<lambda>row symbol. let own = hn_symbol (ioVariableHandoffName row)
        in symbol = own \<or> (\<exists>k. 2 \<le> k \<and> symbol = numbered own k)) rows (declared_symbols rows used)" for used
    proof (induction rows arbitrary: used)
      case (Cons row rows)
      let ?own = "hn_symbol (ioVariableHandoffName row)"
      show ?case using Cons.IH unique_name_form [of used ?own ?own 2] by (simp add: Let_def)
    qed simp
    then show ?thesis .
  qed
  show "ioVariableHandoffDeclarationBlock rows labels = join_with [CHR 0x0A] ([''VAR_GLOBAL'']
      @ map (\<lambda>(symbol, row, label). declaration_text symbol row label)
          (zip (declared_symbols rows []) (zip rows (map (label_of labels) [0..<length rows])))
      @ [''END_VAR''])"
    by (simp only: ioVariableHandoffDeclarationBlock_def declaration_lines_eq)
qed

text \<open>
  The comment of a declaration is cleaned of comment brackets in one pass, so a text may still hold one afterwards.
\<close>

definition demo_io_row :: "string \<Rightarrow> string \<Rightarrow> io_row" where
  "demo_io_row name meaning =
     \<lparr>io_row_number = 0, io_position = 1, io_positionValid = True, io_direction = ''RxPDO'', io_symbol = '''',
      io_index = ''0x6040'', io_subIndex = ''0x00'', io_bits = ''16'', io_pdo = '''', io_source = ''process'', io_raw = '''',
      io_decoded = '''', io_meaning = meaning, io_watch = '''', io_startup = '''', io_map = '''', io_changed = '''',
      io_plcQuality = '''', io_alias = name, io_tags = '''', io_note = ''''\<rparr>"

lemma comment_can_end_early: "contains_str (''*'' @ '')'') (ioVariableHandoffComment (demo_io_row '''' ''a **)) b'') [])"
  by code_simp

lemma exported_symbol_is_identifier_witness:
  "valid_identifier (fst (ioVariableHandoffUniqueSymbol (demo_io_row ''2nd axis (x+)'' '''') (Some [])))"
  by (rule exported_symbol_is_identifier) code_simp

section \<open>Named rows differ\<close>

definition named_here :: "(string \<times> string list) list \<Rightarrow> naming_options \<Rightarrow> naming_result \<Rightarrow> (string \<times> string list) list" where
  \<comment> \<open>the updates whose alias the plan has made up\<close>
  "named_here metadataByKey opts result =
     filter (\<lambda>u. \<not> keeps_alias opts (metadata_for metadataByKey (fst u))) (nr_metadataUpdates result)"

definition naming_ok :: "(string \<times> string list) list \<Rightarrow> naming_options \<Rightarrow> string list \<Rightarrow> naming_result \<times> string list \<Rightarrow> bool" where
  "naming_ok metadataByKey opts reserved st =
     (let aliases = map (\<lambda>u. to_lower (snd u ! 0)) (named_here metadataByKey opts (fst st))
      in distinct aliases \<and> set aliases \<inter> set reserved = {} \<and> set aliases \<subseteq> set (snd st) \<and> set reserved \<subseteq> set (snd st))"

lemma length_metadata [simp]: "2 < length (metadata_for metadataByKey key)"
  by (simp add: metadata_for_def Let_def)

lemma metadata_head [simp]: "(metadata_for metadataByKey key)[0 := a] ! 0 = a"
proof -
  have "0 < length (metadata_for metadataByKey key)" using length_metadata [of metadataByKey key] by linarith
  then show ?thesis by (rule nth_list_update_eq)
qed

lemma distinct_map_filter_conj:
  "distinct (map f (filter Q xs)) \<Longrightarrow> distinct (map f (filter (\<lambda>x. P x \<and> Q x) xs))"
  using distinct_map_filter [of f "filter Q xs" P] by (simp add: conj_commute)

lemma naming_step_ok: "naming_ok mk opts reserved st \<Longrightarrow> naming_ok mk opts reserved (naming_step byNumber mk opts st number)"
proof -
  assume ok: "naming_ok mk opts reserved st"
  obtain result used where st: "st = (result, used)" by (cases st)
  show ?thesis
  proof (cases "map_of byNumber number")
    case None
    then show ?thesis using ok by (simp add: st naming_step_def naming_ok_def named_here_def)
  next
    case (Some row)
    let ?key = "ioVariableTableRowKey row"
    let ?m = "metadata_for mk ?key"
    let ?base = "suggestedIoVariableAlias row (no_prefix opts) (no_includeAddress opts)"
    let ?given = "unique_name used ?base ?base 2"
    have fresh: "to_lower ?given \<notin> set used" by (rule unique_name_fresh)
    show ?thesis
    proof (cases "?key = '''' \<or> keeps_alias opts ?m")
      case True
      then show ?thesis using ok Some
        by (auto simp: st naming_step_def naming_ok_def named_here_def hash_insert_def hash_remove_def Let_def
            intro: distinct_map_filter_conj)
    next
      case False
      then show ?thesis using ok Some fresh
        by (auto simp: st naming_step_def naming_ok_def named_here_def hash_insert_def hash_remove_def Let_def nth_list_update
            intro: distinct_map_filter_conj)
    qed
  qed
qed

lemma naming_run_ok:
  "naming_ok metadataByKey opts (reserved_aliases allRows targetRows (no_keepExistingAliases opts))
     (foldl (naming_step (rows_by_number allRows) metadataByKey opts)
       (empty_naming, reserved_aliases allRows targetRows (no_keepExistingAliases opts)) targetRows)"
  by (rule foldl_invariant; (rule naming_step_ok)?) (simp_all add: naming_ok_def named_here_def empty_naming_def)

text \<open>
  Whatever rows are named at once, the aliases the plan makes up differ from one another ignoring case,
  and from every alias that stays: those of the rows not named, and all of them where existing aliases are kept.
\<close>

theorem planned_aliases_differ:
  "let plan = buildIoVariableBulkNamingPlan allRows targetRows metadataByKey opts;
       aliases = map (\<lambda>u. to_lower (snd u ! 0)) (named_here metadataByKey opts plan)
   in distinct aliases
      \<and> set aliases \<inter> set (reserved_aliases allRows targetRows (no_keepExistingAliases opts)) = {}"
  using naming_run_ok by (simp add: buildIoVariableBulkNamingPlan_def naming_ok_def Let_def)

lemma naming_counts:
  "nr_updated (buildIoVariableBulkNamingPlan allRows targetRows metadataByKey opts)
     + nr_skippedInvalidRows (buildIoVariableBulkNamingPlan allRows targetRows metadataByKey opts) = length targetRows"
proof -
  have "nr_updated (fst (foldl (naming_step h mk opts) st ns)) + nr_skippedInvalidRows (fst (foldl (naming_step h mk opts) st ns))
      = nr_updated (fst st) + nr_skippedInvalidRows (fst st) + length ns" for h mk st ns
  proof (induction ns arbitrary: st)
    case (Cons n ns)
    have "nr_updated (fst (naming_step h mk opts st n)) + nr_skippedInvalidRows (fst (naming_step h mk opts st n))
        = nr_updated (fst st) + nr_skippedInvalidRows (fst st) + 1"
      by (cases st) (simp add: naming_step_def Let_def split: option.split)
    with Cons show ?case by simp
  qed simp
  then show ?thesis by (simp add: buildIoVariableBulkNamingPlan_def empty_naming_def)
qed

text \<open>The tags are split at commas and joined with a comma and a space, so naming a row again widens its tag text.\<close>

definition no_tags_asked :: naming_options where
  "no_tags_asked = \<lparr>no_prefix = '''', no_requestedTags = [], no_includeAddress = True, no_keepExistingAliases = True,
     no_addDirectionTags = False\<rparr>"

lemma tags_gain_a_space: "join_with '', '' (new_tags no_tags_asked row [name, ''axis, torque'', '''']) = ''axis,  torque''"
proof -
  have "split_skip_empty (CHR '','') ''axis, torque'' = [''axis'', '' torque'']" by code_simp
  then show ?thesis by (simp add: new_tags_def no_tags_asked_def Let_def)
qed

end
