(* ===== verification/AlarmLog.thy ===== *)
theory AlarmLog
  imports BoundedLog QtText
begin

text \<open>
  The alarms of the studio (\<^verbatim>\<open>services/AlarmService.{h,cpp}\<close>): raising, acknowledging, clearing and the queries. The
  clock is an argument of the operations and the Qt signals are a log. Ids are integers: the \<open>int\<close> counter of the code
  would wrap after 2147483647 alarms.
\<close>

section \<open>Alarms and their service\<close>

datatype alarm_level = InfoAlarm | WarningAlarm | ErrorAlarm | CriticalAlarm
datatype alarm_category = CommunicationAlarm | DeviceAlarm | NetworkAlarm | ConfigurationAlarm
datatype alarm_state = ActiveAlarm | AcknowledgedAlarm | ClearedAlarm

record alarm =
  am_id :: int
  am_level :: alarm_level
  am_category :: alarm_category
  am_state :: alarm_state
  am_message :: string
  am_source :: string
  am_timestamp :: "int option"
  am_acknowledgedAt :: "int option"
  am_clearedAt :: "int option"

datatype alarm_signal = AlarmRaised alarm | AlarmAcknowledged int | AlarmCleared int

record alarm_service =
  as_alarms :: "alarm list"
  as_nextId :: int
  as_signals :: "alarm_signal list"

definition as_kMaxHistory :: nat where "as_kMaxHistory = 1000"

definition as_init :: alarm_service where
  "as_init = \<lparr>as_alarms = [], as_nextId = 1, as_signals = []\<rparr>"

definition new_alarm :: "int \<Rightarrow> alarm_level \<Rightarrow> alarm_category \<Rightarrow> string \<Rightarrow> string \<Rightarrow> int \<Rightarrow> alarm" where
  "new_alarm aid level category message source now =
     \<lparr>am_id = aid, am_level = level, am_category = category, am_state = ActiveAlarm, am_message = message, am_source = source,
      am_timestamp = Some now, am_acknowledgedAt = None, am_clearedAt = None\<rparr>"

definition raiseAlarm :: "alarm_level \<Rightarrow> alarm_category \<Rightarrow> string \<Rightarrow> string \<Rightarrow> int \<Rightarrow> alarm_service \<Rightarrow> int \<times> alarm_service" where
  "raiseAlarm level category message source now s =
     (let a = new_alarm (as_nextId s) level category message source now
      in (am_id a, \<lparr>as_alarms = push_pop as_kMaxHistory a (as_alarms s), as_nextId = as_nextId s + 1,
                    as_signals = as_signals s @ [AlarmRaised a]\<rparr>))"

fun update_first :: "('a \<Rightarrow> bool) \<Rightarrow> ('a \<Rightarrow> 'a) \<Rightarrow> 'a list \<Rightarrow> 'a list option" where
  \<comment> \<open>the loop over the alarms that changes the first one that fits and returns\<close>
  "update_first P f [] = None"
| "update_first P f (x # xs) = (if P x then Some (f x # xs) else map_option (Cons x) (update_first P f xs))"

definition acknowledgeAlarm :: "int \<Rightarrow> int \<Rightarrow> alarm_service \<Rightarrow> bool \<times> alarm_service" where
  "acknowledgeAlarm alarmId now s =
     (case update_first (\<lambda>a. am_id a = alarmId \<and> am_state a = ActiveAlarm)
             (\<lambda>a. a\<lparr>am_state := AcknowledgedAlarm, am_acknowledgedAt := Some now\<rparr>) (as_alarms s) of
        None \<Rightarrow> (False, s)
      | Some as \<Rightarrow> (True, s\<lparr>as_alarms := as, as_signals := as_signals s @ [AlarmAcknowledged alarmId]\<rparr>))"

definition clearAlarm :: "int \<Rightarrow> int \<Rightarrow> alarm_service \<Rightarrow> bool \<times> alarm_service" where
  "clearAlarm alarmId now s =
     (case update_first (\<lambda>a. am_id a = alarmId \<and> am_state a \<noteq> ClearedAlarm)
             (\<lambda>a. a\<lparr>am_state := ClearedAlarm, am_clearedAt := Some now\<rparr>) (as_alarms s) of
        None \<Rightarrow> (False, s)
      | Some as \<Rightarrow> (True, s\<lparr>as_alarms := as, as_signals := as_signals s @ [AlarmCleared alarmId]\<rparr>))"

definition activeAlarms :: "alarm_service \<Rightarrow> alarm list" where
  "activeAlarms s = filter (\<lambda>a. am_state a = ActiveAlarm) (as_alarms s)"

definition alarmHistory :: "int \<Rightarrow> alarm_service \<Rightarrow> alarm list" where
  "alarmHistory count s =
     (if count \<ge> int (length (as_alarms s)) then as_alarms s
      else drop (nat (int (length (as_alarms s)) - count)) (as_alarms s))"

definition no_alarm :: alarm where
  "no_alarm = \<lparr>am_id = 0, am_level = InfoAlarm, am_category = CommunicationAlarm, am_state = ActiveAlarm, am_message = '''',
     am_source = '''', am_timestamp = None, am_acknowledgedAt = None, am_clearedAt = None\<rparr>"

definition alarmById :: "int \<Rightarrow> alarm_service \<Rightarrow> alarm" where
  "alarmById alarmId s = (case find (\<lambda>a. am_id a = alarmId) (as_alarms s) of None \<Rightarrow> no_alarm | Some a \<Rightarrow> a)"

definition activeAlarmCount :: "alarm_service \<Rightarrow> nat" where
  "activeAlarmCount s = length (activeAlarms s)"

datatype alarm_op =
    RaiseAlarm alarm_level alarm_category string string int
  | AcknowledgeAlarm int int
  | ClearAlarm int int

fun alarm_step :: "alarm_service \<Rightarrow> alarm_op \<Rightarrow> alarm_service" where
  "alarm_step s (RaiseAlarm level category message source now) = snd (raiseAlarm level category message source now s)"
| "alarm_step s (AcknowledgeAlarm alarmId now) = snd (acknowledgeAlarm alarmId now s)"
| "alarm_step s (ClearAlarm alarmId now) = snd (clearAlarm alarmId now s)"

section \<open>The life of an alarm\<close>

fun phase :: "alarm_state \<Rightarrow> nat" where
  "phase ActiveAlarm = 0" | "phase AcknowledgedAlarm = 1" | "phase ClearedAlarm = 2"

definition grows_to :: "alarm \<Rightarrow> alarm \<Rightarrow> bool" where
  \<comment> \<open>the same alarm later on: what it says is unchanged and its state has not gone back\<close>
  "grows_to a b \<longleftrightarrow> am_id b = am_id a \<and> am_level b = am_level a \<and> am_category b = am_category a \<and> am_message b = am_message a
     \<and> am_source b = am_source a \<and> am_timestamp b = am_timestamp a \<and> phase (am_state a) \<le> phase (am_state b)"

lemma grows_to_refl [simp]: "grows_to a a"
  by (simp add: grows_to_def)

lemma grows_to_trans: "grows_to a b \<Longrightarrow> grows_to b c \<Longrightarrow> grows_to a c"
  by (simp add: grows_to_def)

definition alarms_ok :: "alarm_service \<Rightarrow> bool" where
  "alarms_ok s \<longleftrightarrow> sorted_wrt (<) (map am_id (as_alarms s)) \<and> (\<forall>a \<in> set (as_alarms s). am_id a < as_nextId s)
     \<and> length (as_alarms s) \<le> as_kMaxHistory"

lemma update_first_all2:
  "update_first P f xs = Some ys \<Longrightarrow> (\<And>x. P x \<Longrightarrow> R x (f x)) \<Longrightarrow> (\<And>x. R x x) \<Longrightarrow> list_all2 R xs ys"
  by (induction xs arbitrary: ys) (auto split: if_splits simp: list_all2_same)

interpretation alarm_log: bounded_log
  "push_pop as_kMaxHistory" "\<lambda>h. h" "\<lambda>h. length h \<le> as_kMaxHistory" as_kMaxHistory
  by unfold_locales (auto simp: push_pop_last_n as_kMaxHistory_def)

lemma grown_ids: "list_all2 grows_to xs ys \<Longrightarrow> map am_id ys = map am_id xs"
  by (auto simp: list_all2_conv_all_nth grows_to_def intro: nth_equalityI)

lemma acknowledge_grows: "list_all2 grows_to (as_alarms s) (as_alarms (snd (acknowledgeAlarm i now s)))"
  unfolding acknowledgeAlarm_def
  by (auto simp: list_all2_same grows_to_def split: option.split intro: update_first_all2)

lemma clear_grows: "list_all2 grows_to (as_alarms s) (as_alarms (snd (clearAlarm i now s)))"
proof -
  have "phase x \<le> 2" for x by (cases x) simp_all
  then show ?thesis unfolding clearAlarm_def
    by (auto simp: list_all2_same grows_to_def split: option.split intro: update_first_all2)
qed

lemma next_id_kept: "as_nextId (snd (acknowledgeAlarm i now s)) = as_nextId s" "as_nextId (snd (clearAlarm i now s)) = as_nextId s"
  by (simp_all add: acknowledgeAlarm_def clearAlarm_def split: option.split)

lemma alarms_ok_grown:
  assumes "list_all2 grows_to (as_alarms s) (as_alarms s')" and "as_nextId s' = as_nextId s" and "alarms_ok s"
  shows "alarms_ok s'"
proof -
  have ids: "map am_id (as_alarms s') = map am_id (as_alarms s)" by (rule grown_ids [OF assms(1)])
  moreover have "list_all (\<lambda>i. i < as_nextId s) (map am_id (as_alarms s))"
    using assms(3) by (simp add: alarms_ok_def list_all_iff)
  ultimately have "\<forall>a \<in> set (as_alarms s'). am_id a < as_nextId s" by (metis list.pred_map list_all_iff o_apply)
  moreover have "length (as_alarms s') = length (as_alarms s)" using assms(1) by (rule list_all2_lengthD [symmetric])
  ultimately show ?thesis using assms(2,3) ids by (simp add: alarms_ok_def)
qed

lemma push_pop_sub: "set (push_pop cap x xs) \<subseteq> set (xs @ [x])"
  by (auto simp: push_pop_def Let_def dest: in_set_dropD)

lemma raise_ok: "alarms_ok s \<Longrightarrow> alarms_ok (snd (raiseAlarm level category message source now s))"
proof -
  assume ok: "alarms_ok s"
  let ?a = "new_alarm (as_nextId s) level category message source now"
  have id: "am_id ?a = as_nextId s" by (simp add: new_alarm_def)
  have len: "length (push_pop as_kMaxHistory ?a (as_alarms s)) \<le> as_kMaxHistory"
    using alarm_log.ok_push [of "as_alarms s" ?a] ok by (simp add: alarms_ok_def)
  have "sorted_wrt (<) (map am_id (as_alarms s @ [?a]))"
    using ok id by (auto simp: alarms_ok_def sorted_wrt_append)
  then have "sorted_wrt (<) (map am_id (push_pop as_kMaxHistory ?a (as_alarms s)))"
    by (simp add: push_pop_def Let_def drop_map [symmetric] sorted_wrt_drop del: map_append drop_append)
  moreover have "\<forall>b \<in> set (push_pop as_kMaxHistory ?a (as_alarms s)). am_id b < as_nextId s + 1"
    using push_pop_sub [of as_kMaxHistory ?a "as_alarms s"] ok id by (fastforce simp: alarms_ok_def)
  ultimately show ?thesis using len by (simp add: alarms_ok_def raiseAlarm_def Let_def)
qed

lemma alarm_step_ok: "alarms_ok s \<Longrightarrow> alarms_ok (alarm_step s op)"
  by (cases op) (simp_all add: raise_ok alarms_ok_grown [OF acknowledge_grows] alarms_ok_grown [OF clear_grows] next_id_kept)

lemma alarms_init_ok: "alarms_ok as_init"
  by (simp add: alarms_ok_def as_init_def)

lemma same_id_same_alarm:
  assumes "alarms_ok s" and "a \<in> set (as_alarms s)" and "b \<in> set (as_alarms s)" and "am_id a = am_id b"
  shows "a = b"
proof -
  have "distinct (map am_id (as_alarms s))" using assms(1) by (simp add: alarms_ok_def strict_sorted_iff)
  then show ?thesis using assms(2-4) by (simp add: distinct_map inj_on_def)
qed

lemma step_keeps_or_raises:
  assumes "b \<in> set (as_alarms (alarm_step s op))"
  shows "(\<exists>a \<in> set (as_alarms s). grows_to a b) \<or> am_id b = as_nextId s"
proof -
  have via: "\<exists>a \<in> set (as_alarms s). grows_to a b" if "list_all2 grows_to (as_alarms s) ys" "b \<in> set ys" for ys
    using that by (metis in_set_conv_nth list_all2_conv_all_nth)
  show ?thesis
  proof (cases op)
    case (RaiseAlarm level category message source now)
    let ?new = "new_alarm (as_nextId s) level category message source now"
    from assms RaiseAlarm have "b \<in> set (as_alarms s) \<or> b = ?new"
      using push_pop_sub [of as_kMaxHistory ?new "as_alarms s"] by (auto simp: raiseAlarm_def Let_def)
    then show ?thesis by (auto simp: new_alarm_def intro: grows_to_refl)
  next
    case (AcknowledgeAlarm i now)
    then show ?thesis using assms via [OF acknowledge_grows, of i now] by simp
  next
    case (ClearAlarm i now)
    then show ?thesis using assms via [OF clear_grows, of i now] by simp
  qed
qed

lemma next_id_grows: "as_nextId s \<le> as_nextId (alarm_step s op)"
  by (cases op) (simp_all add: next_id_kept raiseAlarm_def Let_def)

lemma run_keeps_or_raises:
  assumes "alarms_ok s" and "b \<in> set (as_alarms (foldl alarm_step s ops))"
  shows "(\<exists>a \<in> set (as_alarms s). grows_to a b) \<or> as_nextId s \<le> am_id b"
  using assms
proof (induction ops arbitrary: s)
  case (Cons op ops)
  then have "(\<exists>a \<in> set (as_alarms (alarm_step s op)). grows_to a b) \<or> as_nextId (alarm_step s op) \<le> am_id b"
    using alarm_step_ok by simp
  then show ?case
  proof
    assume "\<exists>a \<in> set (as_alarms (alarm_step s op)). grows_to a b"
    then obtain a where a: "a \<in> set (as_alarms (alarm_step s op))" "grows_to a b" by blast
    from step_keeps_or_raises [OF a(1)] show ?thesis
    proof
      assume "am_id a = as_nextId s"
      with a(2) show ?thesis by (simp add: grows_to_def)
    qed (use a(2) grows_to_trans in blast)
  next
    assume "as_nextId (alarm_step s op) \<le> am_id b"
    with next_id_grows [of s op] show ?thesis by simp
  qed
qed (auto intro: grows_to_refl)

definition alarms_reached :: "alarm_op list \<Rightarrow> alarm_service" where
  "alarms_reached ops = foldl alarm_step as_init ops"

lemma reached_ok: "alarms_ok (alarms_reached ops)"
  unfolding alarms_reached_def by (rule foldl_invariant) (simp_all add: alarms_init_ok alarm_step_ok)

text \<open>
  An alarm never comes back to life and never changes what it says: an alarm of the list that carries the id of an
  earlier one is that alarm, with the same level, category, message, source and time, in the same or a later state of
  active, acknowledged and cleared. Ids are never given twice and at most 1000 alarms are kept.
\<close>

theorem alarms_only_move_on:
  assumes "a \<in> set (as_alarms (alarms_reached ops))" and "b \<in> set (as_alarms (alarms_reached (ops @ later)))" and "am_id a = am_id b"
  shows "grows_to a b \<and> distinct (map am_id (as_alarms (alarms_reached (ops @ later))))
     \<and> length (as_alarms (alarms_reached (ops @ later))) \<le> as_kMaxHistory"
proof -
  let ?s = "alarms_reached ops" and ?t = "alarms_reached (ops @ later)"
  have ok: "alarms_ok ?s" "alarms_ok ?t" by (rule reached_ok)+
  have "b \<in> set (as_alarms (foldl alarm_step ?s later))" using assms(2) by (simp add: alarms_reached_def)
  from run_keeps_or_raises [OF ok(1) this] have "grows_to a b"
  proof
    assume "\<exists>a' \<in> set (as_alarms ?s). grows_to a' b"
    then obtain a' where "a' \<in> set (as_alarms ?s)" "grows_to a' b" by blast
    with same_id_same_alarm [OF ok(1) assms(1), of a'] assms(3) show ?thesis by (simp add: grows_to_def)
  next
    assume "as_nextId ?s \<le> am_id b"
    with ok(1) assms(1,3) show ?thesis by (auto simp: alarms_ok_def)
  qed
  with ok(2) show ?thesis by (simp add: alarms_ok_def strict_sorted_iff)
qed

lemma alarms_only_move_on_witness:
  "let raised = RaiseAlarm ErrorAlarm DeviceAlarm ''lost'' ''bus'' 5; a = new_alarm 1 ErrorAlarm DeviceAlarm ''lost'' ''bus'' 5;
       b = a\<lparr>am_state := ClearedAlarm, am_clearedAt := Some 9\<rparr>
   in grows_to a b"
proof -
  let ?raised = "RaiseAlarm ErrorAlarm DeviceAlarm ''lost'' ''bus'' 5"
  let ?a = "new_alarm 1 ErrorAlarm DeviceAlarm ''lost'' ''bus'' 5"
  let ?b = "?a\<lparr>am_state := ClearedAlarm, am_clearedAt := Some 9\<rparr>"
  have "grows_to ?a ?b"
    by (rule alarms_only_move_on [where ops = "[?raised]" and later = "[AcknowledgeAlarm 2 6, ClearAlarm 1 9]", THEN conjunct1])
      code_simp+
  then show ?thesis by (simp only: Let_def)
qed

text \<open>An alarm can be cleared without having been acknowledged, and the history starts with the oldest alarm.\<close>

lemma active_alarm_can_be_cleared:
  "fst (clearAlarm 1 9 (alarms_reached [RaiseAlarm InfoAlarm DeviceAlarm m src 5])) = True"
  by (simp add: clearAlarm_def alarms_reached_def as_init_def raiseAlarm_def new_alarm_def push_pop_def as_kMaxHistory_def Let_def)

lemma history_is_oldest_first: "sorted_wrt (<) (map am_id (alarmHistory n (alarms_reached ops)))"
  using reached_ok [of ops] by (simp add: alarmHistory_def alarms_ok_def drop_map [symmetric] sorted_wrt_drop)

end
