(* ===== verification/NativeBackend.thy ===== *)
theory NativeBackend
  imports Backend ByteOrder "HOL-Library.Multiset"
begin

text \<open>
  The backend over the \<open>ecrt\<close> library (\<^verbatim>\<open>src/igh/EthercatNativeBackend.{h,cpp}\<close>), as it is compiled with
  \<open>HAVE_IGH\<close>, and the stub it is without. The library is the parameter \<open>ecrt\<close>: opening, reserving and
  releasing a master, the queries, and the two transfers of objects, each an answer and the world after; a
  call that returns an error is \<open>None\<close>, or its return value where the code prints it. The state holds the
  members of the class, the world outside, and a log of the calls that take and give back a master. The mutex
  is held throughout an operation, so an operation is one step.
\<close>

section \<open>The library\<close>

record ecrt_master_info =
  mi_slaveCount :: nat
  mi_linkUp :: bool
  mi_scanBusy :: bool
  mi_appTime :: u64

datatype port_desc = PortNotImplemented | PortNotConfigured | PortEBus | PortMii | PortOther

record ecrt_port =
  po_desc :: port_desc
  po_linkUp :: bool
  po_loopClosed :: bool
  po_signal :: bool

record ecrt_slave_info =
  sv_position :: u16
  sv_vendor :: u32
  sv_product :: u32
  sv_revision :: u32
  sv_serial :: u32
  sv_alias :: u16
  sv_current :: "16 word"
  sv_alState :: byte
  sv_errorFlag :: byte
  sv_syncCount :: byte
  sv_sdoCount :: u16
  sv_ports :: "ecrt_port list"
  sv_name :: string

datatype ecrt_direction = DirOutput | DirInput | DirOther

record ecrt_sync =
  sy_dir :: ecrt_direction
  sy_watchdog :: nat

record ecrt_pdo =
  pi_index :: u16
  pi_entries :: nat

record ecrt_entry =
  ei_index :: u16
  ei_subindex :: byte
  ei_bits :: byte

record 'o ecrt =
  er_open :: "int \<Rightarrow> 'o \<Rightarrow> nat option \<times> 'o"
  er_reserve :: "nat \<Rightarrow> 'o \<Rightarrow> int \<times> 'o"
  er_release :: "nat \<Rightarrow> 'o \<Rightarrow> 'o"
  er_master :: "nat \<Rightarrow> 'o \<Rightarrow> ecrt_master_info option"
  er_slave :: "nat \<Rightarrow> u16 \<Rightarrow> 'o \<Rightarrow> ecrt_slave_info option"
  er_sync :: "nat \<Rightarrow> u16 \<Rightarrow> byte \<Rightarrow> 'o \<Rightarrow> ecrt_sync option"
  er_pdo :: "nat \<Rightarrow> u16 \<Rightarrow> byte \<Rightarrow> u16 \<Rightarrow> 'o \<Rightarrow> ecrt_pdo option"
  er_pdoEntry :: "nat \<Rightarrow> u16 \<Rightarrow> byte \<Rightarrow> u16 \<Rightarrow> u16 \<Rightarrow> 'o \<Rightarrow> ecrt_entry option"
  er_upload :: "nat \<Rightarrow> u16 \<Rightarrow> u16 \<Rightarrow> byte \<Rightarrow> nat \<Rightarrow> 'o \<Rightarrow> (int \<times> byte list \<times> u32) \<times> 'o"
  er_download :: "nat \<Rightarrow> u16 \<Rightarrow> u16 \<Rightarrow> byte \<Rightarrow> byte list \<Rightarrow> 'o \<Rightarrow> (int \<times> u32) \<times> 'o"

section \<open>The backend and its master\<close>

datatype native_call = Opened nat | Released nat

record 'o native =
  nb_outside :: 'o
  nb_cachedMaster :: "nat option"
  nb_cachedMasterIndex :: int
  nb_lastFallback :: bool
  nb_lastFallbackReason :: string
  nb_calls :: "native_call list"

definition nat_init :: "'o \<Rightarrow> 'o native" where
  "nat_init w = \<lparr>nb_outside = w, nb_cachedMaster = None, nb_cachedMasterIndex = - 1, nb_lastFallback = False,
     nb_lastFallbackReason = [], nb_calls = []\<rparr>"

definition nat_release :: "'o ecrt \<Rightarrow> nat \<Rightarrow> 'o native \<Rightarrow> 'o native" where
  "nat_release ec h s = s\<lparr>nb_outside := er_release ec h (nb_outside s), nb_calls := nb_calls s @ [Released h]\<rparr>"

definition drop_cached :: "'o ecrt \<Rightarrow> 'o native \<Rightarrow> 'o native" where
  "drop_cached ec s = (case nb_cachedMaster s of
     None \<Rightarrow> s
   | Some h \<Rightarrow> (nat_release ec h s)\<lparr>nb_cachedMaster := None, nb_cachedMasterIndex := - 1\<rparr>)"

definition masterGuard :: "'o ecrt \<Rightarrow> int \<Rightarrow> 'o native \<Rightarrow> nat option \<times> 'o native" where
  "masterGuard ec index s =
     (if nb_cachedMaster s \<noteq> None \<and> nb_cachedMasterIndex s = index then (nb_cachedMaster s, s)
      else
        let s1 = drop_cached ec s; (opened, w) = er_open ec index (nb_outside s1); s2 = s1\<lparr>nb_outside := w\<rparr>
        in case opened of
             None \<Rightarrow> (None, s2)
           | Some h \<Rightarrow>
               let s3 = s2\<lparr>nb_calls := nb_calls s2 @ [Opened h]\<rparr>; (r, w') = er_reserve ec h (nb_outside s3);
                   s4 = s3\<lparr>nb_outside := w'\<rparr>
               in if r \<noteq> 0 then (None, nat_release ec h s4)
                  else (Some h, s4\<lparr>nb_cachedMaster := Some h, nb_cachedMasterIndex := index\<rparr>))"

definition leaveGuard :: "'o ecrt \<Rightarrow> nat option \<Rightarrow> 'o native \<Rightarrow> 'o native" where
  \<comment> \<open>the destructor of the guard\<close>
  "leaveGuard ec m s = (case m of None \<Rightarrow> s | Some h \<Rightarrow> if nb_cachedMaster s \<noteq> Some h then nat_release ec h s else s)"

definition master_index :: "string \<Rightarrow> int" where
  "master_index master = (if master = [] then 0 else case to_int32 master of None \<Rightarrow> 0 | Some i \<Rightarrow> i)"

definition acquireMaster :: "'o ecrt \<Rightarrow> string \<Rightarrow> 'o native \<Rightarrow> nat option \<times> 'o native" where
  "acquireMaster ec master s = masterGuard ec (master_index master) s"

definition with_master ::
  "'o ecrt \<Rightarrow> string \<Rightarrow> 'r \<Rightarrow> (nat \<Rightarrow> 'o native \<Rightarrow> 'r \<times> string option \<times> 'o native) \<Rightarrow> 'o native \<Rightarrow> 'r \<times> string option \<times> 'o native" where
  \<comment> \<open>how every operation begins and ends\<close>
  "with_master ec master failed body s =
     (case acquireMaster ec master s of
        (None, s1) \<Rightarrow> (failed, Some ''Failed to open EtherCAT master'', s1)
      | (Some h, s1) \<Rightarrow> (case body h s1 of (r, e, s2) \<Rightarrow> (r, e, leaveGuard ec (Some h) s2)))"

definition nat_destroy :: "'o ecrt \<Rightarrow> 'o native \<Rightarrow> 'o native" where
  "nat_destroy ec s = drop_cached ec s"

section \<open>Texts\<close>

definition native_line :: "string \<Rightarrow> string" where
  "native_line s = s @ [newline]"

definition alStateToString :: "byte \<Rightarrow> string" where
  "alStateToString st =
     (if st = 1 then ''INIT'' else if st = 2 then ''PREOP'' else if st = 4 then ''SAFEOP'' else if st = 8 then ''OP''
      else number_nat (unat st))"

definition slaveFlagsToString :: "ecrt_slave_info \<Rightarrow> string" where
  "slaveFlagsToString info = (if sv_errorFlag info \<noteq> 0 then ''E'' else '''')
     @ concat (map (\<lambda>p. if po_desc p \<noteq> PortNotImplemented then (if po_linkUp p then ''L'' else ''-'') else '''') (sv_ports info))"

definition convertSlaveInfo :: "ecrt_slave_info \<Rightarrow> slave_info" where
  "convertSlaveInfo info =
     (let state = alStateToString (sv_alState info); flags = slaveFlagsToString info
      in \<lparr>si_position = int (unat (sv_position info)), si_state = state, si_flags = flags, si_name = sv_name info,
          si_raw_line = number_nat (unat (sv_position info)) @ ''  '' @ number_nat (unat (sv_alias info)) @ ''  '' @ state @ ''  ''
            @ flags @ ''  '' @ sv_name info\<rparr>)"

definition master_report :: "ecrt_master_info \<Rightarrow> string" where
  "master_report info = native_line (''Slaves: '' @ number_nat (mi_slaveCount info))
     @ native_line (''Link: '' @ (if mi_linkUp info then ''UP'' else ''DOWN''))
     @ native_line (''Scan busy: '' @ (if mi_scanBusy info then ''yes'' else ''no''))
     @ native_line (''App time: '' @ number_nat (unat (mi_appTime info)))"

fun port_name :: "port_desc \<Rightarrow> string" where
  "port_name PortNotConfigured = ''not-configured''"
| "port_name PortEBus = ''EBus''"
| "port_name PortMii = ''MII''"
| "port_name _ = ''unknown''"

definition port_report :: "nat \<Rightarrow> ecrt_port \<Rightarrow> string" where
  "port_report n p =
     (if po_desc p = PortNotImplemented then ''''
      else native_line (''Port '' @ number_nat n @ '': '' @ port_name (po_desc p)
        @ '' link='' @ (if po_linkUp p then ''up'' else ''down'') @ '' loop='' @ (if po_loopClosed p then ''closed'' else ''open'')
        @ '' signal='' @ (if po_signal p then ''yes'' else ''no'')))"

definition slave_report :: "ecrt_slave_info \<Rightarrow> string" where
  "slave_report si = native_line (''Position: '' @ number_nat (unat (sv_position si)))
     @ native_line (''Vendor ID: 0x'' @ number_hex (unat (sv_vendor si)))
     @ native_line (''Product Code: 0x'' @ number_hex (unat (sv_product si)))
     @ native_line (''Revision: 0x'' @ number_hex (unat (sv_revision si)))
     @ native_line (''Serial: 0x'' @ number_hex (unat (sv_serial si)))
     @ native_line (''Alias: '' @ number_nat (unat (sv_alias si)))
     @ native_line (''AL State: '' @ alStateToString (sv_alState si))
     @ native_line (''Error flag: '' @ number_nat (unat (sv_errorFlag si)))
     @ native_line (''Sync managers: '' @ number_nat (unat (sv_syncCount si)))
     @ native_line (''SDO count: '' @ number_nat (unat (sv_sdoCount si)))
     @ native_line (''Name: '' @ sv_name si)
     @ native_line (''Current on EBus: '' @ number_int (sint (sv_current si)) @ '' mA'')
     @ concat (map (\<lambda>(n, p). port_report n p) (enumerate 0 (sv_ports si)))"

section \<open>Queries\<close>

definition u16_of_int :: "int \<Rightarrow> u16" where
  \<comment> \<open>\<open>static_cast<uint16_t>\<close>\<close>
  "u16_of_int i = word_of_int i"

definition nat_masterText :: "'o ecrt \<Rightarrow> string \<Rightarrow> 'o native \<Rightarrow> string \<times> string option \<times> 'o native" where
  "nat_masterText ec master = with_master ec master '''' (\<lambda>h s.
     case er_master ec h (nb_outside s) of
       None \<Rightarrow> ('''', Some ''ecrt_master() failed'', s)
     | Some info \<Rightarrow> (master_report info, None, s))"

definition slave_list :: "'o ecrt \<Rightarrow> nat \<Rightarrow> nat \<Rightarrow> 'o \<Rightarrow> slave_info list" where
  \<comment> \<open>the loop over the slaves: those that do not answer are left out\<close>
  "slave_list ec h n w =
     map convertSlaveInfo (List.map_filter (\<lambda>i. er_slave ec h (of_nat i) w) [0..<n])"

definition nat_scanSlaves :: "'o ecrt \<Rightarrow> string \<Rightarrow> 'o native \<Rightarrow> slave_info list \<times> string option \<times> 'o native" where
  "nat_scanSlaves ec master = with_master ec master [] (\<lambda>h s.
     case er_master ec h (nb_outside s) of
       None \<Rightarrow> ([], Some ''ecrt_master() failed'', s)
     | Some info \<Rightarrow> (slave_list ec h (mi_slaveCount info) (nb_outside s), None, s))"

definition nat_slaveInfo :: "'o ecrt \<Rightarrow> string \<Rightarrow> int \<Rightarrow> 'o native \<Rightarrow> string \<times> string option \<times> 'o native" where
  "nat_slaveInfo ec master position = with_master ec master '''' (\<lambda>h s.
     case er_slave ec h (u16_of_int position) (nb_outside s) of
       None \<Rightarrow> ('''', Some ''ecrt_master_get_slave() failed'', s)
     | Some si \<Rightarrow> (slave_report si, None, s))"

fun direction_name :: "ecrt_direction \<Rightarrow> string" where
  "direction_name DirOutput = ''OUTPUT''"
| "direction_name DirInput = ''INPUT''"
| "direction_name DirOther = ''???''"

definition entry_line :: "ecrt_entry \<Rightarrow> string" where
  "entry_line e = native_line (''    0x'' @ number_hex (unat (ei_index e)) @ '':'' @ number_nat (unat (ei_subindex e)) @ '' (''
     @ number_nat (unat (ei_bits e)) @ '' bit)'')"

fun entry_lines :: "(u16 \<Rightarrow> ecrt_entry option) \<Rightarrow> nat \<Rightarrow> nat \<Rightarrow> string" where
  \<comment> \<open>from entry \<open>e\<close> on, with \<open>k\<close> still to come; the first that does not answer ends it\<close>
  "entry_lines get e 0 = ''''"
| "entry_lines get e (Suc k) = (case get (of_nat e) of None \<Rightarrow> '''' | Some x \<Rightarrow> entry_line x @ entry_lines get (Suc e) k)"

definition pdo_block :: "'o ecrt \<Rightarrow> nat \<Rightarrow> u16 \<Rightarrow> byte \<Rightarrow> 'o \<Rightarrow> ecrt_pdo \<Rightarrow> u16 \<Rightarrow> string" where
  "pdo_block ec h pos sm w pdo p =
     native_line (''  PDO 0x'' @ number_hex (unat (pi_index pdo)) @ '' ('' @ number_nat (pi_entries pdo) @ '' entries)'')
     @ entry_lines (\<lambda>e. er_pdoEntry ec h pos sm p e w) 0 (pi_entries pdo)"

partial_function (option) pdo_loop :: "(u16 \<Rightarrow> ecrt_pdo option) \<Rightarrow> (ecrt_pdo \<Rightarrow> u16 \<Rightarrow> string) \<Rightarrow> nat \<Rightarrow> string \<Rightarrow> string option" where
  \<comment> \<open>\<open>for (p = 0;; ++p)\<close>: it ends at the first position that does not answer\<close>
  "pdo_loop get show p text =
     (case get (of_nat p) of None \<Rightarrow> Some text | Some pdo \<Rightarrow> pdo_loop get show (Suc p) (text @ show pdo (of_nat p)))"

fun sync_loop :: "'o ecrt \<Rightarrow> nat \<Rightarrow> u16 \<Rightarrow> 'o \<Rightarrow> nat list \<Rightarrow> string \<Rightarrow> string option" where
  "sync_loop ec h pos w [] text = Some text"
| "sync_loop ec h pos w (sm # sms) text =
     (case er_sync ec h pos (of_nat sm) w of
        None \<Rightarrow> sync_loop ec h pos w sms text
      | Some sync \<Rightarrow>
          (case pdo_loop (\<lambda>p. er_pdo ec h pos (of_nat sm) p w) (pdo_block ec h pos (of_nat sm) w) 0
                  (text @ native_line (''SM'' @ number_nat sm @ '' dir='' @ direction_name (sy_dir sync) @ '' wd=''
                     @ number_nat (sy_watchdog sync))) of
             None \<Rightarrow> None
           | Some text' \<Rightarrow> sync_loop ec h pos w sms text'))"

definition nat_pdos :: "'o ecrt \<Rightarrow> string \<Rightarrow> int \<Rightarrow> 'o native \<Rightarrow> string \<times> string option \<times> 'o native" where
  \<comment> \<open>a listing that never ends, which needs 65536 positions that all answer, is given as the empty text\<close>
  "nat_pdos ec master position = with_master ec master '''' (\<lambda>h s.
     case er_slave ec h (u16_of_int position) (nb_outside s) of
       None \<Rightarrow> ('''', Some ''ecrt_master_get_slave() failed'', s)
     | Some si \<Rightarrow>
         (case sync_loop ec h (u16_of_int position) (nb_outside s) [0..<unat (sv_syncCount si)] '''' of
            None \<Rightarrow> ('''', None, s)
          | Some text \<Rightarrow> (text, None, s)))"

section \<open>Object transfers\<close>

datatype sdo_type = UnsignedOf nat | SignedOf nat | TextObject | RawObject

definition type_names :: "(string \<times> sdo_type) list" where
  "type_names = [(''uint8'', UnsignedOf 1), (''u8'', UnsignedOf 1), (''uint16'', UnsignedOf 2), (''u16'', UnsignedOf 2),
     (''uint32'', UnsignedOf 4), (''u32'', UnsignedOf 4), (''int8'', SignedOf 1), (''s8'', SignedOf 1),
     (''int16'', SignedOf 2), (''s16'', SignedOf 2), (''int32'', SignedOf 4), (''s32'', SignedOf 4),
     (''string'', TextObject), (''visible_string'', TextObject)]"

definition sdo_type_of :: "string \<Rightarrow> sdo_type" where
  "sdo_type_of type = (case map_of type_names (to_lower (trimmed type)) of None \<Rightarrow> RawObject | Some t \<Rightarrow> t)"

definition MAX_SDO_DATA_SIZE :: nat where "MAX_SDO_DATA_SIZE = 4096"

definition byte_char :: "byte \<Rightarrow> char" where "byte_char b = char_of (unat b)"
definition char_byte :: "char \<Rightarrow> byte" where "char_byte c = of_nat (code_of c)"

definition hex_dump :: "byte list \<Rightarrow> string" where
  "hex_dump bs = concat (map (\<lambda>b. hex_field 2 (unat b)) bs)"

fun shown_value :: "sdo_type \<Rightarrow> byte list \<Rightarrow> string" where
  \<comment> \<open>an answer too short for its type is dumped\<close>
  "shown_value (UnsignedOf k) bs = (if length bs \<ge> k then number_nat (le_value (take k bs)) else hex_dump bs)"
| "shown_value (SignedOf k) bs = (if length bs \<ge> k then number_int (signed_value k (le_value (take k bs))) else hex_dump bs)"
| "shown_value TextObject bs = map byte_char bs"
| "shown_value RawObject bs = hex_dump bs"

definition abort_text :: "string \<Rightarrow> int \<Rightarrow> u32 \<Rightarrow> string" where
  "abort_text what ret code = ''SDO '' @ what @ '' failed (ret='' @ number_int ret @ '', abort=0x'' @ hex_field 8 (unat code) @ '')''"

definition parsed_address :: "string \<Rightarrow> string \<Rightarrow> string + u16 \<times> byte" where
  "parsed_address index subIndex =
     (case to_uint (2 ^ 16) 16 index of
        None \<Rightarrow> Inl (''Invalid SDO index: '' @ index)
      | Some idx \<Rightarrow>
          (case to_uint (2 ^ 16) 16 subIndex of
             None \<Rightarrow> Inl (''Invalid SDO subindex: '' @ subIndex)
           | Some sub \<Rightarrow> Inr (of_nat idx, of_nat sub)))"

definition nat_upload ::
  "'o ecrt \<Rightarrow> string \<Rightarrow> int \<Rightarrow> string \<Rightarrow> string \<Rightarrow> string \<Rightarrow> 'o native \<Rightarrow> string \<times> string option \<times> 'o native" where
  "nat_upload ec master position index subIndex type = with_master ec master '''' (\<lambda>h s.
     case parsed_address index subIndex of
       Inl e \<Rightarrow> ('''', Some e, s)
     | Inr (idx, sub) \<Rightarrow>
         (case er_upload ec h (u16_of_int position) idx sub MAX_SDO_DATA_SIZE (nb_outside s) of
            ((ret, bs, abortCode), w) \<Rightarrow>
              let s' = s\<lparr>nb_outside := w\<rparr>
              in if ret \<noteq> 0 then ('''', Some (abort_text ''upload'' ret abortCode), s')
                 else if bs = [] then ('''', None, s')
                 else (shown_value (sdo_type_of type) bs, None, s')))"

fun pair_digits :: "nat list \<Rightarrow> byte list" where
  \<comment> \<open>from the last digit on: a single one left in front is a byte of its own\<close>
  "pair_digits (lo # hi # ds) = pair_digits ds @ [of_nat (16 * hi + lo)]"
| "pair_digits [lo] = [of_nat lo]"
| "pair_digits [] = []"

definition from_hex :: "string \<Rightarrow> byte list" where
  \<comment> \<open>\<open>QByteArray::fromHex\<close>: other characters are skipped\<close>
  "from_hex s = pair_digits (rev (map digit_val (filter is_hex s)))"

definition raw_bytes :: "string \<Rightarrow> byte list" where
  "raw_bytes v = (let hex = trimmed v
     in from_hex (if starts_with ''0x'' hex \<or> starts_with ''0X'' hex then drop 2 hex else hex))"

definition bits_name :: "nat \<Rightarrow> string" where
  "bits_name k = number_nat (8 * k)"

fun object_bytes :: "sdo_type \<Rightarrow> string \<Rightarrow> string + byte list" where
  "object_bytes (UnsignedOf k) v = (case to_uint32 v of
     None \<Rightarrow> Inl (''Invalid uint'' @ bits_name k @ '' value'') | Some n \<Rightarrow> Inr (le_bytes k n))"
| "object_bytes (SignedOf k) v = (case to_int32 v of
     None \<Rightarrow> Inl (''Invalid int'' @ bits_name k @ '' value'') | Some i \<Rightarrow> Inr (le_bytes k (wrapped k i)))"
| "object_bytes TextObject v = Inr (take MAX_SDO_DATA_SIZE (map char_byte v))"
| "object_bytes RawObject v = Inr (take MAX_SDO_DATA_SIZE (raw_bytes v))"

definition nat_download ::
  "'o ecrt \<Rightarrow> string \<Rightarrow> int \<Rightarrow> string \<Rightarrow> string \<Rightarrow> string \<Rightarrow> string \<Rightarrow> 'o native \<Rightarrow> bool \<times> string option \<times> 'o native" where
  "nat_download ec master position index subIndex v type = with_master ec master False (\<lambda>h s.
     case parsed_address index subIndex of
       Inl e \<Rightarrow> (False, Some e, s)
     | Inr (idx, sub) \<Rightarrow>
         (case object_bytes (sdo_type_of type) v of
            Inl e \<Rightarrow> (False, Some e, s)
          | Inr bs \<Rightarrow>
              (case er_download ec h (u16_of_int position) idx sub bs (nb_outside s) of
                 ((ret, abortCode), w) \<Rightarrow>
                   let s' = s\<lparr>nb_outside := w\<rparr>
                   in if ret \<noteq> 0 then (False, Some (abort_text ''download'' ret abortCode), s')
                      else (True, None, s'))))"

section \<open>What is left to the command line tool\<close>

definition fallback :: "string \<Rightarrow> ('o \<Rightarrow> 'r \<times> string option \<times> 'o) \<Rightarrow> 'o native \<Rightarrow> 'r \<times> string option \<times> 'o native" where
  "fallback reason f s =
     (case f (nb_outside s) of
        (r, e, w) \<Rightarrow> (r, e, s\<lparr>nb_lastFallback := True, nb_lastFallbackReason := reason, nb_outside := w\<rparr>))"

definition nat_slaveXml :: "'o proc \<Rightarrow> string \<Rightarrow> int \<Rightarrow> 'o native \<Rightarrow> string \<times> string option \<times> 'o native" where
  "nat_slaveXml proc master position = fallback ''ecrt API does not expose ESI XML'' (cli_slaveXml proc master position)"

definition nat_sdos :: "'o proc \<Rightarrow> string \<Rightarrow> int \<Rightarrow> 'o native \<Rightarrow> string \<times> string option \<times> 'o native" where
  "nat_sdos proc master position =
     fallback ''ecrt API does not support SDO dictionary enumeration'' (cli_sdos proc master position)"

definition nat_setState :: "'o proc \<Rightarrow> string \<Rightarrow> int \<Rightarrow> string \<Rightarrow> 'o native \<Rightarrow> bool \<times> string option \<times> 'o native" where
  "nat_setState proc master position state =
     fallback ''ecrt API does not support AL state transitions'' (cli_setState proc master position state)"

definition nat_setAllStates :: "'o proc \<Rightarrow> string \<Rightarrow> string \<Rightarrow> 'o native \<Rightarrow> bool \<times> string option \<times> 'o native" where
  "nat_setAllStates proc master state =
     fallback ''ecrt API does not support AL state transitions'' (cli_setAllStates proc master state)"

definition nat_rescan :: "'o proc \<Rightarrow> string \<Rightarrow> 'o native \<Rightarrow> bool \<times> string option \<times> 'o native" where
  "nat_rescan proc master = fallback ''ecrt API does not have a rescan API'' (cli_rescan proc master)"

definition native_check :: "string \<Rightarrow> string \<Rightarrow> string \<Rightarrow> json" where
  "native_check level message hint = JObj [(''level'', JStr level), (''source'', JStr ''Native API''),
     (''message'', JStr message), (''hint'', JStr hint)]"

definition nat_hostDiagnostics ::
  "'o ecrt \<Rightarrow> ('o \<Rightarrow> json list \<times> string option \<times> 'o) \<Rightarrow> 'o native \<Rightarrow> json list \<times> string option \<times> 'o native" where
  "nat_hostDiagnostics ec diag s =
     (case er_open ec 0 (nb_outside s) of
        (opened, w) \<Rightarrow>
          let s1 = s\<lparr>nb_outside := w\<rparr>;
              (check, s2) = (case opened of
                 Some h \<Rightarrow> (native_check ''Info'' ''ecrt_open_master(0) succeeded'' ''Master is accessible via the native ecrt API.'',
                            nat_release ec h (s1\<lparr>nb_calls := nb_calls s1 @ [Opened h]\<rparr>))
               | None \<Rightarrow> (native_check ''Error'' ''ecrt_open_master(0) failed''
                            ''Check /dev/EtherCAT0 permissions and ec_master module.'', s1))
          in case diag (nb_outside s2) of (checks, e, w') \<Rightarrow> (check # checks, e, s2\<lparr>nb_outside := w'\<rparr>))"

definition native_service :: "'o ecrt \<Rightarrow> 'o proc \<Rightarrow> ('o \<Rightarrow> json list \<times> string option \<times> 'o) \<Rightarrow> 'o native ecat_service" where
  "native_service ec proc diag = \<lparr>
     masterText = nat_masterText ec, scanSlaves = nat_scanSlaves ec, slaveInfo = nat_slaveInfo ec,
     slaveXml = nat_slaveXml proc, pdos = nat_pdos ec, sdos = nat_sdos proc, upload = nat_upload ec,
     download = nat_download ec, setState = nat_setState proc, setAllStates = nat_setAllStates proc,
     rescan = nat_rescan proc, hostDiagnostics = nat_hostDiagnostics ec diag, isNative = True,
     lastOperationWasFallback = nb_lastFallback, lastFallbackReason = nb_lastFallbackReason\<rparr>"

section \<open>Without the library\<close>

definition not_compiled :: "'r \<Rightarrow> 'w \<Rightarrow> 'r \<times> string option \<times> 'w" where
  "not_compiled r w = (r, Some ''IgH support not compiled'', w)"

definition stub_hostDiagnostics :: "('w \<Rightarrow> json list \<times> string option \<times> 'w) \<Rightarrow> 'w \<Rightarrow> json list \<times> string option \<times> 'w" where
  "stub_hostDiagnostics diag w = (case diag w of (checks, e, w') \<Rightarrow>
     (native_check ''Warning'' ''IgH ecrt support is not compiled in'' ''Install IgH EtherCAT Master headers and rebuild.''
        # checks, e, w'))"

definition stub_service :: "('w \<Rightarrow> json list \<times> string option \<times> 'w) \<Rightarrow> 'w ecat_service" where
  "stub_service diag = \<lparr>
     masterText = \<lambda>m. not_compiled '''', scanSlaves = \<lambda>m. not_compiled [], slaveInfo = \<lambda>m p. not_compiled '''',
     slaveXml = \<lambda>m p. not_compiled '''', pdos = \<lambda>m p. not_compiled '''', sdos = \<lambda>m p. not_compiled '''',
     upload = \<lambda>m p i s t. not_compiled '''', download = \<lambda>m p i s v t. not_compiled False,
     setState = \<lambda>m p st. not_compiled False, setAllStates = \<lambda>m st. not_compiled False, rescan = \<lambda>m. not_compiled False,
     hostDiagnostics = stub_hostDiagnostics diag, isNative = True, lastOperationWasFallback = \<lambda>w. False,
     lastFallbackReason = \<lambda>w. ''''\<rparr>"

section \<open>The contract\<close>

lemma with_master_error:
  "(\<And>h s. fst (body h s) \<longleftrightarrow> fst (snd (body h s)) = None) \<Longrightarrow>
   fst (with_master ec m False body s) \<longleftrightarrow> fst (snd (with_master ec m False body s)) = None"
  unfolding with_master_def by (auto split: prod.splits option.splits) (metis fst_conv snd_conv)+

lemma nat_download_error:
  "fst (nat_download ec m p i sub v t s) \<longleftrightarrow> fst (snd (nat_download ec m p i sub v t s)) = None"
  unfolding nat_download_def by (rule with_master_error) (simp add: Let_def split: sum.split prod.split)

lemma fallback_error:
  "(\<And>w. fst (f w) \<longleftrightarrow> fst (snd (f w)) = None) \<Longrightarrow> fst (fallback r f s) \<longleftrightarrow> fst (snd (fallback r f s)) = None"
  unfolding fallback_def by (auto split: prod.splits) (metis fst_conv snd_conv)+

interpretation native: ecat_contract "native_service ec proc diag" for ec proc diag
  by unfold_locales
     (simp_all add: native_service_def nat_download_error nat_setState_def nat_setAllStates_def nat_rescan_def fallback_error
       cli_setState_def cli_setAllStates_def cli_rescan_def cli_bool_error)

interpretation stub: ecat_contract "stub_service diag" for diag
  by unfold_locales (simp_all add: stub_service_def not_compiled_def)

section \<open>Masters are given back\<close>

fun after_calls :: "nat multiset \<Rightarrow> native_call list \<Rightarrow> nat multiset option" where
  \<comment> \<open>the handles held after the calls; none of them may give back what is not held\<close>
  "after_calls M [] = Some M"
| "after_calls M (Opened h # cs) = after_calls (add_mset h M) cs"
| "after_calls M (Released h # cs) = (if h \<in># M then after_calls (M - {#h#}) cs else None)"

definition cached_handles :: "'o native \<Rightarrow> nat multiset" where
  "cached_handles s = (case nb_cachedMaster s of None \<Rightarrow> {#} | Some h \<Rightarrow> {#h#})"

definition balanced :: "'o native \<Rightarrow> bool" where
  "balanced s \<longleftrightarrow> after_calls {#} (nb_calls s) = Some (cached_handles s)"

lemma after_calls_append: "after_calls M (cs @ ds) = Option.bind (after_calls M cs) (\<lambda>N. after_calls N ds)"
  by (induction M cs rule: after_calls.induct) simp_all

lemma balanced_cong:
  "nb_calls s' = nb_calls s \<Longrightarrow> nb_cachedMaster s' = nb_cachedMaster s \<Longrightarrow> balanced s' = balanced s"
  by (simp add: balanced_def cached_handles_def)

lemma balanced_drop: "balanced s \<Longrightarrow> balanced (drop_cached ec s) \<and> nb_cachedMaster (drop_cached ec s) = None"
  by (cases "nb_cachedMaster s")
     (simp_all add: balanced_def cached_handles_def drop_cached_def nat_release_def after_calls_append)

lemma masterGuard_balanced:
  assumes "balanced s" and "masterGuard ec index s = (m, s')"
  shows "balanced s' \<and> (\<forall>h. m = Some h \<longrightarrow> nb_cachedMaster s' = Some h)"
proof (cases "nb_cachedMaster s \<noteq> None \<and> nb_cachedMasterIndex s = index")
  case True
  then show ?thesis using assms by (auto simp: masterGuard_def)
next
  case False
  let ?s1 = "drop_cached ec s"
  have b: "after_calls {#} (nb_calls ?s1) = Some {#}" "nb_cachedMaster ?s1 = None"
    using balanced_drop [OF assms(1), of ec] by (simp_all add: balanced_def cached_handles_def)
  show ?thesis
    using assms(2) False b
    by (auto simp: masterGuard_def balanced_def cached_handles_def nat_release_def after_calls_append Let_def
        split: prod.splits option.splits if_splits)
qed

lemma with_master_balanced:
  assumes "balanced s" and "\<And>h s. nb_calls (snd (snd (body h s))) = nb_calls s \<and> nb_cachedMaster (snd (snd (body h s))) = nb_cachedMaster s"
  shows "balanced (snd (snd (with_master ec master failed body s)))"
proof -
  obtain m s1 where a: "masterGuard ec (master_index master) s = (m, s1)" by fastforce
  note g = masterGuard_balanced [OF assms(1) a]
  show ?thesis
  proof (cases m)
    case None
    then show ?thesis using g a by (simp add: with_master_def acquireMaster_def)
  next
    case (Some h)
    obtain r e s2 where body: "body h s1 = (r, e, s2)" by (cases "body h s1") auto
    then have kept: "nb_calls s2 = nb_calls s1" "nb_cachedMaster s2 = nb_cachedMaster s1" using assms(2) [of h s1] by simp_all
    then have "balanced s2" using g balanced_cong by blast
    moreover have "nb_cachedMaster s2 = Some h" using g Some kept by simp
    ultimately show ?thesis using a Some body by (simp add: with_master_def acquireMaster_def leaveGuard_def)
  qed
qed

datatype native_op =
    NatMasterText string
  | NatScan string
  | NatSlaveInfo string int
  | NatPdos string int
  | NatUpload string int string string string
  | NatDownload string int string string string string
  | NatSlaveXml string int
  | NatSdos string int
  | NatSetState string int string
  | NatSetAllStates string string
  | NatRescan string
  | NatDiagnostics

fun native_step :: "'o ecrt \<Rightarrow> 'o proc \<Rightarrow> ('o \<Rightarrow> json list \<times> string option \<times> 'o) \<Rightarrow> 'o native \<Rightarrow> native_op \<Rightarrow> 'o native" where
  "native_step ec proc diag s (NatMasterText m) = snd (snd (nat_masterText ec m s))"
| "native_step ec proc diag s (NatScan m) = snd (snd (nat_scanSlaves ec m s))"
| "native_step ec proc diag s (NatSlaveInfo m p) = snd (snd (nat_slaveInfo ec m p s))"
| "native_step ec proc diag s (NatPdos m p) = snd (snd (nat_pdos ec m p s))"
| "native_step ec proc diag s (NatUpload m p i sub t) = snd (snd (nat_upload ec m p i sub t s))"
| "native_step ec proc diag s (NatDownload m p i sub v t) = snd (snd (nat_download ec m p i sub v t s))"
| "native_step ec proc diag s (NatSlaveXml m p) = snd (snd (nat_slaveXml proc m p s))"
| "native_step ec proc diag s (NatSdos m p) = snd (snd (nat_sdos proc m p s))"
| "native_step ec proc diag s (NatSetState m p st) = snd (snd (nat_setState proc m p st s))"
| "native_step ec proc diag s (NatSetAllStates m st) = snd (snd (nat_setAllStates proc m st s))"
| "native_step ec proc diag s (NatRescan m) = snd (snd (nat_rescan proc m s))"
| "native_step ec proc diag s NatDiagnostics = snd (snd (nat_hostDiagnostics ec diag s))"

lemma fallback_balanced: "balanced s \<Longrightarrow> balanced (snd (snd (fallback r f s)))"
  by (simp add: fallback_def balanced_def cached_handles_def split: prod.split)

lemma diagnostics_balanced: "balanced s \<Longrightarrow> balanced (snd (snd (nat_hostDiagnostics ec diag s)))"
  by (auto simp: nat_hostDiagnostics_def balanced_def cached_handles_def nat_release_def after_calls_append Let_def
      split: prod.split option.split)

lemma native_step_balanced: "balanced s \<Longrightarrow> balanced (native_step ec proc diag s op)"
proof (cases op)
  case (NatMasterText m)
  assume "balanced s"
  then show ?thesis unfolding NatMasterText native_step.simps nat_masterText_def
    by (rule with_master_balanced) (simp split: option.split)
next
  case (NatScan m)
  assume "balanced s"
  then show ?thesis unfolding NatScan native_step.simps nat_scanSlaves_def
    by (rule with_master_balanced) (simp split: option.split)
next
  case (NatSlaveInfo m p)
  assume "balanced s"
  then show ?thesis unfolding NatSlaveInfo native_step.simps nat_slaveInfo_def
    by (rule with_master_balanced) (simp split: option.split)
next
  case (NatPdos m p)
  assume "balanced s"
  then show ?thesis unfolding NatPdos native_step.simps nat_pdos_def
    by (rule with_master_balanced) (simp split: option.split)
next
  case (NatUpload m p i sub t)
  assume "balanced s"
  then show ?thesis unfolding NatUpload native_step.simps nat_upload_def
    by (rule with_master_balanced) (simp add: Let_def split: sum.split prod.split)
next
  case (NatDownload m p i sub v t)
  assume "balanced s"
  then show ?thesis unfolding NatDownload native_step.simps nat_download_def
    by (rule with_master_balanced) (simp add: Let_def split: sum.split prod.split)
qed (simp_all add: nat_slaveXml_def nat_sdos_def nat_setState_def nat_setAllStates_def nat_rescan_def
    fallback_balanced diagnostics_balanced)

text \<open>
  Claim C26 (safety). The native backend's masters balance: over any sequence of operations, with whatever the library answers, it
  releases only handles it has opened, holds nothing between two operations but the one cached master, and
  its destruction gives that one back too.
\<close>

theorem native_masters_balance:
  "let s = foldl (native_step ec proc diag) (nat_init w) ops
   in after_calls {#} (nb_calls s) = Some (cached_handles s) \<and> after_calls {#} (nb_calls (nat_destroy ec s)) = Some {#}"
proof -
  have "balanced (foldl (native_step ec proc diag) (nat_init w) ops)"
    by (rule foldl_invariant) (simp_all add: native_step_balanced, simp add: balanced_def cached_handles_def nat_init_def)
  then show ?thesis
    using balanced_drop [of _ ec] by (simp add: Let_def nat_destroy_def balanced_def cached_handles_def)
qed

section \<open>Objects come back as they were written\<close>

fun canonical :: "sdo_type \<Rightarrow> string \<Rightarrow> bool" where
  \<comment> \<open>the texts that stand for a value of the type\<close>
  "canonical (UnsignedOf k) v \<longleftrightarrow> (\<exists>n < 256 ^ k. v = number_nat n)"
| "canonical (SignedOf k) v \<longleftrightarrow> (\<exists>i. - (256 ^ k) \<le> 2 * i \<and> 2 * i < 256 ^ k \<and> v = number_int i)"
| "canonical TextObject v \<longleftrightarrow> v \<noteq> '''' \<and> length v \<le> MAX_SDO_DATA_SIZE"
| "canonical RawObject v \<longleftrightarrow> (\<exists>bs. bs \<noteq> [] \<and> length bs \<le> MAX_SDO_DATA_SIZE \<and> v = hex_dump bs)"

lemma byte_char_char_byte: "byte_char (char_byte c) = c"
proof -
  have "code_of c < 256" by (simp add: code_of_def)
  then have "unat (of_nat (code_of c) :: byte) = code_of c" by (simp add: unat_of_nat)
  then show ?thesis by (simp add: byte_char_def char_byte_def code_of_def)
qed

lemma pair_digits_front: "even (length ds) \<Longrightarrow> pair_digits (ds @ [lo, hi]) = of_nat (16 * hi + lo) # pair_digits ds"
  by (induction ds rule: pair_digits.induct) simp_all

lemma hex_byte: "hex_field 2 (unat (b :: byte)) = [digit_char (unat b div 16), digit_char (unat b mod 16)]"
proof -
  have b: "unat b < 256" by (rule unat_byte)
  have zero: "CHR ''0'' = digit_char 0" by code_simp
  show ?thesis
  proof (cases "unat b < 16")
    case True
    then have "number_hex (unat b) = [digit_char (unat b)]" by (simp add: number_hex_def digits_base.simps)
    then show ?thesis using True by (simp add: hex_field_def right_justified_def zero numeral_2_eq_2)
  next
    case False
    have "digits_base 16 (unat b div 16) = [digit_char (unat b div 16)]" using b by (simp add: digits_base.simps)
    then have "number_hex (unat b) = [digit_char (unat b div 16), digit_char (unat b mod 16)]"
      using False by (simp add: number_hex_def digits_base.simps [of 16 "unat b"])
    then show ?thesis by (simp add: hex_field_def right_justified_def)
  qed
qed

lemma hex_dump_digits: "map digit_val (hex_dump bs) = concat (map (\<lambda>b. [unat b div 16, unat b mod 16]) bs)"
proof (induction bs)
  case (Cons b bs)
  have "unat b div 16 < 36" "unat b mod 16 < 36" using unat_byte [of b] by (simp_all add: less_mult_imp_div_less)
  then show ?case using Cons by (simp add: hex_dump_def hex_byte)
qed (simp add: hex_dump_def)

lemma from_hex_digits: "pair_digits (rev (concat (map (\<lambda>b. [unat b div 16, unat b mod 16]) bs))) = bs"
proof (induction bs)
  case (Cons b bs)
  let ?ds = "rev (concat (map (\<lambda>b. [unat b div 16, unat b mod 16]) bs))"
  have "even (length (concat (map (\<lambda>b. [unat b div 16, unat b mod 16]) bs)))" for bs :: "byte list" by (induction bs) simp_all
  then have "pair_digits (?ds @ [unat b mod 16, unat b div 16]) = of_nat (16 * (unat b div 16) + unat b mod 16) # pair_digits ?ds"
    by (intro pair_digits_front) simp
  then show ?case using Cons by simp
qed simp

lemma hex_dump_chars:
  assumes "c \<in> set (hex_dump bs)"
  shows "is_hex c \<and> \<not> is_space c \<and> c \<noteq> CHR ''x'' \<and> c \<noteq> CHR ''X''"
proof -
  from assms have "\<exists>b \<in> set bs. c = digit_char (unat b div 16) \<or> c = digit_char (unat b mod 16)"
    by (auto simp: hex_dump_def hex_byte)
  then obtain b :: byte where "c = digit_char (unat b div 16) \<or> c = digit_char (unat b mod 16)" by blast
  moreover have "unat b div 16 < 16" "unat b mod 16 < 16" using unat_byte [of b] by (simp_all add: less_mult_imp_div_less)
  ultimately obtain d where d: "d < 16" "c = digit_char d" by blast
  moreover have "code_of (CHR ''x'') = 120 \<and> code_of (CHR ''X'') = 88" by code_simp
  ultimately show ?thesis
    using digit_char_not_space [of d] by (auto simp: is_hex_def code_digit_char dest!: arg_cong [where f = code_of] split: if_splits)
qed

lemma raw_bytes_dump: "raw_bytes (hex_dump bs) = bs"
proof -
  have "trimmed (hex_dump bs) = hex_dump bs" using hex_dump_chars by (intro trimmed_id) blast
  moreover have "\<not> starts_with ''0x'' (hex_dump bs)" "\<not> starts_with ''0X'' (hex_dump bs)"
    using hex_dump_chars [of _ bs] by (force simp: starts_with_iff)+
  moreover have "filter is_hex (hex_dump bs) = hex_dump bs" using hex_dump_chars by (auto simp: filter_id_conv)
  ultimately show ?thesis by (simp add: raw_bytes_def from_hex_def hex_dump_digits from_hex_digits)
qed

lemma hex_dump_Nil: "hex_dump bs = '''' \<longleftrightarrow> bs = []"
  by (cases bs) (simp_all add: hex_dump_def hex_byte)

lemma widths: "sdo_type_of t = UnsignedOf k \<or> sdo_type_of t = SignedOf k \<Longrightarrow> 0 < k \<and> (256 :: int) ^ k \<le> 2 ^ 32"
proof -
  have "list_all (\<lambda>(n, t). case t of UnsignedOf k \<Rightarrow> k \<in> {1, 2, 4} | SignedOf k \<Rightarrow> k \<in> {1, 2, 4} | _ \<Rightarrow> True) type_names"
    by (simp add: type_names_def)
  moreover assume "sdo_type_of t = UnsignedOf k \<or> sdo_type_of t = SignedOf k"
  then have "\<exists>n. (n, UnsignedOf k) \<in> set type_names \<or> (n, SignedOf k) \<in> set type_names"
    by (auto simp: sdo_type_of_def split: option.splits dest!: map_of_SomeD)
  ultimately have "k \<in> {1, 2, 4}" by (fastforce simp: list_all_iff)
  then show ?thesis by auto
qed

lemma bytes_shown:
  assumes "canonical (sdo_type_of t) v"
  shows "\<exists>bs. bs \<noteq> [] \<and> object_bytes (sdo_type_of t) v = Inr bs \<and> shown_value (sdo_type_of t) bs = v"
proof (cases "sdo_type_of t")
  case (UnsignedOf k)
  then obtain n where n: "n < 256 ^ k" "v = number_nat n" using assms by auto
  have k: "0 < k" "(256 :: int) ^ k \<le> 2 ^ 32" using widths UnsignedOf by auto
  have "int (256 ^ k) \<le> int (2 ^ 32)" using k(2) by simp
  then have "(256 :: nat) ^ k \<le> 2 ^ 32" by (simp only: of_nat_le_iff)
  then have "to_uint32 v = Some n" using n by (simp only: to_uint_number_nat)
  moreover have "le_bytes k n \<noteq> []" using k(1) by (cases k) simp_all
  ultimately show ?thesis using n UnsignedOf by (simp add: le_value_bytes)
next
  case (SignedOf k)
  then obtain i where i: "- (256 ^ k) \<le> 2 * i" "2 * i < 256 ^ k" "v = number_int i" using assms by auto
  have k: "0 < k" "(256 :: int) ^ k \<le> 2 ^ 32" using widths SignedOf by auto
  have "- (2 ^ 31) \<le> i" "i < 2 ^ 31" using i(1,2) k(2) by simp_all
  then have "to_int32 v = Some i" using i(3) to_sint_number_int by simp
  moreover have "le_bytes k (wrapped k i) \<noteq> []" using k(1) by (cases k) simp_all
  moreover have "le_value (le_bytes k (wrapped k i)) = wrapped k i" by (simp add: le_value_bytes wrapped_bound)
  ultimately show ?thesis using SignedOf i signed_wrapped [OF k(1) i(1,2)] by simp
next
  case TextObject
  then show ?thesis using assms by (simp add: byte_char_char_byte comp_def)
next
  case RawObject
  then obtain bs where "bs \<noteq> []" "length bs \<le> MAX_SDO_DATA_SIZE" "v = hex_dump bs" using assms by auto
  then show ?thesis using RawObject by (simp add: raw_bytes_dump)
qed

text \<open>
  Claim C27 (roundtrip). What is written to an object is read back: for each type name of the code and a text that stands for a value
  of that type - a decimal number in its range, signed or not, a Latin-1 text, or a hexadecimal dump - where the
  master opens and the index and sub-index parse, a download over a slave that keeps what is written succeeds, and an upload of the same type answers that text. The slave is
  the named hypothesis: its object holds the bytes last written, and reading leaves it alone.
\<close>

theorem native_sdo_roundtrip:
  assumes opened: "acquireMaster ec master s = (Some h, s1)"
    and address: "parsed_address index subIndex = Inr (idx, sub)"
    and kept: "\<And>bs. er_download ec h (u16_of_int position) idx sub bs (nb_outside s1) = ((0, 0), put bs)"
    and read: "\<And>bs. er_upload ec h (u16_of_int position) idx sub MAX_SDO_DATA_SIZE (put bs) = ((0, bs, 0), put bs)"
    and val: "canonical (sdo_type_of type) v"
  shows "\<exists>s2. nat_download ec master position index subIndex v type s = (True, None, s2)
     \<and> fst (nat_upload ec master position index subIndex type s2) = v
     \<and> fst (snd (nat_upload ec master position index subIndex type s2)) = None"
proof -
  from bytes_shown [OF val] obtain bs where bs: "bs \<noteq> []" "object_bytes (sdo_type_of type) v = Inr bs"
    "shown_value (sdo_type_of type) bs = v" by blast
  let ?s2 = "s1\<lparr>nb_outside := put bs\<rparr>"
  have cached: "nb_cachedMaster s1 = Some h \<and> nb_cachedMasterIndex s1 = master_index master"
    using opened unfolding acquireMaster_def masterGuard_def
    by (auto simp: Let_def split: prod.splits option.splits if_splits)
  then have again: "acquireMaster ec master ?s2 = (Some h, ?s2)"
    by (simp add: acquireMaster_def masterGuard_def)
  have "nat_download ec master position index subIndex v type s = (True, None, ?s2)"
    using opened cached by (simp add: nat_download_def with_master_def address bs kept leaveGuard_def)
  moreover have "nat_upload ec master position index subIndex type ?s2 = (v, None, ?s2)"
    using again cached bs by (simp add: nat_upload_def with_master_def address read leaveGuard_def)
  ultimately show ?thesis by simp
qed

definition memory_ecrt :: "byte list ecrt" where
  "memory_ecrt = \<lparr>er_open = \<lambda>i w. (Some 7, w), er_reserve = \<lambda>h w. (0, w), er_release = \<lambda>h w. w, er_master = \<lambda>h w. None,
     er_slave = \<lambda>h p w. None, er_sync = \<lambda>h p sm w. None, er_pdo = \<lambda>h p sm q w. None, er_pdoEntry = \<lambda>h p sm q e w. None,
     er_upload = \<lambda>h p i sub n w. ((0, w, 0), w), er_download = \<lambda>h p i sub bs w. ((0, 0), bs)\<rparr>"

theorem native_sdo_roundtrip_witness:
  "\<exists>s2. nat_download memory_ecrt ''0'' 1 ''0x6040'' ''0'' ''-2'' ''int16'' (nat_init []) = (True, None, s2)
     \<and> fst (nat_upload memory_ecrt ''0'' 1 ''0x6040'' ''0'' ''int16'' s2) = ''-2''"
proof -
  have opened: "acquireMaster memory_ecrt ''0'' (nat_init [])
      = (Some 7, (nat_init [])\<lparr>nb_calls := [Opened 7], nb_cachedMaster := Some 7, nb_cachedMasterIndex := master_index ''0''\<rparr>)"
    by (simp add: acquireMaster_def masterGuard_def nat_init_def memory_ecrt_def drop_cached_def)
  have parts: "parse_base 16 (strip_plus (trimmed ''0x6040'')) = Some 24640" "parse_base 16 (strip_plus (trimmed ''0'')) = Some 0"
    by (simp_all add: parse_base_def strip_plus_def trimmed_def parse_nat_def all_digits_def strip_hex_prefix_def starts_with_ci_def
        starts_with_def to_lower_def to_lower_char_def is_space_def digit_val_def code_of_def)
  then have address: "parsed_address ''0x6040'' ''0'' = Inr (of_nat 24640, of_nat 0)"
    by (simp add: parsed_address_def to_uint_def)
  have type: "sdo_type_of ''int16'' = SignedOf 2" by code_simp
  have "''-2'' = number_int (- 2)" by code_simp
  then have "canonical (sdo_type_of ''int16'') ''-2''" unfolding type by (simp) (rule exI [of _ "- 2"], simp)
  from native_sdo_roundtrip [OF opened address _ _ this, of 1 "\<lambda>bs. bs"] show ?thesis
    by (auto simp: memory_ecrt_def nat_init_def)
qed

section \<open>What is cut off\<close>

text \<open>
  A number that does not fit its type but 32 bits is written modulo the type's width, without an error; a sub-index
  beyond 255 and a position beyond 65535 address what is left of them.
\<close>

lemma written_modulo: "object_bytes (UnsignedOf k) v = Inr bs \<Longrightarrow> to_uint32 v = Some n \<Longrightarrow> le_value bs = n mod 256 ^ k"
  by (auto simp: le_value_bytes)

lemma uint8_is_cut: "object_bytes (sdo_type_of ''uint8'') (number_nat 300) = Inr [44]"
proof -
  have "sdo_type_of ''uint8'' = UnsignedOf 1" by code_simp
  moreover have "to_uint32 (number_nat 300) = Some 300" by (rule to_uint_number_nat) simp
  ultimately show ?thesis by simp
qed

lemma position_is_cut: "nat_slaveInfo ec m (p + 65536) s = nat_slaveInfo ec m p s"
proof -
  have "u16_of_int (p + 65536) = u16_of_int p" by (simp add: u16_of_int_def)
  then show ?thesis by (simp add: nat_slaveInfo_def)
qed

text \<open>Once an operation was left to the tool, every later one counts as left to it.\<close>

lemma with_master_fallback:
  assumes "\<And>h s. nb_lastFallback (snd (snd (body h s))) = nb_lastFallback s"
  shows "nb_lastFallback (snd (snd (with_master ec master failed body s))) = nb_lastFallback s"
proof -
  have "nb_lastFallback (snd (masterGuard ec i s)) = nb_lastFallback s" for i
    by (simp add: masterGuard_def drop_cached_def nat_release_def Let_def split: prod.split option.split)
  then have "nb_lastFallback (snd (acquireMaster ec master s)) = nb_lastFallback s" by (simp add: acquireMaster_def)
  then show ?thesis
    using assms by (auto simp: with_master_def leaveGuard_def nat_release_def split: prod.splits option.splits) (metis snd_conv)+
qed

lemma fallback_is_sticky: "nb_lastFallback s \<Longrightarrow> nb_lastFallback (native_step ec proc diag s op)"
  by (cases op)
     (simp_all add: nat_masterText_def nat_scanSlaves_def nat_slaveInfo_def nat_pdos_def nat_upload_def nat_download_def
       with_master_fallback Let_def nat_slaveXml_def nat_sdos_def nat_setState_def nat_setAllStates_def nat_rescan_def fallback_def
       nat_hostDiagnostics_def nat_release_def split: option.split sum.split prod.split)

section \<open>The listing of PDOs ends\<close>

lemma pdo_loop_ends:
  assumes "get (of_nat n) = None" and "p \<le> n"
  shows "\<exists>t. pdo_loop get show p acc = Some t"
  using assms(2)
proof (induction "n - p" arbitrary: p acc)
  case 0
  then show ?case using assms(1) by (subst pdo_loop.simps) simp
next
  case (Suc k)
  show ?case
  proof (cases "get (of_nat p)")
    case None
    then show ?thesis by (subst pdo_loop.simps) simp
  next
    case (Some pdo)
    with Suc.hyps(1) [of "Suc p" "acc @ show pdo (of_nat p)"] Suc.hyps(2) show ?thesis by (subst pdo_loop.simps) simp
  qed
qed

lemma pdo_loop_found: "pdo_loop get show p acc = Some t \<Longrightarrow> \<exists>q. get q = None"
  by (rule pdo_loop.raw_induct [where P = "\<lambda>get sh p acc t. \<exists>q. get q = None"]) (auto split: option.splits)

text \<open>
  The listing of a slave's PDOs ends exactly if each sync manager that answers has a position between 0
  and 65535 without a PDO; the counter wraps in the call, so that a manager that answered all of them would be listed for ever.
\<close>

theorem pdo_listing_ends:
  "sync_loop ec h pos w sms acc \<noteq> None \<longleftrightarrow>
     list_all (\<lambda>sm. er_sync ec h pos (of_nat sm) w \<noteq> None \<longrightarrow> (\<exists>p. er_pdo ec h pos (of_nat sm) p w = None)) sms"
proof (induction sms arbitrary: acc)
  case (Cons sm sms)
  have ends: "pdo_loop (\<lambda>p. er_pdo ec h pos (of_nat sm) p w) sh 0 t \<noteq> None \<longleftrightarrow> (\<exists>p. er_pdo ec h pos (of_nat sm) p w = None)" for sh t
  proof
    assume "\<exists>p. er_pdo ec h pos (of_nat sm) p w = None"
    then obtain p where "er_pdo ec h pos (of_nat sm) p w = None" by blast
    then have "er_pdo ec h pos (of_nat sm) (of_nat (unat p)) w = None" by simp
    from pdo_loop_ends [where get = "\<lambda>p. er_pdo ec h pos (of_nat sm) p w", OF this]
    show "pdo_loop (\<lambda>p. er_pdo ec h pos (of_nat sm) p w) sh 0 t \<noteq> None" by fastforce
  next
    assume "pdo_loop (\<lambda>p. er_pdo ec h pos (of_nat sm) p w) sh 0 t \<noteq> None"
    then show "\<exists>p. er_pdo ec h pos (of_nat sm) p w = None" using pdo_loop_found by fastforce
  qed
  show ?case
  proof (cases "er_sync ec h pos (of_nat sm) w")
    case None
    then show ?thesis using Cons.IH by simp
  next
    case (Some sync)
    let ?head = "acc @ native_line (''SM'' @ number_nat sm @ '' dir='' @ direction_name (sy_dir sync) @ '' wd=''
      @ number_nat (sy_watchdog sync))"
    let ?loop = "pdo_loop (\<lambda>p. er_pdo ec h pos (of_nat sm) p w) (pdo_block ec h pos (of_nat sm) w) 0 ?head"
    have "sync_loop ec h pos w (sm # sms) acc = Option.bind ?loop (sync_loop ec h pos w sms)"
      by (simp only: sync_loop.simps Some option.case) (simp split: option.split bind_split)
    then have "sync_loop ec h pos w (sm # sms) acc \<noteq> None \<longleftrightarrow> ?loop \<noteq> None \<and> (\<forall>t. ?loop = Some t \<longrightarrow> sync_loop ec h pos w sms t \<noteq> None)"
      by (cases ?loop) (simp_all only: bind.simps option.simps simp_thms)
    then show ?thesis unfolding Cons.IH ends [of "pdo_block ec h pos (of_nat sm) w" ?head] using Some ends [of "pdo_block ec h pos (of_nat sm) w" ?head] by auto
  qed
qed simp

section \<open>The master stays reserved\<close>

text \<open>
  An operation that found the master leaves it cached, and so reserved: until the backend is destroyed or another master is
  asked for, no other user of the library can reserve it.
\<close>

lemma master_stays_reserved:
  assumes "acquireMaster ec master s = (Some h, s1)"
  shows "nb_cachedMaster (snd (snd (nat_masterText ec master s))) = Some h
     \<and> nb_cachedMaster (snd (snd (nat_scanSlaves ec master s))) = Some h"
proof -
  have cached: "nb_cachedMaster s1 = Some h"
    using assms unfolding acquireMaster_def masterGuard_def by (auto simp: Let_def split: prod.splits option.splits if_splits)
  then show ?thesis
    by (cases "er_master ec h (nb_outside s1)")
       (simp_all add: assms nat_masterText_def nat_scanSlaves_def with_master_def leaveGuard_def)
qed

end
