(* ===== verification/HostDiagnostics.thy ===== *)
theory HostDiagnostics
  imports NativeBackend
begin

text \<open>
  The checks of the host (\<open>hostDiagnostics\<close> and its helpers, \<^verbatim>\<open>src/igh/EthercatCliBackend.cpp\<close>), with which the service over
  the command line tool is complete. What the host answers is a parameter: the processes, the configuration file, the
  files of \<^verbatim>\<open>modprobe.d\<close> in the order of the directory iterator, and the device node. A text that itself holds a
  place marker of the message it is put into is outside the model.
\<close>

section \<open>Helpers\<close>

record program_result =
  pg_started :: bool
  pg_exitCode :: int
  pg_stdOut :: string
  pg_stdErr :: string

definition runProgram :: "'w proc \<Rightarrow> string \<Rightarrow> string list \<Rightarrow> 'w \<Rightarrow> program_result \<times> 'w" where
  "runProgram proc program arguments w =
     (case proc program arguments w of (out, w') \<Rightarrow>
       ((case out of
           NotStarted \<Rightarrow> \<lparr>pg_started = False, pg_exitCode = - 1, pg_stdOut = '''', pg_stdErr = ''Failed to start '' @ program\<rparr>
         | TimedOut so \<Rightarrow> \<lparr>pg_started = True, pg_exitCode = - 1, pg_stdOut = '''', pg_stdErr = program @ '' timed out''\<rparr>
         | Exited code so se \<Rightarrow> \<lparr>pg_started = True, pg_exitCode = code, pg_stdOut = trimmed so, pg_stdErr = trimmed se\<rparr>), w'))"

definition pg_ok :: "program_result \<Rightarrow> bool" where
  "pg_ok r \<longleftrightarrow> pg_started r \<and> pg_exitCode r = 0"

definition diagnosticItem :: "string \<Rightarrow> string \<Rightarrow> string \<Rightarrow> string \<Rightarrow> string \<Rightarrow> string \<Rightarrow> json" where
  "diagnosticItem level source message detail hint command = JObj [(''level'', JStr level), (''source'', JStr source),
     (''message'', JStr message), (''detail'', JStr detail), (''hint'', JStr hint), (''command'', JStr command)]"

abbreviation OneQuote :: rx where "OneQuote \<equiv> Many (\<lambda>c. c = quote_char) 0 (Some 1)"

definition config_re :: "string \<Rightarrow> rx list" where
  \<comment> \<open>\<open>^\s*KEY\s*=\s*"?([^"\n#]*)"?\<close> with \<open>MultilineOption\<close>; the keys of the code need no escaping\<close>
  "config_re key = [Bol, Spaces0, Lit key, Spaces0, Lit ''='', Spaces0, OneQuote,
     Grp 1 [Many (rx_none_of [quote_char, newline, CHR ''#'']) 0 None], OneQuote]"

definition configValue :: "string \<Rightarrow> string \<Rightarrow> string" where
  "configValue config key = (case rx_match rx_multi (config_re key) config of None \<Rightarrow> '''' | Some m \<Rightarrow> trimmed (captured m 1))"

definition mac_re :: "rx list" where
  \<comment> \<open>\<open>^([0-9a-fA-F]{2}:){5}[0-9a-fA-F]{2}$\<close>\<close>
  "mac_re = [Bol, Rep 5 [Grp 1 [Many is_hex 2 (Some 2), Lit '':'']], Many is_hex 2 (Some 2), Eol]"

definition isMacAddress :: "string \<Rightarrow> bool" where
  "isMacAddress v = has_match rx_plain mac_re (trimmed v)"

record 'w host_probe =
  hp_conf :: "'w \<Rightarrow> string option"
  hp_modprobe :: "'w \<Rightarrow> (string \<times> string list option) list"
  hp_deviceExists :: "'w \<Rightarrow> bool"
  hp_deviceAccess :: "'w \<Rightarrow> string option"

definition blocks_driver :: "string \<Rightarrow> bool" where
  "blocks_driver line \<longleftrightarrow> \<not> starts_with ''#'' line \<and> contains_str ''blacklist'' line
     \<and> (contains_str ''r8152'' line \<or> contains_str ''rt8152'' line \<or> contains_str ''rtl815'' line)"

definition file_matches :: "string \<times> string list option \<Rightarrow> string list" where
  "file_matches f = (case snd f of
     None \<Rightarrow> []
   | Some ls \<Rightarrow> map (\<lambda>(n, line). fst f @ '':'' @ number_nat (n + 1) @ '' '' @ trimmed line)
       (filter (\<lambda>(n, line). blocks_driver (trimmed line)) (enumerate 0 ls)))"

definition matchingBlacklistLines :: "'w host_probe \<Rightarrow> 'w \<Rightarrow> string list" where
  "matchingBlacklistLines hp w = concat (map file_matches (hp_modprobe hp w))"

section \<open>The checks\<close>

definition check_kernel :: "program_result \<Rightarrow> json" where
  "check_kernel r =
     (if pg_ok r then diagnosticItem ''Info'' ''Host'' (''Kernel: '' @ pg_stdOut r) ''''
        ''Keep DKMS modules installed for every active kernel.'' ''''
      else diagnosticItem ''Warning'' ''Host'' ''Unable to read running kernel'' (pg_stdErr r)
        ''Run uname -r in a terminal and verify matching kernel headers are installed.'' '''')"

definition check_module :: "program_result \<Rightarrow> json" where
  "check_module r =
     (if pg_ok r then diagnosticItem ''Info'' ''Kernel Module'' ''ec_master is available for the running kernel''
        (trimmed (hd (split_on newline (pg_stdOut r)))) ''No action required.'' ''''
      else diagnosticItem ''Error'' ''Kernel Module'' ''ec_master is not available for the running kernel''
        ''Rebuild or reinstall etherlab-ethercat after a kernel update.''
        ''Install etherlab-ethercat-dkms, verify linux headers, then restart ethercat.service.''
        ''yay -S etherlab-ethercat-dkms && sudo systemctl restart ethercat'')"

definition check_config :: "string option \<Rightarrow> json" where
  "check_config conf = (case conf of
     Some config \<Rightarrow> diagnosticItem ''Info'' ''Config''
       (''MASTER0_DEVICE='' @ configValue config ''MASTER0_DEVICE'' @ '', DEVICE_MODULES='' @ configValue config ''DEVICE_MODULES'')
       (''UPDOWN_INTERFACES='' @ configValue config ''UPDOWN_INTERFACES'')
       ''Keep MASTER0_DEVICE aligned with the dedicated EtherCAT NIC.'' ''''
   | None \<Rightarrow> diagnosticItem ''Error'' ''Config'' ''/etc/ethercat.conf is not readable'' ''''
       ''Create or restore /etc/ethercat.conf and set MASTER0_DEVICE.''
       ''sudoedit /etc/ethercat.conf && sudo systemctl restart ethercat'')"

definition master0_device :: "string option \<Rightarrow> string" where
  "master0_device conf = (case conf of None \<Rightarrow> '''' | Some config \<Rightarrow> configValue config ''MASTER0_DEVICE'')"

definition device_link :: "string \<Rightarrow> string \<Rightarrow> string option" where
  "device_link device listing = find (starts_with (device @ '' '')) (split_skip_empty newline listing)"

definition check_network :: "string \<Rightarrow> program_result \<Rightarrow> json" where
  "check_network device links =
     (if pg_ok links then
        (case device_link device (pg_stdOut links) of
           Some line \<Rightarrow> diagnosticItem ''Info'' ''Network'' (device @ '' is present'') (trimmed line) ''No action required.'' ''''
         | None \<Rightarrow> diagnosticItem ''Error'' ''Network'' (device @ '' is not present in current network interfaces'') (pg_stdOut links)
             ''Update MASTER0_DEVICE or reconnect/enable the EtherCAT NIC, then restart ethercat.service.''
             ''ip -br link && sudoedit /etc/ethercat.conf && sudo systemctl restart ethercat'')
      else diagnosticItem ''Warning'' ''Network'' ''Unable to list network interfaces'' (pg_stdErr links)
        ''Run ip -br link manually and confirm the configured EtherCAT NIC exists.'' '''')"

definition check_device :: "bool \<Rightarrow> string option \<Rightarrow> program_result \<Rightarrow> json" where
  "check_device exists access st =
     (let detail = (if pg_ok st then pg_stdOut st else pg_stdErr st)
      in if exists then
           (case access of
              None \<Rightarrow> diagnosticItem ''Info'' ''Device Node''
                ''/dev/EtherCAT0 exists and is readable/writable by the current user'' detail ''No action required.'' ''''
            | Some reason \<Rightarrow> diagnosticItem ''Warning'' ''Device Node''
                ''/dev/EtherCAT0 exists but current user may not have read/write access''
                (detail @ (if detail = '''' then '''' else [newline]) @ reason)
                ''Fix the EtherCAT device udev rule or add the user to the ethercat group, then re-login or restart the service.''
                ''sudo chgrp ethercat /dev/EtherCAT0 && sudo chmod 660 /dev/EtherCAT0'')
         else diagnosticItem ''Error'' ''Device Node'' ''/dev/EtherCAT0 is missing'' detail
           ''Restart ethercat.service and verify ec_master loaded for the running kernel.''
           ''sudo systemctl restart ethercat && ls -l /dev/EtherCAT0'')"

definition check_driver :: "string list \<Rightarrow> json" where
  "check_driver ls =
     (if ls = [] then diagnosticItem ''Info'' ''Driver'' ''No r8152/rt8152/rtl815x firmware/module blacklist entry found'' ''''
        ''No action required.'' ''''
      else diagnosticItem ''Warning'' ''Driver'' ''r8152/rt8152/rtl815x appears in firmware/module blacklist''
        (join_with [newline] ls) ''Remove the blacklist entry if your EtherCAT NIC is RTL8152/RTL8153/RTL8156.''
        ''sudoedit /etc/modprobe.d/<file>.conf && sudo mkinitcpio -P'')"

definition check_dkms :: "program_result \<Rightarrow> json list" where
  "check_dkms r =
     (if pg_ok r then
        [if contains_ci ''r8152'' (pg_stdOut r) \<or> contains_ci ''rt8152'' (pg_stdOut r) \<or> contains_ci ''rtl815'' (pg_stdOut r)
         then diagnosticItem ''Info'' ''DKMS'' ''r8152/rt8152/rtl815x DKMS driver is installed'' (pg_stdOut r)
           ''Use only if this host relies on a Realtek USB Ethernet adapter.'' ''''
         else diagnosticItem ''Info'' ''DKMS'' ''No r8152/rt8152/rtl815x DKMS driver is installed'' (pg_stdOut r)
           ''No action required unless the EtherCAT NIC is a Realtek USB adapter.'' '''']
        @ (if contains_ci ''r8125'' (pg_stdOut r)
           then [diagnosticItem ''Info'' ''DKMS'' ''r8125 DKMS driver is installed'' (pg_stdOut r)
             ''Keep r8125 DKMS if the EtherCAT NIC is RTL8125.'' '''']
           else [])
      else [diagnosticItem ''Warning'' ''DKMS'' ''Unable to query DKMS status'' (pg_stdErr r)
        ''Install dkms or run dkms status manually to verify kernel module coverage.'' ''sudo pacman -S dkms && dkms status''])"

definition check_service :: "program_result \<Rightarrow> json" where
  "check_service r =
     (if pg_ok r then diagnosticItem ''Info'' ''EtherCAT'' ''ethercatctl reports master running'' (pg_stdOut r)
        ''Ready for online scan and commissioning.'' ''''
      else diagnosticItem ''Error'' ''EtherCAT'' ''ethercatctl reports master not running''
        (if pg_stdErr r = '''' then pg_stdOut r else pg_stdErr r)
        ''Run sudo systemctl restart ethercat; if it still fails, inspect ec_master, /dev/EtherCAT0, and /etc/ethercat.conf.''
        ''sudo systemctl restart ethercat && ethercatctl status'')"

definition stat_args :: "string list" where
  "stat_args = [''-Lc'', ''%A %U:%G major=%t minor=%T'', ''/dev/EtherCAT0'']"

definition cli_hostDiagnostics :: "'w proc \<Rightarrow> 'w host_probe \<Rightarrow> 'w \<Rightarrow> json list \<times> string option \<times> 'w" where
  "cli_hostDiagnostics proc hp w =
     (let (kernel, w1) = runProgram proc ''uname'' [''-r''] w;
          (ecMaster, w2) = runProgram proc ''modinfo'' [''ec_master''] w1;
          conf = hp_conf hp w2; device = master0_device conf;
          (network, w3) = (if device \<noteq> '''' \<and> \<not> isMacAddress device
             then let (links, w') = runProgram proc ''ip'' [''-br'', ''link''] w2 in ([check_network device links], w')
             else ([], w2));
          (deviceStat, w4) = runProgram proc ''stat'' stat_args w3;
          node = check_device (hp_deviceExists hp w4) (hp_deviceAccess hp w4) deviceStat;
          driver = check_driver (matchingBlacklistLines hp w4);
          (dkms, w5) = runProgram proc ''dkms'' [''status''] w4;
          (status, w6) = runProgram proc ''ethercatctl'' [''status''] w5
      in ([check_kernel kernel, check_module ecMaster, check_config conf] @ network @ [node, driver]
            @ check_dkms dkms @ [check_service status], None, w6))"

definition cli_backend :: "'w proc \<Rightarrow> 'w host_probe \<Rightarrow> 'w ecat_service" where
  "cli_backend proc hp = cli_service proc (cli_hostDiagnostics proc hp)"

definition native_backend :: "'w ecrt \<Rightarrow> 'w proc \<Rightarrow> 'w host_probe \<Rightarrow> 'w native ecat_service" where
  "native_backend ec proc hp = native_service ec proc (cli_hostDiagnostics proc hp)"

section \<open>When a host is fit\<close>

fun has_level :: "string \<Rightarrow> json \<Rightarrow> bool" where
  "has_level l (JObj ob) = (jfind ob ''level'' = JStr l)"
| "has_level l _ = False"

definition succeeds :: "'w proc \<Rightarrow> string \<Rightarrow> string list \<Rightarrow> 'w \<Rightarrow> bool" where
  "succeeds proc program arguments w \<longleftrightarrow> (\<exists>so se. fst (proc program arguments w) = Exited 0 so se)"

definition device_found :: "'w proc \<Rightarrow> string \<Rightarrow> 'w \<Rightarrow> bool" where
  \<comment> \<open>the device is named by its address, or the listing of interfaces fails or has it\<close>
  "device_found proc device w \<longleftrightarrow> device = '''' \<or> isMacAddress device
     \<or> (\<forall>so se. fst (proc ''ip'' [''-br'', ''link''] w) = Exited 0 so se \<longrightarrow>
          (\<exists>line \<in> set (split_skip_empty newline (trimmed so)). starts_with (device @ '' '') line))"

lemma item_level [simp]: "has_level l (diagnosticItem level source message detail hint command) \<longleftrightarrow> level = l"
  by (simp add: diagnosticItem_def)

lemma runProgram_ok: "pg_ok (fst (runProgram proc p as w)) \<longleftrightarrow> succeeds proc p as w"
  by (auto simp: runProgram_def succeeds_def pg_ok_def split: prod.split outcome.split)

lemma dkms_no_error: "\<not> list_ex (has_level ''Error'') (check_dkms r)"
  by (simp add: check_dkms_def)

lemma network_error:
  "device \<noteq> '''' \<Longrightarrow> \<not> isMacAddress device \<Longrightarrow>
   has_level ''Error'' (check_network device (fst (runProgram proc ''ip'' [''-br'', ''link''] w))) \<longleftrightarrow> \<not> device_found proc device w"
  by (cases "fst (proc ''ip'' [''-br'', ''link''] w)")
     (auto simp: check_network_def device_found_def device_link_def runProgram_def pg_ok_def find_None_iff find_Some_iff
       split: prod.splits option.splits)

lemma runProgram_world: "snd (runProgram proc p as w) = snd (proc p as w)"
  by (simp add: runProgram_def split: prod.split)

text \<open>
  Claim C28 (equivalence). Where the commands the checks run are queries, the diagnostics report an error exactly if the host is not
  fit for the bus: the kernel module is there, the configuration can be read, the adapter it names, if it names one
  and not by its address, is not missing from the interfaces that \<^verbatim>\<open>ip -br link\<close> lists (if the listing itself fails, the
  adapter is not known to be missing and there is only a warning), the device node exists and the service runs.
  Everything else is at most a warning; nothing is changed and no error is stored.
\<close>

theorem diagnostics_error_iff_unfit:
  assumes queries: "\<And>p as. snd (proc p as w) = w"
  shows "(list_ex (has_level ''Error'') (fst (cli_hostDiagnostics proc hp w)) \<longleftrightarrow>
      \<not> (succeeds proc ''modinfo'' [''ec_master''] w \<and> hp_conf hp w \<noteq> None \<and> device_found proc (master0_device (hp_conf hp w)) w
         \<and> hp_deviceExists hp w \<and> succeeds proc ''ethercatctl'' [''status''] w))
    \<and> snd (cli_hostDiagnostics proc hp w) = (None, w)"
proof -
  let ?device = "master0_device (hp_conf hp w)"
  let ?network = "if ?device \<noteq> '''' \<and> \<not> isMacAddress ?device
     then [check_network ?device (fst (runProgram proc ''ip'' [''-br'', ''link''] w))] else []"
  let ?ran = "\<lambda>p as. fst (runProgram proc p as w)"
  have all: "cli_hostDiagnostics proc hp w =
     ([check_kernel (?ran ''uname'' [''-r'']), check_module (?ran ''modinfo'' [''ec_master'']), check_config (hp_conf hp w)]
        @ ?network @ [check_device (hp_deviceExists hp w) (hp_deviceAccess hp w) (?ran ''stat'' stat_args),
          check_driver (matchingBlacklistLines hp w)]
        @ check_dkms (?ran ''dkms'' [''status'']) @ [check_service (?ran ''ethercatctl'' [''status''])], None, w)"
    unfolding cli_hostDiagnostics_def Let_def by (simp add: case_prod_beta runProgram_world queries)
  have network: "list_ex (has_level ''Error'') ?network \<longleftrightarrow> \<not> device_found proc ?device w"
  proof (cases "?device = '''' \<or> isMacAddress ?device")
    case True
    then show ?thesis by (auto simp: device_found_def)
  next
    case False
    then show ?thesis using network_error [of ?device proc w] by simp
  qed
  have single: "\<not> has_level ''Error'' (check_kernel r)" "has_level ''Error'' (check_module r) \<longleftrightarrow> \<not> pg_ok r"
    "has_level ''Error'' (check_config c) \<longleftrightarrow> c = None" "has_level ''Error'' (check_device ex acc r) \<longleftrightarrow> \<not> ex"
    "\<not> has_level ''Error'' (check_driver ls)" "has_level ''Error'' (check_service r) \<longleftrightarrow> \<not> pg_ok r" for r c ex acc ls
    by (simp_all add: check_kernel_def check_module_def check_config_def check_device_def check_driver_def check_service_def Let_def
        split: option.split)
  show ?thesis
    unfolding all fst_conv snd_conv list_ex_append network by (simp add: single runProgram_ok dkms_no_error)
qed

definition silent_host :: "unit proc" where
  "silent_host p as w = ((if p = ''uname'' then NotStarted else Exited 0 '''' ''''), w)"

definition bare_probe :: "unit host_probe" where
  "bare_probe = \<lparr>hp_conf = \<lambda>w. Some '''', hp_modprobe = \<lambda>w. [], hp_deviceExists = \<lambda>w. True, hp_deviceAccess = \<lambda>w. None\<rparr>"

lemma diagnostics_error_iff_unfit_witness:
  "\<not> list_ex (has_level ''Error'') (fst (cli_hostDiagnostics silent_host bare_probe ()))"
proof -
  have "configValue '''' ''MASTER0_DEVICE'' = ''''" by code_simp
  then show ?thesis
    using diagnostics_error_iff_unfit [of silent_host "()" bare_probe]
    by (simp add: silent_host_def bare_probe_def succeeds_def device_found_def master0_device_def)
qed

text \<open>
  The spaces behind the equals sign may be a line break, so an assignment without a value reads the line below as its value.
\<close>

lemma empty_value_reads_next_line:
  "configValue (''MASTER0_DEVICE='' @ [newline] @ ''UPDOWN_INTERFACES=eth1'' @ [newline]) ''MASTER0_DEVICE'' = ''UPDOWN_INTERFACES=eth1''"
  by code_simp

section \<open>The backends complete\<close>

interpretation cli_complete: ecat_contract "cli_backend proc hp" for proc hp
  unfolding cli_backend_def by (rule cli.ecat_contract_axioms)

interpretation native_complete: ecat_contract "native_backend ec proc hp" for ec proc hp
  unfolding native_backend_def by (rule native.ecat_contract_axioms)

end
