(* ===== verification/ClientText.thy ===== *)
theory ClientText
  imports FreeRunController "HOL-Library.List_Lexorder" "HOL-Library.Char_ord"
begin

text \<open>
  The text between the daemon and the C client: what \<open>QJsonDocument::toJson(Compact)\<close> makes of a value, and
  the scanner of \<^verbatim>\<open>client/nekoecat_client.c\<close> that reads the layout out of it with \<open>strstr\<close> and \<open>sscanf\<close>. A pointer
  into a text is the text from there on; of two pointers into one text, the later one has the shorter rest.
  A number of more than 64 bits, for which C leaves \<open>sscanf\<close> undefined, is taken modulo the width here.
\<close>

section \<open>Compact JSON\<close>

definition utf8 :: "char \<Rightarrow> string" where
  "utf8 c = (let n = code_of c in if n < 128 then [c] else [char_of (192 + n div 64), char_of (128 + n mod 64)])"

definition json_char :: "char \<Rightarrow> string" where
  "json_char c = (let n = code_of c in
     if n = 8 then [CHR 0x5C, CHR ''b''] else if n = 12 then [CHR 0x5C, CHR ''f''] else if n = 10 then [CHR 0x5C, CHR ''n'']
     else if n = 13 then [CHR 0x5C, CHR ''r''] else if n = 9 then [CHR 0x5C, CHR ''t'']
     else if n = 34 \<or> n = 92 then [CHR 0x5C, c]
     else if n < 32 then CHR 0x5C # ''u00'' @ hex_field 2 n else utf8 c)"

definition json_escape :: "string \<Rightarrow> string" where
  "json_escape s = concat (map json_char s)"

definition json_quote :: "string \<Rightarrow> string" where
  "json_quote s = quote_char # json_escape s @ [quote_char]"

definition json_number :: "(rat \<Rightarrow> string) \<Rightarrow> rat \<Rightarrow> string" where
  \<comment> \<open>the text of a fraction is a parameter\<close>
  "json_number fr r = (if of_int \<lfloor>r\<rfloor> = r then number_int \<lfloor>r\<rfloor> else fr r)"

fun json_compact :: "(rat \<Rightarrow> string) \<Rightarrow> json \<Rightarrow> string" where
  \<comment> \<open>an object has its keys in order\<close>
  "json_compact fr JUndefined = ''null''"
| "json_compact fr JNull = ''null''"
| "json_compact fr (JBool b) = (if b then ''true'' else ''false'')"
| "json_compact fr (JNum r) = json_number fr r"
| "json_compact fr (JStr s) = json_quote s"
| "json_compact fr (JArr vs) = ''['' @ join_with '','' (map (json_compact fr) vs) @ '']''"
| "json_compact fr (JObj ob) = CHR ''{'' # join_with '',''
     (map (\<lambda>(k, t). json_quote k @ CHR '':'' # t) (sort_key fst (map (\<lambda>(k, v). (k, json_compact fr v)) ob))) @ [CHR ''}'']"

section \<open>The C library's text functions\<close>

fun strstr :: "string \<Rightarrow> string \<Rightarrow> string option" where
  "strstr p [] = (if p = [] then Some [] else None)"
| "strstr p (c # s) = (if starts_with p (c # s) then Some (c # s) else strstr p s)"

definition strchr :: "string \<Rightarrow> char \<Rightarrow> string option" where
  "strchr s c = strstr [c] s"

definition c_space :: "char \<Rightarrow> bool" where
  "c_space c \<longleftrightarrow> 9 \<le> code_of c \<and> code_of c \<le> 13 \<or> code_of c = 32"

definition scan_digits :: "string \<Rightarrow> nat option" where
  "scan_digits s = (let ds = takeWhile is_digit s in if ds = [] then None else Some (value_acc 10 0 ds))"

definition scan_int :: "string \<Rightarrow> int option" where
  \<comment> \<open>\<open>%u\<close>: spaces, a sign, digits\<close>
  "scan_int s = (case dropWhile c_space s of
       [] \<Rightarrow> None
     | c # t \<Rightarrow>
         if c = CHR ''-'' then map_option (\<lambda>n. - int n) (scan_digits t)
         else map_option int (scan_digits (if c = CHR ''+'' then t else c # t)))"

definition scan_until_quote :: "nat \<Rightarrow> string \<Rightarrow> string option" where
  \<comment> \<open>\<open>%n[^"]\<close>: at least one character, at most \<open>n\<close>\<close>
  "scan_until_quote n s = (let t = take n (takeWhile (\<lambda>c. c \<noteq> quote_char) s) in if t = [] then None else Some t)"

section \<open>Parsing the layout\<close>

record layout_entry =
  ly_slave :: u16
  ly_index :: u16
  ly_sub :: byte
  ly_bitLength :: byte
  ly_direction :: string
  ly_offset :: u32

record shm_layout =
  ly_entries :: "layout_entry list"
  ly_data_size :: u32
  ly_truncated :: bool

definition LAYOUT_MAX_ENTRIES :: nat where "LAYOUT_MAX_ENTRIES = 64"

definition json_key :: "string \<Rightarrow> string" where
  "json_key k = quote_char # k @ [quote_char, CHR '':'']"

definition after_key :: "string \<Rightarrow> string \<Rightarrow> string option" where
  "after_key k s = map_option (drop (length (json_key k))) (strstr (json_key k) s)"

definition number_field :: "string \<Rightarrow> string \<Rightarrow> 'w::len word" where
  \<comment> \<open>a variable that is 0 unless the key is there and a number follows\<close>
  "number_field k s = word_of_int (or_zero (Option.bind (after_key k s) scan_int))"

definition text_field :: "nat \<Rightarrow> string \<Rightarrow> string \<Rightarrow> string" where
  "text_field n k s = (case Option.bind (after_key k s) (scan_until_quote n) of None \<Rightarrow> '''' | Some t \<Rightarrow> t)"

definition read_entry :: "string \<Rightarrow> layout_entry" where
  "read_entry obj =
     (let bl = number_field ''bitLength'' obj; dirbuf = text_field 7 ''direction'' obj
      in \<lparr>ly_slave = number_field ''slave'' obj, ly_index = number_field ''index'' obj, ly_sub = number_field ''subindex'' obj,
          ly_bitLength = (if bl \<noteq> 0 then bl else 16), ly_direction = (if dirbuf \<noteq> '''' then dirbuf else ''TxPDO''),
          ly_offset = number_field ''offset'' obj\<rparr>)"

definition behind :: "string \<Rightarrow> string \<Rightarrow> bool" where
  \<comment> \<open>\<open>p > q\<close> for two pointers into one text\<close>
  "behind p q \<longleftrightarrow> length p < length q"

definition array_ends :: "string \<Rightarrow> bool" where
  \<comment> \<open>no further brace, or a bracket before it\<close>
  "array_ends p = (case strstr ''{'' p of None \<Rightarrow> True
     | Some next_open \<Rightarrow> (case strstr '']'' p of None \<Rightarrow> False | Some next_close \<Rightarrow> behind next_open next_close))"

fun parse_entries :: "nat \<Rightarrow> string \<Rightarrow> layout_entry list \<times> string" where
  \<comment> \<open>with the room that is left; the entries read and where the scan stopped\<close>
  "parse_entries 0 p = ([], p)"
| "parse_entries (Suc room) p =
     (case strstr ''{'' p of
        None \<Rightarrow> ([], p)
      | Some obj \<Rightarrow>
          (case strstr ''}'' obj of
             None \<Rightarrow> ([], p)
           | Some endobj \<Rightarrow>
               let e = read_entry obj; p' = tl endobj
               in if array_ends p' then ([e], p')
                  else (case parse_entries room p' of (es, q) \<Rightarrow> (e # es, q))))"

definition layout_needle :: string where
  "layout_needle = json_key ''layout'' @ ''[''"

definition more_entries :: "string \<Rightarrow> bool" where
  "more_entries p = (case strstr ''{'' p of None \<Rightarrow> False
     | Some nopen \<Rightarrow> (case strstr '']'' p of None \<Rightarrow> True | Some nclose \<Rightarrow> behind nclose nopen))"

definition layout_parse_from_shm_info_json :: "string \<Rightarrow> bool \<times> shm_layout" where
  "layout_parse_from_shm_info_json s =
     (let dsize = number_field ''data_size'' s
      in case strstr layout_needle s of
           None \<Rightarrow> (False, \<lparr>ly_entries = [], ly_data_size = dsize, ly_truncated = False\<rparr>)
         | Some lay \<Rightarrow>
             (case parse_entries LAYOUT_MAX_ENTRIES (drop (length layout_needle) lay) of
                (es, p) \<Rightarrow> (es \<noteq> [], \<lparr>ly_entries = es, ly_data_size = dsize,
                  ly_truncated = (length es \<ge> LAYOUT_MAX_ENTRIES \<and> more_entries p)\<rparr>)))"

definition layout_byte_offset :: "shm_layout \<Rightarrow> u16 \<Rightarrow> u16 \<Rightarrow> byte \<Rightarrow> u32" where
  "layout_byte_offset l slave index sub =
     (case find (\<lambda>e. ly_slave e = slave \<and> ly_index e = index \<and> ly_sub e = sub) (ly_entries l) of
        None \<Rightarrow> - 1
      | Some e \<Rightarrow> ly_offset e)"

section \<open>What the searches find\<close>

lemma starts_with_simps [simp]: "starts_with [] s" "\<not> starts_with (a # p) []" "starts_with (a # p) (c # s) \<longleftrightarrow> a = c \<and> starts_with p s"
  by (auto simp: starts_with_def)

lemma strstr_here: "starts_with p s \<Longrightarrow> strstr p s = Some s"
  by (cases s) (auto simp: starts_with_def)

lemma strstr_skip: "p \<noteq> [] \<Longrightarrow> hd p \<notin> set a \<Longrightarrow> strstr p (a @ s) = strstr p s"
  by (induction a) (auto simp: neq_Nil_conv)

definition plain_key :: "string \<Rightarrow> bool" where
  "plain_key k \<longleftrightarrow> k \<noteq> [] \<and> (\<forall>c \<in> set k. 95 \<le> code_of c \<and> code_of c \<le> 122 \<or> 65 \<le> code_of c \<and> code_of c \<le> 90)"

lemma plain_key_chars:
  assumes "plain_key k"
  shows "quote_char \<notin> set k" "CHR 0x5C \<notin> set k" "CHR '','' \<notin> set k" "CHR '':'' \<notin> set k"
  using assms by (auto simp: plain_key_def quote_char_def code_of_def)

lemma json_char_plain: "32 \<le> code_of c \<Longrightarrow> code_of c < 128 \<Longrightarrow> code_of c \<noteq> 34 \<Longrightarrow> code_of c \<noteq> 92 \<Longrightarrow> json_char c = [c]"
  by (simp add: json_char_def utf8_def Let_def)

lemma json_escape_plain: "plain_key k \<Longrightarrow> json_escape k = k"
proof -
  have "(\<And>c. c \<in> set k \<Longrightarrow> json_char c = [c]) \<Longrightarrow> json_escape k = k" by (induction k) (simp_all add: json_escape_def)
  moreover assume "plain_key k"
  then have "json_char c = [c]" if "c \<in> set k" for c
    using that by (intro json_char_plain) (auto simp: plain_key_def)
  ultimately show ?thesis by blast
qed

text \<open>A search for a key passes the other keys, numbers and quoted texts.\<close>

lemma starts_with_key: "quote_char \<notin> set k \<Longrightarrow> quote_char \<notin> set k' \<Longrightarrow>
   starts_with (k @ [quote_char]) (k' @ quote_char # s) \<longleftrightarrow> k = k'"
  by (induction k arbitrary: k') (case_tac k'; force)+

lemma strstr_key_other:
  assumes "plain_key k" "plain_key k'" "k \<noteq> k'"
  shows "strstr (json_key k) (json_key k' @ s) = strstr (json_key k) s"
proof -
  note q = plain_key_chars [OF assms(1)] plain_key_chars [OF assms(2)]
  have "\<not> starts_with (k @ [quote_char, CHR '':'']) (k' @ quote_char # CHR '':'' # s)"
    using starts_with_key [OF q(1) q(5), of "CHR '':'' # s"] assms(3) by (auto simp: starts_with_iff)
  then have "strstr (json_key k) (json_key k' @ s) = strstr (json_key k) (k' @ quote_char # CHR '':'' # s)"
    by (simp add: json_key_def)
  also have "\<dots> = strstr (json_key k) (quote_char # CHR '':'' # s)"
    using q(5) by (intro strstr_skip) (simp_all add: json_key_def)
  also have "\<dots> = strstr (json_key k) s"
    using q(4) assms(1) by (cases k) (auto simp: json_key_def plain_key_def quote_char_def)
  finally show ?thesis .
qed

lemma utf8_codes: "128 \<le> code_of c \<Longrightarrow> x \<in> set (json_char c) \<Longrightarrow> 128 \<le> code_of x"
proof -
  assume c: "128 \<le> code_of c"
  have "code_of c < 256" by (simp add: code_of_def)
  then have "192 + code_of c div 64 < 256" "128 + code_of c mod 64 < 256" by (simp add: less_mult_imp_div_less, simp)
  then have "code_of (char_of (192 + code_of c div 64)) = 192 + code_of c div 64" "code_of (char_of (128 + code_of c mod 64)) = 128 + code_of c mod 64"
    by (simp_all only: code_of_def of_char_of mod_less)
  moreover have "json_char c = [char_of (192 + code_of c div 64), char_of (128 + code_of c mod 64)]"
    using c by (auto simp: json_char_def utf8_def Let_def)
  moreover assume "x \<in> set (json_char c)"
  ultimately show ?thesis by auto
qed

lemma hex_field_codes:
  assumes "x \<in> set (hex_field w n)"
  shows "48 \<le> code_of x \<and> code_of x < 103"
proof -
  have "48 \<le> code_of x \<and> code_of x < 103" if "x \<in> set (digits_base 16 n)"
    using digits_base_digits [of 16 x n] that by (auto simp: code_digit_char)
  then show ?thesis using assms by (auto simp: hex_field_def right_justified_def number_hex_def code_of_def)
qed

lemma json_char_cases:
  "json_char c = [CHR 0x5C, quote_char] \<or> (quote_char \<notin> set (json_char c) \<and> (\<exists>t. json_char c = CHR 0x5C # t))
     \<or> (quote_char \<notin> set (json_char c) \<and> CHR 0x5C \<notin> set (json_char c))"
proof (cases "code_of c < 128")
  case True
  have "quote_char \<notin> set (hex_field 2 (code_of c))"
    using hex_field_codes [of quote_char] by (auto simp: quote_char_def code_of_def)
  then show ?thesis
    using True by (auto simp: json_char_def utf8_def Let_def quote_char_def code_of_def)
next
  case False
  then show ?thesis using utf8_codes [of c quote_char] utf8_codes [of c "CHR 0x5C"] by (auto simp: quote_char_def code_of_def)
qed

lemma starts_with_past: "\<forall>c \<in> set a. c \<noteq> q \<Longrightarrow> starts_with (k @ q # t) (a @ s) \<Longrightarrow> \<exists>k'. k = a @ k' \<and> starts_with (k' @ q # t) s"
proof (induction a arbitrary: k)
  case (Cons x a)
  then show ?case by (cases k) auto
qed simp

lemma key_not_inside:
  assumes "quote_char \<notin> set k" "CHR 0x5C \<notin> set k" "x \<noteq> CHR '':''"
  shows "\<not> starts_with (k @ [quote_char, CHR '':'']) (json_escape n @ quote_char # x # s)"
  using assms(1,2)
proof (induction n arbitrary: k)
  case Nil
  then show ?case using assms(3) by (cases k) (auto simp: json_escape_def)
next
  case (Cons c n)
  have split: "json_escape (c # n) = json_char c @ json_escape n" by (simp add: json_escape_def)
  consider (slash) t where "json_char c = CHR 0x5C # t" | (other) "quote_char \<notin> set (json_char c)"
    using json_char_cases [of c] by blast
  then show ?case
  proof cases
    case slash
    then show ?thesis using Cons.prems by (cases k) (auto simp: split quote_char_def)
  next
    case other
    show ?thesis
    proof
      assume "starts_with (k @ [quote_char, CHR '':'']) (json_escape (c # n) @ quote_char # x # s)"
      then obtain k' where "k = json_char c @ k'" "starts_with (k' @ [quote_char, CHR '':'']) (json_escape n @ quote_char # x # s)"
        using other starts_with_past [of "json_char c" quote_char k] by (auto simp: split)
      then show False using Cons.IH [of k'] Cons.prems by auto
    qed
  qed
qed

lemma strstr_quoted:
  assumes "plain_key k" "x \<noteq> CHR '':''" "hd k \<noteq> x"
  shows "strstr (json_key k) (json_quote n @ x # s) = strstr (json_key k) (x # s)"
proof -
  note q = plain_key_chars [OF assms(1)]
  note inside = key_not_inside [OF q(1,2) assms(2)]
  have last: "strstr (json_key k) (quote_char # x # s) = strstr (json_key k) (x # s)"
    using assms(1,3) by (cases k) (auto simp: json_key_def plain_key_def)
  have "strstr (json_key k) (json_escape n @ quote_char # x # s) = strstr (json_key k) (quote_char # x # s)"
  proof (induction n)
    case (Cons c n)
    have split: "json_escape (c # n) = json_char c @ json_escape n" by (simp add: json_escape_def)
    from json_char_cases [of c] show ?case
    proof (elim disjE)
      assume "json_char c = [CHR 0x5C, quote_char]"
      then show ?thesis using Cons inside [of n] by (simp add: split) (simp add: json_key_def quote_char_def)
    qed (use Cons in \<open>simp_all add: split strstr_skip json_key_def\<close>)
  qed (simp add: json_escape_def)
  then show ?thesis using inside [of n] last by (simp add: json_quote_def) (simp add: json_key_def)
qed

section \<open>The text of a layout\<close>

definition entry_json :: "runtime_entry \<Rightarrow> json" where
  "entry_json e = JObj [(''slave'', jnat (unat (rn_slave e))), (''index'', jnat (unat (rn_index e))),
     (''subindex'', jnat (unat (rn_subindex e))), (''bitLength'', jnat (unat (rn_bitLength e))),
     (''direction'', JStr (rn_direction e)), (''name'', JStr (rn_name e)), (''offset'', jint (sint (rn_offset e)))]"

lemma sorted_entry: "sort_key fst [(''slave'', a), (''index'', b), (''subindex'', c), (''bitLength'', d), (''direction'', e), (''name'', f), (''offset'', g)]
   = [(''bitLength'', d), (''direction'', e), (''index'', b), (''name'', f), (''offset'', g), (''slave'', a), (''subindex'', c)]"
  by (simp add: less_char_def)

lemma compact_jint: "json_compact fr (jint i) = number_int i" "json_compact fr (jnat n) = number_nat n"
  by (simp_all add: jint_def jnat_def json_number_def number_int_def)

lemma json_quote_key: "plain_key k \<Longrightarrow> json_quote k @ CHR '':'' # t = json_key k @ t"
  by (simp add: json_quote_def json_escape_plain json_key_def)

lemma plain_keys [simp]: "plain_key ''slave''" "plain_key ''index''" "plain_key ''subindex''" "plain_key ''bitLength''"
  "plain_key ''direction''" "plain_key ''name''" "plain_key ''offset''" "plain_key ''data_size''" "plain_key ''layout''"
  "plain_key ''layout_version''" "plain_key ''shm_name''" "plain_key ''version''" "plain_key ''active_buffer''"
  "plain_key ''id''" "plain_key ''ok''" "plain_key ''result''"
  by (simp_all add: plain_key_def code_of_def)

definition entry_text :: "runtime_entry \<Rightarrow> string" where
  "entry_text e = ''{'' @ json_key ''bitLength'' @ number_nat (unat (rn_bitLength e)) @ '','' @ json_key ''direction'' @ json_quote (rn_direction e)
     @ '','' @ json_key ''index'' @ number_nat (unat (rn_index e)) @ '','' @ json_key ''name'' @ json_quote (rn_name e)
     @ '','' @ json_key ''offset'' @ number_int (sint (rn_offset e)) @ '','' @ json_key ''slave'' @ number_nat (unat (rn_slave e))
     @ '','' @ json_key ''subindex'' @ number_nat (unat (rn_subindex e)) @ ''}''"

lemma compact_entry: "json_compact fr (entry_json e) = entry_text e"
  by (simp add: entry_json_def sorted_entry compact_jint json_quote_key entry_text_def del: sort_key_simps)

declare strstr.simps [simp del]

lemma strstr_key_here: "strstr (json_key k) (json_key k @ s) = Some (json_key k @ s)"
  by (rule strstr_here) simp

lemma strstr_key_char: "c \<noteq> quote_char \<Longrightarrow> strstr (json_key k) (c # s) = strstr (json_key k) s"
  by (simp add: json_key_def strstr.simps)

lemma number_chars: "c \<in> set (number_int i) \<Longrightarrow> is_digit c \<or> c = CHR ''-''"
  by (auto simp: number_int_def dest: number_nat_digits split: if_splits)

lemma strstr_key_number: "strstr (json_key k) (number_int i @ s) = strstr (json_key k) s"
  "strstr (json_key k) (number_nat n @ s) = strstr (json_key k) s"
proof -
  have "\<not> is_digit quote_char" "quote_char \<noteq> CHR ''-''" by (simp_all add: is_digit_def quote_char_def code_of_def)
  then have "quote_char \<notin> set (number_int i)" "quote_char \<notin> set (number_nat n)"
    using number_chars number_nat_digits by blast+
  then show "strstr (json_key k) (number_int i @ s) = strstr (json_key k) s"
    "strstr (json_key k) (number_nat n @ s) = strstr (json_key k) s"
    by (auto intro: strstr_skip simp: json_key_def)
qed

lemmas strstr_simps = strstr_key_here strstr_key_char strstr_key_number strstr_key_other strstr_quoted

lemma scan_digits_number: "\<not> is_digit c \<Longrightarrow> scan_digits (number_nat n @ c # s) = Some n"
proof -
  assume c: "\<not> is_digit c"
  have "takeWhile is_digit (number_nat n @ c # s) = number_nat n"
    using number_nat_digits c by (subst takeWhile_append2) auto
  then show ?thesis by (simp add: scan_digits_def number_nat_def value_digits_base)
qed

lemma scan_number_nat: "\<not> is_digit c \<Longrightarrow> scan_int (number_nat n @ c # s) = Some (int n)"
proof (cases "number_nat n")
  case (Cons d ds)
  then have d: "is_digit d" using number_nat_digits [of d n] by simp
  then have "\<not> c_space d" "d \<noteq> CHR ''-''" "d \<noteq> CHR ''+''" by (auto simp: is_digit_def c_space_def code_of_def)
  moreover assume "\<not> is_digit c"
  ultimately show ?thesis using scan_digits_number [of c n s] Cons by (simp add: scan_int_def)
qed simp

lemma scan_number_int: "\<not> is_digit c \<Longrightarrow> scan_int (number_int i @ c # s) = Some i"
proof (cases "i < 0")
  case True
  assume "\<not> is_digit c"
  moreover have "\<not> c_space (CHR ''-'')" by (simp add: c_space_def code_of_def)
  ultimately show ?thesis using True by (simp add: number_int_def scan_int_def scan_digits_number)
qed (simp add: number_int_def scan_number_nat)

lemma after_key_text: "strstr (json_key k) s = Some (json_key k @ t) \<Longrightarrow> after_key k s = Some t"
  by (simp add: after_key_def)

lemmas number_field_simps = number_field_def after_key_def scan_number_int scan_number_nat

lemma separators: "\<not> is_digit (CHR '','')" "\<not> is_digit (CHR ''}'')" "CHR '','' \<noteq> quote_char" "CHR ''{'' \<noteq> quote_char"
  "CHR ''}'' \<noteq> quote_char"  "CHR ''['' \<noteq> quote_char" "CHR '']'' \<noteq> quote_char"
  by (simp_all add: is_digit_def code_of_def quote_char_def)

definition client_entry :: "runtime_entry \<Rightarrow> layout_entry" where
  \<comment> \<open>what the client makes of an entry of the daemon: the direction is lost, a length of 0 becomes 16\<close>
  "client_entry e = \<lparr>ly_slave = rn_slave e, ly_index = rn_index e, ly_sub = rn_subindex e,
     ly_bitLength = (if rn_bitLength e = 0 then 16 else rn_bitLength e), ly_direction = ''TxPDO'', ly_offset = rn_offset e\<rparr>"

lemma read_entry_text: "read_entry (entry_text e @ s) = client_entry e"
proof -
  have "after_key ''direction'' (entry_text e @ s) = Some (json_quote (rn_direction e) @ '','' @ json_key ''index'' @ number_nat (unat (rn_index e))
     @ '','' @ json_key ''name'' @ json_quote (rn_name e)
     @ '','' @ json_key ''offset'' @ number_int (sint (rn_offset e)) @ '','' @ json_key ''slave'' @ number_nat (unat (rn_slave e))
     @ '','' @ json_key ''subindex'' @ number_nat (unat (rn_subindex e)) @ CHR ''}'' # s)"
    by (rule after_key_text) (simp add: entry_text_def strstr_simps separators)
  then have dir: "text_field 7 ''direction'' (entry_text e @ s) = ''''"
    by (simp add: text_field_def scan_until_quote_def json_quote_def)
  have bl: "number_field ''bitLength'' (entry_text e @ s) = rn_bitLength e"
    by (simp add: number_field_simps entry_text_def strstr_simps separators)
  have idx: "number_field ''index'' (entry_text e @ s) = rn_index e"
    by (simp add: number_field_simps entry_text_def strstr_simps separators)
  have off: "number_field ''offset'' (entry_text e @ s) = rn_offset e"
    by (simp add: number_field_simps entry_text_def strstr_simps separators)
  have sl: "number_field ''slave'' (entry_text e @ s) = rn_slave e"
    by (simp add: number_field_simps entry_text_def strstr_simps separators)
  have sub: "number_field ''subindex'' (entry_text e @ s) = rn_subindex e"
    by (simp add: number_field_simps entry_text_def strstr_simps separators)
  show ?thesis by (simp add: read_entry_def client_entry_def dir bl idx off sl sub Let_def)
qed

section \<open>Reading the layout back\<close>

lemma json_char_brace: "CHR ''}'' \<in> set (json_char c) \<Longrightarrow> c = CHR ''}''"
proof (cases "code_of c < 128")
  case True
  have "CHR ''}'' \<notin> set (hex_field 2 (code_of c))" using hex_field_codes [of "CHR ''}''"] by (auto simp: code_of_def)
  moreover assume "CHR ''}'' \<in> set (json_char c)"
  ultimately show ?thesis using True by (auto simp: json_char_def utf8_def Let_def split: if_splits)
next
  case False
  moreover assume "CHR ''}'' \<in> set (json_char c)"
  ultimately show ?thesis using utf8_codes [of c "CHR ''}''"] by (auto simp: code_of_def)
qed

lemma json_quote_brace: "CHR ''}'' \<notin> set s \<Longrightarrow> CHR ''}'' \<notin> set (json_quote s)"
  using json_char_brace by (auto simp: json_quote_def json_escape_def quote_char_def)

definition clean_entry :: "runtime_entry \<Rightarrow> bool" where
  \<comment> \<open>no closing brace in its texts\<close>
  "clean_entry e \<longleftrightarrow> CHR ''}'' \<notin> set (rn_name e) \<and> CHR ''}'' \<notin> set (rn_direction e)"

lemma strstr_length: "strstr p s = Some t \<Longrightarrow> length t \<le> length s"
  by (induction s) (auto simp: strstr.simps split: if_splits)

lemma strstr_single: "strstr [c] (d # s) = (if c = d then Some (d # s) else strstr [c] s)"
  by (simp add: strstr.simps)

lemma strstr_none: "c \<notin> set s \<Longrightarrow> strstr [c] s = None"
  by (induction s) (auto simp: strstr.simps)

lemma number_no_brace: "CHR ''}'' \<notin> set (number_nat n)" "CHR ''}'' \<notin> set (number_int i)"
  using number_nat_digits [of "CHR ''}''" n] number_chars [of "CHR ''}''" i] by (auto simp: separators)

lemma entry_close:
  assumes "clean_entry e"
  shows "strstr ''}'' (entry_text e @ s) = Some (CHR ''}'' # s)"
proof -
  have "entry_text e = butlast (entry_text e) @ ''}''" by (simp add: entry_text_def butlast_append)
  moreover have "CHR ''}'' \<notin> set (butlast (entry_text e))"
    using assms json_quote_brace
    by (simp add: entry_text_def butlast_append clean_entry_def number_no_brace json_key_def quote_char_def)
  then have "strstr ''}'' (butlast (entry_text e) @ CHR ''}'' # s) = strstr ''}'' (CHR ''}'' # s)"
    by (intro strstr_skip) simp_all
  ultimately show ?thesis by (metis append.assoc append_Cons append_Nil strstr_single)
qed

lemma entry_open: "strstr ''{'' (entry_text e @ s) = Some (entry_text e @ s)"
  by (rule strstr_here) (simp add: entry_text_def)

lemma entry_comma: "strstr ''{'' (CHR '','' # entry_text e @ s) = Some (entry_text e @ s)"
  by (simp add: strstr_single entry_open)

lemma entry_bracket: "strstr '']'' (CHR '','' # entry_text e @ s) = Some nc \<Longrightarrow> length nc < length (entry_text e @ s)"
  by (auto simp: strstr_single entry_text_def dest!: strstr_length)

lemma array_goes_on: "\<not> array_ends (CHR '','' # entry_text e @ s)" and array_has_more: "more_entries (CHR '','' # entry_text e @ s)"
  using entry_bracket [of e s]
  by (auto simp: array_ends_def more_entries_def entry_comma behind_def dest: less_asym split: option.split)

lemma array_stops: "CHR ''{'' \<notin> set rest \<Longrightarrow> array_ends (CHR '']'' # rest) \<and> \<not> more_entries (CHR '']'' # rest)"
  by (simp add: array_ends_def more_entries_def strstr_none)

lemma parse_comma: "0 < room \<Longrightarrow> clean_entry e \<Longrightarrow> parse_entries room (CHR '','' # entry_text e @ s) = parse_entries room (entry_text e @ s)"
  by (cases room) (simp_all add: entry_comma entry_open entry_close)

lemma parse_entries_text:
  assumes "es \<noteq> []" "0 < room" "\<forall>e \<in> set es. clean_entry e" "CHR ''{'' \<notin> set rest"
  shows "\<exists>q. parse_entries room (join_with '','' (map entry_text es) @ CHR '']'' # rest) = (map client_entry (take room es), q)
     \<and> (more_entries q \<longleftrightarrow> room < length es)"
  using assms
proof (induction es arbitrary: room)
  case (Cons e es)
  then obtain n where room: "room = Suc n" by (cases room) auto
  show ?case
  proof (cases es)
    case Nil
    then show ?thesis
      using Cons.prems array_stops [of rest] by (simp add: room entry_open entry_close read_entry_text Let_def)
  next
    case (Cons e' es')
    let ?tail = "join_with '','' (map entry_text es) @ CHR '']'' # rest"
    obtain s where s: "?tail = entry_text e' @ s" using Cons by (cases es') simp_all
    have whole: "join_with '','' (map entry_text (e # es)) @ CHR '']'' # rest = entry_text e @ CHR '','' # ?tail"
      using Cons by simp
    have step: "parse_entries (Suc n) (entry_text e @ CHR '','' # ?tail)
        = (case parse_entries n (CHR '','' # ?tail) of (fs, q) \<Rightarrow> (client_entry e # fs, q))"
      using Cons.prems(3) unfolding s by (simp add: entry_open entry_close read_entry_text array_goes_on Let_def)
    show ?thesis
    proof (cases n)
      case 0
      have "more_entries (CHR '','' # ?tail)" unfolding s by (rule array_has_more)
      moreover have "parse_entries (Suc 0) (entry_text e @ CHR '','' # ?tail) = ([client_entry e], CHR '','' # ?tail)"
        using step unfolding 0 by simp
      ultimately show ?thesis unfolding room whole 0 by (simp only:) (simp add: Cons)
    next
      case (Suc m)
      have "parse_entries n (CHR '','' # ?tail) = parse_entries n ?tail"
        unfolding s Suc using Cons.prems(3) Cons by (intro parse_comma) simp_all
      moreover obtain q where "parse_entries n ?tail = (map client_entry (take n es), q)" "more_entries q \<longleftrightarrow> n < length es"
        using Cons.IH [of n] Cons.prems Cons Suc by auto
      ultimately show ?thesis using step unfolding room whole by (simp only:) simp
    qed
  qed
qed simp

section \<open>The whole reply\<close>

definition info_text :: "free_run \<Rightarrow> shm_map \<Rightarrow> string" where
  "info_text s m = CHR ''{'' # json_key ''active_buffer'' @ number_int (sint (active_buffer (sm_header m)))
     @ '','' @ json_key ''data_size'' @ number_int (sint (data_size (sm_header m)))
     @ '','' @ json_key ''layout'' @ ''['' @ join_with '','' (map entry_text (fr_entries s)) @ '']''
     @ '','' @ json_key ''layout_version'' @ number_int (sint (layout_version (sm_header m)))
     @ '','' @ json_key ''shm_name'' @ json_quote kShmName
     @ '','' @ json_key ''version'' @ number_int (sint (version (sm_header m))) @ ''}''"

lemma compact_info:
  assumes "fr_shm s = Some m"
  shows "json_compact fr (JObj (shmInfo s)) = info_text s m"
proof -
  have order: "sort_key fst [(''shm_name'', a), (''data_size'', b), (''layout_version'', c), (''active_buffer'', d), (''version'', e), (''layout'', f)]
     = [(''active_buffer'', d), (''data_size'', b), (''layout'', f), (''layout_version'', c), (''shm_name'', a), (''version'', e)]"
    for a b c d e f :: string by (simp add: less_char_def)
  have "json_compact fr \<circ> entry_json = entry_text" by (rule ext) (simp add: compact_entry)
  then show ?thesis
    using assms
    by (simp add: shmInfo_def order compact_jint json_quote_key info_text_def entry_json_def [symmetric] del: sort_key_simps)
qed

definition reply_text :: "string \<Rightarrow> free_run \<Rightarrow> shm_map \<Rightarrow> string" where
  "reply_text rid s m = CHR ''{'' # json_key ''id'' @ json_quote rid @ '','' @ json_key ''ok'' @ ''true'' @ '','' @ json_key ''result'' @ info_text s m @ ''}''"

lemma compact_reply:
  assumes "fr_shm s = Some m"
  shows "json_compact fr (success rid (shmInfo s)) = reply_text rid s m"
proof -
  have order: "sort_key fst [(''id'', a), (''ok'', b), (''result'', c)] = [(''id'', a), (''ok'', b), (''result'', c)]"
    for a b c :: string by (simp add: less_char_def)
  show ?thesis
    using compact_info [OF assms, of fr] by (simp add: success_def order json_quote_key reply_text_def del: sort_key_simps)
qed

lemma starts_with_left: "starts_with (p @ q) s \<Longrightarrow> starts_with p s"
  by (auto simp: starts_with_iff)

lemma strstr_extend: "strstr p s = Some t \<Longrightarrow> starts_with (p @ q) t \<Longrightarrow> strstr (p @ q) s = Some t"
proof (induction s)
  case (Cons c s)
  then show ?case
    using strstr_here [of "p @ q" t] starts_with_left [of p q] by (auto simp: strstr.simps split: if_splits)
qed (auto simp: strstr.simps starts_with_iff split: if_splits)

lemma text_no_brace: "CHR ''{'' \<notin> set (number_int i)"
  using number_chars [of "CHR ''{''" i] by (auto simp: is_digit_def code_of_def)

text \<open>
  The layout comes back: of what the daemon answers, the scanner makes the list of its entries, up to the room the client has,
  marked if there were more, with the size of the image.
\<close>

lemma layout_of_info:
  assumes "fr_entries s \<noteq> []" and "\<forall>e \<in> set (fr_entries s). clean_entry e" and "CHR ''{'' \<notin> set rest"
  shows "layout_parse_from_shm_info_json (info_text s m @ rest)
     = (True, \<lparr>ly_entries = map client_entry (take LAYOUT_MAX_ENTRIES (fr_entries s)), ly_data_size = data_size (sm_header m),
              ly_truncated = (LAYOUT_MAX_ENTRIES < length (fr_entries s))\<rparr>)"
proof -
  define tail where "tail = CHR '','' # json_key ''layout_version'' @ number_int (sint (layout_version (sm_header m)))
     @ '','' @ json_key ''shm_name'' @ json_quote kShmName @ '','' @ json_key ''version'' @ number_int (sint (version (sm_header m))) @ ''}'' @ rest"
  define body where "body = join_with '','' (map entry_text (fr_entries s)) @ CHR '']'' # tail"
  have room: "0 < LAYOUT_MAX_ENTRIES" by (simp add: LAYOUT_MAX_ENTRIES_def)
  have "json_quote kShmName = quote_char # kShmName @ [quote_char]"
    by (simp add: json_quote_def json_escape_def kShmName_def json_char_plain code_of_def)
  then have "CHR ''{'' \<notin> set tail"
    using assms(3) by (simp add: tail_def json_key_def text_no_brace quote_char_def kShmName_def)
  then obtain q where q: "parse_entries LAYOUT_MAX_ENTRIES body = (map client_entry (take LAYOUT_MAX_ENTRIES (fr_entries s)), q)"
    "more_entries q \<longleftrightarrow> LAYOUT_MAX_ENTRIES < length (fr_entries s)"
    unfolding body_def using parse_entries_text [OF assms(1) room assms(2)] by blast
  have whole: "info_text s m @ rest = CHR ''{'' # json_key ''active_buffer'' @ number_int (sint (active_buffer (sm_header m)))
     @ CHR '','' # json_key ''data_size'' @ number_int (sint (data_size (sm_header m))) @ CHR '','' # json_key ''layout'' @ CHR ''['' # body"
    by (simp add: info_text_def body_def tail_def)
  have "strstr (json_key ''layout'') (info_text s m @ rest) = Some (json_key ''layout'' @ CHR ''['' # body)"
    unfolding whole by (simp add: strstr_simps separators)
  then have lay: "strstr layout_needle (info_text s m @ rest) = Some (layout_needle @ body)"
    unfolding layout_needle_def by (rule strstr_extend [THEN trans]) (simp_all add: starts_with_iff)
  have "number_field ''data_size'' (info_text s m @ rest) = data_size (sm_header m)"
    unfolding whole by (simp add: number_field_simps strstr_simps separators)
  then show ?thesis
    using q assms(1) room by (simp add: layout_parse_from_shm_info_json_def lay) (auto simp: LAYOUT_MAX_ENTRIES_def)
qed

text \<open>The name and the version behind the layout are found past the entries, whatever their names.\<close>

lemma strstr_entries:
  assumes "plain_key k" "k \<notin> {''bitLength'', ''direction'', ''index'', ''name'', ''offset'', ''slave'', ''subindex''}"
  shows "strstr (json_key k) (join_with '','' (map entry_text es) @ CHR '']'' # s) = strstr (json_key k) (CHR '']'' # s)"
proof -
  have hd: "hd k \<noteq> CHR '',''"
    using assms(1) by (cases k) (auto simp: plain_key_def code_of_def)
  have one: "strstr (json_key k) (entry_text e @ s) = strstr (json_key k) s" for e s
    using assms hd by (simp add: entry_text_def strstr_simps separators)
  show ?thesis
  proof (induction es)
    case (Cons e es)
    then show ?case by (cases es) (simp_all add: one strstr_key_char separators)
  qed simp
qed

lemma info_rest:
  assumes "plain_key k" "k \<notin> {''bitLength'', ''direction'', ''index'', ''name'', ''offset'', ''slave'', ''subindex''}"
    and "k \<notin> {''active_buffer'', ''data_size'', ''layout''}"
  shows "strstr (json_key k) (info_text s m @ rest) = strstr (json_key k)
     (json_key ''layout_version'' @ number_int (sint (layout_version (sm_header m))) @ CHR '','' # json_key ''shm_name'' @ json_quote kShmName
        @ CHR '','' # json_key ''version'' @ number_int (sint (version (sm_header m))) @ CHR ''}'' # rest)"
  using assms(1,3) strstr_entries [OF assms(1,2)] by (simp add: info_text_def strstr_simps separators)

lemma version_in_info: "number_field ''layout_version'' (info_text s m @ rest) = layout_version (sm_header m)"
  by (simp add: number_field_def after_key_def info_rest strstr_key_here scan_number_int separators)

lemma info_in_reply: "strstr (json_key ''result'') (reply_text rid s m) = Some (json_key ''result'' @ info_text s m @ ''}'')"
proof -
  have hd: "hd ''result'' \<noteq> CHR '',''" by simp
  show ?thesis by (simp add: reply_text_def strstr_simps separators quote_char_def)
qed

end
