(* ===== verification/NekoClient.thy ===== *)
theory NekoClient
  imports ClientText ByteOrder
begin

text \<open>
  The C client library (\<^verbatim>\<open>client/nekoecat_client.c\<close>): connecting, remote calls, attaching to the shared memory, the
  accesses to it and the waiting. The operating system is the parameter \<open>posix\<close>; a call answers and yields the world
  after, in which other processes may have run. A mapping is named by its address; the client's log has every descriptor
  and mapping it takes or gives back, and each of its accesses to mapped memory with the bytes touched. Memory
  allocation succeeds; a null client, for which every function answers false or nothing, is left out, and so are the test
  helpers.
\<close>

section \<open>The operating system\<close>

record 'w posix =
  px_socket :: "'w \<Rightarrow> int \<times> 'w"
  px_resolve :: "string \<Rightarrow> u16 \<Rightarrow> 'w \<Rightarrow> nat"             \<comment> \<open>the number of addresses\<close>
  px_connect :: "int \<Rightarrow> nat \<Rightarrow> 'w \<Rightarrow> bool \<times> 'w"
  px_send :: "int \<Rightarrow> string \<Rightarrow> 'w \<Rightarrow> bool \<times> 'w"          \<comment> \<open>whether all was sent\<close>
  px_recv :: "int \<Rightarrow> 'w \<Rightarrow> char option \<times> 'w"
  px_close :: "int \<Rightarrow> 'w \<Rightarrow> 'w"
  px_getenv :: "string \<Rightarrow> 'w \<Rightarrow> string option"
  px_shm_open :: "string \<Rightarrow> 'w \<Rightarrow> int \<times> 'w"
  px_fstat :: "int \<Rightarrow> 'w \<Rightarrow> nat option"                  \<comment> \<open>the size\<close>
  px_mmap :: "int \<Rightarrow> nat \<Rightarrow> 'w \<Rightarrow> nat option \<times> 'w"
  px_munmap :: "nat \<Rightarrow> nat \<Rightarrow> 'w \<Rightarrow> 'w"
  px_header :: "nat \<Rightarrow> 'w \<Rightarrow> shm_header \<times> 'w"           \<comment> \<open>an atomic load from the header at an address\<close>
  px_load :: "nat \<Rightarrow> nat \<Rightarrow> 'w \<Rightarrow> byte list \<times> 'w"      \<comment> \<open>\<open>memcpy\<close> from an address\<close>
  px_store :: "nat \<Rightarrow> byte list \<Rightarrow> 'w \<Rightarrow> 'w"
  px_now :: "'w \<Rightarrow> u64 \<times> 'w"
  px_sleep :: "u64 \<Rightarrow> 'w \<Rightarrow> 'w"

datatype os_call = OpenedFd int | ClosedFd int | Mapped nat nat | Unmapped nat nat | Touched nat nat

record 'w neko =
  nk_outside :: 'w
  nk_sock :: int
  nk_shm_fd :: int
  nk_shm_ptr :: "nat option"
  nk_shm_size :: nat
  nk_hdr :: "nat option"
  nk_data0 :: "nat option"
  nk_data1 :: "nat option"
  nk_attached :: bool
  nk_state_error :: bool
  nk_mapped_data_size :: u32
  nk_known_layout_version :: u32
  nk_last_err :: string
  nk_last_version :: u64
  nk_layout :: shm_layout
  nk_calls :: "os_call list"

definition SHM_HEADER_SIZE :: nat where "SHM_HEADER_SIZE = 56"
definition SHM_MAX :: u32 where "SHM_MAX = 4096"

definition nekoecat_client_create :: "'w \<Rightarrow> 'w neko" where
  \<comment> \<open>\<open>calloc\<close>, then the socket: the other descriptor is 0\<close>
  "nekoecat_client_create w = \<lparr>nk_outside = w, nk_sock = - 1, nk_shm_fd = 0, nk_shm_ptr = None, nk_shm_size = 0, nk_hdr = None,
     nk_data0 = None, nk_data1 = None, nk_attached = False, nk_state_error = False, nk_mapped_data_size = 0,
     nk_known_layout_version = 0, nk_last_err = '''', nk_last_version = 0,
     nk_layout = \<lparr>ly_entries = [], ly_data_size = 0, ly_truncated = False\<rparr>, nk_calls = []\<rparr>"

definition set_error :: "string \<Rightarrow> 'w neko \<Rightarrow> 'w neko" where
  "set_error msg c = c\<lparr>nk_last_err := take 255 msg\<rparr>"

definition logged :: "os_call \<Rightarrow> 'w neko \<Rightarrow> 'w neko" where
  "logged call c = c\<lparr>nk_calls := nk_calls c @ [call]\<rparr>"

definition close_fd :: "'w posix \<Rightarrow> int \<Rightarrow> 'w neko \<Rightarrow> 'w neko" where
  "close_fd px fd c = logged (ClosedFd fd) (c\<lparr>nk_outside := px_close px fd (nk_outside c)\<rparr>)"

definition unmap :: "'w posix \<Rightarrow> nat \<Rightarrow> 'w neko \<Rightarrow> 'w neko" where
  "unmap px a c = logged (Unmapped a (nk_shm_size c)) (c\<lparr>nk_outside := px_munmap px a (nk_shm_size c) (nk_outside c)\<rparr>)"

section \<open>Connecting\<close>

fun try_connect :: "'w posix \<Rightarrow> int \<Rightarrow> nat list \<Rightarrow> 'w \<Rightarrow> bool \<times> 'w" where
  "try_connect px sock [] w = (False, w)"
| "try_connect px sock (ai # ais) w =
     (case px_connect px sock ai w of (ok, w') \<Rightarrow> if ok then (True, w') else try_connect px sock ais w')"

definition drop_socket :: "'w posix \<Rightarrow> string \<Rightarrow> string \<Rightarrow> 'w neko \<Rightarrow> (bool \<times> string option) \<times> 'w neko" where
  "drop_socket px msg err c = ((False, Some err), (close_fd px (nk_sock c) (set_error msg c))\<lparr>nk_sock := - 1\<rparr>)"

definition nekoecat_client_connect :: "'w posix \<Rightarrow> string option \<Rightarrow> u16 \<Rightarrow> 'w neko \<Rightarrow> (bool \<times> string option) \<times> 'w neko" where
  \<comment> \<open>the second answer is the text copied to the caller's buffer\<close>
  "nekoecat_client_connect px host port c =
     (let (fd, w) = px_socket px (nk_outside c); c1 = c\<lparr>nk_sock := fd, nk_outside := w\<rparr>
      in if fd < 0 then ((False, Some ''socket fail''), set_error ''socket fail'' c1)
         else
           let c2 = logged (OpenedFd fd) c1; h = (case host of None \<Rightarrow> ''127.0.0.1'' | Some x \<Rightarrow> x);
               n = px_resolve px h port (nk_outside c2)
           in if n = 0 then drop_socket px (''getaddrinfo failed for '' @ h) ''getaddrinfo failed'' c2
              else
                let (ok, w') = try_connect px fd [0..<n] (nk_outside c2); c3 = c2\<lparr>nk_outside := w'\<rparr>
                in if ok then ((True, None), c3) else drop_socket px ''connect fail'' ''connect fail'' c3)"

definition close_shm_fd :: "'w posix \<Rightarrow> 'w neko \<Rightarrow> 'w neko" where
  "close_shm_fd px c = (close_fd px (nk_shm_fd c) c)\<lparr>nk_shm_fd := - 1\<rparr>"

definition nekoecat_client_disconnect :: "'w posix \<Rightarrow> 'w neko \<Rightarrow> 'w neko" where
  "nekoecat_client_disconnect px c =
     (let c1 = (case nk_shm_ptr c of None \<Rightarrow> c | Some a \<Rightarrow> (unmap px a c)\<lparr>nk_shm_ptr := None\<rparr>);
          c2 = (if nk_shm_fd c1 \<ge> 0 then close_shm_fd px c1 else c1);
          c3 = (if nk_sock c2 \<ge> 0 then (close_fd px (nk_sock c2) c2)\<lparr>nk_sock := - 1\<rparr> else c2)
      in c3\<lparr>nk_attached := False, nk_hdr := None, nk_data0 := None, nk_data1 := None, nk_shm_size := 0\<rparr>)"

section \<open>Remote calls\<close>

definition send_line :: "'w posix \<Rightarrow> int \<Rightarrow> string \<Rightarrow> 'w \<Rightarrow> bool \<times> 'w" where
  "send_line px sock s w = (let line = s @ [newline] in if length line \<ge> 1024 then (False, w) else px_send px sock line w)"

fun recv_chars :: "'w posix \<Rightarrow> int \<Rightarrow> nat \<Rightarrow> string \<Rightarrow> 'w \<Rightarrow> string option \<times> 'w" where
  \<comment> \<open>with the number of characters that may still be read\<close>
  "recv_chars px sock 0 buf w = (None, w)"
| "recv_chars px sock (Suc room) buf w =
     (case px_recv px sock w of
        (None, w') \<Rightarrow> (None, w')
      | (Some ch, w') \<Rightarrow> if ch = newline then (Some buf, w') else recv_chars px sock room (buf @ [ch]) w')"

definition kMaxRpcResponse :: nat where "kMaxRpcResponse = 1048576"

definition recv_line :: "'w posix \<Rightarrow> int \<Rightarrow> 'w \<Rightarrow> string option \<times> 'w" where
  \<comment> \<open>the buffer doubles from 512 to the cap; a character is read while one more and the end fit\<close>
  "recv_line px sock w = recv_chars px sock (kMaxRpcResponse - 1) '''' w"

definition ok_needle :: string where "ok_needle = json_key ''ok'' @ ''true''"

definition rpc_call :: "'w posix \<Rightarrow> string \<Rightarrow> string \<Rightarrow> 'w neko \<Rightarrow> string option \<times> 'w neko" where
  "rpc_call px method params c =
     (let req = take 511 (CHR ''{'' # json_key ''id'' @ json_quote ''1'' @ '','' @ json_key ''method'' @ quote_char # method
                @ quote_char # '','' @ json_key ''params'' @ params @ ''}'');
          (sent, w1) = send_line px (nk_sock c) req (nk_outside c); c1 = c\<lparr>nk_outside := w1\<rparr>
      in if \<not> sent then (None, set_error (''rpc send failed ('' @ method @ '')'') c1)
         else
           let (resp, w2) = recv_line px (nk_sock c1) (nk_outside c1); c2 = c1\<lparr>nk_outside := w2\<rparr>
           in case resp of
                None \<Rightarrow> (None, set_error (''rpc recv failed ('' @ method @ '')'') c2)
              | Some line \<Rightarrow> if strstr ok_needle line = None then (None, set_error (''rpc '' @ method @ '' rejected'') c2)
                  else (Some line, c2))"

section \<open>Attaching\<close>

definition default_shm_name :: string where "default_shm_name = ''/nekoecat_proc_0''"

definition shm_name_in :: "string \<Rightarrow> string" where
  "shm_name_in s = (let needle = json_key ''shm_name'' @ [quote_char] in
     case Option.bind (strstr needle s) (\<lambda>f. scan_until_quote 63 (drop (length needle) f)) of None \<Rightarrow> default_shm_name | Some n \<Rightarrow> n)"

definition inner_result :: "string \<Rightarrow> string" where
  "inner_result resp = (case strstr (json_key ''result'') resp of
       None \<Rightarrow> resp
     | Some res \<Rightarrow> (case strchr res (CHR ''{'') of None \<Rightarrow> resp | Some start \<Rightarrow> start))"

definition daemon_address :: "'w posix \<Rightarrow> 'w \<Rightarrow> string \<times> u16" where
  "daemon_address px w =
     ((case px_getenv px ''NEKOECAT_DAEMON_HOST'' w of None \<Rightarrow> ''127.0.0.1'' | Some h \<Rightarrow> h),
      (case px_getenv px ''NEKOECAT_DAEMON_PORT'' w of None \<Rightarrow> 5877 | Some p \<Rightarrow> word_of_int (or_zero (scan_int p))))"

definition clamp_data_size :: "u32 \<Rightarrow> u32" where
  "clamp_data_size d = (if d = 0 \<or> d > SHM_MAX then SHM_MAX else d)"

definition attach_fail :: "string \<Rightarrow> string \<Rightarrow> 'w neko \<Rightarrow> (bool \<times> string option) \<times> 'w neko" where
  "attach_fail msg err c = ((False, Some err), set_error msg c)"

definition load_header :: "'w posix \<Rightarrow> nat \<Rightarrow> 'w neko \<Rightarrow> shm_header \<times> 'w neko" where
  "load_header px a c = (let (h, w) = px_header px a (nk_outside c) in (h, logged (Touched a SHM_HEADER_SIZE) (c\<lparr>nk_outside := w\<rparr>)))"

definition mapping_size :: "nat \<Rightarrow> u32 \<Rightarrow> nat" where
  \<comment> \<open>never past the object's real size\<close>
  "mapping_size st dsize = (let want = SHM_HEADER_SIZE + 2 * unat dsize in if st < want then st else want)"

definition attach_mapped :: "'w posix \<Rightarrow> nat \<Rightarrow> shm_layout \<Rightarrow> u32 \<Rightarrow> u32 \<Rightarrow> 'w neko \<Rightarrow> (bool \<times> string option) \<times> 'w neko" where
  \<comment> \<open>from the mapping on: the sizes are compared, the members set, the layout versions compared\<close>
  "attach_mapped px a layout lver dsize c =
     (let (h, c1) = load_header px a (c\<lparr>nk_hdr := Some a\<rparr>)
      in if data_size h \<noteq> dsize then
           ((False, Some ''shm data_size mismatch (daemon restarted?)''),
            close_shm_fd px ((unmap px a (set_error (''attach: shm data_size changed (header='' @ number_nat (unat (data_size h))
              @ '', layout='' @ number_nat (unat dsize) @ '')'') c1))\<lparr>nk_shm_ptr := None\<rparr>))
         else
           let d0 = a + SHM_HEADER_SIZE;
               c2 = c1\<lparr>nk_data0 := Some d0, nk_data1 := Some (d0 + unat dsize), nk_mapped_data_size := dsize, nk_layout := layout,
                 nk_known_layout_version := lver, nk_attached := True, nk_state_error := False\<rparr>;
               (h', c3) = load_header px a c2; c4 = c3\<lparr>nk_last_version := version h'\<rparr>;
               (h'', c5) = load_header px a c4
           in if lver \<noteq> 0 \<and> layout_version h'' \<noteq> lver then
                ((True, Some ''layout version mismatch''), (set_error (''attach: layout version mismatch (header=''
                  @ number_nat (unat (layout_version h'')) @ '', layout='' @ number_nat (unat lver) @ '')'') c5)\<lparr>nk_state_error := True\<rparr>)
              else ((True, None), c5))"

definition attach_shm :: "'w posix \<Rightarrow> string \<Rightarrow> shm_layout \<Rightarrow> u32 \<Rightarrow> u32 \<Rightarrow> 'w neko \<Rightarrow> (bool \<times> string option) \<times> 'w neko" where
  "attach_shm px shmname layout lver dsize c =
     (let (fd, w1) = px_shm_open px shmname (nk_outside c); c1 = c\<lparr>nk_shm_fd := fd, nk_outside := w1\<rparr>
      in if fd < 0 then attach_fail (''shm_open fail ('' @ shmname @ '')'') ''shm_open fail'' c1
         else
           let c2 = logged (OpenedFd fd) c1
           in case px_fstat px fd (nk_outside c2) of
                None \<Rightarrow> attach_fail (''shm fstat fail ('' @ shmname @ '')'') ''shm fstat fail'' (close_shm_fd px c2)
              | Some st \<Rightarrow>
                  if st < SHM_HEADER_SIZE then attach_fail (''shm fstat fail ('' @ shmname @ '')'') ''shm fstat fail'' (close_shm_fd px c2)
                  else
                    let size = mapping_size st dsize; (m, w2) = px_mmap px fd size (nk_outside c2);
                        c3 = c2\<lparr>nk_shm_size := size, nk_outside := w2\<rparr>
                    in case m of
                         None \<Rightarrow> attach_fail ''mmap fail'' ''mmap fail'' ((close_shm_fd px c3)\<lparr>nk_shm_ptr := None\<rparr>)
                       | Some a \<Rightarrow> attach_mapped px a layout lver dsize (logged (Mapped a size) (c3\<lparr>nk_shm_ptr := Some a\<rparr>)))"

definition attach_layout :: "'w posix \<Rightarrow> string \<Rightarrow> string \<Rightarrow> 'w neko \<Rightarrow> (bool \<times> string option) \<times> 'w neko" where
  \<comment> \<open>with the text of the layout and the error for a text without one\<close>
  "attach_layout px text invalid c =
     (let (ok, parsed) = layout_parse_from_shm_info_json text
      in if \<not> ok then attach_fail invalid invalid c
         else attach_shm px (shm_name_in text) parsed (number_field ''layout_version'' text) (clamp_data_size (ly_data_size parsed)) c)"

definition attach_connected :: "'w posix \<Rightarrow> string option \<Rightarrow> 'w neko \<Rightarrow> (bool \<times> string option) \<times> 'w neko" where
  "attach_connected px layout_json c =
     (case layout_json of
        Some (x # xs) \<Rightarrow> attach_layout px (x # xs) ''attach: invalid layout_json'' c
      | _ \<Rightarrow>
          let (resp, c1) = rpc_call px ''freeRunShmInfo'' ''{}'' c
          in case resp of
               None \<Rightarrow> ((False, Some (nk_last_err c1)), c1)
             | Some r \<Rightarrow> attach_layout px (inner_result r) ''attach: failed to parse layout from shmInfo'' c1)"

definition nekoecat_client_attach :: "'w posix \<Rightarrow> string option \<Rightarrow> 'w neko \<Rightarrow> (bool \<times> string option) \<times> 'w neko" where
  "nekoecat_client_attach px layout_json c =
     (if nk_sock c < 0 then
        let (host, port) = daemon_address px (nk_outside c); ((ok, err), c1) = nekoecat_client_connect px (Some host) port c
        in if \<not> ok then ((False, err), c1) else attach_connected px layout_json c1
      else attach_connected px layout_json c)"

definition nekoecat_client_start_freerun :: "'w posix \<Rightarrow> string option \<Rightarrow> 'w neko \<Rightarrow> (bool \<times> string option) \<times> 'w neko" where
  "nekoecat_client_start_freerun px mapping_json c =
     (let params = take 255 (CHR ''{'' # json_key ''mapping'' @ (case mapping_json of None \<Rightarrow> ''null'' | Some j \<Rightarrow> j) @ ''}'');
          (resp, c1) = rpc_call px ''freeRunStart'' params c
      in case resp of None \<Rightarrow> ((False, Some (nk_last_err c1)), c1) | Some r \<Rightarrow> nekoecat_client_attach px None c1)"

definition nekoecat_client_stop_freerun :: "'w posix \<Rightarrow> 'w neko \<Rightarrow> (bool \<times> string option) \<times> 'w neko" where
  "nekoecat_client_stop_freerun px c =
     (let (resp, c1) = rpc_call px ''freeRunStop'' ''{}'' c
      in case resp of None \<Rightarrow> ((False, Some (nk_last_err c1)), c1) | Some r \<Rightarrow> ((True, None), c1))"

section \<open>Waiting\<close>

definition poll_interval :: "u64 \<Rightarrow> u64" where
  "poll_interval timeout = (let p = (if timeout > 0 \<and> timeout < 100000 then timeout else 100000) in if p < 50000 then 50000 else p)"

partial_function (option) wait_loop ::
  "'w posix \<Rightarrow> nat \<Rightarrow> u64 \<Rightarrow> u64 \<Rightarrow> u64 \<Rightarrow> 'w neko \<Rightarrow> (bool \<times> 'w neko) option" where
  "wait_loop px a target timeout start c =
     (case load_header px a c of
        (h, c1) \<Rightarrow>
          if version h > target then Some (True, c1)
          else
            (case px_now px (nk_outside c1) of
               (now, w) \<Rightarrow>
                 if now - start \<ge> timeout then Some (False, c1\<lparr>nk_outside := w\<rparr>)
                 else wait_loop px a target timeout start
                   (c1\<lparr>nk_outside := px_sleep px (min (timeout - (now - start)) (poll_interval timeout)) w\<rparr>)))"

definition nekoecat_client_wait_next_cycle :: "'w posix \<Rightarrow> int \<Rightarrow> 'w neko \<Rightarrow> (bool \<times> 'w neko) option" where
  \<comment> \<open>\<open>None\<close>: it never returns; the timeout is an \<open>int64_t\<close>\<close>
  "nekoecat_client_wait_next_cycle px timeout_ns c =
     (case (nk_attached c, nk_hdr c) of
        (True, Some a) \<Rightarrow>
          if timeout_ns < 0 then Some (False, set_error ''wait_next_cycle: negative timeout'' c)
          else
            let (start, w) = px_now px (nk_outside c); (h, c1) = load_header px a (c\<lparr>nk_outside := w\<rparr>)
            in wait_loop px a (version h) (word_of_int timeout_ns) start c1
      | _ \<Rightarrow> Some (False, set_error ''wait_next_cycle: not attached'' c))"

definition nekoecat_client_try_wait_next_cycle :: "'w posix \<Rightarrow> 'w neko \<Rightarrow> bool \<times> 'w neko" where
  "nekoecat_client_try_wait_next_cycle px c =
     (case nk_hdr c of
        None \<Rightarrow> (False, c)
      | Some a \<Rightarrow> (case load_header px a c of
          (h, c1) \<Rightarrow> if version h > nk_last_version c then (True, c1\<lparr>nk_last_version := version h\<rparr>) else (False, c1)))"

section \<open>Accesses\<close>

definition effective_data_size :: "'w posix \<Rightarrow> 'w neko \<Rightarrow> u32 \<times> 'w neko" where
  "effective_data_size px c =
     (case nk_hdr c of
        None \<Rightarrow> (0, c)
      | Some a \<Rightarrow>
          let mapped = clamp_data_size (nk_mapped_data_size c); (h, c1) = load_header px a c; hsz = data_size h
          in (if hsz = 0 \<or> hsz > SHM_MAX \<or> hsz > mapped then mapped else hsz, c1))"

definition check_bounds :: "'w posix \<Rightarrow> u32 \<Rightarrow> u32 \<Rightarrow> 'w neko \<Rightarrow> bool \<times> 'w neko" where
  "check_bounds px off width c =
     (if off = - 1 then (False, c)
      else case effective_data_size px c of (sz, c1) \<Rightarrow> (\<not> width > sz \<and> \<not> off > sz - width, c1))"

definition get_active_data :: "'w posix \<Rightarrow> 'w neko \<Rightarrow> nat option \<times> 'w neko" where
  "get_active_data px c =
     (case nk_hdr c of
        None \<Rightarrow> (None, c)
      | Some a \<Rightarrow> (case load_header px a c of
          (h, c1) \<Rightarrow> (if active_buffer h > 1 then None else if active_buffer h = 0 then nk_data0 c1 else nk_data1 c1, c1)))"

definition load_bytes :: "'w posix \<Rightarrow> nat \<Rightarrow> nat \<Rightarrow> 'w neko \<Rightarrow> byte list \<times> 'w neko" where
  "load_bytes px a n c = (let (bs, w) = px_load px a n (nk_outside c) in (bs, logged (Touched a n) (c\<lparr>nk_outside := w\<rparr>)))"

definition store_bytes :: "'w posix \<Rightarrow> nat \<Rightarrow> byte list \<Rightarrow> 'w neko \<Rightarrow> 'w neko" where
  "store_bytes px a bs c = logged (Touched a (length bs)) (c\<lparr>nk_outside := px_store px a bs (nk_outside c)\<rparr>)"

fun read_attempts :: "'w posix \<Rightarrow> nat \<Rightarrow> nat \<Rightarrow> nat \<Rightarrow> nat \<Rightarrow> 'w neko \<Rightarrow> byte list option \<times> 'w neko" where
  \<comment> \<open>with the attempts left\<close>
  "read_attempts px a 0 off n c = (None, set_error ''read_raw_at: version changed during read'' c)"
| "read_attempts px a (Suc k) off n c =
     (case load_header px a c of
        (h1, c1) \<Rightarrow>
          (case get_active_data px c1 of
             (None, c2) \<Rightarrow> (None, set_error ''read_raw_at: invalid active buffer'' c2)
           | (Some d, c2) \<Rightarrow>
               (case load_bytes px (d + off) n c2 of
                  (bs, c3) \<Rightarrow>
                    (case load_header px a c3 of
                       (h2, c4) \<Rightarrow> if version h1 = version h2 then (Some bs, c4) else read_attempts px a k off n c4))))"

definition access_error :: "string \<Rightarrow> u32 \<Rightarrow> u32 \<Rightarrow> string" where
  "access_error what off n = what @ '': out of bounds (off='' @ number_nat (unat off) @ '' len='' @ number_nat (unat n) @ '')''"

definition nekoecat_client_read_raw_at :: "'w posix \<Rightarrow> u32 \<Rightarrow> u32 \<Rightarrow> 'w neko \<Rightarrow> byte list option \<times> 'w neko" where
  "nekoecat_client_read_raw_at px off nbytes c =
     (case (nk_attached c, nk_hdr c) of
        (True, Some a) \<Rightarrow>
          (case check_bounds px off nbytes c of
             (ok, c1) \<Rightarrow>
               if \<not> ok then (None, set_error (access_error ''read_raw_at'' off nbytes) c1)
               else read_attempts px a 4 (unat off) (unat nbytes) c1)
      | _ \<Rightarrow> (None, set_error ''read_raw_at: not attached'' c))"

definition nekoecat_client_write_raw_at :: "'w posix \<Rightarrow> u32 \<Rightarrow> byte list \<Rightarrow> 'w neko \<Rightarrow> bool \<times> 'w neko" where
  "nekoecat_client_write_raw_at px off bs c =
     (case (nk_attached c, nk_hdr c) of
        (True, Some a) \<Rightarrow>
          (case check_bounds px off (of_nat (length bs)) c of
             (ok, c1) \<Rightarrow>
               if \<not> ok then (False, set_error (access_error ''write_raw_at'' off (of_nat (length bs))) c1)
               else (case get_active_data px c1 of
                       (None, c2) \<Rightarrow> (False, set_error ''write_raw_at: invalid active buffer'' c2)
                     | (Some d, c2) \<Rightarrow> (True, store_bytes px (d + unat off) bs c2)))
      | _ \<Rightarrow> (False, set_error ''write_raw_at: not attached'' c))"

text \<open>The typed accesses: a value of \<open>k\<close> bytes; a float is its four bytes.\<close>

definition read_value_at :: "nat \<Rightarrow> 'w posix \<Rightarrow> u32 \<Rightarrow> 'w neko \<Rightarrow> nat option \<times> 'w neko" where
  "read_value_at k px off c = (case nekoecat_client_read_raw_at px off (of_nat k) c of (bs, c1) \<Rightarrow> (map_option le_value bs, c1))"

definition write_value_at :: "nat \<Rightarrow> 'w posix \<Rightarrow> u32 \<Rightarrow> nat \<Rightarrow> 'w neko \<Rightarrow> bool \<times> 'w neko" where
  "write_value_at k px off v c = nekoecat_client_write_raw_at px off (le_bytes k v) c"

definition nekoecat_client_read_u8_at :: "'w posix \<Rightarrow> u32 \<Rightarrow> 'w neko \<Rightarrow> nat option \<times> 'w neko" where "nekoecat_client_read_u8_at = read_value_at 1"
definition nekoecat_client_read_u16_at :: "'w posix \<Rightarrow> u32 \<Rightarrow> 'w neko \<Rightarrow> nat option \<times> 'w neko" where "nekoecat_client_read_u16_at = read_value_at 2"
definition nekoecat_client_read_u32_at :: "'w posix \<Rightarrow> u32 \<Rightarrow> 'w neko \<Rightarrow> nat option \<times> 'w neko" where "nekoecat_client_read_u32_at = read_value_at 4"
definition nekoecat_client_read_u64_at :: "'w posix \<Rightarrow> u32 \<Rightarrow> 'w neko \<Rightarrow> nat option \<times> 'w neko" where "nekoecat_client_read_u64_at = read_value_at 8"
definition nekoecat_client_read_float_at :: "'w posix \<Rightarrow> u32 \<Rightarrow> 'w neko \<Rightarrow> nat option \<times> 'w neko" where "nekoecat_client_read_float_at = read_value_at 4"
definition nekoecat_client_write_u8_at :: "'w posix \<Rightarrow> u32 \<Rightarrow> nat \<Rightarrow> 'w neko \<Rightarrow> bool \<times> 'w neko" where "nekoecat_client_write_u8_at = write_value_at 1"
definition nekoecat_client_write_u16_at :: "'w posix \<Rightarrow> u32 \<Rightarrow> nat \<Rightarrow> 'w neko \<Rightarrow> bool \<times> 'w neko" where "nekoecat_client_write_u16_at = write_value_at 2"
definition nekoecat_client_write_u32_at :: "'w posix \<Rightarrow> u32 \<Rightarrow> nat \<Rightarrow> 'w neko \<Rightarrow> bool \<times> 'w neko" where "nekoecat_client_write_u32_at = write_value_at 4"
definition nekoecat_client_write_u64_at :: "'w posix \<Rightarrow> u32 \<Rightarrow> nat \<Rightarrow> 'w neko \<Rightarrow> bool \<times> 'w neko" where "nekoecat_client_write_u64_at = write_value_at 8"
definition nekoecat_client_write_float_at :: "'w posix \<Rightarrow> u32 \<Rightarrow> nat \<Rightarrow> 'w neko \<Rightarrow> bool \<times> 'w neko" where "nekoecat_client_write_float_at = write_value_at 4"

definition resolve_offset :: "u16 \<Rightarrow> u16 \<Rightarrow> byte \<Rightarrow> 'w neko \<Rightarrow> u32 option \<times> 'w neko" where
  "resolve_offset slave idx sub c =
     (let off = layout_byte_offset (nk_layout c) slave idx sub
      in if off = - 1 then (None, set_error (''layout entry not found (slave='' @ number_nat (unat slave) @ '' index=0x''
            @ number_hex (unat idx) @ '' sub=0x'' @ number_hex (unat sub) @ '')'') c)
         else (Some off, c))"

definition read_by_index :: "('w posix \<Rightarrow> u32 \<Rightarrow> 'w neko \<Rightarrow> nat option \<times> 'w neko) \<Rightarrow> 'w posix \<Rightarrow> u16 \<Rightarrow> u16 \<Rightarrow> byte \<Rightarrow> 'w neko \<Rightarrow> nat option \<times> 'w neko" where
  "read_by_index f px slave idx sub c =
     (case resolve_offset slave idx sub c of (None, c1) \<Rightarrow> (None, c1) | (Some off, c1) \<Rightarrow> f px off c1)"

definition write_by_index :: "('w posix \<Rightarrow> u32 \<Rightarrow> nat \<Rightarrow> 'w neko \<Rightarrow> bool \<times> 'w neko) \<Rightarrow> 'w posix \<Rightarrow> u16 \<Rightarrow> u16 \<Rightarrow> byte \<Rightarrow> nat \<Rightarrow> 'w neko \<Rightarrow> bool \<times> 'w neko" where
  "write_by_index f px slave idx sub v c =
     (case resolve_offset slave idx sub c of (None, c1) \<Rightarrow> (False, c1) | (Some off, c1) \<Rightarrow> f px off v c1)"

section \<open>Queries\<close>

datatype neko_state = StateDisconnected | StateConnected | StateRunning | StateDataStale | StateError

definition nekoecat_client_get_process_data_ptr :: "'w posix \<Rightarrow> 'w neko \<Rightarrow> nat option \<times> 'w neko" where
  "nekoecat_client_get_process_data_ptr px c = (if nk_attached c \<and> nk_hdr c \<noteq> None then get_active_data px c else (None, c))"

definition nekoecat_client_get_data_size :: "'w posix \<Rightarrow> 'w neko \<Rightarrow> u32 \<times> 'w neko" where
  "nekoecat_client_get_data_size px c = effective_data_size px c"

definition header_query :: "(shm_header \<Rightarrow> u64) \<Rightarrow> 'w posix \<Rightarrow> 'w neko \<Rightarrow> u64 \<times> 'w neko" where
  "header_query f px c = (case nk_hdr c of None \<Rightarrow> (0, c) | Some a \<Rightarrow> (case load_header px a c of (h, c1) \<Rightarrow> (f h, c1)))"

definition nekoecat_client_get_current_version :: "'w posix \<Rightarrow> 'w neko \<Rightarrow> u64 \<times> 'w neko" where
  "nekoecat_client_get_current_version = header_query version"

definition nekoecat_client_get_cycle_count :: "'w posix \<Rightarrow> 'w neko \<Rightarrow> u64 \<times> 'w neko" where
  "nekoecat_client_get_cycle_count = header_query cycle_count"

definition nekoecat_client_get_state :: "'w posix \<Rightarrow> 'w neko \<Rightarrow> neko_state \<times> 'w neko" where
  "nekoecat_client_get_state px c =
     (if \<not> nk_attached c then (StateDisconnected, c)
      else if nk_state_error c then (StateError, c)
      else case nk_hdr c of
        None \<Rightarrow> (StateError, c)
      | Some a \<Rightarrow>
          (case load_header px a c of
             (h, c1) \<Rightarrow>
               (case load_header px a c1 of
                  (h', c2) \<Rightarrow>
                    (if version h = 0 then StateConnected
                     else if status_flags h' AND FLAG_RUNNING \<noteq> 0 then StateRunning else StateDataStale, c2))))"

end
