(* ===== verification/NekoSafety.thy ===== *)
theory NekoSafety
  imports NekoClient
begin

text \<open>
  The memory safety of the client: its log of mappings and accesses is replayed, and no access of a client that is used
  in order falls outside the memory mapped at that moment.
\<close>

section \<open>Replaying the log\<close>

fun after_os :: "(nat \<times> nat) list \<Rightarrow> os_call list \<Rightarrow> (nat \<times> nat) list option" where
  \<comment> \<open>the live mappings after the calls; \<open>None\<close> if an access was outside them, or something else was unmapped\<close>
  "after_os M [] = Some M"
| "after_os M (Mapped a n # cs) = after_os ((a, n) # M) cs"
| "after_os M (Unmapped a n # cs) = (if (a, n) \<in> set M then after_os (remove1 (a, n) M) cs else None)"
| "after_os M (Touched a n # cs) = (if list_ex (\<lambda>(b, m). b \<le> a \<and> a + n \<le> b + m) M then after_os M cs else None)"
| "after_os M (_ # cs) = after_os M cs"

lemma after_os_append: "after_os M (cs @ ds) = Option.bind (after_os M cs) (\<lambda>N. after_os N ds)"
  by (induction M cs rule: after_os.induct) simp_all

definition live :: "'w neko \<Rightarrow> (nat \<times> nat) list option" where
  "live c = after_os [] (nk_calls c)"

lemma live_logged: "live (logged call c) = Option.bind (live c) (\<lambda>M. after_os M [call])"
  by (simp add: live_def logged_def after_os_append)

lemma live_cong: "nk_calls c' = nk_calls c \<Longrightarrow> live c' = live c"
  by (simp add: live_def)

section \<open>The invariant\<close>

definition placed :: "nat \<Rightarrow> 'w neko \<Rightarrow> bool" where
  \<comment> \<open>attached to the one mapping there is, with both buffers inside\<close>
  "placed a c \<longleftrightarrow> nk_attached c \<and> nk_shm_ptr c = Some a \<and> nk_hdr c = Some a \<and> nk_data0 c = Some (a + SHM_HEADER_SIZE)
     \<and> nk_data1 c = Some (a + SHM_HEADER_SIZE + unat (nk_mapped_data_size c))
     \<and> nk_shm_size c = SHM_HEADER_SIZE + 2 * unat (nk_mapped_data_size c)
     \<and> 0 < nk_mapped_data_size c \<and> nk_mapped_data_size c \<le> SHM_MAX \<and> live c = Some [(a, nk_shm_size c)]"

definition loose :: "'w neko \<Rightarrow> bool" where
  "loose c \<longleftrightarrow> \<not> nk_attached c \<and> nk_shm_ptr c = None \<and> live c = Some []"

definition neko_ok :: "'w neko \<Rightarrow> bool" where
  "neko_ok c \<longleftrightarrow> loose c \<or> (\<exists>a. placed a c)"

definition same_place :: "'w neko \<Rightarrow> 'w neko \<Rightarrow> bool" where
  \<comment> \<open>nothing but the world, the log, the errors and what is remembered of the versions differs, and no mapping\<close>
  "same_place c c' \<longleftrightarrow> nk_attached c' = nk_attached c \<and> nk_shm_ptr c' = nk_shm_ptr c \<and> nk_hdr c' = nk_hdr c \<and> nk_data0 c' = nk_data0 c
     \<and> nk_data1 c' = nk_data1 c \<and> nk_mapped_data_size c' = nk_mapped_data_size c \<and> nk_shm_size c' = nk_shm_size c \<and> live c' = live c"

lemma same_place_refl [simp]: "same_place c c"
  by (simp add: same_place_def)

lemma same_place_trans: "same_place c d \<Longrightarrow> same_place d e \<Longrightarrow> same_place c e"
  by (simp add: same_place_def)

lemma placed_same: "same_place c c' \<Longrightarrow> placed a c \<Longrightarrow> placed a c'"
  by (simp add: same_place_def placed_def)

lemma ok_same: "same_place c c' \<Longrightarrow> neko_ok c \<Longrightarrow> neko_ok c'"
  by (auto simp: neko_ok_def same_place_def placed_def loose_def)

lemma same_place_updates [simp]:
  "same_place c (c'\<lparr>nk_outside := w\<rparr>) = same_place c c'"
  "same_place c (c'\<lparr>nk_last_version := v\<rparr>) = same_place c c'"
  "same_place c (c'\<lparr>nk_sock := fd\<rparr>) = same_place c c'"
  "same_place c (c'\<lparr>nk_shm_fd := fd\<rparr>) = same_place c c'"
  "same_place c (c'\<lparr>nk_state_error := e\<rparr>) = same_place c c'"
  "same_place c (set_error msg c') = same_place c c'"
  by (simp_all add: same_place_def set_error_def live_def)

lemma same_place_outside [simp]: "same_place (c\<lparr>nk_outside := w\<rparr>) c' = same_place c c'"
  by (simp add: same_place_def live_def)

lemma same_place_fd [simp]:
  "same_place c (logged (OpenedFd fd) c') = same_place c c'"
  "same_place c (logged (ClosedFd fd) c') = same_place c c'"
  by (simp_all add: same_place_def live_logged) (simp_all add: logged_def)

lemma same_place_close [simp]: "same_place c (close_fd px fd c') = same_place c c'" "same_place c (close_shm_fd px c') = same_place c c'"
  by (simp_all add: close_shm_fd_def close_fd_def)

lemma loose_same: "same_place c c' \<Longrightarrow> loose c \<Longrightarrow> loose c'"
  by (simp add: same_place_def loose_def)

section \<open>Accesses stay in place\<close>

lemma header_room: "placed a c \<Longrightarrow> after_os [(a, nk_shm_size c)] [Touched a SHM_HEADER_SIZE] = Some [(a, nk_shm_size c)]"
  by (simp add: placed_def)

lemma load_header_same: "placed a c \<Longrightarrow> same_place c (snd (load_header px a c))"
  by (simp add: load_header_def same_place_def live_logged live_def split: prod.split)
     (simp add: logged_def placed_def live_def after_os_append)

lemma load_header_placed: "placed a c \<Longrightarrow> load_header px a c = (h, c') \<Longrightarrow> placed a c' \<and> same_place c c'"
  using load_header_same [of a c px] placed_same by fastforce

lemma get_active_same:
  assumes "placed a c" and "get_active_data px c = (d, c')"
  shows "same_place c c' \<and> (d = None \<or> d = Some (a + SHM_HEADER_SIZE) \<or> d = Some (a + SHM_HEADER_SIZE + unat (nk_mapped_data_size c)))"
proof -
  from assms(1) have hdr: "nk_hdr c = Some a" by (simp add: placed_def)
  obtain h c1 where l: "load_header px a c = (h, c1)" by fastforce
  from load_header_placed [OF assms(1) l] have pl: "placed a c1" "same_place c c1" by simp_all
  from pl(1) have "nk_data0 c1 = Some (a + SHM_HEADER_SIZE)" "nk_data1 c1 = Some (a + SHM_HEADER_SIZE + unat (nk_mapped_data_size c1))"
    unfolding placed_def by blast+
  moreover from pl(2) have "nk_mapped_data_size c1 = nk_mapped_data_size c" unfolding same_place_def by blast
  ultimately have p: "same_place c c1" "nk_data0 c1 = Some (a + SHM_HEADER_SIZE)"
    "nk_data1 c1 = Some (a + SHM_HEADER_SIZE + unat (nk_mapped_data_size c))" using pl(2) by simp_all
  have "c' = c1 \<and> d = (if active_buffer h > 1 then None else if active_buffer h = 0 then nk_data0 c1 else nk_data1 c1)"
    using assms(2) l by (auto simp: get_active_data_def hdr)
  then show ?thesis using p by (simp split: if_splits)
qed

lemma effective_size_same:
  assumes "placed a c" and "effective_data_size px c = (sz, c')"
  shows "same_place c c' \<and> sz \<le> nk_mapped_data_size c"
proof -
  from assms(1) have hdr: "nk_hdr c = Some a" "clamp_data_size (nk_mapped_data_size c) = nk_mapped_data_size c"
    by (auto simp: placed_def clamp_data_size_def)
  obtain h c1 where l: "load_header px a c = (h, c1)" by fastforce
  with load_header_placed [OF assms(1) l] show ?thesis
    using assms(2) hdr by (auto simp: effective_data_size_def Let_def split: if_splits)
qed

lemma check_bounds_same:
  assumes "placed a c" and "check_bounds px off n c = (ok, c')"
  shows "same_place c c' \<and> (ok \<longrightarrow> unat off + unat n \<le> unat (nk_mapped_data_size c))"
proof (cases "off = - 1")
  case True
  then show ?thesis using assms(2) by (simp add: check_bounds_def)
next
  case False
  obtain sz c1 where e: "effective_data_size px c = (sz, c1)" by fastforce
  note size = effective_size_same [OF assms(1) e]
  have "unat off + unat n \<le> unat sz" if "\<not> n > sz" "\<not> off > sz - n"
  proof -
    from that have "n \<le> sz" "off \<le> sz - n" by (simp_all add: not_less)
    then have "unat off \<le> unat sz - unat n" "unat n \<le> unat sz" by (simp_all add: unat_sub word_le_nat_alt)
    then show ?thesis by simp
  qed
  then show ?thesis using assms(2) False e size by (auto simp: check_bounds_def word_le_nat_alt)
qed

lemma touch_same:
  assumes "placed a c" "d = a + SHM_HEADER_SIZE \<or> d = a + SHM_HEADER_SIZE + unat (nk_mapped_data_size c)"
    and "off + n \<le> unat (nk_mapped_data_size c)"
  shows "same_place c (logged (Touched (d + off) n) (c\<lparr>nk_outside := w\<rparr>))"
  using assms by (auto simp: same_place_def live_logged live_def) (auto simp: logged_def placed_def live_def after_os_append)

lemma read_attempts_same:
  assumes "placed a c" "off + n \<le> unat (nk_mapped_data_size c)" "read_attempts px a k off n c = (r, c')"
  shows "same_place c c'"
  using assms
proof (induction k arbitrary: c)
  case (Suc k)
  obtain h1 c1 where s1: "load_header px a c = (h1, c1)" by fastforce
  from load_header_placed [OF Suc.prems(1) s1] have p1: "placed a c1" "same_place c c1" by simp_all
  obtain d c2 where s2: "get_active_data px c1 = (d, c2)" by fastforce
  note a2 = get_active_same [OF p1(1) s2]
  then have p2: "placed a c2" "same_place c c2" using p1 placed_same same_place_trans by blast+
  show ?case
  proof (cases d)
    case None
    then show ?thesis using Suc.prems(3) s1 s2 p2 by auto
  next
    case (Some x)
    have eq: "nk_mapped_data_size c2 = nk_mapped_data_size c" "nk_mapped_data_size c1 = nk_mapped_data_size c"
      using p1(2) p2(2) by (simp_all add: same_place_def)
    have "same_place c2 (snd (load_bytes px (x + off) n c2))"
      using touch_same [OF p2(1), of x off n] a2 Some Suc.prems(2) eq by (simp add: load_bytes_def split: prod.split)
    moreover obtain bs c3 where s3: "load_bytes px (x + off) n c2 = (bs, c3)" by fastforce
    ultimately have p3: "placed a c3" "same_place c c3" using p2 placed_same same_place_trans by fastforce+
    obtain h2 c4 where s4: "load_header px a c3 = (h2, c4)" by fastforce
    from load_header_placed [OF p3(1) s4] p3(2) have p4: "placed a c4" "same_place c c4" using same_place_trans by blast+
    have "nk_mapped_data_size c4 = nk_mapped_data_size c" using p4(2) by (simp add: same_place_def)
    then have "same_place c4 c'" if "version h1 \<noteq> version h2"
      using Suc.IH [OF p4(1)] Suc.prems(2,3) s1 s2 s3 s4 Some that by simp
    then show ?thesis using Suc.prems(3) s1 s2 s3 s4 Some p4(2) same_place_trans by (cases "version h1 = version h2") auto
  qed
qed auto

lemma read_raw_same:
  assumes "neko_ok c" "nekoecat_client_read_raw_at px off n c = (r, c')"
  shows "same_place c c'"
proof (cases "nk_attached c")
  case True
  with assms(1) obtain a where p: "placed a c" by (auto simp: neko_ok_def loose_def)
  then have hdr: "nk_hdr c = Some a" by (simp add: placed_def)
  obtain ok c1 where b: "check_bounds px off n c = (ok, c1)" by fastforce
  note bound = check_bounds_same [OF p b]
  then have p1: "placed a c1" "nk_mapped_data_size c1 = nk_mapped_data_size c" using placed_same p by (auto simp: same_place_def)
  show ?thesis
  proof (cases ok)
    case True
    then have "read_attempts px a 4 (unat off) (unat n) c1 = (r, c')"
      using assms(2) \<open>nk_attached c\<close> hdr b by (simp add: nekoecat_client_read_raw_at_def)
    from read_attempts_same [OF p1(1) _ this] True bound p1(2) show ?thesis using same_place_trans by auto
  next
    case False
    then show ?thesis using assms(2) \<open>nk_attached c\<close> hdr b bound by (auto simp: nekoecat_client_read_raw_at_def)
  qed
next
  case False
  then show ?thesis using assms(2) by (auto simp: nekoecat_client_read_raw_at_def)
qed

lemma write_raw_same:
  assumes "neko_ok c" "nekoecat_client_write_raw_at px off bs c = (r, c')" "length bs < 2 ^ 32"
  shows "same_place c c'"
proof (cases "nk_attached c")
  case True
  with assms(1) obtain a where p: "placed a c" by (auto simp: neko_ok_def loose_def)
  then have hdr: "nk_hdr c = Some a" by (simp add: placed_def)
  obtain ok c1 where b: "check_bounds px off (of_nat (length bs)) c = (ok, c1)" by fastforce
  note bound = check_bounds_same [OF p b]
  have len: "unat (of_nat (length bs) :: u32) = length bs" using assms(3) by (simp add: unat_of_nat)
  from bound have p1: "placed a c1" "nk_mapped_data_size c1 = nk_mapped_data_size c" using placed_same p by (auto simp: same_place_def)
  obtain d c2 where g: "get_active_data px c1 = (d, c2)" by fastforce
  note act = get_active_same [OF p1(1) g]
  then have p2: "placed a c2" "same_place c c2" using placed_same p1(1) bound same_place_trans by blast+
  then have eq: "nk_mapped_data_size c2 = nk_mapped_data_size c" by (simp add: same_place_def)
  have "same_place c2 (store_bytes px (x + unat off) bs c2)" if "d = Some x" ok for x
    using touch_same [OF p2(1), of x "unat off" "length bs"] act bound that p1(2) eq len by (simp add: store_bytes_def)
  then show ?thesis
    using assms(2) True hdr b g p2(2) bound same_place_trans
    by (auto simp: nekoecat_client_write_raw_at_def split: if_splits option.splits)
next
  case False
  then show ?thesis using assms(2) by (auto simp: nekoecat_client_write_raw_at_def)
qed

lemma wait_loop_same: "wait_loop px a target timeout start c = Some res \<Longrightarrow> placed a c \<longrightarrow> same_place c (snd res)"
proof (rule wait_loop.raw_induct [where P = "\<lambda>px a target timeout start c res. placed a c \<longrightarrow> same_place c (snd res)"])
  fix loop :: "'w posix \<Rightarrow> nat \<Rightarrow> u64 \<Rightarrow> u64 \<Rightarrow> u64 \<Rightarrow> 'w neko \<Rightarrow> (bool \<times> 'w neko) option"
    and px a target timeout start c and res :: "bool \<times> 'w neko"
  assume IH: "\<And>px a target timeout start c res. loop px a target timeout start c = Some res \<Longrightarrow> placed a c \<longrightarrow> same_place c (snd res)"
    and eq: "(case load_header px a c of
        (h, c1) \<Rightarrow>
          if version h > target then Some (True, c1)
          else
            (case px_now px (nk_outside c1) of
               (now, w) \<Rightarrow>
                 if now - start \<ge> timeout then Some (False, c1\<lparr>nk_outside := w\<rparr>)
                 else loop px a target timeout start
                   (c1\<lparr>nk_outside := px_sleep px (min (timeout - (now - start)) (poll_interval timeout)) w\<rparr>))) = Some res"
  show "placed a c \<longrightarrow> same_place c (snd res)"
  proof
    assume p: "placed a c"
    obtain h c1 where l: "load_header px a c = (h, c1)" by fastforce
    from load_header_placed [OF p l] have p1: "placed a c1" "same_place c c1" by simp_all
    obtain now w where n: "px_now px (nk_outside c1) = (now, w)" by fastforce
    define c2 where "c2 = c1\<lparr>nk_outside := px_sleep px (min (timeout - (now - start)) (poll_interval timeout)) w\<rparr>"
    have s2: "same_place c c2" unfolding c2_def using p1 by simp
    then have "placed a c2" using placed_same p by blast
    then have "same_place c2 (snd res)" if "loop px a target timeout start c2 = Some res" using IH [OF that] by blast
    then show "same_place c (snd res)"
      using eq l n p1 s2 same_place_trans by (auto simp: c2_def split: if_splits)
  qed
qed

lemma wait_same:
  assumes "neko_ok c" "nekoecat_client_wait_next_cycle px timeout_ns c = Some (r, c')"
  shows "same_place c c'"
proof (cases "nk_attached c \<and> timeout_ns \<ge> 0")
  case True
  with assms(1) obtain a where p: "placed a c" by (auto simp: neko_ok_def loose_def)
  then have hdr: "nk_hdr c = Some a" by (simp add: placed_def)
  obtain start w where n: "px_now px (nk_outside c) = (start, w)" by fastforce
  have p1: "placed a (c\<lparr>nk_outside := w\<rparr>)" "same_place c (c\<lparr>nk_outside := w\<rparr>)" using p placed_same [of c "c\<lparr>nk_outside := w\<rparr>"] by simp_all
  obtain h c1 where l: "load_header px a (c\<lparr>nk_outside := w\<rparr>) = (h, c1)" by fastforce
  note p2 = load_header_placed [OF p1(1) l]
  have "wait_loop px a (version h) (word_of_int timeout_ns) start c1 = Some (r, c')"
    using assms(2) True hdr n l by (simp add: nekoecat_client_wait_next_cycle_def)
  from wait_loop_same [OF this] p2 p1(2) show ?thesis using same_place_trans by auto
next
  case False
  then show ?thesis using assms(2) by (auto simp: nekoecat_client_wait_next_cycle_def split: option.splits bool.splits)
qed

section \<open>Attaching and leaving\<close>

definition honest_object :: "'w posix \<Rightarrow> bool" where
  \<comment> \<open>a shared object is not shorter than the header in it says\<close>
  "honest_object px \<longleftrightarrow> (\<forall>fd st d w a w1. px_fstat px fd w = Some st \<and> px_mmap px fd (mapping_size st d) w = (Some a, w1)
     \<and> data_size (fst (px_header px a w1)) = d \<longrightarrow> SHM_HEADER_SIZE + 2 * unat d \<le> st)"

lemma load_header_live:
  "live c = Some [(a, n)] \<Longrightarrow> SHM_HEADER_SIZE \<le> n \<Longrightarrow> load_header px a c = (h, c') \<Longrightarrow>
   \<exists>w. c' = logged (Touched a SHM_HEADER_SIZE) (c\<lparr>nk_outside := w\<rparr>) \<and> live c' = Some [(a, n)] \<and> h = fst (px_header px a (nk_outside c))"
  by (auto simp: load_header_def live_logged split: prod.splits) (simp_all add: live_def)

lemma attach_mapped_ok:
  assumes c: "nk_shm_ptr c = Some a" "\<not> nk_attached c" "live c = Some [(a, nk_shm_size c)]" "SHM_HEADER_SIZE \<le> nk_shm_size c"
    and d: "0 < dsize" "dsize \<le> SHM_MAX"
    and honest: "data_size (fst (px_header px a (nk_outside c))) = dsize \<Longrightarrow> nk_shm_size c = SHM_HEADER_SIZE + 2 * unat dsize"
  shows "neko_ok (snd (attach_mapped px a layout lver dsize c))"
proof -
  let ?c = "c\<lparr>nk_hdr := Some a\<rparr>"
  have live: "live ?c = Some [(a, nk_shm_size c)]" using c(3) by (simp add: live_def)
  obtain h c1 where l: "load_header px a ?c = (h, c1)" by fastforce
  from load_header_live [OF live c(4) l] obtain w where c1: "c1 = logged (Touched a SHM_HEADER_SIZE) (?c\<lparr>nk_outside := w\<rparr>)"
    "live c1 = Some [(a, nk_shm_size c)]" "h = fst (px_header px a (nk_outside c))" by auto
  then have size: "nk_shm_size c1 = nk_shm_size c" "nk_shm_ptr c1 = Some a" "nk_hdr c1 = Some a" "\<not> nk_attached c1"
    using c by (simp_all add: logged_def)
  show ?thesis
  proof (cases "data_size h = dsize")
    case False
    have "live (unmap px a (set_error msg c1)) = Some []" for msg
      using c1(2) size by (simp add: unmap_def live_logged) (simp add: set_error_def live_def)
    then have "loose ((unmap px a (set_error msg c1))\<lparr>nk_shm_ptr := None\<rparr>)" for msg
      using size(4) by (simp add: loose_def live_def) (simp add: unmap_def logged_def set_error_def)
    then have "loose (close_shm_fd px ((unmap px a (set_error msg c1))\<lparr>nk_shm_ptr := None\<rparr>))" for msg
      by (intro loose_same [OF _ \<open>\<And>msg. loose ((unmap px a (set_error msg c1))\<lparr>nk_shm_ptr := None\<rparr>)\<close> [of msg]]) simp
    then show ?thesis using False l by (simp add: attach_mapped_def neko_ok_def)
  next
    case True
    define c2 where "c2 = c1\<lparr>nk_data0 := Some (a + SHM_HEADER_SIZE), nk_data1 := Some (a + SHM_HEADER_SIZE + unat dsize),
       nk_mapped_data_size := dsize, nk_layout := layout, nk_known_layout_version := lver, nk_attached := True, nk_state_error := False\<rparr>"
    have "live c2 = Some [(a, nk_shm_size c)]" using c1(2) by (simp add: c2_def live_def)
    then have p2: "placed a c2" using size d honest True c1(3) by (simp add: placed_def c2_def)
    obtain h' c3 where l3: "load_header px a c2 = (h', c3)" by fastforce
    note p3 = load_header_placed [OF p2 l3]
    have s4: "same_place c2 (c3\<lparr>nk_last_version := version h'\<rparr>)" using p3 by simp
    obtain h'' c5 where l5: "load_header px a (c3\<lparr>nk_last_version := version h'\<rparr>) = (h'', c5)" by fastforce
    from load_header_placed [OF placed_same [OF s4 p2] l5] have "placed a c5" by simp
    moreover from this have "placed a ((set_error msg c5)\<lparr>nk_state_error := True\<rparr>)" for msg
      by (rule placed_same [rotated]) simp
    ultimately show ?thesis
      using l True l3 l5 by (auto simp: attach_mapped_def neko_ok_def Let_def c2_def [symmetric])
  qed
qed

lemma loose_ok: "loose c \<Longrightarrow> neko_ok c"
  by (simp add: neko_ok_def)

lemma attach_fail_same [simp]: "same_place c (snd (attach_fail msg err c')) = same_place c c'"
  by (simp add: attach_fail_def)

lemma loose_shm_size: "loose c \<Longrightarrow> loose (c\<lparr>nk_shm_size := n\<rparr>)" "loose c \<Longrightarrow> loose (c\<lparr>nk_shm_ptr := None\<rparr>)"
  by (simp_all add: loose_def live_def)

lemma attach_shm_ok:
  assumes "honest_object px" "loose c" "0 < dsize" "dsize \<le> SHM_MAX"
  shows "neko_ok (snd (attach_shm px name layout lver dsize c))"
proof -
  obtain fd w1 where o: "px_shm_open px name (nk_outside c) = (fd, w1)" by fastforce
  let ?c1 = "c\<lparr>nk_shm_fd := fd, nk_outside := w1\<rparr>"
  define c2 where "c2 = logged (OpenedFd fd) ?c1"
  have l: "loose ?c1" "loose c2" unfolding c2_def by (rule loose_same [OF _ assms(2)], simp)+
  then have failed: "neko_ok (snd (attach_fail m e ?c1))" "neko_ok (snd (attach_fail m e (close_shm_fd px c2)))" for m e
    by (intro loose_ok loose_same [OF _ l(1)], simp) (intro loose_ok loose_same [OF _ l(2)], simp)
  have eq: "attach_shm px name layout lver dsize c =
     (if fd < 0 then attach_fail (''shm_open fail ('' @ name @ '')'') ''shm_open fail'' ?c1
      else case px_fstat px fd (nk_outside c2) of
             None \<Rightarrow> attach_fail (''shm fstat fail ('' @ name @ '')'') ''shm fstat fail'' (close_shm_fd px c2)
           | Some st \<Rightarrow>
               if st < SHM_HEADER_SIZE then attach_fail (''shm fstat fail ('' @ name @ '')'') ''shm fstat fail'' (close_shm_fd px c2)
               else let size = mapping_size st dsize; (m, w2) = px_mmap px fd size (nk_outside c2);
                        c3 = c2\<lparr>nk_shm_size := size, nk_outside := w2\<rparr>
                    in case m of
                         None \<Rightarrow> attach_fail ''mmap fail'' ''mmap fail'' ((close_shm_fd px c3)\<lparr>nk_shm_ptr := None\<rparr>)
                       | Some a \<Rightarrow> attach_mapped px a layout lver dsize (logged (Mapped a size) (c3\<lparr>nk_shm_ptr := Some a\<rparr>)))"
    unfolding attach_shm_def o c2_def Let_def prod.case by (rule refl)
  show ?thesis
  proof (cases "fd < 0 \<or> px_fstat px fd (nk_outside c2) = None \<or> the (px_fstat px fd (nk_outside c2)) < SHM_HEADER_SIZE")
    case True
    then show ?thesis unfolding eq using failed by (auto split: option.splits)
  next
    case False
    then obtain st where st: "px_fstat px fd (nk_outside c2) = Some st" "\<not> st < SHM_HEADER_SIZE" by auto
    obtain m w2 where m: "px_mmap px fd (mapping_size st dsize) (nk_outside c2) = (m, w2)" by fastforce
    define c3 where "c3 = c2\<lparr>nk_shm_size := mapping_size st dsize, nk_outside := w2\<rparr>"
    have l3: "loose c3" unfolding c3_def by (rule loose_same [OF _ loose_shm_size(1) [OF l(2), of "mapping_size st dsize"]]) simp
    have res: "attach_shm px name layout lver dsize c = (case m of
         None \<Rightarrow> attach_fail ''mmap fail'' ''mmap fail'' ((close_shm_fd px c3)\<lparr>nk_shm_ptr := None\<rparr>)
       | Some a \<Rightarrow> attach_mapped px a layout lver dsize (logged (Mapped a (mapping_size st dsize)) (c3\<lparr>nk_shm_ptr := Some a\<rparr>)))"
      unfolding eq c3_def using False st m by (simp add: Let_def)
    show ?thesis
    proof (cases m)
      case None
      have "loose (close_shm_fd px c3)" by (rule loose_same [OF _ l3]) simp
      then have "loose ((close_shm_fd px c3)\<lparr>nk_shm_ptr := None\<rparr>)" by (rule loose_shm_size)
      from loose_same [OF _ this] show ?thesis unfolding res None option.case by (intro loose_ok) simp
    next
      case (Some a)
      let ?c4 = "logged (Mapped a (mapping_size st dsize)) (c3\<lparr>nk_shm_ptr := Some a\<rparr>)"
      have fields: "nk_shm_size ?c4 = mapping_size st dsize" "nk_shm_ptr ?c4 = Some a" "nk_attached ?c4 = nk_attached c3" "nk_outside ?c4 = w2"
        by (simp_all add: logged_def c3_def)
      have "live (c3\<lparr>nk_shm_ptr := Some a\<rparr>) = Some []" using l3 by (simp add: loose_def live_def)
      then have live: "live ?c4 = Some [(a, mapping_size st dsize)]" by (simp add: live_logged)
      have big: "SHM_HEADER_SIZE \<le> mapping_size st dsize" using st(2) by (simp add: mapping_size_def Let_def)
      have "mapping_size st dsize = SHM_HEADER_SIZE + 2 * unat dsize" if "data_size (fst (px_header px a w2)) = dsize"
        using assms(1) st(1) m Some that unfolding honest_object_def mapping_size_def Let_def by fastforce
      then show ?thesis
        unfolding res Some option.case
        by (intro attach_mapped_ok) (use fields live big assms(3,4) l3 in \<open>simp_all add: loose_def\<close>)
    qed
  qed
qed

lemma clamp_bounds: "0 < clamp_data_size d \<and> clamp_data_size d \<le> SHM_MAX"
  by (auto simp: clamp_data_size_def SHM_MAX_def word_gt_0 not_less)

lemma attach_layout_ok: "honest_object px \<Longrightarrow> loose c \<Longrightarrow> neko_ok (snd (attach_layout px s e c))"
  using clamp_bounds
  by (auto simp: attach_layout_def attach_shm_ok intro!: loose_ok loose_same [of c] split: prod.split)

lemma rpc_call_same: "same_place c (snd (rpc_call px method params c))"
  by (simp add: rpc_call_def Let_def split: prod.split option.split)

lemma attach_connected_ok: "honest_object px \<Longrightarrow> loose c \<Longrightarrow> neko_ok (snd (attach_connected px layout c))"
proof -
  assume a: "honest_object px" "loose c"
  obtain resp c1 where r: "rpc_call px ''freeRunShmInfo'' ''{}'' c = (resp, c1)" by fastforce
  with rpc_call_same [of c px "''freeRunShmInfo''" "''{}''"] have "same_place c c1" by simp
  then have "loose c1" using a(2) loose_same by blast
  then show ?thesis
    using a r by (auto simp: attach_connected_def attach_layout_ok loose_ok split: option.split list.split)
qed

lemma connect_same: "same_place c (snd (nekoecat_client_connect px host port c))"
  by (simp add: nekoecat_client_connect_def drop_socket_def Let_def split: prod.split)

lemma attach_ok: "honest_object px \<Longrightarrow> loose c \<Longrightarrow> neko_ok (snd (nekoecat_client_attach px layout c))"
proof -
  assume a: "honest_object px" "loose c"
  obtain host port where d: "daemon_address px (nk_outside c) = (host, port)" by fastforce
  obtain ok err c1 where r: "nekoecat_client_connect px (Some host) port c = ((ok, err), c1)" by (metis prod.collapse)
  with connect_same [of c px "Some host" port] have "same_place c c1" by simp
  then have "loose c1" using a(2) loose_same by blast
  then show ?thesis using a d r by (simp add: nekoecat_client_attach_def attach_connected_ok loose_ok)
qed

lemma start_ok: "honest_object px \<Longrightarrow> loose c \<Longrightarrow> neko_ok (snd (nekoecat_client_start_freerun px mapping c))"
proof -
  assume a: "honest_object px" "loose c"
  define params where "params = take 255 (CHR ''{'' # json_key ''mapping'' @ (case mapping of None \<Rightarrow> ''null'' | Some j \<Rightarrow> j) @ ''}'')"
  obtain resp c1 where r: "rpc_call px ''freeRunStart'' params c = (resp, c1)" by fastforce
  with rpc_call_same [of c px "''freeRunStart''" params] have "same_place c c1" by simp
  then have "loose c1" using a(2) loose_same by blast
  then show ?thesis
    using a r by (simp add: nekoecat_client_start_freerun_def params_def attach_ok loose_ok Let_def split: option.split)
qed

lemma stop_same: "same_place c (snd (nekoecat_client_stop_freerun px c))"
proof -
  obtain resp c1 where r: "rpc_call px ''freeRunStop'' ''{}'' c = (resp, c1)" by fastforce
  with rpc_call_same [of c px "''freeRunStop''" "''{}''"] show ?thesis
    by (simp add: nekoecat_client_stop_freerun_def split: option.split)
qed

lemma disconnect_loose: "neko_ok c \<Longrightarrow> loose (nekoecat_client_disconnect px c)"
proof -
  assume ok: "neko_ok c"
  define c1 where "c1 = (case nk_shm_ptr c of None \<Rightarrow> c | Some a \<Rightarrow> (unmap px a c)\<lparr>nk_shm_ptr := None\<rparr>)"
  have "live (unmap px a c) = Some []" if "placed a c" for a
    using that by (simp add: unmap_def live_logged) (simp add: placed_def live_def)
  then have l1: "nk_shm_ptr c1 = None \<and> live c1 = Some []"
    using ok by (auto simp: c1_def neko_ok_def loose_def live_def placed_def)
  define c2 where "c2 = (if nk_shm_fd c1 \<ge> 0 then close_shm_fd px c1 else c1)"
  define c3 where "c3 = (if nk_sock c2 \<ge> 0 then (close_fd px (nk_sock c2) c2)\<lparr>nk_sock := - 1\<rparr> else c2)"
  have "same_place c1 c3" by (simp add: c2_def c3_def)
  then have "nk_shm_ptr c3 = None \<and> live c3 = Some []" using l1 by (simp add: same_place_def)
  moreover have "nekoecat_client_disconnect px c = c3\<lparr>nk_attached := False, nk_hdr := None, nk_data0 := None, nk_data1 := None, nk_shm_size := 0\<rparr>"
    unfolding nekoecat_client_disconnect_def Let_def c1_def c2_def c3_def by (rule refl)
  ultimately show ?thesis by (simp add: loose_def live_def)
qed

section \<open>A client used in order\<close>

datatype neko_op =
    OpConnect "string option" u16
  | OpDisconnect
  | OpStart "string option"
  | OpStop
  | OpAttach "string option"
  | OpWait int
  | OpTryWait
  | OpRead u32 u32
  | OpWrite u32 "byte list"
  | OpReadIndex nat u16 u16 byte
  | OpWriteIndex nat u16 u16 byte nat
  | OpDataPtr
  | OpDataSize
  | OpVersion
  | OpCycles
  | OpState

fun neko_step :: "'w posix \<Rightarrow> neko_op \<Rightarrow> 'w neko \<Rightarrow> 'w neko option" where
  \<comment> \<open>\<open>None\<close> if the call does not return\<close>
  "neko_step px (OpConnect host port) c = Some (snd (nekoecat_client_connect px host port c))"
| "neko_step px OpDisconnect c = Some (nekoecat_client_disconnect px c)"
| "neko_step px (OpStart mapping) c = Some (snd (nekoecat_client_start_freerun px mapping c))"
| "neko_step px OpStop c = Some (snd (nekoecat_client_stop_freerun px c))"
| "neko_step px (OpAttach layout) c = Some (snd (nekoecat_client_attach px layout c))"
| "neko_step px (OpWait t) c = map_option snd (nekoecat_client_wait_next_cycle px t c)"
| "neko_step px OpTryWait c = Some (snd (nekoecat_client_try_wait_next_cycle px c))"
| "neko_step px (OpRead off n) c = Some (snd (nekoecat_client_read_raw_at px off n c))"
| "neko_step px (OpWrite off bs) c = Some (snd (nekoecat_client_write_raw_at px off bs c))"
| "neko_step px (OpReadIndex k sl idx sub) c = Some (snd (read_by_index (read_value_at k) px sl idx sub c))"
| "neko_step px (OpWriteIndex k sl idx sub v) c = Some (snd (write_by_index (write_value_at k) px sl idx sub v c))"
| "neko_step px OpDataPtr c = Some (snd (nekoecat_client_get_process_data_ptr px c))"
| "neko_step px OpDataSize c = Some (snd (nekoecat_client_get_data_size px c))"
| "neko_step px OpVersion c = Some (snd (nekoecat_client_get_current_version px c))"
| "neko_step px OpCycles c = Some (snd (nekoecat_client_get_cycle_count px c))"
| "neko_step px OpState c = Some (snd (nekoecat_client_get_state px c))"

fun in_order :: "neko_op \<Rightarrow> 'w neko \<Rightarrow> bool" where
  \<comment> \<open>attach only what is not attached; the queries that look at no flag only while attached; lengths of 32 bits\<close>
  "in_order (OpStart mapping) c \<longleftrightarrow> \<not> nk_attached c"
| "in_order (OpAttach layout) c \<longleftrightarrow> \<not> nk_attached c"
| "in_order OpTryWait c \<longleftrightarrow> nk_attached c"
| "in_order OpDataSize c \<longleftrightarrow> nk_attached c"
| "in_order OpVersion c \<longleftrightarrow> nk_attached c"
| "in_order OpCycles c \<longleftrightarrow> nk_attached c"
| "in_order (OpWrite off bs) c \<longleftrightarrow> length bs < 2 ^ 32"
| "in_order (OpWriteIndex k sl idx sub v) c \<longleftrightarrow> k < 2 ^ 32"
| "in_order _ c \<longleftrightarrow> True"

fun neko_run :: "'w posix \<Rightarrow> neko_op list \<Rightarrow> 'w neko \<Rightarrow> 'w neko option" where
  "neko_run px [] c = Some c"
| "neko_run px (op # ops) c = (if in_order op c then Option.bind (neko_step px op c) (neko_run px ops) else None)"

lemma placed_of_attached: "neko_ok c \<Longrightarrow> nk_attached c \<Longrightarrow> \<exists>a. placed a c \<and> nk_hdr c = Some a"
  by (auto simp: neko_ok_def loose_def placed_def)

lemma loose_of_detached: "neko_ok c \<Longrightarrow> \<not> nk_attached c \<Longrightarrow> loose c"
  by (auto simp: neko_ok_def placed_def)

lemma try_wait_same: "neko_ok c \<Longrightarrow> nk_attached c \<Longrightarrow> same_place c (snd (nekoecat_client_try_wait_next_cycle px c))"
  by (drule (1) placed_of_attached) (auto simp: nekoecat_client_try_wait_next_cycle_def split: prod.split dest: load_header_placed)

lemma header_query_same: "neko_ok c \<Longrightarrow> nk_attached c \<Longrightarrow> same_place c (snd (header_query f px c))"
  by (drule (1) placed_of_attached) (auto simp: header_query_def split: prod.split dest: load_header_placed)

lemma data_size_same: "neko_ok c \<Longrightarrow> nk_attached c \<Longrightarrow> same_place c (snd (nekoecat_client_get_data_size px c))"
proof -
  assume "neko_ok c" "nk_attached c"
  then obtain a where p: "placed a c" using placed_of_attached by blast
  obtain sz c' where e: "effective_data_size px c = (sz, c')" by fastforce
  from effective_size_same [OF p e] e show ?thesis by (simp add: nekoecat_client_get_data_size_def)
qed

lemma data_ptr_same: "neko_ok c \<Longrightarrow> same_place c (snd (nekoecat_client_get_process_data_ptr px c))"
proof (cases "nk_attached c")
  case True
  assume "neko_ok c"
  with True obtain a where p: "placed a c" "nk_hdr c = Some a" using placed_of_attached by blast
  obtain d c' where g: "get_active_data px c = (d, c')" by fastforce
  from get_active_same [OF p(1) g] True p(2) g show ?thesis by (simp add: nekoecat_client_get_process_data_ptr_def)
qed (simp add: nekoecat_client_get_process_data_ptr_def)

lemma state_same: "neko_ok c \<Longrightarrow> same_place c (snd (nekoecat_client_get_state px c))"
proof (cases "nk_attached c")
  case True
  assume "neko_ok c"
  with True obtain a where p: "placed a c" "nk_hdr c = Some a" using placed_of_attached by blast
  obtain h c1 where l1: "load_header px a c = (h, c1)" by fastforce
  note p1 = load_header_placed [OF p(1) l1]
  obtain h' c2 where l2: "load_header px a c1 = (h', c2)" by fastforce
  with load_header_placed [of a c1 px h' c2] p1 have "same_place c c2" using same_place_trans by blast
  then show ?thesis using True p(2) l1 l2 by (simp add: nekoecat_client_get_state_def)
qed (simp add: nekoecat_client_get_state_def)

lemma resolve_same: "resolve_offset sl idx sub c = (r, c1) \<Longrightarrow> same_place c c1"
  by (auto simp: resolve_offset_def Let_def split: if_splits)

lemma read_index_same: "neko_ok c \<Longrightarrow> same_place c (snd (read_by_index (read_value_at k) px sl idx sub c))"
proof -
  assume ok: "neko_ok c"
  obtain r c1 where r: "resolve_offset sl idx sub c = (r, c1)" by fastforce
  note s1 = resolve_same [OF r]
  with ok have "neko_ok c1" using ok_same by blast
  then have "same_place c (snd (read_value_at k px off c1))" for off
    using read_raw_same [of c1 px off "of_nat k"] s1 same_place_trans by (fastforce simp: read_value_at_def split: prod.split)
  then show ?thesis using r s1 by (simp add: read_by_index_def split: option.split)
qed

lemma write_index_same: "neko_ok c \<Longrightarrow> k < 2 ^ 32 \<Longrightarrow> same_place c (snd (write_by_index (write_value_at k) px sl idx sub v c))"
proof -
  assume ok: "neko_ok c" and k: "k < 2 ^ 32"
  obtain r c1 where r: "resolve_offset sl idx sub c = (r, c1)" by fastforce
  note s1 = resolve_same [OF r]
  with ok have "neko_ok c1" using ok_same by blast
  then have "same_place c (snd (write_value_at k px off v c1))" for off
    using write_raw_same [of c1 px off "le_bytes k v"] s1 k same_place_trans
    by (cases "nekoecat_client_write_raw_at px off (le_bytes k v) c1") (auto simp: write_value_at_def)
  then show ?thesis using r s1 by (simp add: write_by_index_def split: option.split)
qed

lemma neko_step_ok:
  assumes "honest_object px" "neko_ok c" "in_order op c" "neko_step px op c = Some c'"
  shows "neko_ok c'"
proof (cases op)
  case (OpWait t)
  with assms(4) obtain r where "nekoecat_client_wait_next_cycle px t c = Some (r, c')" by auto
  from wait_same [OF assms(2) this] show ?thesis using assms(2) ok_same by blast
next
  case (OpRead off n)
  obtain r where "nekoecat_client_read_raw_at px off n c = (r, c')" using assms(4) OpRead by (cases "nekoecat_client_read_raw_at px off n c") auto
  from read_raw_same [OF assms(2) this] show ?thesis using assms(2) ok_same by blast
next
  case (OpWrite off bs)
  obtain r where "nekoecat_client_write_raw_at px off bs c = (r, c')" using assms(4) OpWrite by (cases "nekoecat_client_write_raw_at px off bs c") auto
  from write_raw_same [OF assms(2) this] show ?thesis using assms(2,3) OpWrite ok_same by auto
next
  case (OpConnect host port)
  then show ?thesis using assms(2,4) ok_same [OF connect_same] by auto
next
  case OpStop
  then show ?thesis using assms(2,4) ok_same [OF stop_same] by auto
next
  case OpState
  then show ?thesis using assms(2,4) ok_same [OF state_same] by auto
next
  case OpDataPtr
  then show ?thesis using assms(2,4) ok_same [OF data_ptr_same] by auto
next
  case OpDataSize
  then show ?thesis using assms(2-4) ok_same [OF data_size_same] by auto
next
  case OpTryWait
  then show ?thesis using assms(2-4) ok_same [OF try_wait_same] by auto
next
  case OpVersion
  then show ?thesis using assms(2-4) ok_same [OF header_query_same] by (auto simp: nekoecat_client_get_current_version_def)
next
  case OpCycles
  then show ?thesis using assms(2-4) ok_same [OF header_query_same] by (auto simp: nekoecat_client_get_cycle_count_def)
next
  case (OpReadIndex k sl idx sub)
  then show ?thesis using assms(2,4) ok_same [OF read_index_same] by auto
next
  case (OpWriteIndex k sl idx sub v)
  then show ?thesis using assms(2-4) ok_same [OF write_index_same] by auto
next
  case OpDisconnect
  then show ?thesis using assms(2,4) disconnect_loose loose_ok by auto
next
  case (OpStart mapping)
  then show ?thesis using assms loose_of_detached start_ok by auto
next
  case (OpAttach layout)
  then show ?thesis using assms loose_of_detached attach_ok by auto
qed

lemma neko_run_ok: "honest_object px \<Longrightarrow> neko_ok c \<Longrightarrow> neko_run px ops c = Some c' \<Longrightarrow> neko_ok c'"
  by (induction ops arbitrary: c) (auto split: if_splits bind_splits dest: neko_step_ok)

text \<open>
  Claim C6 (safety). A client used in order never touches memory that is not mapped: whatever the daemon answers and writes into
  the shared header, whatever calls fail, and over any calls in which it attaches only while detached and asks the
  unguarded queries only while attached, each of its accesses lies within a mapping of its own, it unmaps only what it has
  mapped, and after a disconnect no mapping is left. The hypothesis is about the daemon's object: it is not shorter than its header says.
\<close>

theorem client_stays_in_mapping:
  assumes "honest_object px" and "neko_run px ops (nekoecat_client_create w) = Some c"
  shows "after_os [] (nk_calls c) \<noteq> None \<and> after_os [] (nk_calls (nekoecat_client_disconnect px c)) = Some []"
proof -
  have "loose (nekoecat_client_create w)" by (simp add: loose_def live_def nekoecat_client_create_def)
  from neko_run_ok [OF assms(1) loose_ok [OF this] assms(2)] have ok: "neko_ok c" .
  then have "live c \<noteq> None" by (auto simp: neko_ok_def loose_def placed_def)
  then show ?thesis using disconnect_loose [OF ok, of px] by (simp add: loose_def live_def)
qed

text \<open>A system with one object of two buffers of four bytes, whose daemon answers nothing.\<close>

definition small_header :: "u32 \<Rightarrow> shm_header" where
  "small_header d = \<lparr>version = 3, cycle_count = 3, timestamp_ns = 0, active_buffer = 1, data_size = d, layout_version = 1,
     status_flags = 1, ignored_writes = 0\<rparr>"

definition small_system :: "nat \<Rightarrow> u32 \<Rightarrow> unit posix" where
  "small_system n d = \<lparr>px_socket = \<lambda>w. (5, w), px_resolve = \<lambda>h p w. 1, px_connect = \<lambda>s i w. (True, w),
     px_send = \<lambda>s t w. (True, w), px_recv = \<lambda>s w. (None, w), px_close = \<lambda>fd w. w, px_getenv = \<lambda>n w. None,
     px_shm_open = \<lambda>n w. (6, w), px_fstat = \<lambda>fd w. Some n, px_mmap = \<lambda>fd k w. (Some 4096, w), px_munmap = \<lambda>a n w. w,
     px_header = \<lambda>a w. (small_header d, w), px_load = \<lambda>a n w. (replicate n 0, w), px_store = \<lambda>a bs w. w,
     px_now = \<lambda>w. (0, w), px_sleep = \<lambda>n w. w\<rparr>"

definition small_layout :: string where
  \<comment> \<open>one entry at offset 2 of an image of 4 bytes\<close>
  "small_layout = json_key ''data_size'' @ ''4,'' @ json_key ''layout'' @ ''[{'' @ json_key ''slave'' @ ''0,'' @ json_key ''index'' @ ''7,''
     @ json_key ''subindex'' @ ''1,'' @ json_key ''offset'' @ ''2}]''"

lemma small_layout_parsed:
  "layout_parse_from_shm_info_json small_layout = (True, \<lparr>ly_entries = [\<lparr>ly_slave = 0, ly_index = 7, ly_sub = 1, ly_bitLength = 16,
     ly_direction = ''TxPDO'', ly_offset = 2\<rparr>], ly_data_size = 4, ly_truncated = False\<rparr>)"
  by code_simp

lemma small_layout_rest: "shm_name_in small_layout = default_shm_name" "number_field ''layout_version'' small_layout = (0 :: u32)"
  by code_simp+

lemma small_attached:
  "attach_layout (small_system n 4) small_layout e c = attach_shm (small_system n 4) default_shm_name
     (snd (layout_parse_from_shm_info_json small_layout)) 0 4 c"
  by (simp add: attach_layout_def small_layout_parsed small_layout_rest clamp_data_size_def SHM_MAX_def)

lemmas neko_defs = nekoecat_client_connect_def nekoecat_client_attach_def attach_connected_def attach_shm_def attach_mapped_def
  load_header_def logged_def mapping_size_def SHM_HEADER_SIZE_def drop_socket_def close_fd_def set_error_def
  nekoecat_client_create_def Let_def

lemma small_honest: "honest_object (small_system 64 4)"
  by (auto simp: honest_object_def small_system_def small_header_def SHM_HEADER_SIZE_def)

lemma small_layout_text: "small_layout = quote_char # tl small_layout"
  by code_simp

definition small_ops :: "neko_op list" where
  "small_ops = [OpConnect None 5877, OpAttach (Some small_layout), OpWriteIndex 2 0 7 1 300, OpRead 2 3, OpState]"

lemma small_connect:
  "nekoecat_client_connect (small_system n d) None port (nekoecat_client_create ()) =
     ((True, None), (nekoecat_client_create ())\<lparr>nk_sock := 5, nk_calls := [OpenedFd 5]\<rparr>)"
  by (simp add: neko_defs small_system_def)

lemma small_attach:
  "\<exists>c. nekoecat_client_attach (small_system 64 4) (Some small_layout) ((nekoecat_client_create ())\<lparr>nk_sock := 5, nk_calls := [OpenedFd 5]\<rparr>)
     = ((True, None), c) \<and> nk_attached c \<and> nk_hdr c = Some 4096 \<and> nk_data0 c = Some 4152 \<and> nk_data1 c = Some 4156 \<and> nk_mapped_data_size c = 4
     \<and> nk_layout c = snd (layout_parse_from_shm_info_json small_layout)"
proof -
  have "attach_connected px (Some small_layout) c = attach_layout px small_layout ''attach: invalid layout_json'' c" for px :: "unit posix" and c
    by (subst (1 2) small_layout_text) (simp add: attach_connected_def)
  then show ?thesis
    by (simp add: nekoecat_client_attach_def small_attached) (simp add: neko_defs small_system_def small_header_def)
qed

theorem client_stays_in_mapping_witness:
  "\<exists>c. neko_run (small_system 64 4) small_ops (nekoecat_client_create ()) = Some c \<and> after_os [] (nk_calls c) \<noteq> None"
proof -
  from small_attach obtain c where a: "nekoecat_client_attach (small_system 64 4) (Some small_layout)
      ((nekoecat_client_create ())\<lparr>nk_sock := 5, nk_calls := [OpenedFd 5]\<rparr>) = ((True, None), c)" by blast
  have "\<exists>c'. neko_run (small_system 64 4) small_ops (nekoecat_client_create ()) = Some c'"
    by (simp add: small_ops_def small_connect a) (simp add: nekoecat_client_create_def)
  then show ?thesis using client_stays_in_mapping [OF small_honest] by blast
qed

section \<open>Out of order\<close>

text \<open>A client that never attached closes descriptor 0, which it did not open.\<close>

lemma unused_client_closes_stdin: "nk_calls (nekoecat_client_disconnect px (nekoecat_client_create w)) = [ClosedFd 0]"
  by (simp add: nekoecat_client_disconnect_def nekoecat_client_create_def close_shm_fd_def close_fd_def logged_def Let_def)

text \<open>
  After an attach that was refused because the size in the header has changed, the pointer to the header stays and the
  memory is unmapped: asking for the version reads there.
\<close>

lemma refused_attach_leaves_header:
  "\<exists>c. attach_layout (small_system 64 4) small_layout e (nekoecat_client_create ()) = ((True, None), c)"
  "\<exists>err c. attach_shm (small_system 64 8) default_shm_name layout 0 4 (nekoecat_client_create ()) = ((False, err), c)
     \<and> after_os [] (nk_calls c) = Some [] \<and> after_os [] (nk_calls (snd (nekoecat_client_get_current_version (small_system 64 8) c))) = None"
proof -
  show "\<exists>c. attach_layout (small_system 64 4) small_layout e (nekoecat_client_create ()) = ((True, None), c)"
    unfolding small_attached by (simp add: neko_defs small_system_def small_header_def)
  show "\<exists>err c. attach_shm (small_system 64 8) default_shm_name layout 0 4 (nekoecat_client_create ()) = ((False, err), c)
     \<and> after_os [] (nk_calls c) = Some [] \<and> after_os [] (nk_calls (snd (nekoecat_client_get_current_version (small_system 64 8) c))) = None"
    by (simp add: neko_defs small_system_def small_header_def unmap_def close_shm_fd_def nekoecat_client_get_current_version_def
        header_query_def)
qed

text \<open>Attaching again forgets the mapping there was: it is never given back.\<close>

lemma second_attach_leaks:
  "\<exists>c c'. attach_shm (small_system 64 4) name layout 0 4 (nekoecat_client_create ()) = ((True, None), c)
     \<and> attach_shm (small_system 64 4) name layout 0 4 c = ((True, None), c')
     \<and> after_os [] (nk_calls (nekoecat_client_disconnect (small_system 64 4) c')) = Some [(4096, 64)]"
  by (simp add: neko_defs small_system_def small_header_def nekoecat_client_disconnect_def unmap_def close_shm_fd_def)

text \<open>An object shorter than its header says is mapped as far as it goes, but accesses are checked against the header's size.\<close>

lemma four: "4 = Suc 3"
  by simp

lemma short_object_is_overrun:
  "\<exists>c. attach_shm (small_system 60 4) name layout 0 4 (nekoecat_client_create ()) = ((True, None), c)
     \<and> after_os [] (nk_calls c) \<noteq> None
     \<and> after_os [] (nk_calls (snd (nekoecat_client_read_raw_at (small_system 60 4) 0 4 c))) = None"
  by (simp add: neko_defs small_system_def small_header_def nekoecat_client_read_raw_at_def check_bounds_def effective_data_size_def
      clamp_data_size_def SHM_MAX_def read_attempts.simps(2) [where k = 3, folded four] get_active_data_def load_bytes_def)

text \<open>A long mapping is cut, and the request with it: what is sent does not even end in a brace.\<close>

lemma long_mapping_is_cut:
  assumes "length j = 300"
  shows "take 255 (CHR ''{'' # json_key ''mapping'' @ j @ ''}'') = CHR ''{'' # json_key ''mapping'' @ take 244 j"
proof -
  let ?h = "CHR ''{'' # json_key ''mapping''"
  have "length ?h = 11" by (simp add: json_key_def)
  then have "take 255 (?h @ j @ ''}'') = ?h @ take 244 j" using assms by (simp only: take_append) simp
  then show ?thesis by simp
qed

end
