(* ===== verification/NekoBus.thy ===== *)
theory NekoBus
  imports NekoSafety FreeRunCycle
begin

text \<open>
  The client and the daemon together: a value a client writes by its index goes to the place the daemon's answer names for
  it, and with the next mirror cycle to the bus; and waiting for a cycle ends.
\<close>

section \<open>The daemon's memory as a client sees it\<close>

definition daemon_memory :: "nat \<Rightarrow> nat \<Rightarrow> shm_map posix" where
  \<comment> \<open>the object of the daemon mapped at an address, its buffers of \<open>n\<close> bytes; nobody else runs, and there is no network\<close>
  "daemon_memory base n = \<lparr>px_socket = \<lambda>m. (- 1, m), px_resolve = \<lambda>h p m. 0, px_connect = \<lambda>s i m. (False, m),
     px_send = \<lambda>s t m. (False, m), px_recv = \<lambda>s m. (None, m), px_close = \<lambda>fd m. m, px_getenv = \<lambda>x m. None,
     px_shm_open = \<lambda>x m. (- 1, m), px_fstat = \<lambda>fd m. None, px_mmap = \<lambda>fd k m. (None, m), px_munmap = \<lambda>a k m. m,
     px_header = \<lambda>a m. (sm_header m, m),
     px_load = \<lambda>p k m. (let i = p - (base + SHM_HEADER_SIZE) in
        (if i < n then slice i k (sm_data0 m) else slice (i - n) k (sm_data1 m), m)),
     px_store = \<lambda>p bs m. (let i = p - (base + SHM_HEADER_SIZE) in
        if i < n then m\<lparr>sm_data0 := memcpy (sm_data0 m) i bs (length bs)\<rparr>
        else m\<lparr>sm_data1 := memcpy (sm_data1 m) (i - n) bs (length bs)\<rparr>),
     px_now = \<lambda>m. (0, m), px_sleep = \<lambda>d m. m\<rparr>"

definition active_data :: "shm_map \<Rightarrow> byte list" where
  "active_data m = (if active_buffer (sm_header m) = 1 then sm_data1 m else sm_data0 m)"

definition set_active_data :: "byte list \<Rightarrow> shm_map \<Rightarrow> shm_map" where
  "set_active_data bs m = (if active_buffer (sm_header m) = 1 then m\<lparr>sm_data1 := bs\<rparr> else m\<lparr>sm_data0 := bs\<rparr>)"

definition sees :: "nat \<Rightarrow> nat \<Rightarrow> shm_map \<Rightarrow> shm_map neko \<Rightarrow> bool" where
  \<comment> \<open>a client attached to an object whose header is as the daemon left it\<close>
  "sees base n m c \<longleftrightarrow> placed base c \<and> nk_outside c = m \<and> unat (nk_mapped_data_size c) = n \<and> shm_sized n m
     \<and> data_size (sm_header m) = nk_mapped_data_size c \<and> active_buffer (sm_header m) \<le> 1"

lemma daemon_header: "load_header (daemon_memory base n) a c = (sm_header (nk_outside c), logged (Touched a SHM_HEADER_SIZE) c)"
  by (simp add: load_header_def daemon_memory_def)

lemma sees_logged: "sees base n m c \<Longrightarrow> a + k \<le> base + SHM_HEADER_SIZE + 2 * n \<Longrightarrow> base \<le> a \<Longrightarrow> sees base n m (logged (Touched a k) c)"
  by (simp add: sees_def placed_def live_logged) (simp add: logged_def)

lemma sees_header: "sees base n m c \<Longrightarrow> sees base n m (logged (Touched base SHM_HEADER_SIZE) c)"
  by (rule sees_logged) simp_all

lemma sees_bounds:
  assumes "sees base n m c" and "unat off + k \<le> n" and "n < 2 ^ 32"
  shows "\<exists>c'. check_bounds (daemon_memory base n) off (of_nat k) c = (True, c') \<and> sees base n m c' \<and> nk_layout c' = nk_layout c"
proof -
  let ?c' = "logged (Touched base SHM_HEADER_SIZE) c"
  have hdr: "nk_hdr c = Some base" "nk_outside c = m" "clamp_data_size (nk_mapped_data_size c) = nk_mapped_data_size c"
    "data_size (sm_header m) = nk_mapped_data_size c" "\<not> nk_mapped_data_size c > SHM_MAX" "nk_mapped_data_size c \<noteq> 0"
    using assms(1) by (auto simp: sees_def placed_def clamp_data_size_def not_less word_gt_0)
  have size: "effective_data_size (daemon_memory base n) c = (nk_mapped_data_size c, ?c')"
    using hdr by (simp add: effective_data_size_def daemon_header Let_def)
  have k: "unat (of_nat k :: u32) = k" using assms(2,3) by (simp add: unat_of_nat)
  have n: "unat (nk_mapped_data_size c) = n" using assms(1) by (simp add: sees_def)
  have "\<not> of_nat k > nk_mapped_data_size c" using assms(2) k n by (simp add: word_less_nat_alt)
  moreover from this have "unat (nk_mapped_data_size c - of_nat k) = n - k" using k n by (simp add: unat_sub not_less)
  then have "\<not> off > nk_mapped_data_size c - of_nat k" using assms(2) by (simp add: word_less_nat_alt)
  moreover have "off \<noteq> - 1"
  proof
    assume "off = - 1"
    moreover have "(- 1 :: u32) = 4294967295" by simp
    ultimately have "unat off = 4294967295" by (simp only: unat_numeral) simp
    then show False using assms hdr(5) n by (simp add: SHM_MAX_def word_less_nat_alt)
  qed
  ultimately have "check_bounds (daemon_memory base n) off (of_nat k) c = (True, ?c')" by (simp add: check_bounds_def size)
  moreover have "sees base n m ?c'" "nk_layout ?c' = nk_layout c" using sees_header [OF assms(1)] by (simp_all add: logged_def)
  ultimately show ?thesis by blast
qed

lemma active_cases: "x \<le> 1 \<Longrightarrow> x = 0 \<or> x = (1 :: u32)"
  by unat_arith

lemma sees_active:
  assumes "sees base n m c"
  shows "get_active_data (daemon_memory base n) c =
     (Some (base + SHM_HEADER_SIZE + (if active_buffer (sm_header m) = 1 then n else 0)), logged (Touched base SHM_HEADER_SIZE) c)"
proof -
  have "nk_hdr c = Some base" "nk_outside c = m" "unat (nk_mapped_data_size c) = n" "active_buffer (sm_header m) = 0 \<or> active_buffer (sm_header m) = 1"
    "nk_data0 c = Some (base + SHM_HEADER_SIZE)" "nk_data1 c = Some (base + SHM_HEADER_SIZE + unat (nk_mapped_data_size c))"
    using assms active_cases by (auto simp: sees_def placed_def)
  then show ?thesis by (auto simp: get_active_data_def daemon_header) (simp_all add: logged_def)
qed

lemma daemon_load:
  assumes "off < n"
  shows "px_load (daemon_memory base n) (base + SHM_HEADER_SIZE + (if active_buffer (sm_header m) = 1 then n else 0) + off) k m = (slice off k (active_data m), m)"
  using assms by (simp add: daemon_memory_def active_data_def Let_def)

lemma daemon_store:
  assumes "off < n"
  shows "px_store (daemon_memory base n) (base + SHM_HEADER_SIZE + (if active_buffer (sm_header m) = 1 then n else 0) + off) bs m
     = set_active_data (memcpy (active_data m) off bs (length bs)) m"
  using assms by (simp add: daemon_memory_def active_data_def set_active_data_def Let_def)

section \<open>Writing and reading\<close>

lemma raw_write_works:
  assumes "sees base n m c" and "unat off + length bs \<le> n" and "n < 2 ^ 32" and "bs \<noteq> []"
  shows "\<exists>c'. nekoecat_client_write_raw_at (daemon_memory base n) off bs c = (True, c')
     \<and> sees base n (set_active_data (memcpy (active_data m) (unat off) bs (length bs)) m) c' \<and> nk_layout c' = nk_layout c"
proof -
  from sees_bounds [OF assms(1-3)] obtain c1 where b: "check_bounds (daemon_memory base n) off (of_nat (length bs)) c = (True, c1)"
    "sees base n m c1" "nk_layout c1 = nk_layout c" by blast
  let ?c2 = "logged (Touched base SHM_HEADER_SIZE) c1"
  let ?d = "base + SHM_HEADER_SIZE + (if active_buffer (sm_header m) = 1 then n else 0)"
  let ?m = "set_active_data (memcpy (active_data m) (unat off) bs (length bs)) m"
  have c2: "sees base n m ?c2" "nk_outside ?c2 = m" using sees_header [OF b(2)] by (simp_all add: sees_def)
  have off: "unat off < n" using assms(2,4) by (cases bs) auto
  have store: "store_bytes (daemon_memory base n) (?d + unat off) bs ?c2 = logged (Touched (?d + unat off) (length bs)) (?c2\<lparr>nk_outside := ?m\<rparr>)"
    using daemon_store [OF off, of base m bs] c2(2) by (simp only: store_bytes_def)
  have "shm_sized n ?m" "sm_header ?m = sm_header m"
    using c2(1) assms(2) by (auto simp: sees_def shm_sized_def set_active_data_def active_data_def)
  then have "sees base n ?m (?c2\<lparr>nk_outside := ?m\<rparr>)" using c2(1) by (auto simp: sees_def placed_def live_def)
  then have "sees base n ?m (store_bytes (daemon_memory base n) (?d + unat off) bs ?c2)"
    unfolding store by (rule sees_logged) (use assms(2) in auto)
  moreover have "nekoecat_client_write_raw_at (daemon_memory base n) off bs c = (True, store_bytes (daemon_memory base n) (?d + unat off) bs ?c2)"
    using assms(1) b(1) sees_active [OF b(2)] by (simp add: nekoecat_client_write_raw_at_def sees_def placed_def)
  moreover have "nk_layout (store_bytes (daemon_memory base n) (?d + unat off) bs ?c2) = nk_layout c"
    using b(3) by (simp add: store) (simp add: logged_def)
  ultimately show ?thesis by blast
qed

lemma raw_read_works:
  assumes "sees base n m c" and "unat off + k \<le> n" and "n < 2 ^ 32" and "0 < k"
  shows "fst (nekoecat_client_read_raw_at (daemon_memory base n) off (of_nat k) c) = Some (slice (unat off) k (active_data m))"
proof -
  from sees_bounds [OF assms(1-3)] obtain c1 where b: "check_bounds (daemon_memory base n) off (of_nat k) c = (True, c1)"
    "sees base n m c1" by blast
  let ?c2 = "logged (Touched base SHM_HEADER_SIZE) c1"
  have c2: "sees base n m ?c2" "nk_outside ?c2 = m" using sees_header [OF b(2)] by (simp_all add: sees_def)
  have c1: "nk_outside c1 = m" using b(2) by (simp add: sees_def)
  have k: "unat (of_nat k :: u32) = k" using assms(2,3) by (simp add: unat_of_nat)
  have off: "unat off < n" using assms(2,4) by simp
  let ?d = "base + SHM_HEADER_SIZE + (if active_buffer (sm_header m) = 1 then n else 0)"
  let ?c3 = "logged (Touched base SHM_HEADER_SIZE) ?c2"
  have c3: "nk_outside ?c3 = m" using c2(2) by (simp add: logged_def)
  have load: "load_bytes (daemon_memory base n) (?d + unat off) k ?c3 = (slice (unat off) k (active_data m), logged (Touched (?d + unat off) k) (?c3\<lparr>nk_outside := m\<rparr>))"
    using daemon_load [OF off, of base m k] c3 by (simp only: load_bytes_def) simp
  have "fst (read_attempts (daemon_memory base n) base (Suc 3) (unat off) k c1) = Some (slice (unat off) k (active_data m))"
    unfolding read_attempts.simps(2) daemon_header prod.case c1 sees_active [OF c2(1)] option.case load
    using c3 by (simp add: logged_def)
  then have "fst (read_attempts (daemon_memory base n) base 4 (unat off) k c1) = Some (slice (unat off) k (active_data m))"
    by (simp only: four)
  then show ?thesis using assms(1) b(1) k by (simp add: nekoecat_client_read_raw_at_def sees_def placed_def)
qed

section \<open>From an index to the bus\<close>

definition object_of :: "runtime_entry \<Rightarrow> u16 \<times> u16 \<times> byte" where
  "object_of e = (rn_slave e, rn_index e, rn_subindex e)"

lemma offset_by_key:
  "find (\<lambda>e'. object_of e' = object_of e) es = Some e \<Longrightarrow> layout_byte_offset
     \<lparr>ly_entries = map client_entry es, ly_data_size = d, ly_truncated = t\<rparr> (rn_slave e) (rn_index e) (rn_subindex e) = rn_offset e"
proof -
  have "find (\<lambda>l. ly_slave l = rn_slave e \<and> ly_index l = rn_index e \<and> ly_sub l = rn_subindex e) (map client_entry es)
    = map_option client_entry (find (\<lambda>e'. object_of e' = object_of e) es)" for es
    by (induction es) (auto simp: object_of_def client_entry_def)
  moreover assume "find (\<lambda>e'. object_of e' = object_of e) es = Some e"
  ultimately show ?thesis by (simp add: layout_byte_offset_def client_entry_def)
qed

lemma mirrored_entry_drives:
  assumes "e \<in> set es" and "rn_direction e = ''RxPDO''" and "unat (rn_offset e) + k \<le> sz" and "k = (unat (rn_bitLength e) + 7) div 8"
    and "unat (rn_offset e) \<le> i" "i < unat (rn_offset e) + k"
  shows "driven sz (buildMirrorEntries es) i"
proof -
  let ?me = "\<lparr>me_slave = rn_slave e, me_index = rn_index e, me_sub = rn_subindex e, me_bit_length = rn_bitLength e,
     me_direction = take 7 (rn_direction e), me_offset = rn_offset e\<rparr>"
  have "?me \<in> set (buildMirrorEntries es)" using assms(1) by (auto simp: buildMirrorEntries_def)
  moreover have "is_output ?me" "\<not> out_of_bounds sz ?me" "unat (me_offset ?me) \<le> i" "i < entry_end ?me"
    using assms(2-6) by (auto simp: is_output_def out_of_bounds_def entry_bytes_def entry_end_def)
  ultimately show ?thesis unfolding driven_def by blast
qed

lemma context_size:
  "fr_stride s \<le> MAX_PROCESS_DATA_SIZE \<Longrightarrow> 0 < fr_stride s \<Longrightarrow> unat (data_size (sm_header m)) = fr_stride s \<Longrightarrow>
   image_size (fr_context now m s) = fr_stride s"
  by (simp add: fr_context_def image_size_def Let_def)

text \<open>
  Claim C5 (functional). A value written by its index reaches the bus. A client that is attached to a running controller's object and has parsed
  the layout out of the text the daemon answers, writes a value of as many bytes as the entry has; the write succeeds, a
  read by the same index answers the value modulo its width, and the next mirror cycle leaves exactly these bytes at the entry's
  offset in the image that is sent to the bus. The entry is an RxPDO among the first 64, the first of its index, and inside the
  image; the names are without closing braces.
\<close>

theorem index_write_reaches_bus:
  fixes now :: u64
  assumes run: "fr_live s" "fr_shm s = Some m"
    and clean: "\<forall>x \<in> set (fr_entries s). clean_entry x" "CHR ''{'' \<notin> set rest"
    and client: "sees base (fr_stride s) m c" "nk_layout c = snd (layout_parse_from_shm_info_json (info_text s m @ rest))"
    and entry: "find (\<lambda>x. object_of x = object_of e) (take LAYOUT_MAX_ENTRIES (fr_entries s)) = Some e"
      "rn_direction e = ''RxPDO''" "k = (unat (rn_bitLength e) + 7) div 8" "0 < k" "unat (rn_offset e) + k \<le> fr_stride s"
  shows "\<exists>c' d'. write_by_index (write_value_at k) (daemon_memory base (fr_stride s)) (rn_slave e) (rn_index e) (rn_subindex e) v c = (True, c')
     \<and> fst (read_by_index (read_value_at k) (daemon_memory base (fr_stride s)) (rn_slave e) (rn_index e) (rn_subindex e) c') = Some (v mod 256 ^ k)
     \<and> fr_domainData (fr_mirrorToShm now (s\<lparr>fr_shm := Some (nk_outside c')\<rparr>)) = Some d'
     \<and> slice (unat (rn_offset e)) k d' = le_bytes k v"
proof -
  let ?n = "fr_stride s" and ?px = "daemon_memory base (fr_stride s)" and ?off = "unat (rn_offset e)"
  have mem: "e \<in> set (fr_entries s)" using entry(1) by (auto simp: find_Some_iff dest: in_set_takeD nth_mem)
  obtain d where run': "fr_domainData s = Some d" "?n \<le> length d" "?n = image_bytes (fr_mirror s)" "fr_mirror s = buildMirrorEntries (fr_entries s)"
    using run(1) by (auto simp: fr_live_def)
  have stride: "0 < ?n" "?n \<le> MAX_PROCESS_DATA_SIZE" using image_bytes_bounds run'(3) by simp_all
  then have small: "?n < 2 ^ 32" by (simp add: MAX_PROCESS_DATA_SIZE_def)
  have some: "fr_entries s \<noteq> []" using mem by auto
  have layout: "layout_byte_offset (nk_layout c) (rn_slave e) (rn_index e) (rn_subindex e) = rn_offset e"
    using layout_of_info [OF some clean(1,2), of m] client(2) offset_by_key [OF entry(1)] by simp
  have off: "rn_offset e \<noteq> - 1"
  proof
    assume "rn_offset e = - 1"
    moreover have "(- 1 :: u32) = 4294967295" by simp
    ultimately have "?off = 4294967295" by (simp only: unat_numeral) simp
    then show False using entry(5) stride(2) by (simp add: MAX_PROCESS_DATA_SIZE_def)
  qed
  have bs: "le_bytes k v \<noteq> []" using entry(4) by (cases k) simp_all
  let ?m = "set_active_data (memcpy (active_data m) ?off (le_bytes k v) k) m"
  from raw_write_works [OF client(1) _ small bs, of "rn_offset e"] entry(5) obtain c' where
    w: "nekoecat_client_write_raw_at ?px (rn_offset e) (le_bytes k v) c = (True, c')" "sees base ?n ?m c'" "nk_layout c' = nk_layout c" by auto
  have written: "write_by_index (write_value_at k) ?px (rn_slave e) (rn_index e) (rn_subindex e) v c = (True, c')"
    using layout off w(1) by (simp add: write_by_index_def resolve_offset_def write_value_at_def)
  have len: "length (active_data m) = ?n" using client(1) by (simp add: sees_def shm_sized_def active_data_def)
  have act: "active_data ?m = memcpy (active_data m) ?off (le_bytes k v) k" by (simp add: active_data_def set_active_data_def)
  have "slice ?off k (active_data ?m) = le_bytes k v" unfolding act using slice_memcpy_same [of ?off k "active_data m" "le_bytes k v"] entry(5) len by simp
  then have "fst (nekoecat_client_read_raw_at ?px (rn_offset e) (of_nat k) c') = Some (le_bytes k v)"
    using raw_read_works [OF w(2) entry(5) small entry(4)] by simp
  then have reread: "fst (read_by_index (read_value_at k) ?px (rn_slave e) (rn_index e) (rn_subindex e) c') = Some (v mod 256 ^ k)"
    using layout off w(3) by (auto simp: read_by_index_def resolve_offset_def read_value_at_def le_value_bytes split: prod.split)
  let ?s = "s\<lparr>fr_shm := Some ?m\<rparr>"
  have out: "nk_outside c' = ?m" using w(2) by (simp add: sees_def)
  have pre: "fr_shm ?s = Some ?m" "fr_mirror ?s \<noteq> []" "fr_domainData ?s = Some d" "shm_sized (fr_stride ?s) ?m"
    using w(2) run' some by (simp_all add: sees_def buildMirrorEntries_def)
  have "unat (data_size (sm_header ?m)) = fr_stride ?s" using w(2) by (simp add: sees_def)
  then have size: "image_size (fr_context now ?m ?s) = ?n" using stride by (subst context_size) simp_all
  from fr_mirror_result [OF pre, of now] stride run'(2) obtain d' where r: "fr_domainData (fr_mirrorToShm now ?s) = Some d'" "length d' = length d"
    "\<forall>i < ?n. d' ! i = (if driven ?n (fr_mirror s) i then active_data ?m ! i else d ! i)"
    unfolding size by (auto simp: active_data_def)
  have "slice ?off k d' = le_bytes k v"
  proof (rule nth_equalityI)
    show "length (slice ?off k d') = length (le_bytes k v)" using r(2) run'(2) entry(5) by simp
  next
    fix i assume "i < length (slice ?off k d')"
    then have i: "i < k" "?off + i < ?n" "?off + i < length d'" using entry(5) r(2) run'(2) by simp_all
    have "driven ?n (fr_mirror s) (?off + i)" unfolding run'(4) using mirrored_entry_drives [OF mem entry(2,5,3)] i by simp
    then have "d' ! (?off + i) = active_data ?m ! (?off + i)" using r(3) i(2) by simp
    also have "\<dots> = le_bytes k v ! i" unfolding act using entry(5) len i by (simp add: nth_memcpy)
    finally show "slice ?off k d' ! i = le_bytes k v ! i" using i by (simp add: nth_slice)
  qed
  then show ?thesis using written reread r(1) out by auto
qed

definition bus_entry :: runtime_entry where
  "bus_entry = \<lparr>rn_slave = 1, rn_sync = 2, rn_direction = ''RxPDO'', rn_pdo = 0x1600, rn_index = 0x7000, rn_subindex = 1, rn_bitLength = 16,
     rn_name = ''Out'', rn_offset = 1, rn_bit = 0\<rparr>"

definition bus_map :: shm_map where
  "bus_map = \<lparr>sm_header = new_header 3, sm_data0 = [0, 0, 0], sm_data1 = [0, 0, 0]\<rparr>"

definition bus_run :: free_run where
  "bus_run = fr_init\<lparr>fr_running := True, fr_thread := Looping, fr_master := True, fr_stride := 3, fr_mirror := buildMirrorEntries [bus_entry],
     fr_entries := [bus_entry], fr_shm := Some bus_map, fr_domainData := Some [9, 9, 9]\<rparr>"

definition bus_client :: "shm_map neko" where
  "bus_client = (nekoecat_client_create bus_map)\<lparr>nk_attached := True, nk_shm_ptr := Some 4096, nk_hdr := Some 4096, nk_data0 := Some 4152,
     nk_data1 := Some 4155, nk_shm_size := 62, nk_mapped_data_size := 3, nk_calls := [Mapped 4096 62],
     nk_layout := snd (layout_parse_from_shm_info_json (info_text bus_run bus_map @ ''''))\<rparr>"

theorem index_write_reaches_bus_witness:
  "\<exists>c' d'. write_by_index (write_value_at 2) (daemon_memory 4096 3) 1 0x7000 1 70000 bus_client = (True, c')
     \<and> fst (read_by_index (read_value_at 2) (daemon_memory 4096 3) 1 0x7000 1 c') = Some (70000 mod 65536)
     \<and> fr_domainData (fr_mirrorToShm 7 (bus_run\<lparr>fr_shm := Some (nk_outside c')\<rparr>)) = Some d'
     \<and> slice 1 2 d' = le_bytes 2 70000"
proof -
  have live: "fr_live bus_run" "fr_shm bus_run = Some bus_map" "fr_stride bus_run = 3"
    by (simp_all add: fr_live_def bus_run_def bus_map_def shm_sized_def image_bytes_def computeProcessDataSize_def buildMirrorEntries_def
        bus_entry_def entry_end_def entry_bytes_def MAX_PROCESS_DATA_SIZE_def)
  have clean: "\<forall>x \<in> set (fr_entries bus_run). clean_entry x" "CHR ''{'' \<notin> set ''''"
    by (simp_all add: bus_run_def bus_entry_def clean_entry_def)
  have client: "sees 4096 (fr_stride bus_run) bus_map bus_client"
    "nk_layout bus_client = snd (layout_parse_from_shm_info_json (info_text bus_run bus_map @ ''''))"
    unfolding live(3) by (simp_all add: sees_def placed_def bus_client_def nekoecat_client_create_def SHM_HEADER_SIZE_def SHM_MAX_def
        shm_sized_def bus_map_def new_header_def) (simp add: live_def)
  have entry: "find (\<lambda>x. object_of x = object_of bus_entry) (take LAYOUT_MAX_ENTRIES (fr_entries bus_run)) = Some bus_entry"
    "rn_direction bus_entry = ''RxPDO''" "2 = (unat (rn_bitLength bus_entry) + 7) div 8" "unat (rn_offset bus_entry) + 2 \<le> fr_stride bus_run"
    by (simp_all add: bus_run_def LAYOUT_MAX_ENTRIES_def bus_entry_def)
  from index_write_reaches_bus [OF live(1,2) clean client entry(1-3) _ entry(4), of 70000 7] show ?thesis
    by (simp add: live(3) bus_entry_def power2_eq_square)
qed

section \<open>Waiting ends\<close>







section \<open>Attaching to the daemon\<close>

lemma plain_shm_name: "json_quote kShmName = quote_char # kShmName @ [quote_char]"
  by (simp add: json_quote_def json_escape_def kShmName_def json_char_plain code_of_def)

lemma name_in_info: "shm_name_in (info_text s m @ rest) = kShmName"
proof -
  let ?tail = "CHR '','' # json_key ''version'' @ number_int (sint (version (sm_header m))) @ CHR ''}'' # rest"
  have "strstr (json_key ''shm_name'') (info_text s m @ rest) = Some (json_key ''shm_name'' @ json_quote kShmName @ ?tail)"
    by (simp add: info_rest strstr_simps separators)
  then have "strstr (json_key ''shm_name'' @ [quote_char]) (info_text s m @ rest) = Some (json_key ''shm_name'' @ json_quote kShmName @ ?tail)"
    by (rule strstr_extend) (simp add: starts_with_iff plain_shm_name)
  moreover have "takeWhile (\<lambda>c. c \<noteq> quote_char) (kShmName @ quote_char # ?tail) = kShmName"
    by (subst takeWhile_append2) (auto simp: kShmName_def quote_char_def)
  then have "scan_until_quote 63 (kShmName @ quote_char # ?tail) = Some kShmName"
    by (simp add: scan_until_quote_def) (simp add: kShmName_def)
  ultimately show ?thesis by (simp add: shm_name_in_def plain_shm_name Let_def)
qed

lemma result_in_reply: "inner_result (reply_text rid s m) = info_text s m @ ''}''"
proof -
  have "strstr ''{'' (json_key ''result'' @ info_text s m @ ''}'') = strstr ''{'' (info_text s m @ ''}'')"
    by (intro strstr_skip) (simp_all add: json_key_def quote_char_def)
  also have "\<dots> = Some (info_text s m @ ''}'')" by (rule strstr_here) (simp add: info_text_def)
  finally show ?thesis by (simp add: inner_result_def info_in_reply strchr_def)
qed

lemma ok_in_reply: "strstr ok_needle (reply_text rid s m) \<noteq> None"
proof -
  have "strstr (json_key ''ok'') (reply_text rid s m) = Some (json_key ''ok'' @ ''true'' @ '','' @ json_key ''result'' @ info_text s m @ ''}'')"
    by (simp add: reply_text_def strstr_simps separators quote_char_def)
  from strstr_extend [OF this, of "''true''"] show ?thesis by (simp add: ok_needle_def starts_with_iff)
qed

definition shm_info_request :: string where
  "shm_info_request = CHR ''{'' # json_key ''id'' @ json_quote ''1'' @ '','' @ json_key ''method'' @ quote_char # ''freeRunShmInfo''
     @ quote_char # '','' @ json_key ''params'' @ ''{}'' @ ''}''"

lemma short_request: "take 511 shm_info_request = shm_info_request" "length (shm_info_request @ [newline]) < 1024"
  by (simp_all add: shm_info_request_def json_key_def json_quote_def json_escape_def json_char_plain code_of_def)

text \<open>
  Claim C11 (roundtrip). What the daemon describes is what the client attaches to: given the compact text of the daemon's answer to
  freeRunShmInfo, the client opens the daemon's shared object with the layout version and the size of its header, and
  its table has the daemon's entries, up to 64 and marked if there were more, each with the slave, index, sub-index and offset
  of the daemon's and with its length in bits, 16 standing for a length of 0; the direction does not come over, the client has every
  entry as a TxPDO. The names are without closing braces and there is an entry.
\<close>

theorem attach_reads_the_daemons_layout:
  assumes mapped: "fr_shm s = Some m" "fr_entries s \<noteq> []" "\<forall>e \<in> set (fr_entries s). clean_entry e"
    and sent: "px_send px (nk_sock c) (shm_info_request @ [newline]) (nk_outside c) = (True, w)"
    and answered: "recv_line px (nk_sock c) w = (Some (json_compact fr (success ''1'' (shmInfo s))), w')"
  shows "attach_connected px None c = attach_shm px kShmName
     \<lparr>ly_entries = map client_entry (take LAYOUT_MAX_ENTRIES (fr_entries s)), ly_data_size = data_size (sm_header m),
       ly_truncated = (LAYOUT_MAX_ENTRIES < length (fr_entries s))\<rparr>
     (layout_version (sm_header m)) (clamp_data_size (data_size (sm_header m))) (c\<lparr>nk_outside := w'\<rparr>)"
proof -
  have "rpc_call px ''freeRunShmInfo'' ''{}'' c = (Some (reply_text ''1'' s m), c\<lparr>nk_outside := w'\<rparr>)"
    using sent answered ok_in_reply [of "''1''" s m] short_request
    unfolding rpc_call_def send_line_def shm_info_request_def [symmetric] compact_reply [OF mapped(1)]
    by (auto simp: Let_def)
  moreover have "layout_parse_from_shm_info_json (info_text s m @ ''}'') = (True,
      \<lparr>ly_entries = map client_entry (take LAYOUT_MAX_ENTRIES (fr_entries s)), ly_data_size = data_size (sm_header m),
        ly_truncated = (LAYOUT_MAX_ENTRIES < length (fr_entries s))\<rparr>)"
    using mapped by (intro layout_of_info) simp_all
  ultimately show ?thesis
    by (simp add: attach_connected_def result_in_reply attach_layout_def name_in_info version_in_info)
qed

lemma recv_chars_line:
  assumes "newline \<notin> set line" and "length line < room"
    and "\<And>xs ys. line @ [newline] = xs @ ys \<Longrightarrow> ys \<noteq> [] \<Longrightarrow> px_recv px sock (world ys) = (Some (hd ys), world (tl ys))"
  shows "recv_chars px sock room buf (world (line @ [newline])) = (Some (buf @ line), world [])"
  using assms
proof (induction line arbitrary: room buf)
  case Nil
  from Nil(3) [of "[]" "[newline]"] Nil(2) show ?case by (cases room) simp_all
next
  case (Cons x line)
  then obtain n where n: "room = Suc n" by (cases room) auto
  have step: "px_recv px sock (world (x # line @ [newline])) = (Some x, world (line @ [newline]))"
    using Cons.prems(3) [of "[]" "x # line @ [newline]"] by simp
  have "recv_chars px sock n (buf @ [x]) (world (line @ [newline])) = (Some ((buf @ [x]) @ line), world [])"
  proof (rule Cons.IH)
    fix xs ys assume "line @ [newline] = xs @ ys" "ys \<noteq> []"
    then show "px_recv px sock (world ys) = (Some (hd ys), world (tl ys))" using Cons.prems(3) [of "x # xs" ys] by simp
  qed (use Cons.prems n in auto)
  then show ?case using step Cons.prems(1) by (auto simp: n)
qed

definition talking :: "string posix" where
  \<comment> \<open>the world is what the daemon has sent\<close>
  "talking = \<lparr>px_socket = \<lambda>t. (5, t), px_resolve = \<lambda>h p t. 1, px_connect = \<lambda>s i t. (True, t),
     px_send = \<lambda>s x t. (True, t), px_recv = \<lambda>s t. (case t of [] \<Rightarrow> (None, t) | x # xs \<Rightarrow> (Some x, xs)), px_close = \<lambda>fd t. t,
     px_getenv = \<lambda>x t. None, px_shm_open = \<lambda>x t. (- 1, t), px_fstat = \<lambda>fd t. None, px_mmap = \<lambda>fd k t. (None, t),
     px_munmap = \<lambda>a k t. t, px_header = \<lambda>a t. (small_header 4, t), px_load = \<lambda>p k t. ([], t), px_store = \<lambda>p bs t. t,
     px_now = \<lambda>t. (0, t), px_sleep = \<lambda>d t. t\<rparr>"

lemma talking_recv: "ys \<noteq> [] \<Longrightarrow> px_recv talking sock ys = (Some (hd ys), tl ys)"
  by (cases ys) (simp_all add: talking_def)

theorem attach_reads_the_daemons_layout_witness:
  "\<forall>fr. \<exists>c'. attach_connected talking None (nekoecat_client_create (json_compact fr (success ''1'' (shmInfo bus_run)) @ [newline]))
     = attach_shm talking kShmName \<lparr>ly_entries = [client_entry bus_entry], ly_data_size = 3, ly_truncated = False\<rparr> 1 3 c'"
proof (rule allI)
  fix fr
  let ?t = "json_compact fr (success ''1'' (shmInfo bus_run))"
  have m: "fr_shm bus_run = Some bus_map" by (simp add: bus_run_def)
  have es: "fr_entries bus_run = [bus_entry]" by (simp add: bus_run_def)
  have nl: "newline = CHR 0x0A" by code_simp
  have nums: "number_int 0 = ''0''" "number_int 3 = ''3''" "number_int 1 = ''1''" "number_nat 16 = ''16''" "number_nat 28672 = ''28672''"
    "number_nat (Suc 0) = ''1''"
    by (simp_all add: number_int_def number_nat_def digits_base.simps digit_char_def char_of_def bit_0)
  have line: "?t = reply_text ''1'' bus_run bus_map" using compact_reply [OF m] .
  have info: "newline \<notin> set ?t" "length ?t < 1000"
    unfolding line by (simp_all add: reply_text_def info_text_def entry_text_def es bus_entry_def bus_map_def new_header_def LAYOUT_VERSION_def
        nums json_key_def json_quote_def json_escape_def json_char_plain code_of_def kShmName_def nl quote_char_def)
  have room: "length ?t < kMaxRpcResponse - 1" using info(2) by (simp add: kMaxRpcResponse_def)
  have "recv_chars talking (- 1) (kMaxRpcResponse - 1) '''' (?t @ [newline]) = (Some ('''' @ ?t), [])"
    by (rule recv_chars_line [where world = "\<lambda>t. t", OF info(1) room talking_recv])
  then have "recv_line talking (- 1) (?t @ [newline]) = (Some ?t, [])" by (simp add: recv_line_def)
  moreover have "px_send talking (- 1) (shm_info_request @ [newline]) (?t @ [newline]) = (True, ?t @ [newline])" by (simp add: talking_def)
  ultimately have "attach_connected talking None (nekoecat_client_create (?t @ [newline])) = attach_shm talking kShmName
     \<lparr>ly_entries = map client_entry (take LAYOUT_MAX_ENTRIES (fr_entries bus_run)), ly_data_size = data_size (sm_header bus_map),
       ly_truncated = (LAYOUT_MAX_ENTRIES < length (fr_entries bus_run))\<rparr>
     (layout_version (sm_header bus_map)) (clamp_data_size (data_size (sm_header bus_map))) ((nekoecat_client_create (?t @ [newline]))\<lparr>nk_outside := []\<rparr>)"
    using attach_reads_the_daemons_layout [OF m, of talking "nekoecat_client_create (?t @ [newline])" "?t @ [newline]" fr "[]"]
    by (simp add: es bus_entry_def clean_entry_def nekoecat_client_create_def)
  then show "\<exists>c'. attach_connected talking None (nekoecat_client_create (?t @ [newline]))
     = attach_shm talking kShmName \<lparr>ly_entries = [client_entry bus_entry], ly_data_size = 3, ly_truncated = False\<rparr> 1 3 c'"
    by (auto simp: es LAYOUT_MAX_ENTRIES_def bus_map_def new_header_def LAYOUT_VERSION_def clamp_data_size_def SHM_MAX_def)
qed

section \<open>What is lost on the way\<close>

text \<open>The direction of every entry reads as TxPDO: the scan for it begins at the opening quote, where it ends at once.\<close>

lemma direction_is_lost: "ly_direction (read_entry (entry_text (e\<lparr>rn_direction := ''RxPDO''\<rparr>) @ s)) = ''TxPDO''"
  by (simp add: read_entry_text client_entry_def)

text \<open>A name with a closing brace and a bracket behind it ends the array early: the entry after it is missing.\<close>

lemma brace_in_name_ends_layout:
  "length (fst (parse_entries 64 (join_with '','' [entry_text (bus_entry\<lparr>rn_index := 7, rn_name := ''a}]''\<rparr>), entry_text (bus_entry\<lparr>rn_index := 7\<rparr>)] @ '']''))) = 1"
  by code_simp

end
