(* ===== verification/QtXml.thy ===== *)
theory QtXml
  imports QtText
begin

text \<open>
  \<open>QXmlStreamReader\<close> as the code uses it. Reading is outside the program: a document is the list of tokens
  the reader reports, with the error it stops at, if any. \<open>element_text\<close> is the documented \<open>readElementText\<close>.

  A written document is a list of items; \<open>xml_text\<close> is its text and \<open>xml_tokens\<close> the tokens a reader reports
  on it: text outside the root element is not reported, an empty element gives two tokens. \<open>xml_scan\<close> is a reader of such
  texts, which shows that the tokens are determined by the text.
\<close>

datatype xml_event =
    StartTag string "(string \<times> string) list"
  | EndTag string
  | Chars string
  | OtherToken \<comment> \<open>declaration, comment, processing instruction, document type\<close>

type_synonym xml_document = "xml_event list \<times> string option"

definition attr :: "string \<Rightarrow> (string \<times> string) list \<Rightarrow> string" where
  \<comment> \<open>\<open>xml.attributes().value(name)\<close>\<close>
  "attr k as = (case map_of as k of None \<Rightarrow> [] | Some v \<Rightarrow> v)"

fun element_text :: "string \<Rightarrow> xml_event list \<Rightarrow> string \<times> xml_event list \<times> string option" where
  \<comment> \<open>the text read so far; the tokens left; the error raised at a child element\<close>
  "element_text acc [] = (acc, [], None)"
| "element_text acc (Chars s # ts) = element_text (acc @ s) ts"
| "element_text acc (OtherToken # ts) = element_text acc ts"
| "element_text acc (EndTag n # ts) = (acc, ts, None)"
| "element_text acc (StartTag n as # ts) = (acc, [], Some ''Expected character data.'')"

lemma element_text_shorter [termination_simp]:
  "element_text acc ts = (s, ts', e) \<Longrightarrow> length ts' \<le> length ts"
  by (induction acc ts rule: element_text.induct) auto

section \<open>Written documents\<close>

datatype xml_item =
    XDecl string
  | XOpen string "(string \<times> string) list"
  | XClose string
  | XEmpty string "(string \<times> string) list"
  | XText string

definition attrs_text :: "(string \<times> string) list \<Rightarrow> string" where
  "attrs_text as = concat (map (\<lambda>(k, v). '' '' @ k @ ''='' @ [quote_char] @ v @ [quote_char]) as)"

fun item_text :: "xml_item \<Rightarrow> string" where
  "item_text (XDecl s) = ''<?'' @ s @ ''?>''"
| "item_text (XOpen n as) = ''<'' @ n @ attrs_text as @ ''>''"
| "item_text (XClose n) = ''</'' @ n @ ''>''"
| "item_text (XEmpty n as) = ''<'' @ n @ attrs_text as @ ''/>''"
| "item_text (XText s) = s"

definition xml_text :: "xml_item list \<Rightarrow> string" where
  "xml_text items = concat (map item_text items)"

fun xml_tokens :: "nat \<Rightarrow> xml_item list \<Rightarrow> xml_event list" where
  \<comment> \<open>with the depth of the element the items stand in\<close>
  "xml_tokens d [] = []"
| "xml_tokens d (XDecl s # r) = OtherToken # xml_tokens d r"
| "xml_tokens d (XOpen n as # r) = StartTag n as # xml_tokens (Suc d) r"
| "xml_tokens d (XClose n # r) = EndTag n # xml_tokens (d - 1) r"
| "xml_tokens d (XEmpty n as # r) = StartTag n as # EndTag n # xml_tokens d r"
| "xml_tokens d (XText s # r) = (if d = 0 then [] else [Chars s]) @ xml_tokens d r"

definition xml_name_char :: "char \<Rightarrow> bool" where
  "xml_name_char c \<longleftrightarrow> (let n = code_of c in 65 \<le> n \<and> n \<le> 90 \<or> 97 \<le> n \<and> n \<le> 122)"

definition xml_name :: "string \<Rightarrow> bool" where
  "xml_name s \<longleftrightarrow> s \<noteq> [] \<and> list_all xml_name_char s"

definition xml_plain_char :: "char \<Rightarrow> bool" where
  \<comment> \<open>a printing character that is no markup\<close>
  "xml_plain_char c \<longleftrightarrow> (let n = code_of c in 32 \<le> n \<and> n \<le> 126) \<and> c \<notin> {CHR ''<'', CHR ''>'', CHR ''&'', quote_char}"

definition xml_plain :: "string \<Rightarrow> bool" where
  "xml_plain s \<longleftrightarrow> list_all xml_plain_char s"

definition xml_space_char :: "char \<Rightarrow> bool" where
  "xml_space_char c \<longleftrightarrow> code_of c \<in> {10, 32}"

definition attrs_ok :: "(string \<times> string) list \<Rightarrow> bool" where
  "attrs_ok as \<longleftrightarrow> distinct (map fst as) \<and> list_all (\<lambda>(k, v). xml_name k \<and> xml_plain v) as"

fun item_ok :: "xml_item \<Rightarrow> bool" where
  "item_ok (XDecl s) \<longleftrightarrow> False" \<comment> \<open>only at the beginning\<close>
| "item_ok (XOpen n as) \<longleftrightarrow> xml_name n \<and> attrs_ok as"
| "item_ok (XClose n) \<longleftrightarrow> xml_name n"
| "item_ok (XEmpty n as) \<longleftrightarrow> xml_name n \<and> attrs_ok as"
| "item_ok (XText s) \<longleftrightarrow> s \<noteq> [] \<and> list_all (\<lambda>c. xml_plain_char c \<or> xml_space_char c) s"

fun is_text :: "xml_item \<Rightarrow> bool" where
  "is_text (XText s) = True"
| "is_text i = False"

fun texts_apart :: "xml_item list \<Rightarrow> bool" where
  "texts_apart (i # j # r) \<longleftrightarrow> \<not> (is_text i \<and> is_text j) \<and> texts_apart (j # r)"
| "texts_apart r \<longleftrightarrow> True"

definition blank :: "string \<Rightarrow> bool" where
  "blank s \<longleftrightarrow> list_all xml_space_char s"

fun rooted :: "string list \<Rightarrow> xml_item list \<Rightarrow> bool" where
  \<comment> \<open>the items close the elements that are open, innermost first, and nothing but blank text follows\<close>
  "rooted [] [] \<longleftrightarrow> True"
| "rooted [] (XText s # r) \<longleftrightarrow> blank s \<and> r = []"
| "rooted [] (i # r) \<longleftrightarrow> False"
| "rooted (m # st) [] \<longleftrightarrow> False"
| "rooted (m # st) (XOpen n as # r) \<longleftrightarrow> rooted (n # m # st) r"
| "rooted (m # st) (XClose n # r) \<longleftrightarrow> m = n \<and> rooted st r"
| "rooted (m # st) (i # r) \<longleftrightarrow> rooted (m # st) r"

definition xml_header :: string where
  "xml_header = ''xml version='' @ [quote_char] @ ''1.0'' @ [quote_char] @ '' encoding='' @ [quote_char] @ ''UTF-8'' @ [quote_char]"

fun xml_wellformed :: "xml_item list \<Rightarrow> bool" where
  \<comment> \<open>a declaration and one root element, all of plain characters\<close>
  "xml_wellformed (XDecl s # XText b # XOpen root as # r) \<longleftrightarrow> s = xml_header \<and> blank b
     \<and> list_all item_ok (XText b # XOpen root as # r) \<and> texts_apart (XOpen root as # r) \<and> rooted [root] r"
| "xml_wellformed items \<longleftrightarrow> False"

section \<open>Reading them again\<close>

function scan_attrs :: "string \<Rightarrow> (string \<times> string) list" where
  "scan_attrs [] = []"
| "scan_attrs (c # s) =
     (let k = takeWhile (\<lambda>c. c \<noteq> CHR ''='') s; r = drop (length k + 2) s; v = takeWhile (\<lambda>c. c \<noteq> quote_char) r
      in (k, v) # scan_attrs (drop (length v + 1) r))"
  by pat_completeness auto
termination by (relation "measure length") auto

definition scan_tag :: "nat \<Rightarrow> string \<Rightarrow> xml_event list \<times> nat" where
  \<comment> \<open>the tokens of a tag and the depth behind it\<close>
  "scan_tag d t =
     (let parts = (\<lambda>t. (takeWhile (\<lambda>c. c \<noteq> CHR '' '') t, scan_attrs (dropWhile (\<lambda>c. c \<noteq> CHR '' '') t))) in
      if starts_with ''?'' t then ([OtherToken], d)
      else if starts_with ''/'' t then ([EndTag (tl t)], d - 1)
      else if t \<noteq> [] \<and> last t = CHR ''/'' then (let (n, as) = parts (butlast t) in ([StartTag n as, EndTag n], d))
      else (let (n, as) = parts t in ([StartTag n as], Suc d)))"

function xml_scan :: "nat \<Rightarrow> string \<Rightarrow> xml_event list" where
  "xml_scan d [] = []"
| "xml_scan d (c # s) =
     (if c = CHR ''<'' then
        let t = takeWhile (\<lambda>c. c \<noteq> CHR ''>'') s; (ts, d') = scan_tag d t in ts @ xml_scan d' (drop (length t + 1) s)
      else
        let t = takeWhile (\<lambda>c. c \<noteq> CHR ''<'') (c # s) in
        (if d = 0 then [] else [Chars t]) @ xml_scan d (drop (length t) (c # s)))"
  by pat_completeness auto
termination by (relation "measure (length \<circ> snd)") auto

declare xml_scan.simps(2) [simp del] scan_attrs.simps(2) [simp del]

lemma takeWhile_stop: "x \<notin> set s \<Longrightarrow> takeWhile (\<lambda>c. c \<noteq> x) (s @ x # r) = s"
  by (induction s) auto

lemma name_chars: "xml_name s \<Longrightarrow> c \<in> set s \<Longrightarrow> c \<notin> {CHR '' '', CHR ''='', CHR ''/'', CHR ''?'', CHR ''<'', CHR ''>'', quote_char}"
  by (auto simp: xml_name_def list_all_iff xml_name_char_def Let_def code_of_def quote_char_def)

lemma plain_chars: "xml_plain s \<Longrightarrow> c \<in> set s \<Longrightarrow> c \<notin> {CHR ''<'', CHR ''>'', quote_char}"
  by (auto simp: xml_plain_def list_all_iff xml_plain_char_def)

lemma attrs_text_Cons: "attrs_text ((k, v) # as) = CHR '' '' # k @ CHR ''='' # quote_char # v @ quote_char # attrs_text as"
  by (simp add: attrs_text_def)

lemma scan_attrs_text: "attrs_ok as \<Longrightarrow> scan_attrs (attrs_text as) = as"
proof (induction as)
  case Nil
  then show ?case by (simp add: attrs_text_def)
next
  case (Cons a as)
  obtain k v where a: "a = (k, v)" by (cases a)
  have k: "CHR ''='' \<notin> set k" and v: "quote_char \<notin> set v"
    using Cons.prems name_chars plain_chars by (force simp: a attrs_ok_def)+
  have "attrs_ok as" using Cons.prems by (simp add: attrs_ok_def)
  then show ?case using Cons.IH
    by (simp add: a attrs_text_Cons scan_attrs.simps(2) takeWhile_stop [OF k] takeWhile_stop [OF v] Let_def)
qed

lemma attrs_text_chars: "attrs_ok as \<Longrightarrow> CHR ''>'' \<notin> set (attrs_text as)"
proof (induction as)
  case (Cons a as)
  then show ?case using name_chars plain_chars
    by (cases a) (force simp: attrs_text_Cons attrs_ok_def quote_char_def)
qed (simp add: attrs_text_def)

lemma attrs_text_hd: "as \<noteq> [] \<Longrightarrow> \<exists>r. attrs_text as = CHR '' '' # r"
  by (cases as) (auto simp: attrs_text_Cons)

lemma attrs_text_last: "as \<noteq> [] \<Longrightarrow> last (attrs_text as) = quote_char \<and> attrs_text as \<noteq> []"
proof (induction as)
  case (Cons a as)
  then show ?case by (cases a; cases "as = []") (simp_all add: attrs_text_Cons, simp add: attrs_text_def)
qed simp

lemma tag_parts:
  assumes "xml_name n"
  shows "takeWhile (\<lambda>c. c \<noteq> CHR '' '') (n @ attrs_text as) = n" and "dropWhile (\<lambda>c. c \<noteq> CHR '' '') (n @ attrs_text as) = attrs_text as"
proof -
  have n: "c \<in> set n \<Longrightarrow> c \<noteq> CHR '' ''" for c using name_chars [OF assms, of c] by simp
  consider "attrs_text as = []" | r where "attrs_text as = CHR '' '' # r" using attrs_text_hd [of as] by (cases "as = []") (auto simp: attrs_text_def)
  then have a: "takeWhile (\<lambda>c. c \<noteq> CHR '' '') (attrs_text as) = [] \<and> dropWhile (\<lambda>c. c \<noteq> CHR '' '') (attrs_text as) = attrs_text as"
    by cases simp_all
  show "takeWhile (\<lambda>c. c \<noteq> CHR '' '') (n @ attrs_text as) = n"
    using a by (simp add: takeWhile_append2 n)
  show "dropWhile (\<lambda>c. c \<noteq> CHR '' '') (n @ attrs_text as) = attrs_text as"
    using a by (simp add: dropWhile_append2 n)
qed

lemma name_first: "xml_name n \<Longrightarrow> \<exists>c r. n = c # r \<and> c \<noteq> CHR ''/'' \<and> c \<noteq> CHR ''?''"
  using name_chars [of n "hd n"] by (cases n) (simp_all, simp add: xml_name_def)

lemma scan_tag_open:
  assumes "xml_name n" and "attrs_ok as"
  shows "scan_tag d (n @ attrs_text as) = ([StartTag n as], Suc d)" and "scan_tag d (n @ attrs_text as @ ''/'') = ([StartTag n as, EndTag n], d)"
proof -
  from name_first [OF assms(1)] obtain c r where c: "n = c # r" "c \<noteq> CHR ''/''" "c \<noteq> CHR ''?''" by blast
  have "last (n @ attrs_text as) \<noteq> CHR ''/''"
    using attrs_text_last [of as] name_chars [OF assms(1), of "last n"] c by (cases "as = []") (auto simp: attrs_text_def quote_char_def)
  then show "scan_tag d (n @ attrs_text as) = ([StartTag n as], Suc d)"
    using c tag_parts [OF assms(1), of as] scan_attrs_text [OF assms(2)] by (simp add: scan_tag_def starts_with_def Let_def)
  show "scan_tag d (n @ attrs_text as @ ''/'') = ([StartTag n as, EndTag n], d)"
    using c tag_parts [OF assms(1), of as] scan_attrs_text [OF assms(2)]
    by (simp add: scan_tag_def starts_with_def Let_def butlast_append)
qed

lemma scan_tagged: "CHR ''>'' \<notin> set t \<Longrightarrow> scan_tag d t = (ts, d') \<Longrightarrow> xml_scan d (CHR ''<'' # t @ CHR ''>'' # r) = ts @ xml_scan d' r"
  by (simp add: xml_scan.simps(2) takeWhile_stop Let_def)

lemma scan_texted:
  assumes "s \<noteq> []" and "CHR ''<'' \<notin> set s" and "r = [] \<or> hd r = CHR ''<''"
  shows "xml_scan d (s @ r) = (if d = 0 then [] else [Chars s]) @ xml_scan d r"
proof -
  obtain c t where s: "s = c # t" using assms(1) by (cases s) auto
  have c: "c \<noteq> CHR ''<''" "takeWhile (\<lambda>c. c \<noteq> CHR ''<'') (t @ r) = t"
    using assms(2,3) by (cases r; auto simp: s takeWhile_stop takeWhile_eq_all_conv)+
  then show ?thesis by (simp add: s xml_scan.simps(2))
qed

lemma tag_chars: "xml_name n \<Longrightarrow> attrs_ok as \<Longrightarrow> CHR ''>'' \<notin> set (n @ attrs_text as)"
  using attrs_text_chars name_chars [of n "CHR ''>''"] by auto

lemma item_starts: "\<not> is_text i \<Longrightarrow> \<exists>r. item_text i = CHR ''<'' # r"
  by (cases i) auto

lemma scan_item:
  assumes "item_ok i" and "is_text i \<longrightarrow> r = [] \<or> hd r = CHR ''<''"
  shows "xml_scan d (item_text i @ r) = xml_tokens d [i] @ xml_scan (case i of XOpen n as \<Rightarrow> Suc d | XClose n \<Rightarrow> d - 1 | _ \<Rightarrow> d) r"
proof (cases i)
  case (XOpen n as)
  then have n: "xml_name n" "attrs_ok as" using assms by simp_all
  from scan_tagged [OF tag_chars [OF n] scan_tag_open(1) [OF n], of d r] XOpen show ?thesis by simp
next
  case (XEmpty n as)
  then have n: "xml_name n" "attrs_ok as" using assms by simp_all
  have "CHR ''>'' \<notin> set (n @ attrs_text as @ ''/'')" using tag_chars [OF n] by simp
  from scan_tagged [OF this scan_tag_open(2) [OF n], of d r] XEmpty show ?thesis by simp
next
  case (XClose n)
  then have "CHR ''>'' \<notin> set (CHR ''/'' # n)" using assms name_chars [of n "CHR ''>''"] by auto
  from scan_tagged [OF this, of d "[EndTag n]" "d - 1" r] XClose show ?thesis
    by (simp add: scan_tag_def starts_with_def Let_def)
next
  case (XText s)
  have lt: "\<not> xml_plain_char (CHR ''<'')" "\<not> xml_space_char (CHR ''<'')" by (simp_all add: xml_plain_char_def xml_space_char_def code_of_def)
  have "s \<noteq> []" "\<forall>c \<in> set s. xml_plain_char c \<or> xml_space_char c" using assms XText by (simp_all add: list_all_iff)
  with lt have "CHR ''<'' \<notin> set s" "s \<noteq> []" by blast+
  with XText show ?thesis using scan_texted assms by simp
qed (use assms in auto)

lemma xml_tokens_Cons:
  "xml_tokens d (i # r) = xml_tokens d [i] @ xml_tokens (case i of XOpen n as \<Rightarrow> Suc d | XClose n \<Rightarrow> d - 1 | _ \<Rightarrow> d) r"
  by (cases i) auto

lemma scan_items: "list_all item_ok items \<Longrightarrow> texts_apart items \<Longrightarrow> xml_scan d (xml_text items) = xml_tokens d items"
proof (induction items arbitrary: d)
  case (Cons i r)
  have "is_text i \<longrightarrow> xml_text r = [] \<or> hd (xml_text r) = CHR ''<''"
    using Cons.prems(2) item_starts by (cases r) (fastforce simp: xml_text_def)+
  moreover have "texts_apart r" using Cons.prems(2) by (cases r) auto
  ultimately show ?case
    using Cons scan_item [of i "xml_text r" d] by (simp add: xml_tokens_Cons [of d i r]) (simp add: xml_text_def)
qed (simp add: xml_text_def)

lemma xml_text_Cons: "xml_text (i # r) = item_text i @ xml_text r"
  by (simp add: xml_text_def)

theorem scan_wellformed: "xml_wellformed items \<Longrightarrow> xml_scan 0 (xml_text items) = xml_tokens 0 items"
proof (cases items rule: xml_wellformed.cases)
  case (1 s b root as r)
  assume w: "xml_wellformed items"
  have "xml_scan 0 (CHR ''<'' # (CHR ''?'' # xml_header @ ''?'') @ CHR ''>'' # xml_text (XText b # XOpen root as # r))
    = [OtherToken] @ xml_scan 0 (xml_text (XText b # XOpen root as # r))"
    by (rule scan_tagged) (simp_all add: xml_header_def quote_char_def scan_tag_def starts_with_def)
  moreover have "xml_scan 0 (xml_text (XText b # XOpen root as # r)) = xml_tokens 0 (XText b # XOpen root as # r)"
    by (rule scan_items) (use w 1 in auto)
  ultimately show ?thesis using 1 w by (simp add: xml_text_Cons)
qed auto

section \<open>Assembling documents\<close>

definition closed :: "xml_item list \<Rightarrow> bool" where
  \<comment> \<open>items that close what they open\<close>
  "closed f \<longleftrightarrow> (\<forall>m st r. rooted (m # st) (f @ r) \<longleftrightarrow> rooted (m # st) r)"

lemma rooted_closed [simp]: "closed f \<Longrightarrow> rooted (m # st) (f @ r) \<longleftrightarrow> rooted (m # st) r"
  by (simp add: closed_def)

lemma closed_simps [simp]:
  "closed []" "closed f \<Longrightarrow> closed g \<Longrightarrow> closed (f @ g)" "closed f \<Longrightarrow> closed (XText s # f)" "closed f \<Longrightarrow> closed (XEmpty n as # f)"
  "closed f \<Longrightarrow> closed g \<Longrightarrow> closed (XOpen n as # f @ XClose n # g)"
  by (simp_all add: closed_def)

lemma closed_concat: "(\<And>x. x \<in> set xs \<Longrightarrow> closed (f x)) \<Longrightarrow> closed (concat (map f xs))"
  by (induction xs) auto

end
