(* ===== verification/EsiRepository.thy ===== *)
theory EsiRepository
  imports QtXml QtHash
begin

text \<open>
  The repository of device descriptions (\<^verbatim>\<open>services/EsiService.{h,cpp}\<close>), with the parser and the matcher of the
  browser plugin over it (\<^verbatim>\<open>plugins/esi/EsiParser.cpp\<close>, \<^verbatim>\<open>plugins/esi/EsiDeviceMatcher.cpp\<close>). The files are outside
  the program: opening one for reading gives the tokens its reader reports.
\<close>

section \<open>Data\<close>

record esi_entry =
  ese_index :: string
  ese_subIndex :: string
  ese_name :: string
  ese_type :: string
  ese_bitSize :: int

record esi_pdo =
  esp_index :: string
  esp_name :: string
  esp_entries :: "esi_entry list"

record esi_sm =
  ess_index :: int
  ess_name :: string
  ess_direction :: string
  ess_pdos :: int

record esi_device =
  esd_id :: string
  esd_name :: string
  esd_type :: string
  esd_description :: string
  esd_vendorId :: int
  esd_productCode :: int
  esd_revisionNo :: int
  esd_rxPdos :: "esi_pdo list"
  esd_txPdos :: "esi_pdo list"
  esd_syncManagers :: "esi_sm list"

definition no_entry :: esi_entry where
  "no_entry = \<lparr>ese_index = [], ese_subIndex = [], ese_name = [], ese_type = [], ese_bitSize = 0\<rparr>"

definition no_pdo :: esi_pdo where
  "no_pdo = \<lparr>esp_index = [], esp_name = [], esp_entries = []\<rparr>"

definition no_device :: esi_device where
  "no_device = \<lparr>esd_id = [], esd_name = [], esd_type = [], esd_description = [], esd_vendorId = 0, esd_productCode = 0,
     esd_revisionNo = 0, esd_rxPdos = [], esd_txPdos = [], esd_syncManagers = []\<rparr>"

datatype esi_signal = Esi_imported nat | Esi_error string

record esi_service =
  esi_devices :: "esi_device list"
  esi_index :: "(string \<times> nat) list"
  esi_signals :: "esi_signal list"

definition esi_init :: esi_service where
  "esi_init = \<lparr>esi_devices = [], esi_index = [], esi_signals = []\<rparr>"

definition esi_emit :: "esi_signal \<Rightarrow> esi_service \<Rightarrow> esi_service" where
  "esi_emit s sv = sv\<lparr>esi_signals := esi_signals sv @ [s]\<rparr>"

section \<open>Reading a file\<close>

definition parseHexOrDec :: "string \<Rightarrow> int" where
  "parseHexOrDec s = (let t = trimmed s in
     if starts_with_ci ''#x'' t then or_zero (to_sint (2 ^ 31) 16 (drop 2 t))
     else if starts_with_ci ''0x'' t then or_zero (to_sint (2 ^ 31) 16 (drop 2 t))
     else or_zero (to_sint (2 ^ 31) 16 t))"

definition hex_unsigned :: "nat \<Rightarrow> int \<Rightarrow> string" where
  \<comment> \<open>\<open>arg(i, w, 16, QChar('0'))\<close>: a negative number is written as its 64-bit complement\<close>
  "hex_unsigned w i = hex_field w (nat (i mod 2 ^ 64))"

definition device_key :: "int \<Rightarrow> int \<Rightarrow> string" where
  "device_key vendor product = hex_unsigned 8 vendor @ '':'' @ hex_unsigned 8 product"

record esi_scan =
  sc_current :: esi_device
  sc_inDescriptions :: bool
  sc_inDevice :: bool
  sc_inRx :: bool
  sc_inTx :: bool
  sc_inSm :: bool
  sc_pdo :: esi_pdo
  sc_entry :: esi_entry
  sc_parsed :: "esi_device list"
  sc_keys :: "(string \<times> nat) list"

definition scan_init :: esi_scan where
  "scan_init = \<lparr>sc_current = no_device, sc_inDescriptions = False, sc_inDevice = False, sc_inRx = False, sc_inTx = False,
     sc_inSm = False, sc_pdo = no_pdo, sc_entry = no_entry, sc_parsed = [], sc_keys = []\<rparr>"

definition end_device :: "(string \<times> nat) list \<Rightarrow> esi_scan \<Rightarrow> esi_scan" where
  "end_device known st =
     (let d = sc_current st; key = device_key (esd_vendorId d) (esd_productCode d);
          st' = (if sc_inDevice st \<and> esd_vendorId d \<noteq> 0 \<and> map_of known key = None \<and> map_of (sc_keys st) key = None
            then st\<lparr>sc_keys := hash_insert key (length (sc_parsed st)) (sc_keys st), sc_parsed := sc_parsed st @ [d\<lparr>esd_id := key\<rparr>]\<rparr>
            else st)
      in st'\<lparr>sc_current := no_device, sc_inDevice := False\<rparr>)"

definition end_element :: "(string \<times> nat) list \<Rightarrow> string \<Rightarrow> esi_scan \<Rightarrow> esi_scan" where
  "end_element known name st =
     (if name = ''Descriptions'' then st\<lparr>sc_inDescriptions := False\<rparr>
      else if name = ''Device'' then end_device known st
      else if name = ''RxPdo'' then
        (if sc_inRx st then st\<lparr>sc_current := (sc_current st)\<lparr>esd_rxPdos := esd_rxPdos (sc_current st) @ [sc_pdo st]\<rparr>,
           sc_pdo := no_pdo, sc_inRx := False\<rparr> else st)
      else if name = ''TxPdo'' then
        (if sc_inTx st then st\<lparr>sc_current := (sc_current st)\<lparr>esd_txPdos := esd_txPdos (sc_current st) @ [sc_pdo st]\<rparr>,
           sc_pdo := no_pdo, sc_inTx := False\<rparr> else st)
      else if name = ''Sm'' then st\<lparr>sc_inSm := False\<rparr>
      else if name = ''Entry'' then
        (if sc_inRx st \<or> sc_inTx st then st\<lparr>sc_pdo := (sc_pdo st)\<lparr>esp_entries := esp_entries (sc_pdo st) @ [sc_entry st]\<rparr>,
           sc_entry := no_entry\<rparr> else st\<lparr>sc_entry := no_entry\<rparr>)
      else st)"

definition unprefixed :: "string \<Rightarrow> string" where
  "unprefixed s = (if starts_with ''0x'' s then drop 2 s else s)"

definition typed_device :: "(string \<times> string) list \<Rightarrow> string \<Rightarrow> esi_device \<Rightarrow> esi_device" where
  \<comment> \<open>the attributes and the text of a \<open>Type\<close> element\<close>
  "typed_device as s d =
     (let v = parseHexOrDec (attr ''VendorId'' as); p = parseHexOrDec (attr ''ProductCode'' as); r = parseHexOrDec (attr ''RevisionNo'' as);
          t = attr ''Type'' as;
          d1 = (if v \<noteq> 0 then d\<lparr>esd_vendorId := v\<rparr> else d);
          d2 = (if p \<noteq> 0 then d1\<lparr>esd_productCode := p\<rparr> else d1);
          d3 = (if r \<noteq> 0 then d2\<lparr>esd_revisionNo := r\<rparr> else d2);
          d4 = (if t \<noteq> [] then d3\<lparr>esd_type := t\<rparr> else d3)
      in d4\<lparr>esd_name := (if s = [] then esd_type d4 else s)\<rparr>)"

definition opened :: "string \<Rightarrow> esi_scan \<Rightarrow> esi_scan" where
  "opened name st =
     (let st1 = (if name = ''Descriptions'' then st\<lparr>sc_inDescriptions := True\<rparr> else st) in
      if sc_inDescriptions st1 \<and> name = ''Device'' then st1\<lparr>sc_inDevice := True, sc_current := no_device\<rparr> else st1)"

definition start_plain :: "string \<Rightarrow> (string \<times> string) list \<Rightarrow> esi_scan \<Rightarrow> esi_scan" where
  \<comment> \<open>the elements of a device of which only the attributes are read\<close>
  "start_plain name as st =
     (if name = ''Sm'' then st\<lparr>sc_inSm := True, sc_current := (sc_current st)\<lparr>esd_syncManagers := esd_syncManagers (sc_current st)
          @ [\<lparr>ess_index = or_zero (to_int32 (attr ''Index'' as)), ess_name = [], ess_direction = attr ''Dir'' as, ess_pdos = 0\<rparr>]\<rparr>\<rparr>
      else if name = ''RxPdo'' then st\<lparr>sc_inRx := True, sc_pdo := no_pdo\<lparr>esp_index := unprefixed (attr ''Index'' as)\<rparr>\<rparr>
      else if name = ''TxPdo'' then st\<lparr>sc_inTx := True, sc_pdo := no_pdo\<lparr>esp_index := unprefixed (attr ''Index'' as)\<rparr>\<rparr>
      else if name = ''Entry'' then st\<lparr>sc_entry := (sc_entry st)\<lparr>ese_index := unprefixed (attr ''Index'' as),
          ese_subIndex := attr ''SubIndex'' as, ese_bitSize := or_zero (to_int32 (attr ''BitLen'' as))\<rparr>\<rparr>
      else st)"

definition reads_text :: "string \<Rightarrow> esi_scan \<Rightarrow> bool" where
  \<comment> \<open>the branches that call \<open>readElementText\<close>; the second one on \<open>Name\<close> is never reached\<close>
  "reads_text name st \<longleftrightarrow> sc_inDevice st \<and> (name \<in> {''Type'', ''Name'', ''Desc''} \<or> name = ''DataType'' \<and> (sc_inRx st \<or> sc_inTx st))"

definition start_text :: "string \<Rightarrow> (string \<times> string) list \<Rightarrow> string \<Rightarrow> esi_scan \<Rightarrow> esi_scan" where
  \<comment> \<open>the elements of which the text was read\<close>
  "start_text name as s st =
     (if name = ''Type'' then st\<lparr>sc_current := typed_device as s (sc_current st)\<rparr>
      else if name = ''Name'' then st\<lparr>sc_current := (sc_current st)\<lparr>esd_name := s\<rparr>\<rparr>
      else if name = ''Desc'' then st\<lparr>sc_current := (sc_current st)\<lparr>esd_description := s\<rparr>\<rparr>
      else st\<lparr>sc_entry := (sc_entry st)\<lparr>ese_type := s\<rparr>\<rparr>)"

function (sequential) esi_loop :: "(string \<times> nat) list \<Rightarrow> string option \<Rightarrow> xml_event list \<Rightarrow> esi_scan \<Rightarrow> esi_scan \<times> string option" where
  \<comment> \<open>the reading loop; an error of the reader ends it\<close>
  "esi_loop known err [] st = (st, err)"
| "esi_loop known err (StartTag name as # ts) st =
     (let st1 = opened name st in
      if reads_text name st1 then
        (case element_text [] ts of (s, ts', raised) \<Rightarrow>
          (case raised of Some e \<Rightarrow> (start_text name as s st1, Some e)
           | None \<Rightarrow> esi_loop known err ts' (start_text name as s st1)))
      else esi_loop known err ts (if sc_inDevice st1 then start_plain name as st1 else st1))"
| "esi_loop known err (EndTag name # ts) st = esi_loop known err ts (end_element known name st)"
| "esi_loop known err (t # ts) st = esi_loop known err ts st"
  by pat_completeness auto
termination
  by (relation "measure (\<lambda>(known, err, ts, st). length ts)") (auto dest!: element_text_shorter [OF sym])

definition add_device :: "esi_service \<Rightarrow> esi_device \<Rightarrow> esi_service" where
  "add_device sv d = sv\<lparr>esi_index := hash_insert (esd_id d) (length (esi_devices sv)) (esi_index sv), esi_devices := esi_devices sv @ [d]\<rparr>"

definition importEsi :: "(string \<Rightarrow> xml_document option) \<Rightarrow> string \<Rightarrow> esi_service \<Rightarrow> bool \<times> esi_service" where
  "importEsi open_xml path sv =
     (if path = [] then (False, esi_emit (Esi_error ''ESI path is empty'') sv)
      else case open_xml path of
        None \<Rightarrow> (False, esi_emit (Esi_error (''Cannot open file: '' @ path)) sv)
      | Some (ts, err) \<Rightarrow>
          (case esi_loop (esi_index sv) err ts scan_init of
             (st, Some e) \<Rightarrow> (False, esi_emit (Esi_error (''XML parse error: '' @ e)) sv)
           | (st, None) \<Rightarrow>
               if sc_parsed st = [] then (False, esi_emit (Esi_error (''No ESI devices found: '' @ path)) sv)
               else let sv' = foldl add_device sv (sc_parsed st) in (True, esi_emit (Esi_imported (length (esi_devices sv'))) sv')))"

section \<open>The other operations\<close>

definition device_at :: "(string \<times> nat) list \<Rightarrow> esi_device list \<Rightarrow> int \<Rightarrow> int \<Rightarrow> esi_device" where
  "device_at index devices vendor product =
     (case map_of index (device_key vendor product) of None \<Rightarrow> no_device | Some i \<Rightarrow> devices ! i)"

definition matchDevice :: "esi_service \<Rightarrow> int \<Rightarrow> int \<Rightarrow> esi_device" where
  "matchDevice sv vendor product = device_at (esi_index sv) (esi_devices sv) vendor product"

definition clear_esi :: "esi_service \<Rightarrow> esi_service" where
  "clear_esi sv = sv\<lparr>esi_devices := [], esi_index := []\<rparr>"

definition line :: "string \<Rightarrow> string" where
  "line s = s @ [char_of (10 :: nat)]"

definition esi_quoted :: "string \<Rightarrow> string" where
  "esi_quoted s = [quote_char] @ s @ [quote_char]"

definition esi_entry_lines :: "esi_entry \<Rightarrow> string" where
  "esi_entry_lines e = line ''        <Entry>''
     @ line (''          <Index>#x'' @ ese_index e @ ''</Index>'')
     @ line (''          <SubIndex>#x'' @ ese_subIndex e @ ''</SubIndex>'')
     @ line (''          <BitLen>'' @ number_int (ese_bitSize e) @ ''</BitLen>'')
     @ (if ese_name e \<noteq> [] then line (''          <Name>'' @ ese_name e @ ''</Name>'') else [])
     @ (if ese_type e \<noteq> [] then line (''          <DataType>#x'' @ ese_type e @ ''</DataType>'') else [])
     @ line ''        </Entry>''"

definition writePdo :: "string \<Rightarrow> esi_pdo \<Rightarrow> string" where
  "writePdo tag p = line (''      <'' @ tag @ ''>'')
     @ line (''        <Index>#x'' @ esp_index p @ ''</Index>'')
     @ line (''        <Name>'' @ esp_name p @ ''</Name>'')
     @ concat (map esi_entry_lines (esp_entries p))
     @ line (''      </'' @ tag @ ''>'')"

definition hex_number :: "int \<Rightarrow> string" where
  \<comment> \<open>\<open>QString::number(i, 16)\<close>\<close>
  "hex_number i = number_hex (nat (i mod 2 ^ 64))"

definition sm_line :: "esi_sm \<Rightarrow> string" where
  "sm_line sm = line (''      <Sm Index='' @ esi_quoted (number_int (ess_index sm)) @ '' Dir='' @ esi_quoted (ess_direction sm) @ ''/>'')"

definition esi_text :: "esi_device \<Rightarrow> string" where
  "esi_text d = line (''<?xml version='' @ esi_quoted ''1.0'' @ '' encoding='' @ esi_quoted ''UTF-8'' @ ''?>'')
     @ line ''<EtherCATInfo>''
     @ line ''  <Descriptions>''
     @ line ''    <Device>''
     @ line (''      <Type ProductCode='' @ esi_quoted (''#x'' @ hex_number (esd_productCode d))
         @ '' RevisionNo='' @ esi_quoted (''#x'' @ hex_number (esd_revisionNo d))
         @ '' VendorId='' @ esi_quoted (''#x'' @ hex_number (esd_vendorId d)) @ ''>'' @ esd_name d @ ''</Type>'')
     @ line (''      <Name>'' @ esd_name d @ ''</Name>'')
     @ (if esd_description d \<noteq> [] then line (''      <Desc>'' @ esd_description d @ ''</Desc>'') else [])
     @ concat (map sm_line (esd_syncManagers d))
     @ concat (map (writePdo ''RxPdo'') (esd_rxPdos d))
     @ concat (map (writePdo ''TxPdo'') (esd_txPdos d))
     @ line ''    </Device>''
     @ line ''  </Descriptions>''
     @ line ''</EtherCATInfo>''"

definition exportEsi :: "(string \<Rightarrow> string \<Rightarrow> 'w \<Rightarrow> bool \<times> 'w) \<Rightarrow> string \<Rightarrow> string \<Rightarrow> esi_service \<Rightarrow> 'w \<Rightarrow> bool \<times> 'w" where
  \<comment> \<open>the parameter opens a file and writes a text to it: whether that, the stream's status and the flush went well\<close>
  "exportEsi write_text deviceId path sv w =
     (if path = [] then (False, w)
      else case map_of (esi_index sv) deviceId of
        None \<Rightarrow> (False, w)
      | Some i \<Rightarrow> write_text path (esi_text (esi_devices sv ! i)) w)"

section \<open>Keys\<close>

lemma hex_field_no_colon: "CHR '':'' \<notin> set (hex_field w n)"
  using hex_field_chars [of "CHR '':''" w n] by (auto simp: code_of_def)

definition int32 :: "int \<Rightarrow> bool" where
  "int32 i \<longleftrightarrow> - (2 ^ 31) \<le> i \<and> i < 2 ^ 31"

lemma hex_unsigned_inj: "int32 i \<Longrightarrow> int32 j \<Longrightarrow> hex_unsigned w i = hex_unsigned w j \<Longrightarrow> i = j"
proof -
  assume r: "int32 i" "int32 j" and "hex_unsigned w i = hex_unsigned w j"
  then have "i mod 2 ^ 64 = j mod 2 ^ 64" by (auto simp: hex_unsigned_def dest!: hex_field_inj)
  moreover have "k mod 2 ^ 64 = (if k < 0 then k + 2 ^ 64 else k)" if "int32 k" for k :: int
  proof (cases "k < 0")
    case True
    have "k mod 2 ^ 64 = (k + 2 ^ 64) mod 2 ^ 64" by simp
    also have "\<dots> = k + 2 ^ 64" using True that by (intro mod_pos_pos_trivial) (auto simp: int32_def)
    finally show ?thesis using True by simp
  qed (use that in \<open>auto simp: int32_def\<close>)
  ultimately show "i = j" using r by (auto simp: int32_def split: if_splits)
qed

lemma device_key_inj:
  assumes "int32 v" "int32 v'" "int32 p" "int32 p'"
  shows "device_key v p = device_key v' p' \<longleftrightarrow> v = v' \<and> p = p'"
proof
  have t: "takeWhile (\<lambda>c. c \<noteq> CHR '':'') (device_key a b) = hex_unsigned 8 a" for a b
    using takeWhile_stop [of "CHR '':''" "hex_unsigned 8 a"] hex_field_no_colon by (simp add: device_key_def hex_unsigned_def)
  assume k: "device_key v p = device_key v' p'"
  then have "hex_unsigned 8 v = hex_unsigned 8 v'" using t by metis
  with k have "hex_unsigned 8 p = hex_unsigned 8 p'" by (simp add: device_key_def)
  with \<open>hex_unsigned 8 v = hex_unsigned 8 v'\<close> show "v = v' \<and> p = p'" using assms hex_unsigned_inj by blast
qed simp

section \<open>The repository stays indexed\<close>

definition device_sound :: "esi_device \<Rightarrow> bool" where
  "device_sound d \<longleftrightarrow> esd_id d = device_key (esd_vendorId d) (esd_productCode d) \<and> esd_vendorId d \<noteq> 0
     \<and> int32 (esd_vendorId d) \<and> int32 (esd_productCode d)"

definition indexed :: "esi_device list \<Rightarrow> (string \<times> nat) list \<Rightarrow> bool" where
  \<comment> \<open>the index has exactly the identifiers of the devices, each with its place\<close>
  "indexed ds index \<longleftrightarrow> list_all device_sound ds
     \<and> (\<forall>key i. map_of index key = Some i \<longleftrightarrow> i < length ds \<and> esd_id (ds ! i) = key)"

lemma indexed_Nil [simp]: "indexed [] []"
  by (simp add: indexed_def)

lemma indexed_fresh: "indexed ds index \<Longrightarrow> map_of index key = None \<longleftrightarrow> key \<notin> esd_id ` set ds"
proof (cases "map_of index key")
  case None
  moreover assume "indexed ds index"
  ultimately have "\<not> (i < length ds \<and> esd_id (ds ! i) = key)" for i by (metis indexed_def option.distinct(1))
  with None show ?thesis unfolding image_iff by (metis in_set_conv_nth)
next
  case (Some i)
  moreover assume "indexed ds index"
  ultimately have "i < length ds" "esd_id (ds ! i) = key" by (auto simp: indexed_def)
  with Some show ?thesis by (auto intro: rev_image_eqI)
qed

lemma indexed_add:
  assumes "indexed ds index" and "map_of index (esd_id d) = None" and "device_sound d"
  shows "indexed (ds @ [d]) (hash_insert (esd_id d) (length ds) index)"
proof -
  have "esd_id (ds ! i) \<noteq> esd_id d" if "i < length ds" for i
    using assms(2) nth_mem [OF that] unfolding indexed_fresh [OF assms(1)] by (metis imageI)
  then show ?thesis using assms by (auto simp: indexed_def map_of_hash_insert nth_append less_Suc_eq)
qed

lemma indexed_distinct: "indexed ds index \<Longrightarrow> distinct (map esd_id ds)"
proof -
  assume "indexed ds index"
  then have "\<forall>i j. i < length ds \<longrightarrow> j < length ds \<longrightarrow> esd_id (ds ! i) = esd_id (ds ! j) \<longrightarrow> i = j"
    unfolding indexed_def by (metis option.inject)
  then show ?thesis by (auto simp: distinct_conv_nth)
qed

lemma to_sint_int32: "or_zero (to_sint (2 ^ 31) b s) = i \<Longrightarrow> int32 i"
  by (auto simp: to_sint_def or_zero_def int32_def Let_def split: option.splits list.splits if_splits)

lemma parse_int32: "int32 (parseHexOrDec s)"
  using to_sint_int32 by (auto simp: parseHexOrDec_def Let_def)

definition ids_int32 :: "esi_device \<Rightarrow> bool" where
  "ids_int32 d \<longleftrightarrow> int32 (esd_vendorId d) \<and> int32 (esd_productCode d)"

definition scan_sound :: "(string \<times> nat) list \<Rightarrow> esi_scan \<Rightarrow> bool" where
  "scan_sound known st \<longleftrightarrow> ids_int32 (sc_current st) \<and> indexed (sc_parsed st) (sc_keys st)
     \<and> (\<forall>d \<in> set (sc_parsed st). map_of known (esd_id d) = None)"

lemma scan_init_sound: "scan_sound known scan_init"
  by (simp add: scan_sound_def scan_init_def ids_int32_def int32_def no_device_def)

lemma typed_device_int32: "ids_int32 d \<Longrightarrow> ids_int32 (typed_device as s d)"
  by (simp add: typed_device_def Let_def ids_int32_def parse_int32)

lemma end_device_sound:
  assumes "scan_sound known st"
  shows "scan_sound known (end_device known st)"
proof -
  let ?d = "sc_current st" and ?k = "device_key (esd_vendorId (sc_current st)) (esd_productCode (sc_current st))"
  have e: "ids_int32 no_device" by (simp add: ids_int32_def int32_def no_device_def)
  show ?thesis
  proof (cases "sc_inDevice st \<and> esd_vendorId ?d \<noteq> 0 \<and> map_of known ?k = None \<and> map_of (sc_keys st) ?k = None")
    case True
    then have "indexed (sc_parsed st @ [?d\<lparr>esd_id := ?k\<rparr>]) (hash_insert ?k (length (sc_parsed st)) (sc_keys st))"
      using assms indexed_add [of "sc_parsed st" "sc_keys st" "?d\<lparr>esd_id := ?k\<rparr>"] by (simp add: scan_sound_def device_sound_def ids_int32_def)
    with True show ?thesis using assms e by (auto simp: end_device_def Let_def scan_sound_def)
  qed (use assms e in \<open>auto simp: end_device_def Let_def scan_sound_def\<close>)
qed

lemma scan_steps_sound:
  assumes "scan_sound known st"
  shows "scan_sound known (opened name st)" "scan_sound known (start_plain name as st)" "scan_sound known (start_text name as s st)"
    "scan_sound known (end_element known name st)"
proof -
  have e: "ids_int32 no_device" by (simp add: ids_int32_def int32_def no_device_def)
  show "scan_sound known (opened name st)" using assms e by (simp add: opened_def Let_def scan_sound_def)
  show "scan_sound known (start_plain name as st)" using assms by (simp add: start_plain_def scan_sound_def ids_int32_def)
  show "scan_sound known (start_text name as s st)"
    using assms typed_device_int32 by (simp add: start_text_def scan_sound_def) (simp add: ids_int32_def)
  show "scan_sound known (end_element known name st)"
    using assms end_device_sound by (simp add: end_element_def) (simp add: scan_sound_def ids_int32_def)
qed

lemma esi_loop_sound: "scan_sound known st \<Longrightarrow> scan_sound known (fst (esi_loop known err ts st))"
proof (induction known err ts st rule: esi_loop.induct)
  case (2 known err name as ts st)
  note s = scan_steps_sound [OF scan_steps_sound(1) [OF 2(3)]]
  show ?case
  proof (cases "reads_text name (opened name st)")
    case True
    obtain s ts' raised where r: "element_text [] ts = (s, ts', raised)" by (cases "element_text [] ts")
    show ?thesis
      using 2(1) [OF refl True r [symmetric] refl] s(3) r True by (cases raised) (simp_all add: Let_def)
  next
    case False
    then show ?thesis using 2(2) [OF refl False] s(2) scan_steps_sound(1) [OF 2(3)] by (simp add: Let_def)
  qed
qed (simp_all add: scan_steps_sound)

lemma add_devices_indexed:
  assumes "indexed (esi_devices sv) (esi_index sv)" and "distinct (map esd_id ds)" and "list_all device_sound ds"
    and "\<forall>d \<in> set ds. map_of (esi_index sv) (esd_id d) = None"
  shows "indexed (esi_devices (foldl add_device sv ds)) (esi_index (foldl add_device sv ds))"
  using assms
proof (induction ds arbitrary: sv)
  case (Cons d ds)
  have "indexed (esi_devices (add_device sv d)) (esi_index (add_device sv d))"
    using Cons.prems indexed_add by (simp add: add_device_def)
  moreover have "\<forall>e \<in> set ds. map_of (esi_index (add_device sv d)) (esd_id e) = None"
    using Cons.prems(2,4) by (auto simp: add_device_def map_of_hash_insert image_iff)
  ultimately show ?case using Cons by simp
qed simp

lemma devices_added: "esi_devices (foldl add_device sv ds) = esi_devices sv @ ds"
  by (induction ds arbitrary: sv) (simp_all add: add_device_def)

lemma emit_frame [simp]: "esi_devices (esi_emit s sv) = esi_devices sv" "esi_index (esi_emit s sv) = esi_index sv"
  by (simp_all add: esi_emit_def)

lemma import_sound:
  assumes "indexed (esi_devices sv) (esi_index sv)"
  shows "indexed (esi_devices (snd (importEsi open_xml path sv))) (esi_index (snd (importEsi open_xml path sv)))"
proof -
  have "indexed (esi_devices (foldl add_device sv (sc_parsed st))) (esi_index (foldl add_device sv (sc_parsed st)))"
    if "esi_loop (esi_index sv) err ts scan_init = (st, e)" for err ts st e
  proof -
    have "scan_sound (esi_index sv) st" using esi_loop_sound [OF scan_init_sound, of "esi_index sv" err ts] that by simp
    then show ?thesis using assms add_devices_indexed indexed_distinct by (auto simp: scan_sound_def indexed_def)
  qed
  then show ?thesis using assms
    by (auto simp: importEsi_def Let_def split: option.splits prod.splits)
qed

datatype esi_op =
    Esi_import "string \<Rightarrow> xml_document option" string
  | Esi_clear

fun esi_step :: "esi_service \<Rightarrow> esi_op \<Rightarrow> esi_service" where
  "esi_step sv (Esi_import open_xml path) = snd (importEsi open_xml path sv)"
| "esi_step sv Esi_clear = clear_esi sv"

lemma esi_run_indexed: "indexed (esi_devices (foldl esi_step esi_init ops)) (esi_index (foldl esi_step esi_init ops))"
proof (rule foldl_invariant [where I = "\<lambda>sv. indexed (esi_devices sv) (esi_index sv)"])
  show "indexed (esi_devices (esi_step sv op)) (esi_index (esi_step sv op))" if "indexed (esi_devices sv) (esi_index sv)" for sv op
    using that import_sound by (cases op) (simp_all add: clear_esi_def)
qed (simp add: esi_init_def)

lemma device_at_find:
  assumes "indexed ds index" and "int32 v" and "int32 p"
  shows "device_at index ds v p = (case find (\<lambda>d. esd_vendorId d = v \<and> esd_productCode d = p) ds of None \<Rightarrow> no_device | Some d \<Rightarrow> d)"
proof -
  have key: "esd_id d = device_key v p \<longleftrightarrow> esd_vendorId d = v \<and> esd_productCode d = p" if "d \<in> set ds" for d
    using that assms device_key_inj by (auto simp: indexed_def device_sound_def list_all_iff)
  show ?thesis
  proof (cases "map_of index (device_key v p)")
    case None
    then have "\<not> (esd_vendorId d = v \<and> esd_productCode d = p)" if "d \<in> set ds" for d
      using that key [OF that] indexed_fresh [OF assms(1)] by force
    then have "find (\<lambda>d. esd_vendorId d = v \<and> esd_productCode d = p) ds = None" by (simp add: find_None_iff)
    with None show ?thesis by (simp add: device_at_def)
  next
    case (Some i)
    then have i: "i < length ds" "esd_id (ds ! i) = device_key v p" using assms(1) by (auto simp: indexed_def)
    have "find (\<lambda>d. esd_vendorId d = v \<and> esd_productCode d = p) ds = Some (ds ! i)"
      unfolding find_Some_iff
    proof (intro exI [of _ i] conjI allI impI refl)
      show "i < length ds" "esd_vendorId (ds ! i) = v" "esd_productCode (ds ! i) = p" using i key [of "ds ! i"] by simp_all
      fix j assume "j < i"
      then have "esd_id (ds ! j) \<noteq> device_key v p"
        using i Some assms(1) unfolding indexed_def by (metis less_trans nat_neq_iff option.inject)
      with \<open>j < i\<close> i show "\<not> (esd_vendorId (ds ! j) = v \<and> esd_productCode (ds ! j) = p)" using key [of "ds ! j"] by simp
    qed
    with Some show ?thesis by (simp add: device_at_def)
  qed
qed

lemma int32_sint: "int32 (sint (w :: 32 word))"
  using sint_greater_eq [of w] sint_less [of w] by (simp add: int32_def)

text \<open>
  Claim C24 (invariant). Whatever files are imported, in whatever order, and however often the repository is cleared: no two
  devices have the same vendor and product, all have a vendor, and the index finds for every pair of 32-bit numbers the
  device that has them, an empty one if there is none.
\<close>

theorem repository_stays_indexed:
  fixes v p :: "32 word"
  defines "run \<equiv> \<lambda>ops. foldl esi_step esi_init ops"
  shows "distinct (map (\<lambda>d. (esd_vendorId d, esd_productCode d)) (esi_devices (run ops)))
    \<and> list_all (\<lambda>d. esd_vendorId d \<noteq> 0) (esi_devices (run ops))
    \<and> matchDevice (run ops) (sint v) (sint p)
      = (case find (\<lambda>d. esd_vendorId d = sint v \<and> esd_productCode d = sint p) (esi_devices (run ops)) of
           None \<Rightarrow> no_device | Some d \<Rightarrow> d)"
proof (intro conjI)
  note ix = esi_run_indexed [of ops, folded run_def]
  then have s: "list_all device_sound (esi_devices (run ops))" by (simp add: indexed_def)
  then show "list_all (\<lambda>d. esd_vendorId d \<noteq> 0) (esi_devices (run ops))" by (auto simp: list_all_iff device_sound_def)
  have "map esd_id (esi_devices (run ops))
    = map (\<lambda>(v, p). device_key v p) (map (\<lambda>d. (esd_vendorId d, esd_productCode d)) (esi_devices (run ops)))"
    using s by (auto simp: list_all_iff device_sound_def)
  then show "distinct (map (\<lambda>d. (esd_vendorId d, esd_productCode d)) (esi_devices (run ops)))"
    using indexed_distinct [OF ix] by (metis distinct_map)
  show "matchDevice (run ops) (sint v) (sint p)
      = (case find (\<lambda>d. esd_vendorId d = sint v \<and> esd_productCode d = sint p) (esi_devices (run ops)) of
           None \<Rightarrow> no_device | Some d \<Rightarrow> d)"
    unfolding matchDevice_def using device_at_find [OF ix int32_sint int32_sint] .
qed

section \<open>Importing a file again\<close>

definition bare :: "esi_scan \<Rightarrow> esi_scan" where
  "bare st = st\<lparr>sc_parsed := [], sc_keys := []\<rparr>"

lemma bare_steps:
  "opened name (bare st) = bare (opened name st)" "reads_text name (bare st) = reads_text name st" "sc_inDevice (bare st) = sc_inDevice st"
  "start_plain name as (bare st) = bare (start_plain name as st)" "start_text name as s (bare st) = bare (start_text name as s st)"
  by (simp_all add: bare_def opened_def reads_text_def start_plain_def start_text_def Let_def)

lemma parsed_steps:
  "sc_parsed (opened name st) = sc_parsed st" "sc_parsed (start_plain name as st) = sc_parsed st"
  "sc_parsed (start_text name as s st) = sc_parsed st" "set (sc_parsed st) \<subseteq> set (sc_parsed (end_element known name st))"
  by (auto simp: opened_def start_plain_def start_text_def end_element_def end_device_def Let_def)

lemma parsed_grows: "set (sc_parsed st) \<subseteq> set (sc_parsed (fst (esi_loop known err ts st)))"
proof (induction known err ts st rule: esi_loop.induct)
  case (2 known err name as ts st)
  show ?case
  proof (cases "reads_text name (opened name st)")
    case True
    obtain s ts' raised where r: "element_text [] ts = (s, ts', raised)" by (cases "element_text [] ts")
    show ?thesis using 2(1) [OF refl True r [symmetric] refl] r True by (cases raised) (simp_all add: Let_def parsed_steps)
  next
    case False
    then show ?thesis using 2(2) [OF refl False] by (simp add: Let_def parsed_steps split: if_splits)
  qed
next
  case (3 known err name ts st)
  then show ?case using parsed_steps(4) [of st known name] by auto
qed simp_all

lemma end_bare:
  assumes "scan_sound known st" and "\<forall>d \<in> set (sc_parsed (end_element known name st)). map_of known' (esd_id d) \<noteq> None"
    and "\<forall>key. map_of known key \<noteq> None \<longrightarrow> map_of known' key \<noteq> None"
  shows "end_element known' name (bare st) = bare (end_element known name st)"
proof (cases "name = ''Device''")
  case True
  let ?d = "sc_current st" and ?k = "device_key (esd_vendorId (sc_current st)) (esd_productCode (sc_current st))"
  have "map_of known' ?k \<noteq> None" if "sc_inDevice st" "esd_vendorId ?d \<noteq> 0"
  proof (cases "map_of known ?k = None \<and> map_of (sc_keys st) ?k = None")
    case True
    then have "?d\<lparr>esd_id := ?k\<rparr> \<in> set (sc_parsed (end_element known name st))"
      using that \<open>name = ''Device''\<close> by (simp add: end_element_def end_device_def Let_def)
    from bspec [OF assms(2) this] show ?thesis by simp
  next
    case False
    show ?thesis
    proof (cases "map_of known ?k = None")
      case True
      have "indexed (sc_parsed st) (sc_keys st)" using assms(1) by (simp add: scan_sound_def)
      then have "?k \<in> esd_id ` set (sc_parsed st)" using True False indexed_fresh by blast
      then show ?thesis using assms(2) parsed_steps(4) [of st known name] by auto
    qed (use assms(3) in blast)
  qed
  with True show ?thesis by (auto simp: end_element_def end_device_def bare_def Let_def)
qed (simp add: end_element_def bare_def)

lemma loop_again:
  assumes "\<forall>key. map_of known key \<noteq> None \<longrightarrow> map_of known' key \<noteq> None"
  shows "scan_sound known st \<Longrightarrow> \<forall>d \<in> set (sc_parsed (fst (esi_loop known err ts st))). map_of known' (esd_id d) \<noteq> None
    \<Longrightarrow> esi_loop known' err ts (bare st) = (bare (fst (esi_loop known err ts st)), snd (esi_loop known err ts st))"
proof (induction ts arbitrary: st rule: length_induct)
  case (1 ts)
  show ?case
  proof (cases ts)
    case (Cons t ts0)
    note sound = scan_steps_sound [OF 1(2)]
    show ?thesis
    proof (cases t)
      case (StartTag name as)
      show ?thesis
      proof (cases "reads_text name (opened name st)")
        case True
        obtain s ts' raised where r: "element_text [] ts0 = (s, ts', raised)" by (cases "element_text [] ts0")
        then have "length ts' < length ts" using Cons element_text_shorter [OF r] by simp
        then show ?thesis
          using 1 Cons StartTag True r scan_steps_sound(3) [OF sound(1)] by (cases raised) (simp_all add: Let_def bare_steps)
      next
        case False
        then show ?thesis
          using 1 Cons StartTag sound(1) scan_steps_sound(2) [OF sound(1)] by (simp add: Let_def bare_steps)
      qed
    next
      case (EndTag name)
      have "\<forall>d \<in> set (sc_parsed (end_element known name st)). map_of known' (esd_id d) \<noteq> None"
        using 1(3) Cons EndTag parsed_grows [of "end_element known name st" known err ts0] by auto
      from end_bare [OF 1(2) this assms] show ?thesis
        using 1 Cons EndTag sound(4) by simp
    qed (use 1 Cons in simp_all)
  qed simp
qed

lemma keys_after_add: "map_of (esi_index (foldl add_device sv ds)) key \<noteq> None \<longleftrightarrow> map_of (esi_index sv) key \<noteq> None \<or> key \<in> esd_id ` set ds"
  by (induction ds arbitrary: sv) (auto simp: add_device_def map_of_hash_insert)

text \<open>
  A file that was imported cannot be imported a second time: all its devices are known, and the import says that it found none.
\<close>

lemma reimport_finds_none:
  assumes "importEsi open_xml path sv = (True, sv')"
  shows "importEsi open_xml path sv' = (False, esi_emit (Esi_error (''No ESI devices found: '' @ path)) sv')"
proof -
  from assms obtain ts err st where o: "path \<noteq> []" "open_xml path = Some (ts, err)" "esi_loop (esi_index sv) err ts scan_init = (st, None)"
    and sv': "esi_index sv' = esi_index (foldl add_device sv (sc_parsed st))"
    by (auto simp: importEsi_def Let_def split: if_splits option.splits prod.splits)
  have known: "\<forall>key. map_of (esi_index sv) key \<noteq> None \<longrightarrow> map_of (esi_index sv') key \<noteq> None"
    "\<forall>d \<in> set (sc_parsed (fst (esi_loop (esi_index sv) err ts scan_init))). map_of (esi_index sv') (esd_id d) \<noteq> None"
    using o(3) by (auto simp: sv' keys_after_add simp del: not_None_eq)
  have "bare scan_init = scan_init" by (simp add: bare_def scan_init_def)
  with loop_again [OF known(1) scan_init_sound known(2)] o(3)
  have "esi_loop (esi_index sv') err ts scan_init = (bare st, None)" by simp
  with o show ?thesis by (simp add: importEsi_def bare_def)
qed

text \<open>A second device of a file that differs in its revision only is dropped; a decimal number is read as a hexadecimal one; an
  identifier above the signed range is lost, and its device with it.\<close>

lemma second_revision_is_dropped:
  assumes "map_of (sc_keys st) (device_key (esd_vendorId (sc_current st)) (esd_productCode (sc_current st))) \<noteq> None"
  shows "sc_parsed (end_device known st) = sc_parsed st"
  using assms by (auto simp: end_device_def Let_def)

lemmas number_reading = parseHexOrDec_def trimmed_def is_space_def code_of_def starts_with_ci_def starts_with_def to_lower_def to_lower_char_def
  to_sint_def parse_base_def strip_hex_prefix_def strip_plus_def parse_nat_def all_digits_def digit_val_def Let_def

lemma decimal_is_hexadecimal: "parseHexOrDec ''10'' = 16"
  by (simp add: number_reading)

lemma large_identifier_is_lost: "parseHexOrDec ''#x80000000'' = 0"
  by (simp add: number_reading)

end
