(* ===== verification/EsiExchange.thy ===== *)
theory EsiExchange
  imports EsiRepository
begin

text \<open>
  The browser's parser and matcher over the repository (\<^verbatim>\<open>plugins/esi/EsiParser.cpp\<close>,
  \<^verbatim>\<open>plugins/esi/EsiDeviceMatcher.cpp\<close>).
\<close>

section \<open>The parser\<close>

datatype parser_signal = Parse_error string | Parse_complete nat

record esi_parser =
  ep_devices :: "esi_device list"
  ep_index :: "(string \<times> nat) list"
  ep_signals :: "parser_signal list"

definition parser_init :: esi_parser where
  "parser_init = \<lparr>ep_devices = [], ep_index = [], ep_signals = []\<rparr>"

definition parser_fails :: "string \<Rightarrow> esi_parser \<Rightarrow> string option \<times> esi_parser" where
  \<comment> \<open>the result is the error, if any\<close>
  "parser_fails e p = (Some e, p\<lparr>ep_signals := ep_signals p @ [Parse_error e]\<rparr>)"

definition positions :: "esi_device list \<Rightarrow> (string \<times> nat) list" where
  "positions ds = fold (\<lambda>i. hash_insert (esd_id (ds ! i)) i) [0..<length ds] []"

definition parseFile :: "(string \<Rightarrow> xml_document option) \<Rightarrow> string \<Rightarrow> esi_parser \<Rightarrow> string option \<times> esi_parser" where
  "parseFile open_xml path p =
     (if path = [] then parser_fails ''ESI file path is empty'' p
      else if open_xml path = None then parser_fails (''Cannot open file: '' @ path) p
      else case importEsi open_xml path esi_init of
        (False, _) \<Rightarrow> parser_fails (''Failed to parse ESI file: '' @ path) p
      | (True, temp) \<Rightarrow> (None, p\<lparr>ep_devices := esi_devices temp, ep_index := positions (esi_devices temp),
           ep_signals := ep_signals p @ [Parse_complete (length (esi_devices temp))]\<rparr>))"

datatype scratch_file = No_directory | Not_written | Written string

definition parseXml :: "(string \<Rightarrow> xml_document option) \<Rightarrow> (string \<Rightarrow> scratch_file) \<Rightarrow> string \<Rightarrow> esi_parser \<Rightarrow> string option \<times> esi_parser" where
  \<comment> \<open>the second parameter writes a text to a file of a new temporary directory\<close>
  "parseXml open_xml scratch content p =
     (if trimmed content = [] then parser_fails ''ESI XML content is empty'' p
      else case scratch content of
        No_directory \<Rightarrow> parser_fails ''Cannot create temporary directory'' p
      | Not_written \<Rightarrow> parser_fails ''Cannot write temporary file'' p
      | Written path \<Rightarrow> parseFile open_xml path p)"

definition deviceAt :: "esi_parser \<Rightarrow> int \<Rightarrow> esi_device" where
  "deviceAt p i = (if i < 0 \<or> i \<ge> int (length (ep_devices p)) then no_device else ep_devices p ! nat i)"

definition parser_matchDevice :: "esi_parser \<Rightarrow> int \<Rightarrow> int \<Rightarrow> esi_device" where
  "parser_matchDevice p vendor product = device_at (ep_index p) (ep_devices p) vendor product"

definition clear_parser :: "esi_parser \<Rightarrow> esi_parser" where
  "clear_parser p = p\<lparr>ep_devices := [], ep_index := []\<rparr>"

definition structure_step :: "bool \<times> bool \<Rightarrow> xml_event \<Rightarrow> bool \<times> bool" where
  "structure_step f t = (case t of
      StartTag name as \<Rightarrow> (let desc = (fst f \<or> name = ''Descriptions'') in (desc, snd f \<or> desc \<and> name = ''Device''))
    | _ \<Rightarrow> f)"

definition validateStructure :: "(string \<Rightarrow> xml_document option) \<Rightarrow> string \<Rightarrow> bool" where
  "validateStructure open_xml path = (case open_xml path of
      None \<Rightarrow> False
    | Some (ts, err) \<Rightarrow> (let (desc, dev) = foldl structure_step (False, False) ts in desc \<and> dev \<and> err = None))"

section \<open>The matcher\<close>

record match_result =
  mr_matched :: bool
  mr_deviceId :: string
  mr_deviceName :: string
  mr_vendorId :: int
  mr_productCode :: int
  mr_revisionNo :: int
  mr_level :: string
  mr_differences :: "string list"

record match_report =
  rp_total :: nat
  rp_matched :: nat
  rp_unmatched :: nat
  rp_results :: "match_result list"

datatype esi_source = From_service esi_service | From_parser esi_parser

fun matchedDeviceInfo :: "esi_source \<Rightarrow> int \<Rightarrow> int \<Rightarrow> esi_device" where
  "matchedDeviceInfo (From_service s) vendor product = matchDevice s vendor product"
| "matchedDeviceInfo (From_parser p) vendor product = parser_matchDevice p vendor product"

definition hasMatch :: "esi_source \<Rightarrow> int \<Rightarrow> int \<Rightarrow> bool" where
  "hasMatch src vendor product \<longleftrightarrow> esd_vendorId (matchedDeviceInfo src vendor product) \<noteq> 0"

definition mismatch :: "string \<Rightarrow> int \<Rightarrow> int \<Rightarrow> string" where
  "mismatch what a b = what @ '' mismatch: ESI=0x'' @ hex_unsigned 8 a @ '', Device=0x'' @ hex_unsigned 8 b"

type_synonym match_signal = "string \<times> int \<times> int"

definition compareDevices :: "esi_device \<Rightarrow> int \<Rightarrow> int \<Rightarrow> int \<Rightarrow> match_result \<times> match_signal list" where
  "compareDevices esi vendor product revision =
     (let r = \<lparr>mr_matched = False, mr_deviceId = [], mr_deviceName = [], mr_vendorId = vendor, mr_productCode = product,
            mr_revisionNo = revision, mr_level = [], mr_differences = []\<rparr> in
      if esd_vendorId esi = 0 then (r\<lparr>mr_level := ''none'', mr_differences := [''No ESI entry found for this device'']\<rparr>, [])
      else
        (let ds = (if esd_vendorId esi \<noteq> vendor then [mismatch ''Vendor ID'' (esd_vendorId esi) vendor] else [])
               @ (if esd_productCode esi \<noteq> product then [mismatch ''Product code'' (esd_productCode esi) product] else [])
               @ (if revision \<noteq> 0 \<and> esd_revisionNo esi \<noteq> revision then [mismatch ''Revision'' (esd_revisionNo esi) revision] else [])
         in (r\<lparr>mr_matched := True, mr_deviceId := esd_id esi, mr_deviceName := esd_name esi, mr_differences := ds,
               mr_level := (if ds = [] then ''exact'' else ''partial'')\<rparr>,
             if ds = [] then [(esd_name esi, vendor, product)] else [])))"

definition matcher_matchDevice :: "esi_source \<Rightarrow> int \<Rightarrow> int \<Rightarrow> int \<Rightarrow> match_result \<times> match_signal list" where
  "matcher_matchDevice src vendor product revision = compareDevices (matchedDeviceInfo src vendor product) vendor product revision"

definition report_step :: "esi_source \<Rightarrow> match_report \<Rightarrow> int \<times> int \<Rightarrow> match_report" where
  "report_step src rp dev =
     (let r = fst (matcher_matchDevice src (fst dev) (snd dev) 0); rp' = rp\<lparr>rp_results := rp_results rp @ [r]\<rparr> in
      if mr_matched r then rp'\<lparr>rp_matched := rp_matched rp' + 1\<rparr> else rp'\<lparr>rp_unmatched := rp_unmatched rp' + 1\<rparr>)"

definition generateReport :: "esi_source \<Rightarrow> (int \<times> int) list \<Rightarrow> match_report" where
  "generateReport src devs = foldl (report_step src) \<lparr>rp_total = length devs, rp_matched = 0, rp_unmatched = 0, rp_results = []\<rparr> devs"

section \<open>What they answer\<close>

lemma positions_upto:
  assumes "distinct (map esd_id ds)"
  shows "n \<le> length ds \<Longrightarrow> map_of (fold (\<lambda>i. hash_insert (esd_id (ds ! i)) i) [0..<n] []) key = Some i \<longleftrightarrow> i < n \<and> esd_id (ds ! i) = key"
proof (induction n)
  case (Suc n)
  have "esd_id (ds ! j) \<noteq> esd_id (ds ! n)" if "j < n" for j
    using that Suc.prems assms by (auto simp: distinct_conv_nth)
  then show ?case using Suc by (auto simp: map_of_hash_insert less_Suc_eq)
qed simp

lemma positions_indexed: "indexed ds index \<Longrightarrow> indexed ds (positions ds)"
  using positions_upto [OF indexed_distinct, of ds index "length ds"] by (auto simp: indexed_def positions_def)

fun source_devices :: "esi_source \<Rightarrow> esi_device list" where
  "source_devices (From_service s) = esi_devices s"
| "source_devices (From_parser p) = ep_devices p"

fun source_indexed :: "esi_source \<Rightarrow> bool" where
  "source_indexed (From_service s) = indexed (esi_devices s) (esi_index s)"
| "source_indexed (From_parser p) = indexed (ep_devices p) (ep_index p)"

lemma parseFile_indexed:
  "source_indexed (From_parser p) \<Longrightarrow> source_indexed (From_parser (snd (parseFile open_xml path p)))"
  using positions_indexed [OF import_sound [of esi_init open_xml path]]
  by (auto simp: parseFile_def parser_fails_def esi_init_def split: prod.splits bool.splits)

definition known_device :: "esi_source \<Rightarrow> int \<times> int \<Rightarrow> bool" where
  "known_device src dev \<longleftrightarrow> dev \<in> (\<lambda>d. (esd_vendorId d, esd_productCode d)) ` set (source_devices src)"

lemma matched_device:
  assumes "source_indexed src" and "int32 v" and "int32 p"
  shows "matchedDeviceInfo src v p = (case find (\<lambda>d. esd_vendorId d = v \<and> esd_productCode d = p) (source_devices src) of
    None \<Rightarrow> no_device | Some d \<Rightarrow> d)"
  using assms device_at_find by (cases src) (simp_all add: matchDevice_def parser_matchDevice_def)

lemma find_result:
  assumes "source_indexed src" and "int32 v" and "int32 p"
  shows "if known_device src (v, p) then \<exists>d \<in> set (source_devices src). matchedDeviceInfo src v p = d \<and> esd_vendorId d = v
      \<and> esd_productCode d = p \<and> v \<noteq> 0 else matchedDeviceInfo src v p = no_device"
proof (cases "find (\<lambda>d. esd_vendorId d = v \<and> esd_productCode d = p) (source_devices src)")
  case None
  then have "\<not> known_device src (v, p)" by (auto simp: find_None_iff known_device_def)
  then show ?thesis using matched_device [OF assms] None by simp
next
  case (Some d)
  then have d: "d \<in> set (source_devices src)" "esd_vendorId d = v" "esd_productCode d = p"
    by (auto simp: find_Some_iff)
  have "list_all device_sound (source_devices src)" using assms(1) by (cases src) (auto simp: indexed_def)
  then have "v \<noteq> 0" using d by (auto simp: list_all_iff device_sound_def)
  moreover have "known_device src (v, p)" using d by (force simp: known_device_def)
  ultimately show ?thesis using matched_device [OF assms] Some d by auto
qed

lemma match_level:
  assumes "source_indexed src" and "int32 v" and "int32 p"
  shows "mr_matched (fst (matcher_matchDevice src v p 0)) \<longleftrightarrow> known_device src (v, p)"
    and "mr_level (fst (matcher_matchDevice src v p 0)) = (if known_device src (v, p) then ''exact'' else ''none'')"
  using find_result [OF assms]
  by (auto simp: matcher_matchDevice_def compareDevices_def Let_def no_device_def split: if_splits)

lemma report_counts:
  assumes "source_indexed src" and "\<forall>(v, p) \<in> set devs. int32 v \<and> int32 p"
  shows "rp_matched (foldl (report_step src) rp devs) = rp_matched rp + length (filter (known_device src) devs)"
    and "rp_unmatched (foldl (report_step src) rp devs) = rp_unmatched rp + length (filter (\<lambda>d. \<not> known_device src d) devs)"
    and "map mr_level (rp_results (foldl (report_step src) rp devs))
       = map mr_level (rp_results rp) @ map (\<lambda>d. if known_device src d then ''exact'' else ''none'') devs"
    and "rp_total (foldl (report_step src) rp devs) = rp_total rp"
  using assms(2)
  by (induction devs arbitrary: rp)
     (auto simp: report_step_def Let_def match_level [OF assms(1)])

lemma source_of_run: "source_indexed (From_service (foldl esi_step esi_init ops))"
  using esi_run_indexed by simp

text \<open>
  Whatever was imported into the repository, the report on the connected devices counts as matched
  exactly those whose vendor and product it has, as unmatched the others, and its results are in the order of the devices,
  each exact or none: a report, which asks for no revision, has no partial match.
\<close>

theorem report_matches_the_repository:
  fixes devs :: "(32 word \<times> 32 word) list"
  defines "src \<equiv> \<lambda>ops. From_service (foldl esi_step esi_init ops)" and "ids \<equiv> map (\<lambda>(v, p). (sint v, sint p)) devs"
  shows "rp_total (generateReport (src ops) ids) = length devs
    \<and> rp_matched (generateReport (src ops) ids) = length (filter (known_device (src ops)) ids)
    \<and> rp_unmatched (generateReport (src ops) ids) = length (filter (\<lambda>d. \<not> known_device (src ops) d) ids)
    \<and> map mr_level (rp_results (generateReport (src ops) ids)) = map (\<lambda>d. if known_device (src ops) d then ''exact'' else ''none'') ids"
proof -
  have i: "source_indexed (src ops)" by (simp only: src_def source_of_run)
  have r: "\<forall>(v, p) \<in> set ids. int32 v \<and> int32 p" by (auto simp: ids_def int32_sint)
  show ?thesis using report_counts [OF i r] by (simp add: generateReport_def ids_def)
qed

section \<open>What can be imported has the structure asked for\<close>

lemma structure_read_text: "element_text acc ts = (s, ts', None) \<Longrightarrow> foldl structure_step f ts = foldl structure_step f ts'"
  by (induction acc ts rule: element_text.induct) (auto simp: structure_step_def)

definition foreseen :: "bool \<times> bool \<Rightarrow> esi_scan \<Rightarrow> bool" where
  "foreseen f st \<longleftrightarrow> (sc_inDescriptions st \<longrightarrow> fst f) \<and> (sc_inDevice st \<or> sc_parsed st \<noteq> [] \<longrightarrow> fst f \<and> snd f)"

lemma foreseen_steps:
  assumes "foreseen f st"
  shows "foreseen (structure_step f (StartTag name as)) (opened name st)" "foreseen f (start_plain name as st)"
    "foreseen f (start_text name as s st)" "foreseen f (end_element known name st)"
  using assms by (auto simp: foreseen_def opened_def start_plain_def start_text_def end_element_def end_device_def structure_step_def Let_def)

lemma loop_foreseen:
  "foreseen f st \<Longrightarrow> esi_loop known err ts st = (st', None) \<Longrightarrow> sc_parsed st' \<noteq> []
    \<Longrightarrow> fst (foldl structure_step f ts) \<and> snd (foldl structure_step f ts) \<and> err = None"
proof (induction known err ts st arbitrary: f rule: esi_loop.induct)
  case (2 known err name as ts st)
  let ?f = "structure_step f (StartTag name as)"
  note s = foreseen_steps(1) [OF 2(3), of name as]
  show ?case
  proof (cases "reads_text name (opened name st)")
    case True
    obtain s ts' raised where r: "element_text [] ts = (s, ts', raised)" by (cases "element_text [] ts")
    have none: "raised = None" using 2(4) True r by (cases raised) (simp_all add: Let_def)
    have "esi_loop known err ts' (start_text name as s (opened name st)) = (st', None)" using 2(4) True r none by (simp add: Let_def)
    from 2(1) [OF refl True r [symmetric] refl none foreseen_steps(3) [OF s] this 2(5)] structure_read_text [of "[]" ts s ts' ?f] r none
    show ?thesis by simp
  next
    case False
    have "foreseen ?f (if sc_inDevice (opened name st) then start_plain name as (opened name st) else opened name st)"
      using s foreseen_steps(2) [OF s] by simp
    from 2(2) [OF refl False this _ 2(5)] 2(4) False show ?thesis by (simp add: Let_def)
  qed
next
  case (3 known err name ts st)
  have "structure_step f (EndTag name) = f" by (simp add: structure_step_def)
  with 3(1) [OF foreseen_steps(4) [OF 3(2)] _ 3(4)] 3(3) show ?case by simp
qed (auto simp: foreseen_def structure_step_def)

lemma imported_is_valid: "fst (importEsi open_xml path sv) \<Longrightarrow> validateStructure open_xml path"
proof -
  assume "fst (importEsi open_xml path sv)"
  then obtain ts err st where o: "open_xml path = Some (ts, err)" "esi_loop (esi_index sv) err ts scan_init = (st, None)" "sc_parsed st \<noteq> []"
    by (auto simp: importEsi_def Let_def split: if_splits option.splits prod.splits)
  have "foreseen (False, False) scan_init" by (simp add: foreseen_def scan_init_def)
  from loop_foreseen [OF this o(2,3)] o(1) show ?thesis by (simp add: validateStructure_def case_prod_beta)
qed

end
