(* ===== verification/EsiRoundtrip.thy ===== *)
theory EsiRoundtrip
  imports EsiRepository
begin

text \<open>
  What a device description is after \<open>EsiService\<close> exported it and imported the file again: the text of the export as items of
  a document, its well-formedness, and the reading loop over its tokens.
\<close>

section \<open>Exported and imported again\<close>

text \<open>The items of the exported document, each line with the line break before it.\<close>

definition nl :: char where "nl = char_of (10 :: nat)"

definition indent :: "nat \<Rightarrow> xml_item" where
  "indent n = XText (nl # replicate n (CHR '' ''))"

definition text_item :: "string \<Rightarrow> xml_item list" where
  "text_item s = (if s = [] then [] else [XText s])"

definition field_item :: "nat \<Rightarrow> string \<Rightarrow> string \<Rightarrow> xml_item list" where
  "field_item n tag s = indent n # XOpen tag [] # text_item s @ [XClose tag]"

definition entry_items :: "esi_entry \<Rightarrow> xml_item list" where
  "entry_items e = indent 8 # XOpen ''Entry'' [] # field_item 10 ''Index'' (''#x'' @ ese_index e)
     @ field_item 10 ''SubIndex'' (''#x'' @ ese_subIndex e) @ field_item 10 ''BitLen'' (number_int (ese_bitSize e))
     @ (if ese_name e \<noteq> [] then field_item 10 ''Name'' (ese_name e) else [])
     @ (if ese_type e \<noteq> [] then field_item 10 ''DataType'' (''#x'' @ ese_type e) else [])
     @ [indent 8, XClose ''Entry'']"

definition pdo_items :: "string \<Rightarrow> esi_pdo \<Rightarrow> xml_item list" where
  "pdo_items tag p = indent 6 # XOpen tag [] # field_item 8 ''Index'' (''#x'' @ esp_index p) @ field_item 8 ''Name'' (esp_name p)
     @ concat (map entry_items (esp_entries p)) @ [indent 6, XClose tag]"

definition sm_items :: "esi_sm \<Rightarrow> xml_item list" where
  "sm_items sm = [indent 6, XEmpty ''Sm'' [(''Index'', number_int (ess_index sm)), (''Dir'', ess_direction sm)]]"

definition type_items :: "esi_device \<Rightarrow> xml_item list" where
  "type_items d = indent 6 # XOpen ''Type'' [(''ProductCode'', ''#x'' @ hex_number (esd_productCode d)),
       (''RevisionNo'', ''#x'' @ hex_number (esd_revisionNo d)), (''VendorId'', ''#x'' @ hex_number (esd_vendorId d))]
     # text_item (esd_name d) @ [XClose ''Type'']"

definition device_items :: "esi_device \<Rightarrow> xml_item list" where
  "device_items d = indent 4 # XOpen ''Device'' [] # type_items d @ field_item 6 ''Name'' (esd_name d)
     @ (if esd_description d \<noteq> [] then field_item 6 ''Desc'' (esd_description d) else [])
     @ concat (map sm_items (esd_syncManagers d)) @ concat (map (pdo_items ''RxPdo'') (esd_rxPdos d))
     @ concat (map (pdo_items ''TxPdo'') (esd_txPdos d)) @ [indent 4, XClose ''Device'']"

definition esi_items :: "esi_device \<Rightarrow> xml_item list" where
  "esi_items d = XDecl xml_header # XText [nl] # XOpen ''EtherCATInfo'' [] # indent 2 # XOpen ''Descriptions'' []
     # device_items d @ [indent 2, XClose ''Descriptions'', XText [nl], XClose ''EtherCATInfo'', XText [nl]]"

definition led :: "string \<Rightarrow> xml_item list \<Rightarrow> bool" where
  \<comment> \<open>lines, the text of the items but for the line break that moves to the front\<close>
  "led s items \<longleftrightarrow> nl # s = xml_text items @ [nl]"

lemma led_append: "led s f \<Longrightarrow> led t g \<Longrightarrow> led (s @ t) (f @ g)"
proof -
  assume "led s f" and t: "led t g"
  then have "nl # s @ t = xml_text f @ nl # t" by (metis append_Cons append_Nil append_assoc led_def)
  with t show ?thesis by (simp add: led_def xml_text_def)
qed

lemma led_Nil: "led [] []"
  by (simp add: led_def xml_text_def)

lemma led_concat: "(\<And>x. x \<in> set xs \<Longrightarrow> led (f x) (g x)) \<Longrightarrow> led (concat (map f xs)) (concat (map g xs))"
  by (induction xs) (simp_all add: led_append led_Nil)

lemma led_line: "led (line t) (indent n # r) \<longleftrightarrow> t = replicate n (CHR '' '') @ xml_text r"
  by (auto simp: led_def line_def indent_def xml_text_def nl_def)

lemma xml_text_simps: "xml_text [] = []" "xml_text (i # r) = item_text i @ xml_text r" "xml_text (f @ g) = xml_text f @ xml_text g"
    "xml_text (text_item s) = s" "attrs_text [] = []"
  by (simp_all add: xml_text_def text_item_def attrs_text_def)

lemma led_field: "led (line t) (field_item n tag s) \<longleftrightarrow> t = replicate n (CHR '' '') @ CHR ''<'' # tag @ ''>'' @ s @ ''</'' @ tag @ ''>''"
  by (simp add: field_item_def led_line xml_text_simps)

lemma spaces: "replicate 2 (CHR '' '') = ''  ''" "replicate 4 (CHR '' '') = ''    ''" "replicate 6 (CHR '' '') = ''      ''"
    "replicate 8 (CHR '' '') = ''        ''" "replicate 10 (CHR '' '') = ''          ''"
  by (simp_all add: numeral_eq_Suc)

lemmas led_simps = led_field led_line led_Nil xml_text_simps spaces

lemma led_entry: "led (esi_entry_lines e) (entry_items e)"
proof -
  let ?g = "field_item 10 ''Index'' (''#x'' @ ese_index e) @ field_item 10 ''SubIndex'' (''#x'' @ ese_subIndex e)
     @ field_item 10 ''BitLen'' (number_int (ese_bitSize e))
     @ (if ese_name e \<noteq> [] then field_item 10 ''Name'' (ese_name e) else [])
     @ (if ese_type e \<noteq> [] then field_item 10 ''DataType'' (''#x'' @ ese_type e) else [])
     @ [indent 8, XClose ''Entry'']"
  have "led (esi_entry_lines e) ([indent 8, XOpen ''Entry'' []] @ ?g)"
    unfolding esi_entry_lines_def
    by (intro led_append) (simp_all add: led_simps)
  then show ?thesis by (simp add: entry_items_def)
qed

lemma led_pdo: "led (writePdo tag p) (pdo_items tag p)"
proof -
  let ?g = "field_item 8 ''Index'' (''#x'' @ esp_index p) @ field_item 8 ''Name'' (esp_name p)
     @ concat (map entry_items (esp_entries p)) @ [indent 6, XClose tag]"
  have "led (writePdo tag p) ([indent 6, XOpen tag []] @ ?g)"
    unfolding writePdo_def
    by (intro led_append led_concat led_entry) (simp_all add: led_simps)
  then show ?thesis by (simp add: pdo_items_def)
qed

lemma led_sm: "led (sm_line sm) (sm_items sm)"
  by (simp add: sm_line_def sm_items_def led_simps attrs_text_Cons esi_quoted_def)

lemma text_of_items: "esi_text d = xml_text (esi_items d)"
proof -
  let ?type = "line (''      <Type ProductCode='' @ esi_quoted (''#x'' @ hex_number (esd_productCode d))
         @ '' RevisionNo='' @ esi_quoted (''#x'' @ hex_number (esd_revisionNo d))
         @ '' VendorId='' @ esi_quoted (''#x'' @ hex_number (esd_vendorId d)) @ ''>'' @ esd_name d @ ''</Type>'')"
  have "led ?type (type_items d)"
    by (simp add: type_items_def led_simps attrs_text_Cons esi_quoted_def)
  then have "led (line ''    <Device>'' @ ?type @ line (''      <Name>'' @ esd_name d @ ''</Name>'')
     @ (if esd_description d \<noteq> [] then line (''      <Desc>'' @ esd_description d @ ''</Desc>'') else [])
     @ concat (map sm_line (esd_syncManagers d))
     @ concat (map (writePdo ''RxPdo'') (esd_rxPdos d))
     @ concat (map (writePdo ''TxPdo'') (esd_txPdos d))
     @ line ''    </Device>'' @ line ''  </Descriptions>'' @ line ''</EtherCATInfo>'')
    ([indent 4, XOpen ''Device'' []] @ type_items d @ field_item 6 ''Name'' (esd_name d)
     @ (if esd_description d \<noteq> [] then field_item 6 ''Desc'' (esd_description d) else [])
     @ concat (map sm_items (esd_syncManagers d)) @ concat (map (pdo_items ''RxPdo'') (esd_rxPdos d))
     @ concat (map (pdo_items ''TxPdo'') (esd_txPdos d)) @ [indent 4, XClose ''Device''] @ [indent 2, XClose ''Descriptions'']
     @ [XText [nl], XClose ''EtherCATInfo''])" (is "led ?s ?g")
    by (intro led_append led_concat led_sm led_pdo)
       (simp_all add: led_simps, simp_all add: led_def xml_text_def line_def nl_def)
  then have s: "nl # ?s = xml_text ?g @ [nl]" by (simp only: led_def)
  have "esi_text d = item_text (XDecl xml_header) @ nl # ''<EtherCATInfo>'' @ nl # ''  <Descriptions>'' @ nl # ?s"
    by (simp add: esi_text_def line_def nl_def xml_header_def esi_quoted_def)
  then show ?thesis unfolding s
    by (simp add: esi_items_def device_items_def indent_def xml_text_simps spaces)
qed

section \<open>The exported document is well formed\<close>

definition text_apart :: "xml_item list \<Rightarrow> bool" where
  "text_apart f \<longleftrightarrow> f = [] \<or> is_text (hd f) \<and> \<not> is_text (last f) \<and> texts_apart f"

definition piece :: "xml_item list \<Rightarrow> bool" where
  "piece f \<longleftrightarrow> list_all item_ok f \<and> closed f \<and> text_apart f"

lemma texts_apart_append:
  "texts_apart f \<Longrightarrow> texts_apart g \<Longrightarrow> f = [] \<or> g = [] \<or> \<not> (is_text (last f) \<and> is_text (hd g)) \<Longrightarrow> texts_apart (f @ g)"
proof (induction f)
  case (Cons i f)
  then show ?case by (cases f; cases g) auto
qed simp

lemma piece_append: "piece f \<Longrightarrow> piece g \<Longrightarrow> piece (f @ g)"
  using texts_apart_append [of f g] by (cases "f = []"; cases "g = []") (simp_all add: piece_def text_apart_def)

lemma piece_Nil: "piece []"
  by (simp add: piece_def text_apart_def)

lemma piece_concat: "(\<And>x. x \<in> set xs \<Longrightarrow> piece (f x)) \<Longrightarrow> piece (concat (map f xs))"
  by (induction xs) (simp_all add: piece_append piece_Nil)

lemma indent_ok [simp]: "item_ok (indent n)" "is_text (indent n)"
  by (simp_all add: indent_def nl_def list_all_iff xml_plain_char_def xml_space_char_def code_of_def quote_char_def)

lemma piece_element:
  assumes "xml_name tag" and "attrs_ok as" and "piece f"
  shows "piece (indent n # XOpen tag as # f @ [indent m, XClose tag])"
proof -
  have "texts_apart (f @ [indent m, XClose tag])"
    using texts_apart_append [of f "[indent m, XClose tag]"] assms(3) by (auto simp: piece_def text_apart_def)
  then have "texts_apart (indent n # XOpen tag as # f @ [indent m, XClose tag])" by (cases f) auto
  moreover have "closed (indent n # XOpen tag as # f @ [indent m, XClose tag])"
    using assms(3) by (auto simp: piece_def closed_def indent_def)
  ultimately show ?thesis using assms by (simp add: piece_def text_apart_def)
qed

lemma piece_leaf:
  assumes "xml_name tag" and "attrs_ok as" and "xml_plain s"
  shows "piece (indent n # XOpen tag as # text_item s @ [XClose tag])"
  using assms by (auto simp: piece_def text_apart_def closed_def indent_ok text_item_def xml_plain_def list_all_iff indent_def [of n])
     (simp_all add: nl_def xml_plain_char_def xml_space_char_def code_of_def quote_char_def)

lemma piece_field: "xml_name tag \<Longrightarrow> xml_plain s \<Longrightarrow> piece (field_item n tag s)"
  by (simp add: field_item_def piece_leaf attrs_ok_def)

definition entry_plain :: "esi_entry \<Rightarrow> bool" where
  "entry_plain e \<longleftrightarrow> xml_plain (ese_index e) \<and> xml_plain (ese_subIndex e) \<and> xml_plain (ese_name e) \<and> xml_plain (ese_type e)"

definition pdo_plain :: "esi_pdo \<Rightarrow> bool" where
  "pdo_plain p \<longleftrightarrow> xml_plain (esp_index p) \<and> xml_plain (esp_name p) \<and> list_all entry_plain (esp_entries p)"

definition device_plain :: "esi_device \<Rightarrow> bool" where
  \<comment> \<open>no text of the device has a markup character: the export does not escape them\<close>
  "device_plain d \<longleftrightarrow> xml_plain (esd_name d) \<and> xml_plain (esd_description d) \<and> list_all (\<lambda>sm. xml_plain (ess_direction sm)) (esd_syncManagers d)
     \<and> list_all pdo_plain (esd_rxPdos d @ esd_txPdos d)"

lemma xml_plain_simps: "xml_plain []" "xml_plain (c # s) \<longleftrightarrow> xml_plain_char c \<and> xml_plain s" "xml_plain (s @ t) \<longleftrightarrow> xml_plain s \<and> xml_plain t"
  by (simp_all add: xml_plain_def)

lemma plain_chars_eval: "xml_plain_char (CHR ''#'')" "xml_plain_char (CHR ''x'')" "xml_plain_char (CHR ''-'')"
  by (simp_all add: xml_plain_char_def code_of_def quote_char_def)

lemma digit_plain: "d < 16 \<Longrightarrow> xml_plain_char (digit_char d)"
proof -
  assume "d < 16"
  then have c: "code_of (digit_char d) = (if d < 10 then 48 + d else 87 + d)" by (simp add: code_digit_char)
  moreover have "code_of (CHR ''<'') = 60" "code_of (CHR ''>'') = 62" "code_of (CHR ''&'') = 38" "code_of quote_char = 34"
    by (simp_all add: code_of_def quote_char_def)
  ultimately have "digit_char d \<notin> {CHR ''<'', CHR ''>'', CHR ''&'', quote_char}" using \<open>d < 16\<close> by (auto split: if_splits)
  then show ?thesis using c \<open>d < 16\<close> by (auto simp: xml_plain_char_def)
qed

lemma digits_plain: "b \<in> {10, 16} \<Longrightarrow> xml_plain (digits_base b n)"
  using digits_base_digits [of b _ n] digit_plain by (fastforce simp: xml_plain_def list_all_iff)

lemma numbers_plain: "xml_plain (number_int i)" "xml_plain (hex_number i)"
  using digits_plain by (simp_all add: number_int_def number_nat_def hex_number_def number_hex_def xml_plain_simps plain_chars_eval)

lemma names_ok: "xml_name ''Entry''" "xml_name ''Index''" "xml_name ''SubIndex''" "xml_name ''BitLen''" "xml_name ''Name''" "xml_name ''DataType''"
    "xml_name ''Sm''" "xml_name ''Dir''" "xml_name ''Type''" "xml_name ''ProductCode''" "xml_name ''RevisionNo''" "xml_name ''VendorId''"
    "xml_name ''Device''" "xml_name ''Desc''" "xml_name ''RxPdo''" "xml_name ''TxPdo''" "xml_name ''Descriptions''" "xml_name ''EtherCATInfo''"
  by (simp_all add: xml_name_def xml_name_char_def code_of_def)

lemmas piece_simps = names_ok attrs_ok_def xml_plain_simps plain_chars_eval numbers_plain piece_Nil

lemma piece_entry: "entry_plain e \<Longrightarrow> piece (entry_items e)"
proof -
  assume "entry_plain e"
  then have "piece (field_item 10 ''Index'' (''#x'' @ ese_index e) @ field_item 10 ''SubIndex'' (''#x'' @ ese_subIndex e)
     @ field_item 10 ''BitLen'' (number_int (ese_bitSize e)) @ (if ese_name e \<noteq> [] then field_item 10 ''Name'' (ese_name e) else [])
     @ (if ese_type e \<noteq> [] then field_item 10 ''DataType'' (''#x'' @ ese_type e) else []))"
    by (intro piece_append) (simp_all add: entry_plain_def piece_field piece_simps)
  from piece_element [OF names_ok(1) _ this, of "[]" 8 8] show ?thesis by (simp add: entry_items_def attrs_ok_def)
qed

lemma piece_pdo: "pdo_plain p \<Longrightarrow> xml_name tag \<Longrightarrow> piece (pdo_items tag p)"
proof -
  assume p: "pdo_plain p" and tag: "xml_name tag"
  then have "piece (field_item 8 ''Index'' (''#x'' @ esp_index p) @ field_item 8 ''Name'' (esp_name p) @ concat (map entry_items (esp_entries p)))"
    by (intro piece_append piece_concat piece_entry) (simp_all add: pdo_plain_def piece_field piece_simps list_all_iff)
  from piece_element [OF tag _ this, of "[]" 6 6] show ?thesis by (simp add: pdo_items_def attrs_ok_def)
qed

lemma piece_sm: "xml_plain (ess_direction sm) \<Longrightarrow> piece (sm_items sm)"
  by (simp add: sm_items_def piece_def text_apart_def piece_simps) (simp add: indent_def)

lemma piece_device:
  assumes "device_plain d"
  shows "piece (device_items d)"
proof -
  have "piece (type_items d)"
    unfolding type_items_def using assms by (intro piece_leaf) (simp_all add: device_plain_def piece_simps)
  then have "piece (type_items d @ field_item 6 ''Name'' (esd_name d)
     @ (if esd_description d \<noteq> [] then field_item 6 ''Desc'' (esd_description d) else [])
     @ concat (map sm_items (esd_syncManagers d)) @ concat (map (pdo_items ''RxPdo'') (esd_rxPdos d))
     @ concat (map (pdo_items ''TxPdo'') (esd_txPdos d)))"
    using assms by (intro piece_append piece_concat piece_pdo piece_sm) (auto simp: device_plain_def piece_field piece_simps list_all_iff)
  from piece_element [OF names_ok(13) _ this, of "[]" 4 4] show ?thesis by (simp add: device_items_def attrs_ok_def)
qed

lemma items_wellformed:
  assumes "device_plain d"
  shows "xml_wellformed (esi_items d)"
proof -
  from piece_element [OF names_ok(17) _ piece_device [OF assms], of "[]" 2 2]
  have p: "piece (indent 2 # XOpen ''Descriptions'' [] # device_items d @ [indent 2, XClose ''Descriptions''])" (is "piece ?f")
    by (simp add: attrs_ok_def)
  have b: "blank [nl]" "item_ok (XText [nl])" by (simp_all add: blank_def nl_def xml_space_char_def code_of_def)
  have "texts_apart (?f @ [XText [nl], XClose ''EtherCATInfo'', XText [nl]])"
    using p by (intro texts_apart_append) (simp_all add: piece_def text_apart_def)
  then have "texts_apart (XOpen ''EtherCATInfo'' [] # ?f @ [XText [nl], XClose ''EtherCATInfo'', XText [nl]])" by simp
  moreover have "rooted [''EtherCATInfo''] (?f @ [XText [nl], XClose ''EtherCATInfo'', XText [nl]])"
    using p b by (simp only: piece_def rooted_closed) simp
  moreover have "list_all item_ok (XText [nl] # XOpen ''EtherCATInfo'' [] # ?f @ [XText [nl], XClose ''EtherCATInfo'', XText [nl]])"
    using p b by (simp add: piece_def attrs_ok_def names_ok)
  ultimately show ?thesis using b by (simp add: esi_items_def)
qed

section \<open>Reading it\<close>

lemma read_item_text: "element_text [] (xml_tokens (Suc d) (text_item s @ XClose t # r)) = (s, xml_tokens d r, None)"
  by (simp add: text_item_def)

abbreviation structural :: "string list" where
  "structural \<equiv> [''Descriptions'', ''Device'', ''RxPdo'', ''TxPdo'', ''Sm'', ''Entry'']"

lemma plain_element: "tag \<notin> set structural \<Longrightarrow> opened tag st = st" "tag \<notin> set structural \<Longrightarrow> end_element known tag st = st"
    "tag \<notin> set structural \<Longrightarrow> start_plain tag as st = st"
  by (simp_all add: opened_def end_element_def start_plain_def)

lemma loop_indent: "esi_loop known err (xml_tokens d (indent n # r)) st = esi_loop known err (xml_tokens d r) st"
  by (simp add: indent_def)

lemma loop_text_item: "esi_loop known err (xml_tokens d (text_item s @ r)) st = esi_loop known err (xml_tokens d r) st"
  by (simp add: text_item_def)

lemma loop_leaf:
  assumes "tag \<notin> set structural"
  shows "esi_loop known err (xml_tokens d (indent n # XOpen tag as # text_item s @ XClose tag # r)) st
    = esi_loop known err (xml_tokens d r) (if reads_text tag st then start_text tag as s st else st)"
  using assms by (simp add: loop_indent plain_element read_item_text loop_text_item)

lemma loop_field:
  assumes "tag \<notin> set structural"
  shows "esi_loop known err (xml_tokens d (field_item n tag s @ r)) st
    = esi_loop known err (xml_tokens d r) (if reads_text tag st then start_text tag [] s st else st)"
  using loop_leaf [OF assms, of known err d n "[]" s r st] by (simp add: field_item_def)

definition surv_entry :: "esi_entry \<Rightarrow> esi_entry" where
  "surv_entry e = no_entry\<lparr>ese_type := (if ese_type e = [] then [] else ''#x'' @ ese_type e)\<rparr>"

definition surv_pdo :: "esi_pdo \<Rightarrow> esi_pdo" where
  "surv_pdo p = no_pdo\<lparr>esp_entries := map surv_entry (esp_entries p)\<rparr>"

definition entry_names :: "esi_entry \<Rightarrow> string list" where
  "entry_names e = (if ese_name e = [] then [] else [ese_name e])"

definition pdo_names :: "esi_pdo \<Rightarrow> string list" where
  "pdo_names p = esp_name p # concat (map entry_names (esp_entries p))"

definition renamed :: "string list \<Rightarrow> esi_device \<Rightarrow> esi_device" where
  "renamed ns d = d\<lparr>esd_name := last (esd_name d # ns)\<rparr>"

lemma renamed_append: "renamed (a @ b) d = renamed b (renamed a d)"
  by (cases "b = []"; cases "a = []") (simp_all add: renamed_def)

lemma renamed_Nil: "renamed [] d = d"
  by (simp add: renamed_def)

lemma loop_entry:
  assumes "sc_inDevice st" and "sc_inRx st \<or> sc_inTx st" and "sc_entry st = no_entry"
  shows "esi_loop known err (xml_tokens d (entry_items e @ r)) st = esi_loop known err (xml_tokens d r)
    (st\<lparr>sc_current := renamed (entry_names e) (sc_current st), sc_pdo := (sc_pdo st)\<lparr>esp_entries := esp_entries (sc_pdo st) @ [surv_entry e]\<rparr>,
       sc_entry := no_entry\<rparr>)"
proof -
  have o: "opened ''Entry'' st = st" "\<not> reads_text ''Entry'' st" "start_plain ''Entry'' [] st = st"
    using assms(3) by (simp_all add: opened_def reads_text_def start_plain_def unprefixed_def attr_def starts_with_def to_sint_def no_entry_def)
  show ?thesis
    using assms o
    by (simp add: entry_items_def loop_indent loop_field reads_text_def start_text_def end_element_def entry_names_def renamed_def surv_entry_def)
      (simp add: no_entry_def)
qed

lemma loop_entries:
  assumes "sc_inDevice st" and "sc_inRx st \<or> sc_inTx st" and "sc_entry st = no_entry"
  shows "esi_loop known err (xml_tokens d (concat (map entry_items es) @ r)) st = esi_loop known err (xml_tokens d r)
    (st\<lparr>sc_current := renamed (concat (map entry_names es)) (sc_current st),
       sc_pdo := (sc_pdo st)\<lparr>esp_entries := esp_entries (sc_pdo st) @ map surv_entry es\<rparr>, sc_entry := no_entry\<rparr>)"
  using assms
proof (induction es arbitrary: st)
  case Nil
  then show ?case by (cases st) (simp add: renamed_Nil)
next
  case (Cons e es)
  then show ?case by (simp add: loop_entry renamed_append)
qed

definition outside :: "esi_scan \<Rightarrow> bool" where
  \<comment> \<open>in a device, outside its process data objects\<close>
  "outside st \<longleftrightarrow> sc_inDevice st \<and> \<not> sc_inRx st \<and> \<not> sc_inTx st \<and> \<not> sc_inSm st \<and> sc_pdo st = no_pdo \<and> sc_entry st = no_entry"

definition with_current :: "(esi_device \<Rightarrow> esi_device) \<Rightarrow> esi_scan \<Rightarrow> esi_scan" where
  "with_current f st = st\<lparr>sc_current := f (sc_current st)\<rparr>"

lemma outside_with [simp]: "outside (with_current f st) \<longleftrightarrow> outside st"
  by (simp add: outside_def with_current_def)

lemma with_with [simp]: "with_current g (with_current f st) = with_current (\<lambda>d. g (f d)) st"
  by (simp add: with_current_def)

definition got_pdo :: "string \<Rightarrow> esi_pdo \<Rightarrow> esi_device \<Rightarrow> esi_device" where
  "got_pdo tag p d = (let d' = renamed (pdo_names p) d in
     if tag = ''RxPdo'' then d'\<lparr>esd_rxPdos := esd_rxPdos d' @ [surv_pdo p]\<rparr> else d'\<lparr>esd_txPdos := esd_txPdos d' @ [surv_pdo p]\<rparr>)"

definition within :: "string \<Rightarrow> esi_scan \<Rightarrow> esi_scan" where
  "within tag st = (if tag = ''RxPdo'' then st\<lparr>sc_inRx := True\<rparr> else st\<lparr>sc_inTx := True\<rparr>)"

lemma same_pdo: "sc_pdo st = q \<Longrightarrow> st\<lparr>sc_pdo := q\<rparr> = st" and same_entry: "sc_entry st = e \<Longrightarrow> st\<lparr>sc_entry := e\<rparr> = st"
  and same_sm: "\<not> sc_inSm st \<Longrightarrow> st\<lparr>sc_inSm := False\<rparr> = st" and same_rx: "\<not> sc_inRx st \<Longrightarrow> st\<lparr>sc_inRx := False\<rparr> = st" and same_tx: "\<not> sc_inTx st \<Longrightarrow> st\<lparr>sc_inTx := False\<rparr> = st"
  by (cases st, simp)+

lemma within_simps:
  assumes "outside st"
  shows "sc_inDevice (within tag st)" "sc_inRx (within tag st) \<or> sc_inTx (within tag st)" "sc_entry (within tag st) = no_entry"
    "sc_pdo (within tag st) = no_pdo" "sc_current (within tag st) = sc_current st"
  using assms by (simp_all add: within_def outside_def)

lemma loop_pdo_open:
  assumes "outside st" and "tag \<in> {''RxPdo'', ''TxPdo''}"
  shows "esi_loop known err (xml_tokens d (indent n # XOpen tag [] # r)) st = esi_loop known err (xml_tokens (Suc d) r) (within tag st)"
proof -
  have p: "no_pdo\<lparr>esp_index := []\<rparr> = no_pdo" by (simp add: no_pdo_def)
  have q: "sc_pdo (st\<lparr>sc_inRx := True\<rparr>) = no_pdo" "sc_pdo (st\<lparr>sc_inTx := True\<rparr>) = no_pdo" using assms(1) by (simp_all add: outside_def)
  have "opened tag st = st" using assms by (auto simp: opened_def)
  moreover have "\<not> reads_text tag st" using assms by (auto simp: reads_text_def)
  moreover have "start_plain tag [] st = within tag st"
    using assms(2) same_pdo [OF q(1)] same_pdo [OF q(2)]
    by (auto simp: start_plain_def unprefixed_def attr_def starts_with_def within_def p)
  moreover have "sc_inDevice st" using assms(1) by (simp add: outside_def)
  ultimately show ?thesis by (simp add: loop_indent)
qed

lemma loop_pdo_fields:
  assumes "outside st"
  shows "esi_loop known err (xml_tokens d (field_item 8 ''Index'' x @ field_item 8 ''Name'' s @ r)) (within tag st)
    = esi_loop known err (xml_tokens d r) (within tag (with_current (renamed [s]) st))"
proof -
  have "\<not> reads_text ''Index'' (within tag st)" "reads_text ''Name'' (within tag st)"
    using within_simps(1) [OF assms] by (simp_all add: reads_text_def)
  moreover have "start_text ''Name'' [] s (within tag st) = within tag (with_current (renamed [s]) st)"
    by (simp add: start_text_def within_def with_current_def renamed_def)
  ultimately show ?thesis by (simp add: loop_field)
qed

lemma loop_pdo_entries:
  assumes "outside st"
  shows "esi_loop known err (xml_tokens d (concat (map entry_items es) @ r)) (within tag st)
    = esi_loop known err (xml_tokens d r) (within tag ((with_current (renamed (concat (map entry_names es))) st)\<lparr>sc_pdo := no_pdo\<lparr>esp_entries := map surv_entry es\<rparr>\<rparr>))"
proof -
  note w = within_simps [OF assms, of tag]
  let ?n = "renamed (concat (map entry_names es)) (sc_current st)" and ?q = "no_pdo\<lparr>esp_entries := map surv_entry es\<rparr>"
  have "sc_entry ((within tag st)\<lparr>sc_current := ?n, sc_pdo := ?q\<rparr>) = no_entry" using w(3) by simp
  from same_entry [OF this] have "(within tag st)\<lparr>sc_current := ?n, sc_pdo := ?q, sc_entry := no_entry\<rparr>
    = within tag ((with_current (renamed (concat (map entry_names es))) st)\<lparr>sc_pdo := ?q\<rparr>)"
    by (simp add: within_def with_current_def)
  then show ?thesis using loop_entries [OF w(1-3), of known err d es r] w(4,5) by (simp add: no_pdo_def)
qed

lemma end_pdo:
  assumes "outside st" and "tag \<in> {''RxPdo'', ''TxPdo''}"
  shows "end_element known tag (within tag (st\<lparr>sc_pdo := q\<rparr>))
    = with_current (\<lambda>d. if tag = ''RxPdo'' then d\<lparr>esd_rxPdos := esd_rxPdos d @ [q]\<rparr> else d\<lparr>esd_txPdos := esd_txPdos d @ [q]\<rparr>) st"
proof -
  have a: "sc_pdo (st\<lparr>sc_current := c\<rparr>) = no_pdo" "\<not> sc_inRx (st\<lparr>sc_current := c\<rparr>)" "\<not> sc_inTx (st\<lparr>sc_current := c\<rparr>)" for c
    using assms(1) by (simp_all add: outside_def)
  have b: "st\<lparr>sc_current := c, sc_pdo := no_pdo, sc_inRx := False\<rparr> = st\<lparr>sc_current := c\<rparr>"
    "st\<lparr>sc_current := c, sc_pdo := no_pdo, sc_inTx := False\<rparr> = st\<lparr>sc_current := c\<rparr>" for c
    unfolding same_pdo [OF a(1)] same_rx [OF a(2)] same_tx [OF a(3)] by simp_all
  consider "tag = ''RxPdo''" | "tag = ''TxPdo''" using assms(2) by blast
  then show ?thesis
  proof cases
    case 1
    then show ?thesis using b(1) [of "(sc_current st)\<lparr>esd_rxPdos := esd_rxPdos (sc_current st) @ [q]\<rparr>"]
      by (simp add: end_element_def within_def with_current_def)
  next
    case 2
    then show ?thesis using b(2) [of "(sc_current st)\<lparr>esd_txPdos := esd_txPdos (sc_current st) @ [q]\<rparr>"]
      by (simp add: end_element_def within_def with_current_def)
  qed
qed

lemma loop_pdo:
  assumes "outside st" and "tag \<in> {''RxPdo'', ''TxPdo''}"
  shows "esi_loop known err (xml_tokens d (pdo_items tag p @ r)) st = esi_loop known err (xml_tokens d r) (with_current (got_pdo tag p) st)"
proof -
  let ?st1 = "with_current (renamed [esp_name p]) st"
  let ?st2 = "with_current (renamed (concat (map entry_names (esp_entries p)))) ?st1"
  have o: "outside ?st1" "outside ?st2" using assms(1) by simp_all
  have "esi_loop known err (xml_tokens d (pdo_items tag p @ r)) st
    = esi_loop known err (xml_tokens (Suc d) (indent 6 # XClose tag # r)) (within tag (?st2\<lparr>sc_pdo := surv_pdo p\<rparr>))"
    using assms o by (simp add: pdo_items_def loop_pdo_open loop_pdo_fields loop_pdo_entries surv_pdo_def del: xml_tokens.simps with_with insert_iff)
  also have "\<dots> = esi_loop known err (xml_tokens d r) (end_element known tag (within tag (?st2\<lparr>sc_pdo := surv_pdo p\<rparr>)))"
    by (simp add: loop_indent)
  also have "end_element known tag (within tag (?st2\<lparr>sc_pdo := surv_pdo p\<rparr>)) = with_current (got_pdo tag p) st"
  proof -
    have "renamed (pdo_names p) d = renamed (concat (map entry_names (esp_entries p))) (renamed [esp_name p] d)" for d
      by (simp add: pdo_names_def flip: renamed_append)
    then show ?thesis unfolding end_pdo [OF o(2) assms(2)] by (auto simp: got_pdo_def [abs_def] Let_def with_current_def)
  qed
  finally show ?thesis .
qed

definition imported_sm :: "esi_sm \<Rightarrow> esi_sm" where
  "imported_sm sm = \<lparr>ess_index = ess_index sm, ess_name = [], ess_direction = ess_direction sm, ess_pdos = 0\<rparr>"

lemma loop_sm:
  assumes "outside st" and "int32 (ess_index sm)"
  shows "esi_loop known err (xml_tokens d (sm_items sm @ r)) st = esi_loop known err (xml_tokens d r)
    (with_current (\<lambda>d. d\<lparr>esd_syncManagers := esd_syncManagers d @ [imported_sm sm]\<rparr>) st)"
proof -
  have s: "st\<lparr>sc_current := c, sc_inSm := False\<rparr> = st\<lparr>sc_current := c\<rparr>" for c
    using assms(1) by (intro same_sm) (simp add: outside_def)
  have "to_int32 (number_int (ess_index sm)) = Some (ess_index sm)" using assms(2) by (intro to_sint_number_int) (simp_all add: int32_def)
  moreover have "sc_inDevice st" using assms(1) by (simp add: outside_def)
  ultimately show ?thesis
    by (simp add: sm_items_def loop_indent opened_def reads_text_def start_plain_def end_element_def attr_def imported_sm_def with_current_def s)
qed

lemma loop_list:
  assumes "\<And>x st r. x \<in> set xs \<Longrightarrow> outside st \<Longrightarrow> esi_loop known err (xml_tokens d (f x @ r)) st = esi_loop known err (xml_tokens d r) (g x st)"
    and "\<And>x st. outside st \<Longrightarrow> outside (g x st)"
  shows "outside st \<Longrightarrow> esi_loop known err (xml_tokens d (concat (map f xs) @ r)) st = esi_loop known err (xml_tokens d r) (fold g xs st)"
  using assms(1) by (induction xs arbitrary: st) (simp_all add: assms(2))

lemma hex_attr: "0 \<le> i \<Longrightarrow> i < 2 ^ 31 \<Longrightarrow> parseHexOrDec (''#x'' @ hex_number i) = i"
proof -
  assume i: "0 \<le> i" "i < 2 ^ 31"
  let ?s = "number_hex (nat i)"
  have h: "hex_number i = ?s" using i by (simp add: hex_number_def)
  have "\<not> is_space (CHR ''#'')" "\<not> is_space (CHR ''x'')" by (simp_all add: is_space_def code_of_def Let_def)
  then have t: "trimmed (''#x'' @ ?s) = ''#x'' @ ?s" using number_hex_chars(1) by (intro trimmed_id) auto
  have ts: "trimmed ?s = ?s" by (rule trimmed_id) (simp add: number_hex_chars)
  obtain c r where c: "?s = c # r" by (cases ?s) (simp_all add: number_hex_def)
  have "CHR ''-'' \<notin> set ?s"
  proof
    assume "CHR ''-'' \<in> set ?s"
    then obtain d where "d < 16" "CHR ''-'' = digit_char d" using digits_base_digits [of 16 _ "nat i"] by (auto simp: number_hex_def)
    then have "code_of (CHR ''-'') = (if d < 10 then 48 + d else 87 + d)" by (simp add: code_digit_char)
    then show False by (simp add: code_of_def split: if_splits)
  qed
  then have "c \<noteq> CHR ''-''" using c by auto
  moreover have "strip_plus ?s = ?s" using number_hex_chars(2) [of _ "nat i"] by (auto simp: strip_plus_def split: list.splits)
  moreover have "parse_base 16 ?s = Some (nat i)"
    by (simp add: parse_base_def strip_hex_prefix_def number_hex_no_prefix) (simp add: number_hex_def parse_nat_digits_base)
  ultimately have "to_sint (2 ^ 31) 16 ?s = Some i" using i ts c by (simp add: to_sint_def)
  moreover have "starts_with_ci ''#x'' (''#x'' @ ?s)" by (simp add: starts_with_ci_def to_lower_append starts_with_append del: append.simps)
  ultimately show ?thesis using t h by (simp add: parseHexOrDec_def)
qed

lemma fold_with: "fold (\<lambda>x. with_current (h x)) xs st = with_current (fold h xs) st"
  by (induction xs arbitrary: st) (simp_all add: with_current_def)

lemma fold_sms: "fold (\<lambda>sm d. d\<lparr>esd_syncManagers := esd_syncManagers d @ [imported_sm sm]\<rparr>) sms d
    = d\<lparr>esd_syncManagers := esd_syncManagers d @ map imported_sm sms\<rparr>"
  by (induction sms arbitrary: d) simp_all

lemma fold_pdos:
  "fold (got_pdo ''RxPdo'') ps d = (renamed (concat (map pdo_names ps)) d)\<lparr>esd_rxPdos := esd_rxPdos d @ map surv_pdo ps\<rparr>"
  "fold (got_pdo ''TxPdo'') ps d = (renamed (concat (map pdo_names ps)) d)\<lparr>esd_txPdos := esd_txPdos d @ map surv_pdo ps\<rparr>"
proof -
  have r: "renamed ns (d\<lparr>esd_rxPdos := x\<rparr>) = (renamed ns d)\<lparr>esd_rxPdos := x\<rparr>" "renamed ns (d\<lparr>esd_txPdos := x\<rparr>) = (renamed ns d)\<lparr>esd_txPdos := x\<rparr>"
    "esd_rxPdos (renamed ns d) = esd_rxPdos d" "esd_txPdos (renamed ns d) = esd_txPdos d" for ns d x
    by (simp_all add: renamed_def)
  show "fold (got_pdo ''RxPdo'') ps d = (renamed (concat (map pdo_names ps)) d)\<lparr>esd_rxPdos := esd_rxPdos d @ map surv_pdo ps\<rparr>"
    by (induction ps arbitrary: d) (simp_all add: renamed_Nil got_pdo_def Let_def renamed_append r)
  show "fold (got_pdo ''TxPdo'') ps d = (renamed (concat (map pdo_names ps)) d)\<lparr>esd_txPdos := esd_txPdos d @ map surv_pdo ps\<rparr>"
    by (induction ps arbitrary: d) (simp_all add: renamed_Nil got_pdo_def Let_def renamed_append r)
qed

definition survivor :: "esi_device \<Rightarrow> esi_device" where
  \<comment> \<open>what comes back of a device: its identity, its description and its sync managers\<close>
  "survivor d = \<lparr>esd_id = device_key (esd_vendorId d) (esd_productCode d),
     esd_name = last (esd_name d # concat (map pdo_names (esd_rxPdos d @ esd_txPdos d))), esd_type = [], esd_description = esd_description d,
     esd_vendorId = esd_vendorId d, esd_productCode = esd_productCode d, esd_revisionNo = esd_revisionNo d,
     esd_rxPdos = map surv_pdo (esd_rxPdos d), esd_txPdos = map surv_pdo (esd_txPdos d), esd_syncManagers = map imported_sm (esd_syncManagers d)\<rparr>"

definition exportable :: "esi_device \<Rightarrow> bool" where
  "exportable d \<longleftrightarrow> device_plain d \<and> 0 < esd_vendorId d \<and> esd_vendorId d < 2 ^ 31 \<and> 0 \<le> esd_productCode d \<and> esd_productCode d < 2 ^ 31
     \<and> 0 \<le> esd_revisionNo d \<and> esd_revisionNo d < 2 ^ 31 \<and> list_all (\<lambda>sm. int32 (ess_index sm)) (esd_syncManagers d)"

lemma loop_type:
  assumes "outside st" and "sc_current st = no_device" and "exportable d"
  shows "esi_loop known err (xml_tokens n (type_items d @ r)) st = esi_loop known err (xml_tokens n r)
    (with_current (\<lambda>_. no_device\<lparr>esd_vendorId := esd_vendorId d, esd_productCode := esd_productCode d, esd_revisionNo := esd_revisionNo d,
       esd_name := esd_name d\<rparr>) st)"
proof -
  have "reads_text ''Type'' st" using assms(1) by (simp add: reads_text_def outside_def)
  moreover have "typed_device [(''ProductCode'', ''#x'' @ hex_number (esd_productCode d)), (''RevisionNo'', ''#x'' @ hex_number (esd_revisionNo d)),
      (''VendorId'', ''#x'' @ hex_number (esd_vendorId d))] (esd_name d) no_device
    = no_device\<lparr>esd_vendorId := esd_vendorId d, esd_productCode := esd_productCode d, esd_revisionNo := esd_revisionNo d, esd_name := esd_name d\<rparr>"
    using assms(3) by (simp add: typed_device_def attr_def hex_attr [simplified] exportable_def Let_def no_device_def)
  ultimately show ?thesis
    using assms(2) by (simp add: type_items_def loop_leaf start_text_def with_current_def)
qed

lemma loop_device_fields:
  assumes "outside st"
  shows "esi_loop known err (xml_tokens n (field_item 6 ''Name'' s @ r)) st = esi_loop known err (xml_tokens n r) (with_current (\<lambda>d. d\<lparr>esd_name := s\<rparr>) st)"
    and "esi_loop known err (xml_tokens n (field_item 6 ''Desc'' s @ r)) st = esi_loop known err (xml_tokens n r) (with_current (\<lambda>d. d\<lparr>esd_description := s\<rparr>) st)"
  using assms by (simp_all add: loop_field reads_text_def outside_def start_text_def with_current_def)

lemma loop_description:
  assumes "outside st"
  shows "esi_loop known err (xml_tokens n ((if s \<noteq> [] then field_item 6 ''Desc'' s else []) @ r)) st
    = esi_loop known err (xml_tokens n r) (with_current (\<lambda>d. if s \<noteq> [] then d\<lparr>esd_description := s\<rparr> else d) st)"
  using loop_device_fields(2) [OF assms] by (simp add: with_current_def)

lemma loop_device:
  assumes "outside st" and "sc_current st = no_device" and "exportable d"
  shows "esi_loop known err (xml_tokens n (type_items d @ field_item 6 ''Name'' (esd_name d)
     @ (if esd_description d \<noteq> [] then field_item 6 ''Desc'' (esd_description d) else [])
     @ concat (map sm_items (esd_syncManagers d)) @ concat (map (pdo_items ''RxPdo'') (esd_rxPdos d))
     @ concat (map (pdo_items ''TxPdo'') (esd_txPdos d)) @ r)) st
    = esi_loop known err (xml_tokens n r) (with_current (\<lambda>_. (survivor d)\<lparr>esd_id := []\<rparr>) st)"
proof -
  have sms: "esi_loop known err (xml_tokens n (concat (map sm_items (esd_syncManagers d)) @ r)) st = esi_loop known err (xml_tokens n r)
      (fold (\<lambda>sm. with_current (\<lambda>d. d\<lparr>esd_syncManagers := esd_syncManagers d @ [imported_sm sm]\<rparr>)) (esd_syncManagers d) st)"
    if "outside st" for r st
    by (rule loop_list) (use assms(3) that loop_sm in \<open>auto simp: exportable_def list_all_iff\<close>)
  have pdos: "esi_loop known err (xml_tokens n (concat (map (pdo_items tag) ps) @ r)) st = esi_loop known err (xml_tokens n r)
      (fold (\<lambda>p. with_current (got_pdo tag p)) ps st)" if "outside st" "tag \<in> {''RxPdo'', ''TxPdo''}" for r st ps tag
    by (rule loop_list) (use that loop_pdo in auto)
  note blocks = loop_type [OF _ _ assms(3)] loop_device_fields(1) loop_description sms pdos
  let ?d = "no_device\<lparr>esd_vendorId := esd_vendorId d, esd_productCode := esd_productCode d, esd_revisionNo := esd_revisionNo d, esd_name := esd_name d\<rparr>"
  let ?e = "if esd_description d \<noteq> [] then ?d\<lparr>esd_description := esd_description d\<rparr> else ?d"
  have e: "?e = ?d\<lparr>esd_description := esd_description d\<rparr>" by (simp add: no_device_def)
  have "fold (got_pdo ''TxPdo'') (esd_txPdos d) (fold (got_pdo ''RxPdo'') (esd_rxPdos d)
      (fold (\<lambda>sm d. d\<lparr>esd_syncManagers := esd_syncManagers d @ [imported_sm sm]\<rparr>) (esd_syncManagers d) ?e)) = (survivor d)\<lparr>esd_id := []\<rparr>"
    unfolding e fold_sms fold_pdos by (simp add: renamed_def survivor_def no_device_def)
  then show ?thesis
    using assms(1,2)
    by (simp add: blocks fold_with del: append_assoc)
qed

lemma loop_items:
  assumes "exportable d"
  shows "\<exists>st. esi_loop [] None (xml_tokens 0 (esi_items d)) scan_init = (st, None) \<and> sc_parsed st = [survivor d]"
proof -
  let ?st = "scan_init\<lparr>sc_inDescriptions := True, sc_inDevice := True\<rparr>"
  have o: "outside ?st" "sc_current ?st = no_device" by (simp_all add: outside_def scan_init_def)
  let ?new = "with_current (\<lambda>_. (survivor d)\<lparr>esd_id := []\<rparr>) ?st"
  have "opened ''EtherCATInfo'' scan_init = scan_init" "\<not> reads_text ''EtherCATInfo'' scan_init" "\<not> sc_inDevice scan_init"
    by (simp_all add: opened_def reads_text_def scan_init_def)
  moreover have "opened ''Descriptions'' scan_init = scan_init\<lparr>sc_inDescriptions := True\<rparr>"
    "\<not> reads_text ''Descriptions'' (scan_init\<lparr>sc_inDescriptions := True\<rparr>)" by (simp_all add: opened_def reads_text_def)
  moreover have "opened ''Device'' (scan_init\<lparr>sc_inDescriptions := True\<rparr>) = ?st" "\<not> reads_text ''Device'' ?st" "start_plain ''Device'' [] ?st = ?st"
    by (simp_all add: opened_def reads_text_def start_plain_def scan_init_def)
  ultimately have pre: "esi_loop [] None (xml_tokens 0 (XDecl h # XText [nl] # XOpen ''EtherCATInfo'' [] # indent 2 # XOpen ''Descriptions'' []
      # indent 4 # XOpen ''Device'' [] # f)) scan_init = esi_loop [] None (xml_tokens (Suc (Suc (Suc 0))) f) ?st" for h f
    by (simp add: loop_indent)
  have "esi_loop [] None (xml_tokens 0 (esi_items d)) scan_init
    = esi_loop [] None (xml_tokens (Suc (Suc (Suc 0))) [indent 4, XClose ''Device'', indent 2, XClose ''Descriptions'', XText [nl], XClose ''EtherCATInfo'', XText [nl]]) ?new"
    unfolding esi_items_def device_items_def append_Cons append_assoc append_Nil pre loop_device [OF o assms] ..
  moreover have "sc_parsed (end_device [] ?new) = [survivor d]"
    using assms by (simp add: Let_def end_device_def with_current_def scan_init_def survivor_def exportable_def)
  moreover have "end_element [] ''Device'' ?new = end_device [] ?new" by (simp add: end_element_def)
  ultimately show ?thesis by (simp add: loop_indent end_element_def)
qed

definition reads_plain_xml :: "(string \<Rightarrow> xml_document) \<Rightarrow> bool" where
  \<comment> \<open>an XML reader reports on a well-formed document its tokens and no error\<close>
  "reads_plain_xml read_xml \<longleftrightarrow> (\<forall>items. xml_wellformed items \<longrightarrow> read_xml (xml_text items) = (xml_tokens 0 items, None))"

definition keeps_texts :: "(string \<Rightarrow> string \<Rightarrow> 'w \<Rightarrow> bool \<times> 'w) \<Rightarrow> ('w \<Rightarrow> string \<Rightarrow> string option) \<Rightarrow> bool" where
  \<comment> \<open>a text that was written is in its file\<close>
  "keeps_texts write_text text_at \<longleftrightarrow> (\<forall>path t w w'. write_text path t w = (True, w') \<longrightarrow> text_at w' path = Some t)"

text \<open>
  Claim C23 (roundtrip). A device that is exported and imported into an empty repository comes back with its vendor, product
  and revision, its description, and its sync managers by index and direction, under the identifier of its vendor and
  product. The rest does not survive: its name is the last name written in the file, its device type and the names and
  PDO counts of the managers are gone, and of its process data objects there come back only their number and that of their
  entries, each with its type behind the prefix \<open>#x\<close> (an empty type stays empty). The reader is one that reports
  the tokens of well-formed documents, the vendor is positive, the numbers are not negative and fit 32 bits signed, and no text has a markup
  character.
\<close>

theorem exported_device_comes_back:
  assumes "reads_plain_xml read_xml" and "keeps_texts write_text text_at" and "path \<noteq> []"
    and "map_of (esi_index sv) key = Some i" and "exportable (esi_devices sv ! i)"
    and "exportEsi write_text key path sv w = (True, w')"
  shows "importEsi (\<lambda>p. map_option read_xml (text_at w' p)) path esi_init
    = (True, \<lparr>esi_devices = [survivor (esi_devices sv ! i)], esi_index = [(esd_id (survivor (esi_devices sv ! i)), 0)], esi_signals = [Esi_imported 1]\<rparr>)"
proof -
  let ?d = "esi_devices sv ! i"
  have "xml_wellformed (esi_items ?d)" using assms(5) items_wellformed by (simp add: exportable_def)
  then have r: "read_xml (esi_text ?d) = (xml_tokens 0 (esi_items ?d), None)" using assms(1) by (simp add: reads_plain_xml_def text_of_items)
  have "text_at w' path = Some (esi_text ?d)" using assms(2,3,4,6) by (simp add: exportEsi_def keeps_texts_def)
  moreover obtain st where "esi_loop [] None (xml_tokens 0 (esi_items ?d)) scan_init = (st, None)" "sc_parsed st = [survivor ?d]"
    using loop_items [OF assms(5)] by blast
  ultimately show ?thesis
    using assms(3) r by (simp add: importEsi_def esi_init_def esi_emit_def add_device_def hash_insert_def)
qed

definition demo_device :: esi_device where
  "demo_device = no_device\<lparr>esd_id := device_key 2 3, esd_name := ''Drive'', esd_vendorId := 2, esd_productCode := 3, esd_revisionNo := 1,
     esd_syncManagers := [\<lparr>ess_index = 2, ess_name = [], ess_direction = ''out'', ess_pdos = 0\<rparr>],
     esd_rxPdos := [\<lparr>esp_index = ''1600'', esp_name = ''Outputs'', esp_entries =
       [\<lparr>ese_index = ''6040'', ese_subIndex = ''0'', ese_name = ''Controlword'', ese_type = ''UINT16'', ese_bitSize = 16\<rparr>]\<rparr>]\<rparr>"

definition demo_repository :: esi_service where
  "demo_repository = \<lparr>esi_devices = [demo_device], esi_index = [(''id'', 0)], esi_signals = []\<rparr>"

definition demo_write :: "string \<Rightarrow> string \<Rightarrow> (string \<times> string) list \<Rightarrow> bool \<times> (string \<times> string) list" where
  "demo_write path t w = (True, (path, t) # w)"

lemma demo_exportable: "exportable demo_device"
proof -
  have "xml_plain ''Drive''" "xml_plain ''out''" "xml_plain ''1600''" "xml_plain ''Outputs''" "xml_plain ''6040''" "xml_plain ''0''"
    "xml_plain ''Controlword''" "xml_plain ''UINT16''" "xml_plain []" by code_simp+
  then show ?thesis by (simp add: exportable_def device_plain_def pdo_plain_def entry_plain_def demo_device_def no_device_def int32_def)
qed

lemma scan_reads: "reads_plain_xml (\<lambda>s. (xml_scan 0 s, None))"
  by (simp add: reads_plain_xml_def scan_wellformed)

lemma demo_keeps: "keeps_texts demo_write map_of"
  by (simp add: keeps_texts_def demo_write_def)

theorem exported_device_comes_back_witness:
  "esd_vendorId (hd (esi_devices (snd (importEsi (\<lambda>p. map_option (\<lambda>s. (xml_scan 0 s, None)) (map_of (snd (exportEsi demo_write ''id'' ''f'' demo_repository [])) p)) ''f'' esi_init)))) = 2
   \<and> esd_name (hd (esi_devices (snd (importEsi (\<lambda>p. map_option (\<lambda>s. (xml_scan 0 s, None)) (map_of (snd (exportEsi demo_write ''id'' ''f'' demo_repository [])) p)) ''f'' esi_init)))) = ''Controlword''"
proof -
  have i: "map_of (esi_index demo_repository) ''id'' = Some 0" "esi_devices demo_repository ! 0 = demo_device" by (simp_all add: demo_repository_def)
  have e: "exportEsi demo_write ''id'' ''f'' demo_repository [] = (True, snd (exportEsi demo_write ''id'' ''f'' demo_repository []))"
    using i by (simp add: exportEsi_def demo_write_def)
  have x: "exportable (esi_devices demo_repository ! 0)" unfolding i(2) by (rule demo_exportable)
  show ?thesis
    using exported_device_comes_back [OF scan_reads demo_keeps _ i(1) x e] i(2)
    by (simp add: survivor_def) (simp add: demo_device_def pdo_names_def entry_names_def no_device_def)
qed

text \<open>The index and the name of an object, and the address, the name and the size of its entries do not come back.\<close>

lemma exported_pdo_is_emptied:
  "esp_index (surv_pdo p) = [] \<and> esp_name (surv_pdo p) = [] \<and> (\<forall>e \<in> set (esp_entries (surv_pdo p)). ese_index e = [] \<and> ese_bitSize e = 0)"
  by (simp add: surv_pdo_def no_pdo_def surv_entry_def no_entry_def)

end
