(* ===== verification/Commissioning.thy ===== *)
theory Commissioning
  imports ProcessRows QtRegex
begin

text \<open>
  The commissioning overview: the steps of the workflow and their states (\<^verbatim>\<open>models/CommissioningWorkflowModel.cpp\<close>),
  the action recommended next (\<^verbatim>\<open>models/NextBestActionModel.cpp\<close>), and the gate of the consistency check with the routing of
  its issues (\<^verbatim>\<open>models/ConsistencyModel.cpp\<close>). Texts are Latin-1, so the Chinese alternatives never match and are left out.
\<close>

section \<open>The workflow\<close>

datatype workflow_status = Ready | Action | Blocked

datatype workflow_step =
    ConnectRuntime | ScanTopology | SelectSlave | InspectObjectDictionary | ReviewObjectDictionaryEvidence | ReviewPdoMap
  | MonitorWatch | ReviewStartupDiffs | RunConsistencyGate | ValidateProcessImage

record workflow_input =
  wi_connected :: bool
  wi_hasSlaves :: bool
  wi_hasSelectedSlave :: bool
  wi_hasSdoRows :: bool
  wi_hasFailedOdEvidence :: bool
  wi_hasPdoRows :: bool
  wi_hasWatchRows :: bool
  wi_hasStartupWatchDiffs :: bool
  wi_hasConsistencyCheck :: bool
  wi_hasConsistencyBlockingIssues :: bool
  wi_freeRunEnabled :: bool
  wi_hasFreeRunRows :: bool

definition commissioningWorkflowStepOrder :: "workflow_step list" where
  "commissioningWorkflowStepOrder = [ConnectRuntime, ScanTopology, SelectSlave, InspectObjectDictionary, ReviewObjectDictionaryEvidence,
     ReviewPdoMap, MonitorWatch, ReviewStartupDiffs, RunConsistencyGate, ValidateProcessImage]"

definition commissioningWorkflowStatus :: "bool \<Rightarrow> bool \<Rightarrow> workflow_status" where
  "commissioningWorkflowStatus done_flag ready = (if done_flag then Ready else if ready then Action else Blocked)"

fun step_status :: "workflow_input \<Rightarrow> workflow_step \<Rightarrow> workflow_status" where
  "step_status i ConnectRuntime = commissioningWorkflowStatus (wi_connected i) True"
| "step_status i ScanTopology = commissioningWorkflowStatus (wi_hasSlaves i) (wi_connected i)"
| "step_status i SelectSlave = commissioningWorkflowStatus (wi_hasSelectedSlave i) (wi_hasSlaves i)"
| "step_status i InspectObjectDictionary = commissioningWorkflowStatus (wi_hasSdoRows i) (wi_hasSelectedSlave i)"
| "step_status i ReviewObjectDictionaryEvidence =
     commissioningWorkflowStatus (wi_hasSdoRows i \<and> \<not> wi_hasFailedOdEvidence i) (wi_hasSdoRows i)"
| "step_status i ReviewPdoMap = commissioningWorkflowStatus (wi_hasPdoRows i) (wi_hasSelectedSlave i)"
| "step_status i MonitorWatch = commissioningWorkflowStatus (wi_hasWatchRows i) (wi_hasSelectedSlave i)"
| "step_status i ReviewStartupDiffs =
     commissioningWorkflowStatus (wi_hasWatchRows i \<and> \<not> wi_hasStartupWatchDiffs i) (wi_hasWatchRows i)"
| "step_status i RunConsistencyGate =
     commissioningWorkflowStatus (wi_hasConsistencyCheck i \<and> \<not> wi_hasConsistencyBlockingIssues i) (wi_hasWatchRows i \<and> \<not> wi_hasStartupWatchDiffs i)"
| "step_status i ValidateProcessImage =
     commissioningWorkflowStatus (wi_freeRunEnabled i \<or> wi_hasFreeRunRows i) (wi_connected i \<and> wi_hasSelectedSlave i)"

definition buildCommissioningWorkflowStepStates :: "workflow_input \<Rightarrow> (workflow_step \<times> workflow_status) list" where
  "buildCommissioningWorkflowStepStates i = map (\<lambda>s. (s, step_status i s)) commissioningWorkflowStepOrder"

fun first_not_ready :: "int \<Rightarrow> (workflow_step \<times> workflow_status) list \<Rightarrow> int" where
  "first_not_ready row [] = - 1"
| "first_not_ready row (s # states) = (if snd s \<noteq> Ready then row else first_not_ready (row + 1) states)"

definition nextCommissioningWorkflowStepIndex :: "workflow_input \<Rightarrow> int" where
  "nextCommissioningWorkflowStepIndex i = first_not_ready 0 (buildCommissioningWorkflowStepStates i)"

definition commissioningWorkflowStepStatus :: "(workflow_step \<times> workflow_status) list \<Rightarrow> workflow_step \<Rightarrow> workflow_status" where
  "commissioningWorkflowStepStatus states step = (case find (\<lambda>s. fst s = step) states of None \<Rightarrow> Blocked | Some s \<Rightarrow> snd s)"

definition commissioningWorkflowStepForIndex :: "int \<Rightarrow> workflow_step" where
  "commissioningWorkflowStepForIndex index =
     (if index \<ge> 0 \<and> index < int (length commissioningWorkflowStepOrder) then commissioningWorkflowStepOrder ! nat index else ConnectRuntime)"

fun step_position :: "int \<Rightarrow> workflow_step \<Rightarrow> workflow_step list \<Rightarrow> int" where
  "step_position n step [] = - 1"
| "step_position n step (s # steps) = (if s = step then n else step_position (n + 1) step steps)"

definition commissioningWorkflowStepIndex :: "workflow_step \<Rightarrow> int" where
  "commissioningWorkflowStepIndex step = step_position 0 step commissioningWorkflowStepOrder"

section \<open>The next action\<close>

datatype action_kind =
    Connect | Diagnostics | Rescan | SelectASlave | LoadOd | FailedOdEvidence | LoadPdo | AddWatch | StartupDiffs
  | ConsistencyEvidenceIssue | Consistency | FreeRun | MatrixReview | CommandPalette

datatype action_severity = SevOk | SevAction | SevWarning | SevError | SevNeutral

record action_input =
  ai_workflow :: workflow_input
  ai_hasDiagnosticError :: bool
  ai_consistencyBlockingIssueRow :: int
  ai_matrixP0 :: int
  ai_matrixP1 :: int
  ai_matrixP2 :: int

definition chooseNextBestAction :: "action_input \<Rightarrow> action_kind \<times> action_severity" where
  "chooseNextBestAction i = (let w = ai_workflow i in
     if \<not> wi_connected w then (Connect, SevAction)
     else if ai_hasDiagnosticError i then (Diagnostics, SevError)
     else if \<not> wi_hasSlaves w then (Rescan, SevAction)
     else if \<not> wi_hasSelectedSlave w then (SelectASlave, SevAction)
     else if \<not> wi_hasSdoRows w then (LoadOd, SevAction)
     else if wi_hasFailedOdEvidence w then (FailedOdEvidence, SevWarning)
     else if \<not> wi_hasPdoRows w then (LoadPdo, SevAction)
     else if \<not> wi_hasWatchRows w then (AddWatch, SevAction)
     else if wi_hasStartupWatchDiffs w then (StartupDiffs, SevWarning)
     else if \<not> wi_hasConsistencyCheck w \<or> wi_hasConsistencyBlockingIssues w then
       (if wi_hasConsistencyCheck w \<and> ai_consistencyBlockingIssueRow i \<ge> 0 then (ConsistencyEvidenceIssue, SevWarning)
        else (Consistency, if wi_hasConsistencyBlockingIssues w then SevWarning else SevAction))
     else if \<not> wi_freeRunEnabled w \<and> \<not> wi_hasFreeRunRows w then (FreeRun, SevAction)
     else if ai_matrixP0 i + ai_matrixP1 i + ai_matrixP2 i > 0 then
       (MatrixReview, if ai_matrixP0 i + ai_matrixP1 i > 0 then SevWarning else SevAction)
     else (CommandPalette, SevNeutral))"

fun nextBestActionKey :: "action_kind \<Rightarrow> string" where
  "nextBestActionKey Connect = ''connect''"
| "nextBestActionKey Diagnostics = ''diagnostics''"
| "nextBestActionKey Rescan = ''rescan''"
| "nextBestActionKey SelectASlave = ''selectSlave''"
| "nextBestActionKey LoadOd = ''loadOd''"
| "nextBestActionKey FailedOdEvidence = ''failedOdEvidence''"
| "nextBestActionKey LoadPdo = ''loadPdo''"
| "nextBestActionKey AddWatch = ''addWatch''"
| "nextBestActionKey StartupDiffs = ''startupDiffs''"
| "nextBestActionKey ConsistencyEvidenceIssue = ''consistencyEvidenceIssue''"
| "nextBestActionKey Consistency = ''consistency''"
| "nextBestActionKey FreeRun = ''freeRun''"
| "nextBestActionKey MatrixReview = ''matrixReview''"
| "nextBestActionKey CommandPalette = ''commandPalette''"

fun nextBestActionSeverityKey :: "action_severity \<Rightarrow> string" where
  "nextBestActionSeverityKey SevOk = ''ok''"
| "nextBestActionSeverityKey SevAction = ''action''"
| "nextBestActionSeverityKey SevWarning = ''warning''"
| "nextBestActionSeverityKey SevError = ''error''"
| "nextBestActionSeverityKey SevNeutral = ''neutral''"

section \<open>The consistency gate\<close>

datatype issue_level = LevelError | LevelWarning | LevelReady | LevelInfo | LevelEmpty

datatype gate_state = NotRun | Stale | Blocking | Passed

record issue_counts =
  ic_errors :: int
  ic_warnings :: int
  ic_infos :: int
  ic_ready :: int

definition no_issues :: issue_counts where
  "no_issues = \<lparr>ic_errors = 0, ic_warnings = 0, ic_infos = 0, ic_ready = 0\<rparr>"

definition consistencyIssueLevelFromText :: "string \<Rightarrow> issue_level" where
  "consistencyIssueLevelFromText level = (let n = to_lower level in
     if contains_str ''error'' n then LevelError
     else if contains_str ''warning'' n then LevelWarning
     else if contains_str ''ready'' n then LevelReady
     else if trimmed n \<noteq> [] then LevelInfo
     else LevelEmpty)"

fun addConsistencyIssueLevel :: "issue_counts \<Rightarrow> issue_level \<Rightarrow> issue_counts" where
  "addConsistencyIssueLevel c LevelError = c\<lparr>ic_errors := ic_errors c + 1\<rparr>"
| "addConsistencyIssueLevel c LevelWarning = c\<lparr>ic_warnings := ic_warnings c + 1\<rparr>"
| "addConsistencyIssueLevel c LevelReady = c\<lparr>ic_ready := ic_ready c + 1\<rparr>"
| "addConsistencyIssueLevel c LevelInfo = c\<lparr>ic_infos := ic_infos c + 1\<rparr>"
| "addConsistencyIssueLevel c LevelEmpty = c"

definition consistencyHasBlockingIssues :: "issue_counts \<Rightarrow> bool" where
  "consistencyHasBlockingIssues c \<longleftrightarrow> ic_errors c > 0 \<or> ic_warnings c > 0"

definition consistencyGateState :: "bool \<Rightarrow> bool \<Rightarrow> issue_counts \<Rightarrow> gate_state" where
  "consistencyGateState available fresh c =
     (if \<not> available then NotRun else if \<not> fresh then Stale else if consistencyHasBlockingIssues c then Blocking else Passed)"

section \<open>Where an issue leads\<close>

record detail_row =
  dr_level :: string
  dr_scope :: string
  dr_target :: string
  dr_evidence :: string
  dr_expected :: string
  dr_actual :: string
  dr_action :: string

record evidence_address =
  ea_position :: int
  ea_index :: string
  ea_subIndex :: string

definition address_re :: "rx list" where
  "address_re = [Lit ''#'', Spaces0, Grp 1 [Digits],
     Alt [Spaces, Lit ''0x'', Grp 2 [Hexes], Spaces0, Lit '':'', Spaces0, Lit ''0x'', Grp 3 [Hexes]] []]"

definition parseConsistencyEvidenceAddress :: "string \<Rightarrow> evidence_address" where
  "parseConsistencyEvidenceAddress target = (case rx_match rx_plain address_re target of
      None \<Rightarrow> \<lparr>ea_position = - 1, ea_index = [], ea_subIndex = []\<rparr>
    | Some m \<Rightarrow> (let a = \<lparr>ea_position = or_zero (to_int32 (captured m 1)), ea_index = [], ea_subIndex = []\<rparr> in
        if captured m 2 \<noteq> [] then a\<lparr>ea_index := normalizeHexText 4 (''0x'' @ captured m 2), ea_subIndex := normalizeHexText 2 (''0x'' @ captured m 3)\<rparr>
        else a))"

definition startup_row_re :: "rx list" where
  "startup_row_re = [Lit ''startup'', Spaces, Lit ''row'', Spaces0, Grp 1 [Digits]]"

definition parseConsistencyStartupRow :: "string \<Rightarrow> int" where
  "parseConsistencyStartupRow target = (case rx_match rx_ci startup_row_re target of
      None \<Rightarrow> - 1 | Some m \<Rightarrow> or_zero (to_int32 (captured m 1)) - 1)"

definition any_in :: "string list \<Rightarrow> string \<Rightarrow> bool" where
  "any_in ws s \<longleftrightarrow> list_ex (\<lambda>w. contains_str w s) ws"

definition consistencyEvidenceIoScope :: "detail_row \<Rightarrow> string" where
  "consistencyEvidenceIoScope row =
     (let combined = to_lower (join_with '' '' [dr_target row, dr_evidence row, dr_actual row, dr_action row]) in
      if any_in [''plc'', ''alias'', ''tag''] combined then ''plcIssues''
      else if any_in [''startup''] combined then ''startupDiff''
      else if any_in [''raw'', ''watch'', ''value''] combined then ''missingValue''
      else if any_in [''map'', ''pdo''] combined then ''pdo''
      else ''all'')"

datatype route_kind = RouteTopology | RouteStartup | RouteWatch | RouteIoVariables

record route_decision =
  rd_kind :: route_kind
  rd_address :: evidence_address
  rd_startupRow :: int
  rd_ioScope :: string

definition consistencyEvidenceRouteDecision :: "detail_row \<Rightarrow> route_decision" where
  "consistencyEvidenceRouteDecision row =
     (let scope = to_lower (dr_scope row); combined = to_lower (join_with '' '' [dr_scope row, dr_evidence row, dr_action row]) in
      \<lparr>rd_kind = (if contains_str ''topology'' scope then RouteTopology
         else if contains_str ''startup'' scope \<or> contains_str ''startup'' combined then RouteStartup
         else if any_in [''watch'', ''missing''] combined then RouteWatch
         else RouteIoVariables),
       rd_address = parseConsistencyEvidenceAddress (dr_target row), rd_startupRow = parseConsistencyStartupRow (dr_target row),
       rd_ioScope = consistencyEvidenceIoScope row\<rparr>)"

section \<open>What the overview shows\<close>

lemma step_index_inverse: "commissioningWorkflowStepForIndex (commissioningWorkflowStepIndex s) = s"
  by (cases s) (simp_all add: commissioningWorkflowStepForIndex_def commissioningWorkflowStepIndex_def commissioningWorkflowStepOrder_def)

lemma step_status_built: "commissioningWorkflowStepStatus (buildCommissioningWorkflowStepStates i) s = step_status i s"
  by (cases s) (simp_all add: commissioningWorkflowStepStatus_def buildCommissioningWorkflowStepStates_def commissioningWorkflowStepOrder_def)

lemma action_keys_differ: "nextBestActionKey a = nextBestActionKey b \<longleftrightarrow> a = b"
  by (cases a; cases b) simp_all

fun step_of_action :: "action_kind \<Rightarrow> int" where
  \<comment> \<open>the step an action works on; - 1 where the workflow is through\<close>
  "step_of_action Connect = 0"
| "step_of_action Rescan = 1"
| "step_of_action SelectASlave = 2"
| "step_of_action LoadOd = 3"
| "step_of_action FailedOdEvidence = 4"
| "step_of_action LoadPdo = 5"
| "step_of_action AddWatch = 6"
| "step_of_action StartupDiffs = 7"
| "step_of_action ConsistencyEvidenceIssue = 8"
| "step_of_action Consistency = 8"
| "step_of_action FreeRun = 9"
| "step_of_action k = - 1"

lemmas workflow_defs = nextCommissioningWorkflowStepIndex_def buildCommissioningWorkflowStepStates_def commissioningWorkflowStepOrder_def
  commissioningWorkflowStatus_def

text \<open>
  Claim C25 (equivalence). The two views of the commissioning overview agree: unless a diagnostic error takes precedence, the
  recommended action is the one that works on the first step of the workflow that is not ready, and the workflow is through
  exactly if no such action is left. The first step that is not ready is never a blocked one.
\<close>

theorem workflow_and_action_agree:
  "(if wi_connected (ai_workflow i) \<and> ai_hasDiagnosticError i then fst (chooseNextBestAction i) = Diagnostics
    else nextCommissioningWorkflowStepIndex (ai_workflow i) = step_of_action (fst (chooseNextBestAction i)))
   \<and> (let n = nextCommissioningWorkflowStepIndex (ai_workflow i)
      in n = - 1 \<or> step_status (ai_workflow i) (commissioningWorkflowStepForIndex n) = Action)"
proof
  show "if wi_connected (ai_workflow i) \<and> ai_hasDiagnosticError i then fst (chooseNextBestAction i) = Diagnostics
    else nextCommissioningWorkflowStepIndex (ai_workflow i) = step_of_action (fst (chooseNextBestAction i))"
    by (simp add: chooseNextBestAction_def Let_def workflow_defs)
  show "let n = nextCommissioningWorkflowStepIndex (ai_workflow i)
      in n = - 1 \<or> step_status (ai_workflow i) (commissioningWorkflowStepForIndex n) = Action"
    by (simp add: Let_def workflow_defs commissioningWorkflowStepForIndex_def)
qed

end
