(* ===== verification/Spec2Isabelle.thy ===== *)
theory Spec2Isabelle
  imports ShmProtocol EthercatTypes EniGenerator ClientDaemon SlaveStates AsyncOperations SdoCache DriveModel
    PdoMapping PdoValidator PlcHandoff AlarmLog HostDiagnostics NekoBus
    EsiExchange EsiRoundtrip Commissioning
begin

text \<open>
  NekoEcat Studio configures and runs an EtherCAT bus. The daemon \<^verbatim>\<open>ecatd\<close> (\<^verbatim>\<open>apps/ecatd\<close>) owns the bus: it
  answers JSON requests, one line each, on a local TCP port, runs the \<^verbatim>\<open>ethercat\<close> command line tool or the
  native backend, and drives real-time loops over the \<^verbatim>\<open>ecrt\<close> library, mirroring the process image
  into shared memory. The studio (\<^verbatim>\<open>apps/ecat-studio\<close>) is its graphical client. This development models
  the daemon, the shared core (\<^verbatim>\<open>src/core\<close>, \<^verbatim>\<open>src/igh\<close>), the studio's client of the daemon and those of
  its services and models that keep a state or make decisions of their own.

  \<^bold>\<open>How the code is modelled.\<close> A class is a record of its members; a method is a function from the state
  to its result and the state after; an early return is a branch. JSON values, texts and regular expressions
  are data (\<open>QtJson\<close>, \<open>QtText\<close>, \<open>QtRegex\<close>: the documented behaviour of the Qt classes, as
  far as the code uses it), so that every parser of the code is executable here. Words have the width of
  the code where it wraps. What is outside the program is a parameter: running a process (\<open>proc\<close>), the file
  systems, the answers of \<^verbatim>\<open>ecrt\<close> and of system calls, the clock, the JSON text codec. An error out-parameter is an
  option (\<open>stored\<close>); \<open>std::terminate\<close> is a flag. Texts are Latin-1. Mutexes are not
  modelled where an operation runs under one throughout: its effect is one step (\<open>AsyncOperations\<close> names the two
  methods that release theirs in between). The exceptions are the file checks of \<open>FoEHandler\<close>, between which other
  processes act, and the shared memory, where single memory operations of daemon and clients interleave.

  \<^bold>\<open>The theories.\<close>
  \<^item> \<open>Prelude\<close>, \<open>QtText\<close>, \<open>QtJson\<close>, \<open>QtRegex\<close>, \<open>QtHash\<close>, \<open>BoundedLog\<close>, \<open>LineReader\<close>: shared data and lemmas. The locale
    \<open>bounded_log\<close> is the contract of every capped log, \<open>line_reader\<close> that of both ends of the protocol.
  \<^item> \<open>JsonRpc\<close>: envelopes and the dispatch table (\<^verbatim>\<open>JsonProtocol.cpp\<close>, \<^verbatim>\<open>CommandDispatcher.cpp\<close>); the locales
    \<open>rpc_handler\<close> (a response is an envelope with the request's id) and \<open>rpc_table\<close>.
  \<^item> \<open>EthercatTypes\<close>, \<open>Backend\<close>: the service types, the service interface and the command line backend
    (\<^verbatim>\<open>EthercatTypes.cpp\<close>, \<^verbatim>\<open>EcatService.h\<close>, \<^verbatim>\<open>EthercatCliBackend.cpp\<close>); locale \<open>ecat_contract\<close>.
  \<^item> \<open>ByteOrder\<close>, \<open>NativeBackend\<close>, \<open>HostDiagnostics\<close>: numbers in memory, the backend over the \<^verbatim>\<open>ecrt\<close> library
    (\<^verbatim>\<open>EthercatNativeBackend.cpp\<close>) with the masters it opens and gives back, and the checks of the host, which complete
    both backends; each interprets \<open>ecat_contract\<close>.
  \<^item> \<open>ShmMirror\<close>, \<open>ShmProtocol\<close>: one mirror cycle (\<^verbatim>\<open>freerun_shm_mirror.cpp\<close>, \<^verbatim>\<open>nekoecat_shm.h\<close>) and its
    interleaving with a reading and a writing client (\<^verbatim>\<open>client/nekoecat_client.c\<close>).
  \<^item> \<open>ClientText\<close>, \<open>NekoClient\<close>, \<open>NekoSafety\<close>, \<open>NekoBus\<close>: the C client library (\<^verbatim>\<open>src/client/nekoecat_client.c\<close>): its
    scanning of the layout, every function of its interface over the system calls, the bounds of its memory accesses, and
    its composition with the mirror cycle and the layout text of the daemon.
  \<^item> \<open>FreeRunConfig\<close>, \<open>FreeRunController\<close>, \<open>FreeRunCycle\<close>: the process data controller (\<^verbatim>\<open>FreeRunController.cpp\<close>,
    \<^verbatim>\<open>freerun_rpc_handlers.cpp\<close>): parsing the configuration, start, cycle, telemetry, stop.
  \<^item> \<open>RtTestController\<close>: the real-time test (\<^verbatim>\<open>RtTestController.cpp\<close>).
  \<^item> \<open>AlEventHandler\<close>, \<open>SignalHandler\<close>, \<open>RedundancyHandler\<close>, \<open>OnlineChangeHandler\<close>, \<open>EoEHandler\<close>, \<open>SoEHandler\<close>,
    \<open>FoEHandler\<close>, \<open>DcSyncHandler\<close>, \<open>AdapterHandler\<close>: the handler classes of \<^verbatim>\<open>apps/ecatd/handlers\<close>, each with
    its methods and an interpretation of \<open>rpc_handler\<close>.
  \<^item> \<open>DaemonMethods\<close>, \<open>EcatDaemon\<close>: the daemon (\<^verbatim>\<open>EcatDaemon.cpp\<close>). The first has its state, the lambdas of
    \<^verbatim>\<open>setupHandlers\<close> (\<open>h_\<dots>\<close>), the table and \<^verbatim>\<open>setBackendMode\<close>; the second the connections, the framing,
    the timers, and the step relation \<open>daemon_step\<close> that interleaves them with the loops. The locales \<open>daemon_frame\<close> and
    \<open>daemon_method\<close> state what a method leaves alone and what it keeps. \<open>readClient\<close> reads with writes that go through;
    \<open>serveClient\<close> is the same loop with the outcome of each write as an argument.
  \<^item> \<open>ClientCalls\<close>, \<open>EcatClient\<close>: the studio's client (\<^verbatim>\<open>infra/EcatClient.cpp\<close>); \<open>ClientDaemon\<close>: both ends together.
  \<^item> \<open>SlaveStates\<close>: the requested states of the slaves and the safety checks (\<^verbatim>\<open>services/StateMachineService.cpp\<close>,
    \<^verbatim>\<open>services/SafetyController.cpp\<close>); it sends through \<open>EcatClient\<close> and interprets \<open>bounded_log\<close>.
  \<^item> \<open>AsyncOperations\<close>: the pool of operations (\<^verbatim>\<open>services/AsyncOperationManager.cpp\<close>) as events of callers, workers and
    timers; \<open>SdoCache\<close>: the cache of object values (\<^verbatim>\<open>services/SdoCacheService.cpp\<close>), a list of nodes and an index into it.
  \<^item> \<open>PdoMapping\<close>, \<open>PdoValidator\<close>: the stored mappings with their files and layouts, and the check of an edited layout
    (\<^verbatim>\<open>services/PdoMappingService.cpp\<close>, \<^verbatim>\<open>plugins/pdomapping/PdoMappingValidator.cpp\<close>).
  \<^item> \<open>DriveModel\<close>: the CiA 402 texts (\<^verbatim>\<open>models/Cia402DriveModel.cpp\<close>); \<open>ProcessRows\<close>, \<open>PlcHandoff\<close>: the I/O variables and
    their export (\<^verbatim>\<open>models/ProcessDataRowModel.cpp\<close>, \<^verbatim>\<open>models/EvidenceModel.cpp\<close>, \<^verbatim>\<open>models/IoVariableModel.cpp\<close>);
    \<open>AlarmLog\<close>: the alarms (\<^verbatim>\<open>services/AlarmService.cpp\<close>).
  \<^item> \<open>QtXml\<close>, \<open>EsiRepository\<close>, \<open>EsiExchange\<close>, \<open>EsiRoundtrip\<close>: documents and their reader, the repository of device
    descriptions (\<^verbatim>\<open>services/EsiService.cpp\<close>), the parser and the matcher over it (\<^verbatim>\<open>plugins/esi/EsiParser.cpp\<close>,
    \<^verbatim>\<open>plugins/esi/EsiDeviceMatcher.cpp\<close>), and what is left of a device that was exported and imported.
  \<^item> \<open>Commissioning\<close>: the steps of commissioning, the action recommended next and the gate of the consistency check
    (\<^verbatim>\<open>models/CommissioningWorkflowModel.cpp\<close>, \<^verbatim>\<open>models/NextBestActionModel.cpp\<close>, \<^verbatim>\<open>models/ConsistencyModel.cpp\<close>).
  \<^item> \<open>EniGenerator\<close>: the network information document (\<^verbatim>\<open>src/core/EniGenerator.cpp\<close>).

  \<^bold>\<open>What is shown.\<close> A cycle publishes exactly the image with the clients' outputs laid over it, no read the
  double-read protocol accepts is torn, and the interleaved model refines the cycle of the code. A value a client
  writes by index is on the bus after the next cycle, no function of the client touches memory outside its mapping
  while the objects have the sizes the daemon gives them, and its waiting ends. Resources
  of the real-time controllers balance over every sequence of operations; no client can drive the mirror
  out of bounds. The whole daemon keeps the conjunction of its components' invariants under every
  interleaving, as long as sleeps succeed and \<open>ecrt\<close>'s image holds what is registered in it; it answers the lines
  in order, once each, with the request's id, up to the first write that fails or the request that ends the process,
  and cannot tell how the stream was cut; a call of the client comes back to its continuation, and a
  daemon that answers no ping is given up. Parsers are round trips on the texts the
  tools print, logs keep the newest entries within their caps, file transfers start and end with checked paths
  in the allowed directories, the generated document is well nested. Of the studio: recorded slave states are paths of the
  EtherCAT state diagram, given by its arrows, the slots of the operation pool are accounted for and none is lost, the cache is a bounded
  least-recently-used cache, stored mappings are well formed and come back from their files, exported names
  differ, alarms only move on, the repository finds every device by its numbers and a device comes back from its export with its
  identity but without its names and types, the two views of the commissioning overview agree. The native backend gives back every master it opens but the one it
  keeps, and reads an object as it was written. Theorems marked as errors state where the code
  does not do what it means to; the manifest lists them as findings.

  \<^bold>\<open>Bounds and fuel.\<close> Repetitions of a regular expression and replacements run on fuel that is the length of the
  text, which suffices because no pattern of the code matches an empty text; the XML reader of \<open>DcSyncHandler\<close> runs on fuel, the
  number of tokens, each step taking one, the loop of \<open>EsiRepository\<close> by their number. The loops that look for a free operation or a free name are functions with
  a termination proof. The request buffer's cap is \<open>kMaxSocketBuffer\<close>, the logs' caps are
  the constants of the code.

  \<^bold>\<open>Not modelled.\<close> Thread scheduling and memory locking, the widgets, plugins, themes and translations of the
  studio and its services that only keep records for a page, process entry points, tests and scripts.
\<close>

end
